(* ===== verification/Prelude.thy ===== *)
theory Prelude
  imports Main "HOL-Library.Finite_Map" "HOL-Library.Sublist"
    "HOL-Library.Char_ord" "HOL-Library.List_Lexorder"
begin

text \<open>
  What every component shares: the error values and checks that return a result, the scans over
  lists with loop-carried variables, and the Go string helpers the code calls.
\<close>

section \<open>Errors, results and time\<close>

text \<open>\<open>Err m\<close> is \<open>errors.New(m)\<close> (the message without its arguments), \<open>At c e\<close> is
  \<open>fmt.Errorf("c: %w", e)\<close>, \<open>Joined es\<close> is \<open>errors.Join\<close>, \<open>Api code\<close> an AWS API error with
  its code, \<open>Transport m\<close> any other failure of a call, \<open>Cancelled\<close> the error of an ended
  context and \<open>OutOfFuel\<close> the value of a loop that used up the model's bound.\<close>

datatype gerr = Err string | At string gerr | Joined "gerr list" | Api string | Transport string
  | Cancelled | OutOfFuel

type_synonym 'a res = "gerr + 'a"

type_synonym gotime = int \<comment> \<open>nanoseconds since Go's zero time; \<open>IsZero t\<close> is \<open>t = 0\<close>\<close>

definition second :: gotime where "second = 1000000000"
definition minute :: gotime where "minute = 60 * second"

named_theorems wp_rules \<open>weakest preconditions of the operation combinators\<close>
named_theorems res_simps \<open>inversion of checks that return a result\<close>

fun is_ok :: "'a res \<Rightarrow> bool" where
  "is_ok (Inr _) = True"
| "is_ok (Inl _) = False"

lemma is_ok_iff: "is_ok r \<longleftrightarrow> (\<exists>a. r = Inr a)"
  by (cases r) auto

text \<open>\<open>after c k\<close>: the check \<open>c\<close> returned no error, go on with \<open>k\<close>.\<close>

definition after :: "'a res \<Rightarrow> ('a \<Rightarrow> 'b res) \<Rightarrow> 'b res" where
  "after c k = (case c of Inl e \<Rightarrow> Inl e | Inr a \<Rightarrow> k a)"

lemma after_Inr_iff [res_simps]: "after c k = Inr b \<longleftrightarrow> (\<exists>a. c = Inr a \<and> k a = Inr b)"
  by (cases c) (auto simp: after_def)

lemma after_simps [simp]: "after (Inl e) k = Inl e" "after (Inr a) k = k a"
  by (simp_all add: after_def)

lemma if_Inl_iff [res_simps]: "((if b then Inl e else r) = Inr a) \<longleftrightarrow> \<not> b \<and> r = Inr a"
  by simp

text \<open>A loop of checks over a list: the first error is the result.\<close>

fun each_ok :: "('a \<Rightarrow> unit res) \<Rightarrow> 'a list \<Rightarrow> unit res" where
  "each_ok f [] = Inr ()"
| "each_ok f (x # xs) = after (f x) (\<lambda>_. each_ok f xs)"

lemma each_ok_iff [res_simps]: "each_ok f xs = Inr () \<longleftrightarrow> (\<forall>x \<in> set xs. f x = Inr ())"
  by (induction xs) (auto simp: res_simps)

text \<open>The same with loop-carried variables (the sets of names seen so far, running totals).\<close>

fun scan_ok :: "('s \<Rightarrow> 'a \<Rightarrow> 's res) \<Rightarrow> 's \<Rightarrow> 'a list \<Rightarrow> 's res" where
  "scan_ok f s [] = Inr s"
| "scan_ok f s (x # xs) = after (f s x) (\<lambda>s'. scan_ok f s' xs)"

lemma scan_ok_append:
  "scan_ok f s (xs @ ys) = after (scan_ok f s xs) (\<lambda>s'. scan_ok f s' ys)"
  by (induction xs arbitrary: s) (auto simp: after_def split: sum.splits)

lemma scan_ok_invariant:
  assumes "scan_ok f s xs = Inr s'" and "P s"
    and "\<And>s x s'. x \<in> set xs \<Longrightarrow> P s \<Longrightarrow> f s x = Inr s' \<Longrightarrow> P s'"
  shows "P s'"
  using assms
proof (induction xs arbitrary: s)
  case Nil
  then show ?case by simp
next
  case (Cons x xs)
  from Cons.prems(1) obtain s1 where s1: "f s x = Inr s1" and rest: "scan_ok f s1 xs = Inr s'"
    by (auto simp: res_simps)
  have "P s1" by (rule Cons.prems(3) [OF _ Cons.prems(2) s1]) simp
  then show ?case by (rule Cons.IH [OF rest]) (rule Cons.prems(3), auto)
qed

text \<open>A scan whose steps each establish a fact about their element that does not depend on the
  loop-carried state.\<close>

lemma scan_ok_all:
  assumes "scan_ok f s xs = Inr s'"
    and "\<And>s x s'. f s x = Inr s' \<Longrightarrow> Q x"
  shows "\<forall>x \<in> set xs. Q x"
  using assms(1)
proof (induction xs arbitrary: s)
  case Nil
  then show ?case by simp
next
  case (Cons x xs)
  then show ?case using assms(2) by (fastforce simp: res_simps)
qed

text \<open>The scan that refuses a repeated key (\<open>seen[k]\<close>) accepts exactly lists of distinct keys.\<close>

lemma scan_ok_distinct:
  assumes "scan_ok f s xs = Inr s'"
    and step: "\<And>s x s'. f s x = Inr s' \<Longrightarrow> key x \<notin> seen s \<and> seen s' = insert (key x) (seen s)"
  shows "distinct (map key xs) \<and> (\<forall>x \<in> set xs. key x \<notin> seen s) \<and> seen s' = seen s \<union> key ` set xs"
  using assms(1)
proof (induction xs arbitrary: s)
  case Nil
  then show ?case by simp
next
  case (Cons x xs)
  from Cons.prems obtain s1 where s1: "f s x = Inr s1" and rest: "scan_ok f s1 xs = Inr s'"
    by (auto simp: res_simps)
  from step [OF s1] have h: "key x \<notin> seen s" "seen s1 = insert (key x) (seen s)" by auto
  from Cons.IH [OF rest] h show ?case by auto
qed

section \<open>Strings\<close>

text \<open>The text of an error and \<open>node.SafeError\<close>: one line of at most 4096 bytes.\<close>

fun error_text :: "gerr \<Rightarrow> string" where
  "error_text (Err m) = m"
| "error_text (At c e) = c @ '': '' @ error_text e"
| "error_text (Joined es) = concat (map (\<lambda>e. error_text e @ [CHR 0x0A]) es)"
| "error_text (Api code) = ''api error '' @ code"
| "error_text (Transport m) = ''transport: '' @ m"
| "error_text Cancelled = ''context canceled''"
| "error_text OutOfFuel = ''out of fuel''"

definition safe_error :: "gerr \<Rightarrow> string" where
  "safe_error e = take 4096 (map (\<lambda>c. if c = CHR 0x0A then CHR '' '' else c) (error_text e))"

definition contains_any :: "string \<Rightarrow> string \<Rightarrow> bool" where
  "contains_any s cs = list_ex (\<lambda>c. c \<in> set cs) s"

definition has_prefix :: "string \<Rightarrow> string \<Rightarrow> bool" where
  "has_prefix s p = prefix p s"

definition trim_prefix :: "string \<Rightarrow> string \<Rightarrow> string" where
  "trim_prefix s p = (if prefix p s then drop (length p) s else s)"

text \<open>\<open>s[strings.LastIndex(s, c)+1:]\<close> for a one-character separator.\<close>

definition after_last :: "char \<Rightarrow> string \<Rightarrow> string" where
  "after_last c s = rev (takeWhile (\<lambda>d. d \<noteq> c) (rev s))"

text \<open>\<open>s[:strings.LastIndex(s, c)]\<close>, for a text that has the separator.\<close>

definition before_last :: "char \<Rightarrow> string \<Rightarrow> string" where
  "before_last c s = rev (drop 1 (dropWhile (\<lambda>d. d \<noteq> c) (rev s)))"

text \<open>\<open>strings.Cut(s, sep)\<close> for a one-character separator: before, after, found.\<close>

definition cut :: "char \<Rightarrow> string \<Rightarrow> string \<times> string \<times> bool" where
  "cut c s = (takeWhile (\<lambda>d. d \<noteq> c) s, drop 1 (dropWhile (\<lambda>d. d \<noteq> c) s), c \<in> set s)"

text \<open>ASCII \<open>strings.ToLower\<close>, and \<open>strings.EqualFold\<close> on ASCII text.\<close>

definition lower_char :: "char \<Rightarrow> char" where
  "lower_char c = (if CHR ''A'' \<le> c \<and> c \<le> CHR ''Z'' then char_of (of_char c + (32::nat)) else c)"

definition to_lower :: "string \<Rightarrow> string" where
  "to_lower s = map lower_char s"

definition equal_fold :: "string \<Rightarrow> string \<Rightarrow> bool" where
  "equal_fold a b \<longleftrightarrow> to_lower a = to_lower b"

text \<open>\<open>fmt.Sprint\<close> of an unsigned number and \<open>%03d\<close>.\<close>

definition digit_char :: "nat \<Rightarrow> char" where
  "digit_char n = char_of (48 + n)"

fun itoa :: "nat \<Rightarrow> string" where
  "itoa n = (if n < 10 then [digit_char n] else itoa (n div 10) @ [digit_char (n mod 10)])"

declare itoa.simps [simp del]

definition itoa_int :: "int \<Rightarrow> string" where
  "itoa_int i = (if i < 0 then CHR ''-'' # itoa (nat (- i)) else itoa (nat i))"

definition pad3 :: "nat \<Rightarrow> string" where
  "pad3 n = replicate (3 - length (itoa n)) (CHR ''0'') @ itoa n"

text \<open>\<open>strings.Split(s, c)\<close> for a one-character separator.\<close>

fun split_on :: "char \<Rightarrow> string \<Rightarrow> string list" where
  "split_on c [] = [[]]"
| "split_on c (x # xs) =
     (if x = c then [] # split_on c xs
      else (case split_on c xs of [] \<Rightarrow> [[x]] | p # ps \<Rightarrow> (x # p) # ps))"

lemma split_on_nonempty [simp]: "split_on c s \<noteq> []"
  by (induction s) (auto split: list.splits)

text \<open>\<open>strings.CutPrefix\<close>, the rest when the prefix is there, and \<open>strings.Join\<close>.\<close>

definition cut_prefix :: "string \<Rightarrow> string \<Rightarrow> string option" where
  "cut_prefix s p = (if prefix p s then Some (drop (length p) s) else None)"

fun join_with :: "string \<Rightarrow> string list \<Rightarrow> string" where
  "join_with sep [] = []"
| "join_with sep [x] = x"
| "join_with sep (x # y # xs) = x @ sep @ join_with sep (y # xs)"

text \<open>\<open>strings.Contains\<close>.\<close>

definition contains_text :: "string \<Rightarrow> string \<Rightarrow> bool" where
  "contains_text s t \<longleftrightarrow> list_ex (prefix t) (suffixes s)"

text \<open>Reading a decimal back (the value of \<open>strconv.Atoi\<close> on a text of digits).\<close>

definition digit_val :: "char \<Rightarrow> nat" where
  "digit_val c = of_char c - 48"

definition decimal :: "string \<Rightarrow> nat" where
  "decimal s = foldl (\<lambda>v c. 10 * v + digit_val c) 0 s"

text \<open>\<open>strconv.ParseUint(s, 10, bits)\<close> and \<open>strconv.Atoi\<close>: a text of digits, with an optional sign for
  the latter; an overflow is an error.\<close>

definition all_digits :: "string \<Rightarrow> bool" where
  "all_digits s \<longleftrightarrow> s \<noteq> [] \<and> list_all (\<lambda>c. CHR ''0'' \<le> c \<and> c \<le> CHR ''9'') s"

definition parse_uint :: "nat \<Rightarrow> string \<Rightarrow> nat option" where
  "parse_uint bits s = (if all_digits s \<and> decimal s < 2 ^ bits then Some (decimal s) else None)"

definition atoi :: "string \<Rightarrow> int option" where
  "atoi s = (let (neg, t) = (case s of c # r \<Rightarrow> if c = CHR ''-'' then (True, r) else if c = CHR ''+'' then (False, r)
       else (False, s) | [] \<Rightarrow> (False, s))
     in if \<not> all_digits t then None
     else let v = (if neg then - int (decimal t) else int (decimal t))
     in if - (2 ^ 63) \<le> v \<and> v < 2 ^ 63 then Some v else None)"

lemma digit_val_char: "n < 10 \<Longrightarrow> digit_val (digit_char n) = n"
  by (simp add: digit_val_def digit_char_def of_char_of)

lemma decimal_itoa [simp]: "decimal (itoa n) = n"
proof (induction n rule: itoa.induct)
  case (1 n)
  show ?case
  proof (cases "n < 10")
    case True
    then show ?thesis by (subst itoa.simps) (simp add: decimal_def digit_val_char)
  next
    case False
    with 1 show ?thesis by (subst itoa.simps) (simp add: decimal_def digit_val_char)
  qed
qed

lemma decimal_zeros [simp]: "decimal (replicate k CHR ''0'' @ s) = decimal s"
proof -
  have "foldl (\<lambda>v c. 10 * v + digit_val c) 0 (replicate k CHR ''0'') = 0"
    by (induction k) (simp_all add: digit_val_def)
  then show ?thesis by (simp add: decimal_def)
qed

lemma itoa_inj: "itoa m = itoa n \<Longrightarrow> m = n"
  by (metis decimal_itoa)

lemma decimal_pad3 [simp]: "decimal (pad3 n) = n"
  by (simp add: pad3_def)

lemma itoa_nonempty [simp]: "itoa n \<noteq> []"
  by (subst itoa.simps) simp

lemma itoa_digits: "c \<in> set (itoa n) \<Longrightarrow> CHR ''0'' \<le> c \<and> c \<le> CHR ''9''"
proof (induction n rule: itoa.induct)
  case (1 n)
  have d: "CHR ''0'' \<le> digit_char k \<and> digit_char k \<le> CHR ''9''" if "k < 10" for k
    using that by (simp add: digit_char_def less_eq_char_def of_char_of)
  show ?case
  proof (cases "n < 10")
    case True
    with "1.prems" d show ?thesis by (subst (asm) itoa.simps) simp
  next
    case False
    with "1.prems" have "c \<in> set (itoa (n div 10)) \<or> c = digit_char (n mod 10)"
      by (subst (asm) itoa.simps) auto
    then show ?thesis using "1.IH" False d by auto
  qed
qed

lemma itoa_length: "n < 1000 \<Longrightarrow> length (itoa n) \<le> 3"
  by (subst itoa.simps, subst itoa.simps, subst itoa.simps) auto

lemma pad3_length: "n < 1000 \<Longrightarrow> length (pad3 n) = 3"
  using itoa_length [of n] by (simp add: pad3_def)

lemma pad3_digits: "c \<in> set (pad3 n) \<Longrightarrow> CHR ''0'' \<le> c \<and> c \<le> CHR ''9''"
  by (auto simp: pad3_def dest: itoa_digits)

end
