(* ===== verification/Regexp.thy ===== *)
theory Regexp
  imports Prelude
begin

text \<open>
  The regular expressions of the repository, as Go's \<open>regexp\<close> reads them when anchored with
  \<open>^\<close> and \<open>$\<close>: expressions, their language, an executable matcher by derivatives proved equal
  to the language, and one definition per pattern variable of the source, with the
  characterisations the validators' proofs use.
\<close>

section \<open>Expressions and their language\<close>

datatype rx = Zero | Eps | Sym "char \<Rightarrow> bool" | Seq rx rx | Alt rx rx | Star rx
  | Times nat rx | Upto nat rx

fun lpow :: "string set \<Rightarrow> nat \<Rightarrow> string set" where
  "lpow A 0 = {[]}"
| "lpow A (Suc n) = {a @ b | a b. a \<in> A \<and> b \<in> lpow A n}"

fun lang :: "rx \<Rightarrow> string set" where
  "lang Zero = {}"
| "lang Eps = {[]}"
| "lang (Sym p) = {[c] | c. p c}"
| "lang (Seq r s) = {a @ b | a b. a \<in> lang r \<and> b \<in> lang s}"
| "lang (Alt r s) = lang r \<union> lang s"
| "lang (Star r) = (\<Union>n. lpow (lang r) n)"
| "lang (Times n r) = lpow (lang r) n"
| "lang (Upto n r) = (\<Union>k \<in> {..n}. lpow (lang r) k)"

fun nullable :: "rx \<Rightarrow> bool" where
  "nullable Zero = False"
| "nullable Eps = True"
| "nullable (Sym p) = False"
| "nullable (Seq r s) = (nullable r \<and> nullable s)"
| "nullable (Alt r s) = (nullable r \<or> nullable s)"
| "nullable (Star r) = True"
| "nullable (Times n r) = (n = 0 \<or> nullable r)"
| "nullable (Upto n r) = True"

fun seq :: "rx \<Rightarrow> rx \<Rightarrow> rx" where
  "seq Zero s = Zero"
| "seq Eps s = s"
| "seq r s = Seq r s"

fun alt :: "rx \<Rightarrow> rx \<Rightarrow> rx" where
  "alt Zero s = s"
| "alt r Zero = r"
| "alt r s = Alt r s"

fun deriv :: "char \<Rightarrow> rx \<Rightarrow> rx" where
  "deriv c Zero = Zero"
| "deriv c Eps = Zero"
| "deriv c (Sym p) = (if p c then Eps else Zero)"
| "deriv c (Seq r s) =
     (if nullable r then alt (seq (deriv c r) s) (deriv c s) else seq (deriv c r) s)"
| "deriv c (Alt r s) = alt (deriv c r) (deriv c s)"
| "deriv c (Star r) = seq (deriv c r) (Star r)"
| "deriv c (Times n r) = (case n of 0 \<Rightarrow> Zero | Suc m \<Rightarrow> seq (deriv c r) (Times m r))"
| "deriv c (Upto n r) = (case n of 0 \<Rightarrow> Zero | Suc m \<Rightarrow> seq (deriv c r) (Upto m r))"

fun matches :: "rx \<Rightarrow> string \<Rightarrow> bool" where
  "matches r [] = nullable r"
| "matches r (c # s) = matches (deriv c r) s"

section \<open>The matcher decides the language\<close>

lemma lang_seq [simp]: "lang (seq r s) = lang (Seq r s)"
  by (induction r s rule: seq.induct) auto

lemma lang_alt [simp]: "lang (alt r s) = lang (Alt r s)"
  by (induction r s rule: alt.induct) auto

lemma lpow_Nil_iff: "[] \<in> lpow A n \<longleftrightarrow> n = 0 \<or> [] \<in> A"
  by (induction n) auto

lemma nullable_iff: "nullable r \<longleftrightarrow> [] \<in> lang r"
  by (induction r) (auto simp: lpow_Nil_iff)

lemma lpow_Suc_mono: "[] \<in> A \<Longrightarrow> lpow A n \<subseteq> lpow A (Suc n)"
  by auto

lemma lpow_mono_empty: "[] \<in> A \<Longrightarrow> m \<le> n \<Longrightarrow> lpow A m \<subseteq> lpow A n"
  by (induction n) (auto simp del: lpow.simps dest: lpow_Suc_mono simp: le_Suc_eq)

text \<open>A word of a power that starts with \<open>c\<close> takes its \<open>c\<close> from a non-empty factor.\<close>

lemma lpow_Cons:
  "c # s \<in> lpow A n \<Longrightarrow> \<exists>m a b. n = Suc m \<and> s = a @ b \<and> c # a \<in> A \<and> (b \<in> lpow A m)"
proof (induction n)
  case 0
  then show ?case by simp
next
  case (Suc n)
  then obtain a b where ab: "c # s = a @ b" "a \<in> A" "b \<in> lpow A n" by auto
  show ?case
  proof (cases a)
    case Nil
    with ab Suc.IH obtain m a' b' where h: "n = Suc m" "s = a' @ b'" "c # a' \<in> A" "b' \<in> lpow A m"
      by auto
    have "[] \<in> A" using ab(2) Nil by simp
    with h(4) have "b' \<in> lpow A (Suc m)" by (metis lpow_Suc_mono subsetD)
    with h show ?thesis by blast
  next
    case (Cons x a')
    with ab show ?thesis by auto
  qed
qed

lemma lpow_SucI: "c # a \<in> A \<Longrightarrow> b \<in> lpow A m \<Longrightarrow> c # a @ b \<in> lpow A (Suc m)"
  by (auto intro: exI [of _ "c # a"])

lemma deriv_lang: "s \<in> lang (deriv c r) \<longleftrightarrow> c # s \<in> lang r"
proof (induction r arbitrary: s)
  case (Seq r1 r2)
  have "c # s \<in> lang (Seq r1 r2) \<longleftrightarrow>
      (\<exists>a b. s = a @ b \<and> c # a \<in> lang r1 \<and> b \<in> lang r2) \<or> ([] \<in> lang r1 \<and> c # s \<in> lang r2)"
    by (auto simp: Cons_eq_append_conv)
  then show ?case using Seq by (auto simp: nullable_iff)
next
  case (Star r)
  show ?case
    using Star lpow_Cons lpow_SucI by (fastforce simp del: lpow.simps)
next
  case (Times n r)
  then show ?case
    by (cases n) (auto simp del: lpow.simps(2) dest!: lpow_Cons intro!: lpow_SucI)
next
  case (Upto n r)
  show ?case
  proof (cases n)
    case 0
    then show ?thesis by simp
  next
    case (Suc m)
    have "c # s \<in> lang (Upto (Suc m) r) \<longleftrightarrow> (\<exists>k \<le> m. c # s \<in> lpow (lang r) (Suc k))"
    proof -
      have "c # s \<notin> lpow (lang r) 0" by simp
      then have "(\<exists>k \<le> Suc m. c # s \<in> lpow (lang r) k) \<longleftrightarrow> (\<exists>k \<le> m. c # s \<in> lpow (lang r) (Suc k))"
        by (metis Suc_le_mono old.nat.exhaust)
      then show ?thesis by (auto simp del: lpow.simps)
    qed
    also have "\<dots> \<longleftrightarrow> s \<in> lang (deriv c (Upto (Suc m) r))"
      using Upto.IH by (fastforce simp del: lpow.simps(2) dest!: lpow_Cons intro!: lpow_SucI)
    finally show ?thesis using Suc by simp
  qed
qed auto

theorem matches_lang: "matches r s \<longleftrightarrow> s \<in> lang r"
  by (induction s arbitrary: r) (auto simp: nullable_iff deriv_lang)

section \<open>Common shapes\<close>

lemma single_split:
  "(\<exists>a b. s = a @ b \<and> (\<exists>c. a = [c] \<and> p c) \<and> R b) \<longleftrightarrow> (\<exists>c cs. s = c # cs \<and> p c \<and> R cs)"
  by (auto intro: exI [of _ "[_]"])

lemma lpow_Sym: "lpow {[c] | c. p c} n = {s. length s = n \<and> list_all p s}"
proof (induction n)
  case 0
  then show ?case by auto
next
  case (Suc n)
  have "s \<in> lpow {[c] | c. p c} (Suc n) \<longleftrightarrow> length s = Suc n \<and> list_all p s" for s
    using single_split [of s p "\<lambda>b. length b = n \<and> list_all p b"]
    by (cases s) (auto simp: Suc.IH)
  then show ?case by auto
qed

lemma matches_Times_Sym: "matches (Times n (Sym p)) s \<longleftrightarrow> length s = n \<and> list_all p s"
  by (simp add: matches_lang lpow_Sym)

lemma lang_Upto_Sym: "lang (Upto n (Sym p)) = {s. length s \<le> n \<and> list_all p s}"
  by (auto simp: lpow_Sym)

lemma lang_Star_Sym: "lang (Star (Sym p)) = {s. list_all p s}"
  by (auto simp: lpow_Sym)

lemma matches_Sym_Upto:
  "matches (Seq (Sym p) (Upto n (Sym q))) s \<longleftrightarrow>
     (\<exists>c cs. s = c # cs \<and> p c \<and> length cs \<le> n \<and> list_all q cs)"
proof -
  have "matches (Seq (Sym p) (Upto n (Sym q))) s \<longleftrightarrow>
      (\<exists>a b. s = a @ b \<and> (\<exists>c. a = [c] \<and> p c) \<and> length b \<le> n \<and> list_all q b)"
    unfolding matches_lang lang.simps(4) lang_Upto_Sym by simp
  then show ?thesis using single_split [of s p "\<lambda>b. length b \<le> n \<and> list_all q b"] by simp
qed

definition lit :: "string \<Rightarrow> rx" where
  "lit s = foldr (\<lambda>c r. seq (Sym ((=) c)) r) s Eps"

lemma lang_lit [simp]: "lang (lit s) = {s}"
  by (induction s) (auto simp: lit_def)

definition is_lower :: "char \<Rightarrow> bool" where
  "is_lower c \<longleftrightarrow> CHR ''a'' \<le> c \<and> c \<le> CHR ''z''"

definition is_upper :: "char \<Rightarrow> bool" where
  "is_upper c \<longleftrightarrow> CHR ''A'' \<le> c \<and> c \<le> CHR ''Z''"

definition is_dec :: "char \<Rightarrow> bool" where
  "is_dec c \<longleftrightarrow> CHR ''0'' \<le> c \<and> c \<le> CHR ''9''"

definition is_hex :: "char \<Rightarrow> bool" where
  "is_hex c \<longleftrightarrow> is_dec c \<or> (CHR ''a'' \<le> c \<and> c \<le> CHR ''f'')"

definition is_slug :: "char \<Rightarrow> bool" where
  "is_slug c \<longleftrightarrow> is_lower c \<or> is_dec c \<or> c = CHR ''-''"

end
