(* ===== verification/Spec.thy ===== *)
theory Spec
  imports Prelude Regexp
begin

text \<open>
  \<open>internal/spec\<close>: the operator's network definition, its pattern variables, and the two
  validators \<open>Network.Validate\<close> and \<open>Network.ValidateProvision\<close>. Image references are parsed by
  a third-party package (\<open>go-containerregistry/pkg/name\<close>), which is a parameter of the model:
  a record of its functions, taken as the first argument of every operation that uses it.
  Digests are \<open>hex(sha256(json.Marshal v))\<close>; the parameter is the function from JSON values to
  the digest text, the JSON value of each struct is modelled.
\<close>

section \<open>Parameters: image references and digests\<close>

text \<open>\<open>parse_reference\<close> is \<open>name.ParseReference(s, StrictValidation)\<close>: the repository name and,
  for a \<open>name.Digest\<close>, its digest text. \<open>new_digest\<close> is \<open>name.NewDigest(s, StrictValidation)\<close>:
  repository name and digest text. \<open>digest_name r d\<close> is \<open>repo.Context().Digest(d).Name()\<close>.
  The \<open>weak\<close> fields are the same without strict validation, \<open>weak_tag\<close> is \<open>name.NewTag\<close>.\<close>

record image_refs =
  parse_reference :: "string \<Rightarrow> (string \<times> string option) option"
  new_digest :: "string \<Rightarrow> (string \<times> string) option"
  digest_name :: "string \<Rightarrow> string \<Rightarrow> string"
  weak_reference :: "string \<Rightarrow> (string \<times> string option) option"
  weak_digest :: "string \<Rightarrow> (string \<times> string) option"
  weak_tag :: "string \<Rightarrow> bool"

datatype json = JNull | JBool bool | JNum int | JStr string | JTime gotime
  | JArr "json list" | JObj "(string \<times> json) list"

type_synonym hasher = "json \<Rightarrow> string"

text \<open>Collision resistance of the digest, where a property relies on it.\<close>

definition collision_free :: "hasher \<Rightarrow> bool" where
  "collision_free H \<longleftrightarrow> (\<forall>a b. H a = H b \<longrightarrow> a = b)"

section \<open>Data\<close>

definition api_version :: string where
  "api_version = ''dash.network/v1alpha1''"

record metadata =
  md_name :: string
  md_display :: string
  md_description :: string
  md_visibility :: string

record chain =
  ch_type :: string
  ch_generation :: int

record ami =
  ami_id :: string
  ami_owner :: string

record footprint =
  fp_table :: string
  fp_vpc :: string
  fp_subnet :: string
  fp_sgs :: "string list"
  fp_key :: string
  fp_public :: bool
  fp_pool :: string
  fp_root_gib :: int
  fp_amis :: "(string, ami) fmap"

record aws =
  aws_account :: string
  aws_region :: string
  aws_tag_key :: string
  aws_provision :: "footprint option"

record node_group =
  ng_name :: string
  ng_role :: string
  ng_count :: int
  ng_arch :: string
  ng_type :: string

record network =
  nw_api :: string
  nw_kind :: string
  nw_metadata :: metadata
  nw_chain :: chain
  nw_aws :: aws
  nw_nodes :: "node_group list"
  nw_images :: "(string, string) fmap"

section \<open>Pattern variables\<close>

definition slug :: rx where
  "slug = Seq (Sym is_lower) (Upto 62 (Sym is_slug))"

definition account :: rx where
  "account = Times 12 (Sym is_dec)"

definition region :: rx where
  "region = Seq (Times 2 (Sym is_lower))
     (Seq (Seq (Seq (lit ''-'') (Seq (Sym is_lower) (Star (Sym is_lower))))
               (Star (Seq (lit ''-'') (Seq (Sym is_lower) (Star (Sym is_lower))))))
       (Seq (lit ''-'') (Seq (Sym is_dec) (Star (Sym is_dec)))))"

definition instance_type :: rx where
  "instance_type = Seq (Sym is_lower) (Seq (Star (Sym is_slug))
     (Seq (lit ''.'') (Seq (Sym (\<lambda>c. is_lower c \<or> is_dec c)) (Star (Sym (\<lambda>c. is_lower c \<or> is_dec c))))))"

definition aws_suffix :: rx where
  "aws_suffix = Alt (Times 8 (Sym is_hex)) (Times 17 (Sym is_hex))"

definition resource_id :: rx where
  "resource_id = Seq (Alt (lit ''vpc'') (Alt (lit ''subnet'') (Alt (lit ''sg'') (lit ''ami''))))
     (Seq (lit ''-'') aws_suffix)"

definition is_table_char :: "char \<Rightarrow> bool" where
  "is_table_char c \<longleftrightarrow> is_lower c \<or> is_upper c \<or> is_dec c \<or> c \<in> set ''_.-''"

definition table_name :: rx where
  "table_name = Seq (Times 3 (Sym is_table_char)) (Upto 252 (Sym is_table_char))"

definition ipam_pool_id :: rx where
  "ipam_pool_id = Seq (lit ''ipam-pool-'') (Times 17 (Sym is_hex))"

lemma slug_iff:
  "matches slug s \<longleftrightarrow> (\<exists>c cs. s = c # cs \<and> is_lower c \<and> length cs \<le> 62 \<and> list_all is_slug cs)"
  by (simp add: slug_def matches_Sym_Upto)

lemma account_iff: "matches account s \<longleftrightarrow> length s = 12 \<and> list_all is_dec s"
  by (simp add: account_def matches_Times_Sym)

section \<open>Components\<close>

definition components :: "string list" where
  "components = [''core'', ''dapi'', ''drive'', ''gateway'', ''helper'', ''tenderdash'']"

definition role_components :: "string \<Rightarrow> string list" where
  "role_components role =
     (if role = ''validator'' then components
      else if role = ''seed'' then [''core'', ''tenderdash'']
      else [''core'', ''helper''])"

definition optional_components :: "string list" where
  "optional_components = [''acme'']"

definition image_components :: "network \<Rightarrow> string list" where
  "image_components n =
     components @ filter (\<lambda>c. fmlookup (nw_images n) c \<noteq> None) optional_components"

text \<open>\<open>Architectures\<close>: the distinct architectures of the groups, sorted.\<close>

definition architectures :: "network \<Rightarrow> string list" where
  "architectures n = sort (remdups (map ng_arch (nw_nodes n)))"

lemma set_architectures [simp]: "set (architectures n) = ng_arch ` set (nw_nodes n)"
  by (simp add: architectures_def)

lemma distinct_architectures [simp]: "distinct (architectures n)"
  by (simp add: architectures_def)

text \<open>Go's zero value for a missing string key.\<close>

definition mget :: "(string, string) fmap \<Rightarrow> string \<Rightarrow> string" where
  "mget m k = (case fmlookup m k of None \<Rightarrow> [] | Some v \<Rightarrow> v)"

section \<open>Validation\<close>

definition known_roles :: "string list" where
  "known_roles = [''validator'', ''seed'', ''wallet'', ''miner'', ''fullnode'']"

text \<open>One round of the loop over node groups, with \<open>seen\<close> and \<open>total\<close>.\<close>

definition check_group :: "string set \<times> int \<Rightarrow> node_group \<Rightarrow> (string set \<times> int) res" where
  "check_group st g = (let (seen, total) = st in
     if \<not> matches slug (ng_name g) \<or> ng_name g \<in> seen
       then Inl (Err ''node group names must be unique lowercase slugs'')
     else if ng_role g \<notin> set known_roles then Inl (Err ''unsupported node role'')
     else if ng_count g < 1 \<or> ng_count g > 1000 then Inl (Err ''count must be 1..1000'')
     else if ng_arch g \<noteq> ''amd64'' \<and> ng_arch g \<noteq> ''arm64''
       then Inl (Err ''architecture must be amd64 or arm64'')
     else if \<not> matches instance_type (ng_type g)
       then Inl (Err ''explicit EC2 instance type required'')
     else Inr (insert (ng_name g) seen, total + ng_count g))"

definition check_image :: "image_refs \<Rightarrow> network \<Rightarrow> string \<Rightarrow> unit res" where
  "check_image R n c = (let ref = mget (nw_images n) c in
     if CHR '':'' \<notin> set (after_last CHR ''/'' ref) \<or> contains_any ref (CHR 0x0A # CHR 0x0D # CHR 0x09 # '' '')
       then Inl (Err ''image requires an explicit tag or sha256 digest'')
     else if parse_reference R ref = None then Inl (Err ''invalid image reference'')
     else Inr ())"

definition valid_id :: "string \<Rightarrow> string \<Rightarrow> bool" where
  "valid_id s p \<longleftrightarrow> has_prefix s (p @ ''-'') \<and> matches resource_id s"

definition check_sg :: "string set \<Rightarrow> string \<Rightarrow> string set res" where
  "check_sg seen i =
     (if \<not> valid_id i ''sg'' \<or> i \<in> seen
      then Inl (Err ''security group IDs must be valid and unique'') else Inr (insert i seen))"

definition check_ami :: "footprint \<Rightarrow> string \<Rightarrow> unit res" where
  "check_ami f arch = (case fmlookup (fp_amis f) arch of
     None \<Rightarrow> Inl (Err ''requires an exact AMI ID and owner account'')
   | Some a \<Rightarrow> if \<not> valid_id (ami_id a) ''ami'' \<or> \<not> matches account (ami_owner a)
       then Inl (Err ''requires an exact AMI ID and owner account'') else Inr ())"

definition reserved_tag_key :: "string \<Rightarrow> bool" where
  "reserved_tag_key k \<longleftrightarrow> k = ''Name'' \<or> has_prefix k ''dashnet:'' \<or>
     has_prefix (to_lower k) ''aws:'' \<or> contains_any k [CHR ''?'', CHR 0x5C]"

definition total_count :: "node_group list \<Rightarrow> int" where
  "total_count gs = sum_list (map ng_count gs)"

definition validate_testnet :: "network \<Rightarrow> unit res" where
  "validate_testnet n =
     (if ch_type (nw_chain n) = ''testnet'' then
        (if \<not> has_prefix (md_name (nw_metadata n)) ''testnet-''
         then Inl (Err ''new testnet hosts require a distinct testnet- allocation name'')
         else each_ok (\<lambda>g. if ng_role g \<noteq> ''fullnode''
           then Inl (Err ''new testnet allocations currently support Core fullnodes only'')
           else Inr ()) (nw_nodes n))
      else Inr ())"

definition validate_footprint :: "network \<Rightarrow> footprint \<Rightarrow> unit res" where
  "validate_footprint n p =
     (if fp_pool p \<noteq> [] \<and> (\<not> fp_public p \<or> \<not> matches ipam_pool_id (fp_pool p))
       then Inl (Err ''ipamPoolId must be an explicit IPAM pool ID and requires publicIpv4'')
     else after (validate_testnet n) (\<lambda>_.
     if reserved_tag_key (aws_tag_key (nw_aws n))
       then Inl (Err ''provisioning network tag key conflicts with reserved tags'')
     else if \<not> matches table_name (fp_table p)
       then Inl (Err ''provision.stateTable must name an existing DynamoDB table'')
     else if \<not> valid_id (fp_vpc p) ''vpc'' \<or> \<not> valid_id (fp_subnet p) ''subnet''
       then Inl (Err ''provision requires explicit VPC and subnet IDs'')
     else if fp_sgs p = [] \<or> length (fp_sgs p) > 5
       then Inl (Err ''provision requires 1..5 explicit security groups'')
     else after (scan_ok check_sg {} (fp_sgs p)) (\<lambda>_.
     if fp_key p = [] \<or> length (fp_key p) > 255 \<or> contains_any (fp_key p) [CHR 0x0A, CHR 0x0D, CHR 0x09]
       then Inl (Err ''provision.keyName is required for emergency access'')
     else if fp_root_gib p < 8 \<or> fp_root_gib p > 16384
       then Inl (Err ''rootVolumeGiB must be 8..16384'')
     else if fcard (fmdom (fp_amis p)) \<noteq> length (architectures n)
       then Inl (Err ''provide exactly one AMI per requested architecture'')
     else after (each_ok (check_ami p) (architectures n)) (\<lambda>_.
     if total_count (nw_nodes n) > 100
       then Inl (Err ''initial EC2 executor is limited to 100 nodes per network'')
     else Inr ()))))"

definition validate_provision :: "network \<Rightarrow> unit res" where
  "validate_provision n = (case aws_provision (nw_aws n) of
     None \<Rightarrow> Inl (Err ''aws.provision is required for EC2 provisioning'')
   | Some p \<Rightarrow> validate_footprint n p)"

text \<open>The first part of \<open>Network.Validate\<close>: identity, chain and cloud scope.\<close>

definition validate_identity :: "network \<Rightarrow> unit res" where
  "validate_identity n = (let m = nw_metadata n; c = nw_chain n; a = nw_aws n in
     if nw_api n \<noteq> api_version \<or> nw_kind n \<noteq> ''Network''
       then Inl (Err ''expected apiVersion and kind Network'')
     else if \<not> matches slug (md_name m) then Inl (Err ''metadata.name must be a lowercase slug'')
     else if md_visibility m \<noteq> ''public'' \<and> md_visibility m \<noteq> ''private''
       then Inl (Err ''metadata.visibility must explicitly be public or private'')
     else if md_display m = [] \<or> length (md_display m) > 100 \<or> length (md_description m) > 1000
       then Inl (Err ''displayName is required'')
     else if ch_type c \<noteq> ''devnet'' \<and> ch_type c \<noteq> ''testnet''
       then Inl (Err ''chain.type must be devnet or testnet'')
     else if ch_type c = ''devnet'' \<and> \<not> has_prefix (md_name m) ''devnet-''
       then Inl (Err ''devnet names must start with devnet-'')
     else if ch_type c = ''testnet'' \<and> has_prefix (md_name m) ''devnet-''
       then Inl (Err ''testnet name cannot have a devnet- prefix'')
     else if ch_generation c < 1 then Inl (Err ''chain.generation must be positive'')
     else if \<not> matches account (aws_account a) \<or> \<not> matches region (aws_region a)
       then Inl (Err ''aws.accountId must have 12 digits and aws.region must be explicit'')
     else if aws_tag_key a = [] \<or> length (aws_tag_key a) > 128 \<or>
         contains_any (aws_tag_key a) [CHR 0x0D, CHR 0x0A, CHR 0x09, CHR ''*'']
       then Inl (Err ''aws.networkTagKey must be a nonempty exact tag key'')
     else Inr ())"

definition validate_network :: "image_refs \<Rightarrow> network \<Rightarrow> unit res" where
  "validate_network R n =
     after (validate_identity n) (\<lambda>_.
     if nw_nodes n = [] then Inl (Err ''at least one node group is required'')
     else after (scan_ok check_group ({}, 0) (nw_nodes n)) (\<lambda>(_, total).
     if total > 1000 then Inl (Err ''network exceeds the initial 1000-node limit'')
     else after (if aws_provision (nw_aws n) \<noteq> None then validate_provision n else Inr ()) (\<lambda>_.
     if fcard (fmdom (nw_images n)) \<noteq> length (image_components n)
       then Inl (Err ''images must define exactly these components'')
     else each_ok (check_image R n) (image_components n))))"

section \<open>What a valid definition guarantees\<close>

lemma check_group_Inr:
  assumes "check_group s g = Inr s'"
  shows "matches slug (ng_name g)" "ng_name g \<notin> fst s" "fst s' = insert (ng_name g) (fst s)"
    "1 \<le> ng_count g" "ng_count g \<le> 1000" "ng_role g \<in> set known_roles"
    "ng_arch g = ''amd64'' \<or> ng_arch g = ''arm64''" "snd s' = snd s + ng_count g"
  using assms by (auto simp: check_group_def Let_def split: prod.splits if_splits)

lemma scan_groups:
  assumes "scan_ok check_group s gs = Inr s'"
  shows "distinct (map ng_name gs)" "\<forall>g \<in> set gs. matches slug (ng_name g)"
    "\<forall>g \<in> set gs. 1 \<le> ng_count g \<and> ng_count g \<le> 1000"
    "\<forall>g \<in> set gs. ng_role g \<in> set known_roles"
    "\<forall>g \<in> set gs. ng_arch g = ''amd64'' \<or> ng_arch g = ''arm64''"
proof -
  have "distinct (map ng_name gs) \<and> (\<forall>g \<in> set gs. ng_name g \<notin> fst s) \<and> fst s' = fst s \<union> ng_name ` set gs"
    by (rule scan_ok_distinct [OF assms]) (use check_group_Inr in blast)
  then show "distinct (map ng_name gs)" by simp
  show "\<forall>g \<in> set gs. matches slug (ng_name g)"
    by (rule scan_ok_all [OF assms]) (rule check_group_Inr(1))
  show "\<forall>g \<in> set gs. 1 \<le> ng_count g \<and> ng_count g \<le> 1000"
    by (rule scan_ok_all [OF assms]) (blast dest: check_group_Inr(4,5))
  show "\<forall>g \<in> set gs. ng_role g \<in> set known_roles"
    by (rule scan_ok_all [OF assms]) (rule check_group_Inr(6))
  show "\<forall>g \<in> set gs. ng_arch g = ''amd64'' \<or> ng_arch g = ''arm64''"
    by (rule scan_ok_all [OF assms]) (rule check_group_Inr(7))
qed

lemma scan_groups_total:
  "scan_ok check_group s gs = Inr s' \<Longrightarrow> snd s' = snd s + total_count gs"
  by (induction gs arbitrary: s)
     (auto simp: total_count_def res_simps dest!: check_group_Inr(8))

lemma validate_network_groups:
  assumes "validate_network R n = Inr ()"
  shows "distinct (map ng_name (nw_nodes n))" "\<forall>g \<in> set (nw_nodes n). matches slug (ng_name g)"
    "\<forall>g \<in> set (nw_nodes n). 1 \<le> ng_count g" "nw_nodes n \<noteq> []"
    "total_count (nw_nodes n) \<le> 1000"
proof -
  obtain st where st: "scan_ok check_group ({}, 0) (nw_nodes n) = Inr st" and t: "snd st \<le> 1000"
    and ne: "nw_nodes n \<noteq> []"
    using assms by (auto simp: validate_network_def res_simps split: prod.splits)
  show "distinct (map ng_name (nw_nodes n))" "\<forall>g \<in> set (nw_nodes n). matches slug (ng_name g)"
    "\<forall>g \<in> set (nw_nodes n). 1 \<le> ng_count g" "nw_nodes n \<noteq> []"
    using scan_groups [OF st] ne by auto
  show "total_count (nw_nodes n) \<le> 1000" using scan_groups_total [OF st] t by simp
qed

lemma validate_network_identity:
  assumes "validate_network R n = Inr ()"
  shows "matches slug (md_name (nw_metadata n))" "matches account (aws_account (nw_aws n))"
    "aws_tag_key (nw_aws n) \<noteq> []" "1 \<le> ch_generation (nw_chain n)"
  using assms by (auto simp: validate_network_def validate_identity_def Let_def res_simps)

lemma validate_provision_Some:
  assumes "validate_provision n = Inr ()"
  shows "\<exists>p. aws_provision (nw_aws n) = Some p \<and> validate_footprint n p = Inr ()"
  using assms by (auto simp: validate_provision_def split: option.splits)

lemma validate_footprint_facts:
  assumes "validate_footprint n p = Inr ()"
  shows "total_count (nw_nodes n) \<le> 100" "\<not> reserved_tag_key (aws_tag_key (nw_aws n))"
    "fp_pool p \<noteq> [] \<Longrightarrow> fp_public p"
    "\<forall>a \<in> set (architectures n). fmlookup (fp_amis p) a \<noteq> None"
    "distinct (fp_sgs p)"
proof -
  show "total_count (nw_nodes n) \<le> 100" "\<not> reserved_tag_key (aws_tag_key (nw_aws n))"
    "fp_pool p \<noteq> [] \<Longrightarrow> fp_public p"
    using assms by (auto simp: validate_footprint_def res_simps)
  show "\<forall>a \<in> set (architectures n). fmlookup (fp_amis p) a \<noteq> None"
    using assms by (fastforce simp: validate_footprint_def check_ami_def res_simps split: option.splits)
  obtain st where "scan_ok check_sg {} (fp_sgs p) = Inr st"
    using assms by (auto simp: validate_footprint_def res_simps)
  then have "distinct (map id (fp_sgs p)) \<and> (\<forall>x \<in> set (fp_sgs p). id x \<notin> id {}) \<and>
      id st = id {} \<union> id ` set (fp_sgs p)"
    by (rule scan_ok_distinct) (auto simp: check_sg_def split: if_splits)
  then show "distinct (fp_sgs p)" by simp
qed

end
