(* ===== verification/Provision_Plan.thy ===== *)
theory Provision_Plan
  imports Spec
begin

text \<open>
  \<open>internal/provision/plan.go\<close>: the immutable EC2 plan built from a network definition, its
  digest, its validation by rebuilding, the per-target client token and the ownership tags.
\<close>

section \<open>Data\<close>

record target =
  tg_name :: string
  tg_group :: string
  tg_role :: string
  tg_arch :: string
  tg_type :: string
  tg_ami :: string
  tg_root :: string

record plan =
  pl_api :: string
  pl_kind :: string
  pl_id :: string
  pl_network :: network
  pl_targets :: "target list"

section \<open>JSON values of the structs\<close>

definition jmap :: "(string, string) fmap \<Rightarrow> json" where
  "jmap m = JObj (map (\<lambda>(k, v). (k, JStr v)) (sorted_list_of_fmap m))"

definition jmap_of :: "('v \<Rightarrow> json) \<Rightarrow> (string, 'v) fmap \<Rightarrow> json" where
  "jmap_of f m = JObj (map (\<lambda>(k, v). (k, f v)) (sorted_list_of_fmap m))"

definition omit_empty :: "string \<Rightarrow> string \<Rightarrow> (string \<times> json) list" where
  "omit_empty k s = (if s = [] then [] else [(k, JStr s)])"

definition metadata_json :: "metadata \<Rightarrow> json" where
  "metadata_json m = JObj [(''name'', JStr (md_name m)), (''displayName'', JStr (md_display m)),
     (''description'', JStr (md_description m)), (''visibility'', JStr (md_visibility m))]"

definition chain_json :: "chain \<Rightarrow> json" where
  "chain_json c = JObj [(''type'', JStr (ch_type c)), (''generation'', JNum (ch_generation c))]"

definition ami_json :: "ami \<Rightarrow> json" where
  "ami_json a = JObj [(''id'', JStr (ami_id a)), (''ownerId'', JStr (ami_owner a))]"

definition amis_json :: "(string, ami) fmap \<Rightarrow> json" where
  "amis_json m = JObj (map (\<lambda>(k, a). (k, ami_json a)) (sorted_list_of_fmap m))"

definition footprint_json :: "footprint \<Rightarrow> json" where
  "footprint_json p = JObj ([(''stateTable'', JStr (fp_table p)), (''vpcId'', JStr (fp_vpc p)),
     (''subnetId'', JStr (fp_subnet p)), (''securityGroupIds'', JArr (map JStr (fp_sgs p))),
     (''keyName'', JStr (fp_key p)), (''publicIpv4'', JBool (fp_public p))] @
     (if fp_pool p = [] then [] else [(''ipamPoolId'', JStr (fp_pool p))]) @
     [(''rootVolumeGiB'', JNum (fp_root_gib p)),
      (''amis'', amis_json (fp_amis p))])"

definition aws_json :: "aws \<Rightarrow> json" where
  "aws_json a = JObj ([(''accountId'', JStr (aws_account a)), (''region'', JStr (aws_region a)),
     (''networkTagKey'', JStr (aws_tag_key a))] @
     (case aws_provision a of None \<Rightarrow> [] | Some p \<Rightarrow> [(''provision'', footprint_json p)]))"

definition group_json :: "node_group \<Rightarrow> json" where
  "group_json g = JObj [(''name'', JStr (ng_name g)), (''role'', JStr (ng_role g)),
     (''count'', JNum (ng_count g)), (''architecture'', JStr (ng_arch g)),
     (''instanceType'', JStr (ng_type g))]"

definition network_json :: "network \<Rightarrow> json" where
  "network_json n = JObj [(''apiVersion'', JStr (nw_api n)), (''kind'', JStr (nw_kind n)),
     (''metadata'', metadata_json (nw_metadata n)), (''chain'', chain_json (nw_chain n)),
     (''aws'', aws_json (nw_aws n)), (''nodes'', JArr (map group_json (nw_nodes n))),
     (''images'', jmap (nw_images n))]"

definition target_json :: "target \<Rightarrow> json" where
  "target_json t = JObj [(''name'', JStr (tg_name t)), (''group'', JStr (tg_group t)),
     (''role'', JStr (tg_role t)), (''architecture'', JStr (tg_arch t)),
     (''instanceType'', JStr (tg_type t)), (''ami'', JStr (tg_ami t)), (''rootDevice'', JStr (tg_root t))]"

definition plan_json :: "plan \<Rightarrow> json" where
  "plan_json p = JObj [(''apiVersion'', JStr (pl_api p)), (''kind'', JStr (pl_kind p)),
     (''id'', JStr (pl_id p)), (''network'', network_json (pl_network p)),
     (''targets'', JArr (map target_json (pl_targets p)))]"

text \<open>\<open>Network.Fingerprint\<close>.\<close>

definition fingerprint :: "hasher \<Rightarrow> network \<Rightarrow> string" where
  "fingerprint H n = ''sha256:'' @ H (network_json n)"

section \<open>Building and validating\<close>

definition managed_by :: string where
  "managed_by = ''dash-network-go''"

definition target_name :: "string \<Rightarrow> nat \<Rightarrow> string" where
  "target_name g i = g @ ''-'' @ pad3 i"

definition ami_for :: "network \<Rightarrow> string \<Rightarrow> string" where
  "ami_for n arch = (case aws_provision (nw_aws n) of None \<Rightarrow> []
     | Some f \<Rightarrow> (case fmlookup (fp_amis f) arch of None \<Rightarrow> [] | Some a \<Rightarrow> ami_id a))"

definition group_targets :: "network \<Rightarrow> (string, string) fmap \<Rightarrow> node_group \<Rightarrow> target list" where
  "group_targets n roots g = map (\<lambda>i.
     \<lparr>tg_name = target_name (ng_name g) i, tg_group = ng_name g, tg_role = ng_role g,
      tg_arch = ng_arch g, tg_type = ng_type g, tg_ami = ami_for n (ng_arch g),
      tg_root = mget roots (ng_arch g)\<rparr>) [1..<Suc (nat (ng_count g))]"

definition build :: "hasher \<Rightarrow> network \<Rightarrow> (string, string) fmap \<Rightarrow> plan" where
  "build H n roots = (let p = \<lparr>pl_api = api_version, pl_kind = ''EC2ProvisionPlan'', pl_id = [],
       pl_network = n, pl_targets = sort_key tg_name (concat (map (group_targets n roots) (nw_nodes n)))\<rparr>
     in p\<lparr>pl_id := H (plan_json p)\<rparr>)"

definition check_root :: "(string, string) fmap \<Rightarrow> target \<Rightarrow> (string, string) fmap res" where
  "check_root roots t =
     (if \<not> has_prefix (tg_root t) ''/dev/'' \<or> length (tg_root t) > 64 \<or>
         contains_any (tg_root t) [CHR '' '', CHR 0x0A, CHR 0x0D, CHR 0x09]
       then Inl (Err ''invalid root device in provision plan'')
     else if fmlookup roots (tg_arch t) \<noteq> None \<and> fmlookup roots (tg_arch t) \<noteq> Some (tg_root t)
       then Inl (Err ''inconsistent root devices'')
     else Inr (fmupd (tg_arch t) (tg_root t) roots))"

definition validate_plan :: "hasher \<Rightarrow> image_refs \<Rightarrow> plan \<Rightarrow> unit res" where
  "validate_plan H R p =
     after (validate_network R (pl_network p)) (\<lambda>_.
     after (validate_provision (pl_network p)) (\<lambda>_.
     after (scan_ok check_root fmempty (pl_targets p)) (\<lambda>roots.
     if p \<noteq> build H (pl_network p) roots
       then Inl (Err ''provision plan is altered, incomplete, or has an invalid ID'')
     else Inr ())))"

definition plan_key :: "plan \<Rightarrow> string" where
  "plan_key p = (let a = nw_aws (pl_network p) in
     aws_account a @ ''/'' @ aws_region a @ ''/'' @ md_name (nw_metadata (pl_network p)))"

definition token :: "hasher \<Rightarrow> plan \<Rightarrow> target \<Rightarrow> string" where
  "token H p t = H (JArr [JStr (pl_id p), JStr (tg_name t)])"

text \<open>A later key of the map literal replaces an earlier equal one.\<close>

definition tags :: "plan \<Rightarrow> target \<Rightarrow> (string, string) fmap" where
  "tags p t = (let n = pl_network p; name = md_name (nw_metadata n) in
     fmupd ''dashnet:role'' (tg_role t) (fmupd ''dashnet:node'' (tg_name t)
     (fmupd ''dashnet:plan'' (pl_id p)
     (fmupd ''dashnet:generation'' (itoa_int (ch_generation (nw_chain n)))
     (fmupd ''dashnet:network'' name (fmupd ''dashnet:managed-by'' managed_by
     (fmupd (aws_tag_key (nw_aws n)) name (fmupd ''Name'' (name @ ''-'' @ tg_name t) fmempty))))))))"

definition find_target :: "plan \<Rightarrow> string \<Rightarrow> target option" where
  "find_target p name = find (\<lambda>t. tg_name t = name) (pl_targets p)"

section \<open>Target names\<close>

lemma target_name_inj:
  assumes "target_name g i = target_name h j" "i < 1000" "j < 1000"
  shows "g = h \<and> i = j"
proof -
  have len: "length (pad3 i) = length (pad3 j)" using assms(2,3) by (simp add: pad3_length)
  have "g @ ''-'' = h @ ''-'' \<and> pad3 i = pad3 j"
    using assms(1) len append_eq_append_conv [of "pad3 i" "pad3 j" "g @ ''-''" "h @ ''-''"]
    by (simp add: target_name_def)
  then show ?thesis by (metis append_same_eq decimal_pad3)
qed

lemma names_group_targets:
  "map tg_name (group_targets n roots g) = map (target_name (ng_name g)) [1..<Suc (nat (ng_count g))]"
  by (simp add: group_targets_def comp_def)

lemma set_group_targets:
  "t \<in> set (group_targets n roots g) \<longleftrightarrow>
     (\<exists>i. 1 \<le> i \<and> i \<le> nat (ng_count g) \<and>
       t = \<lparr>tg_name = target_name (ng_name g) i, tg_group = ng_name g, tg_role = ng_role g,
            tg_arch = ng_arch g, tg_type = ng_type g, tg_ami = ami_for n (ng_arch g),
            tg_root = mget roots (ng_arch g)\<rparr>)"
  by (auto simp: group_targets_def)

lemma total_count_ge:
  assumes "\<forall>g \<in> set gs. 0 \<le> ng_count g" and "g \<in> set gs"
  shows "ng_count g \<le> total_count gs"
  using assms unfolding total_count_def
proof (induction gs)
  case Nil
  then show ?case by simp
next
  case (Cons x gs)
  have "0 \<le> sum_list (map ng_count gs)" using Cons.prems(1) by (intro sum_list_nonneg) auto
  with Cons show ?case by auto
qed

lemma distinct_group_names:
  assumes "distinct (map ng_name gs)" and "\<forall>g \<in> set gs. ng_count g < 1000"
  shows "distinct (map tg_name (concat (map (group_targets n roots) gs)))"
  using assms
proof (induction gs)
  case Nil
  then show ?case by simp
next
  case (Cons g gs)
  have "inj_on (target_name (ng_name g)) (set [1..<Suc (nat (ng_count g))])"
    using Cons.prems(2) by (auto simp: inj_on_def dest!: target_name_inj)
  then have d: "distinct (map tg_name (group_targets n roots g))"
    by (simp add: names_group_targets distinct_map del: upt_Suc)
  have "tg_name t \<noteq> tg_name u"
    if t: "t \<in> set (group_targets n roots g)" and u: "u \<in> set (group_targets n roots h)" "h \<in> set gs" for t u h
  proof
    assume eq: "tg_name t = tg_name u"
    obtain i j where ij: "tg_name t = target_name (ng_name g) i" "i \<le> nat (ng_count g)"
        "tg_name u = target_name (ng_name h) j" "j \<le> nat (ng_count h)"
      using t u by (auto simp: set_group_targets)
    moreover have "i < 1000" "j < 1000" using ij Cons.prems(2) u(2) by auto
    ultimately have "ng_name g = ng_name h" using eq target_name_inj by metis
    with Cons.prems(1) u(2) show False by auto
  qed
  with d Cons show ?case by fastforce
qed

lemma length_group_targets:
  "(\<forall>g \<in> set gs. 0 \<le> ng_count g) \<Longrightarrow>
     int (length (concat (map (group_targets n roots) gs))) = total_count gs"
  by (induction gs) (auto simp: group_targets_def total_count_def)

lemma validate_plan_rebuild:
  assumes "validate_plan H R p = Inr ()"
  shows "\<exists>roots. p = build H (pl_network p) roots \<and> validate_network R (pl_network p) = Inr () \<and>
    validate_provision (pl_network p) = Inr ()"
  using assms by (auto simp: validate_plan_def res_simps)

lemma build_simps [simp]:
  "pl_network (build H n roots) = n" "pl_api (build H n roots) = api_version"
  "pl_kind (build H n roots) = ''EC2ProvisionPlan''"
  "pl_targets (build H n roots) = sort_key tg_name (concat (map (group_targets n roots) (nw_nodes n)))"
  by (simp_all add: build_def Let_def)

lemma build_id: "pl_id (build H n roots) = H (plan_json ((build H n roots)\<lparr>pl_id := []\<rparr>))"
  by (simp add: build_def Let_def)

lemma valid_counts:
  assumes "validate_network R n = Inr ()" "validate_provision n = Inr ()"
  shows "\<forall>g \<in> set (nw_nodes n). 1 \<le> ng_count g \<and> ng_count g \<le> 100"
proof -
  obtain f where "validate_footprint n f = Inr ()" using validate_provision_Some [OF assms(2)] by blast
  then have t: "total_count (nw_nodes n) \<le> 100" by (rule validate_footprint_facts)
  have pos: "\<forall>g \<in> set (nw_nodes n). 1 \<le> ng_count g" using validate_network_groups [OF assms(1)] by simp
  then have "ng_count g \<le> total_count (nw_nodes n)" if "g \<in> set (nw_nodes n)" for g
    using that by (intro total_count_ge) auto
  with t pos show ?thesis by fastforce
qed

lemma valid_plan_names:
  assumes "validate_plan H R p = Inr ()"
  shows "distinct (map tg_name (pl_targets p))" "sorted (map tg_name (pl_targets p))"
    "int (length (pl_targets p)) = total_count (nw_nodes (pl_network p))"
    "length (pl_targets p) \<le> 100" "pl_targets p \<noteq> []"
proof -
  let ?n = "pl_network p"
  obtain roots where p: "p = build H ?n roots" and v: "validate_network R ?n = Inr ()"
    "validate_provision ?n = Inr ()"
    using validate_plan_rebuild [OF assms] by blast
  define ts where "ts = concat (map (group_targets ?n roots) (nw_nodes ?n))"
  have pt: "pl_targets p = sort_key tg_name ts" using p build_simps(4) ts_def by metis
  have c: "\<forall>g \<in> set (nw_nodes ?n). 1 \<le> ng_count g \<and> ng_count g \<le> 100" by (rule valid_counts [OF v])
  have "distinct (map ng_name (nw_nodes ?n))" by (rule validate_network_groups(1) [OF v(1)])
  moreover have "\<forall>g \<in> set (nw_nodes ?n). ng_count g < 1000" using c by fastforce
  ultimately have "distinct (map tg_name ts)" unfolding ts_def by (rule distinct_group_names)
  then show "distinct (map tg_name (pl_targets p))" by (simp add: pt distinct_map)
  show "sorted (map tg_name (pl_targets p))" by (simp add: pt)
  have "int (length ts) = total_count (nw_nodes ?n)"
    unfolding ts_def by (rule length_group_targets) (use c in fastforce)
  then show l: "int (length (pl_targets p)) = total_count (nw_nodes ?n)" by (simp add: pt)
  obtain f where "validate_footprint ?n f = Inr ()" using validate_provision_Some [OF v(2)] by blast
  then have "total_count (nw_nodes ?n) \<le> 100" by (rule validate_footprint_facts)
  with l show "length (pl_targets p) \<le> 100" by linarith
  obtain g where g: "g \<in> set (nw_nodes ?n)"
    using validate_network_groups(4) [OF v(1)] by (meson list.set_sel(1))
  have "ng_count g \<le> total_count (nw_nodes ?n)" by (rule total_count_ge [OF _ g]) (use c in fastforce)
  then have "0 < total_count (nw_nodes ?n)" using c g by fastforce
  with l show "pl_targets p \<noteq> []" by auto
qed

lemma find_target_eq:
  "distinct (map tg_name (pl_targets p)) \<Longrightarrow>
     find_target p x = Some t \<longleftrightarrow> t \<in> set (pl_targets p) \<and> tg_name t = x"
proof -
  have "distinct (map tg_name ts) \<Longrightarrow> find (\<lambda>t. tg_name t = x) ts = Some t \<longleftrightarrow> t \<in> set ts \<and> tg_name t = x" for ts
    by (induction ts) auto
  then show "distinct (map tg_name (pl_targets p)) \<Longrightarrow>
     find_target p x = Some t \<longleftrightarrow> t \<in> set (pl_targets p) \<and> tg_name t = x"
    by (simp add: find_target_def)
qed

section \<open>The plan identity binds the plan\<close>

lemma sorted_list_of_fmap_inj: "sorted_list_of_fmap m = sorted_list_of_fmap m' \<Longrightarrow> m = m'"
  by (metis fmap_ext map_of_sorted_list)

lemma map_pair_inj:
  assumes "inj f" and "map (\<lambda>(k, v). (k, f v)) xs = map (\<lambda>(k, v). (k, f v)) ys"
  shows "xs = ys"
proof -
  have "inj (\<lambda>(k, v). (k, f v))" using assms(1) by (auto simp: inj_def)
  with assms(2) show ?thesis by (metis inj_map_eq_map)
qed

lemma jmap_inj [simp]: "jmap m = jmap m' \<longleftrightarrow> m = m'"
  by (auto simp: jmap_def inj_def dest!: map_pair_inj [rotated] sorted_list_of_fmap_inj)

lemma map_JStr_inj [simp]: "map JStr xs = map JStr ys \<longleftrightarrow> xs = ys"
  by (simp add: inj_map_eq_map inj_def)

lemma metadata_json_inj [simp]: "metadata_json a = metadata_json b \<longleftrightarrow> a = b"
  by (cases a; cases b) (simp add: metadata_json_def)

lemma chain_json_inj [simp]: "chain_json a = chain_json b \<longleftrightarrow> a = b"
  by (cases a; cases b) (simp add: chain_json_def)

lemma group_json_inj [simp]: "group_json a = group_json b \<longleftrightarrow> a = b"
  by (cases a; cases b) (simp add: group_json_def)

lemma target_json_inj [simp]: "target_json a = target_json b \<longleftrightarrow> a = b"
  by (cases a; cases b) (simp add: target_json_def)

lemma amis_json_inj [simp]: "amis_json m = amis_json m' \<longleftrightarrow> m = m'"
proof -
  have "inj ami_json" by (rule injI, rule ami.equality) (simp_all add: ami_json_def)
  then show ?thesis by (auto simp: amis_json_def dest!: map_pair_inj sorted_list_of_fmap_inj)
qed

lemma footprint_json_inj [simp]: "footprint_json a = footprint_json b \<longleftrightarrow> a = b"
  by (cases a; cases b) (simp add: footprint_json_def split: if_splits)

lemma aws_json_inj [simp]: "aws_json a = aws_json b \<longleftrightarrow> a = b"
  by (cases a; cases b) (auto simp: aws_json_def split: option.splits)

lemma network_json_inj [simp]: "network_json a = network_json b \<longleftrightarrow> a = b"
  by (cases a; cases b) (auto simp: network_json_def dest: map_injective [rotated] simp: inj_def inj_map_eq_map)

lemma plan_json_inj [simp]: "plan_json a = plan_json b \<longleftrightarrow> a = b"
  by (cases a; cases b) (auto simp: plan_json_def inj_def inj_map_eq_map)

end
