(* ===== verification/Sample.thy ===== *)
theory Sample
  imports Provision_Plan
begin

text \<open>
  Concrete values for the witnesses: a parser of image references for texts of the form
  \<open>repo@digest\<close>, a digest function, a devnet definition with two validators and its plan.
\<close>

definition sample_split :: "string \<Rightarrow> (string \<times> string) option" where
  "sample_split s = (case cut CHR ''@'' s of (r, d, found) \<Rightarrow> if found then Some (r, d) else None)"

definition sample_refs :: image_refs where
  "sample_refs = \<lparr>parse_reference = (\<lambda>s. Some (fst (cut CHR ''@'' s), map_option snd (sample_split s))),
     new_digest = sample_split, digest_name = (\<lambda>r d. r @ ''@'' @ d),
     weak_reference = (\<lambda>s. Some (fst (cut CHR ''@'' s), map_option snd (sample_split s))),
     weak_digest = sample_split, weak_tag = (\<lambda>_. True)\<rparr>"

definition sample_hash :: hasher where
  "sample_hash j = replicate 64 (CHR ''a'')"

definition sample_footprint :: footprint where
  "sample_footprint = \<lparr>fp_table = ''journal'', fp_vpc = ''vpc-00000000'', fp_subnet = ''subnet-00000000'',
     fp_sgs = [''sg-00000000''], fp_key = ''k'', fp_public = False, fp_pool = [], fp_root_gib = 100,
     fp_amis = fmap_of_list [(''amd64'', \<lparr>ami_id = ''ami-00000000'', ami_owner = ''099720109477''\<rparr>)]\<rparr>"

definition sample_network :: network where
  "sample_network = \<lparr>nw_api = api_version, nw_kind = ''Network'',
     nw_metadata = \<lparr>md_name = ''devnet-a'', md_display = ''A'', md_description = [], md_visibility = ''private''\<rparr>,
     nw_chain = \<lparr>ch_type = ''devnet'', ch_generation = 1\<rparr>,
     nw_aws = \<lparr>aws_account = ''123456789012'', aws_region = ''us-west-2'', aws_tag_key = ''net'',
       aws_provision = Some sample_footprint\<rparr>,
     nw_nodes = [\<lparr>ng_name = ''val'', ng_role = ''validator'', ng_count = 2, ng_arch = ''amd64'', ng_type = ''t3.large''\<rparr>],
     nw_images = fmap_of_list (map (\<lambda>c. (c, ''repo:1'')) components)\<rparr>"

definition sample_roots :: "(string, string) fmap" where
  "sample_roots = fmap_of_list [(''amd64'', ''/dev/sda1'')]"

definition sample_plan :: plan where
  "sample_plan = build sample_hash sample_network sample_roots"

lemma sample_network_valid: "validate_network sample_refs sample_network = Inr ()"
  by code_simp

lemma sample_plan_valid: "validate_plan sample_hash sample_refs sample_plan = Inr ()"
  by code_simp

end
