(* ===== verification/Netaddr.thy ===== *)
theory Netaddr
  imports Prelude Regexp
begin

text \<open>
  What the repository uses of Go's \<open>net\<close> and \<open>net/netip\<close>: parsing an IP text, the IPv4 value
  of an address (\<open>To4\<close>, which includes IPv4-mapped IPv6 texts) and the address classes.
\<close>

section \<open>Parsing\<close>

type_synonym ipv4 = "nat \<times> nat \<times> nat \<times> nat"

text \<open>A decimal field of \<open>netip.parseIPv4\<close>: one to three digits, no leading zero, at most 255.\<close>

definition v4_field :: "string \<Rightarrow> nat option" where
  "v4_field s =
     (if s \<noteq> [] \<and> length s \<le> 3 \<and> list_all is_dec s \<and> (length s = 1 \<or> hd s \<noteq> CHR ''0'') \<and> decimal s \<le> 255
      then Some (decimal s) else None)"

definition parse_v4 :: "string \<Rightarrow> ipv4 option" where
  "parse_v4 s = (case map v4_field (split_on CHR ''.'' s) of
     [Some a, Some b, Some c, Some d] \<Rightarrow> Some (a, b, c, d)
   | _ \<Rightarrow> None)"

definition hex_val :: "char \<Rightarrow> nat" where
  "hex_val c = (if is_dec c then of_char c - 48
     else if is_lower c then of_char c - 87 else of_char c - 55)"

definition is_xdigit :: "char \<Rightarrow> bool" where
  "is_xdigit c \<longleftrightarrow> is_hex c \<or> (CHR ''A'' \<le> c \<and> c \<le> CHR ''F'')"

definition v6_group :: "string \<Rightarrow> nat option" where
  "v6_group s = (if s \<noteq> [] \<and> length s \<le> 4 \<and> list_all is_xdigit s
     then Some (foldl (\<lambda>v c. 16 * v + hex_val c) 0 s) else None)"

text \<open>The groups of one side of \<open>::\<close>; a dotted quad may end the text and counts as two groups.\<close>

fun v6_groups :: "string list \<Rightarrow> bool \<Rightarrow> nat list option" where
  "v6_groups [] quad = Some []"
| "v6_groups [g] quad = (case v6_group g of Some v \<Rightarrow> Some [v]
     | None \<Rightarrow> (if quad then (case parse_v4 g of
         Some (a, b, c, d) \<Rightarrow> Some [256 * a + b, 256 * c + d] | None \<Rightarrow> None) else None))"
| "v6_groups (g # h # gs) quad = (case v6_group g of None \<Rightarrow> None
     | Some v \<Rightarrow> map_option ((#) v) (v6_groups (h # gs) quad))"

fun cut_ellipsis :: "string \<Rightarrow> (string \<times> string) option" where
  "cut_ellipsis (a # b # s) =
     (if a = CHR '':'' \<and> b = CHR '':'' then Some ([], s)
      else map_option (\<lambda>(l, r). (a # l, r)) (cut_ellipsis (b # s)))"
| "cut_ellipsis _ = None"

definition side :: "string \<Rightarrow> bool \<Rightarrow> nat list option" where
  "side s quad = (if s = [] then Some [] else v6_groups (split_on CHR '':'' s) quad)"

definition parse_v6 :: "string \<Rightarrow> nat list option" where
  "parse_v6 s = (case cut_ellipsis s of
     None \<Rightarrow> (case v6_groups (split_on CHR '':'' s) True of
       Some gs \<Rightarrow> if length gs = 8 then Some gs else None | None \<Rightarrow> None)
   | Some (l, r) \<Rightarrow> (case (side l False, side r True) of
       (Some gs, Some hs) \<Rightarrow> if length gs + length hs \<le> 7
         then Some (gs @ replicate (8 - length gs - length hs) 0 @ hs) else None
     | _ \<Rightarrow> None))"

text \<open>\<open>net.ParseIP(s).To4()\<close>, \<open>None\<close> where either step gives nil. \<open>netip.ParseAddr\<close> decides
  between the families at the first \<open>.\<close> or \<open>:\<close>.\<close>

definition to4 :: "string \<Rightarrow> ipv4 option" where
  "to4 s = (case filter (\<lambda>c. c = CHR ''.'' \<or> c = CHR '':'') s of
     [] \<Rightarrow> None
   | c # _ \<Rightarrow> if c = CHR ''.'' then parse_v4 s
     else (case parse_v6 s of
       Some gs \<Rightarrow> if take 6 gs = [0, 0, 0, 0, 0, 65535]
         then Some (gs ! 6 div 256, gs ! 6 mod 256, gs ! 7 div 256, gs ! 7 mod 256) else None
     | None \<Rightarrow> None))"

section \<open>Host and port\<close>

text \<open>\<open>net.SplitHostPort\<close>: the port after the last colon; a bracketed host may contain colons.\<close>

definition split_host_port :: "string \<Rightarrow> (string \<times> string) option" where
  "split_host_port s = (if CHR '':'' \<notin> set s then None
     else if hd s = CHR ''['' then
       (case dropWhile (\<lambda>c. c \<noteq> CHR '']'') (tl s) of
          _ # c # port \<Rightarrow> if c \<noteq> CHR '':'' \<or> CHR '':'' \<in> set port \<or> CHR ''['' \<in> set (tl s) \<or> CHR '']'' \<in> set port
            then None else Some (takeWhile (\<lambda>c. c \<noteq> CHR '']'') (tl s), port)
        | _ \<Rightarrow> None)
     else if CHR '':'' \<in> set (before_last CHR '':'' s) \<or> CHR ''['' \<in> set s \<or> CHR '']'' \<in> set s then None
     else Some (before_last CHR '':'' s, after_last CHR '':'' s))"

section \<open>Address classes\<close>

fun is_loopback :: "ipv4 \<Rightarrow> bool" where "is_loopback (a, b, c, d) = (a = 127)"
fun is_link_local :: "ipv4 \<Rightarrow> bool" where "is_link_local (a, b, c, d) = (a = 169 \<and> b = 254)"
fun is_multicast :: "ipv4 \<Rightarrow> bool" where "is_multicast (a, b, c, d) = (224 \<le> a \<and> a \<le> 239)"
fun is_unspecified :: "ipv4 \<Rightarrow> bool" where "is_unspecified ip = (ip = (0, 0, 0, 0))"
fun is_private :: "ipv4 \<Rightarrow> bool" where
  "is_private (a, b, c, d) = (a = 10 \<or> (a = 172 \<and> 16 \<le> b \<and> b \<le> 31) \<or> (a = 192 \<and> b = 168))"

definition is_global_unicast :: "ipv4 \<Rightarrow> bool" where
  "is_global_unicast ip \<longleftrightarrow> ip \<noteq> (255, 255, 255, 255) \<and> \<not> is_unspecified ip \<and> \<not> is_loopback ip \<and>
     \<not> is_multicast ip \<and> \<not> is_link_local ip"

text \<open>The recurring test \<open>ip == nil || ip.To4() == nil || ip.IsLoopback() || ...\<close>, negated.\<close>

definition usable_v4 :: "string \<Rightarrow> bool" where
  "usable_v4 s = (case to4 s of None \<Rightarrow> False
   | Some ip \<Rightarrow> \<not> is_loopback ip \<and> \<not> is_link_local ip \<and> \<not> is_unspecified ip \<and> \<not> is_multicast ip)"

text \<open>\<open>validIPv4\<close>: a public IPv4 text; \<open>netip\<close>'s \<open>Is4\<close> excludes IPv4-mapped IPv6 texts.\<close>

definition valid_ipv4 :: "string \<Rightarrow> bool" where
  "valid_ipv4 s = (CHR '':'' \<notin> set s \<and> (case parse_v4 s of None \<Rightarrow> False
     | Some ip \<Rightarrow> is_global_unicast ip \<and> \<not> is_private ip))"

lemma split_on_none: "c \<notin> set xs \<Longrightarrow> split_on c xs = [xs]"
  by (induction xs) auto

lemma parse_v4_dot: "parse_v4 s = Some ip \<Longrightarrow> CHR ''.'' \<in> set s"
  by (rule ccontr) (auto simp: parse_v4_def split_on_none split: option.splits)

lemma valid_ipv4_public:
  assumes "valid_ipv4 s"
  shows "\<exists>ip. to4 s = Some ip \<and> is_global_unicast ip \<and> \<not> is_private ip"
proof -
  obtain ip where ip: "parse_v4 s = Some ip" "is_global_unicast ip" "\<not> is_private ip"
    and c: "CHR '':'' \<notin> set s"
    using assms by (auto simp: valid_ipv4_def split: option.splits)
  let ?f = "filter (\<lambda>c. c = CHR ''.'' \<or> c = CHR '':'') s"
  have "set ?f = {CHR ''.''}" using parse_v4_dot [OF ip(1)] c by auto
  then obtain x xs where "?f = x # xs" "x = CHR ''.''" by (cases ?f) auto
  then have "to4 s = Some ip" using ip(1) by (simp add: to4_def)
  with ip show ?thesis by blast
qed

lemma valid_ipv4_usable: "valid_ipv4 s \<Longrightarrow> usable_v4 s"
  by (auto dest!: valid_ipv4_public simp: usable_v4_def is_global_unicast_def)

end
