(* ===== verification/Plan_Properties.thy ===== *)
theory Plan_Properties
  imports Sample Netaddr
begin

text \<open>
  The properties of the plan: what a validated plan contains, that the builder and the validator
  agree, that the plan's identity binds its content, and that the ownership tags survive the
  operator's own tag key. Also the address filter of the IPAM journal.
\<close>

section \<open>Targets of a valid plan\<close>

lemma valid_plan_targets:
  assumes "validate_plan H R p = Inr ()"
  shows "\<exists>roots. set (pl_targets p) =
    {t. \<exists>g \<in> set (nw_nodes (pl_network p)). t \<in> set (group_targets (pl_network p) roots g)}"
proof -
  obtain roots where p: "p = build H (pl_network p) roots" using validate_plan_rebuild [OF assms] by blast
  have "pl_targets p = sort_key tg_name (concat (map (group_targets (pl_network p) roots) (nw_nodes (pl_network p))))"
    using build_simps(4) [of H "pl_network p" roots] p by simp
  then show ?thesis by (intro exI [of _ roots]) auto
qed

text \<open>C28: A plan that passes validation has between 1 and 100 targets, as many as the node groups
  ask for, in the order of their names and with distinct names; each target is the i-th node of a
  group of the definition, named group-NNN, with that group's role, architecture and instance type
  and the AMI pinned for the architecture.\<close>

theorem plan_targets:
  assumes "validate_plan H R p = Inr ()"
  shows "distinct (map tg_name (pl_targets p)) \<and> sorted (map tg_name (pl_targets p)) \<and>
    int (length (pl_targets p)) = total_count (nw_nodes (pl_network p)) \<and>
    1 \<le> length (pl_targets p) \<and> length (pl_targets p) \<le> 100 \<and>
    (\<forall>t \<in> set (pl_targets p). \<exists>g \<in> set (nw_nodes (pl_network p)). \<exists>i \<ge> 1.
       int i \<le> ng_count g \<and> matches slug (ng_name g) \<and> tg_name t = target_name (ng_name g) i \<and>
       tg_role t = ng_role g \<and> tg_arch t = ng_arch g \<and> tg_type t = ng_type g \<and>
       tg_ami t = ami_for (pl_network p) (ng_arch g))"
proof -
  obtain roots where ts: "set (pl_targets p) =
      {t. \<exists>g \<in> set (nw_nodes (pl_network p)). t \<in> set (group_targets (pl_network p) roots g)}"
    using valid_plan_targets [OF assms] by blast
  have sl: "\<forall>g \<in> set (nw_nodes (pl_network p)). matches slug (ng_name g)"
    using validate_plan_rebuild [OF assms] validate_network_groups(2) by blast
  have "\<exists>g \<in> set (nw_nodes (pl_network p)). \<exists>i \<ge> 1.
       int i \<le> ng_count g \<and> matches slug (ng_name g) \<and> tg_name t = target_name (ng_name g) i \<and>
       tg_role t = ng_role g \<and> tg_arch t = ng_arch g \<and> tg_type t = ng_type g \<and>
       tg_ami t = ami_for (pl_network p) (ng_arch g)" if t: "t \<in> set (pl_targets p)" for t
  proof -
    obtain g i where "g \<in> set (nw_nodes (pl_network p))" "1 \<le> i" "i \<le> nat (ng_count g)"
      "t = \<lparr>tg_name = target_name (ng_name g) i, tg_group = ng_name g, tg_role = ng_role g,
            tg_arch = ng_arch g, tg_type = ng_type g, tg_ami = ami_for (pl_network p) (ng_arch g),
            tg_root = mget roots (ng_arch g)\<rparr>"
      using t ts by (auto simp: set_group_targets)
    with sl show ?thesis by (intro bexI [of _ g] exI [of _ i]) auto
  qed
  moreover have "1 \<le> length (pl_targets p)" using valid_plan_names(5) [OF assms] by (cases "pl_targets p") auto
  ultimately show ?thesis using valid_plan_names [OF assms] by blast
qed

theorem plan_targets_witness:
  "validate_plan sample_hash sample_refs sample_plan = Inr () \<and> distinct (map tg_name (pl_targets sample_plan)) \<and>
   map tg_name (pl_targets sample_plan) = [''val-001'', ''val-002'']"
proof -
  have "map tg_name (pl_targets sample_plan) = [''val-001'', ''val-002'']" by code_simp
  then show ?thesis using plan_targets [OF sample_plan_valid] sample_plan_valid by blast
qed

section \<open>Building and validating agree\<close>

definition usable_root :: "string \<Rightarrow> bool" where
  "usable_root s \<longleftrightarrow> has_prefix s ''/dev/'' \<and> length s \<le> 64 \<and>
     \<not> contains_any s [CHR '' '', CHR 0x0A, CHR 0x0D, CHR 0x09]"

lemma check_root_usable:
  "usable_root (tg_root t) \<Longrightarrow> fmlookup m (tg_arch t) \<in> {None, Some (tg_root t)} \<Longrightarrow>
     check_root m t = Inr (fmupd (tg_arch t) (tg_root t) m)"
  by (auto simp: check_root_def usable_root_def)

lemma scan_roots:
  assumes "\<forall>t \<in> set ts. tg_root t = mget roots (tg_arch t) \<and> usable_root (tg_root t)"
    and "\<forall>a v. fmlookup m a = Some v \<longrightarrow> v = mget roots a"
  shows "\<exists>m'. scan_ok check_root m ts = Inr m' \<and> (\<forall>a v. fmlookup m' a = Some v \<longrightarrow> v = mget roots a) \<and>
    (\<forall>t \<in> set ts. fmlookup m' (tg_arch t) = Some (mget roots (tg_arch t))) \<and>
    (\<forall>a v. fmlookup m a = Some v \<longrightarrow> fmlookup m' a = Some v)"
  using assms
proof (induction ts arbitrary: m)
  case Nil
  then show ?case by simp
next
  case (Cons t ts)
  let ?m = "fmupd (tg_arch t) (tg_root t) m"
  have s: "check_root m t = Inr ?m"
    using Cons.prems by (intro check_root_usable) (auto, cases "fmlookup m (tg_arch t)", auto)
  have tail: "\<forall>t \<in> set ts. tg_root t = mget roots (tg_arch t) \<and> usable_root (tg_root t)"
    using Cons.prems(1) by (meson list.set_intros(2))
  have inv: "\<forall>a v. fmlookup ?m a = Some v \<longrightarrow> v = mget roots a" using Cons.prems by auto
  obtain m' where m': "scan_ok check_root ?m ts = Inr m'"
    "\<forall>a v. fmlookup m' a = Some v \<longrightarrow> v = mget roots a"
    "\<forall>t \<in> set ts. fmlookup m' (tg_arch t) = Some (mget roots (tg_arch t))"
    "\<forall>a v. fmlookup ?m a = Some v \<longrightarrow> fmlookup m' a = Some v"
    using Cons.IH [OF tail inv] by blast
  have "fmlookup m' a = Some v" if "fmlookup m a = Some v" for a v
    using that m'(4) Cons.prems by (cases "a = tg_arch t") auto
  moreover have "fmlookup m' (tg_arch t) = Some (mget roots (tg_arch t))"
    using m'(4) Cons.prems(1) by (metis fmupd_lookup list.set_intros(1))
  moreover have "scan_ok check_root m (t # ts) = Inr m'" using s m'(1) by simp
  ultimately show ?case using m'(2,3) unfolding list.set by (intro exI [of _ m']) blast
qed

lemma group_targets_cong:
  "mget roots (ng_arch g) = mget roots' (ng_arch g) \<Longrightarrow> group_targets n roots g = group_targets n roots' g"
  by (simp add: group_targets_def)

text \<open>C30: The builder and the validator agree: for a valid definition and a usable root device for
  each of its architectures, the plan that is built passes validation, so what the preflight writes
  is what the executor later accepts.\<close>

theorem build_validates:
  assumes "validate_network R n = Inr ()" and "validate_provision n = Inr ()"
    and "\<forall>g \<in> set (nw_nodes n). usable_root (mget roots (ng_arch g))"
  shows "validate_plan H R (build H n roots) = Inr ()"
proof -
  define ts where "ts = concat (map (group_targets n roots) (nw_nodes n))"
  have set_ts: "t \<in> set ts \<longleftrightarrow> (\<exists>g \<in> set (nw_nodes n). t \<in> set (group_targets n roots g))" for t
    by (auto simp: ts_def)
  have root: "tg_root t = mget roots (tg_arch t) \<and> (\<exists>g \<in> set (nw_nodes n). tg_arch t = ng_arch g)"
    if "t \<in> set ts" for t
    using that set_ts by (auto simp: set_group_targets)
  have ok: "\<forall>t \<in> set (sort_key tg_name ts). tg_root t = mget roots (tg_arch t) \<and> usable_root (tg_root t)"
    unfolding set_sort using assms(3) root by metis
  obtain m where m: "scan_ok check_root fmempty (sort_key tg_name ts) = Inr m"
    "\<forall>t \<in> set (sort_key tg_name ts). fmlookup m (tg_arch t) = Some (mget roots (tg_arch t))"
    using scan_roots [OF ok, of fmempty] by auto
  have same: "group_targets n m g = group_targets n roots g" if g: "g \<in> set (nw_nodes n)" for g
  proof -
    have "1 \<le> nat (ng_count g)" using valid_counts [OF assms(1,2)] g by fastforce
    then have "\<exists>t \<in> set (group_targets n roots g). tg_arch t = ng_arch g"
      unfolding set_group_targets Bex_def by (intro exI [of _ "\<lparr>tg_name = target_name (ng_name g) 1,
        tg_group = ng_name g, tg_role = ng_role g, tg_arch = ng_arch g, tg_type = ng_type g,
        tg_ami = ami_for n (ng_arch g), tg_root = mget roots (ng_arch g)\<rparr>"]) auto
    then obtain t where "t \<in> set ts" "tg_arch t = ng_arch g" using g set_ts by blast
    then have "fmlookup m (ng_arch g) = Some (mget roots (ng_arch g))" using m(2) by (metis set_sort)
    then have "mget m (ng_arch g) = mget roots (ng_arch g)" by (simp add: mget_def)
    then show ?thesis by (rule group_targets_cong)
  qed
  have "build H n m = build H n roots" using same by (simp add: build_def Let_def cong: map_cong)
  then show ?thesis using assms(1,2) m(1) by (simp add: validate_plan_def ts_def)
qed

theorem build_validates_witness:
  "validate_plan sample_hash sample_refs (build sample_hash sample_network sample_roots) = Inr ()"
proof (rule build_validates)
  show "validate_network sample_refs sample_network = Inr ()" by (rule sample_network_valid)
  show "validate_provision sample_network = Inr ()" by code_simp
  show "\<forall>g \<in> set (nw_nodes sample_network). usable_root (mget sample_roots (ng_arch g))"
    by code_simp
qed

section \<open>Tampering and tags\<close>

text \<open>C27: Two accepted plans with the same identity are the same plan, unless the digest collides on
  their JSON texts: any change of the network, of a target or of a root device changes the ID.\<close>

theorem plan_tamper_evident:
  assumes "validate_plan H R p = Inr ()" and "validate_plan H R q = Inr ()" and "pl_id p = pl_id q"
    and "inj_on H {plan_json (p\<lparr>pl_id := []\<rparr>), plan_json (q\<lparr>pl_id := []\<rparr>)}"
  shows "p = q"
proof -
  have id: "pl_id x = H (plan_json (x\<lparr>pl_id := []\<rparr>))" if v: "validate_plan H R x = Inr ()" for x
  proof -
    obtain roots where x: "x = build H (pl_network x) roots" using validate_plan_rebuild [OF v] by blast
    show ?thesis by (subst (1 2) x) (rule build_id)
  qed
  have "plan_json (p\<lparr>pl_id := []\<rparr>) = plan_json (q\<lparr>pl_id := []\<rparr>)"
    using assms(3) id [OF assms(1)] id [OF assms(2)] by (intro inj_onD [OF assms(4)]) simp_all
  then have "p\<lparr>pl_id := []\<rparr> = q\<lparr>pl_id := []\<rparr>" by simp
  then show ?thesis using assms(3) by (cases p; cases q) simp
qed

theorem plan_tamper_evident_witness:
  "validate_plan sample_hash sample_refs sample_plan = Inr () \<and> sample_plan = build sample_hash sample_network sample_roots"
  using plan_tamper_evident [OF sample_plan_valid, of "build sample_hash sample_network sample_roots"]
    sample_plan_valid by (simp add: sample_plan_def)

text \<open>C32: The operator's own network tag key never displaces an ownership tag: the tags of every target
  of an accepted plan carry the operator's key and all the dashnet keys, with the network, plan,
  node and role of the target, and different targets have different tags.\<close>

theorem tags_complete:
  assumes "validate_plan H R p = Inr ()"
  shows "fmlookup (tags p t) (aws_tag_key (nw_aws (pl_network p))) = Some (md_name (nw_metadata (pl_network p))) \<and>
    fmlookup (tags p t) ''Name'' = Some (md_name (nw_metadata (pl_network p)) @ ''-'' @ tg_name t) \<and>
    fmlookup (tags p t) ''dashnet:managed-by'' = Some managed_by \<and>
    fmlookup (tags p t) ''dashnet:network'' = Some (md_name (nw_metadata (pl_network p))) \<and>
    fmlookup (tags p t) ''dashnet:plan'' = Some (pl_id p) \<and>
    fmlookup (tags p t) ''dashnet:generation'' = Some (itoa_int (ch_generation (nw_chain (pl_network p)))) \<and>
    fmlookup (tags p t) ''dashnet:node'' = Some (tg_name t) \<and>
    fmlookup (tags p t) ''dashnet:role'' = Some (tg_role t) \<and>
    (tags p t = tags p u \<longrightarrow> tg_name t = tg_name u)"
proof -
  obtain f where "validate_footprint (pl_network p) f = Inr ()"
    using validate_plan_rebuild [OF assms] validate_provision_Some by blast
  then have r: "\<not> reserved_tag_key (aws_tag_key (nw_aws (pl_network p)))" by (rule validate_footprint_facts)
  then have k: "aws_tag_key (nw_aws (pl_network p)) \<noteq> ''Name''"
    "\<And>x. aws_tag_key (nw_aws (pl_network p)) \<noteq> ''dashnet:'' @ x"
    by (auto simp: reserved_tag_key_def has_prefix_def)
  note d = k(2) [of "''managed-by''"] k(2) [of "''network''"] k(2) [of "''generation''"] k(2) [of "''plan''"]
    k(2) [of "''node''"] k(2) [of "''role''"]
  have look: "fmlookup (tags p u) ''dashnet:node'' = Some (tg_name u)" for u
    by (simp add: tags_def Let_def)
  have "tags p t = tags p u \<longrightarrow> tg_name t = tg_name u" using look [of t] look [of u] by auto
  then show ?thesis using k(1) d look [of t] by (simp add: tags_def Let_def)
qed

theorem tags_complete_witness:
  "fmlookup (tags sample_plan (hd (pl_targets sample_plan))) ''dashnet:managed-by'' = Some managed_by"
  using tags_complete [OF sample_plan_valid, of "hd (pl_targets sample_plan)"] by blast

section \<open>Addresses\<close>

end
