(* ===== verification/Operation_Record.thy ===== *)
theory Operation_Record
  imports Sample Netaddr
begin

text \<open>
  The shared operation journal record (\<open>internal/provision\<close>: \<open>Record\<close> and the progress structs
  it holds) and its validators: compute, bootstrap, deployment, join and upgrade. Maps keyed by
  node name are finite maps; a pointer field is an option, a zero time is 0.
\<close>

section \<open>Data\<close>

record address =
  ad_phase :: string
  ad_attempted :: gotime
  ad_allocation :: string
  ad_public_ip :: string
  ad_association :: string

record node =
  nd_phase :: string
  nd_attempted :: gotime
  nd_instance :: string
  nd_state :: string
  nd_observed :: gotime
  nd_address :: "address option"

record boot_node =
  bn_phase :: string
  bn_observed :: gotime
  bn_docker :: string
  bn_compose :: string

record boot =
  bt_plan :: string
  bt_phase :: string
  bt_nodes :: "(string, boot_node) fmap"

record dep_node =
  dn_phase :: string
  dn_operator_key :: string
  dn_node_id :: string
  dn_protx :: string
  dn_container :: string
  dn_core_height :: int
  dn_platform_height :: int
  dn_observed :: gotime

record sidecar =
  sc_service :: string
  sc_requested :: string
  sc_pinned :: string
  sc_platforms :: "(string \<times> string) list" \<comment> \<open>architecture and digest\<close>

record deployment =
  dp_plan :: string
  dp_phase :: string
  dp_stage :: string
  dp_genesis :: string
  dp_payout :: string
  dp_spork :: string
  dp_genesis_height :: int
  dp_observed :: gotime
  dp_nodes :: "(string, dep_node) fmap"
  dp_sidecars :: "sidecar list"

type_synonym image_set = "(string, string) fmap"
type_synonym fleet_images = "(string, image_set) fmap"

record runtime =
  rt_deployment :: string
  rt_upgrade :: string
  rt_images :: fleet_images
  rt_sidecars :: "sidecar list"

record preservation =
  pv_core :: string
  pv_started :: string
  pv_config :: string
  pv_genesis :: string
  pv_containers :: "(string, string) fmap"
  pv_restarts :: "(string, int) fmap"

record upgrade =
  ug_plan :: string
  ug_previous :: string
  ug_phase :: string
  ug_current :: string
  ug_from :: fleet_images
  ug_to :: fleet_images
  ug_baseline :: "(string, preservation) fmap"
  ug_completed :: "(string, bool) fmap"
  ug_observed :: gotime
  ug_scope :: string
  ug_sidecars :: "sidecar list"
  ug_changes :: "(string, string list) fmap"

record join_node =
  jn_phase :: string
  jn_container :: string
  jn_height :: int
  jn_observed :: gotime

record join =
  jo_plan :: string
  jo_phase :: string
  jo_nodes :: "(string, join_node) fmap"

record oprec =
  rc_join :: "join option"
  rc_api :: string
  rc_kind :: string
  rc_revision :: int
  rc_plan :: plan
  rc_phase :: string
  rc_health :: string
  rc_created :: gotime
  rc_updated :: gotime
  rc_runner :: string
  rc_cli :: string
  rc_error :: "gerr option" \<comment> \<open>\<open>LastError\<close>, the error rather than its text\<close>
  rc_nodes :: "(string, node) fmap"
  rc_boot :: "boot option"
  rc_deployment :: "deployment option"
  rc_runtime :: "runtime option"
  rc_upgrade :: "upgrade option"

text \<open>The zero value of a map's element type is what Go reads for a missing key.\<close>

definition node_zero :: node where
  "node_zero = \<lparr>nd_phase = [], nd_attempted = 0, nd_instance = [], nd_state = [], nd_observed = 0,
     nd_address = None\<rparr>"

definition node_at :: "oprec \<Rightarrow> string \<Rightarrow> node" where
  "node_at r x = (case fmlookup (rc_nodes r) x of None \<Rightarrow> node_zero | Some n \<Rightarrow> n)"

definition set_node :: "string \<Rightarrow> node \<Rightarrow> oprec \<Rightarrow> oprec" where
  "set_node x n r = r\<lparr>rc_nodes := fmupd x n (rc_nodes r)\<rparr>"

definition footprint_of :: "plan \<Rightarrow> footprint" where
  "footprint_of p = (case aws_provision (nw_aws (pl_network p)) of Some f \<Rightarrow> f
   | None \<Rightarrow> \<lparr>fp_table = [], fp_vpc = [], fp_subnet = [], fp_sgs = [], fp_key = [], fp_public = False,
       fp_pool = [], fp_root_gib = 0, fp_amis = fmempty\<rparr>)"

section \<open>Pattern variables and times\<close>

definition hex64 :: rx where "hex64 = Times 64 (Sym is_hex)"
definition hex40 :: rx where "hex40 = Times 40 (Sym is_hex)"
definition hex96 :: rx where "hex96 = Times 96 (Sym is_hex)"

definition is_base58 :: "char \<Rightarrow> bool" where
  "is_base58 c \<longleftrightarrow> c \<in> set ''123456789ABCDEFGHJKLMNPQRSTUVWXYZabcdefghijkmnopqrstuvwxyz''"

definition dash_address :: rx where
  "dash_address = Seq (Times 26 (Sym is_base58)) (Upto 14 (Sym is_base58))"

definition runtime_version :: rx where
  "runtime_version = (let p = (\<lambda>c. is_lower c \<or> is_upper c \<or> is_dec c \<or> c \<in> set ''.+:~_-'')
     in Seq (Sym p) (Upto 99 (Sym p)))"

definition sha256_digest :: rx where
  "sha256_digest = Seq (lit ''sha256:'') (Times 64 (Sym is_hex))"

lemma hex64_iff: "matches hex64 s \<longleftrightarrow> length s = 64 \<and> list_all is_hex s"
  by (simp add: hex64_def matches_Times_Sym)

lemma hex40_iff: "matches hex40 s \<longleftrightarrow> length s = 40 \<and> list_all is_hex s"
  by (simp add: hex40_def matches_Times_Sym)

lemma hex96_iff: "matches hex96 s \<longleftrightarrow> length s = 96 \<and> list_all is_hex s"
  by (simp add: hex96_def matches_Times_Sym)

lemma sha256_digest_iff:
  "matches sha256_digest s \<longleftrightarrow> (\<exists>h. s = ''sha256:'' @ h \<and> length h = 64 \<and> list_all is_hex h)"
  by (simp add: sha256_digest_def matches_lang lpow_Sym)

text \<open>\<open>time.Parse(time.RFC3339Nano, s)\<close> returns no error.\<close>

definition two :: "string \<Rightarrow> (nat \<times> string) option" where
  "two s = (case s of a # b # r \<Rightarrow> if is_dec a \<and> is_dec b
     then Some (10 * digit_val a + digit_val b, r) else None | _ \<Rightarrow> None)"

definition one_or_two :: "string \<Rightarrow> (nat \<times> string) option" where
  "one_or_two s = (case two s of Some x \<Rightarrow> Some x
     | None \<Rightarrow> (case s of a # r \<Rightarrow> if is_dec a then Some (digit_val a, r) else None | [] \<Rightarrow> None))"

definition skip :: "char \<Rightarrow> string \<Rightarrow> string option" where
  "skip c s = (case s of d # r \<Rightarrow> if c = d then Some r else None | [] \<Rightarrow> None)"

definition leap :: "nat \<Rightarrow> bool" where
  "leap y \<longleftrightarrow> y mod 4 = 0 \<and> (y mod 100 \<noteq> 0 \<or> y mod 400 = 0)"

definition days_in :: "nat \<Rightarrow> nat \<Rightarrow> nat" where
  "days_in m y = (if m = 2 then (if leap y then 29 else 28) else if m \<in> {4, 6, 9, 11} then 30 else 31)"

definition zone_ok :: "string \<Rightarrow> bool" where
  "zone_ok s = (s = ''Z'' \<or> (case s of [] \<Rightarrow> False | c # r \<Rightarrow> (c = CHR ''+'' \<or> c = CHR ''-'') \<and>
     (case two r of None \<Rightarrow> False | Some (h, r1) \<Rightarrow> h \<le> 24 \<and> (case skip CHR '':'' r1 of None \<Rightarrow> False
       | Some r2 \<Rightarrow> (case two r2 of None \<Rightarrow> False | Some (m, r3) \<Rightarrow> m \<le> 60 \<and> r3 = [])))))"

definition drop_fraction :: "string \<Rightarrow> string" where
  "drop_fraction s = (case s of c # d # r \<Rightarrow>
     if (c = CHR ''.'' \<or> c = CHR '','') \<and> is_dec d then dropWhile is_dec r else s | _ \<Rightarrow> s)"

definition rfc3339 :: "string \<Rightarrow> bool" where
  "rfc3339 s = (case Option.bind (two s) (\<lambda>(y1, s). Option.bind (two s) (\<lambda>(y2, s).
     Option.bind (skip CHR ''-'' s) (\<lambda>s. Option.bind (two s) (\<lambda>(mo, s).
     Option.bind (skip CHR ''-'' s) (\<lambda>s. Option.bind (two s) (\<lambda>(d, s).
     Option.bind (skip CHR ''T'' s) (\<lambda>s. Option.bind (one_or_two s) (\<lambda>(h, s).
     Option.bind (skip CHR '':'' s) (\<lambda>s. Option.bind (two s) (\<lambda>(mi, s).
     Option.bind (skip CHR '':'' s) (\<lambda>s. Option.bind (two s) (\<lambda>(sec, s).
       if 1 \<le> mo \<and> mo \<le> 12 \<and> 1 \<le> d \<and> d \<le> days_in mo (100 * y1 + y2) \<and> h < 24 \<and> mi < 60 \<and> sec < 60
       then Some (drop_fraction s) else None)))))))))))) of
     None \<Rightarrow> False | Some z \<Rightarrow> zone_ok z)"

section \<open>Compute and address checkpoints\<close>

text \<open>\<open>validateAddress\<close> (ipam.go).\<close>

definition validate_address :: "plan \<Rightarrow> node \<Rightarrow> unit res" where
  "validate_address p n = (case nd_address n of None \<Rightarrow> Inr () | Some a \<Rightarrow>
     if \<not> fp_public (footprint_of p) \<or> fp_pool (footprint_of p) = [] \<or> nd_phase n \<noteq> ''present'' \<or>
        ad_attempted a = 0
       then Inl (Err ''address journal has no matching IPAM launch'')
     else if ad_phase a = ''allocating'' then
       (if ad_allocation a \<noteq> [] \<or> ad_public_ip a \<noteq> [] \<or> ad_association a \<noteq> []
        then Inl (Err ''invalid allocation intent'') else Inr ())
     else if ad_phase a \<in> {''allocated'', ''associating'', ''associated'', ''releasing'', ''released''} then
       (if ad_allocation a = [] \<or> \<not> valid_ipv4 (ad_public_ip a)
          then Inl (Err ''invalid allocated address journal'')
        else if ad_phase a = ''associated'' \<and> ad_association a = []
          then Inl (Err ''associated address has no association identity'')
        else Inr ())
     else Inl (Err ''invalid address phase''))"

definition new_record :: "plan \<Rightarrow> gotime \<Rightarrow> oprec" where
  "new_record p t = \<lparr>rc_join = None, rc_api = pl_api p, rc_kind = ''EC2ProvisionOperation'',
     rc_revision = 0, rc_plan = p, rc_phase = ''pending'', rc_health = ''unknown'', rc_created = t,
     rc_updated = t, rc_runner = [], rc_cli = [], rc_error = None,
     rc_nodes = fmap_of_list (map (\<lambda>x. (tg_name x,
       node_zero\<lparr>nd_phase := ''pending'', nd_state := ''unknown''\<rparr>)) (pl_targets p)),
     rc_boot = None, rc_deployment = None, rc_runtime = None, rc_upgrade = None\<rparr>"

definition check_node :: "node \<Rightarrow> unit res" where
  "check_node n =
     (if nd_phase n = ''pending'' then
        (if nd_instance n \<noteq> [] \<or> nd_attempted n \<noteq> 0 then Inl (Err ''invalid pending target'') else Inr ())
      else if nd_phase n = ''launching'' then
        (if nd_attempted n = 0 \<or> nd_instance n \<noteq> [] then Inl (Err ''invalid launching target'') else Inr ())
      else if nd_phase n = ''present'' then
        (if nd_attempted n = 0 \<or> nd_instance n = [] \<or> nd_observed n = 0
         then Inl (Err ''invalid present target'') else Inr ())
      else Inl (Err ''invalid target phase''))"

definition check_retired :: "plan \<Rightarrow> oprec \<Rightarrow> node \<Rightarrow> unit res" where
  "check_retired p r n =
     (if rc_phase r = ''addresses-released'' \<and>
         (\<not> fp_public (footprint_of p) \<or>
          (case nd_address n of None \<Rightarrow> False | Some a \<Rightarrow> ad_phase a \<noteq> ''released''))
      then Inl (Err ''retired allocation retains unfinished address state'') else Inr ())"

definition check_target :: "plan \<Rightarrow> oprec \<Rightarrow> target \<Rightarrow> unit res" where
  "check_target p r t = (case fmlookup (rc_nodes r) (tg_name t) of
     None \<Rightarrow> Inl (At (tg_name t) (Err ''journal lost target''))
   | Some n \<Rightarrow> after (check_node n) (\<lambda>_. after (validate_address p n) (\<lambda>_. check_retired p r n)))"

definition op_phases :: "string list" where
  "op_phases = [''pending'', ''provisioning'', ''interrupted'', ''compute-ready'', ''addresses-released'']"

definition validate_compute :: "hasher \<Rightarrow> image_refs \<Rightarrow> plan \<Rightarrow> oprec \<Rightarrow> unit res" where
  "validate_compute H R p r = after (validate_plan H R (rc_plan r)) (\<lambda>_.
     if rc_revision r < 0 \<or> rc_plan r \<noteq> p \<or> rc_api r \<noteq> pl_api p \<or> rc_kind r \<noteq> ''EC2ProvisionOperation'' \<or>
        rc_health r \<noteq> ''unknown'' \<or> fcard (fmdom (rc_nodes r)) \<noteq> length (pl_targets p) \<or>
        rc_created r = 0 \<or> rc_updated r = 0
       then Inl (Err ''operation journal identity, schema, or target set mismatch'')
     else if rc_phase r \<notin> set op_phases then Inl (Err ''invalid operation phase'')
     else each_ok (check_target p r) (pl_targets p))"

text \<open>\<open>ValidateAddressCleanup\<close> (ipam_release.go); the two loops over the map refuse a repeated
  identity whatever the order.\<close>

definition recorded :: "(node \<Rightarrow> string) \<Rightarrow> oprec \<Rightarrow> string list" where
  "recorded f r = filter (\<lambda>i. i \<noteq> []) (map (\<lambda>(_, n). f n) (sorted_list_of_fmap (rc_nodes r)))"

definition allocation_of :: "node \<Rightarrow> string" where
  "allocation_of n = (case nd_address n of None \<Rightarrow> [] | Some a \<Rightarrow> ad_allocation a)"

definition validate_cleanup :: "hasher \<Rightarrow> image_refs \<Rightarrow> plan \<Rightarrow> oprec \<Rightarrow> unit res" where
  "validate_cleanup H R p r = after (validate_compute H R p r) (\<lambda>_.
     if \<not> distinct (recorded nd_instance r) then Inl (Err ''duplicate cleanup journal instance'')
     else if \<not> distinct (recorded allocation_of r) then Inl (Err ''duplicate cleanup journal allocation'')
     else Inr ())"

section \<open>Bootstrap and join\<close>

definition check_boot_target :: "boot \<Rightarrow> target \<Rightarrow> unit res" where
  "check_boot_target b t = (case fmlookup (bt_nodes b) (tg_name t) of
     None \<Rightarrow> Inl (At (tg_name t) (Err ''bootstrap lost target''))
   | Some n \<Rightarrow>
     after (if bn_phase n \<in> {''pending'', ''checking'', ''preparing'', ''unknown''} then Inr ()
       else if bn_phase n = ''ready'' then
         (if bn_observed n = 0 \<or> \<not> matches runtime_version (bn_docker n) \<or>
             \<not> matches runtime_version (bn_compose n)
          then Inl (Err ''missing bootstrap runtime evidence'') else Inr ())
       else Inl (Err ''invalid bootstrap target phase'')) (\<lambda>_.
     if bt_phase b = ''hosts-ready'' \<and> bn_phase n \<noteq> ''ready''
       then Inl (Err ''hosts-ready requires every target verified'') else Inr ()))"

definition validate_bootstrap :: "plan \<Rightarrow> oprec \<Rightarrow> unit res" where
  "validate_bootstrap p r = (case rc_boot r of None \<Rightarrow> Inr () | Some b \<Rightarrow>
     if \<not> matches hex64 (bt_plan b) \<or> fcard (fmdom (bt_nodes b)) \<noteq> length (pl_targets p)
       then Inl (Err ''invalid bootstrap identity or target set'')
     else if bt_phase b \<notin> {''preparing'', ''interrupted'', ''hosts-ready''}
       then Inl (Err ''invalid bootstrap phase'')
     else each_ok (check_boot_target b) (pl_targets p))"

definition check_join_target :: "join \<Rightarrow> target \<Rightarrow> unit res" where
  "check_join_target j t = (case fmlookup (jo_nodes j) (tg_name t) of
     None \<Rightarrow> Inl (Err ''invalid joined target'')
   | Some n \<Rightarrow>
     if tg_role t \<noteq> ''fullnode'' \<or> jn_phase n \<notin> {''pending'', ''syncing'', ''ready''} \<or> jn_height n < 0 \<or>
        (jn_container n \<noteq> [] \<and> \<not> matches hex64 (jn_container n))
       then Inl (Err ''invalid joined target'')
     else if jo_phase j = ''joined'' \<and> (jn_phase n \<noteq> ''ready'' \<or> jn_observed n = 0 \<or> jn_container n = [])
       then Inl (Err ''join ready without observed evidence'')
     else Inr ())"

definition validate_join :: "plan \<Rightarrow> oprec \<Rightarrow> unit res" where
  "validate_join p r = (case rc_join r of None \<Rightarrow> Inr () | Some j \<Rightarrow>
     if rc_deployment r \<noteq> None \<or> rc_runtime r \<noteq> None \<or> rc_upgrade r \<noteq> None \<or>
        \<not> matches hex64 (jo_plan j) \<or> fcard (fmdom (jo_nodes j)) \<noteq> length (pl_targets p)
       then Inl (Err ''join record conflicts with a genesis deployment or lost targets'')
     else if jo_phase j \<notin> {''joining'', ''interrupted'', ''joined''} then Inl (Err ''invalid join phase'')
     else each_ok (check_join_target j) (pl_targets p))"

section \<open>Sidecars\<close>

definition sidecar_services :: "string list" where
  "sidecar_services = [''core_tor'', ''gateway_rate_limiter'', ''gateway_rate_limiter_redis'']"

text \<open>\<open>Reference\<close>: the repository name and, for a digest reference, its digest.
  \<open>strings.LastIndex(repo, ":") > strings.LastIndex(repo, "/")\<close> holds exactly when the text
  after the last slash has a colon.\<close>

definition image_reference :: "image_refs \<Rightarrow> string \<Rightarrow> (string \<times> string option) option" where
  "image_reference R ref = (case cut CHR ''@'' ref of (repo, digest, found) \<Rightarrow>
     if found then
       (if CHR '':'' \<in> set (after_last CHR ''/'' repo) then
          (if \<not> weak_tag R repo then None
           else map_option (\<lambda>(n, d). (n, Some d)) (weak_digest R (before_last CHR '':'' repo @ ''@'' @ digest)))
        else map_option (\<lambda>(n, d). (n, Some d)) (weak_digest R (repo @ ''@'' @ digest)))
     else weak_reference R ref)"

definition check_sidecar :: "image_refs \<Rightarrow> string list \<Rightarrow> string list \<Rightarrow> sidecar \<Rightarrow> string list res" where
  "check_sidecar R arches seen im =
     (if sc_service im \<notin> set sidecar_services \<or> sc_service im \<in> set seen \<or>
         (seen \<noteq> [] \<and> hd seen > sc_service im)
        then Inl (Err ''sidecar images must name distinct supported dashmate services in order'')
      else case image_reference R (sc_requested im) of None \<Rightarrow> Inl (Err ''invalid requested image'')
      | Some (repo, digest) \<Rightarrow> (case new_digest R (sc_pinned im) of
          None \<Rightarrow> Inl (Err ''must pin dashmate's requested repository by sha256'')
        | Some (prepo, pdigest) \<Rightarrow>
            if \<not> matches sha256_digest pdigest \<or> prepo \<noteq> repo
              then Inl (Err ''must pin dashmate's requested repository by sha256'')
            else if (case digest of None \<Rightarrow> False | Some d \<Rightarrow> d \<noteq> pdigest)
              then Inl (Err ''pin differs from dashmate's own digest'')
            else if list_ex (\<lambda>(_, d). \<not> matches sha256_digest d) (sc_platforms im)
              then Inl (Err ''invalid platform digest'')
            else if sort (map fst (sc_platforms im)) \<noteq> arches
              then Inl (Err ''platforms differ from network architectures'')
            else Inr (sc_service im # seen)))"

definition validate_sidecars :: "image_refs \<Rightarrow> plan \<Rightarrow> sidecar list \<Rightarrow> unit res" where
  "validate_sidecars R p s =
     after (scan_ok (check_sidecar R (architectures (pl_network p))) [] s) (\<lambda>_. Inr ())"

text \<open>\<open>For\<close> and \<open>Requested\<close>: a later assignment to the same key wins.\<close>

definition sidecars_for :: "image_refs \<Rightarrow> string \<Rightarrow> sidecar list \<Rightarrow> (string, string) fmap" where
  "sidecars_for R arch s = fold (\<lambda>im m. case new_digest R (sc_pinned im) of None \<Rightarrow> m
     | Some (repo, _) \<Rightarrow> fold (\<lambda>(a, d) m. if a = arch then fmupd (sc_service im) (digest_name R repo d) m else m)
         (sc_platforms im) m) s fmempty"

definition sidecars_requested :: "sidecar list \<Rightarrow> (string, string) fmap" where
  "sidecars_requested s = fold (\<lambda>im m. fmupd (sc_service im) (sc_requested im) m) s fmempty"

section \<open>Deployment\<close>

definition dep_phases :: "string list" where
  "dep_phases = [''deploying'', ''interrupted'', ''network-ready'', ''stopped'']"

definition dep_stages :: "string list" where
  "dep_stages = [''preflight'', ''render'', ''core-start'', ''identities'', ''core-finalize'',
     ''registrations'', ''core-sync'', ''quorums'', ''platform-start'', ''health'', ''ready'',
     ''stopping'', ''stopped'']"

definition dep_node_phases :: "string list" where
  "dep_node_phases = [''pending'', ''checking'', ''core-ready'', ''identified'', ''registered'',
     ''platform-started'', ''ready'', ''unknown'']"

definition check_dep_target :: "deployment \<Rightarrow> target \<Rightarrow> unit res" where
  "check_dep_target d t = (case fmlookup (dp_nodes d) (tg_name t) of
     None \<Rightarrow> Inl (Err ''deployment lost an intended target'')
   | Some n \<Rightarrow>
     if dn_phase n \<notin> set dep_node_phases then Inl (Err ''invalid deployment target phase'')
     else if dn_operator_key n \<noteq> [] \<and> \<not> matches hex96 (dn_operator_key n) \<or>
        dn_node_id n \<noteq> [] \<and> \<not> matches hex40 (dn_node_id n) \<or>
        dn_protx n \<noteq> [] \<and> \<not> matches hex64 (dn_protx n) \<or>
        dn_container n \<noteq> [] \<and> \<not> matches hex64 (dn_container n) \<or>
        dn_core_height n < 0 \<or> dn_platform_height n < 0
       then Inl (Err ''invalid deployment target evidence'')
     else if dp_phase d = ''network-ready'' \<and>
        (dn_phase n \<noteq> ''ready'' \<or> dn_observed n = 0 \<or> dn_container n = [] \<or> dn_core_height n < 1 \<or>
         (tg_role t = ''validator'' \<and> (dn_platform_height n < 1 \<or> dn_protx n = [] \<or> dn_node_id n = [] \<or>
           dn_operator_key n = [])))
       then Inl (Err ''network readiness requires all targets observed'')
     else Inr ())"

definition validate_deployment :: "image_refs \<Rightarrow> plan \<Rightarrow> oprec \<Rightarrow> unit res" where
  "validate_deployment R p r = (case rc_deployment r of None \<Rightarrow> Inr () | Some d \<Rightarrow>
     if \<not> matches hex64 (dp_plan d) \<or> fcard (fmdom (dp_nodes d)) \<noteq> length (pl_targets p) \<or> dp_genesis_height d < 0
       then Inl (Err ''invalid deployment journal identity or scope'')
     else if dp_phase d \<notin> set dep_phases then Inl (Err ''invalid deployment phase'')
     else if dp_stage d \<notin> set dep_stages then Inl (Err ''invalid deployment stage'')
     else if dp_phase d = ''network-ready'' \<and> (dp_stage d \<noteq> ''ready'' \<or> dp_observed d = 0 \<or>
         dp_genesis d = [] \<or> dp_genesis_height d < 1 \<or> dp_payout d = [] \<or> dp_spork d = [])
       then Inl (Err ''network-ready lacks complete chain evidence'')
     else after (validate_sidecars R p (dp_sidecars d)) (\<lambda>_.
       if dp_genesis d \<noteq> [] \<and> \<not> matches hex64 (dp_genesis d)
         then Inl (Err ''invalid Core genesis evidence'')
       else after (each_ok (\<lambda>a. if a \<noteq> [] \<and> \<not> matches dash_address a
           then Inl (Err ''invalid public wallet address'') else Inr ()) [dp_payout d, dp_spork d]) (\<lambda>_.
       each_ok (check_dep_target d) (pl_targets p))))"

section \<open>Runtime and upgrade\<close>

definition platform_services :: "string list" where
  "platform_services = [''drive_abci'', ''drive_tenderdash'', ''rs_dapi'', ''gateway_rate_limiter_redis'',
     ''gateway_rate_limiter'', ''gateway'']"

text \<open>Go's nil map for a node that is not in the fleet.\<close>

definition images_at :: "fleet_images \<Rightarrow> string \<Rightarrow> image_set" where
  "images_at f x = (case fmlookup f x of None \<Rightarrow> fmempty | Some v \<Rightarrow> v)"

definition immutable_ref :: "image_refs \<Rightarrow> string \<Rightarrow> bool" where
  "immutable_ref R s = (case new_digest R s of None \<Rightarrow> False
     | Some (_, d) \<Rightarrow> length d = 71 \<and> take 7 d = ''sha256:'' \<and> matches hex64 (drop 7 d))"

definition validate_images :: "image_refs \<Rightarrow> plan \<Rightarrow> fleet_images \<Rightarrow> unit res" where
  "validate_images R p f =
     (if fcard (fmdom f) \<noteq> length (pl_targets p)
        then Inl (Err ''runtime image set lost an intended target'')
      else each_ok (\<lambda>t. let cs = role_components (tg_role t); v = images_at f (tg_name t) in
        if fcard (fmdom v) \<noteq> length cs then Inl (At (tg_name t) (Err ''incomplete runtime images''))
        else each_ok (\<lambda>c. if immutable_ref R (mget v c) then Inr ()
          else Inl (At (tg_name t) (Err ''runtime image is not an immutable SHA256 reference''))) cs)
        (pl_targets p))"

definition pv_zero :: preservation where
  "pv_zero = \<lparr>pv_core = [], pv_started = [], pv_config = [], pv_genesis = [], pv_containers = fmempty,
     pv_restarts = fmempty\<rparr>"

definition baseline_at :: "upgrade \<Rightarrow> string \<Rightarrow> preservation" where
  "baseline_at u x = (case fmlookup (ug_baseline u) x of None \<Rightarrow> pv_zero | Some b \<Rightarrow> b)"

definition completed_at :: "upgrade \<Rightarrow> string \<Rightarrow> bool" where
  "completed_at u x = (fmlookup (ug_completed u) x = Some True)"

definition restarts_at :: "preservation \<Rightarrow> string \<Rightarrow> int" where
  "restarts_at b s = (case fmlookup (pv_restarts b) s of None \<Rightarrow> 0 | Some n \<Rightarrow> n)"

definition check_changes :: "plan \<Rightarrow> upgrade \<Rightarrow> string \<times> string list \<Rightarrow> unit res" where
  "check_changes p u c = (let (x, services) = c in
     if (case find_target p x of None \<Rightarrow> True | Some t \<Rightarrow> tg_role t \<noteq> ''validator'') \<or> ug_scope u = ''core''
       then Inl (Err ''upgrade changes name a node outside the rollout'')
     else if list_ex (\<lambda>s. s \<notin> set platform_services) services \<or> \<not> distinct services
       then Inl (Err ''invalid staged upgrade change'')
     else Inr ())"

text \<open>The Core rule of a node: in scope \<open>core\<close> every other component keeps its image, otherwise
  Core keeps its image.\<close>

definition check_scope :: "runtime \<Rightarrow> upgrade \<Rightarrow> string \<Rightarrow> unit res" where
  "check_scope rt u x =
     (let from = images_at (ug_from u) x; to = images_at (ug_to u) x in
      if ug_scope u = ''core'' then
        (if \<not> fmpred (\<lambda>c pin. c = ''core'' \<or> mget to c = pin) from
           then Inl (Err ''Core upgrade attempted to alter another component'')
         else if fmlookup (ug_completed u) x = None then Inl (Err ''Core upgrade lost node progress'')
         else if ug_phase u = ''complete'' \<and> \<not> completed_at u x
           then Inl (Err ''Core upgrade complete without every node'')
         else Inr ())
      else if mget from ''core'' \<noteq> mget to ''core'' \<or>
           mget (images_at (rt_images rt) x) ''core'' \<noteq> mget from ''core''
        then Inl (Err ''upgrade attempted to alter preserved Core'')
      else Inr ())"

definition check_validator :: "upgrade \<Rightarrow> target \<Rightarrow> unit res" where
  "check_validator u t = (let x = tg_name t; b = baseline_at u x; core = (ug_scope u = ''core'') in
     if tg_role t \<noteq> ''validator'' then Inr ()
     else if \<not> core \<and> fmlookup (ug_completed u) x = None then Inl (Err ''upgrade lost validator progress'')
     else if list_ex (\<lambda>s. \<not> matches hex64 (mget (pv_containers b) s) \<or> restarts_at b s < 0)
         [''drive'', ''tenderdash'', ''dapi'', ''gateway'']
       then Inl (Err ''invalid Platform preservation baseline'')
     else if \<not> core \<and> ug_phase u = ''complete'' \<and> \<not> completed_at u x
       then Inl (Err ''upgrade complete without every validator'')
     else Inr ())"

definition check_runtime :: "runtime \<Rightarrow> upgrade \<Rightarrow> string \<Rightarrow> unit res" where
  "check_runtime rt u x =
     (let from = images_at (ug_from u) x; to = images_at (ug_to u) x; rt = images_at (rt_images rt) x in
      if \<not> fmpred (\<lambda>c pin. pin = mget from c \<or> pin = mget to c) rt
        then Inl (Err ''runtime outside reviewed upgrade bounds'')
      else if ug_phase u = ''complete'' \<and> \<not> fmpred (\<lambda>c pin. pin = mget to c) rt
        then Inl (Err ''completed upgrade differs from desired images'')
      else Inr ())"

text \<open>One round of the loop over targets; \<open>tracked\<close> counts the nodes of the rollout and
  \<open>known\<close> records whether the current node is one of them.\<close>

definition in_rollout :: "upgrade \<Rightarrow> target \<Rightarrow> bool" where
  "in_rollout u t \<longleftrightarrow> ug_scope u = ''core'' \<or> tg_role t = ''validator''"

definition check_upgrade_target ::
  "runtime \<Rightarrow> upgrade \<Rightarrow> nat \<times> bool \<Rightarrow> target \<Rightarrow> (nat \<times> bool) res" where
  "check_upgrade_target rt u st t =
     (let (tracked, known) = st; x = tg_name t; b = baseline_at u x in
      if \<not> matches hex64 (pv_core b) \<or> \<not> matches hex64 (pv_config b) \<or> \<not> matches hex64 (pv_genesis b)
        then Inl (Err ''invalid Core preservation baseline'')
      else if \<not> rfc3339 (pv_started b) then Inl (Err ''missing Core start evidence'')
      else after (check_scope rt u x) (\<lambda>_. after (check_validator u t) (\<lambda>_.
        after (check_runtime rt u x) (\<lambda>_.
        Inr (if in_rollout u t then (Suc tracked, known \<or> x = ug_current u) else (tracked, known))))))"

definition check_rollout :: "upgrade \<Rightarrow> nat \<times> bool \<Rightarrow> unit res" where
  "check_rollout u st = (let (tracked, known) = st in
     if \<not> known \<or> fcard (fmdom (ug_completed u)) \<noteq> tracked
       then Inl (Err ''invalid upgrade target scope'')
     else if ug_phase u = ''complete'' \<and> (ug_current u \<noteq> [] \<or> ug_observed u = 0)
       then Inl (Err ''upgrade lacks final verification'')
     else Inr ())"

definition validate_upgrade :: "image_refs \<Rightarrow> plan \<Rightarrow> oprec \<Rightarrow> unit res" where
  "validate_upgrade R p r =
     (if rc_runtime r = None \<and> rc_upgrade r = None then Inr ()
      else case (rc_deployment r, rc_runtime r, rc_upgrade r) of
        (Some d, Some rt, Some u) \<Rightarrow>
          if rt_deployment rt \<noteq> dp_plan d \<or> \<not> matches hex64 (rt_upgrade rt) \<or> \<not> matches hex64 (ug_plan u) \<or>
             rt_upgrade rt \<noteq> ug_plan u
            then Inl (Err ''runtime/upgrade journal identity mismatch'')
          else if ug_previous u \<noteq> [] \<and> \<not> matches hex64 (ug_previous u)
            then Inl (Err ''invalid previous upgrade identity'')
          else after (each_ok (validate_images R p) [rt_images rt, ug_from u, ug_to u]) (\<lambda>_.
            if ug_phase u \<notin> {''staging'', ''applying'', ''verifying'', ''interrupted'', ''complete''}
              then Inl (Err ''invalid upgrade phase'')
            else if fcard (fmdom (ug_baseline u)) \<noteq> length (pl_targets p)
              then Inl (Err ''upgrade preservation baseline is incomplete'')
            else if ug_scope u \<noteq> [] \<and> ug_scope u \<noteq> ''core'' then Inl (Err ''invalid upgrade scope'')
            else after (each_ok (validate_sidecars R p) [rt_sidecars rt, ug_sidecars u]) (\<lambda>_.
            after (each_ok (check_changes p u) (sorted_list_of_fmap (ug_changes u))) (\<lambda>_.
            after (scan_ok (check_upgrade_target rt u) (0, ug_current u = []) (pl_targets p)) (check_rollout u))))
      | _ \<Rightarrow> Inl (Err ''runtime/upgrade journal identity mismatch''))"

text \<open>\<open>Record.Validate\<close>.\<close>

definition validate_record :: "hasher \<Rightarrow> image_refs \<Rightarrow> plan \<Rightarrow> oprec \<Rightarrow> unit res" where
  "validate_record H R p r = after (validate_compute H R p r) (\<lambda>_. after (validate_bootstrap p r) (\<lambda>_.
     after (validate_deployment R p r) (\<lambda>_. after (validate_join p r) (\<lambda>_. validate_upgrade R p r))))"

section \<open>What accepted records satisfy\<close>

lemma fcard_fmdom_eq:
  assumes "distinct (map f xs)" and "\<forall>x \<in> set xs. fmlookup m (f x) \<noteq> None"
    and "fcard (fmdom m) = length xs"
  shows "fmdom' m = f ` set xs"
proof -
  have sub: "f ` set xs \<subseteq> fmdom' m" using assms(2) by (auto simp: fmlookup_dom'_iff)
  have fin: "finite (fmdom' m)" by simp
  have card: "card (fmdom' m) = length xs" using assms(3) by (simp add: fcard.rep_eq fmdom'_alt_def)
  have "card (f ` set xs) = length xs" using assms(1) distinct_card [of "map f xs"] by simp
  then have "f ` set xs = fmdom' m" using card_subset_eq [OF fin sub] card by simp
  then show ?thesis by simp
qed

lemma validate_compute_plan:
  assumes "validate_compute H R p r = Inr ()"
  shows "rc_plan r = p" "validate_plan H R p = Inr ()" "0 \<le> rc_revision r" "rc_api r = pl_api p"
    "rc_kind r = ''EC2ProvisionOperation''" "rc_health r = ''unknown''"
    "fcard (fmdom (rc_nodes r)) = length (pl_targets p)" "rc_created r \<noteq> 0" "rc_updated r \<noteq> 0"
    "rc_phase r \<in> set op_phases" "\<forall>t \<in> set (pl_targets p). check_target p r t = Inr ()"
  using assms by (auto simp: validate_compute_def res_simps split: if_splits)

lemma validate_compute_iff:
  "validate_compute H R p r = Inr () \<longleftrightarrow> validate_plan H R p = Inr () \<and> rc_plan r = p \<and>
     0 \<le> rc_revision r \<and> rc_api r = pl_api p \<and> rc_kind r = ''EC2ProvisionOperation'' \<and>
     rc_health r = ''unknown'' \<and> fcard (fmdom (rc_nodes r)) = length (pl_targets p) \<and>
     rc_created r \<noteq> 0 \<and> rc_updated r \<noteq> 0 \<and> rc_phase r \<in> set op_phases \<and>
     (\<forall>t \<in> set (pl_targets p). check_target p r t = Inr ())"
  by (auto simp: validate_compute_def res_simps)

lemma validate_compute_domain:
  assumes "validate_compute H R p r = Inr ()"
  shows "fmdom' (rc_nodes r) = tg_name ` set (pl_targets p)"
proof (rule fcard_fmdom_eq)
  show "distinct (map tg_name (pl_targets p))"
    by (rule valid_plan_names [OF validate_compute_plan(2) [OF assms]])
  show "\<forall>t \<in> set (pl_targets p). fmlookup (rc_nodes r) (tg_name t) \<noteq> None"
    using validate_compute_plan(11) [OF assms] by (auto simp: check_target_def split: option.splits)
  show "fcard (fmdom (rc_nodes r)) = length (pl_targets p)"
    by (rule validate_compute_plan(7) [OF assms])
qed

lemma check_node_iff:
  "check_node n = Inr () \<longleftrightarrow>
     (nd_phase n = ''pending'' \<and> nd_instance n = [] \<and> nd_attempted n = 0 \<or>
      nd_phase n = ''launching'' \<and> nd_instance n = [] \<and> nd_attempted n \<noteq> 0 \<or>
      nd_phase n = ''present'' \<and> nd_instance n \<noteq> [] \<and> nd_attempted n \<noteq> 0 \<and> nd_observed n \<noteq> 0)"
  by (auto simp: check_node_def)

lemma check_target_node_at:
  "check_target p r t = Inr () \<longleftrightarrow> fmlookup (rc_nodes r) (tg_name t) = Some (node_at r (tg_name t)) \<and>
     check_node (node_at r (tg_name t)) = Inr () \<and> validate_address p (node_at r (tg_name t)) = Inr () \<and>
     check_retired p r (node_at r (tg_name t)) = Inr ()"
  by (auto simp: check_target_def node_at_def res_simps split: option.splits)

lemma validate_record_parts:
  "validate_record H R p r = Inr () \<longleftrightarrow> validate_compute H R p r = Inr () \<and>
     validate_bootstrap p r = Inr () \<and> validate_deployment R p r = Inr () \<and>
     validate_join p r = Inr () \<and> validate_upgrade R p r = Inr ()"
  by (auto simp: validate_record_def res_simps)

text \<open>A record with the same application parts passes the same application checks.\<close>

definition same_application :: "oprec \<Rightarrow> oprec \<Rightarrow> bool" where
  "same_application r s \<longleftrightarrow> rc_boot r = rc_boot s \<and> rc_deployment r = rc_deployment s \<and>
     rc_join r = rc_join s \<and> rc_runtime r = rc_runtime s \<and> rc_upgrade r = rc_upgrade s"

lemma same_application_valid:
  assumes "same_application r s" and "validate_record H R p r = Inr ()"
    and "validate_compute H R p s = Inr ()"
  shows "validate_record H R p s = Inr ()"
proof -
  have "validate_bootstrap p r = validate_bootstrap p s \<and> validate_deployment R p r = validate_deployment R p s \<and>
    validate_join p r = validate_join p s \<and> validate_upgrade R p r = validate_upgrade R p s"
    using assms(1) unfolding same_application_def validate_bootstrap_def validate_deployment_def
      validate_join_def validate_upgrade_def by metis
  with assms(2,3) show ?thesis by (simp add: validate_record_parts)
qed

lemma same_application_refl [simp]: "same_application r r"
  by (simp add: same_application_def)

text \<open>Changing one node of an accepted record to an acceptable one, or stamping the record for the next
  save, keeps it acceptable.\<close>

lemma node_at_set [simp]: "node_at (set_node x n r) y = (if x = y then n else node_at r y)"
  by (simp add: node_at_def set_node_def)

lemma set_node_fields [simp]:
  "rc_plan (set_node x n r) = rc_plan r" "rc_phase (set_node x n r) = rc_phase r"
  "rc_revision (set_node x n r) = rc_revision r" "same_application r (set_node x n r)"
  "fmlookup (rc_nodes (set_node x n r)) y = (if x = y then Some n else fmlookup (rc_nodes r) y)"
  by (simp_all add: set_node_def same_application_def)

lemma compute_set_node:
  assumes c: "validate_compute H R p r = Inr ()" and x: "x \<in> tg_name ` set (pl_targets p)"
    and n: "check_node n = Inr ()" "validate_address p n = Inr ()" and ph: "rc_phase r \<noteq> ''addresses-released''"
  shows "validate_compute H R p (set_node x n r) = Inr ()"
proof -
  have ret: "check_retired p (set_node x n r) m = Inr ()" for m using ph by (simp add: check_retired_def)
  have "x |\<in>| fmdom (rc_nodes r)"
    using validate_compute_domain [OF c] x by (metis fmdom'_alt_def)
  then have dom: "fmdom (rc_nodes (set_node x n r)) = fmdom (rc_nodes r)"
    by (auto simp: set_node_def)
  have "check_target p (set_node x n r) t = Inr ()" if "t \<in> set (pl_targets p)" for t
    using validate_compute_plan(11) [OF c] that n ret by (auto simp: check_target_node_at)
  then show "validate_compute H R p (set_node x n r) = Inr ()"
    using c dom by (simp add: validate_compute_iff) (simp add: set_node_def)
qed

lemma valid_set_node:
  assumes v: "validate_record H R p r = Inr ()" and x: "x \<in> tg_name ` set (pl_targets p)"
    and n: "check_node n = Inr ()" "validate_address p n = Inr ()" and ph: "rc_phase r \<noteq> ''addresses-released''"
  shows "validate_record H R p (set_node x n r) = Inr ()"
  using compute_set_node [OF _ x n ph] v
  by (intro same_application_valid [OF set_node_fields(4) v]) (simp add: validate_record_parts)

definition stamp :: "gotime \<Rightarrow> oprec \<Rightarrow> oprec" where
  "stamp t r = r\<lparr>rc_updated := t, rc_revision := rc_revision r + 1\<rparr>"

lemma stamp_fields [simp]:
  "rc_plan (stamp t r) = rc_plan r" "rc_phase (stamp t r) = rc_phase r" "rc_nodes (stamp t r) = rc_nodes r"
  "rc_revision (stamp t r) = rc_revision r + 1" "node_at (stamp t r) x = node_at r x" "same_application r (stamp t r)"
  by (simp_all add: stamp_def node_at_def same_application_def)

text \<open>Header fields that the validator does not read or reads only through \<open>op_phases\<close>.\<close>

lemma compute_header:
  assumes c: "validate_compute H R p r = Inr ()" and s: "rc_nodes s = rc_nodes r"
    and f: "rc_plan s = rc_plan r" "rc_api s = rc_api r" "rc_kind s = rc_kind r" "rc_health s = rc_health r"
      "rc_created s = rc_created r"
    and u: "rc_updated s \<noteq> 0" "rc_revision r \<le> rc_revision s" "rc_phase s \<in> set op_phases"
      "rc_phase s = ''addresses-released'' \<longrightarrow> rc_phase r = ''addresses-released''"
  shows "validate_compute H R p s = Inr ()"
proof -
  have "check_retired p s n = Inr ()" if "check_retired p r n = Inr ()" for n
    using that u(4) by (auto simp: check_retired_def split: if_splits)
  then have "check_target p s t = Inr ()" if "check_target p r t = Inr ()" for t
    using that s by (auto simp: check_target_node_at node_at_def)
  then show "validate_compute H R p s = Inr ()" using c s f u by (simp add: validate_compute_iff)
qed

lemma valid_header:
  assumes v: "validate_record H R p r = Inr ()" and s: "same_application r s" "rc_nodes s = rc_nodes r"
    and f: "rc_plan s = rc_plan r" "rc_api s = rc_api r" "rc_kind s = rc_kind r" "rc_health s = rc_health r"
      "rc_created s = rc_created r"
    and u: "rc_updated s \<noteq> 0" "rc_revision r \<le> rc_revision s" "rc_phase s \<in> set op_phases"
      "rc_phase s = ''addresses-released'' \<longrightarrow> rc_phase r = ''addresses-released''"
  shows "validate_record H R p s = Inr ()"
  by (rule same_application_valid [OF s(1) v], rule compute_header [OF _ s(2) f u])
     (use v in \<open>simp add: validate_record_parts\<close>)

lemma valid_stamp: "validate_record H R p r = Inr () \<Longrightarrow> t \<noteq> 0 \<Longrightarrow> validate_record H R p (stamp t r) = Inr ()"
  by (rule valid_header) (auto simp: validate_record_parts validate_compute_iff stamp_def same_application_def)

lemma new_record_node:
  assumes "t \<in> set (pl_targets p)"
  shows "fmlookup (rc_nodes (new_record p now)) (tg_name t) =
    Some (node_zero\<lparr>nd_phase := ''pending'', nd_state := ''unknown''\<rparr>)"
proof -
  have "tg_name t \<in> tg_name ` set ts \<Longrightarrow> map_of (map (\<lambda>x. (tg_name x, c)) ts) (tg_name t) = Some c"
    for ts :: "target list" and c :: node by (induction ts) auto
  then show ?thesis using assms by (simp add: new_record_def fmlookup_of_list)
qed

lemma new_record_valid_compute:
  assumes "validate_plan H R p = Inr ()" and "now \<noteq> 0"
  shows "validate_compute H R p (new_record p now) = Inr ()"
proof -
  have d: "distinct (map tg_name (pl_targets p))" by (rule valid_plan_names [OF assms(1)])
  have dom: "fset (fmdom (rc_nodes (new_record p now))) = set (map tg_name (pl_targets p))"
    by (simp add: new_record_def fset_of_list.rep_eq)
  have "fcard (fmdom (rc_nodes (new_record p now))) = length (pl_targets p)"
    using distinct_card [OF d] by (simp add: fcard.rep_eq dom)
  moreover have "check_target p (new_record p now) t = Inr ()" if "t \<in> set (pl_targets p)" for t
    by (simp add: check_target_def new_record_node [OF that] check_node_def node_zero_def
      validate_address_def check_retired_def) (simp add: new_record_def)
  ultimately show ?thesis using assms by (simp add: validate_compute_iff new_record_def op_phases_def)
qed

lemma new_record_valid_record:
  assumes "validate_plan H R p = Inr ()" and "now \<noteq> 0"
  shows "validate_record H R p (new_record p now) = Inr ()"
  using new_record_valid_compute [OF assms]
  by (simp add: validate_record_parts validate_bootstrap_def validate_deployment_def validate_join_def
    validate_upgrade_def) (simp add: new_record_def)

lemma check_upgrade_target_step:
  assumes "check_upgrade_target rt u st t = Inr st'"
  shows "st' = (if in_rollout u t then (Suc (fst st), snd st \<or> tg_name t = ug_current u) else st)"
    "check_scope rt u (tg_name t) = Inr ()" "check_validator u t = Inr ()"
    "check_runtime rt u (tg_name t) = Inr ()" "rfc3339 (pv_started (baseline_at u (tg_name t)))"
  using assms by (cases st; auto simp: check_upgrade_target_def Let_def res_simps split: if_splits)+

lemma scan_rollout:
  assumes "scan_ok (check_upgrade_target rt u) (k, b) ts = Inr (tracked, known)"
  shows "tracked = k + length (filter (in_rollout u) ts) \<and>
    (known \<longleftrightarrow> b \<or> ug_current u \<in> tg_name ` set (filter (in_rollout u) ts))"
  using assms
proof (induction ts arbitrary: k b)
  case Nil
  then show ?case by simp
next
  case (Cons t ts)
  then obtain k1 b1 where s: "check_upgrade_target rt u (k, b) t = Inr (k1, b1)"
    and r: "scan_ok (check_upgrade_target rt u) (k1, b1) ts = Inr (tracked, known)"
    by (auto simp: res_simps)
  show ?case using Cons.IH [OF r] check_upgrade_target_step(1) [OF s] by (auto split: if_splits)
qed

lemma check_scope_core:
  assumes "check_scope rt u x = Inr ()" and "ug_scope u = ''core''"
  shows "\<And>c pin. fmlookup (images_at (ug_from u) x) c = Some pin \<Longrightarrow> c = ''core'' \<or> mget (images_at (ug_to u) x) c = pin"
    and "fmlookup (ug_completed u) x \<noteq> None"
    and "ug_phase u = ''complete'' \<Longrightarrow> completed_at u x"
  using assms(1) unfolding check_scope_def Let_def if_P [OF assms(2)] if_Inl_iff
  by (auto simp: fmpred_iff)

lemma check_scope_platform:
  assumes "check_scope rt u x = Inr ()" and "ug_scope u \<noteq> ''core''"
  shows "mget (images_at (ug_from u) x) ''core'' = mget (images_at (ug_to u) x) ''core''"
    and "mget (images_at (rt_images rt) x) ''core'' = mget (images_at (ug_from u) x) ''core''"
  using assms(1) unfolding check_scope_def Let_def if_not_P [OF assms(2)] if_Inl_iff by simp_all

lemma check_validator_platform:
  assumes "check_validator u t = Inr ()" and "ug_scope u \<noteq> ''core''" and "tg_role t = ''validator''"
  shows "fmlookup (ug_completed u) (tg_name t) \<noteq> None"
    and "ug_phase u = ''complete'' \<Longrightarrow> completed_at u (tg_name t)"
  using assms(1) unfolding check_validator_def Let_def by (simp_all only: assms(2,3) if_Inl_iff simp_thms if_False)

lemma rollout_tracked:
  assumes "in_rollout u t" "check_scope rt u (tg_name t) = Inr ()" "check_validator u t = Inr ()"
  shows "fmlookup (ug_completed u) (tg_name t) \<noteq> None"
    and "ug_phase u = ''complete'' \<Longrightarrow> completed_at u (tg_name t)"
  using assms check_scope_core(2,3) check_validator_platform unfolding in_rollout_def by blast+

lemma check_runtime_bounds:
  assumes "check_runtime rt u x = Inr ()" and "fmlookup (images_at (rt_images rt) x) c = Some pin"
  shows "pin = mget (images_at (ug_from u) x) c \<or> pin = mget (images_at (ug_to u) x) c"
    and "ug_phase u = ''complete'' \<Longrightarrow> pin = mget (images_at (ug_to u) x) c"
  using assms unfolding check_runtime_def Let_def if_Inl_iff by (auto simp: fmpred_iff)

text \<open>An accepted upgrade journal in one place.\<close>

lemma validate_upgrade_facts:
  assumes v: "validate_upgrade R p r = Inr ()" and u: "rc_upgrade r = Some u" and rt: "rc_runtime r = Some rt"
    and d: "distinct (map tg_name (pl_targets p))"
  shows "ug_current u = [] \<or> ug_current u \<in> tg_name ` set (filter (in_rollout u) (pl_targets p))"
    and "fmdom' (ug_completed u) = tg_name ` set (filter (in_rollout u) (pl_targets p))"
    and "\<forall>t \<in> set (pl_targets p). check_scope rt u (tg_name t) = Inr () \<and> check_validator u t = Inr () \<and>
      check_runtime rt u (tg_name t) = Inr ()"
    and "rt_upgrade rt = ug_plan u"
    and "ug_phase u = ''complete'' \<longrightarrow> ug_current u = [] \<and> ug_observed u \<noteq> 0"
proof -
  from v u rt obtain dep where dep: "rc_deployment r = Some dep"
    by (cases "rc_deployment r") (simp_all add: validate_upgrade_def)
  obtain tk where rest: "rt_upgrade rt = ug_plan u"
    and scan: "scan_ok (check_upgrade_target rt u) (0, ug_current u = []) (pl_targets p) = Inr tk"
    and fin: "check_rollout u tk = Inr ()"
    using v [unfolded validate_upgrade_def] u rt dep
    by (simp only: prod.case option.case option.simps simp_thms if_False if_Inl_iff after_Inr_iff
        de_Morgan_disj not_not) (elim conjE exE, rule that)
  obtain tracked known where tk: "tk = (tracked, known)" by (cases tk)
  note scan = scan [unfolded tk]
  from fin have known: "known" and card: "fcard (fmdom (ug_completed u)) = tracked"
    and fin: "ug_phase u = ''complete'' \<longrightarrow> ug_current u = [] \<and> ug_observed u \<noteq> 0"
    by (simp_all add: tk check_rollout_def split: if_splits)
  from rest show "rt_upgrade rt = ug_plan u" .
  from fin show "ug_phase u = ''complete'' \<longrightarrow> ug_current u = [] \<and> ug_observed u \<noteq> 0" .
  have roll: "tracked = length (filter (in_rollout u) (pl_targets p))"
    "known \<longleftrightarrow> ug_current u = [] \<or> ug_current u \<in> tg_name ` set (filter (in_rollout u) (pl_targets p))"
    using scan_rollout [OF scan] by auto
  with known show "ug_current u = [] \<or> ug_current u \<in> tg_name ` set (filter (in_rollout u) (pl_targets p))" by blast
  show all: "\<forall>t \<in> set (pl_targets p). check_scope rt u (tg_name t) = Inr () \<and> check_validator u t = Inr () \<and>
      check_runtime rt u (tg_name t) = Inr ()"
    by (rule scan_ok_all [OF scan]) (auto dest: check_upgrade_target_step)
  show "fmdom' (ug_completed u) = tg_name ` set (filter (in_rollout u) (pl_targets p))"
  proof (rule fcard_fmdom_eq)
    show "distinct (map tg_name (filter (in_rollout u) (pl_targets p)))" by (rule distinct_map_filter [OF d])
    show "\<forall>t \<in> set (filter (in_rollout u) (pl_targets p)). fmlookup (ug_completed u) (tg_name t) \<noteq> None"
      using all rollout_tracked by auto
    show "fcard (fmdom (ug_completed u)) = length (filter (in_rollout u) (pl_targets p))" using card roll by simp
  qed
qed

section \<open>Properties\<close>

text \<open>C33: A fresh operation record of a valid plan, created at a non-zero time, passes the complete
  validation of the journal, and has exactly the targets of the plan, each of them pending.\<close>

theorem new_record_valid:
  assumes "validate_plan H R p = Inr ()" and "now \<noteq> 0"
  shows "validate_record H R p (new_record p now) = Inr () \<and>
    fmdom' (rc_nodes (new_record p now)) = tg_name ` set (pl_targets p) \<and>
    (\<forall>t \<in> set (pl_targets p). nd_phase (node_at (new_record p now) (tg_name t)) = ''pending'')"
  using new_record_valid_record [OF assms] validate_compute_domain [OF new_record_valid_compute [OF assms]]
  by (auto simp: node_at_def new_record_node)

theorem new_record_valid_witness:
  "validate_record sample_hash sample_refs sample_plan (new_record sample_plan 5) = Inr ()"
  using new_record_valid [OF sample_plan_valid, of 5] by simp

text \<open>C29: In every accepted record the journal of an upgrade stays inside what was reviewed: progress
  is tracked for exactly the nodes of the rollout and the current node is one of them; a Platform
  rollout leaves Core's image alone, a Core rollout leaves every other image alone; every running
  image is the old or the new one; a complete upgrade has finished every node of the rollout and
  every running image is the new one.\<close>

theorem upgrade_within_review:
  assumes "validate_record H R p r = Inr ()" and "rc_upgrade r = Some u" and "rc_runtime r = Some rt"
  shows "fmdom' (ug_completed u) = tg_name ` {t \<in> set (pl_targets p). in_rollout u t} \<and>
    (ug_current u = [] \<or> ug_current u \<in> fmdom' (ug_completed u)) \<and>
    (\<forall>t \<in> set (pl_targets p).
      (ug_scope u \<noteq> ''core'' \<longrightarrow>
         mget (images_at (rt_images rt) (tg_name t)) ''core'' = mget (images_at (ug_from u) (tg_name t)) ''core'' \<and>
         mget (images_at (ug_from u) (tg_name t)) ''core'' = mget (images_at (ug_to u) (tg_name t)) ''core'') \<and>
      (ug_scope u = ''core'' \<longrightarrow> (\<forall>c pin. c \<noteq> ''core'' \<longrightarrow>
         fmlookup (images_at (ug_from u) (tg_name t)) c = Some pin \<longrightarrow>
         mget (images_at (ug_to u) (tg_name t)) c = pin)) \<and>
      (\<forall>c pin. fmlookup (images_at (rt_images rt) (tg_name t)) c = Some pin \<longrightarrow>
         pin = mget (images_at (ug_from u) (tg_name t)) c \<or> pin = mget (images_at (ug_to u) (tg_name t)) c) \<and>
      (ug_phase u = ''complete'' \<longrightarrow>
         (in_rollout u t \<longrightarrow> completed_at u (tg_name t)) \<and>
         (\<forall>c pin. fmlookup (images_at (rt_images rt) (tg_name t)) c = Some pin \<longrightarrow>
            pin = mget (images_at (ug_to u) (tg_name t)) c)))"
proof -
  have c: "validate_compute H R p r = Inr ()" and v: "validate_upgrade R p r = Inr ()"
    using assms(1) by (simp_all add: validate_record_parts)
  note f = validate_upgrade_facts [OF v assms(2,3) valid_plan_names(1) [OF validate_compute_plan(2) [OF c]]]
  have dom: "fmdom' (ug_completed u) = tg_name ` {t \<in> set (pl_targets p). in_rollout u t}"
    using f(2) by simp
  have cur: "ug_current u = [] \<or> ug_current u \<in> fmdom' (ug_completed u)"
    using f(1) unfolding f(2) .
  show ?thesis
    using dom cur f(3) check_scope_core check_scope_platform rollout_tracked check_runtime_bounds by fast
qed

definition sample_ref :: "char \<Rightarrow> string \<Rightarrow> string" where
  "sample_ref x c = c @ ''@sha256:'' @ replicate 64 x"

definition sample_images :: "char \<Rightarrow> char \<Rightarrow> fleet_images" where
  "sample_images c x = fmap_of_list (map (\<lambda>t. (tg_name t, fmap_of_list
     (map (\<lambda>k. (k, sample_ref (if k = ''core'' then c else x) k)) components))) (pl_targets sample_plan))"

definition sample_preserved :: preservation where
  "sample_preserved = (let h = replicate 64 (CHR ''c'') in
     \<lparr>pv_core = h, pv_started = ''2024-01-02T03:04:05Z'', pv_config = h, pv_genesis = h,
      pv_containers = fmap_of_list (map (\<lambda>s. (s, h)) [''drive'', ''tenderdash'', ''dapi'', ''gateway'']),
      pv_restarts = fmempty\<rparr>)"

definition sample_deployment :: deployment where
  "sample_deployment = \<lparr>dp_plan = replicate 64 (CHR ''d''), dp_phase = ''network-ready'', dp_stage = ''ready'',
     dp_genesis = replicate 64 (CHR ''c''), dp_payout = replicate 30 (CHR ''y''), dp_spork = replicate 30 (CHR ''y''),
     dp_genesis_height = 1, dp_observed = 9,
     dp_nodes = fmap_of_list (map (\<lambda>t. (tg_name t, \<lparr>dn_phase = ''ready'', dn_operator_key = replicate 96 (CHR ''a''),
       dn_node_id = replicate 40 (CHR ''a''), dn_protx = replicate 64 (CHR ''a''),
       dn_container = replicate 64 (CHR ''a''), dn_core_height = 7, dn_platform_height = 7,
       dn_observed = 9\<rparr>)) (pl_targets sample_plan)), dp_sidecars = []\<rparr>"

definition sample_upgrade :: upgrade where
  "sample_upgrade = \<lparr>ug_plan = replicate 64 (CHR ''e''), ug_previous = [], ug_phase = ''complete'',
     ug_current = [], ug_from = sample_images CHR ''a'' CHR ''a'', ug_to = sample_images CHR ''a'' CHR ''b'',
     ug_baseline = fmap_of_list (map (\<lambda>t. (tg_name t, sample_preserved)) (pl_targets sample_plan)),
     ug_completed = fmap_of_list (map (\<lambda>t. (tg_name t, True)) (pl_targets sample_plan)),
     ug_observed = 9, ug_scope = [], ug_sidecars = [], ug_changes = fmempty\<rparr>"

definition sample_upgraded :: oprec where
  "sample_upgraded = (new_record sample_plan 5)\<lparr>rc_deployment := Some sample_deployment,
     rc_runtime := Some \<lparr>rt_deployment = replicate 64 (CHR ''d''), rt_upgrade = replicate 64 (CHR ''e''),
       rt_images = sample_images CHR ''a'' CHR ''b'', rt_sidecars = []\<rparr>,
     rc_upgrade := Some sample_upgrade\<rparr>"

lemma sample_upgraded_valid: "validate_record sample_hash sample_refs sample_plan sample_upgraded = Inr ()"
  by code_simp

theorem upgrade_within_review_witness:
  "validate_record sample_hash sample_refs sample_plan sample_upgraded = Inr () \<and>
   fmdom' (ug_completed sample_upgrade) = tg_name ` {t \<in> set (pl_targets sample_plan). in_rollout sample_upgrade t}"
proof -
  have "rc_upgrade sample_upgraded = Some sample_upgrade" by (simp add: sample_upgraded_def)
  moreover have "\<exists>rt. rc_runtime sample_upgraded = Some rt" by (simp add: sample_upgraded_def)
  ultimately show ?thesis using upgrade_within_review [OF sample_upgraded_valid] sample_upgraded_valid by blast
qed

end
