(* ===== verification/Ops.thy ===== *)
theory Ops
  imports Prelude
begin

text \<open>
  Operations of the executors. An operation transforms a world and returns a result or an error;
  the world holds the local variables of the running Go function (a record extension per
  executor), the environment, and the history of exchanges with it, newest first. The
  environment answers a request from the whole history, so a theorem that holds for every
  environment holds for every behaviour of AWS, of the journal table, of the remote hosts and of
  the other runners. The clock and the cancellation of the context are functions of the
  history too.
\<close>

section \<open>Worlds and requests\<close>

type_synonym ('q, 'r) hist = "('q \<times> 'r) list"

record ('q, 'r) env =
  answer :: "('q, 'r) hist \<Rightarrow> 'q \<Rightarrow> 'r"
  clock :: "('q, 'r) hist \<Rightarrow> gotime"
  cancelled :: "('q, 'r) hist \<Rightarrow> bool"

record ('q, 'r) sys =
  env :: "('q, 'r) env"
  hist :: "('q, 'r) hist"

type_synonym ('w, 'a) oper = "'w \<Rightarrow> 'a res \<times> 'w"

definition ret :: "'a \<Rightarrow> ('w, 'a) oper" where
  "ret a = (\<lambda>w. (Inr a, w))"

definition fail :: "gerr \<Rightarrow> ('w, 'a) oper" where
  "fail e = (\<lambda>w. (Inl e, w))"

definition bnd :: "('w, 'a) oper \<Rightarrow> ('a \<Rightarrow> ('w, 'b) oper) \<Rightarrow> ('w, 'b) oper" where
  "bnd m f = (\<lambda>w. case m w of (Inl e, w') \<Rightarrow> (Inl e, w') | (Inr a, w') \<Rightarrow> f a w')"

definition sq :: "('w, unit) oper \<Rightarrow> ('w, 'b) oper \<Rightarrow> ('w, 'b) oper" where
  "sq m k = bnd m (\<lambda>_. k)"

definition lift :: "'a res \<Rightarrow> ('w, 'a) oper" where
  "lift r = (\<lambda>w. (r, w))"

definition reject_if :: "bool \<Rightarrow> gerr \<Rightarrow> ('w, unit) oper" where
  "reject_if b e = (if b then fail e else ret ())"

definition gets :: "('w \<Rightarrow> 'a) \<Rightarrow> ('w, 'a) oper" where
  "gets f = (\<lambda>w. (Inr (f w), w))"

definition modify :: "('w \<Rightarrow> 'w) \<Rightarrow> ('w, unit) oper" where
  "modify f = (\<lambda>w. (Inr (), f w))"

text \<open>The error and the state an operation ends with, seen by the deferred function.\<close>

definition attempt :: "('w, 'a) oper \<Rightarrow> ('w, 'a res) oper" where
  "attempt m = (\<lambda>w. case m w of (r, w') \<Rightarrow> (Inr r, w'))"

fun foreach :: "'x list \<Rightarrow> ('x \<Rightarrow> ('w, unit) oper) \<Rightarrow> ('w, unit) oper" where
  "foreach [] f = ret ()"
| "foreach (x # xs) f = bnd (f x) (\<lambda>_. foreach xs f)"

definition ask :: "'q \<Rightarrow> (('q, 'r, 'z) sys_scheme, 'r) oper" where
  "ask q = (\<lambda>w. let r = answer (env w) (hist w) q in (Inr r, w\<lparr>hist := (q, r) # hist w\<rparr>))"

definition now :: "(('q, 'r, 'z) sys_scheme, gotime) oper" where
  "now = gets (\<lambda>w. clock (env w) (hist w))"

definition ctx_done :: "(('q, 'r, 'z) sys_scheme, bool) oper" where
  "ctx_done = gets (\<lambda>w. cancelled (env w) (hist w))"

text \<open>Everything it takes to run an operation on a concrete world.\<close>

lemmas oper_defs = ret_def fail_def bnd_def sq_def lift_def reject_if_def gets_def modify_def
  attempt_def ask_def now_def ctx_done_def

text \<open>Rules that run an operation on a given world, one step at a time.\<close>

lemma run_steps:
  "bnd m f w = (case m w of (Inl e, w') \<Rightarrow> (Inl e, w') | (Inr a, w') \<Rightarrow> f a w')"
  "sq n k w = (case n w of (Inl e, w') \<Rightarrow> (Inl e, w') | (Inr a, w') \<Rightarrow> k w')"
  "attempt m w = (case m w of (res, w') \<Rightarrow> (Inr res, w'))"
  "foreach (x # xs) h w = (case h x w of (Inl e, w') \<Rightarrow> (Inl e, w') | (Inr a, w') \<Rightarrow> foreach xs h w')"
  "foreach [] h w = (Inr (), w)"
  "ret y w = (Inr y, w)" "fail er w = (Inl er, w)" "lift r w = (r, w)" "gets g w = (Inr (g w), w)" "modify u w = (Inr (), u w)"
  "reject_if b er w = (if b then (Inl er, w) else (Inr (), w))"
  by (simp_all add: oper_defs split: prod.splits sum.splits)

section \<open>Weakest preconditions\<close>

definition wp :: "('w, 'a) oper \<Rightarrow> ('a \<Rightarrow> 'w \<Rightarrow> bool) \<Rightarrow> (gerr \<Rightarrow> 'w \<Rightarrow> bool) \<Rightarrow> 'w \<Rightarrow> bool" where
  "wp m Q E w = (case m w of (Inr a, w') \<Rightarrow> Q a w' | (Inl e, w') \<Rightarrow> E e w')"

lemma wp_ret [wp_rules]: "wp (ret a) Q E w = Q a w"
  by (simp add: wp_def ret_def)

lemma wp_fail [wp_rules]: "wp (fail e) Q E w = E e w"
  by (simp add: wp_def fail_def)

lemma wp_bnd [wp_rules]: "wp (bnd m f) Q E w = wp m (\<lambda>a. wp (f a) Q E) E w"
  by (simp add: wp_def bnd_def split: prod.splits sum.splits)

lemma wp_sq [wp_rules]: "wp (sq m k) Q E w = wp m (\<lambda>_. wp k Q E) E w"
  by (simp add: sq_def wp_bnd)

lemma wp_lift [wp_rules]: "wp (lift r) Q E w = (case r of Inr a \<Rightarrow> Q a w | Inl e \<Rightarrow> E e w)"
  by (simp add: wp_def lift_def split: sum.splits)

lemma wp_reject_if [wp_rules]: "wp (reject_if b e) Q E w = (if b then E e w else Q () w)"
  by (simp add: reject_if_def wp_fail wp_ret)

lemma wp_gets [wp_rules]: "wp (gets f) Q E w = Q (f w) w"
  by (simp add: wp_def gets_def)

lemma wp_modify [wp_rules]: "wp (modify f) Q E w = Q () (f w)"
  by (simp add: wp_def modify_def)

lemma wp_attempt [wp_rules]:
  "wp (attempt m) Q E w = wp m (\<lambda>a. Q (Inr a)) (\<lambda>e. Q (Inl e)) w"
  by (simp add: wp_def attempt_def split: prod.splits sum.splits)

lemma wp_if [wp_rules]: "wp (if b then m else k) Q E w = (if b then wp m Q E w else wp k Q E w)"
  by simp

lemma wp_ask [wp_rules]:
  "wp (ask q) Q E w =
     Q (answer (env w) (hist w) q) (w\<lparr>hist := (q, answer (env w) (hist w) q) # hist w\<rparr>)"
  by (simp add: wp_def ask_def Let_def)

lemma wp_now [wp_rules]: "wp now Q E w = Q (clock (env w) (hist w)) w"
  by (simp add: now_def wp_gets)

lemma wp_ctx_done [wp_rules]: "wp ctx_done Q E w = Q (cancelled (env w) (hist w)) w"
  by (simp add: ctx_done_def wp_gets)

lemma wp_conseq:
  assumes "wp m Q E w" and "\<And>a w'. Q a w' \<Longrightarrow> Q' a w'" and "\<And>e w'. E e w' \<Longrightarrow> E' e w'"
  shows "wp m Q' E' w"
  using assms by (auto simp: wp_def split: prod.splits sum.splits)

lemma wp_conj:
  assumes "wp m Q E w" and "wp m Q' E' w"
  shows "wp m (\<lambda>a w'. Q a w' \<and> Q' a w') (\<lambda>e w'. E e w' \<and> E' e w') w"
  using assms by (auto simp: wp_def split: prod.splits sum.splits)

lemma wp_foreach:
  assumes "I w"
    and "\<And>x w. x \<in> set xs \<Longrightarrow> I w \<Longrightarrow> wp (f x) (\<lambda>_. I) E w"
  shows "wp (foreach xs f) (\<lambda>_. I) E w"
  using assms
proof (induction xs arbitrary: w)
  case Nil
  then show ?case by (simp add: wp_ret)
next
  case (Cons x xs)
  have "wp (f x) (\<lambda>_. I) E w" using Cons.prems by simp
  then show ?case
    by (simp add: wp_bnd) (erule wp_conseq, rule Cons.IH, use Cons.prems in auto)
qed

text \<open>The invariant of a loop that knows which elements are done.\<close>

lemma wp_foreach_done:
  assumes "I [] w"
    and "\<And>ahead x rest w. xs = ahead @ x # rest \<Longrightarrow> I ahead w \<Longrightarrow> wp (f x) (\<lambda>_. I (ahead @ [x])) E w"
  shows "wp (foreach xs f) (\<lambda>_. I xs) E w"
proof -
  have "wp (foreach ys f) (\<lambda>_. I (ahead @ ys)) E w" if "xs = ahead @ ys" "I ahead w" for ahead ys w
    using that
  proof (induction ys arbitrary: ahead w)
    case Nil
    then show ?case by (simp add: wp_ret)
  next
    case (Cons y ys)
    have "wp (f y) (\<lambda>_. I (ahead @ [y])) E w" using Cons.prems by (intro assms(2)) auto
    then show ?case
      using Cons.IH [of "ahead @ [y]"] Cons.prems(1) by (simp add: wp_bnd) (erule wp_conseq, simp_all)
  qed
  from this [of "[]" xs w] assms(1) show ?thesis by simp
qed

section \<open>Invariants that every exit keeps\<close>

definition keeps :: "('w \<Rightarrow> bool) \<Rightarrow> ('w, 'a) oper \<Rightarrow> bool" where
  "keeps I m \<longleftrightarrow> (\<forall>w. I w \<longrightarrow> I (snd (m w)))"

lemma keeps_wp: "keeps I m \<Longrightarrow> I w \<Longrightarrow> wp m (\<lambda>_. I) (\<lambda>_. I) w"
  unfolding keeps_def wp_def by (metis (mono_tags, lifting) prod.case_eq_if sum.case_eq_if)

lemma wp_keeps: "(\<And>w. I w \<Longrightarrow> wp m (\<lambda>_. I) (\<lambda>_. I) w) \<Longrightarrow> keeps I m"
  unfolding keeps_def wp_def by (fastforce split: prod.splits sum.splits)

lemma wp_exit: "wp m (\<lambda>_. I) (\<lambda>_. I) w \<Longrightarrow> I (snd (m w))"
  by (auto simp: wp_def split: prod.splits sum.splits)

named_theorems keeps_intros \<open>an operation keeps an invariant\<close>

lemma keeps_ret [keeps_intros, intro]: "keeps I (ret a)"
  by (simp add: keeps_def ret_def)

lemma keeps_fail [keeps_intros, intro]: "keeps I (fail e)"
  by (simp add: keeps_def fail_def)

lemma keeps_lift [keeps_intros, intro]: "keeps I (lift r)"
  by (simp add: keeps_def lift_def)

lemma keeps_gets [keeps_intros, intro]: "keeps I (gets f)"
  by (simp add: keeps_def gets_def)

lemma keeps_now [keeps_intros, intro]: "keeps I now"
  by (simp add: now_def keeps_gets)

lemma keeps_ctx_done [keeps_intros, intro]: "keeps I ctx_done"
  by (simp add: ctx_done_def keeps_gets)

lemma keeps_reject_if [keeps_intros, intro]: "keeps I (reject_if b e)"
  by (simp add: reject_if_def keeps_ret keeps_fail)

lemma keeps_bnd [keeps_intros, intro]:
  assumes "keeps I m" and "\<And>a. keeps I (f a)"
  shows "keeps I (bnd m f)"
proof (rule wp_keeps)
  fix w assume "I w"
  have "wp m (\<lambda>a. wp (f a) (\<lambda>_. I) (\<lambda>_. I)) (\<lambda>_. I) w"
    by (rule wp_conseq [OF keeps_wp [OF assms(1) \<open>I w\<close>]]) (rule keeps_wp [OF assms(2)])
  then show "wp (bnd m f) (\<lambda>_. I) (\<lambda>_. I) w" by (simp add: wp_bnd)
qed

lemma keeps_sq [keeps_intros, intro]: "keeps I m \<Longrightarrow> keeps I k \<Longrightarrow> keeps I (sq m k)"
  by (simp add: sq_def keeps_bnd)

lemma keeps_attempt [keeps_intros, intro]: "keeps I m \<Longrightarrow> keeps I (attempt m)"
  by (auto simp: keeps_def attempt_def split: prod.splits)

lemma keeps_if [keeps_intros, intro]: "keeps I m \<Longrightarrow> keeps I k \<Longrightarrow> keeps I (if b then m else k)"
  by simp

lemma keeps_case_sum [keeps_intros, intro]:
  "(\<And>e. keeps I (f e)) \<Longrightarrow> (\<And>a. keeps I (g a)) \<Longrightarrow> keeps I (case r of Inl e \<Rightarrow> f e | Inr a \<Rightarrow> g a)"
  by (cases r) auto

lemma keeps_case_option [keeps_intros, intro]:
  "keeps I m \<Longrightarrow> (\<And>a. keeps I (g a)) \<Longrightarrow> keeps I (case r of None \<Rightarrow> m | Some a \<Rightarrow> g a)"
  by (cases r) auto

lemma keeps_foreach [keeps_intros, intro]: "(\<And>x. keeps I (f x)) \<Longrightarrow> keeps I (foreach xs f)"
  by (induction xs) auto

lemma keeps_modify [intro]: "(\<And>w. I w \<Longrightarrow> I (f w)) \<Longrightarrow> keeps I (modify f)"
  by (simp add: keeps_def modify_def)

text \<open>An operation only appends to the history; \<open>grows\<close> is the invariant for one starting
  history.\<close>

definition grows :: "('q, 'r) hist \<Rightarrow> ('q, 'r, 'z) sys_scheme \<Rightarrow> bool" where
  "grows h w \<longleftrightarrow> (\<exists>new. hist w = new @ h)"

section \<open>Guarded histories\<close>

text \<open>
  A safety property of a history: every request was allowed by what had been exchanged before
  it. \<open>guarded g h\<close> checks each exchange against the older part of the history.
\<close>

fun guarded :: "(('q, 'r) hist \<Rightarrow> 'q \<Rightarrow> bool) \<Rightarrow> ('q, 'r) hist \<Rightarrow> bool" where
  "guarded g [] = True"
| "guarded g ((q, r) # h) = (g h q \<and> guarded g h)"

lemma guarded_append: "guarded g (new @ h) \<Longrightarrow> guarded g h"
  by (induction new) auto

lemma guarded_split:
  assumes "guarded g h" and "h = newer @ (q, r) # older"
  shows "g older q"
  using assms guarded_append by fastforce

lemma keeps_ask_guarded [intro]:
  assumes "\<And>h. g h q"
  shows "keeps (\<lambda>w. guarded g (hist w)) (ask q)"
  using assms by (simp add: keeps_def ask_def Let_def)

section \<open>Write-ahead intents\<close>

text \<open>\<open>journaled saved h\<close>: the journal state of the latest acknowledged save in \<open>h\<close>.\<close>

fun journaled :: "('q \<Rightarrow> 'r \<Rightarrow> 'j option) \<Rightarrow> ('q, 'r) hist \<Rightarrow> 'j option" where
  "journaled saved [] = None"
| "journaled saved ((q, r) # h) = (case saved q r of Some j \<Rightarrow> Some j | None \<Rightarrow> journaled saved h)"

definition intent_guard ::
  "('q \<Rightarrow> 'r \<Rightarrow> 'j option) \<Rightarrow> ('q \<Rightarrow> 'k option) \<Rightarrow> ('j \<Rightarrow> 'k \<Rightarrow> bool) \<Rightarrow> ('q, 'r) hist \<Rightarrow> 'q \<Rightarrow> bool" where
  "intent_guard saved effect intends h q =
     (case effect q of None \<Rightarrow> True
      | Some k \<Rightarrow> (case journaled saved h of None \<Rightarrow> False | Some j \<Rightarrow> intends j k))"

text \<open>
  The interface between an executor and its journal: which exchanges are acknowledged saves,
  which requests change something outside (an instance, an address, a host), and which saved
  state announces which change.
\<close>

locale write_ahead =
  fixes saved :: "'q \<Rightarrow> 'r \<Rightarrow> 'j option"
    and effect :: "'q \<Rightarrow> 'k option"
    and intends :: "'j \<Rightarrow> 'k \<Rightarrow> bool"
  assumes save_is_no_effect: "effect q = Some k \<Longrightarrow> saved q r = None"
begin

lemma journaled_effect [simp]: "effect q = Some k \<Longrightarrow> journaled saved ((q, r) # h) = journaled saved h"
  by (simp add: save_is_no_effect)

lemma journaled_Some_split:
  "journaled saved h = Some j \<Longrightarrow>
     \<exists>newer q r older. h = newer @ (q, r) # older \<and> saved q r = Some j \<and>
       (\<forall>(q', r') \<in> set newer. saved q' r' = None)"
proof (induction h)
  case Nil
  then show ?case by simp
next
  case (Cons x h)
  obtain q r where x: "x = (q, r)" by fastforce
  show ?case
  proof (cases "saved q r")
    case None
    with Cons x obtain newer q' r' older where "h = newer @ (q', r') # older" "saved q' r' = Some j"
      "\<forall>(q', r') \<in> set newer. saved q' r' = None" by auto
    with x None show ?thesis by (intro exI [of _ "x # newer"]) auto
  next
    case (Some j')
    with Cons.prems x show ?thesis by (intro exI [of _ "[]"]) auto
  qed
qed

text \<open>Every requested change is announced by the latest acknowledged save before it.\<close>

lemma effect_announced:
  assumes "guarded (intent_guard saved effect intends) h"
    and "h = newer @ (q, r) # older" and "effect q = Some k"
  shows "\<exists>mid sq sr old j. older = mid @ (sq, sr) # old \<and> saved sq sr = Some j \<and> intends j k \<and>
    (\<forall>(q', r') \<in> set mid. saved q' r' = None)"
proof -
  from guarded_split [OF assms(1,2)] assms(3) obtain j
    where j: "journaled saved older = Some j" "intends j k"
    by (auto simp: intent_guard_def split: option.splits)
  from journaled_Some_split [OF j(1)] j(2) show ?thesis by blast
qed

end

end
