(* ===== verification/Ec2.thy ===== *)
theory Ec2
  imports Ops Operation_Record
begin

text \<open>
  The cloud side of provisioning: the AWS data the code reads, the requests the provisioning
  executors make and the replies they get, and the routines of \<open>preflight.go\<close> and \<open>ec2.go\<close>:
  the read-only footprint checks (\<open>prepare\<close>), the launch request of a target, the discovery of the
  network's instances over pages, and the reconciliation of the journal with what is visible.
\<close>

section \<open>AWS data\<close>

text \<open>An AWS string pointer that is only read through \<open>aws.ToString\<close> is a string (empty for nil).\<close>

type_synonym tag_list = "(string \<times> string) list"

record eni =
  en_index :: "int option" \<comment> \<open>the attachment's device index, when both pointers are set\<close>
  en_id :: string

record inst =
  in_id :: string
  in_token :: string
  in_image :: string
  in_type :: string
  in_arch :: string
  in_subnet :: string
  in_vpc :: string
  in_key :: string
  in_sgs :: "string list"
  in_http_tokens :: "string option"
  in_state :: "string option"
  in_tags :: tag_list
  in_public_ip :: string
  in_private_ip :: string
  in_enis :: "eni list"

record reservation =
  rs_owner :: string
  rs_instances :: "inst list"

record page =
  pg_reservations :: "reservation list"
  pg_next :: string

record eip =
  ea_alloc :: string
  ea_ip :: string
  ea_assoc :: string
  ea_eni :: string
  ea_instance :: string
  ea_pool :: string
  ea_border :: string
  ea_domain :: string
  ea_tags :: tag_list

record pool =
  po_id :: string
  po_owner :: string
  po_locale :: string
  po_state :: string
  po_family :: string
  po_scope :: string
  po_source :: string
  po_service :: string

record subnet =
  sn_id :: string
  sn_vpc :: string
  sn_owner :: string
  sn_state :: string

record group =
  gr_id :: string
  gr_owner :: string
  gr_vpc :: string

record mapping =
  mp_device :: string
  mp_virtual :: string
  mp_no_device :: bool \<comment> \<open>the pointer is set\<close>
  mp_ebs :: "int option" \<comment> \<open>an EBS block with its size, 0 for an absent size\<close>

record amimage =
  im_id :: string
  im_owner :: string
  im_arch :: string
  im_state :: string
  im_root_type :: string
  im_virtualization :: string
  im_platform :: string
  im_products :: nat
  im_root :: string
  im_mappings :: "mapping list"

record type_info =
  ty_name :: string
  ty_archs :: "string list option" \<comment> \<open>none when \<open>ProcessorInfo\<close> is nil\<close>
  ty_roots :: "string list"
  ty_virtualizations :: "string list"

text \<open>The variable part of a \<open>RunInstances\<close> request: one instance, no public address, an encrypted
  gp3 root disk that outlives the instance, IMDSv2 required with hop limit 1 are fixed.\<close>

record run_args =
  ri_image :: string
  ri_type :: string
  ri_token :: string
  ri_key :: string
  ri_subnet :: string
  ri_groups :: "string list"
  ri_device :: string
  ri_gib :: int
  ri_tags :: tag_list

section \<open>Requests and replies\<close>

datatype preq =
    QIdentity
  | QPool string
  | QSubnet string
  | QGroups "string list"
  | QKey string
  | QImage string string
  | QType string
  | QAcquire plan string
  | QSave oprec string
  | QRelease plan string
  | QInstances string \<comment> \<open>by network tag, with the page token\<close>
  | QInstancesById "string list"
  | QRun run_args
  | QAddresses \<comment> \<open>by network tag\<close>
  | QAddressById string
  | QAllocate tag_list
  | QAssociate string string
  | QReleaseAddress string
  | QSleep

datatype preply =
    RUnit "unit res"
  | RText "string option res"
  | RPools "(pool list \<times> string) option res"
  | RSubnets "subnet list option res"
  | RGroups "group list option res"
  | RKeys "string list option res"
  | RImages "amimage list option res"
  | RTypes "type_info list option res"
  | RRecord "oprec res"
  | RPage "page option res"
  | RIds "string list option res"
  | RAddresses "eip list option res"
  | RAllocated "(string \<times> string) option res"

definition odd_reply :: "'a res" where
  "odd_reply = Inl (Transport ''reply of another call'')"

fun as_unit :: "preply \<Rightarrow> unit res" where "as_unit (RUnit r) = r" | "as_unit _ = odd_reply"
fun as_text :: "preply \<Rightarrow> string option res" where "as_text (RText r) = r" | "as_text _ = odd_reply"
fun as_pools :: "preply \<Rightarrow> (pool list \<times> string) option res" where "as_pools (RPools r) = r" | "as_pools _ = odd_reply"
fun as_subnets :: "preply \<Rightarrow> subnet list option res" where "as_subnets (RSubnets r) = r" | "as_subnets _ = odd_reply"
fun as_groups :: "preply \<Rightarrow> group list option res" where "as_groups (RGroups r) = r" | "as_groups _ = odd_reply"
fun as_keys :: "preply \<Rightarrow> string list option res" where "as_keys (RKeys r) = r" | "as_keys _ = odd_reply"
fun as_images :: "preply \<Rightarrow> amimage list option res" where "as_images (RImages r) = r" | "as_images _ = odd_reply"
fun as_types :: "preply \<Rightarrow> type_info list option res" where "as_types (RTypes r) = r" | "as_types _ = odd_reply"
fun as_record :: "preply \<Rightarrow> oprec res" where "as_record (RRecord r) = r" | "as_record _ = odd_reply"
fun as_page :: "preply \<Rightarrow> page option res" where "as_page (RPage r) = r" | "as_page _ = odd_reply"
fun as_ids :: "preply \<Rightarrow> string list option res" where "as_ids (RIds r) = r" | "as_ids _ = odd_reply"
fun as_addresses :: "preply \<Rightarrow> eip list option res" where "as_addresses (RAddresses r) = r" | "as_addresses _ = odd_reply"
fun as_allocated :: "preply \<Rightarrow> (string \<times> string) option res" where "as_allocated (RAllocated r) = r" | "as_allocated _ = odd_reply"

text \<open>The world of a provisioning run: the environment, the history and the record \<open>r\<close> in memory.\<close>

record pworld = "(preq, preply) sys" +
  pw_rec :: oprec

type_synonym 'a poper = "(pworld, 'a) oper"

text \<open>A call whose reply is read by \<open>f\<close>; its error is returned as it is.\<close>

definition call :: "preq \<Rightarrow> (preply \<Rightarrow> 'a res) \<Rightarrow> 'a poper" where
  "call q f = bnd (ask q) (\<lambda>a. lift (f a))"

text \<open>\<open>fmt.Errorf("c: %w", err)\<close> around the error of an operation.\<close>

definition wrap :: "string \<Rightarrow> 'a poper \<Rightarrow> 'a poper" where
  "wrap c m = bnd (attempt m) (\<lambda>r. case r of Inl e \<Rightarrow> fail (At c e) | Inr a \<Rightarrow> ret a)"

definition set_rec :: "(oprec \<Rightarrow> oprec) \<Rightarrow> unit poper" where
  "set_rec f = modify (\<lambda>w. w\<lparr>pw_rec := f (pw_rec w)\<rparr>)"

definition put_node :: "string \<Rightarrow> node \<Rightarrow> unit poper" where
  "put_node x n = set_rec (set_node x n)"

definition get_node :: "string \<Rightarrow> node poper" where
  "get_node x = gets (\<lambda>w. node_at (pw_rec w) x)"

section \<open>Preflight\<close>

definition verify_account :: "string \<Rightarrow> unit poper" where
  "verify_account expected = bnd (wrap ''verify AWS account'' (call QIdentity as_text)) (\<lambda>c.
     reject_if (c = None \<or> the c \<noteq> expected) (Err ''AWS credentials do not match the configured account''))"

definition aws_arch :: "string \<Rightarrow> string" where
  "aws_arch a = (if a = ''amd64'' then ''x86_64'' else ''arm64'')"

definition ephemeral_device :: rx where
  "ephemeral_device = Seq (lit ''ephemeral'') (Seq (Sym is_dec) (Star (Sym is_dec)))"

text \<open>One round of the loop of \<open>validateImageDisks\<close>: root mappings so far, devices, virtual names.\<close>

definition check_mapping ::
  "string \<Rightarrow> int \<Rightarrow> nat \<times> string set \<times> string set \<Rightarrow> mapping \<Rightarrow> (nat \<times> string set \<times> string set) res" where
  "check_mapping root gib st m = (let (roots, devices, virtuals) = st; d = mp_device m; v = mp_virtual m in
     if d = [] \<or> d \<in> devices \<or> mp_no_device m
       then Inl (Err ''invalid, duplicate or suppressed block-device mapping'')
     else if d = root then
       (case mp_ebs m of None \<Rightarrow> Inl (Err ''root must be one EBS disk no larger than rootVolumeGiB'')
        | Some disk \<Rightarrow> if v \<noteq> [] \<or> disk < 1 \<or> disk > gib
            then Inl (Err ''root must be one EBS disk no larger than rootVolumeGiB'')
          else Inr (Suc roots, insert d devices, virtuals))
     else if mp_ebs m \<noteq> None \<or> \<not> matches ephemeral_device v \<or> v \<in> virtuals
       then Inl (Err ''extra disks must be unique ephemeral instance-store mappings'')
     else Inr (roots, insert d devices, insert v virtuals))"

definition validate_disks :: "amimage \<Rightarrow> int \<Rightarrow> unit res" where
  "validate_disks im gib = after (scan_ok (check_mapping (im_root im) gib) (0, {}, {}) (im_mappings im))
     (\<lambda>(roots, _). if roots \<noteq> 1 then Inl (Err ''exactly one EBS root mapping is required'') else Inr ())"

definition verify_pool :: "network \<Rightarrow> footprint \<Rightarrow> unit poper" where
  "verify_pool n f = bnd (wrap ''describe IPAM pool'' (call (QPool (fp_pool f)) as_pools)) (\<lambda>out.
     case out of Some ([p], []) \<Rightarrow>
       reject_if (po_id p \<noteq> fp_pool f \<or> po_owner p \<noteq> aws_account (nw_aws n) \<or>
         po_locale p \<noteq> aws_region (nw_aws n) \<or> po_state p \<noteq> ''create-complete'' \<or> po_family p \<noteq> ''ipv4'' \<or>
         po_scope p \<noteq> ''public'' \<or> po_source p \<noteq> ''byoip'' \<or> po_service p \<noteq> ''ec2'')
         (Err ''IPAM pool must be owned, ready, public BYOIP IPv4 for EC2 in the target region'')
     | _ \<Rightarrow> fail (Err ''expected one complete IPAM pool response''))"

definition check_subnet :: "network \<Rightarrow> footprint \<Rightarrow> unit poper" where
  "check_subnet n f = bnd (wrap ''describe subnet'' (call (QSubnet (fp_subnet f)) as_subnets)) (\<lambda>out.
     case out of Some [s] \<Rightarrow>
       reject_if (sn_id s \<noteq> fp_subnet f \<or> sn_vpc s \<noteq> fp_vpc f \<or> sn_owner s \<noteq> aws_account (nw_aws n) \<or>
         sn_state s \<noteq> ''available'')
         (Err ''subnet is unavailable or does not belong to the configured VPC/account'')
     | _ \<Rightarrow> fail (Err ''expected exactly one subnet''))"

definition check_live_group :: "network \<Rightarrow> footprint \<Rightarrow> string set \<Rightarrow> group \<Rightarrow> string set res" where
  "check_live_group n f seen g =
     (if gr_id g \<in> seen \<or> gr_id g \<notin> set (fp_sgs f) \<or> gr_owner g \<noteq> aws_account (nw_aws n) \<or> gr_vpc g \<noteq> fp_vpc f
      then Inl (Err ''security group scope mismatch'') else Inr (insert (gr_id g) seen))"

definition check_groups :: "network \<Rightarrow> footprint \<Rightarrow> unit poper" where
  "check_groups n f = bnd (wrap ''describe security groups'' (call (QGroups (fp_sgs f)) as_groups)) (\<lambda>out.
     case out of Some gs \<Rightarrow>
       if length gs \<noteq> length (fp_sgs f) then fail (Err ''incomplete security group response'')
       else bnd (lift (scan_ok (check_live_group n f) {} gs)) (\<lambda>_. ret ())
     | None \<Rightarrow> fail (Err ''incomplete security group response''))"

definition check_key :: "footprint \<Rightarrow> unit poper" where
  "check_key f = bnd (wrap ''describe emergency SSH key pair'' (call (QKey (fp_key f)) as_keys)) (\<lambda>out.
     reject_if (out \<noteq> Some [fp_key f]) (Err ''expected configured SSH key pair''))"

definition check_arch_image :: "footprint \<Rightarrow> string \<Rightarrow> string poper" where
  "check_arch_image f a = (let q = (case fmlookup (fp_amis f) a of None \<Rightarrow> \<lparr>ami_id = [], ami_owner = []\<rparr> | Some x \<Rightarrow> x) in
     bnd (wrap ''describe AMI'' (call (QImage (ami_id q) (ami_owner q)) as_images)) (\<lambda>out.
     case out of Some [im] \<Rightarrow>
       sq (reject_if (im_id im \<noteq> ami_id q \<or> im_owner im \<noteq> ami_owner q \<or> im_arch im \<noteq> aws_arch a \<or>
           im_state im \<noteq> ''available'' \<or> im_root_type im \<noteq> ''ebs'' \<or> im_virtualization im \<noteq> ''hvm'' \<or>
           im_platform im \<noteq> [] \<or> im_products im \<noteq> 0 \<or> im_root im = [])
         (Err ''AMI must be available, owner-pinned, architecture-matched, HVM Linux/EBS''))
       (sq (wrap a (lift (validate_disks im (fp_root_gib f)))) (ret (im_root im)))
     | _ \<Rightarrow> fail (Err ''expected one AMI'')))"

fun collect_roots :: "footprint \<Rightarrow> string list \<Rightarrow> (string, string) fmap \<Rightarrow> (string, string) fmap poper" where
  "collect_roots f [] m = ret m"
| "collect_roots f (a # as) m = bnd (check_arch_image f a) (\<lambda>root. collect_roots f as (fmupd a root m))"

definition check_type :: "node_group \<Rightarrow> unit poper" where
  "check_type g = bnd (wrap ''describe instance type'' (call (QType (ng_type g)) as_types)) (\<lambda>out.
     case out of Some [i] \<Rightarrow>
       reject_if (ty_name i \<noteq> ng_type g \<or>
         (case ty_archs i of None \<Rightarrow> True | Some as \<Rightarrow> aws_arch (ng_arch g) \<notin> set as) \<or>
         ''ebs'' \<notin> set (ty_roots i) \<or> ''hvm'' \<notin> set (ty_virtualizations i))
         (Err ''instance type does not support requested architecture/EBS/HVM'')
     | _ \<Rightarrow> fail (Err ''incomplete instance type response''))"

text \<open>The loop skips a key \<open>type/architecture\<close> it has checked before.\<close>

fun check_types :: "node_group list \<Rightarrow> string list \<Rightarrow> unit poper" where
  "check_types [] seen = ret ()"
| "check_types (g # gs) seen = (let key = ng_type g @ ''/'' @ ng_arch g in
     if key \<in> set seen then check_types gs seen
     else sq (check_type g) (check_types gs (key # seen)))"

definition prepare :: "hasher \<Rightarrow> image_refs \<Rightarrow> network \<Rightarrow> plan poper" where
  "prepare H R n =
     bnd (lift (validate_network R n)) (\<lambda>_.
     bnd (lift (validate_provision n)) (\<lambda>_.
     sq (verify_account (aws_account (nw_aws n)))
     (case aws_provision (nw_aws n) of None \<Rightarrow> fail (Err ''aws.provision is required for EC2 provisioning'')
      | Some f \<Rightarrow>
        sq (if fp_public f then
              sq (reject_if (fp_pool f = []) (Err ''public provisioning requires aws.provision.ipamPoolId''))
                (verify_pool n f)
            else ret ())
        (sq (check_subnet n f)
        (sq (check_groups n f)
        (sq (check_key f)
        (bnd (collect_roots f (architectures n) fmempty) (\<lambda>roots.
        sq (check_types (nw_nodes n) [])
        (let p = build H n roots in bnd (lift (validate_plan H R p)) (\<lambda>_. ret p))))))))))"

section \<open>Launching\<close>

definition run_input :: "hasher \<Rightarrow> plan \<Rightarrow> target \<Rightarrow> run_args" where
  "run_input H p t = (let f = footprint_of p in
     \<lparr>ri_image = tg_ami t, ri_type = tg_type t, ri_token = token H p t, ri_key = fp_key f,
      ri_subnet = fp_subnet f, ri_groups = fp_sgs f, ri_device = tg_root t, ri_gib = fp_root_gib f,
      ri_tags = sorted_list_of_fmap (tags p t)\<rparr>)"

definition launch :: "hasher \<Rightarrow> plan \<Rightarrow> target \<Rightarrow> string poper" where
  "launch H p t = bnd (call (QRun (run_input H p t)) as_ids) (\<lambda>out. case out of
     Some [i] \<Rightarrow> if i = [] then fail (Err ''expected exactly one launched instance identity'') else ret i
   | _ \<Rightarrow> fail (Err ''expected exactly one launched instance identity''))"

section \<open>Discovery\<close>

definition check_tag :: "(string, string) fmap \<Rightarrow> string \<times> string \<Rightarrow> (string, string) fmap res" where
  "check_tag m kv = (if fmlookup m (fst kv) \<noteq> None then Inl (Err ''duplicate ownership tag'')
     else Inr (fmupd (fst kv) (snd kv) m))"

definition read_tags :: "tag_list \<Rightarrow> (string, string) fmap res" where
  "read_tags ts = scan_ok check_tag fmempty ts"

text \<open>The ownership comparison reads a missing tag as the empty string, as Go does.\<close>

definition owned :: "plan \<Rightarrow> target \<Rightarrow> (string, string) fmap \<Rightarrow> bool" where
  "owned p t m \<longleftrightarrow> fmpred (\<lambda>k v. mget m k = v) (tags p t)"

definition same_groups :: "plan \<Rightarrow> inst \<Rightarrow> bool" where
  "same_groups p i \<longleftrightarrow> card (set (in_sgs i)) = length (fp_sgs (footprint_of p)) \<and>
     list_all (\<lambda>g. g \<in> set (in_sgs i)) (fp_sgs (footprint_of p))"

definition same_launch :: "hasher \<Rightarrow> plan \<Rightarrow> target \<Rightarrow> inst \<Rightarrow> bool" where
  "same_launch H p t i \<longleftrightarrow> in_token i = token H p t \<and> in_image i = tg_ami t \<and> in_type i = tg_type t \<and>
     in_arch i = aws_arch (tg_arch t) \<and> in_subnet i = fp_subnet (footprint_of p) \<and>
     in_vpc i = fp_vpc (footprint_of p) \<and> in_key i = fp_key (footprint_of p)"

type_synonym live_map = "(string, inst) fmap"

text \<open>One instance of a page: the identities seen so far and the instances by target name.\<close>

definition check_inst :: "hasher \<Rightarrow> plan \<Rightarrow> string list \<times> live_map \<Rightarrow> inst \<Rightarrow> (string list \<times> live_map) res" where
  "check_inst H p st i = (let (ids, live) = st in
     after (read_tags (in_tags i)) (\<lambda>m. case find_target p (mget m ''dashnet:node'') of
       None \<Rightarrow> Inl (Err ''network tag includes an unmanaged or unexpected target; refusing legacy adoption'')
     | Some t \<Rightarrow>
       if \<not> owned p t m then Inl (At (tg_name t) (Err ''ownership mismatch''))
       else if in_id i = [] \<or> in_id i \<in> set ids then Inl (Err ''missing or duplicate EC2 identity'')
       else if fmlookup live (tg_name t) \<noteq> None then Inl (At (tg_name t) (Err ''multiple instances for target''))
       else if \<not> same_launch H p t i then Inl (At (tg_name t) (Err ''launch identity or placement drift''))
       else if \<not> same_groups p i then Inl (At (tg_name t) (Err ''security group drift''))
       else if in_http_tokens i \<noteq> Some ''required'' then Inl (At (tg_name t) (Err ''IMDSv2 drift''))
       else if in_state i \<noteq> Some ''pending'' \<and> in_state i \<noteq> Some ''running''
         then Inl (At (tg_name t) (Err ''not pending/running; no implicit restart or replacement''))
       else Inr (in_id i # ids, fmupd (tg_name t) i live)))"

definition check_reservation :: "hasher \<Rightarrow> plan \<Rightarrow> string list \<times> live_map \<Rightarrow> reservation \<Rightarrow> (string list \<times> live_map) res" where
  "check_reservation H p st rs =
     (if rs_owner rs \<noteq> aws_account (nw_aws (pl_network p)) then Inl (Err ''EC2 reservation account mismatch'')
      else scan_ok (check_inst H p) st (rs_instances rs))"

text \<open>The loop over pages, bounded by \<open>fuel\<close>: the page token to ask for, the tokens seen, and what
  has been collected.\<close>

fun discover_pages :: "hasher \<Rightarrow> plan \<Rightarrow> nat \<Rightarrow> string \<Rightarrow> string list \<Rightarrow> string list \<times> live_map \<Rightarrow> live_map poper" where
  "discover_pages H p 0 tok seen st = fail OutOfFuel"
| "discover_pages H p (Suc fuel) tok seen st =
     bnd (wrap ''reconcile EC2 scope'' (call (QInstances tok) as_page)) (\<lambda>out. case out of
       None \<Rightarrow> fail (Err ''empty EC2 discovery response'')
     | Some pg \<Rightarrow>
         bnd (lift (scan_ok (check_reservation H p) st (pg_reservations pg))) (\<lambda>st'.
         if pg_next pg = [] then ret (snd st')
         else if pg_next pg \<in> set seen
           then fail (Err ''EC2 pagination repeated a token; refusing partial scope'')
         else discover_pages H p fuel (pg_next pg) (pg_next pg # seen) st'))"

definition discover :: "hasher \<Rightarrow> nat \<Rightarrow> plan \<Rightarrow> live_map poper" where
  "discover H fuel p = discover_pages H p fuel [] [] ([], fmempty)"

section \<open>Reconciliation\<close>

definition reconcile_target :: "live_map \<Rightarrow> bool \<Rightarrow> target \<Rightarrow> unit poper" where
  "reconcile_target live wait t = bnd (get_node (tg_name t)) (\<lambda>n.
     case fmlookup live (tg_name t) of
       None \<Rightarrow>
         if wait then put_node (tg_name t) (n\<lparr>nd_state := ''unknown''\<rparr>)
         else if nd_phase n \<noteq> ''pending'' then
           bnd now (\<lambda>now. sq (put_node (tg_name t) (n\<lparr>nd_state := ''unknown'', nd_observed := now\<rparr>))
             (fail (At (tg_name t) (Err ''recorded launch intent but no visible instance; outcome unknown, no automatic relaunch''))))
         else ret ()
     | Some i \<Rightarrow>
         if nd_phase n = ''pending''
           then fail (At (tg_name t) (Err ''exists without journaled launch intent; refusing adoption''))
         else if nd_instance n \<noteq> [] \<and> nd_instance n \<noteq> in_id i
           then fail (At (tg_name t) (Err ''instance identity changed''))
         else bnd now (\<lambda>now. put_node (tg_name t) (n\<lparr>nd_instance := in_id i, nd_phase := ''present'',
             nd_state := (case in_state i of Some s \<Rightarrow> s | None \<Rightarrow> []), nd_observed := now\<rparr>)))"

definition reconcile :: "plan \<Rightarrow> live_map \<Rightarrow> bool \<Rightarrow> unit poper" where
  "reconcile p live wait = foreach (pl_targets p) (reconcile_target live wait)"

section \<open>What discovery accepts\<close>

text \<open>Every instance that discovery returns passed all the checks of its target, and no instance is
  returned for two targets.\<close>

definition sound_inst :: "hasher \<Rightarrow> plan \<Rightarrow> string \<Rightarrow> inst \<Rightarrow> bool" where
  "sound_inst H p x i \<longleftrightarrow> (\<exists>t m. find_target p x = Some t \<and> read_tags (in_tags i) = Inr m \<and> owned p t m \<and>
     mget m ''dashnet:node'' = x \<and> same_launch H p t i \<and> same_groups p i \<and> in_http_tokens i = Some ''required'' \<and>
     (in_state i = Some ''pending'' \<or> in_state i = Some ''running'') \<and> in_id i \<noteq> [])"

definition sound_live :: "hasher \<Rightarrow> plan \<Rightarrow> string list \<times> live_map \<Rightarrow> bool" where
  "sound_live H p st \<longleftrightarrow> (\<forall>x i. fmlookup (snd st) x = Some i \<longrightarrow> sound_inst H p x i \<and> in_id i \<in> set (fst st)) \<and>
     (\<forall>x y i j. fmlookup (snd st) x = Some i \<longrightarrow> fmlookup (snd st) y = Some j \<longrightarrow> in_id i = in_id j \<longrightarrow> x = y)"

lemma find_target_name: "find_target p x = Some t \<Longrightarrow> tg_name t = x \<and> t \<in> set (pl_targets p)"
  by (auto simp: find_target_def find_Some_iff)

lemma check_inst_sound:
  assumes "check_inst H p st i = Inr st'" and "sound_live H p st"
  shows "sound_live H p st'"
proof -
  obtain ids live where st: "st = (ids, live)" by (cases st)
  obtain m t where m: "read_tags (in_tags i) = Inr m" and t: "find_target p (mget m ''dashnet:node'') = Some t"
    and c: "owned p t m" "in_id i \<noteq> []" "in_id i \<notin> set ids" "fmlookup live (tg_name t) = None"
      "same_launch H p t i" "same_groups p i" "in_http_tokens i = Some ''required''"
      "in_state i = Some ''pending'' \<or> in_state i = Some ''running''"
    and st': "st' = (in_id i # ids, fmupd (tg_name t) i live)"
    using assms(1) by (auto simp: check_inst_def st res_simps split: option.splits if_splits)
  have n: "tg_name t = mget m ''dashnet:node''" using find_target_name [OF t] by simp
  have "sound_inst H p (tg_name t) i" using m t c n unfolding sound_inst_def by metis
  moreover have old: "in_id j \<noteq> in_id i" if "fmlookup live x = Some j" for x j
    using that assms(2) c(3) unfolding sound_live_def st fst_conv snd_conv by metis
  ultimately show ?thesis using assms(2) old unfolding sound_live_def st st'
    by (auto split: if_splits dest: old)
qed

lemma check_reservation_sound:
  "check_reservation H p st rs = Inr st' \<Longrightarrow> sound_live H p st \<Longrightarrow> sound_live H p st'"
  unfolding check_reservation_def
  by (auto simp: res_simps intro: scan_ok_invariant [where P = "sound_live H p"] check_inst_sound split: if_splits)

lemma sound_live_empty [simp]: "sound_live H p ([], fmempty)"
  by (simp add: sound_live_def)

section \<open>Running the shared routines\<close>

lemma wp_call [wp_rules]:
  "wp (call q f) Q E w = (let a = answer (env w) (hist w) q; w' = w\<lparr>hist := (q, a) # hist w\<rparr> in
     case f a of Inr x \<Rightarrow> Q x w' | Inl e \<Rightarrow> E e w')"
  by (simp add: call_def wp_rules Let_def split: sum.splits)

lemma wp_wrap [wp_rules]: "wp (wrap c m) Q E w = wp m Q (\<lambda>e. E (At c e)) w"
proof -
  have e: "(\<lambda>e. wp (case Inl e of Inl e \<Rightarrow> fail (At c e) | Inr a \<Rightarrow> ret a) Q E) = (\<lambda>e. E (At c e))"
    "(\<lambda>a. wp (case Inr a of Inl e \<Rightarrow> fail (At c e) | Inr a \<Rightarrow> ret a) Q E) = Q"
    by (auto simp: wp_rules fun_eq_iff)
  show ?thesis unfolding wrap_def wp_bnd wp_attempt by (simp only: e)
qed

lemma wp_set_rec [wp_rules]: "wp (set_rec f) Q E w = Q () (w\<lparr>pw_rec := f (pw_rec w)\<rparr>)"
  by (simp add: set_rec_def wp_rules)

lemma wp_put_node [wp_rules]: "wp (put_node x n) Q E w = Q () (w\<lparr>pw_rec := set_node x n (pw_rec w)\<rparr>)"
  by (simp add: put_node_def wp_rules)

lemma wp_get_node [wp_rules]: "wp (get_node x) Q E w = Q (node_at (pw_rec w) x) w"
  by (simp add: get_node_def wp_rules)

lemma wp_discover_pages:
  assumes "sound_live H p st" and "I w"
    and "\<And>w tok a. I w \<Longrightarrow> a = answer (env w) (hist w) (QInstances tok) \<Longrightarrow>
      I (w\<lparr>hist := (QInstances tok, a) # hist w\<rparr>)"
  shows "wp (discover_pages H p fuel tok seen st)
    (\<lambda>live w. (\<exists>ids. sound_live H p (ids, live)) \<and> I w) (\<lambda>_. I) w"
  using assms(1,2)
proof (induction fuel arbitrary: tok seen st w)
  case 0
  then show ?case by (simp add: wp_rules)
next
  case (Suc fuel)
  let ?a = "answer (env w) (hist w) (QInstances tok)"
  have I: "I (w\<lparr>hist := (QInstances tok, ?a) # hist w\<rparr>)" by (rule assms(3) [OF Suc.prems(2) refl])
  have s: "sound_live H p st'" if "scan_ok (check_reservation H p) st rs = Inr st'" for st' rs
    by (rule scan_ok_invariant [OF that]) (use Suc.prems(1) check_reservation_sound in auto)
  show ?case
    unfolding discover_pages.simps
    using I s Suc.IH [OF _ I]
    by (auto simp: wp_rules Let_def split: sum.splits option.splits)
qed

section \<open>Discovery ends\<close>

lemma scan_ok_Inl: "scan_ok f s xs = Inl e \<Longrightarrow> \<exists>s' x. x \<in> set xs \<and> f s' x = Inl e"
proof (induction xs arbitrary: s)
  case Nil
  then show ?case by simp
next
  case (Cons x xs)
  then show ?case by (cases "f s x") (auto, blast+)
qed

lemma check_inst_fuel: "check_inst H p st i \<noteq> Inl OutOfFuel"
proof
  assume a: "check_inst H p st i = Inl OutOfFuel"
  have "read_tags ts \<noteq> Inl OutOfFuel" for ts
    using scan_ok_Inl by (fastforce simp: read_tags_def check_tag_def split: if_splits)
  with a show False
    by (cases "read_tags (in_tags i)")
      (auto simp: check_inst_def Let_def split: prod.splits option.splits if_splits)
qed

lemma check_reservation_fuel: "check_reservation H p st rs \<noteq> Inl OutOfFuel"
  using scan_ok_Inl [of "check_inst H p" st "rs_instances rs" OutOfFuel] check_inst_fuel
  by (auto simp: check_reservation_def split: if_splits)

lemma discover_pages_fuel:
  assumes "finite U" and "\<And>h q pg. as_page (answer (env w) h q) = Inr (Some pg) \<Longrightarrow> pg_next pg = [] \<or> pg_next pg \<in> U"
    and "distinct seen" and "set seen \<subseteq> U" and "card U < length seen + fuel"
  shows "wp (discover_pages H p fuel tok seen st) (\<lambda>_ _. True) (\<lambda>e _. e \<noteq> OutOfFuel) w"
  using assms(2-5)
proof (induction fuel arbitrary: tok seen st w)
  case 0
  have "length seen \<le> card U" using 0 card_mono [OF assms(1) 0(3)] distinct_card [OF 0(2)] by simp
  with 0 show ?case by simp
next
  case (Suc fuel)
  have s: "scan_ok (check_reservation H p) st rs \<noteq> Inl OutOfFuel" for rs
    using scan_ok_Inl check_reservation_fuel by metis
  let ?w = "w\<lparr>hist := (QInstances tok, answer (env w) (hist w) (QInstances tok)) # hist w\<rparr>"
  have next_page: "wp (discover_pages H p fuel (pg_next pg) (pg_next pg # seen) st') (\<lambda>_ _. True) (\<lambda>e _. e \<noteq> OutOfFuel) ?w"
    if "as_page (answer (env w) (hist w) (QInstances tok)) = Inr (Some pg)" "pg_next pg \<noteq> []" "pg_next pg \<notin> set seen"
    for pg st'
    by (rule Suc.IH) (use Suc.prems that in auto)
  show ?case
    unfolding discover_pages.simps using next_page s
    by (auto simp: wp_rules Let_def split: sum.splits option.splits)
qed

text \<open>C31: Discovery always ends: when AWS uses at most \<open>k\<close> different page tokens, \<open>k + 1\<close> rounds are
  enough, because a repeated token is refused; and what it returns are instances of this plan's
  targets that passed every ownership, placement and state check, no instance twice.\<close>

theorem discovery_ends:
  assumes "finite U" and "card U < fuel"
    and "\<forall>h q pg. as_page (answer (env w) h q) = Inr (Some pg) \<longrightarrow> pg_next pg = [] \<or> pg_next pg \<in> U"
  shows "fst (discover H fuel p w) \<noteq> Inl OutOfFuel \<and>
    (\<forall>live. fst (discover H fuel p w) = Inr live \<longrightarrow>
       (\<forall>x i. fmlookup live x = Some i \<longrightarrow> sound_inst H p x i) \<and>
       (\<forall>x y i j. fmlookup live x = Some i \<and> fmlookup live y = Some j \<and> in_id i = in_id j \<longrightarrow> x = y))"
proof -
  have "wp (discover H fuel p) (\<lambda>_ _. True) (\<lambda>e _. e \<noteq> OutOfFuel) w"
    unfolding discover_def by (rule discover_pages_fuel [OF assms(1)]) (use assms in auto)
  then have a: "fst (discover H fuel p w) \<noteq> Inl OutOfFuel" by (auto simp: wp_def split: prod.splits sum.splits)
  have "wp (discover H fuel p) (\<lambda>live w. (\<exists>ids. sound_live H p (ids, live)) \<and> True) (\<lambda>_ _. True) w"
    unfolding discover_def by (rule wp_discover_pages) auto
  then have "\<exists>ids. sound_live H p (ids, live)" if "fst (discover H fuel p w) = Inr live" for live
    using that by (auto simp: wp_def split: prod.splits)
  then show ?thesis using a unfolding sound_live_def by fastforce
qed

definition sample_pworld :: "(preq \<Rightarrow> preply) \<Rightarrow> pworld" where
  "sample_pworld f = \<lparr>env = \<lparr>answer = (\<lambda>_. f), clock = (\<lambda>_. 1), cancelled = (\<lambda>_. False)\<rparr>, hist = [],
     pw_rec = new_record sample_plan 1\<rparr>"

theorem discovery_ends_witness:
  "fst (discover sample_hash 1 sample_plan
     (sample_pworld (\<lambda>_. RPage (Inr (Some \<lparr>pg_reservations = [], pg_next = []\<rparr>))))) \<noteq> Inl OutOfFuel"
  using discovery_ends [of "{}" 1 "sample_pworld (\<lambda>_. RPage (Inr (Some \<lparr>pg_reservations = [], pg_next = []\<rparr>)))"]
  by (simp add: sample_pworld_def)

end
