(* ===== verification/Ipam.thy ===== *)
theory Ipam
  imports Ec2
begin

text \<open>
  \<open>internal/provision/ipam.go\<close>: the Elastic IP of each target. Addresses are discovered by the
  network tag and compared with the journal; an address is allocated or associated only under a
  journal intent saved before, because neither call has a client token. The intents of all the
  provisioning executors (launch, allocate, associate, release) are one instance of
  \<open>write_ahead\<close>.
\<close>

section \<open>The journal checkpoint\<close>

text \<open>The \<open>save\<close> closure of the executors: stamp, count the revision, save.\<close>

definition checkpoint :: "string \<Rightarrow> unit poper" where
  "checkpoint owner = bnd now (\<lambda>t.
     sq (set_rec (stamp t))
     (bnd (gets pw_rec) (\<lambda>r. call (QSave r owner) as_unit)))"

section \<open>Errors that prove nothing happened\<close>

fun api_code :: "gerr \<Rightarrow> string option" where
  "api_code (Api c) = Some c"
| "api_code (At _ e) = api_code e"
| "api_code (Joined es) = (case filter (\<lambda>c. c \<noteq> None) (map api_code es) of [] \<Rightarrow> None | c # _ \<Rightarrow> c)"
| "api_code _ = None"

definition rejected :: "gerr \<Rightarrow> bool" where
  "rejected e = (case api_code e of None \<Rightarrow> False | Some code \<Rightarrow>
     code \<in> {''UnauthorizedOperation'', ''AuthFailure'', ''MissingParameter'', ''AddressLimitExceeded'',
       ''InvalidParameterValue'', ''InvalidParameterCombination'', ''InvalidParameter'', ''DryRunOperation''} \<or>
     has_prefix code ''InvalidIpamPool'' \<or> has_prefix code ''InvalidPublicIpv4Pool'')"

definition stale_allocation_after :: gotime where
  "stale_allocation_after = 15 * minute"

section \<open>Discovery of addresses\<close>

definition check_eni :: "string \<Rightarrow> eni \<Rightarrow> string res" where
  "check_eni i e = (if en_index e = Some 0 then
       (if i \<noteq> [] \<or> en_id e = [] then Inl (Err ''ambiguous primary network interface'') else Inr (en_id e))
     else Inr i)"

definition primary_eni :: "inst \<Rightarrow> string res" where
  "primary_eni i = after (scan_ok check_eni [] (in_enis i)) (\<lambda>e.
     if e = [] then Inl (Err ''missing primary network interface'') else Inr e)"

type_synonym eip_map = "(string, eip) fmap"

definition check_attachment :: "oprec \<Rightarrow> live_map \<Rightarrow> string \<Rightarrow> eip \<Rightarrow> address \<Rightarrow> unit res" where
  "check_attachment r live x a ad =
     (if ea_assoc a \<noteq> [] \<or> ea_eni a \<noteq> [] \<or> ea_instance a \<noteq> [] then
        (case fmlookup live x of None \<Rightarrow> Inl (At x (Err ''address attached without live owned instance''))
         | Some i \<Rightarrow> after (primary_eni i) (\<lambda>e.
             if ea_assoc a = [] \<or> ea_eni a \<noteq> e \<or> ea_instance a \<noteq> nd_instance (node_at r x) \<or>
                (ad_association ad \<noteq> [] \<and> ad_association ad \<noteq> ea_assoc a)
               then Inl (At x (Err ''address association drift; no reassociation''))
             else Inr ()))
      else if ad_phase ad = ''associated'' then Inl (At x (Err ''address unexpectedly detached''))
      else Inr ())"

definition check_address ::
  "plan \<Rightarrow> oprec \<Rightarrow> live_map \<Rightarrow> string list \<times> eip_map \<Rightarrow> eip \<Rightarrow> (string list \<times> eip_map) res" where
  "check_address p r live st a = (let (ids, found) = st in
     after (read_tags (ea_tags a)) (\<lambda>m. case find_target p (mget m ''dashnet:node'') of
       None \<Rightarrow> Inl (Err ''unexpected address in network scope; no adoption'')
     | Some t \<Rightarrow> let x = tg_name t in
       if \<not> owned p t m then Inl (At x (Err ''address ownership mismatch''))
       else if fmlookup found x \<noteq> None \<or> ea_alloc a = [] \<or> ea_alloc a \<in> set ids \<or> \<not> valid_ipv4 (ea_ip a) \<or>
            ea_pool a \<noteq> fp_pool (footprint_of p) \<or> ea_border a \<noteq> aws_region (nw_aws (pl_network p)) \<or>
            ea_domain a \<noteq> ''vpc''
         then Inl (At x (Err ''duplicate or wrong-pool address''))
       else case nd_address (node_at r x) of
         None \<Rightarrow> Inl (At x (Err ''address exists without journaled intent; no adoption''))
       | Some ad \<Rightarrow>
         if ad_allocation ad \<noteq> [] \<and> (ad_allocation ad \<noteq> ea_alloc a \<or> ad_public_ip ad \<noteq> ea_ip a)
           then Inl (At x (Err ''address identity changed''))
         else after (check_attachment r live x a ad) (\<lambda>_. Inr (ea_alloc a # ids, fmupd x a found))))"

definition all_visible :: "oprec \<Rightarrow> eip_map \<Rightarrow> bool" where
  "all_visible r found \<longleftrightarrow> fmpred (\<lambda>x n. allocation_of n = [] \<or> fmlookup found x \<noteq> None) (rc_nodes r)"

definition discover_addresses :: "plan \<Rightarrow> oprec \<Rightarrow> live_map \<Rightarrow> eip_map poper" where
  "discover_addresses p r live =
     bnd (wrap ''reconcile IPAM addresses'' (call QAddresses as_addresses)) (\<lambda>out. case out of
       None \<Rightarrow> fail (Err ''empty address response'')
     | Some as \<Rightarrow> bnd (lift (scan_ok (check_address p r live) ([], fmempty) as)) (\<lambda>(_, found).
         if all_visible r found then ret found
         else fail (Err ''recorded address not visible; no replacement'')))"

section \<open>Allocating and associating\<close>

definition upd_address :: "string \<Rightarrow> (address \<Rightarrow> address) \<Rightarrow> unit poper" where
  "upd_address x f = set_rec (\<lambda>r. let n = node_at r x in set_node x (n\<lparr>nd_address := map_option f (nd_address n)\<rparr>) r)"

definition intended :: "gotime \<Rightarrow> address" where
  "intended t = \<lparr>ad_phase = ''allocating'', ad_attempted = t, ad_allocation = [], ad_public_ip = [], ad_association = []\<rparr>"

definition rediscover :: "plan \<Rightarrow> live_map \<Rightarrow> eip_map poper" where
  "rediscover p live = bnd (gets pw_rec) (\<lambda>r. discover_addresses p r live)"

text \<open>An earlier intent blocks a new allocation unless its tagged address is still invisible long
  after the attempt.\<close>

definition check_earlier :: "string \<Rightarrow> node \<Rightarrow> unit poper" where
  "check_earlier x n = (case nd_address n of None \<Rightarrow> ret () | Some ad \<Rightarrow> bnd now (\<lambda>t.
     reject_if (ad_phase ad \<noteq> ''allocating'' \<or> t - ad_attempted ad < stale_allocation_after)
       (At x (Err ''IPAM allocation outcome unknown; reconcile later, no automatic reallocation''))))"

definition refused_allocation :: "unit poper \<Rightarrow> string \<Rightarrow> gerr \<Rightarrow> ('a \<times> 'b) poper" where
  "refused_allocation save x e =
     bnd (get_node x) (\<lambda>n. sq (put_node x (n\<lparr>nd_address := None\<rparr>))
     (bnd (attempt save) (\<lambda>s. case s of Inl e2 \<Rightarrow> fail (Joined [e, e2])
       | Inr _ \<Rightarrow> fail (At ''allocate IPAM address rejected, nothing allocated; fix and resume'' e))))"

definition allocate :: "plan \<Rightarrow> live_map \<Rightarrow> unit poper \<Rightarrow> target \<Rightarrow> (eip \<times> eip_map) poper" where
  "allocate p live save t = (let x = tg_name t in
     bnd (get_node x) (\<lambda>n.
     sq (check_earlier x n)
     (bnd now (\<lambda>ts.
     sq (put_node x (n\<lparr>nd_address := Some (intended ts)\<rparr>))
     (sq save
     (bnd (attempt (call (QAllocate (sorted_list_of_fmap (tags p t))) as_allocated)) (\<lambda>out. case out of
       Inl e \<Rightarrow> if rejected e then refused_allocation save x e
         else fail (At ''allocate IPAM address (outcome may be uncertain)'' e)
     | Inr None \<Rightarrow> fail (Err ''invalid allocation reply; reconcile tagged intent before retrying'')
     | Inr (Some (i, ip)) \<Rightarrow>
         sq (reject_if (i = [] \<or> \<not> valid_ipv4 ip)
           (Err ''invalid allocation reply; reconcile tagged intent before retrying''))
         (sq (upd_address x (\<lambda>ad. ad\<lparr>ad_allocation := i, ad_public_ip := ip, ad_phase := ''allocated''\<rparr>))
         (sq save
         (bnd (rediscover p live) (\<lambda>found. case fmlookup found x of
           None \<Rightarrow> fail (Err ''allocated address not yet visible; resume reconciliation'')
         | Some a \<Rightarrow> ret (a, found))))))))))))"

text \<open>Reconcile a successful allocation whose reply or checkpoint was lost.\<close>

definition adopt :: "unit poper \<Rightarrow> string \<Rightarrow> eip \<Rightarrow> unit poper" where
  "adopt save x a = bnd (get_node x) (\<lambda>n. case nd_address n of None \<Rightarrow> ret () | Some ad \<Rightarrow>
     if ad_phase ad = ''allocating'' then
       sq (upd_address x (\<lambda>ad. ad\<lparr>ad_allocation := ea_alloc a, ad_public_ip := ea_ip a, ad_phase := ''allocated''\<rparr>)) save
     else ret ())"

definition associate :: "plan \<Rightarrow> live_map \<Rightarrow> unit poper \<Rightarrow> string \<Rightarrow> eip \<Rightarrow> eip_map \<Rightarrow> (eip \<times> eip_map) poper" where
  "associate p live save x a found =
     (if ea_assoc a \<noteq> [] then ret (a, found)
      else bnd (get_node x) (\<lambda>n.
        sq (reject_if (case nd_address n of None \<Rightarrow> False | Some ad \<Rightarrow> ad_phase ad = ''associating'')
          (At x (Err ''association outcome unknown; no automatic reassociation'')))
        (sq (upd_address x (\<lambda>ad. ad\<lparr>ad_phase := ''associating''\<rparr>))
        (sq save
        (sq (wrap ''associate IPAM address'' (call (QAssociate (ea_alloc a) (nd_instance n)) as_unit))
        (bnd (rediscover p live) (\<lambda>found2. case fmlookup found2 x of
          None \<Rightarrow> fail (At x (Err ''association not yet visible; resume reconciliation''))
        | Some a2 \<Rightarrow> if ea_assoc a2 = []
            then fail (At x (Err ''association not yet visible; resume reconciliation''))
            else ret (a2, found2))))))))"

definition ensure_target :: "plan \<Rightarrow> live_map \<Rightarrow> unit poper \<Rightarrow> target \<Rightarrow> eip_map \<Rightarrow> eip_map poper" where
  "ensure_target p live save t found = (let x = tg_name t in
     bnd ctx_done (\<lambda>d. sq (reject_if d Cancelled)
     (bnd (case fmlookup found x of Some a \<Rightarrow> ret (a, found) | None \<Rightarrow> allocate p live save t) (\<lambda>(a, found).
     sq (adopt save x a)
     (bnd (associate p live save x a found) (\<lambda>(a, found).
     sq (upd_address x (\<lambda>ad. ad\<lparr>ad_phase := ''associated'', ad_association := ea_assoc a\<rparr>))
     (sq save (ret found))))))))"

fun ensure_loop :: "plan \<Rightarrow> live_map \<Rightarrow> unit poper \<Rightarrow> target list \<Rightarrow> eip_map \<Rightarrow> unit poper" where
  "ensure_loop p live save [] found = ret ()"
| "ensure_loop p live save (t # ts) found =
     bnd (ensure_target p live save t found) (\<lambda>found. ensure_loop p live save ts found)"

definition check_primary :: "live_map \<Rightarrow> eip_map \<Rightarrow> target \<Rightarrow> unit res" where
  "check_primary live found t = (let x = tg_name t in case fmlookup live x of
     None \<Rightarrow> Inl (At x (Err ''missing primary network interface''))
   | Some i \<Rightarrow> (case primary_eni i of Inl e \<Rightarrow> Inl (At x e) | Inr _ \<Rightarrow>
       if in_public_ip i \<noteq> [] \<and> in_public_ip i \<noteq> (case fmlookup found x of None \<Rightarrow> [] | Some a \<Rightarrow> ea_ip a)
         then Inl (At x (Err ''unexpected public address; no replacement'')) else Inr ()))"

definition ensure_addresses :: "plan \<Rightarrow> live_map \<Rightarrow> unit poper \<Rightarrow> unit poper" where
  "ensure_addresses p live save =
     bnd (rediscover p live) (\<lambda>found.
     bnd (lift (each_ok (check_primary live found) (pl_targets p))) (\<lambda>_.
     ensure_loop p live save (pl_targets p) found))"

section \<open>Write-ahead intents of provisioning\<close>

datatype mutation = Launch run_args | Allocate tag_list | Associate string string | Release string

fun saved_rec :: "preq \<Rightarrow> preply \<Rightarrow> oprec option" where
  "saved_rec (QSave r owner) a = (case as_unit a of Inr _ \<Rightarrow> Some r | Inl _ \<Rightarrow> None)"
| "saved_rec _ a = None"

fun mutates :: "preq \<Rightarrow> mutation option" where
  "mutates (QRun i) = Some (Launch i)"
| "mutates (QAllocate ts) = Some (Allocate ts)"
| "mutates (QAssociate a i) = Some (Associate a i)"
| "mutates (QReleaseAddress a) = Some (Release a)"
| "mutates _ = None"

definition address_in :: "string \<Rightarrow> string \<Rightarrow> node \<Rightarrow> bool" where
  "address_in phase alloc n = (case nd_address n of None \<Rightarrow> False
     | Some ad \<Rightarrow> ad_phase ad = phase \<and> ad_allocation ad = alloc)"

text \<open>Which saved record announces which mutation.\<close>

fun announces :: "hasher \<Rightarrow> oprec \<Rightarrow> mutation \<Rightarrow> bool" where
  "announces H r (Launch i) = (\<exists>t \<in> set (pl_targets (rc_plan r)). i = run_input H (rc_plan r) t \<and>
     nd_phase (node_at r (tg_name t)) = ''launching'')"
| "announces H r (Allocate ts) = (\<exists>t \<in> set (pl_targets (rc_plan r)).
     ts = sorted_list_of_fmap (tags (rc_plan r) t) \<and> address_in ''allocating'' [] (node_at r (tg_name t)))"
| "announces H r (Associate a i) = (\<exists>t \<in> set (pl_targets (rc_plan r)).
     nd_instance (node_at r (tg_name t)) = i \<and> address_in ''associating'' a (node_at r (tg_name t)))"
| "announces H r (Release a) = (\<exists>t \<in> set (pl_targets (rc_plan r)).
     address_in ''releasing'' a (node_at r (tg_name t)))"

interpretation pwa: write_ahead saved_rec mutates "announces H" for H
proof
  fix q k r
  show "mutates q = Some k \<Longrightarrow> saved_rec q r = None" by (cases q) auto
qed

abbreviation announced :: "hasher \<Rightarrow> (preq, preply) hist \<Rightarrow> bool" where
  "announced H \<equiv> guarded (intent_guard saved_rec mutates (announces H))"

end
