(* ===== verification/Ipam_Safety.thy ===== *)
theory Ipam_Safety
  imports Ipam
begin

text \<open>
  The invariant of the provisioning executor while it works on its record: the record in memory and
  every record it has sent to the journal pass full validation, and every mutation was announced by
  the latest acknowledged save. The address routines of \<open>ipam.go\<close> keep it.
\<close>

section \<open>The invariant\<close>

fun save_valid :: "hasher \<Rightarrow> image_refs \<Rightarrow> plan \<Rightarrow> preq \<Rightarrow> bool" where
  "save_valid H R p (QSave r owner) = (validate_record H R p r = Inr ())"
| "save_valid H R p _ = True"

definition saves_valid :: "hasher \<Rightarrow> image_refs \<Rightarrow> plan \<Rightarrow> (preq, preply) hist \<Rightarrow> bool" where
  "saves_valid H R p h \<longleftrightarrow> (\<forall>(q, a) \<in> set h. save_valid H R p q)"

definition ticking :: "('q, 'r, 'z) sys_scheme \<Rightarrow> bool" where
  "ticking w \<longleftrightarrow> (\<forall>h. clock (env w) h \<noteq> 0)"

definition pinv :: "hasher \<Rightarrow> image_refs \<Rightarrow> plan \<Rightarrow> pworld \<Rightarrow> bool" where
  "pinv H R p w \<longleftrightarrow> validate_record H R p (pw_rec w) = Inr () \<and> rc_phase (pw_rec w) \<noteq> ''addresses-released'' \<and>
     announced H (hist w) \<and> saves_valid H R p (hist w) \<and> ticking w"

abbreviation last_saved :: "pworld \<Rightarrow> oprec option" where
  "last_saved w \<equiv> journaled saved_rec (hist w)"

lemma pinv_plan: "pinv H R p w \<Longrightarrow> rc_plan (pw_rec w) = p"
  by (auto simp: pinv_def validate_record_parts dest: validate_compute_plan)

lemma pinv_clock: "pinv H R p w \<Longrightarrow> clock (env w) h \<noteq> 0"
  by (simp add: pinv_def ticking_def)

lemma pinv_ask:
  assumes "pinv H R p w" and "save_valid H R p q" and "mutates q = None"
  shows "pinv H R p (w\<lparr>hist := (q, a) # hist w\<rparr>)"
  using assms by (simp add: pinv_def saves_valid_def ticking_def intent_guard_def)

lemma pinv_mutate:
  assumes "pinv H R p w" and "last_saved w = Some r" and "mutates q = Some k" and "announces H r k"
  shows "pinv H R p (w\<lparr>hist := (q, a) # hist w\<rparr>)"
  using assms by (cases q) (simp_all add: pinv_def saves_valid_def ticking_def intent_guard_def)

lemma pinv_put:
  assumes "pinv H R p w" and "x \<in> tg_name ` set (pl_targets p)"
    and "check_node n = Inr ()" "validate_address p n = Inr ()"
  shows "pinv H R p (w\<lparr>pw_rec := set_node x n (pw_rec w)\<rparr>)"
  using assms valid_set_node [of H R p "pw_rec w" x n] by (simp add: pinv_def ticking_def)

lemma pinv_node:
  assumes "pinv H R p w" and "t \<in> set (pl_targets p)"
  shows "check_node (node_at (pw_rec w) (tg_name t)) = Inr ()"
    "validate_address p (node_at (pw_rec w) (tg_name t)) = Inr ()"
    "fmlookup (rc_nodes (pw_rec w)) (tg_name t) = Some (node_at (pw_rec w) (tg_name t))"
  using assms validate_compute_plan(11) [of H R p "pw_rec w"]
  by (auto simp: pinv_def validate_record_parts check_target_node_at)

lemma wp_checkpoint:
  assumes I: "pinv H R p w"
    and Q: "\<And>w' t. pinv H R p w' \<Longrightarrow> last_saved w' = Some (pw_rec w') \<Longrightarrow> pw_rec w' = stamp t (pw_rec w) \<Longrightarrow> Q () w'"
    and E: "\<And>e w'. pinv H R p w' \<Longrightarrow> E e w'"
  shows "wp (checkpoint owner) Q E w"
proof -
  let ?t = "clock (env w) (hist w)" and ?r = "stamp (clock (env w) (hist w)) (pw_rec w)"
  have v: "validate_record H R p ?r = Inr ()"
    using I pinv_clock [OF I] by (intro valid_stamp) (auto simp: pinv_def)
  have J: "pinv H R p (w\<lparr>pw_rec := ?r, hist := (QSave ?r owner, a) # hist w\<rparr>)" for a
    using I v by (simp add: pinv_def saves_valid_def ticking_def intent_guard_def)
  show ?thesis
    unfolding checkpoint_def
    using J by (auto simp: wp_rules Let_def split: sum.splits intro!: Q E)
qed

section \<open>Addresses\<close>

definition good_address :: "address \<Rightarrow> bool" where
  "good_address ad \<longleftrightarrow> ad_attempted ad \<noteq> 0 \<and>
     (ad_phase ad = ''allocating'' \<and> ad_allocation ad = [] \<and> ad_public_ip ad = [] \<and> ad_association ad = [] \<or>
      ad_phase ad \<in> {''allocated'', ''associating'', ''associated'', ''releasing'', ''released''} \<and>
      ad_allocation ad \<noteq> [] \<and> valid_ipv4 (ad_public_ip ad) \<and>
      (ad_phase ad = ''associated'' \<longrightarrow> ad_association ad \<noteq> []))"

text \<open>A plan with an IPAM pool whose targets are all present.\<close>

definition pooled :: "plan \<Rightarrow> bool" where
  "pooled p \<longleftrightarrow> fp_public (footprint_of p) \<and> fp_pool (footprint_of p) \<noteq> []"

lemma validate_address_iff:
  assumes "pooled p" and "nd_phase n = ''present''"
  shows "validate_address p n = Inr () \<longleftrightarrow> (case nd_address n of None \<Rightarrow> True | Some ad \<Rightarrow> good_address ad)"
  using assms by (auto simp: validate_address_def pooled_def good_address_def split: option.splits)

lemma validate_address_none [simp]: "validate_address p (n\<lparr>nd_address := None\<rparr>) = Inr ()"
  by (simp add: validate_address_def)

lemma check_node_address [simp]: "check_node (n\<lparr>nd_address := a\<rparr>) = check_node n"
  by (simp add: check_node_def)

definition all_present :: "plan \<Rightarrow> oprec \<Rightarrow> bool" where
  "all_present p r \<longleftrightarrow> (\<forall>t \<in> set (pl_targets p). nd_phase (node_at r (tg_name t)) = ''present'')"

lemma all_present_stamp [simp]: "all_present p (stamp t r) = all_present p r"
  by (simp add: all_present_def)

lemma all_present_address [simp]:
  "all_present p r \<Longrightarrow> all_present p (set_node x ((node_at r x)\<lparr>nd_address := a\<rparr>) r)"
  by (simp add: all_present_def)

text \<open>What discovery guarantees for the addresses it returns, relative to a record.\<close>

definition matches_journal :: "plan \<Rightarrow> oprec \<Rightarrow> string \<Rightarrow> eip \<Rightarrow> bool" where
  "matches_journal p r x a \<longleftrightarrow> x \<in> tg_name ` set (pl_targets p) \<and> ea_alloc a \<noteq> [] \<and> valid_ipv4 (ea_ip a) \<and>
     (\<exists>ad. nd_address (node_at r x) = Some ad \<and>
       (ad_allocation ad = [] \<or> ad_allocation ad = ea_alloc a \<and> ad_public_ip ad = ea_ip a))"

definition known :: "plan \<Rightarrow> oprec \<Rightarrow> eip_map \<Rightarrow> bool" where
  "known p r found \<longleftrightarrow> (\<forall>x a. fmlookup found x = Some a \<longrightarrow> matches_journal p r x a)"

lemma known_stamp [simp]: "known p (stamp t r) found = known p r found"
  by (simp add: known_def matches_journal_def)

lemma known_address:
  assumes "known p r found" and "fmlookup found x = Some a"
    and "ad_allocation ad = ea_alloc a" "ad_public_ip ad = ea_ip a"
  shows "known p (set_node x ((node_at r x)\<lparr>nd_address := Some ad\<rparr>) r) found"
  using assms by (auto simp: known_def matches_journal_def)

lemma check_address_known:
  assumes "check_address p r live st a = Inr st'" and "known p r (snd st)"
  shows "known p r (snd st')"
proof -
  obtain ids found where st: "st = (ids, found)" by (cases st)
  obtain m where m: "read_tags (ea_tags a) = Inr m"
    using assms(1) by (auto simp: st check_address_def res_simps)
  obtain t where t: "find_target p (mget m ''dashnet:node'') = Some t"
    using assms(1) m by (cases "find_target p (mget m ''dashnet:node'')") (auto simp: st check_address_def)
  obtain ad where ad: "nd_address (node_at r (tg_name t)) = Some ad"
    using assms(1) m t
    by (cases "nd_address (node_at r (tg_name t))") (auto simp: st check_address_def Let_def split: if_splits)
  have c: "ea_alloc a \<noteq> []" "valid_ipv4 (ea_ip a)"
      "ad_allocation ad = [] \<or> ad_allocation ad = ea_alloc a \<and> ad_public_ip ad = ea_ip a"
    and st': "snd st' = fmupd (tg_name t) a found"
    using assms(1) m t ad by (auto simp: st check_address_def Let_def res_simps split: if_splits)
  have "t \<in> set (pl_targets p)" using find_target_name [OF t] by simp
  then have "matches_journal p r (tg_name t) a" using ad c by (auto simp: matches_journal_def)
  with assms(2) show ?thesis by (simp add: known_def st st')
qed

lemma wp_discover_addresses:
  assumes I: "pinv H R p w"
    and Q: "\<And>found w'. pinv H R p w' \<Longrightarrow> pw_rec w' = pw_rec w \<Longrightarrow> last_saved w' = last_saved w \<Longrightarrow>
      known p r found \<Longrightarrow> Q found w'"
    and E: "\<And>e w'. pinv H R p w' \<Longrightarrow> E e w'"
  shows "wp (discover_addresses p r live) Q E w"
proof -
  have I': "pinv H R p (w\<lparr>hist := (QAddresses, a) # hist w\<rparr>)" for a by (rule pinv_ask [OF I]) simp_all
  have k: "known p r (snd st)" if "scan_ok (check_address p r live) ([], fmempty) as = Inr st" for st as
    by (rule scan_ok_invariant [OF that, where P = "\<lambda>st. known p r (snd st)"])
       (auto simp: known_def intro: check_address_known [unfolded known_def, rule_format])
  show ?thesis
    unfolding discover_addresses_def
    using I' k by (auto simp: wp_rules Let_def split: sum.splits option.splits prod.splits intro!: Q E)
qed

text \<open>One step that rewrites the address of a planned, present target.\<close>

lemma pinv_address:
  assumes I: "pinv H R p w" and P: "pooled p" "all_present p (pw_rec w)" and t: "t \<in> set (pl_targets p)"
    and ad: "case a of None \<Rightarrow> True | Some ad \<Rightarrow> good_address ad"
  shows "pinv H R p (w\<lparr>pw_rec := set_node (tg_name t) ((node_at (pw_rec w) (tg_name t))\<lparr>nd_address := a\<rparr>) (pw_rec w)\<rparr>)"
proof (rule pinv_put [OF I])
  have n: "nd_phase (node_at (pw_rec w) (tg_name t)) = ''present''" using P(2) t by (simp add: all_present_def)
  show "tg_name t \<in> tg_name ` set (pl_targets p)" using t by simp
  show "check_node ((node_at (pw_rec w) (tg_name t))\<lparr>nd_address := a\<rparr>) = Inr ()"
    using pinv_node(1) [OF I t] by simp
  show "validate_address p ((node_at (pw_rec w) (tg_name t))\<lparr>nd_address := a\<rparr>) = Inr ()"
    using n ad by (simp add: validate_address_iff [OF P(1)])
qed

lemma pinv_good_address:
  assumes "pinv H R p w" "pooled p" "all_present p (pw_rec w)" "t \<in> set (pl_targets p)"
    and "nd_address (node_at (pw_rec w) (tg_name t)) = Some ad"
  shows "good_address ad"
proof -
  have "nd_phase (node_at (pw_rec w) (tg_name t)) = ''present''" using assms(3,4) by (simp add: all_present_def)
  then show ?thesis
    using pinv_node(2) [OF assms(1,4)] assms(5) by (simp add: validate_address_iff [OF assms(2)])
qed

lemma good_intended [simp]: "good_address (intended t) \<longleftrightarrow> t \<noteq> 0"
  by (simp add: good_address_def intended_def)

lemma wp_check_earlier: "Q () w \<Longrightarrow> (\<And>e. E e w) \<Longrightarrow> wp (check_earlier x n) Q E w"
  by (auto simp: check_earlier_def wp_rules now_def split: option.splits)

lemma wp_refused_allocation:
  assumes "pinv H R p w" "pooled p" "all_present p (pw_rec w)" "t \<in> set (pl_targets p)"
    and E: "\<And>e w'. pinv H R p w' \<Longrightarrow> E e w'"
  shows "wp (refused_allocation (checkpoint owner) (tg_name t) e) Q E w"
proof -
  have I: "pinv H R p (w\<lparr>pw_rec := set_node (tg_name t) ((node_at (pw_rec w) (tg_name t))\<lparr>nd_address := None\<rparr>) (pw_rec w)\<rparr>)"
    by (rule pinv_address [OF assms(1-4)]) simp
  show ?thesis
    unfolding refused_allocation_def
    by (simp add: wp_rules) (rule wp_checkpoint [OF I]; simp add: wp_rules E)
qed

lemma upd_address_Some:
  "nd_address (node_at (pw_rec w) x) = Some ad \<Longrightarrow>
   wp (upd_address x f) Q E w =
     Q () (w\<lparr>pw_rec := set_node x ((node_at (pw_rec w) x)\<lparr>nd_address := Some (f ad)\<rparr>) (pw_rec w)\<rparr>)"
  by (simp add: upd_address_def wp_rules Let_def)

lemma wp_rediscover:
  assumes "pinv H R p w"
    and Q: "\<And>found w'. pinv H R p w' \<Longrightarrow> pw_rec w' = pw_rec w \<Longrightarrow> last_saved w' = last_saved w \<Longrightarrow>
      known p (pw_rec w) found \<Longrightarrow> Q found w'"
    and "\<And>e w'. pinv H R p w' \<Longrightarrow> E e w'"
  shows "wp (rediscover p live) Q E w"
  unfolding rediscover_def using assms by (simp add: wp_rules) (rule wp_discover_addresses)

lemma wp_try_call:
  "wp (bnd (attempt (call q f)) k) Q E w =
     wp (k (f (answer (env w) (hist w) q))) Q E (w\<lparr>hist := (q, answer (env w) (hist w) q) # hist w\<rparr>)"
  by (simp add: wp_rules Let_def split: sum.splits)

lemma wp_allocate:
  assumes I: "pinv H R p w" and P: "pooled p" "all_present p (pw_rec w)" and t: "t \<in> set (pl_targets p)"
    and Q: "\<And>a found w'. pinv H R p w' \<Longrightarrow> all_present p (pw_rec w') \<Longrightarrow> known p (pw_rec w') found \<Longrightarrow>
      fmlookup found (tg_name t) = Some a \<Longrightarrow> Q (a, found) w'"
    and E: "\<And>e w'. pinv H R p w' \<Longrightarrow> E e w'"
  shows "wp (allocate p live (checkpoint owner) t) Q E w"
proof -
  let ?x = "tg_name t" and ?t = "clock (env w) (hist w)"
  define w1 where "w1 = w\<lparr>pw_rec := set_node ?x ((node_at (pw_rec w) ?x)\<lparr>nd_address := Some (intended ?t)\<rparr>) (pw_rec w)\<rparr>"
  have I1: "pinv H R p w1"
    unfolding w1_def using pinv_clock [OF I] by (intro pinv_address [OF I P t]) simp
  have P1: "all_present p (pw_rec w1)" using P(2) by (simp add: w1_def)
  have ad1: "nd_address (node_at (pw_rec w1) ?x) = Some (intended ?t)" by (simp add: w1_def)
  let ?q = "QAllocate (sorted_list_of_fmap (tags p t))"
  define ask_alloc where "ask_alloc = (\<lambda>out. case out of
       Inl e \<Rightarrow> if rejected e then refused_allocation (checkpoint owner) ?x e
         else fail (At ''allocate IPAM address (outcome may be uncertain)'' e)
     | Inr None \<Rightarrow> fail (Err ''invalid allocation reply; reconcile tagged intent before retrying'')
     | Inr (Some (i, ip)) \<Rightarrow>
         sq (reject_if (i = [] \<or> \<not> valid_ipv4 ip)
           (Err ''invalid allocation reply; reconcile tagged intent before retrying''))
         (sq (upd_address ?x (\<lambda>ad. ad\<lparr>ad_allocation := i, ad_public_ip := ip, ad_phase := ''allocated''\<rparr>))
         (sq (checkpoint owner)
         (bnd (rediscover p live) (\<lambda>found. case fmlookup found ?x of
           None \<Rightarrow> fail (Err ''allocated address not yet visible; resume reconciliation'')
         | Some a \<Rightarrow> ret (a, found))))))"
  have after_save: "wp (bnd (attempt (call ?q as_allocated)) ask_alloc) Q E w2"
    if I2: "pinv H R p w2" and s2: "last_saved w2 = Some (pw_rec w2)" and r2: "pw_rec w2 = stamp t2 (pw_rec w1)" for w2 t2
  proof -
    have P2: "all_present p (pw_rec w2)" using P1 by (simp add: r2)
    have ad2: "nd_address (node_at (pw_rec w2) ?x) = Some (intended ?t)" using ad1 by (simp add: r2)
    have "announces H (pw_rec w2) (Allocate (sorted_list_of_fmap (tags p t)))"
      using t ad2 pinv_plan [OF I2] by (auto simp: address_in_def intended_def intro!: bexI [of _ t])
    then have I3: "pinv H R p (w2\<lparr>hist := (?q, a) # hist w2\<rparr>)" for a
      by (intro pinv_mutate [OF I2 s2]) auto
    let ?w = "w2\<lparr>hist := (?q, answer (env w2) (hist w2) ?q) # hist w2\<rparr>"
    have P3: "all_present p (pw_rec ?w)" and ad3: "nd_address (node_at (pw_rec ?w) ?x) = Some (intended ?t)"
      using P2 ad2 by simp_all
    have done_alloc: "wp (ask_alloc (Inr (Some (i, ip)))) Q E ?w" for i ip
    proof (cases "i = [] \<or> \<not> valid_ipv4 ip")
      case True
      then show ?thesis by (simp add: ask_alloc_def wp_rules E [OF I3])
    next
      case False
      let ?a = "(intended ?t)\<lparr>ad_allocation := i, ad_public_ip := ip, ad_phase := ''allocated''\<rparr>"
      have g: "good_address ?a" using False pinv_clock [OF I] by (simp add: good_address_def intended_def)
      define w4 where "w4 = ?w\<lparr>pw_rec := set_node ?x ((node_at (pw_rec ?w) ?x)\<lparr>nd_address := Some ?a\<rparr>) (pw_rec ?w)\<rparr>"
      have I4: "pinv H R p w4" unfolding w4_def by (rule pinv_address [OF I3 P(1) P3 t]) (simp add: g)
      have P4: "all_present p (pw_rec w4)" using P3 unfolding w4_def by simp
      have "wp (sq (checkpoint owner) (bnd (rediscover p live) (\<lambda>found. case fmlookup found ?x of
           None \<Rightarrow> fail (Err ''allocated address not yet visible; resume reconciliation'')
         | Some a \<Rightarrow> ret (a, found)))) Q E w4"
        unfolding wp_sq wp_bnd
        by (rule wp_checkpoint [OF I4], rule wp_rediscover)
           (auto simp: wp_rules E P4 split: option.splits intro!: Q)
      then show ?thesis
        using False by (simp add: ask_alloc_def wp_sq wp_reject_if upd_address_Some [OF ad3] w4_def)
    qed
    show ?thesis
      unfolding wp_try_call
    proof (cases "as_allocated (answer (env w2) (hist w2) ?q)")
      case (Inl e)
      then show "wp (ask_alloc (as_allocated (answer (env w2) (hist w2) ?q))) Q E ?w"
        using wp_refused_allocation [where E = E and Q = Q, OF I3 P(1) P3 t E] I3
        by (auto simp: ask_alloc_def wp_fail E)
    next
      case (Inr out)
      then show "wp (ask_alloc (as_allocated (answer (env w2) (hist w2) ?q))) Q E ?w"
        using done_alloc I3 by (cases out) (auto simp: ask_alloc_def wp_fail E)
    qed
  qed
  have eq: "allocate p live (checkpoint owner) t = bnd (get_node ?x) (\<lambda>n. sq (check_earlier ?x n) (bnd now (\<lambda>ts.
     sq (put_node ?x (n\<lparr>nd_address := Some (intended ts)\<rparr>)) (sq (checkpoint owner)
     (bnd (attempt (call ?q as_allocated)) ask_alloc)))))"
    by (simp add: allocate_def ask_alloc_def Let_def)
  have "wp (checkpoint owner) (\<lambda>_. wp (bnd (attempt (call ?q as_allocated)) ask_alloc) Q E) E w1"
    by (rule wp_checkpoint [OF I1], rule after_save) (auto intro: E)
  then show ?thesis
    unfolding eq wp_bnd [of "get_node ?x"] wp_get_node wp_sq [of "check_earlier _ _"]
    by (intro wp_check_earlier) (simp_all add: now_def wp_bnd [of "gets _"] wp_gets wp_sq wp_put_node E [OF I] flip: w1_def)
qed

text \<open>A target whose journaled address is the discovered one.\<close>

definition settled :: "oprec \<Rightarrow> string \<Rightarrow> eip \<Rightarrow> bool" where
  "settled r x a \<longleftrightarrow> (\<exists>ad. nd_address (node_at r x) = Some ad \<and> ad_allocation ad = ea_alloc a \<and> ad_public_ip ad = ea_ip a)"

lemma settled_stamp [simp]: "settled (stamp t r) x a = settled r x a"
  by (simp add: settled_def)

lemma settled_known:
  assumes "known p r found" "fmlookup found x = Some a" "nd_address (node_at r x) = Some ad" "ad_allocation ad \<noteq> []"
  shows "settled r x a"
  using assms by (fastforce simp: known_def matches_journal_def settled_def)

lemma wp_adopt:
  assumes I: "pinv H R p w" and P: "pooled p" "all_present p (pw_rec w)" and t: "t \<in> set (pl_targets p)"
    and k: "known p (pw_rec w) found" "fmlookup found (tg_name t) = Some a"
    and Q: "\<And>w'. pinv H R p w' \<Longrightarrow> all_present p (pw_rec w') \<Longrightarrow> known p (pw_rec w') found \<Longrightarrow>
      settled (pw_rec w') (tg_name t) a \<Longrightarrow> Q () w'"
    and E: "\<And>e w'. pinv H R p w' \<Longrightarrow> E e w'"
  shows "wp (adopt (checkpoint owner) (tg_name t) a) Q E w"
proof -
  obtain ad where ad: "nd_address (node_at (pw_rec w) (tg_name t)) = Some ad"
    and m: "ea_alloc a \<noteq> []" "valid_ipv4 (ea_ip a)"
    using k by (fastforce simp: known_def matches_journal_def)
  have g: "good_address ad" by (rule pinv_good_address [OF I P t ad])
  show ?thesis
  proof (cases "ad_phase ad = ''allocating''")
    case False
    then have "settled (pw_rec w) (tg_name t) a"
      using g by (intro settled_known [OF k ad]) (auto simp: good_address_def)
    then show ?thesis using False ad by (simp add: adopt_def wp_rules Q [OF I P(2) k(1)])
  next
    case True
    let ?ad = "ad\<lparr>ad_allocation := ea_alloc a, ad_public_ip := ea_ip a, ad_phase := ''allocated''\<rparr>"
    define w1 where "w1 = w\<lparr>pw_rec := set_node (tg_name t) ((node_at (pw_rec w) (tg_name t))\<lparr>nd_address := Some ?ad\<rparr>) (pw_rec w)\<rparr>"
    have I1: "pinv H R p w1" unfolding w1_def
      by (rule pinv_address [OF I P t]) (use g m in \<open>simp add: good_address_def\<close>)
    have P1: "all_present p (pw_rec w1)" using P(2) by (simp add: w1_def)
    have k1: "known p (pw_rec w1) found" unfolding w1_def by (simp add: known_address [OF k])
    have s1: "settled (pw_rec w1) (tg_name t) a" by (simp add: w1_def settled_def)
    have "wp (checkpoint owner) Q E w1"
      by (rule wp_checkpoint [OF I1]) (auto intro!: Q simp: P1 k1 s1 E)
    then show ?thesis
      using True ad by (simp add: adopt_def wp_bnd wp_get_node wp_sq upd_address_Some [OF ad] w1_def)
  qed
qed

lemma wp_associate:
  assumes I: "pinv H R p w" and P: "pooled p" "all_present p (pw_rec w)" and t: "t \<in> set (pl_targets p)"
    and k: "known p (pw_rec w) found" "fmlookup found (tg_name t) = Some a" and s: "settled (pw_rec w) (tg_name t) a"
    and Q: "\<And>a' found' w'. pinv H R p w' \<Longrightarrow> all_present p (pw_rec w') \<Longrightarrow> known p (pw_rec w') found' \<Longrightarrow>
      fmlookup found' (tg_name t) = Some a' \<Longrightarrow> settled (pw_rec w') (tg_name t) a' \<Longrightarrow> ea_assoc a' \<noteq> [] \<Longrightarrow> Q (a', found') w'"
    and E: "\<And>e w'. pinv H R p w' \<Longrightarrow> E e w'"
  shows "wp (associate p live (checkpoint owner) (tg_name t) a found) Q E w"
proof (cases "ea_assoc a = []")
  case False
  then show ?thesis by (simp add: associate_def wp_rules Q [OF I P(2) k s])
next
  case True
  let ?x = "tg_name t"
  obtain ad where ad: "nd_address (node_at (pw_rec w) ?x) = Some ad" and al: "ad_allocation ad = ea_alloc a" "ad_public_ip ad = ea_ip a"
    using s by (auto simp: settled_def)
  have m: "ea_alloc a \<noteq> []" "valid_ipv4 (ea_ip a)" using k by (auto simp: known_def matches_journal_def)
  have g: "good_address ad" by (rule pinv_good_address [OF I P t ad])
  let ?ad = "ad\<lparr>ad_phase := ''associating''\<rparr>"
  define w1 where "w1 = w\<lparr>pw_rec := set_node ?x ((node_at (pw_rec w) ?x)\<lparr>nd_address := Some ?ad\<rparr>) (pw_rec w)\<rparr>"
  have I1: "pinv H R p w1" unfolding w1_def
    by (rule pinv_address [OF I P t]) (use g m al in \<open>simp add: good_address_def\<close>)
  have P1: "all_present p (pw_rec w1)" using P(2) by (simp add: w1_def)
  have n1: "nd_address (node_at (pw_rec w1) ?x) = Some ?ad" "nd_instance (node_at (pw_rec w1) ?x) = nd_instance (node_at (pw_rec w) ?x)"
    by (simp_all add: w1_def)
  let ?q = "QAssociate (ea_alloc a) (nd_instance (node_at (pw_rec w) ?x))"
  let ?rest = "bnd (rediscover p live) (\<lambda>found2. case fmlookup found2 ?x of
      None \<Rightarrow> fail (At ?x (Err ''association not yet visible; resume reconciliation''))
    | Some a2 \<Rightarrow> if ea_assoc a2 = [] then fail (At ?x (Err ''association not yet visible; resume reconciliation''))
        else ret (a2, found2))"
  have after_save: "wp (sq (wrap ''associate IPAM address'' (call ?q as_unit)) ?rest) Q E w2"
    if I2: "pinv H R p w2" and s2: "last_saved w2 = Some (pw_rec w2)" and r2: "pw_rec w2 = stamp t2 (pw_rec w1)" for w2 t2
  proof -
    have n2: "nd_address (node_at (pw_rec w2) ?x) = Some ?ad" "nd_instance (node_at (pw_rec w2) ?x) = nd_instance (node_at (pw_rec w) ?x)"
      and P2: "all_present p (pw_rec w2)"
      using n1 P1 by (simp_all add: r2)
    have "announces H (pw_rec w2) (Associate (ea_alloc a) (nd_instance (node_at (pw_rec w) ?x)))"
      using t n2 al pinv_plan [OF I2] by (auto simp: address_in_def intro!: bexI [of _ t])
    then have I3: "pinv H R p (w2\<lparr>hist := (?q, b) # hist w2\<rparr>)" for b
      by (intro pinv_mutate [OF I2 s2]) auto
    let ?w = "w2\<lparr>hist := (?q, answer (env w2) (hist w2) ?q) # hist w2\<rparr>"
    have "wp ?rest Q E ?w"
      unfolding wp_bnd
    proof (rule wp_rediscover [OF I3])
      fix found2 w4
      assume I4: "pinv H R p w4" and r4: "pw_rec w4 = pw_rec ?w" and k4: "known p (pw_rec ?w) found2"
      have P4: "all_present p (pw_rec w4)" and n4: "nd_address (node_at (pw_rec w4) ?x) = Some ?ad"
        using P2 n2 r4 by simp_all
      have k4': "known p (pw_rec w4) found2" using k4 r4 by simp
      have "settled (pw_rec w4) ?x a2" if "fmlookup found2 ?x = Some a2" for a2
        using m al by (intro settled_known [OF k4' that n4]) simp
      then show "wp (case fmlookup found2 ?x of
          None \<Rightarrow> fail (At ?x (Err ''association not yet visible; resume reconciliation''))
        | Some a2 \<Rightarrow> if ea_assoc a2 = [] then fail (At ?x (Err ''association not yet visible; resume reconciliation''))
            else ret (a2, found2)) Q E w4"
        using I4 P4 k4' by (auto simp: wp_rules E split: option.splits intro!: Q)
    qed (rule E)
    then show ?thesis using I3 by (auto simp: wp_sq wp_wrap wp_call Let_def E split: sum.splits)
  qed
  have "wp (checkpoint owner) (\<lambda>_. wp (sq (wrap ''associate IPAM address'' (call ?q as_unit)) ?rest) Q E) E w1"
    by (rule wp_checkpoint [OF I1], rule after_save) (auto intro: E)
  then show ?thesis
    using True E [OF I]
    by (simp add: associate_def wp_bnd [of "get_node _"] wp_get_node wp_sq [of "reject_if _ _"] wp_reject_if
        wp_sq [of "upd_address _ _"] upd_address_Some [OF ad] wp_sq [of "checkpoint _"] flip: w1_def)
qed

lemma wp_ensure_target:
  assumes I: "pinv H R p w" and P: "pooled p" "all_present p (pw_rec w)" and t: "t \<in> set (pl_targets p)"
    and k: "known p (pw_rec w) found"
    and Q: "\<And>found' w'. pinv H R p w' \<Longrightarrow> all_present p (pw_rec w') \<Longrightarrow> known p (pw_rec w') found' \<Longrightarrow> Q found' w'"
    and E: "\<And>e w'. pinv H R p w' \<Longrightarrow> E e w'"
  shows "wp (ensure_target p live (checkpoint owner) t found) Q E w"
proof -
  let ?x = "tg_name t"
  have finish: "wp (sq (upd_address ?x (\<lambda>ad. ad\<lparr>ad_phase := ''associated'', ad_association := ea_assoc a\<rparr>))
      (sq (checkpoint owner) (ret found'))) Q E v"
    if v: "pinv H R p v" "all_present p (pw_rec v)" "known p (pw_rec v) found'" "fmlookup found' ?x = Some a"
      "settled (pw_rec v) ?x a" "ea_assoc a \<noteq> []" for a found' v
  proof -
    obtain ad where ad: "nd_address (node_at (pw_rec v) ?x) = Some ad" "ad_allocation ad = ea_alloc a" "ad_public_ip ad = ea_ip a"
      using v(5) by (auto simp: settled_def)
    have m: "ea_alloc a \<noteq> []" "valid_ipv4 (ea_ip a)" using v(3,4) by (auto simp: known_def matches_journal_def)
    have g: "good_address ad" by (rule pinv_good_address [OF v(1) P(1) v(2) t ad(1)])
    let ?ad = "ad\<lparr>ad_phase := ''associated'', ad_association := ea_assoc a\<rparr>"
    define v1 where "v1 = v\<lparr>pw_rec := set_node ?x ((node_at (pw_rec v) ?x)\<lparr>nd_address := Some ?ad\<rparr>) (pw_rec v)\<rparr>"
    have I1: "pinv H R p v1" unfolding v1_def
      by (rule pinv_address [OF v(1) P(1) v(2) t]) (use g m ad v(6) in \<open>simp add: good_address_def\<close>)
    have k1: "known p (pw_rec v1) found'" unfolding v1_def using known_address [OF v(3,4), of ?ad] ad by simp
    have P1: "all_present p (pw_rec v1)" using v(2) by (simp add: v1_def)
    have "wp (sq (checkpoint owner) (ret found')) Q E v1"
      unfolding wp_sq by (rule wp_checkpoint [OF I1]) (auto simp: wp_ret E k1 P1 intro!: Q)
    then show ?thesis by (simp add: wp_sq [of "upd_address _ _"] upd_address_Some [OF ad(1)] v1_def)
  qed
  have main: "wp (sq (adopt (checkpoint owner) ?x a)
     (bnd (associate p live (checkpoint owner) ?x a found') (\<lambda>(a, found).
     sq (upd_address ?x (\<lambda>ad. ad\<lparr>ad_phase := ''associated'', ad_association := ea_assoc a\<rparr>))
     (sq (checkpoint owner) (ret found))))) Q E v"
    if v: "pinv H R p v" "all_present p (pw_rec v)" "known p (pw_rec v) found'" "fmlookup found' ?x = Some a" for a found' v
    unfolding wp_sq [of "adopt _ _ _"] wp_bnd
    by (rule wp_adopt [OF v(1) P(1) v(2) t v(3,4)], rule wp_associate [OF _ P(1) _ t])
       (use finish v in \<open>auto simp: E\<close>)
  have start: "wp (case fmlookup found ?x of Some a \<Rightarrow> ret (a, found) | None \<Rightarrow> allocate p live (checkpoint owner) t)
     (\<lambda>(a, found). wp (sq (adopt (checkpoint owner) ?x a)
     (bnd (associate p live (checkpoint owner) ?x a found) (\<lambda>(a, found).
     sq (upd_address ?x (\<lambda>ad. ad\<lparr>ad_phase := ''associated'', ad_association := ea_assoc a\<rparr>))
     (sq (checkpoint owner) (ret found))))) Q E) E w"
  proof (cases "fmlookup found ?x")
    case None
    then show ?thesis by (simp, intro wp_allocate [OF I P t]) (use main in \<open>auto simp: E\<close>)
  next
    case (Some a)
    then show ?thesis using main [OF I P(2) k Some] by (simp add: wp_ret)
  qed
  have pair: "(\<lambda>x. wp (case x of (a, b) \<Rightarrow> f a b) Q E) = (\<lambda>(a, b). wp (f a b) Q E)" for f :: "eip \<Rightarrow> eip_map \<Rightarrow> eip_map poper"
    by (auto simp: fun_eq_iff)
  show ?thesis
    unfolding ensure_target_def Let_def ctx_done_def wp_bnd [of "gets _"] wp_gets wp_sq [of "reject_if _ _"] wp_reject_if
      wp_bnd [of "case_option _ _ _"] pair
    using start E [OF I] by simp
qed

lemma wp_ensure_loop:
  assumes "pinv H R p w" and P: "pooled p" and "all_present p (pw_rec w)" and "set ts \<subseteq> set (pl_targets p)"
    and "known p (pw_rec w) found"
    and Q: "\<And>w'. pinv H R p w' \<Longrightarrow> Q () w'" and E: "\<And>e w'. pinv H R p w' \<Longrightarrow> E e w'"
  shows "wp (ensure_loop p live (checkpoint owner) ts found) Q E w"
  using assms(1,3-5)
proof (induction ts arbitrary: found w)
  case Nil
  then show ?case by (simp add: wp_rules Q)
next
  case (Cons t ts)
  have t: "t \<in> set (pl_targets p)" and ts: "set ts \<subseteq> set (pl_targets p)" using Cons.prems(3) by auto
  show ?case
    unfolding ensure_loop.simps wp_bnd
    by (rule wp_ensure_target [OF Cons.prems(1) P Cons.prems(2) t Cons.prems(4)])
       (auto intro!: Cons.IH [OF _ _ ts] E)
qed

lemma wp_ensure_addresses:
  assumes I: "pinv H R p w" and P: "pooled p" "all_present p (pw_rec w)"
    and Q: "\<And>w'. pinv H R p w' \<Longrightarrow> Q () w'" and E: "\<And>e w'. pinv H R p w' \<Longrightarrow> E e w'"
  shows "wp (ensure_addresses p live (checkpoint owner)) Q E w"
  unfolding ensure_addresses_def wp_bnd wp_lift
  by (rule wp_rediscover [OF I])
     (auto split: sum.splits simp: P E intro!: wp_ensure_loop [OF _ P(1)] Q)

end
