(* ===== verification/Provision.thy ===== *)
theory Provision
  imports Ipam_Safety
begin

text \<open>
  \<open>internal/provision/runner.go\<close>: \<open>Execute\<close>, the EC2 executor. The journal is claimed, the live
  footprint is verified and reconciled before anything changes, each launch is announced by a
  checkpoint, and a deferred function records an interruption and releases the claim. Also
  \<open>RunningTargets\<close> of \<open>bootstrap.go\<close>. The bounds \<open>fuel\<close> (polls) and \<open>dfuel\<close> (pages of one
  discovery) are the model's; \<open>discovery_ends\<close> tells when the latter is enough.
\<close>

section \<open>The executor\<close>

definition cleanup_began :: "oprec \<Rightarrow> bool" where
  "cleanup_began r \<longleftrightarrow> \<not> fmpred (\<lambda>_ n. case nd_address n of None \<Rightarrow> True
     | Some ad \<Rightarrow> ad_phase ad \<noteq> ''releasing'' \<and> ad_phase ad \<noteq> ''released'') (rc_nodes r)"

definition started :: "string \<Rightarrow> string \<Rightarrow> oprec \<Rightarrow> oprec" where
  "started owner version r = r\<lparr>rc_runner := owner, rc_cli := version, rc_phase := ''provisioning'', rc_error := None\<rparr>"

definition launch_target :: "hasher \<Rightarrow> plan \<Rightarrow> string \<Rightarrow> target \<Rightarrow> unit poper" where
  "launch_target H p owner t = (let x = tg_name t in
     bnd (get_node x) (\<lambda>n.
     if nd_phase n = ''present'' then ret ()
     else bnd ctx_done (\<lambda>d. sq (reject_if d Cancelled)
       (bnd now (\<lambda>at. let n1 = n\<lparr>nd_phase := ''launching'', nd_attempted := at\<rparr> in
        sq (put_node x n1)
        (sq (checkpoint owner)
        (bnd (wrap ''launch (outcome may be uncertain; resume reconciles, never blindly relaunches)'' (launch H p t)) (\<lambda>i.
        bnd now (\<lambda>seen.
        sq (put_node x (n1\<lparr>nd_instance := i, nd_phase := ''present'', nd_state := ''pending'', nd_observed := seen\<rparr>))
        (checkpoint owner))))))))))"

definition all_running :: "oprec \<Rightarrow> bool" where
  "all_running r \<longleftrightarrow> fmpred (\<lambda>_ n. nd_state n = ''running'') (rc_nodes r)"

fun wait_running :: "hasher \<Rightarrow> plan \<Rightarrow> nat \<Rightarrow> nat \<Rightarrow> string \<Rightarrow> unit poper" where
  "wait_running H p dfuel 0 owner = fail OutOfFuel"
| "wait_running H p dfuel (Suc fuel) owner =
     bnd (discover H dfuel p) (\<lambda>live.
     sq (reconcile p live True)
     (bnd (gets (all_running \<circ> pw_rec)) (\<lambda>ready.
     sq (if ready \<and> fp_public (footprint_of p) then ensure_addresses p live (checkpoint owner) else ret ())
     (sq (if ready then set_rec (\<lambda>r. r\<lparr>rc_phase := ''compute-ready''\<rparr>) else ret ())
     (sq (checkpoint owner)
     (if ready then ret () else sq (call QSleep as_unit) (wait_running H p dfuel fuel owner)))))))"

definition execute_body :: "hasher \<Rightarrow> image_refs \<Rightarrow> plan \<Rightarrow> nat \<Rightarrow> nat \<Rightarrow> string \<Rightarrow> string \<Rightarrow> unit poper" where
  "execute_body H R p dfuel fuel owner version =
     bnd (gets pw_rec) (\<lambda>r.
     sq (lift (validate_record H R p r))
     (sq (reject_if (rc_phase r = ''addresses-released'') (Err ''allocation retired; IPAM addresses have been released''))
     (sq (reject_if (cleanup_began r) (Err ''address cleanup began; provisioning cannot recreate the footprint''))
     (sq (set_rec (started owner version))
     (sq (checkpoint owner)
     (bnd (discover H dfuel p) (\<lambda>live.
     sq (reconcile p live False)
     (sq (if fp_public (footprint_of p) then bnd (rediscover p live) (\<lambda>_. ret ()) else ret ())
     (sq (checkpoint owner)
     (sq (foreach (pl_targets p) (launch_target H p owner))
     (wait_running H p dfuel fuel owner)))))))))))"

definition interrupted :: "gerr \<Rightarrow> oprec \<Rightarrow> oprec" where
  "interrupted e r = r\<lparr>rc_phase := ''interrupted'', rc_error := Some e\<rparr>"

text \<open>The deferred function, for the result of the body; \<open>ok\<close> is the validation it repeats.\<close>

definition release_claim :: "plan \<Rightarrow> string \<Rightarrow> unit res \<Rightarrow> unit poper" where
  "release_claim p owner res = bnd (attempt (call (QRelease p owner) as_unit)) (\<lambda>s. case (s, res) of
     (Inr _, _) \<Rightarrow> lift res
   | (Inl e2, Inl e) \<Rightarrow> fail (Joined [e, At ''release runner claim; inspect operation before retrying'' e2])
   | (Inl e2, Inr _) \<Rightarrow> fail (Joined [At ''release runner claim; inspect operation before retrying'' e2]))"

definition settle :: "(oprec \<Rightarrow> unit res) \<Rightarrow> plan \<Rightarrow> string \<Rightarrow> unit res \<Rightarrow> unit poper" where
  "settle ok p owner res =
     bnd (gets pw_rec) (\<lambda>r.
     bnd (case res of
         Inr _ \<Rightarrow> ret res
       | Inl e \<Rightarrow> if rc_phase r \<noteq> ''addresses-released'' \<and> ok r = Inr ()
           then sq (set_rec (interrupted e)) (bnd (attempt (checkpoint owner)) (\<lambda>s. case s of
             Inl e2 \<Rightarrow> ret (Inl (Joined [e, At ''save interruption'' e2])) | Inr _ \<Rightarrow> ret res))
           else ret res) (release_claim p owner))"

definition execute ::
  "hasher \<Rightarrow> image_refs \<Rightarrow> plan \<Rightarrow> nat \<Rightarrow> nat \<Rightarrow> string \<Rightarrow> string \<Rightarrow> gotime \<Rightarrow> unit poper" where
  "execute H R p dfuel fuel owner version poll =
     sq (lift (validate_plan H R p))
     (sq (reject_if (owner = [] \<or> poll \<le> 0) (Err ''runner ID and positive poll interval required''))
     (bnd (prepare H R (pl_network p)) (\<lambda>verified.
     sq (reject_if (pl_id verified \<noteq> pl_id p) (Err ''live footprint differs from approved plan; regenerate and review''))
     (bnd (wrap ''claim operation'' (call (QAcquire p owner) as_record)) (\<lambda>r.
     sq (set_rec (\<lambda>_. r))
     (bnd (attempt (execute_body H R p dfuel fuel owner version)) (settle (validate_record H R p) p owner)))))))"

section \<open>Running targets\<close>

definition running_target :: "oprec \<Rightarrow> live_map \<Rightarrow> target \<Rightarrow> bool" where
  "running_target r live t \<longleftrightarrow> (case fmlookup live (tg_name t) of None \<Rightarrow> False
     | Some i \<Rightarrow> nd_phase (node_at r (tg_name t)) = ''present'' \<and>
         in_id i = nd_instance (node_at r (tg_name t)) \<and> in_state i = Some ''running'')"

definition running_targets :: "hasher \<Rightarrow> image_refs \<Rightarrow> nat \<Rightarrow> plan \<Rightarrow> oprec \<Rightarrow> live_map poper" where
  "running_targets H R dfuel p r =
     sq (lift (validate_record H R p r))
     (sq (reject_if (rc_phase r \<noteq> ''compute-ready'') (Err ''bootstrap requires completed EC2 provisioning''))
     (bnd (discover H dfuel p) (\<lambda>live.
     sq (foreach (pl_targets p) (\<lambda>t. reject_if (\<not> running_target r live t)
       (At (tg_name t) (Err ''target is missing, changed, or not running''))))
     (ret live))))"

lemma keeps_wrap [keeps_intros, intro]: "keeps I m \<Longrightarrow> keeps I (wrap c m)"
  unfolding wrap_def by (intro keeps_bnd keeps_attempt keeps_case_sum keeps_fail keeps_ret)

lemma keeps_collect_roots: "(\<And>a. keeps I (check_arch_image f a)) \<Longrightarrow> keeps I (collect_roots f as m)"
  by (induction f as m rule: collect_roots.induct) (auto intro: keeps_ret keeps_bnd)

lemma keeps_check_types: "(\<And>g. keeps I (check_type g)) \<Longrightarrow> keeps I (check_types gs seen)"
  by (induction gs seen rule: check_types.induct) (auto simp: Let_def intro: keeps_ret keeps_sq)

section \<open>Inspections\<close>

text \<open>The requests of the preflight, and the invariants they cannot break.\<close>

definition inspects :: "preq \<Rightarrow> bool" where
  "inspects q \<longleftrightarrow> (case q of QIdentity \<Rightarrow> True | QPool _ \<Rightarrow> True | QSubnet _ \<Rightarrow> True | QGroups _ \<Rightarrow> True
     | QKey _ \<Rightarrow> True | QImage _ _ \<Rightarrow> True | QType _ \<Rightarrow> True | _ \<Rightarrow> False)"

locale inspection_invariant =
  fixes I :: "pworld \<Rightarrow> bool"
  assumes inspection: "inspects q \<Longrightarrow> I w \<Longrightarrow> I (w\<lparr>hist := (q, a) # hist w\<rparr>)"
begin

lemma keeps_inspection [intro]: "inspects q \<Longrightarrow> keeps I (call q f)"
  unfolding call_def
  by (rule keeps_bnd) (auto simp: keeps_def ask_def lift_def Let_def intro: inspection)

lemma keeps_prepare : "keeps I (prepare H R n)"
proof -
  have pool: "keeps I (verify_pool n f)" for f
    unfolding verify_pool_def by (intro keeps_bnd keeps_wrap keeps_inspection) (auto simp: inspects_def split: option.splits list.splits prod.splits)
  have sub: "keeps I (check_subnet n f)" for f
    unfolding check_subnet_def by (intro keeps_bnd keeps_wrap keeps_inspection) (auto simp: inspects_def split: option.splits list.splits)
  have grp: "keeps I (check_groups n f)" for f
    unfolding check_groups_def by (intro keeps_bnd keeps_wrap keeps_inspection) (auto simp: inspects_def split: option.splits)
  have key: "keeps I (check_key f)" for f
    unfolding check_key_def by (intro keeps_bnd keeps_wrap keeps_inspection) (auto simp: inspects_def)
  have img: "keeps I (check_arch_image f a)" for f a
    unfolding check_arch_image_def Let_def
    by (intro keeps_bnd keeps_wrap keeps_inspection) (auto simp: inspects_def split: option.splits list.splits)
  have tyi: "keeps I (check_type g)" for g
    unfolding check_type_def by (intro keeps_bnd keeps_wrap keeps_inspection) (auto simp: inspects_def split: option.splits list.splits)
  have acc: "keeps I (verify_account x)" for x
    unfolding verify_account_def by (intro keeps_bnd keeps_wrap keeps_inspection) (auto simp: inspects_def)
  show ?thesis
    unfolding prepare_def Let_def
    by (intro keeps_bnd keeps_sq keeps_lift keeps_case_option keeps_fail keeps_if keeps_ret keeps_reject_if
        keeps_collect_roots keeps_check_types pool sub grp key img tyi acc)
qed

end

section \<open>The executor keeps its invariant\<close>

lemma pinv_reconciled:
  assumes I: "pinv H R p w" and t: "t \<in> set (pl_targets p)"
    and i: "i \<noteq> []" and ph: "nd_phase (node_at (pw_rec w) (tg_name t)) \<noteq> ''pending''" and ts: "ts \<noteq> 0"
  shows "pinv H R p (w\<lparr>pw_rec := set_node (tg_name t) ((node_at (pw_rec w) (tg_name t))\<lparr>nd_instance := i,
    nd_phase := ''present'', nd_state := s, nd_observed := ts\<rparr>) (pw_rec w)\<rparr>)"
proof (rule pinv_put [OF I])
  let ?n = "node_at (pw_rec w) (tg_name t)"
  show "tg_name t \<in> tg_name ` set (pl_targets p)" using t by simp
  show "check_node (?n\<lparr>nd_instance := i, nd_phase := ''present'', nd_state := s, nd_observed := ts\<rparr>) = Inr ()"
    using pinv_node(1) [OF I t] ph i ts by (auto simp: check_node_iff)
  show "validate_address p (?n\<lparr>nd_instance := i, nd_phase := ''present'', nd_state := s, nd_observed := ts\<rparr>) = Inr ()"
    using pinv_node(2) [OF I t] by (auto simp: validate_address_def split: option.splits if_splits)
qed

lemma validate_address_cong:
  "nd_phase m = nd_phase n \<Longrightarrow> nd_address m = nd_address n \<Longrightarrow> validate_address p m = validate_address p n"
  by (simp only: validate_address_def)

lemma pinv_unknown:
  assumes I: "pinv H R p w" and t: "t \<in> set (pl_targets p)" and ts: "ts \<noteq> 0"
  shows "pinv H R p (w\<lparr>pw_rec := set_node (tg_name t) ((node_at (pw_rec w) (tg_name t))\<lparr>nd_state := s\<rparr>) (pw_rec w)\<rparr>)"
    and "pinv H R p (w\<lparr>pw_rec := set_node (tg_name t) ((node_at (pw_rec w) (tg_name t))\<lparr>nd_state := s,
      nd_observed := ts\<rparr>) (pw_rec w)\<rparr>)"
proof -
  let ?n = "node_at (pw_rec w) (tg_name t)"
  have a: "validate_address p (?n\<lparr>nd_state := s\<rparr>) = Inr ()" "validate_address p (?n\<lparr>nd_state := s, nd_observed := ts\<rparr>) = Inr ()"
    using pinv_node(2) [OF I t] validate_address_cong [of "?n\<lparr>nd_state := s\<rparr>" ?n p]
      validate_address_cong [of "?n\<lparr>nd_state := s, nd_observed := ts\<rparr>" ?n p] by simp_all
  show "pinv H R p (w\<lparr>pw_rec := set_node (tg_name t) (?n\<lparr>nd_state := s\<rparr>) (pw_rec w)\<rparr>)"
    using pinv_node(1) [OF I t] t by (intro pinv_put [OF I _ _ a(1)]) (auto simp: check_node_iff)
  show "pinv H R p (w\<lparr>pw_rec := set_node (tg_name t) (?n\<lparr>nd_state := s, nd_observed := ts\<rparr>) (pw_rec w)\<rparr>)"
    using pinv_node(1) [OF I t] t ts by (intro pinv_put [OF I _ _ a(2)]) (auto simp: check_node_iff)
qed

text \<open>What a reconciliation leaves: a running state only on a present target; without waiting, every
  target that was not pending is present.\<close>

definition reconciled :: "bool \<Rightarrow> oprec \<Rightarrow> oprec \<Rightarrow> string \<Rightarrow> bool" where
  "reconciled wait r0 r x \<longleftrightarrow>
     (wait \<longrightarrow> nd_state (node_at r x) = ''running'' \<longrightarrow> nd_phase (node_at r x) = ''present'') \<and>
     (\<not> wait \<longrightarrow> nd_phase (node_at r x) = ''present'' \<or>
        nd_phase (node_at r x) = ''pending'' \<and> nd_phase (node_at r0 x) = ''pending'')"

lemma reconciled_same:
  "node_at r' x = node_at r x \<Longrightarrow> reconciled wait r0 r x \<Longrightarrow> reconciled wait r0 r' x"
  "node_at r0' x = node_at r0 x \<Longrightarrow> reconciled wait r0 r x \<Longrightarrow> reconciled wait r0' r x"
  "reconciled wait r0 r x \<Longrightarrow> reconciled wait r r' x \<Longrightarrow> reconciled wait r0 r' x"
  by (auto simp: reconciled_def)

lemma wp_reconcile_target:
  assumes I: "pinv H R p w" and t: "t \<in> set (pl_targets p)" and live: "sound_live H p (ids, live)"
    and Q: "\<And>w'. pinv H R p w' \<Longrightarrow> hist w' = hist w \<Longrightarrow> reconciled wait (pw_rec w) (pw_rec w') (tg_name t) \<Longrightarrow>
      (\<forall>x. x \<noteq> tg_name t \<longrightarrow> node_at (pw_rec w') x = node_at (pw_rec w) x) \<Longrightarrow> Q () w'"
    and E: "\<And>e w'. pinv H R p w' \<Longrightarrow> E e w'"
  shows "wp (reconcile_target live wait t) Q E w"
proof (cases "fmlookup live (tg_name t)")
  case None
  have c: "clock (env w) (hist w) \<noteq> 0" by (rule pinv_clock [OF I])
  show ?thesis
    using pinv_unknown [OF I t c] None I
    by (auto simp: reconcile_target_def wp_rules E reconciled_def intro!: Q)
next
  case (Some i)
  have "in_id i \<noteq> []" using live Some by (auto simp: sound_live_def sound_inst_def)
  then show ?thesis
    using pinv_reconciled [OF I t _ _ pinv_clock [OF I]] Some I
    by (auto simp: reconcile_target_def wp_rules E reconciled_def intro!: Q)
qed

lemma wp_reconcile:
  assumes I: "pinv H R p w" and live: "sound_live H p (ids, live)"
    and Q: "\<And>w'. pinv H R p w' \<Longrightarrow> hist w' = hist w \<Longrightarrow>
      (\<forall>x \<in> tg_name ` set (pl_targets p). reconciled wait (pw_rec w) (pw_rec w') x) \<Longrightarrow> Q () w'"
    and E: "\<And>e w'. pinv H R p w' \<Longrightarrow> E e w'"
  shows "wp (reconcile p live wait) Q E w"
proof -
  let ?I = "\<lambda>ahead w'. pinv H R p w' \<and> hist w' = hist w \<and>
    (\<forall>x \<in> tg_name ` set ahead. reconciled wait (pw_rec w) (pw_rec w') x) \<and>
    (\<forall>x. x \<notin> tg_name ` set ahead \<longrightarrow> node_at (pw_rec w') x = node_at (pw_rec w) x)"
  have "wp (reconcile p live wait) (\<lambda>_. ?I (pl_targets p)) E w"
    unfolding reconcile_def
  proof (rule wp_foreach_done)
    show "?I [] w" using I by simp
    fix ahead t rest v
    assume s: "pl_targets p = ahead @ t # rest" and J: "?I ahead v"
    have t: "t \<in> set (pl_targets p)" using s by simp
    show "wp (reconcile_target live wait t) (\<lambda>_. ?I (ahead @ [t])) E v"
    proof (rule wp_reconcile_target [OF _ t live])
      show "pinv H R p v" using J by simp
      fix v' assume v': "pinv H R p v'" "hist v' = hist v" "reconciled wait (pw_rec v) (pw_rec v') (tg_name t)"
        "\<forall>x. x \<noteq> tg_name t \<longrightarrow> node_at (pw_rec v') x = node_at (pw_rec v) x"
      have x: "reconciled wait (pw_rec w) (pw_rec v') (tg_name t)"
        using v'(3) J reconciled_same(2,3) by metis
      have "reconciled wait (pw_rec w) (pw_rec v') y" if "y \<in> tg_name ` set (ahead @ [t])" for y
      proof (cases "y = tg_name t")
        case True
        then show ?thesis using x by simp
      next
        case False
        then have "reconciled wait (pw_rec w) (pw_rec v) y" using that J by auto
        then show ?thesis using v'(4) False reconciled_same(1) by metis
      qed
      then show "?I (ahead @ [t]) v'" using v'(1,2,4) J by auto
    qed (rule E)
  qed
  then show ?thesis by (rule wp_conseq) (auto intro: Q)
qed

lemma wp_discover:
  assumes "pinv H R p w"
    and Q: "\<And>live ids w'. pinv H R p w' \<Longrightarrow> pw_rec w' = pw_rec w \<Longrightarrow> sound_live H p (ids, live) \<Longrightarrow> Q live w'"
    and E: "\<And>e w'. pinv H R p w' \<Longrightarrow> E e w'"
  shows "wp (discover H dfuel p) Q E w"
proof -
  let ?I = "\<lambda>w'. pinv H R p w' \<and> pw_rec w' = pw_rec w"
  have "wp (discover H dfuel p) (\<lambda>live w'. (\<exists>ids. sound_live H p (ids, live)) \<and> ?I w') (\<lambda>_. ?I) w"
    unfolding discover_def by (rule wp_discover_pages) (use assms(1) in \<open>auto intro: pinv_ask\<close>)
  then show ?thesis by (rule wp_conseq) (auto intro: Q E)
qed

lemma pinv_header:
  assumes "pinv H R p w" and "rc_nodes s = rc_nodes (pw_rec w)" "same_application (pw_rec w) s"
    "rc_plan s = rc_plan (pw_rec w)" "rc_api s = rc_api (pw_rec w)" "rc_kind s = rc_kind (pw_rec w)"
    "rc_health s = rc_health (pw_rec w)" "rc_created s = rc_created (pw_rec w)" "rc_updated s = rc_updated (pw_rec w)"
    "rc_revision s = rc_revision (pw_rec w)" "rc_phase s \<in> set op_phases" "rc_phase s \<noteq> ''addresses-released''"
  shows "pinv H R p (w\<lparr>pw_rec := s\<rparr>)"
proof -
  have v: "validate_record H R p (pw_rec w) = Inr ()" using assms(1) by (simp add: pinv_def)
  then have c: "validate_compute H R p (pw_rec w) = Inr ()" by (simp add: validate_record_parts)
  have "validate_record H R p s = Inr ()"
    by (rule valid_header [OF v assms(3,2,4-8)])
       (simp_all add: assms(9-12) validate_compute_plan(9) [OF c] validate_compute_plan(10) [OF c])
  then show ?thesis using assms(1,12) by (simp add: pinv_def ticking_def)
qed

lemma wp_launch_target:
  assumes I: "pinv H R p w" and t: "t \<in> set (pl_targets p)"
    and Q: "\<And>w'. pinv H R p w' \<Longrightarrow> Q () w'" and E: "\<And>e w'. pinv H R p w' \<Longrightarrow> E e w'"
  shows "wp (launch_target H p owner t) Q E w"
proof (cases "nd_phase (node_at (pw_rec w) (tg_name t)) = ''present''")
  case True
  then show ?thesis by (simp add: launch_target_def Let_def wp_bnd wp_get_node wp_ret Q [OF I])
next
  case False
  let ?x = "tg_name t" and ?n = "node_at (pw_rec w) (tg_name t)" and ?at = "clock (env w) (hist w)"
  let ?n1 = "?n\<lparr>nd_phase := ''launching'', nd_attempted := ?at\<rparr>"
  have at: "?at \<noteq> 0" by (rule pinv_clock [OF I])
  have none: "nd_address ?n = None"
    using pinv_node(2) [OF I t] False by (auto simp: validate_address_def split: option.splits if_splits)
  have adr: "validate_address p m = Inr ()" if "nd_address m = None" for m
    using that by (simp add: validate_address_def)
  define w1 where "w1 = w\<lparr>pw_rec := set_node ?x ?n1 (pw_rec w)\<rparr>"
  have I1: "pinv H R p w1"
    unfolding w1_def using pinv_node(1) [OF I t] False at t none
    by (intro pinv_put [OF I]) (auto simp: check_node_iff intro: adr)
  let ?msg = "''launch (outcome may be uncertain; resume reconciles, never blindly relaunches)''"
  let ?rest = "\<lambda>i. bnd now (\<lambda>seen. sq (put_node ?x (?n1\<lparr>nd_instance := i, nd_phase := ''present'',
      nd_state := ''pending'', nd_observed := seen\<rparr>)) (checkpoint owner))"
  have after_save: "wp (bnd (wrap ?msg (launch H p t)) ?rest) Q E w2"
    if I2: "pinv H R p w2" and s2: "last_saved w2 = Some (pw_rec w2)" and r2: "pw_rec w2 = stamp ts (pw_rec w1)" for w2 ts
  proof -
    have "announces H (pw_rec w2) (Launch (run_input H p t))"
      using t pinv_plan [OF I2] by (auto simp: r2 w1_def intro!: bexI [of _ t])
    then have I3: "pinv H R p (w2\<lparr>hist := (QRun (run_input H p t), a) # hist w2\<rparr>)" for a
      by (intro pinv_mutate [OF I2 s2]) auto
    have fin: "wp (?rest i) Q E v" if v: "pinv H R p v" "i \<noteq> []" for i v
    proof -
      have "pinv H R p (v\<lparr>pw_rec := set_node ?x (?n1\<lparr>nd_instance := i, nd_phase := ''present'',
          nd_state := ''pending'', nd_observed := clock (env v) (hist v)\<rparr>) (pw_rec v)\<rparr>)"
        using v at t none pinv_clock [OF v(1)] by (intro pinv_put [OF v(1)]) (auto simp: check_node_iff intro: adr)
      then show ?thesis by (simp add: wp_bnd wp_now wp_sq wp_put_node) (rule wp_checkpoint, auto intro: Q E)
    qed
    show ?thesis
      using I3 fin
      by (auto simp: wp_bnd wp_wrap launch_def wp_call Let_def wp_fail wp_ret E split: sum.splits option.splits list.splits)
  qed
  have "wp (checkpoint owner) (\<lambda>_. wp (bnd (wrap ?msg (launch H p t)) ?rest) Q E) E w1"
    by (rule wp_checkpoint [OF I1], rule after_save) (auto intro: E)
  then show ?thesis
    using False E [OF I]
    by (simp add: launch_target_def Let_def wp_bnd [of "get_node _"] wp_get_node wp_bnd [of ctx_done] wp_ctx_done
        wp_sq [of "reject_if _ _"] wp_reject_if wp_bnd [of now] wp_now wp_sq [of "put_node _ _"] wp_put_node
        wp_sq [of "checkpoint _"] flip: w1_def)
qed

lemma running_present:
  assumes I: "pinv H R p w" and run: "all_running (pw_rec w)"
    and rec: "\<forall>x \<in> tg_name ` set (pl_targets p). reconciled True r0 (pw_rec w) x"
  shows "all_present p (pw_rec w)"
  using run rec pinv_node(3) [OF I]
  by (fastforce simp: all_present_def reconciled_def all_running_def fmpred_iff)

lemma wp_wait_running:
  assumes P: "fp_public (footprint_of p) \<longrightarrow> pooled p" and I: "pinv H R p w"
    and Q: "\<And>w'. pinv H R p w' \<Longrightarrow> Q () w'" and E: "\<And>e w'. pinv H R p w' \<Longrightarrow> E e w'"
  shows "wp (wait_running H p dfuel fuel owner) Q E w"
  using I
proof (induction fuel arbitrary: w)
  case 0
  then show ?case by (simp add: wp_fail E)
next
  case (Suc fuel)
  have tail: "wp (sq (if ready then set_rec (\<lambda>r. r\<lparr>rc_phase := ''compute-ready''\<rparr>) else ret ())
     (sq (checkpoint owner)
     (if ready then ret () else sq (call QSleep as_unit) (wait_running H p dfuel fuel owner)))) Q E v"
    if v: "pinv H R p v" for ready v
  proof (cases ready)
    case True
    have "pinv H R p (v\<lparr>pw_rec := (pw_rec v)\<lparr>rc_phase := ''compute-ready''\<rparr>\<rparr>)"
      by (rule pinv_header [OF v]) (simp_all add: same_application_def op_phases_def)
    then show ?thesis using True
      by (simp add: wp_sq wp_set_rec) (rule wp_checkpoint, auto simp: wp_ret intro: Q E)
  next
    case False
    have "pinv H R p (u\<lparr>hist := (QSleep, a) # hist u\<rparr>)" if "pinv H R p u" for u a
      by (rule pinv_ask [OF that]) simp_all
    then show ?thesis using False
      by (simp add: wp_sq wp_ret)
         (rule wp_checkpoint [OF v], auto simp: wp_sq wp_call Let_def split: sum.splits intro!: Suc.IH E)
  qed
  show ?case
    unfolding wait_running.simps wp_bnd [of "discover _ _ _"]
  proof (rule wp_discover [OF Suc.prems])
    fix live ids w1
    assume I1: "pinv H R p w1" and live: "sound_live H p (ids, live)"
    show "wp (sq (reconcile p live True) (bnd (gets (all_running \<circ> pw_rec)) (\<lambda>ready.
     sq (if ready \<and> fp_public (footprint_of p) then ensure_addresses p live (checkpoint owner) else ret ())
     (sq (if ready then set_rec (\<lambda>r. r\<lparr>rc_phase := ''compute-ready''\<rparr>) else ret ())
     (sq (checkpoint owner)
     (if ready then ret () else sq (call QSleep as_unit) (wait_running H p dfuel fuel owner))))))) Q E w1"
      unfolding wp_sq [of "reconcile _ _ _"]
    proof (rule wp_reconcile [OF I1 live])
      fix w2
      assume I2: "pinv H R p w2"
        and rec: "\<forall>x \<in> tg_name ` set (pl_targets p). reconciled True (pw_rec w1) (pw_rec w2) x"
      let ?ready = "all_running (pw_rec w2)"
      have "wp (if ?ready \<and> fp_public (footprint_of p) then ensure_addresses p live (checkpoint owner) else ret ())
        (\<lambda>_. wp (sq (if ?ready then set_rec (\<lambda>r. r\<lparr>rc_phase := ''compute-ready''\<rparr>) else ret ())
          (sq (checkpoint owner)
          (if ?ready then ret () else sq (call QSleep as_unit) (wait_running H p dfuel fuel owner)))) Q E) E w2"
        using tail [OF I2] tail [where ready = True, simplified] I2 P running_present [OF I2 _ rec]
        by (auto simp: wp_ret E intro!: wp_ensure_addresses)
      then show "wp (bnd (gets (all_running \<circ> pw_rec)) (\<lambda>ready.
         sq (if ready \<and> fp_public (footprint_of p) then ensure_addresses p live (checkpoint owner) else ret ())
         (sq (if ready then set_rec (\<lambda>r. r\<lparr>rc_phase := ''compute-ready''\<rparr>) else ret ())
         (sq (checkpoint owner)
         (if ready then ret () else sq (call QSleep as_unit) (wait_running H p dfuel fuel owner)))))) Q E w2"
        by (simp add: wp_bnd [of "gets _"] wp_gets wp_sq [of "If _ (ensure_addresses _ _ _) _"] del: if_splits)
    qed (rule E)
  qed (rule E)
qed

section \<open>Execution from the claim to the release\<close>

text \<open>What holds before the acquired record has been validated and after the executor has ended.\<close>

definition pbase :: "hasher \<Rightarrow> image_refs \<Rightarrow> plan \<Rightarrow> pworld \<Rightarrow> bool" where
  "pbase H R p w \<longleftrightarrow> announced H (hist w) \<and> saves_valid H R p (hist w) \<and> ticking w"

lemma pinv_base: "pinv H R p w \<longleftrightarrow> pbase H R p w \<and> validate_record H R p (pw_rec w) = Inr () \<and>
    rc_phase (pw_rec w) \<noteq> ''addresses-released''"
  by (auto simp: pinv_def pbase_def)

lemma keeps_base_call [intro]:
  "save_valid H R p q \<Longrightarrow> mutates q = None \<Longrightarrow> keeps (pbase H R p) (call q f)"
  unfolding call_def
  by (rule keeps_bnd) (auto simp: keeps_def ask_def lift_def Let_def pbase_def saves_valid_def ticking_def intent_guard_def)

lemma keeps_base_set_rec [intro]: "keeps (pbase H R p) (set_rec f)"
  unfolding set_rec_def by (rule keeps_modify) (simp add: pbase_def ticking_def)

interpretation base: inspection_invariant "pbase H R p" for H R p
  by unfold_locales
     (auto simp: pbase_def saves_valid_def ticking_def intent_guard_def inspects_def split: preq.splits)

lemma wp_execute_body:
  assumes P: "fp_public (footprint_of p) \<longrightarrow> pooled p" and B: "pbase H R p w"
  shows "wp (execute_body H R p dfuel fuel owner version) (\<lambda>_. pbase H R p) (\<lambda>_. pbase H R p) w"
proof (cases "validate_record H R p (pw_rec w) = Inr () \<and> rc_phase (pw_rec w) \<noteq> ''addresses-released''")
  case False
  then show ?thesis using B
    by (auto simp: execute_body_def wp_bnd wp_gets wp_sq wp_lift wp_reject_if split: sum.splits)
next
  case True
  have I: "pinv H R p w" using B True by (simp add: pinv_base)
  have Q: "\<And>w'. pinv H R p w' \<Longrightarrow> pbase H R p w'" by (simp add: pinv_base)
  define w1 where "w1 = w\<lparr>pw_rec := started owner version (pw_rec w)\<rparr>"
  have I1: "pinv H R p w1"
    unfolding w1_def by (rule pinv_header [OF I]) (simp_all add: started_def same_application_def op_phases_def)
  have loop: "wp (foreach (pl_targets p) (launch_target H p owner))
      (\<lambda>_. wp (wait_running H p dfuel fuel owner) (\<lambda>_. pbase H R p) (\<lambda>_. pbase H R p)) (\<lambda>_. pbase H R p) v"
    if v: "pinv H R p v" for v
  proof (rule wp_conseq)
    show "wp (foreach (pl_targets p) (launch_target H p owner)) (\<lambda>_. pinv H R p) (\<lambda>_. pbase H R p) v"
      by (rule wp_foreach [where I = "pinv H R p", OF v]) (auto intro: wp_launch_target Q)
    show "wp (wait_running H p dfuel fuel owner) (\<lambda>_. pbase H R p) (\<lambda>_. pbase H R p) u" if "pinv H R p u" for u
      by (rule wp_wait_running [OF P that]) (auto intro: Q)
  qed simp
  have live: "wp (sq (reconcile p live False)
     (sq (if fp_public (footprint_of p) then bnd (rediscover p live) (\<lambda>_. ret ()) else ret ())
     (sq (checkpoint owner)
     (sq (foreach (pl_targets p) (launch_target H p owner))
     (wait_running H p dfuel fuel owner))))) (\<lambda>_. pbase H R p) (\<lambda>_. pbase H R p) v"
    if v: "pinv H R p v" "sound_live H p (ids, live)" for v live ids
  proof -
    have save: "wp (checkpoint owner) (\<lambda>_. wp (foreach (pl_targets p) (launch_target H p owner))
      (\<lambda>_. wp (wait_running H p dfuel fuel owner) (\<lambda>_. pbase H R p) (\<lambda>_. pbase H R p)) (\<lambda>_. pbase H R p)) (\<lambda>_. pbase H R p) u"
      if "pinv H R p u" for u
      by (rule wp_checkpoint [OF that]) (auto intro: loop Q)
    show ?thesis
      unfolding wp_sq
      by (rule wp_reconcile [OF v]) (auto simp: wp_bnd wp_ret intro!: wp_rediscover save Q)
  qed
  have "wp (sq (checkpoint owner) (bnd (discover H dfuel p) (\<lambda>live.
     sq (reconcile p live False)
     (sq (if fp_public (footprint_of p) then bnd (rediscover p live) (\<lambda>_. ret ()) else ret ())
     (sq (checkpoint owner)
     (sq (foreach (pl_targets p) (launch_target H p owner))
     (wait_running H p dfuel fuel owner))))))) (\<lambda>_. pbase H R p) (\<lambda>_. pbase H R p) w1"
    unfolding wp_sq [of "checkpoint _" "bnd _ _"] wp_bnd
    by (rule wp_checkpoint [OF I1], rule wp_discover) (rule live Q | assumption)+
  then show ?thesis
    using True B
    by (simp add: execute_body_def wp_bnd [of "gets _"] wp_gets wp_sq [of "lift _"] wp_lift
        wp_sq [of "reject_if _ _"] wp_reject_if wp_sq [of "set_rec _"] wp_set_rec flip: w1_def)
qed

lemma keeps_release_claim [intro]: "keeps (pbase H R p) (release_claim p owner res)"
proof -
  have k: "keeps (pbase H R p) (call (QRelease p owner) as_unit)" by (intro keeps_base_call) simp_all
  show ?thesis unfolding release_claim_def by (intro keeps_bnd keeps_attempt k) (auto split: sum.splits)
qed

lemma wp_ret_fun: "wp (ret a) Q E = Q a"
  by (simp add: fun_eq_iff wp_ret)

lemma wp_settle:
  assumes B: "pbase H R p w"
  shows "wp (settle (validate_record H R p) p owner res) (\<lambda>_. pbase H R p) (\<lambda>_. pbase H R p) w"
proof -
  have rel: "wp (release_claim p owner res) (\<lambda>_. pbase H R p) (\<lambda>_. pbase H R p) v" if "pbase H R p v" for v res
    using that by (intro keeps_wp [where I = "pbase H R p"]) auto
  show ?thesis
  proof (cases "\<exists>e. res = Inl e \<and> rc_phase (pw_rec w) \<noteq> ''addresses-released'' \<and> validate_record H R p (pw_rec w) = Inr ()")
    case False
    then show ?thesis
      by (cases res) (auto simp: settle_def wp_bnd wp_gets wp_ret intro!: rel B)
  next
    case True
    then obtain e where e: "res = Inl e" by blast
    have I: "pinv H R p w" using True B by (simp add: pinv_base)
    define w1 where "w1 = w\<lparr>pw_rec := interrupted e (pw_rec w)\<rparr>"
    have I1: "pinv H R p w1"
      unfolding w1_def by (rule pinv_header [OF I]) (simp_all add: interrupted_def same_application_def op_phases_def)
    have "wp (checkpoint owner)
        (\<lambda>_. wp (release_claim p owner (Inl e)) (\<lambda>_. pbase H R p) (\<lambda>_. pbase H R p))
        (\<lambda>e2. wp (release_claim p owner (Inl (Joined [e, At ''save interruption'' e2]))) (\<lambda>_. pbase H R p) (\<lambda>_. pbase H R p)) w1"
      by (rule wp_checkpoint [OF I1]) (auto intro!: rel simp: pinv_base)
    then show ?thesis
      using True e by (simp add: settle_def wp_bnd wp_gets wp_sq wp_set_rec wp_attempt wp_ret_fun flip: w1_def)
  qed
qed

lemma wp_prepare_pooled:
  assumes "pl_network p = n"
  shows "wp (prepare H R n) (\<lambda>_ _. fp_public (footprint_of p) \<longrightarrow> pooled p) (\<lambda>_ _. True) w"
proof -
  have t: "wp m (\<lambda>_ _. True) (\<lambda>_ _. True) w" for m :: "('w, 'a) oper" and w by (auto simp: wp_def split: prod.splits sum.splits)
  have c: "wp m (\<lambda>_ _. C) (\<lambda>_ _. True) w" if C for C and m :: "('w, 'a) oper" and w
    using that by (auto simp: wp_def split: prod.splits sum.splits)
  show ?thesis
  proof (cases "fp_public (footprint_of p) \<longrightarrow> pooled p")
    case True
    then show ?thesis by (rule c)
  next
    case False
    then obtain f where f: "aws_provision (nw_aws n) = Some f" "fp_public f" "fp_pool f = []"
      using assms by (cases "aws_provision (nw_aws n)") (auto simp: footprint_of_def pooled_def)
    have z: "wp (sq (sq (reject_if True e) m) k) Q (\<lambda>_ _. True) = (\<lambda>_. True)" for e Q and m :: "unit poper" and k :: "plan poper"
      by (simp add: fun_eq_iff wp_sq wp_reject_if)
    show ?thesis
      unfolding prepare_def wp_bnd wp_lift
      by (auto split: sum.splits simp: f wp_sq [of "verify_account _"] z t)
  qed
qed

lemma execute_base:
  assumes B: "pbase H R p w"
  shows "pbase H R p (snd (execute H R p dfuel fuel owner version poll w))"
proof -
  have claim: "wp (bnd (wrap ''claim operation'' (call (QAcquire p owner) as_record)) (\<lambda>r.
     sq (set_rec (\<lambda>_. r))
     (bnd (attempt (execute_body H R p dfuel fuel owner version)) (settle (validate_record H R p) p owner))))
     (\<lambda>_. pbase H R p) (\<lambda>_. pbase H R p) v" if v: "pbase H R p v" and P: "fp_public (footprint_of p) \<longrightarrow> pooled p" for v
  proof -
    have k: "keeps (pbase H R p) (wrap ''claim operation'' (call (QAcquire p owner) as_record))"
      by (intro keeps_wrap keeps_base_call) simp_all
    have body: "wp (bnd (attempt (execute_body H R p dfuel fuel owner version)) (settle (validate_record H R p) p owner))
        (\<lambda>_. pbase H R p) (\<lambda>_. pbase H R p) (u\<lparr>pw_rec := r\<rparr>)" if "pbase H R p u" for u r
    proof -
      have "pbase H R p (u\<lparr>pw_rec := r\<rparr>)" using that by (simp add: pbase_def ticking_def)
      then show ?thesis
        unfolding wp_bnd wp_attempt by (rule wp_conseq [OF wp_execute_body [OF P]]) (auto intro: wp_settle)
    qed
    show ?thesis
      unfolding wp_bnd [of "wrap _ _"] wp_sq wp_set_rec
      by (rule wp_conseq [OF keeps_wp [OF k v]]) (auto intro: body)
  qed
  have "wp (prepare H R (pl_network p)) (\<lambda>_ w. pbase H R p w \<and> (fp_public (footprint_of p) \<longrightarrow> pooled p)) (\<lambda>_. pbase H R p) w"
    by (rule wp_conseq [OF wp_conj [OF keeps_wp [OF base.keeps_prepare B] wp_prepare_pooled [OF refl]]]) auto
  then have "wp (execute H R p dfuel fuel owner version poll) (\<lambda>_. pbase H R p) (\<lambda>_. pbase H R p) w"
    unfolding execute_def wp_sq [of "lift _"] wp_lift wp_sq [of "reject_if _ _"] wp_reject_if wp_bnd [of "prepare _ _ _"]
    using B by (auto split: sum.splits intro!: claim elim!: wp_conseq)
  then show ?thesis by (rule wp_exit)
qed

section \<open>Properties\<close>

text \<open>C1: The executor writes ahead: in whatever way AWS and the journal answer, and for every clock
  that never reads the zero time of Go (which would make a fresh record look unset), every
  instance launch, address allocation and association it requests has been announced by the latest
  acknowledged save before it (the target is launching with this very request, the address is
  being allocated with these tags, the recorded address is being associated with the recorded
  instance), and every record it sends to the journal passes full validation.\<close>

theorem execute_writes_ahead:
  assumes "hist w = []" and "ticking w"
  shows "announced H (hist (snd (execute H R p dfuel fuel owner version poll w))) \<and>
    saves_valid H R p (hist (snd (execute H R p dfuel fuel owner version poll w)))"
  using execute_base [of H R p w] assms by (simp add: pbase_def saves_valid_def)

end
