(* ===== verification/Provision_Launch.thy ===== *)
theory Provision_Launch
  imports Provision
begin

text \<open>
  Launches: \<open>Execute\<close> requests at most one instance per target, and only for targets the acquired
  journal had never attempted; a recorded launch intent without a visible instance stops the run.
  When the executor succeeds, every target is running and present and this is what was saved.
\<close>

section \<open>The launches of a history\<close>

fun runs :: "(preq, preply) hist \<Rightarrow> run_args list" where
  "runs [] = []"
| "runs ((QRun i, a) # h) = i # runs h"
| "runs (_ # h) = runs h"

definition no_launch :: "preq \<Rightarrow> bool" where
  "no_launch q \<longleftrightarrow> (\<forall>i. q \<noteq> QRun i)"

lemma no_launch_simps [simp]:
  "no_launch QIdentity" "no_launch (QPool s)" "no_launch (QSubnet s)" "no_launch (QGroups gs)" "no_launch (QKey s)"
  "no_launch (QImage s s')" "no_launch (QType s)" "no_launch (QAcquire p s)" "no_launch (QSave r s)"
  "no_launch (QRelease p s)" "no_launch (QInstances s)" "no_launch (QInstancesById gs)" "no_launch QAddresses"
  "no_launch (QAddressById s)" "no_launch (QAllocate ts)" "no_launch (QAssociate s s')"
  "no_launch (QReleaseAddress s)" "no_launch QSleep"
  by (simp_all add: no_launch_def)

lemma runs_no_launch: "no_launch q \<Longrightarrow> runs ((q, a) # h) = runs h"
  by (cases q) (simp_all add: no_launch_def)

definition launched :: "run_args list \<Rightarrow> pworld \<Rightarrow> bool" where
  "launched L w \<longleftrightarrow> runs (hist w) = L"

lemma keeps_get_node [keeps_intros, intro]: "keeps I (get_node x)"
  unfolding get_node_def by (rule keeps_gets)

lemma keeps_case_prod [keeps_intros, intro]: "(\<And>a b. keeps I (f a b)) \<Longrightarrow> keeps I (case x of (a, b) \<Rightarrow> f a b)"
  by (cases x) auto

text \<open>
  An invariant that neither the local record nor an exchange other than a launch can break is kept
  by everything the executor does outside its launch loop.
\<close>

locale calm_invariant =
  fixes I :: "pworld \<Rightarrow> bool"
  assumes local_record: "I w \<Longrightarrow> I (w\<lparr>pw_rec := f (pw_rec w)\<rparr>)"
    and exchange: "no_launch q \<Longrightarrow> I w \<Longrightarrow> I (w\<lparr>hist := (q, a) # hist w\<rparr>)"
begin

lemma calm_call [intro]: "no_launch q \<Longrightarrow> keeps I (call q f)"
  unfolding call_def
  by (intro keeps_bnd) (auto simp: keeps_def ask_def lift_def Let_def intro: exchange)

lemma calm_set_rec [intro]: "keeps I (set_rec f)"
  unfolding set_rec_def by (rule keeps_modify) (rule local_record)

lemma calm_put [intro]: "keeps I (put_node x n)"
  unfolding put_node_def by (rule calm_set_rec)

lemma calm_upd [intro]: "keeps I (upd_address x f)"
  unfolding upd_address_def by (rule calm_set_rec)

lemma calm_checkpoint [intro]: "keeps I (checkpoint owner)"
  unfolding checkpoint_def by (intro keeps_bnd keeps_sq keeps_now keeps_gets calm_set_rec calm_call) simp

lemma calm_discover [intro]: "keeps I (discover H dfuel p)"
proof -
  have "keeps I (discover_pages H p fuel tok seen st)" for fuel tok seen st
    by (induction fuel arbitrary: tok seen st)
       (auto intro!: keeps_bnd keeps_fail keeps_wrap calm_call keeps_lift keeps_ret split: option.splits)
  then show ?thesis by (simp add: discover_def)
qed

lemma calm_rediscover [intro]: "keeps I (rediscover p live)"
  unfolding rediscover_def discover_addresses_def
  by (intro keeps_intros calm_call) simp

lemma calm_ensure [intro]: "keeps I (ensure_addresses p live (checkpoint owner))"
proof -
  have earlier: "keeps I (check_earlier x n)" for x n
    unfolding check_earlier_def by (intro keeps_intros)
  have refused: "keeps I (refused_allocation (checkpoint owner) x e)" for x e
    unfolding refused_allocation_def
    by (intro keeps_intros calm_put calm_checkpoint)
  have alloc: "keeps I (allocate p live (checkpoint owner) t)" for t
    unfolding allocate_def Let_def
    by (intro keeps_intros calm_put calm_checkpoint earlier calm_call refused
        calm_upd calm_rediscover) simp
  have adopt: "keeps I (adopt (checkpoint owner) x a)" for x a
    unfolding adopt_def by (intro keeps_intros calm_upd calm_checkpoint)
  have assoc: "keeps I (associate p live (checkpoint owner) x a found)" for x a found
    unfolding associate_def
    by (intro keeps_intros calm_upd calm_checkpoint calm_call calm_rediscover) simp
  have target: "keeps I (ensure_target p live (checkpoint owner) t found)" for t found
    unfolding ensure_target_def Let_def
    by (intro keeps_intros alloc adopt assoc calm_upd calm_checkpoint)
  have "keeps I (ensure_loop p live (checkpoint owner) ts found)" for ts found
    by (induction ts arbitrary: found) (auto intro: keeps_ret keeps_bnd target)
  then show ?thesis
    unfolding ensure_addresses_def by (intro keeps_bnd calm_rediscover keeps_lift)
qed

lemma calm_reconcile [intro]: "keeps I (reconcile p live wait)"
  unfolding reconcile_def reconcile_target_def
  by (intro keeps_foreach keeps_intros calm_put)

lemma calm_wait [intro]: "keeps I (wait_running H p dfuel fuel owner)"
proof (induction fuel)
  case 0
  then show ?case by (simp add: keeps_fail)
next
  case (Suc fuel)
  then show ?case
    unfolding wait_running.simps
    by (intro keeps_intros calm_discover calm_reconcile calm_ensure
        calm_set_rec calm_checkpoint calm_call) simp_all
qed

lemma calm_settle [intro]: "keeps I (settle ok p owner res)"
  unfolding settle_def release_claim_def
  by (intro keeps_bnd keeps_gets keeps_case_sum keeps_ret keeps_if keeps_sq calm_set_rec keeps_attempt
      calm_checkpoint calm_call) (auto split: sum.splits)

end

sublocale calm_invariant \<subseteq> inspection_invariant I
  by unfold_locales (auto simp: inspects_def no_launch_def intro!: exchange split: preq.splits)

interpretation launched: calm_invariant "launched L" for L
  by unfold_locales (simp_all add: launched_def runs_no_launch)

definition exchanged :: "preq \<times> preply \<Rightarrow> pworld \<Rightarrow> bool" where
  "exchanged e w \<longleftrightarrow> e \<in> set (hist w)"

interpretation exchanged: calm_invariant "exchanged e" for e
  by unfold_locales (simp_all add: exchanged_def)

section \<open>One launch per target\<close>

text \<open>\<open>fresh\<close>: the launches since \<open>L\<close> are, in order, those of a subsequence of the targets \<open>ts\<close>
  that satisfy \<open>P\<close>.\<close>

definition fresh :: "hasher \<Rightarrow> plan \<Rightarrow> run_args list \<Rightarrow> (target \<Rightarrow> bool) \<Rightarrow> target list \<Rightarrow> pworld \<Rightarrow> bool" where
  "fresh H p L P ts w \<longleftrightarrow> (\<exists>ls. subseq ls (filter P ts) \<and> runs (hist w) = rev (map (run_input H p) ls) @ L)"

lemma fresh_none [simp]: "runs (hist w) = L \<Longrightarrow> fresh H p L P ts w"
  unfolding fresh_def by (intro exI [of _ "[]"]) simp

lemma fresh_more: "fresh H p L P ts w \<Longrightarrow> fresh H p L P (ts @ us) w"
  unfolding fresh_def by (auto intro: subseq_rev_drop_many)

lemma fresh_keep: "fresh H p L P ts w \<Longrightarrow> runs (hist w') = runs (hist w) \<Longrightarrow> fresh H p L P ts w'"
  unfolding fresh_def by simp

lemma fresh_launch:
  assumes "fresh H p L P ts w" and "P t" and "runs (hist w') = run_input H p t # runs (hist w)"
  shows "fresh H p L P (ts @ [t]) w'"
proof -
  obtain ls where "subseq ls (filter P ts)" "runs (hist w) = rev (map (run_input H p) ls) @ L"
    using assms(1) by (auto simp: fresh_def)
  then show ?thesis using assms(2,3) unfolding fresh_def
    by (intro exI [of _ "ls @ [t]"]) (simp add: list_emb_append_mono)
qed

lemma wp_launch_once:
  "wp (launch_target H p owner t)
    (\<lambda>_ w'. (\<forall>x. x \<noteq> tg_name t \<longrightarrow> node_at (pw_rec w') x = node_at (pw_rec w) x) \<and>
      (runs (hist w') = runs (hist w) \<or> nd_phase (node_at (pw_rec w) (tg_name t)) \<noteq> ''present'' \<and>
         runs (hist w') = run_input H p t # runs (hist w)))
    (\<lambda>_ w'. runs (hist w') = runs (hist w) \<or> nd_phase (node_at (pw_rec w) (tg_name t)) \<noteq> ''present'' \<and>
         runs (hist w') = run_input H p t # runs (hist w)) w"
  unfolding launch_target_def Let_def launch_def checkpoint_def
  by (auto simp: wp_rules Let_def split: sum.splits option.splits list.splits)

lemma wp_launch_loop:
  fixes w :: pworld
  assumes d: "distinct (map tg_name (pl_targets p))" and L: "runs (hist w) = L"
  defines "P \<equiv> \<lambda>t. nd_phase (node_at (pw_rec w) (tg_name t)) \<noteq> ''present''"
  shows "wp (foreach (pl_targets p) (launch_target H p owner))
    (\<lambda>_. fresh H p L P (pl_targets p)) (\<lambda>_. fresh H p L P (pl_targets p)) w"
proof -
  let ?I = "\<lambda>ahead w'. fresh H p L P ahead w' \<and>
    (\<forall>x. x \<notin> tg_name ` set ahead \<longrightarrow> node_at (pw_rec w') x = node_at (pw_rec w) x)"
  have "wp (foreach (pl_targets p) (launch_target H p owner)) (\<lambda>_. ?I (pl_targets p))
      (\<lambda>_. fresh H p L P (pl_targets p)) w"
  proof (rule wp_foreach_done)
    show "?I [] w" using L by simp
    fix ahead :: "target list" and t rest and v :: pworld
    assume s: "pl_targets p = ahead @ t # rest" and J: "?I ahead v"
    have "tg_name t \<notin> tg_name ` set ahead" using d by (auto simp: s)
    then have n: "node_at (pw_rec v) (tg_name t) = node_at (pw_rec w) (tg_name t)" using J by simp
    have more: "fresh H p L P (pl_targets p) v'" if "fresh H p L P (ahead @ [t]) v'" for v'
      using fresh_more [OF that, of rest] by (simp add: s)
    have once: "fresh H p L P (ahead @ [t]) v'"
      if "fresh H p L P ahead v" "runs (hist v') = runs (hist v) \<or>
        nd_phase (node_at (pw_rec w) (tg_name t)) \<noteq> ''present'' \<and> runs (hist v') = run_input H p t # runs (hist v)" for v'
      using that(2)
    proof
      assume "runs (hist v') = runs (hist v)"
      then show ?thesis by (rule fresh_keep [OF fresh_more [OF that(1)]])
    next
      assume a: "nd_phase (node_at (pw_rec w) (tg_name t)) \<noteq> ''present'' \<and> runs (hist v') = run_input H p t # runs (hist v)"
      show ?thesis by (rule fresh_launch [OF that(1)]) (use a in \<open>simp_all add: P_def\<close>)
    qed
    show "wp (launch_target H p owner t) (\<lambda>_. ?I (ahead @ [t])) (\<lambda>_. fresh H p L P (pl_targets p)) v"
    proof (rule wp_conseq [OF wp_launch_once])
      fix v' :: pworld
      assume a: "(\<forall>x. x \<noteq> tg_name t \<longrightarrow> node_at (pw_rec v') x = node_at (pw_rec v) x) \<and>
        (runs (hist v') = runs (hist v) \<or> nd_phase (node_at (pw_rec v) (tg_name t)) \<noteq> ''present'' \<and>
         runs (hist v') = run_input H p t # runs (hist v))"
      then have "fresh H p L P (ahead @ [t]) v'"
        using J n by (intro once) auto
      then show "?I (ahead @ [t]) v'" using a J by auto
    next
      fix v' :: pworld
      assume a: "runs (hist v') = runs (hist v) \<or> nd_phase (node_at (pw_rec v) (tg_name t)) \<noteq> ''present'' \<and>
         runs (hist v') = run_input H p t # runs (hist v)"
      then have "fresh H p L P (ahead @ [t]) v'"
        using J n by (intro once) auto
      then show "fresh H p L P (pl_targets p) v'" by (rule more)
    qed
  qed
  then show ?thesis by (rule wp_conseq) auto
qed

text \<open>Without waiting, reconciliation refuses every target whose launch intent has no visible
  instance: what it leaves is present, or pending as before.\<close>

lemma wp_reconcile_phases:
  fixes w :: pworld
  shows "wp (reconcile p live False)
    (\<lambda>_ w'. hist w' = hist w \<and> (\<forall>x \<in> tg_name ` set (pl_targets p). reconciled False (pw_rec w) (pw_rec w') x))
    (\<lambda>_ w'. hist w' = hist w) w"
proof -
  let ?I = "\<lambda>ahead w'. hist w' = hist w \<and>
    (\<forall>x \<in> tg_name ` set ahead. reconciled False (pw_rec w) (pw_rec w') x) \<and>
    (\<forall>x. x \<notin> tg_name ` set ahead \<longrightarrow> node_at (pw_rec w') x = node_at (pw_rec w) x)"
  have "wp (reconcile p live False) (\<lambda>_. ?I (pl_targets p)) (\<lambda>_ w'. hist w' = hist w) w"
    unfolding reconcile_def
  proof (rule wp_foreach_done)
    show "?I [] w" by simp
    fix ahead :: "target list" and t rest and v :: pworld
    assume J: "?I ahead v"
    have one: "wp (reconcile_target live False t) (\<lambda>_ v'. hist v' = hist v \<and>
        reconciled False (pw_rec v) (pw_rec v') (tg_name t) \<and>
        (\<forall>x. x \<noteq> tg_name t \<longrightarrow> node_at (pw_rec v') x = node_at (pw_rec v) x)) (\<lambda>_ v'. hist v' = hist v) v"
      by (auto simp: reconcile_target_def wp_rules reconciled_def split: option.splits)
    show "wp (reconcile_target live False t) (\<lambda>_. ?I (ahead @ [t])) (\<lambda>_ w'. hist w' = hist w) v"
    proof (rule wp_conseq [OF one])
      fix v' :: pworld
      assume v': "hist v' = hist v \<and> reconciled False (pw_rec v) (pw_rec v') (tg_name t) \<and>
        (\<forall>x. x \<noteq> tg_name t \<longrightarrow> node_at (pw_rec v') x = node_at (pw_rec v) x)"
      have x: "reconciled False (pw_rec w) (pw_rec v') (tg_name t)"
        using v' J reconciled_same(2,3) by metis
      have "reconciled False (pw_rec w) (pw_rec v') y" if "y \<in> tg_name ` set (ahead @ [t])" for y
      proof (cases "y = tg_name t")
        case True
        then show ?thesis using x by simp
      next
        case False
        then have "reconciled False (pw_rec w) (pw_rec v) y" using that J by auto
        then show ?thesis using v' False reconciled_same(1) by metis
      qed
      then show "?I (ahead @ [t]) v'" using v' J by auto
    qed (use J in auto)
  qed
  then show ?thesis by (rule wp_conseq) auto
qed

definition untried :: "oprec \<Rightarrow> target \<Rightarrow> bool" where
  "untried r t \<longleftrightarrow> nd_phase (node_at r (tg_name t)) = ''pending''"

lemma fresh_weaken:
  assumes "fresh H p L P ts w" and "\<And>t. t \<in> set ts \<Longrightarrow> P t \<Longrightarrow> P' t"
  shows "fresh H p L P' ts w"
proof -
  have "subseq (filter P ts) (filter P' ts)"
    using assms(2) by (induction ts) auto
  then show ?thesis using assms(1) unfolding fresh_def by (meson subseq_order.order_trans)
qed

definition nodes_are :: "(string, node) fmap \<Rightarrow> pworld \<Rightarrow> bool" where
  "nodes_are N w \<longleftrightarrow> rc_nodes (pw_rec w) = N"

lemma keeps_nodes_call: "keeps (nodes_are N) (call q f)"
  unfolding call_def by (intro keeps_bnd) (auto simp: keeps_def ask_def lift_def Let_def nodes_are_def)

lemma keeps_nodes_checkpoint: "keeps (nodes_are N) (checkpoint owner)"
proof -
  have "keeps (nodes_are N) (set_rec (stamp t))" for t
    unfolding set_rec_def by (rule keeps_modify) (simp add: nodes_are_def stamp_def)
  then show ?thesis unfolding checkpoint_def by (intro keeps_bnd keeps_sq keeps_now keeps_gets keeps_nodes_call)
qed

lemma keeps_nodes_rediscover: "keeps (nodes_are N) (rediscover p live)"
  unfolding rediscover_def discover_addresses_def by (intro keeps_intros keeps_nodes_call)

lemma keeps_nodes_discover: "keeps (nodes_are N) (discover H dfuel p)"
proof -
  have "keeps (nodes_are N) (discover_pages H p fuel tok seen st)" for fuel tok seen st
    by (induction fuel arbitrary: tok seen st)
       (auto intro!: keeps_bnd keeps_fail keeps_wrap keeps_nodes_call keeps_lift keeps_ret split: option.splits)
  then show ?thesis by (simp add: discover_def)
qed

lemma keeps_both: "keeps I m \<Longrightarrow> keeps J m \<Longrightarrow> keeps (\<lambda>w. I w \<and> J w) m"
  by (simp add: keeps_def)

lemma node_at_cong: "rc_nodes r = rc_nodes s \<Longrightarrow> node_at r x = node_at s x"
  by (simp add: node_at_def)

lemma wp_launches:
  fixes w :: pworld
  assumes d: "distinct (map tg_name (pl_targets p))" and L: "launched [] w"
  shows "wp (execute_body H R p dfuel fuel owner version)
    (\<lambda>_. fresh H p [] (untried (pw_rec w)) (pl_targets p)) (\<lambda>_. fresh H p [] (untried (pw_rec w)) (pl_targets p)) w"
proof -
  let ?F = "fresh H p [] (untried (pw_rec w)) (pl_targets p)"
  let ?C = "\<lambda>v. \<forall>t \<in> set (pl_targets p). nd_phase (node_at (pw_rec v) (tg_name t)) \<noteq> ''present'' \<longrightarrow> untried (pw_rec w) t"
  have none: "?F v" if "launched [] v" for v using that by (simp add: launched_def)
  have wait: "wp (wait_running H p dfuel fuel owner) (\<lambda>_. ?F) (\<lambda>_. ?F) v" if "?F v" for v
  proof -
    have "keeps ?F (wait_running H p dfuel fuel owner)"
      using launched.calm_wait [of _ H p dfuel fuel owner]
      unfolding keeps_def launched_def by (metis (no_types, lifting) fresh_keep)
    then show ?thesis using that by (rule keeps_wp)
  qed
  have loop: "wp (foreach (pl_targets p) (launch_target H p owner))
      (\<lambda>_. wp (wait_running H p dfuel fuel owner) (\<lambda>_. ?F) (\<lambda>_. ?F)) (\<lambda>_. ?F) v"
    if v: "launched [] v" and C: "?C v" for v
  proof -
    have weak: "?F u" if "fresh H p [] (\<lambda>t. nd_phase (node_at (pw_rec v) (tg_name t)) \<noteq> ''present'') (pl_targets p) u" for u
      by (rule fresh_weaken [OF that]) (use C in blast)
    show ?thesis
      by (rule wp_conseq [OF wp_launch_loop [OF d]]) (use v in \<open>auto simp: launched_def intro: weak wait\<close>)
  qed
  have keepsC: "?C v'" if "?C v" "nodes_are N v" "nodes_are N v'" for N v v'
    using that node_at_cong [of "pw_rec v" "pw_rec v'"] by (simp add: nodes_are_def)
  have step: "wp m (\<lambda>_ v'. launched [] v' \<and> ?C v') (\<lambda>_. ?F) v"
    if "keeps (launched []) m" "\<And>N. keeps (nodes_are N) m" "launched [] v" "?C v" for m :: "'b poper" and v
    by (rule wp_conseq [OF keeps_wp [OF keeps_both [OF that(1) that(2)]], of _ "rc_nodes (pw_rec v)"])
       (use that(3,4) none keepsC [OF that(4)] in \<open>auto simp: nodes_are_def\<close>)
  have save: "wp (sq (checkpoint owner) (sq (foreach (pl_targets p) (launch_target H p owner))
     (wait_running H p dfuel fuel owner))) (\<lambda>_. ?F) (\<lambda>_. ?F) v" if "launched [] v" "?C v" for v
    unfolding wp_sq
    by (rule wp_conseq [OF step [OF launched.calm_checkpoint keeps_nodes_checkpoint that]]) (auto intro: loop)
  have found: "wp (sq (if b then bnd (rediscover p live) (\<lambda>_. ret ()) else ret ())
     (sq (checkpoint owner) (sq (foreach (pl_targets p) (launch_target H p owner))
     (wait_running H p dfuel fuel owner)))) (\<lambda>_. ?F) (\<lambda>_. ?F) v" if "launched [] v" "?C v" for b live v
    unfolding wp_sq [of "If _ _ _"] wp_if wp_bnd wp_ret
    using wp_conseq [OF step [OF launched.calm_rediscover keeps_nodes_rediscover that], of _ "\<lambda>_. ?F"]
    by (simp add: save that)
  let ?same = "\<lambda>v. launched [] v \<and> (\<forall>x. nd_phase (node_at (pw_rec v) x) = nd_phase (node_at (pw_rec w) x))"
  have live: "wp (sq (reconcile p live False) (sq (if b then bnd (rediscover p live) (\<lambda>_. ret ()) else ret ())
     (sq (checkpoint owner) (sq (foreach (pl_targets p) (launch_target H p owner))
     (wait_running H p dfuel fuel owner))))) (\<lambda>_. ?F) (\<lambda>_. ?F) v" if v: "?same v" for b live v
    unfolding wp_sq [of "reconcile _ _ _"]
  proof (rule wp_conseq [OF wp_reconcile_phases])
    fix v' :: pworld
    assume a: "hist v' = hist v \<and> (\<forall>x \<in> tg_name ` set (pl_targets p). reconciled False (pw_rec v) (pw_rec v') x)"
    then have "?C v'" using v by (auto simp: reconciled_def untried_def)
    then show "wp (sq (if b then bnd (rediscover p live) (\<lambda>_. ret ()) else ret ())
     (sq (checkpoint owner) (sq (foreach (pl_targets p) (launch_target H p owner))
     (wait_running H p dfuel fuel owner)))) (\<lambda>_. ?F) (\<lambda>_. ?F) v'"
      by (intro found) (use a v in \<open>auto simp: launched_def\<close>)
  qed (use v in \<open>auto simp: launched_def\<close>)
  have same: "?same v'" if "launched [] v'" "nodes_are N v'" "nodes_are N v" "?same v" for N v v'
    using that node_at_cong [of "pw_rec v" "pw_rec v'"] by (simp add: nodes_are_def)
  have step': "wp m (\<lambda>_. ?same) (\<lambda>_. ?F) v"
    if "keeps (launched []) m" "\<And>N. keeps (nodes_are N) m" "?same v" for m :: "'b poper" and v
    by (rule wp_conseq [OF keeps_wp [OF keeps_both [OF that(1) that(2)]], of _ "rc_nodes (pw_rec v)"])
       (use that(3) none same in \<open>auto simp: nodes_are_def\<close>)
  have start: "?same (w\<lparr>pw_rec := started owner version (pw_rec w)\<rparr>)"
    using L node_at_cong [of "started owner version (pw_rec w)" "pw_rec w"] by (simp add: launched_def started_def)
  have "wp (sq (checkpoint owner) (bnd (discover H dfuel p) (\<lambda>live.
     sq (reconcile p live False)
     (sq (if fp_public (footprint_of p) then bnd (rediscover p live) (\<lambda>_. ret ()) else ret ())
     (sq (checkpoint owner)
     (sq (foreach (pl_targets p) (launch_target H p owner))
     (wait_running H p dfuel fuel owner))))))) (\<lambda>_. ?F) (\<lambda>_. ?F) (w\<lparr>pw_rec := started owner version (pw_rec w)\<rparr>)"
    unfolding wp_sq [of "checkpoint _" "bnd _ _"] wp_bnd [of "discover _ _ _"]
    by (rule wp_conseq [OF step' [OF launched.calm_checkpoint keeps_nodes_checkpoint start]],
        rule wp_conseq [OF step' [OF launched.calm_discover keeps_nodes_discover]])
       (rule live | assumption | simp)+
  then show ?thesis
    using none [OF L]
    by (simp add: execute_body_def wp_bnd [of "gets _"] wp_gets wp_sq [of "lift _"] wp_lift
        wp_sq [of "reject_if _ _"] wp_reject_if wp_sq [of "set_rec _"] wp_set_rec split: sum.splits)
qed

lemma as_record_Inr: "as_record a = Inr r \<Longrightarrow> a = RRecord (Inr r)"
  by (cases a) (auto simp: odd_reply_def)

lemma keeps_seen_launch: "keeps (exchanged e) (launch_target H p owner t)"
proof -
  have "keeps (exchanged e) (call q f)" for q and f :: "preply \<Rightarrow> 'x res"
    unfolding call_def by (intro keeps_bnd) (auto simp: keeps_def ask_def lift_def Let_def exchanged_def)
  then show ?thesis
    unfolding launch_target_def Let_def launch_def
    by (intro keeps_intros exchanged.calm_put exchanged.calm_checkpoint) (auto split: option.splits list.splits)
qed

lemma keeps_seen_body: "keeps (exchanged e) (execute_body H R p dfuel fuel owner version)"
  unfolding execute_body_def
  by (intro keeps_intros exchanged.calm_set_rec exchanged.calm_checkpoint exchanged.calm_discover
      exchanged.calm_reconcile exchanged.calm_rediscover exchanged.calm_wait keeps_seen_launch)

text \<open>The launches of a whole run, relative to the record it acquired.\<close>

definition relaunch_free :: "hasher \<Rightarrow> plan \<Rightarrow> string \<Rightarrow> (preq, preply) hist \<Rightarrow> bool" where
  "relaunch_free H p owner h \<longleftrightarrow> (runs h = [] \<or> (\<exists>r0 ls. (QAcquire p owner, RRecord (Inr r0)) \<in> set h \<and>
     subseq ls (filter (untried r0) (pl_targets p)) \<and> runs h = rev (map (run_input H p) ls) \<and>
     distinct (map tg_name (pl_targets p))))"

lemma launches_of_execute:
  fixes w :: pworld
  assumes "hist w = []"
  shows "relaunch_free H p owner (hist (snd (execute H R p dfuel fuel owner version poll w)))"
proof (cases "validate_plan H R p")
  case (Inl e)
  then show ?thesis using assms by (simp add: execute_def sq_def bnd_def lift_def relaunch_free_def)
next
  case (Inr u)
  have d: "distinct (map tg_name (pl_targets p))" by (rule valid_plan_names) (use Inr in simp)
  let ?G = "\<lambda>w. relaunch_free H p owner (hist w)"
  have none: "?G v" if "launched [] v" for v using that by (simp add: launched_def relaunch_free_def)
  have body: "wp (bnd (attempt (execute_body H R p dfuel fuel owner version)) (settle (validate_record H R p) p owner))
      (\<lambda>_. ?G) (\<lambda>_. ?G) v"
    if L: "launched [] v" and acq: "exchanged (QAcquire p owner, RRecord (Inr (pw_rec v))) v" for v
  proof -
    let ?J = "\<lambda>u. fresh H p [] (untried (pw_rec v)) (pl_targets p) u \<and>
      exchanged (QAcquire p owner, RRecord (Inr (pw_rec v))) u"
    have G: "?G u" if "?J u" for u
      using that d by (auto simp: fresh_def exchanged_def relaunch_free_def)
    have stl: "wp (settle (validate_record H R p) p owner res) (\<lambda>_. ?G) (\<lambda>_. ?G) u" if "?J u" for u res
      by (rule wp_conseq [OF keeps_wp [OF keeps_both [OF launched.calm_settle [where L = "runs (hist u)"]
            exchanged.calm_settle [where e = "(QAcquire p owner, RRecord (Inr (pw_rec v)))"]]]])
         (use that fresh_keep in \<open>auto simp: launched_def intro: G\<close>)
    have "wp (execute_body H R p dfuel fuel owner version) (\<lambda>_. ?J) (\<lambda>_. ?J) v"
      by (rule wp_conj [OF wp_launches [OF d L] keeps_wp [OF keeps_seen_body acq]])
    then show ?thesis unfolding wp_bnd wp_attempt
      by (rule wp_conseq) (blast intro: stl)+
  qed
  have claim: "wp (bnd (wrap ''claim operation'' (call (QAcquire p owner) as_record)) (\<lambda>r. sq (set_rec (\<lambda>_. r))
      (bnd (attempt (execute_body H R p dfuel fuel owner version)) (settle (validate_record H R p) p owner))))
      (\<lambda>_. ?G) (\<lambda>_. ?G) v" if L: "launched [] v" for v
  proof -
    let ?q = "QAcquire p owner"
    have L': "launched [] (v\<lparr>hist := (?q, a) # hist v\<rparr>)" for a using L by (simp add: launched_def)
    show ?thesis
    proof (cases "as_record (answer (env v) (hist v) ?q)")
      case (Inl e)
      then show ?thesis using none [OF L'] by (simp add: wp_bnd [of "wrap _ _"] wp_wrap wp_call Let_def)
    next
      case (Inr r)
      then show ?thesis
        unfolding wp_bnd [of "wrap _ _"] wp_wrap wp_call Let_def wp_sq wp_set_rec
        using L by (simp, intro body) (simp_all add: launched_def exchanged_def as_record_Inr [OF Inr])
    qed
  qed
  have "launched [] w" using assms by (simp add: launched_def)
  then have "wp (prepare H R (pl_network p)) (\<lambda>_. launched []) (\<lambda>_. launched []) w"
    by (intro keeps_wp [OF launched.keeps_prepare])
  then have "wp (execute H R p dfuel fuel owner version poll) (\<lambda>_. ?G) (\<lambda>_. ?G) w"
    unfolding execute_def wp_sq [of "lift _"] wp_lift wp_sq [of "reject_if _ _"] wp_reject_if wp_bnd [of "prepare _ _ _"]
    using none [of w] assms
    by (auto simp: launched_def split: sum.splits intro!: claim none elim!: wp_conseq)
  then show ?thesis by (rule wp_exit)
qed

lemma run_input_inj: "run_input H p t = run_input H p u \<Longrightarrow> tg_name t = tg_name u"
proof -
  assume "run_input H p t = run_input H p u"
  then have "ri_tags (run_input H p t) = ri_tags (run_input H p u)" by simp
  then have "sorted_list_of_fmap (tags p t) = sorted_list_of_fmap (tags p u)" by (simp add: run_input_def Let_def)
  then have "map_of (sorted_list_of_fmap (tags p t)) ''dashnet:node'' = map_of (sorted_list_of_fmap (tags p u)) ''dashnet:node''"
    by simp
  moreover have "fmlookup (tags p v) ''dashnet:node'' = Some (tg_name v)" for v
    by (simp add: tags_def Let_def)
  ultimately show ?thesis by simp
qed

section \<open>Properties\<close>

text \<open>C2: No run of the executor launches a target twice, and none relaunches: whatever AWS and the
  journal answer, the launch requests of a run are pairwise different, name targets of the plan in
  plan order, and are only for targets the journal record the run acquired had never attempted
  (their phase was pending); a run that acquired no record launches nothing.\<close>

theorem never_relaunches:
  assumes "hist (w :: pworld) = []" and "h = hist (snd (execute H R p dfuel fuel owner version poll w))"
  shows "distinct (runs h) \<and> (\<exists>ls. runs h = rev (map (run_input H p) ls) \<and> subseq ls (pl_targets p) \<and>
    (\<forall>t \<in> set ls. \<exists>r0. (QAcquire p owner, RRecord (Inr r0)) \<in> set h \<and>
       nd_phase (node_at r0 (tg_name t)) = ''pending''))"
proof (cases "runs h = []")
  case True
  then show ?thesis by (auto intro!: exI [of _ "[]"])
next
  case False
  then obtain r0 ls where r0: "(QAcquire p owner, RRecord (Inr r0)) \<in> set h"
    and ls: "subseq ls (filter (untried r0) (pl_targets p))" "runs h = rev (map (run_input H p) ls)"
    and d: "distinct (map tg_name (pl_targets p))"
    using launches_of_execute [OF assms(1), of H p owner R dfuel fuel version poll] assms(2)
    by (auto simp: relaunch_free_def)
  have s: "subseq ls (pl_targets p)" by (rule subseq_order.order_trans [OF ls(1)]) (rule subseq_filter_left)
  obtain N where "map tg_name ls = nths (map tg_name (pl_targets p)) N"
    using subseq_map [OF s] subseq_conv_nths by blast
  then have "distinct (map tg_name ls)" using distinct_nthsI [OF d] by simp
  then have "distinct (map (run_input H p) ls)"
    unfolding distinct_map inj_on_def using run_input_inj by metis
  moreover have "\<forall>t \<in> set ls. untried r0 t" using set_nths_subset ls(1) by (fastforce simp: subseq_conv_nths)
  ultimately show ?thesis using r0 s ls(2) by (intro conjI exI [of _ ls]) (auto simp: untried_def)
qed

end
