(* ===== verification/Ipam_Release.thy ===== *)
theory Ipam_Release
  imports Provision_Launch
begin

text \<open>
  \<open>internal/provision/ipam_release.go\<close>: \<open>ReleaseAddresses\<close> retires the IPAM addresses of a plan
  whose instances are gone. It terminates and detaches nothing; every instance must be seen
  terminated, or reported absent by its exact identity, and every release is announced by a
  checkpoint and confirmed by the exact allocation identity.
\<close>

section \<open>Exact identities\<close>

definition verify_released :: "string \<Rightarrow> unit poper" where
  "verify_released i = bnd (attempt (call (QAddressById i) as_addresses)) (\<lambda>out. case out of
     Inl e \<Rightarrow> if api_code e = Some ''InvalidAllocationID.NotFound'' then ret ()
       else fail (At ''verify exact released allocation'' e)
   | Inr _ \<Rightarrow> fail (Err ''released allocation not proven absent by ID; inspect before resuming''))"

definition no_instances :: "page \<Rightarrow> bool" where
  "no_instances pg \<longleftrightarrow> list_all (\<lambda>rs. rs_instances rs = []) (pg_reservations pg)"

definition verify_purged :: "string \<Rightarrow> unit poper" where
  "verify_purged i = bnd (attempt (call (QInstancesById [i]) as_page)) (\<lambda>out. case out of
     Inl e \<Rightarrow> if api_code e = Some ''InvalidInstanceID.NotFound'' then ret ()
       else fail (At ''verify purged instance'' e)
   | Inr None \<Rightarrow> fail (At i (Err ''incomplete readback for purged instance''))
   | Inr (Some pg) \<Rightarrow> if pg_next pg \<noteq> [] then fail (At i (Err ''incomplete readback for purged instance''))
       else if no_instances pg then ret ()
       else fail (At i (Err ''unexpected readback for instance; inspect before cleanup'')))"

section \<open>The checks before the first release\<close>

definition collect_instance :: "live_map \<Rightarrow> inst \<Rightarrow> live_map res" where
  "collect_instance m i = (if fmlookup m (in_id i) \<noteq> None then Inl (Err ''duplicate cleanup instance'')
     else Inr (fmupd (in_id i) i m))"

definition collect_reservation :: "plan \<Rightarrow> live_map \<Rightarrow> reservation \<Rightarrow> live_map res" where
  "collect_reservation p m rs =
     (if rs_owner rs \<noteq> aws_account (nw_aws (pl_network p)) then Inl (Err ''cleanup account mismatch'')
      else scan_ok collect_instance m (rs_instances rs))"

text \<open>The instance of a target that was found by its identity, which was not purged.\<close>

definition check_terminated :: "hasher \<Rightarrow> plan \<Rightarrow> oprec \<Rightarrow> live_map \<Rightarrow> target \<Rightarrow> unit res" where
  "check_terminated H p r live t = (case fmlookup live (nd_instance (node_at r (tg_name t))) of
     None \<Rightarrow> Inr ()
   | Some i \<Rightarrow>
     if in_state i \<noteq> Some ''terminated'' \<or> in_token i \<noteq> token H p t
       then Inl (At (tg_name t) (Err ''not the terminated original instance''))
     else after (read_tags (in_tags i)) (\<lambda>m.
       if owned p t m then Inr () else Inl (At (tg_name t) (Err ''cleanup ownership mismatch''))))"

text \<open>The validation copy: termination has detached the addresses, and an address being released may
  be gone.\<close>

definition detached :: "node \<Rightarrow> node" where
  "detached n = n\<lparr>nd_address := map_option (\<lambda>a. a\<lparr>ad_association := [],
     ad_phase := (if ad_phase a = ''associated'' then ''allocated'' else ad_phase a),
     ad_allocation := (if ad_phase a = ''releasing'' \<or> ad_phase a = ''released'' then [] else ad_allocation a)\<rparr>) (nd_address n)\<rparr>"

definition validation_copy :: "oprec \<Rightarrow> oprec" where
  "validation_copy r = r\<lparr>rc_nodes := fmmap detached (rc_nodes r)\<rparr>"

definition confirm_address :: "oprec \<Rightarrow> eip_map \<Rightarrow> target \<Rightarrow> unit poper" where
  "confirm_address r found t = (let x = tg_name t in case (fmlookup found x, nd_address (node_at r x)) of
     (None, None) \<Rightarrow> ret ()
   | (None, Some ad) \<Rightarrow>
       if ad_phase ad \<noteq> ''releasing'' \<and> ad_phase ad \<noteq> ''released''
         then fail (At x (Err ''unresolved address; no release inferred''))
       else wrap x (verify_released (ad_allocation ad))
   | (Some a, Some ad) \<Rightarrow>
       if ad_allocation ad \<noteq> [] \<and> (ad_allocation ad \<noteq> ea_alloc a \<or> ad_public_ip ad \<noteq> ea_ip a)
         then fail (At x (Err ''cleanup address identity drift''))
       else if ad_phase ad = ''released'' then fail (At x (Err ''released address reappeared''))
       else ret ()
   | (Some a, None) \<Rightarrow> fail (At x (Err ''address without a journaled intent'')))"

definition read_instances :: "string list \<Rightarrow> page poper" where
  "read_instances ids = bnd (call (QInstancesById ids) as_page) (\<lambda>out. case out of
     None \<Rightarrow> fail (Err ''incomplete instance cleanup readback'')
   | Some pg \<Rightarrow> if pg_next pg \<noteq> [] then fail (Err ''incomplete instance cleanup readback'') else ret pg)"

definition confirm_addresses :: "plan \<Rightarrow> oprec \<Rightarrow> eip_map poper" where
  "confirm_addresses p r = bnd (discover_addresses p (validation_copy r) fmempty) (\<lambda>found.
     sq (foreach (pl_targets p) (confirm_address r found)) (ret found))"

definition instances_of :: "plan \<Rightarrow> oprec \<Rightarrow> string list" where
  "instances_of p r = map (\<lambda>t. nd_instance (node_at r (tg_name t))) (pl_targets p)"

definition check_instance_known :: "oprec \<Rightarrow> target \<Rightarrow> unit poper" where
  "check_instance_known r t = (let n = node_at r (tg_name t) in
     reject_if (nd_phase n \<noteq> ''present'' \<or> nd_instance n = [])
       (At (tg_name t) (Err ''unresolved instance identity; reconcile before cleanup'')))"

definition retire_check :: "hasher \<Rightarrow> plan \<Rightarrow> eip_map poper" where
  "retire_check H p = bnd (gets pw_rec) (\<lambda>r.
     sq (foreach (pl_targets p) (check_instance_known r))
     (bnd (read_instances (instances_of p r)) (\<lambda>pg.
     bnd (lift (scan_ok (collect_reservation p) fmempty (pg_reservations pg))) (\<lambda>live.
     sq (foreach (filter (\<lambda>i. fmlookup live i = None) (instances_of p r)) verify_purged)
     (sq (lift (each_ok (check_terminated H p r live) (pl_targets p)))
     (confirm_addresses p r))))))"

section \<open>Releasing\<close>

definition releasing :: "eip \<Rightarrow> address \<Rightarrow> address" where
  "releasing a ad = (if ad_phase ad = ''allocating'' then ad\<lparr>ad_allocation := ea_alloc a, ad_public_ip := ea_ip a\<rparr>
     else ad)\<lparr>ad_phase := ''releasing''\<rparr>"

definition release_found :: "string \<Rightarrow> string \<Rightarrow> eip \<Rightarrow> unit poper" where
  "release_found owner x a =
     sq (upd_address x (releasing a))
     (sq (checkpoint owner)
     (sq (wrap ''release; resume reconciles address absence'' (call (QReleaseAddress (ea_alloc a)) as_unit))
     (bnd (get_node x) (\<lambda>n. verify_released (allocation_of n)))))"

definition release_target :: "string \<Rightarrow> eip_map \<Rightarrow> target \<Rightarrow> unit poper" where
  "release_target owner found t = (let x = tg_name t in
     bnd ctx_done (\<lambda>d. sq (reject_if d Cancelled)
     (bnd (get_node x) (\<lambda>n. case nd_address n of
       None \<Rightarrow> ret ()
     | Some _ \<Rightarrow>
         sq (case fmlookup found x of None \<Rightarrow> ret () | Some a \<Rightarrow> release_found owner x a)
         (sq (upd_address x (\<lambda>ad. ad\<lparr>ad_phase := ''released''\<rparr>))
         (checkpoint owner))))))"

definition release_body :: "hasher \<Rightarrow> image_refs \<Rightarrow> plan \<Rightarrow> string \<Rightarrow> unit poper" where
  "release_body H R p owner = bnd (gets pw_rec) (\<lambda>r.
     sq (lift (validate_cleanup H R p r))
     (if rc_phase r = ''addresses-released'' then ret ()
      else sq (set_rec (\<lambda>r. r\<lparr>rc_runner := owner\<rparr>))
      (bnd (retire_check H p) (\<lambda>found.
       sq (foreach (pl_targets p) (release_target owner found))
       (sq (set_rec (\<lambda>r. r\<lparr>rc_phase := ''addresses-released'', rc_error := None\<rparr>))
       (checkpoint owner))))))"

text \<open>The deferred function.\<close>

definition retire_interrupted :: "(oprec \<Rightarrow> unit res) \<Rightarrow> string \<Rightarrow> unit res \<Rightarrow> unit res poper" where
  "retire_interrupted ok owner res = bnd (gets pw_rec) (\<lambda>r. case res of
     Inr _ \<Rightarrow> ret res
   | Inl e \<Rightarrow> if ok r = Inr () \<and> rc_phase r \<noteq> ''addresses-released''
       then sq (set_rec (interrupted e)) (bnd (attempt (checkpoint owner)) (\<lambda>s. case s of
         Inl e2 \<Rightarrow> ret (Inl (Joined [e, e2])) | Inr _ \<Rightarrow> ret res))
       else ret res)"

definition retire_settle :: "(oprec \<Rightarrow> unit res) \<Rightarrow> plan \<Rightarrow> string \<Rightarrow> unit res \<Rightarrow> unit poper" where
  "retire_settle ok p owner res =
     bnd (retire_interrupted ok owner res) (\<lambda>res.
     bnd (attempt (call (QRelease p owner) as_unit)) (\<lambda>s. case (s, res) of
       (Inr _, _) \<Rightarrow> lift res
     | (Inl e2, Inl e) \<Rightarrow> fail (Joined [e, e2])
     | (Inl e2, Inr _) \<Rightarrow> fail (Joined [e2])))"

definition release_addresses :: "hasher \<Rightarrow> image_refs \<Rightarrow> plan \<Rightarrow> string \<Rightarrow> unit poper" where
  "release_addresses H R p owner =
     sq (lift (validate_plan H R p))
     (sq (reject_if (\<not> fp_public (footprint_of p) \<or> fp_pool (footprint_of p) = [] \<or> owner = [])
       (Err ''an IPAM provision plan and runner identity are required''))
     (sq (verify_account (aws_account (nw_aws (pl_network p))))
     (sq (verify_pool (pl_network p) (footprint_of p))
     (bnd (call (QAcquire p owner) as_record) (\<lambda>r.
     sq (set_rec (\<lambda>_. r))
     (bnd (attempt (release_body H R p owner)) (retire_settle (validate_cleanup H R p) p owner)))))))"

section \<open>Evidence\<close>

text \<open>What a history shows about the instance of a target: it was reported terminated in the plan's
  account with the target's token, or its exact identity was reported absent.\<close>

definition terminated_seen :: "hasher \<Rightarrow> plan \<Rightarrow> target \<Rightarrow> string \<Rightarrow> (preq, preply) hist \<Rightarrow> bool" where
  "terminated_seen H p t i h \<longleftrightarrow> (\<exists>ids pg rs v. (QInstancesById ids, RPage (Inr (Some pg))) \<in> set h \<and>
     rs \<in> set (pg_reservations pg) \<and> rs_owner rs = aws_account (nw_aws (pl_network p)) \<and>
     v \<in> set (rs_instances rs) \<and> in_id v = i \<and> in_state v = Some ''terminated'' \<and> in_token v = token H p t)"

definition purged_seen :: "string \<Rightarrow> (preq, preply) hist \<Rightarrow> bool" where
  "purged_seen i h \<longleftrightarrow> (\<exists>e. (QInstancesById [i], RPage (Inl e)) \<in> set h \<and> api_code e = Some ''InvalidInstanceID.NotFound'') \<or>
     (\<exists>pg. (QInstancesById [i], RPage (Inr (Some pg))) \<in> set h \<and> pg_next pg = [] \<and> no_instances pg)"

definition gone :: "hasher \<Rightarrow> plan \<Rightarrow> oprec \<Rightarrow> (preq, preply) hist \<Rightarrow> target \<Rightarrow> bool" where
  "gone H p r h t \<longleftrightarrow> (let i = nd_instance (node_at r (tg_name t)) in
     i \<noteq> [] \<and> (terminated_seen H p t i h \<or> purged_seen i h))"

lemma purged_seen_mono: "purged_seen i h \<Longrightarrow> set h \<subseteq> set h' \<Longrightarrow> purged_seen i h'"
  unfolding purged_seen_def by blast

lemma gone_mono: "gone H p r h t \<Longrightarrow> set h \<subseteq> set h' \<Longrightarrow> gone H p r h' t"
  unfolding gone_def Let_def terminated_seen_def purged_seen_def by blast

text \<open>A change is allowed only if it is the release of an address that the latest acknowledged save
  announced, after every instance of the plan was seen gone.\<close>

definition retire_guard :: "hasher \<Rightarrow> plan \<Rightarrow> (preq, preply) hist \<Rightarrow> preq \<Rightarrow> bool" where
  "retire_guard H p h q \<longleftrightarrow> (case mutates q of None \<Rightarrow> True
     | Some k \<Rightarrow> (\<exists>a r. k = Release a \<and> journaled saved_rec h = Some r \<and> announces H r (Release a) \<and>
         (\<forall>t \<in> set (pl_targets p). gone H p r h t)))"

abbreviation retiring :: "hasher \<Rightarrow> plan \<Rightarrow> pworld \<Rightarrow> bool" where
  "retiring H p w \<equiv> guarded (retire_guard H p) (hist w)"

lemma keeps_retiring_call: "mutates q = None \<Longrightarrow> keeps (retiring H p) (call q f)"
  unfolding call_def
  by (intro keeps_bnd) (auto simp: keeps_def ask_def lift_def Let_def retire_guard_def)

lemma keeps_retiring_set_rec: "keeps (retiring H p) (set_rec f)"
  unfolding set_rec_def by (rule keeps_modify) simp

lemma keeps_retiring_checkpoint: "keeps (retiring H p) (checkpoint owner)"
  unfolding checkpoint_def
  by (intro keeps_bnd keeps_sq keeps_now keeps_gets keeps_retiring_set_rec keeps_retiring_call) simp

interpretation retiring: inspection_invariant "retiring H p" for H p
  by unfold_locales (auto simp: retire_guard_def inspects_def split: preq.splits)

section \<open>The checks gather the evidence\<close>

definition verifying :: "hasher \<Rightarrow> plan \<Rightarrow> (preq \<times> preply) set \<Rightarrow> oprec \<Rightarrow> pworld \<Rightarrow> bool" where
  "verifying H p S r w \<longleftrightarrow> S \<subseteq> set (hist w) \<and> pw_rec w = r \<and> retiring H p w"

lemma keeps_verifying_call: "mutates q = None \<Longrightarrow> keeps (verifying H p S r) (call q f)"
  unfolding call_def
  by (intro keeps_bnd) (auto simp: keeps_def ask_def lift_def Let_def verifying_def retire_guard_def)

lemma as_page_Some: "as_page a = Inr (Some pg) \<Longrightarrow> a = RPage (Inr (Some pg))"
  by (cases a) (auto simp: odd_reply_def)

lemma as_page_api: "as_page a = Inl e \<Longrightarrow> api_code e = Some c \<Longrightarrow> a = RPage (Inl e)"
  by (cases a) (auto simp: odd_reply_def)

lemma wp_verify_purged:
  assumes "verifying H p S r w"
  shows "wp (verify_purged i) (\<lambda>_ w'. verifying H p S r w' \<and> purged_seen i (hist w')) (\<lambda>_. retiring H p) w"
proof -
  let ?q = "QInstancesById [i]"
  have c: "verifying H p S r (w\<lparr>hist := (?q, a) # hist w\<rparr>)" for a
    using assms by (auto simp: verifying_def retire_guard_def)
  have g: "retiring H p (w\<lparr>hist := (?q, a) # hist w\<rparr>)" for a using c by (simp add: verifying_def)
  let ?a = "answer (env w) (hist w) ?q"
  show ?thesis
  proof (cases "as_page ?a")
    case (Inl e)
    then show ?thesis
      unfolding verify_purged_def wp_try_call using as_page_api [OF Inl] c g
      by (auto simp: wp_rules purged_seen_def)
  next
    case (Inr out)
    then show ?thesis
      unfolding verify_purged_def wp_try_call using as_page_Some [of ?a] c g
      by (auto simp: wp_rules purged_seen_def split: option.splits)
  qed
qed

lemma wp_verify_all_purged:
  assumes "verifying H p S r w"
  shows "wp (foreach ids verify_purged)
    (\<lambda>_ w'. verifying H p S r w' \<and> (\<forall>i \<in> set ids. purged_seen i (hist w'))) (\<lambda>_. retiring H p) w"
proof (rule wp_foreach_done [where I = "\<lambda>ahead w'. verifying H p S r w' \<and> (\<forall>i \<in> set ahead. purged_seen i (hist w'))"])
  show "verifying H p S r w \<and> (\<forall>i \<in> set []. purged_seen i (hist w))" using assms by simp
next
  fix ahead i rest v
  assume J: "verifying H p S r v \<and> (\<forall>i \<in> set ahead. purged_seen i (hist v))"
  then have "verifying H p (S \<union> set (hist v)) r v" by (simp add: verifying_def)
  from wp_verify_purged [OF this, of i]
  show "wp (verify_purged i) (\<lambda>_ w'. verifying H p S r w' \<and> (\<forall>i \<in> set (ahead @ [i]). purged_seen i (hist w')))
     (\<lambda>_. retiring H p) v"
    by (rule wp_conseq) (use J purged_seen_mono in \<open>auto simp: verifying_def\<close>)
qed

lemma collect_sound:
  assumes "scan_ok (collect_reservation p) fmempty rss = Inr live" and "fmlookup live i = Some v"
  shows "in_id v = i \<and> (\<exists>rs \<in> set rss. rs_owner rs = aws_account (nw_aws (pl_network p)) \<and> v \<in> set (rs_instances rs))"
proof -
  let ?P = "\<lambda>A m. \<forall>i v. fmlookup m i = Some v \<longrightarrow> in_id v = i \<and> v \<in> A"
  let ?A = "\<Union>rs \<in> {rs \<in> set rss. rs_owner rs = aws_account (nw_aws (pl_network p))}. set (rs_instances rs)"
  have one: "?P ?A m'" if rs: "rs \<in> set rss" "?P ?A m" and m': "collect_reservation p m rs = Inr m'" for rs m m'
  proof -
    have o: "rs_owner rs = aws_account (nw_aws (pl_network p))" and s: "scan_ok collect_instance m (rs_instances rs) = Inr m'"
      using m' by (auto simp: collect_reservation_def split: if_splits)
    have "set (rs_instances rs) \<subseteq> ?A" using rs(1) o by auto
    then show ?thesis
      by (intro scan_ok_invariant [OF s, where P = "?P ?A"]) (use rs(2) in \<open>auto simp: collect_instance_def split: if_splits\<close>)
  qed
  have "?P ?A live"
    by (rule scan_ok_invariant [OF assms(1)]) (simp, rule one)
  then show ?thesis using assms(2) by blast
qed

definition confirmed :: "oprec \<Rightarrow> eip_map \<Rightarrow> target \<Rightarrow> bool" where
  "confirmed r found t \<longleftrightarrow> (\<forall>a ad. fmlookup found (tg_name t) = Some a \<longrightarrow> nd_address (node_at r (tg_name t)) = Some ad \<longrightarrow>
     ad_allocation ad = [] \<or> ad_allocation ad = ea_alloc a)"

lemma keeps_verifying_verify: "keeps (verifying H p S r) (verify_released i)"
  unfolding verify_released_def by (intro keeps_bnd keeps_attempt keeps_verifying_call) (auto split: sum.splits)

lemma wp_confirm_address:
  assumes "verifying H p S r w"
  shows "wp (confirm_address r found t) (\<lambda>_ w'. verifying H p S r w' \<and> confirmed r found t) (\<lambda>_. retiring H p) w"
proof -
  have v: "wp (wrap x (verify_released i)) (\<lambda>_. verifying H p S r) (\<lambda>_. verifying H p S r) w" for x i
    by (intro keeps_wp [OF keeps_wrap [OF keeps_verifying_verify]] assms)
  then have v: "wp (wrap x (verify_released i)) (\<lambda>_ w'. verifying H p S r w') (\<lambda>_. retiring H p) w" for x i
    by (rule wp_conseq) (simp_all add: verifying_def)
  show ?thesis
    unfolding confirm_address_def Let_def confirmed_def
    using assms v
    by (cases "fmlookup found (tg_name t)"; cases "nd_address (node_at r (tg_name t))")
       (auto simp: wp_rules verifying_def)
qed

lemma wp_confirm_all:
  assumes "verifying H p S r w"
  shows "wp (foreach ts (confirm_address r found))
    (\<lambda>_ w'. verifying H p S r w' \<and> (\<forall>t \<in> set ts. confirmed r found t)) (\<lambda>_. retiring H p) w"
  by (rule wp_foreach_done [where I = "\<lambda>ahead w'. verifying H p S r w' \<and> (\<forall>t \<in> set ahead. confirmed r found t)"])
     (use assms in \<open>auto intro!: wp_conseq [OF wp_confirm_address]\<close>)

lemma terminated_gone:
  assumes c: "scan_ok (collect_reservation p) fmempty (pg_reservations pg) = Inr live"
    and q: "(QInstancesById ids, RPage (Inr (Some pg))) \<in> set h"
    and t: "check_terminated H p r live t = Inr ()" "nd_instance (node_at r (tg_name t)) \<noteq> []"
    and purged: "fmlookup live (nd_instance (node_at r (tg_name t))) = None \<Longrightarrow> purged_seen (nd_instance (node_at r (tg_name t))) h"
  shows "gone H p r h t"
proof (cases "fmlookup live (nd_instance (node_at r (tg_name t)))")
  case None
  then show ?thesis using purged t(2) by (simp add: gone_def)
next
  case (Some v)
  then have "in_state v = Some ''terminated''" "in_token v = token H p t"
    using t(1) by (auto simp: check_terminated_def split: if_splits)
  with collect_sound [OF c Some] q t(2) show ?thesis
    unfolding gone_def Let_def terminated_seen_def by blast
qed

lemma wp_confirm_addresses:
  assumes "verifying H p S r w"
  shows "wp (confirm_addresses p r)
    (\<lambda>found w'. verifying H p S r w' \<and> (\<forall>t \<in> set (pl_targets p). confirmed r found t)) (\<lambda>_. retiring H p) w"
proof -
  have k: "keeps (verifying H p S r) (discover_addresses p (validation_copy r) fmempty)"
    unfolding discover_addresses_def by (intro keeps_intros keeps_verifying_call) simp
  show ?thesis
    unfolding confirm_addresses_def wp_bnd wp_sq wp_ret_fun
    by (rule wp_conseq [OF keeps_wp [OF k assms] wp_confirm_all]) (simp_all add: verifying_def)
qed

lemma wp_read_instances:
  assumes "retiring H p w"
  shows "wp (read_instances ids) (\<lambda>pg. verifying H p {(QInstancesById ids, RPage (Inr (Some pg)))} (pw_rec w))
    (\<lambda>_. retiring H p) w"
proof -
  let ?a = "answer (env w) (hist w) (QInstancesById ids)"
  have "verifying H p {(QInstancesById ids, RPage (Inr (Some pg)))} (pw_rec w) (w\<lparr>hist := (QInstancesById ids, ?a) # hist w\<rparr>)"
    if "as_page ?a = Inr (Some pg)" for pg
    using assms as_page_Some [OF that] by (simp add: verifying_def retire_guard_def)
  then show ?thesis
    using assms
    by (auto simp: read_instances_def wp_rules Let_def retire_guard_def split: sum.splits option.splits)
qed

lemma wp_retire_check:
  assumes G: "retiring H p w"
  shows "wp (retire_check H p)
    (\<lambda>found w'. retiring H p w' \<and> pw_rec w' = pw_rec w \<and>
       (\<forall>t \<in> set (pl_targets p). gone H p (pw_rec w) (hist w') t \<and> confirmed (pw_rec w) found t))
    (\<lambda>_. retiring H p) w"
proof -
  define r where "r = pw_rec w"
  let ?named = "\<forall>t \<in> set (pl_targets p). nd_instance (node_at r (tg_name t)) \<noteq> []"
  let ?Q = "\<lambda>found w'. retiring H p w' \<and> pw_rec w' = r \<and>
     (\<forall>t \<in> set (pl_targets p). gone H p r (hist w') t \<and> confirmed r found t)"
  have named: "wp (foreach (pl_targets p) (check_instance_known r)) (\<lambda>_ w'. w' = w \<and> ?named) (\<lambda>_. retiring H p) w"
    by (rule wp_foreach_done [where I = "\<lambda>ahead w'. w' = w \<and> (\<forall>t \<in> set ahead. nd_instance (node_at r (tg_name t)) \<noteq> [])"])
       (use G in \<open>auto simp: check_instance_known_def Let_def wp_reject_if\<close>)
  have fin: "wp (confirm_addresses p r) ?Q (\<lambda>_. retiring H p) v"
    if v: "verifying H p {(QInstancesById (instances_of p r), RPage (Inr (Some pg)))} r v" and ?named
      and live: "scan_ok (collect_reservation p) fmempty (pg_reservations pg) = Inr live"
      and purged: "\<forall>i \<in> set (filter (\<lambda>i. fmlookup live i = None) (instances_of p r)). purged_seen i (hist v)"
      and ok: "\<forall>t \<in> set (pl_targets p). check_terminated H p r live t = Inr ()" for pg live v
  proof -
    have gone: "gone H p r (hist v) t" if "t \<in> set (pl_targets p)" for t
      by (rule terminated_gone [OF live, where ids = "instances_of p r"])
         (use v ok \<open>?named\<close> purged that in \<open>auto simp: verifying_def instances_of_def\<close>)
    have "verifying H p (set (hist v)) r v" using v by (simp add: verifying_def)
    then show ?thesis
    proof (rule wp_conseq [OF wp_confirm_addresses])
      fix found v'
      assume a: "verifying H p (set (hist v)) r v' \<and> (\<forall>t \<in> set (pl_targets p). confirmed r found t)"
      then have "set (hist v) \<subseteq> set (hist v')" by (simp add: verifying_def)
      then show "?Q found v'" using a gone_mono [OF gone] by (simp add: verifying_def)
    qed
  qed
  have live: "wp (sq (foreach (filter (\<lambda>i. fmlookup live i = None) (instances_of p r)) verify_purged)
       (sq (lift (each_ok (check_terminated H p r live) (pl_targets p))) (confirm_addresses p r))) ?Q (\<lambda>_. retiring H p) v"
    if v: "verifying H p {(QInstancesById (instances_of p r), RPage (Inr (Some pg)))} r v" and n: ?named
      and l: "scan_ok (collect_reservation p) fmempty (pg_reservations pg) = Inr live" for pg live v
    unfolding wp_sq wp_lift
  proof (rule wp_conseq [OF wp_verify_all_purged [OF v]])
    fix v1
    assume a: "verifying H p {(QInstancesById (instances_of p r), RPage (Inr (Some pg)))} r v1 \<and>
      (\<forall>i \<in> set (filter (\<lambda>i. fmlookup live i = None) (instances_of p r)). purged_seen i (hist v1))"
    then have "wp (confirm_addresses p r) ?Q (\<lambda>_. retiring H p) v1"
      if "each_ok (check_terminated H p r live) (pl_targets p) = Inr ()"
      using that fin [OF _ n l] by (simp add: each_ok_iff)
    moreover have "retiring H p v1" using a by (simp add: verifying_def)
    ultimately show "case each_ok (check_terminated H p r live) (pl_targets p) of
      Inl e \<Rightarrow> retiring H p v1 | Inr u \<Rightarrow> wp (confirm_addresses p r) ?Q (\<lambda>_. retiring H p) v1"
      by (simp split: sum.splits)
  qed simp
  have page: "wp (bnd (read_instances (instances_of p r)) (\<lambda>pg.
     bnd (lift (scan_ok (collect_reservation p) fmempty (pg_reservations pg))) (\<lambda>live.
     sq (foreach (filter (\<lambda>i. fmlookup live i = None) (instances_of p r)) verify_purged)
     (sq (lift (each_ok (check_terminated H p r live) (pl_targets p)))
     (confirm_addresses p r))))) ?Q (\<lambda>_. retiring H p) w" if n: ?named
    unfolding wp_bnd wp_lift
  proof (rule wp_conseq [OF wp_read_instances [OF G, of "instances_of p r", folded r_def]])
    fix pg v
    assume v: "verifying H p {(QInstancesById (instances_of p r), RPage (Inr (Some pg)))} r v"
    show "case scan_ok (collect_reservation p) fmempty (pg_reservations pg) of
      Inl e \<Rightarrow> retiring H p v
    | Inr live \<Rightarrow> wp (sq (foreach (filter (\<lambda>i. fmlookup live i = None) (instances_of p r)) verify_purged)
       (sq (lift (each_ok (check_terminated H p r live) (pl_targets p))) (confirm_addresses p r))) ?Q (\<lambda>_. retiring H p) v"
      using v live [OF v n] by (simp add: verifying_def split: sum.splits)
  qed simp
  show ?thesis
    unfolding retire_check_def wp_bnd [of "gets _"] wp_gets wp_sq [of "foreach _ _" "bnd _ _"] r_def [symmetric]
    by (rule wp_conseq [OF named]) (use page in auto)
qed

section \<open>The release loop\<close>

definition proven :: "hasher \<Rightarrow> plan \<Rightarrow> pworld \<Rightarrow> bool" where
  "proven H p w \<longleftrightarrow> retiring H p w \<and> rc_plan (pw_rec w) = p \<and> (\<forall>t \<in> set (pl_targets p). gone H p (pw_rec w) (hist w) t)"

definition same_other :: "string \<Rightarrow> oprec \<Rightarrow> oprec \<Rightarrow> bool" where
  "same_other x r r' \<longleftrightarrow> (\<forall>y. y \<noteq> x \<longrightarrow> nd_address (node_at r' y) = nd_address (node_at r y))"

lemma same_other_trans: "same_other x r r' \<Longrightarrow> same_other x r' r'' \<Longrightarrow> same_other x r r''"
  by (simp add: same_other_def)

lemma same_other_set: "same_other x r (set_node x n r)"
  by (simp add: same_other_def)

lemma gone_cong:
  assumes "gone H p r h t" and "nd_instance (node_at r' (tg_name t)) = nd_instance (node_at r (tg_name t))" and "set h \<subseteq> set h'"
  shows "gone H p r' h' t"
proof -
  have "gone H p r' h t" using assms(1,2) by (simp add: gone_def)
  then show ?thesis by (rule gone_mono [OF _ assms(3)])
qed

lemma proven_address:
  assumes "proven H p w"
  shows "proven H p (w\<lparr>pw_rec := set_node x ((node_at (pw_rec w) x)\<lparr>nd_address := a\<rparr>) (pw_rec w)\<rparr>)"
  using assms gone_cong [of H p "pw_rec w" "hist w" _ "set_node x ((node_at (pw_rec w) x)\<lparr>nd_address := a\<rparr>) (pw_rec w)" "hist w"]
  by (fastforce simp: proven_def node_at_set)

lemma proven_ask:
  assumes "proven H p w" and "mutates q = None"
  shows "proven H p (w\<lparr>hist := (q, a) # hist w\<rparr>)"
  using assms gone_mono [of H p "pw_rec w" "hist w" _ "(q, a) # hist w"]
  by (auto simp: proven_def retire_guard_def)

lemma proven_release:
  assumes "proven H p w" and "journaled saved_rec (hist w) = Some (pw_rec w)" and "announces H (pw_rec w) (Release i)"
  shows "proven H p (w\<lparr>hist := (QReleaseAddress i, a) # hist w\<rparr>)"
  using assms gone_mono [of H p "pw_rec w" "hist w" _ "(QReleaseAddress i, a) # hist w"]
  by (auto simp: proven_def retire_guard_def)

lemma wp_proven_checkpoint:
  assumes I: "proven H p w"
    and Q: "\<And>w' t. proven H p w' \<Longrightarrow> journaled saved_rec (hist w') = Some (pw_rec w') \<Longrightarrow> pw_rec w' = stamp t (pw_rec w) \<Longrightarrow> Q () w'"
    and E: "\<And>e w'. retiring H p w' \<Longrightarrow> E e w'"
  shows "wp (checkpoint owner) Q E w"
proof -
  let ?r = "stamp (clock (env w) (hist w)) (pw_rec w)"
  have J: "proven H p (w\<lparr>pw_rec := ?r, hist := (QSave ?r owner, a) # hist w\<rparr>)" for a
    using I gone_cong [of H p "pw_rec w" "hist w" _ ?r "(QSave ?r owner, a) # hist w"]
    by (auto simp: proven_def retire_guard_def)
  show ?thesis
    unfolding checkpoint_def
    using J by (auto simp: wp_rules Let_def proven_def split: sum.splits intro!: Q E)
qed

lemma wp_release_found:
  assumes I: "proven H p w" and t: "t \<in> set (pl_targets p)"
    and ad: "nd_address (node_at (pw_rec w) (tg_name t)) = Some ad" "ad_allocation (releasing a ad) = ea_alloc a"
    and Q: "\<And>w'. proven H p w' \<Longrightarrow> same_other (tg_name t) (pw_rec w) (pw_rec w') \<Longrightarrow> Q () w'"
    and E: "\<And>e w'. retiring H p w' \<Longrightarrow> E e w'"
  shows "wp (release_found owner (tg_name t) a) Q E w"
proof -
  let ?x = "tg_name t"
  define w1 where "w1 = w\<lparr>pw_rec := set_node ?x ((node_at (pw_rec w) ?x)\<lparr>nd_address := Some (releasing a ad)\<rparr>) (pw_rec w)\<rparr>"
  have I1: "proven H p w1" unfolding w1_def by (rule proven_address [OF I])
  have s1: "same_other ?x (pw_rec w) (pw_rec w1)" by (simp add: w1_def same_other_set)
  let ?q = "QReleaseAddress (ea_alloc a)"
  have verify: "wp (verify_released i) Q E v" if v: "proven H p v" "same_other ?x (pw_rec w) (pw_rec v)" for i v
  proof -
    have "proven H p (v\<lparr>hist := (QAddressById i, b) # hist v\<rparr>)" for b by (rule proven_ask [OF v(1)]) simp
    then show ?thesis
      unfolding verify_released_def wp_try_call
      using v(2) by (auto simp: wp_rules proven_def split: sum.splits intro!: Q E)
  qed
  have "wp (checkpoint owner) (\<lambda>_. wp (sq (wrap ''release; resume reconciles address absence'' (call ?q as_unit))
     (bnd (get_node ?x) (\<lambda>n. verify_released (allocation_of n)))) Q E) E w1"
  proof (rule wp_proven_checkpoint [OF I1 _ E])
    fix w2 ts
    assume I2: "proven H p w2" and s2: "journaled saved_rec (hist w2) = Some (pw_rec w2)" and r2: "pw_rec w2 = stamp ts (pw_rec w1)"
    have "announces H (pw_rec w2) (Release (ea_alloc a))"
      using t ad(2) I2 by (auto simp: r2 w1_def address_in_def proven_def releasing_def intro!: bexI [of _ t])
    then have I3: "proven H p (w2\<lparr>hist := (?q, b) # hist w2\<rparr>)" for b by (rule proven_release [OF I2 s2])
    have o: "same_other ?x (pw_rec w) (pw_rec w2)" using s1 by (simp add: r2 same_other_def)
    show "wp (sq (wrap ''release; resume reconciles address absence'' (call ?q as_unit))
     (bnd (get_node ?x) (\<lambda>n. verify_released (allocation_of n)))) Q E w2"
      unfolding wp_sq wp_wrap wp_call Let_def
      using I3 o by (auto simp: wp_bnd wp_get_node proven_def split: sum.splits intro!: verify [unfolded proven_def] E)
  qed
  then show ?thesis
    unfolding release_found_def
    by (simp add: wp_sq [of "upd_address _ _"] upd_address_Some [OF ad(1)] wp_sq [of "checkpoint _"] w1_def)
qed

definition pending_release :: "oprec \<Rightarrow> eip_map \<Rightarrow> target \<Rightarrow> bool" where
  "pending_release r found t \<longleftrightarrow> (\<forall>a ad. fmlookup found (tg_name t) = Some a \<longrightarrow>
     nd_address (node_at r (tg_name t)) = Some ad \<longrightarrow> ad_allocation (releasing a ad) = ea_alloc a)"

lemma wp_release_target:
  assumes I: "proven H p w" and t: "t \<in> set (pl_targets p)" and ok: "pending_release (pw_rec w) found t"
  shows "wp (release_target owner found t)
    (\<lambda>_ w'. proven H p w' \<and> same_other (tg_name t) (pw_rec w) (pw_rec w')) (\<lambda>_. retiring H p) w"
proof -
  let ?x = "tg_name t" and ?Q = "\<lambda>w'. proven H p w' \<and> same_other (tg_name t) (pw_rec w) (pw_rec w')"
  have fin: "wp (sq (upd_address ?x (\<lambda>ad. ad\<lparr>ad_phase := ''released''\<rparr>)) (checkpoint owner)) (\<lambda>_. ?Q) (\<lambda>_. retiring H p) v"
    if v: "?Q v" for v
  proof -
    have "proven H p (v\<lparr>pw_rec := set_node ?x ((node_at (pw_rec v) ?x)\<lparr>nd_address := b\<rparr>) (pw_rec v)\<rparr>)" for b
      by (rule proven_address) (use v in simp)
    then show ?thesis
      unfolding wp_sq upd_address_def wp_set_rec Let_def
      by (rule wp_proven_checkpoint) (use v in \<open>auto simp: same_other_def\<close>)
  qed
  have g: "retiring H p w" using I by (simp add: proven_def)
  have step: "wp (case fmlookup found ?x of None \<Rightarrow> ret () | Some a \<Rightarrow> release_found owner ?x a)
      (\<lambda>_. ?Q) (\<lambda>_. retiring H p) w" if "nd_address (node_at (pw_rec w) ?x) = Some ad" for ad
    using ok that I
    by (auto simp: wp_ret same_other_def pending_release_def split: option.splits
        intro!: wp_release_found [OF I t that] simp del: releasing_def)
  have both: "wp (sq (case fmlookup found ?x of None \<Rightarrow> ret () | Some a \<Rightarrow> release_found owner ?x a)
      (sq (upd_address ?x (\<lambda>ad. ad\<lparr>ad_phase := ''released''\<rparr>)) (checkpoint owner))) (\<lambda>_. ?Q) (\<lambda>_. retiring H p) w"
    if "nd_address (node_at (pw_rec w) ?x) = Some ad" for ad
    unfolding wp_sq [of "case_option _ _ _"]
    by (rule wp_conseq [OF step [OF that]]) (rule fin, assumption)
  have none: "?Q w" using I by (simp add: same_other_def)
  show ?thesis
    unfolding release_target_def Let_def wp_bnd [of ctx_done] wp_ctx_done wp_sq [of "reject_if _ _"] wp_reject_if
      wp_bnd [of "get_node _"] wp_get_node
    using g none both by (cases "nd_address (node_at (pw_rec w) ?x)") (simp_all add: wp_ret)
qed

lemma wp_release_loop:
  assumes I: "proven H p w" and d: "distinct (map tg_name (pl_targets p))"
    and ok: "\<forall>t \<in> set (pl_targets p). pending_release (pw_rec w) found t"
  shows "wp (foreach (pl_targets p) (release_target owner found)) (\<lambda>_. proven H p) (\<lambda>_. retiring H p) w"
proof -
  let ?I = "\<lambda>(ahead :: target list) v. proven H p v \<and> (\<forall>t \<in> set (pl_targets p). tg_name t \<notin> tg_name ` set ahead \<longrightarrow>
    nd_address (node_at (pw_rec v) (tg_name t)) = nd_address (node_at (pw_rec w) (tg_name t)))"
  have "wp (foreach (pl_targets p) (release_target owner found)) (\<lambda>_. ?I (pl_targets p)) (\<lambda>_. retiring H p) w"
  proof (rule wp_foreach_done [where I = ?I])
    show "?I [] w" using I by simp
    fix ahead t rest v
    assume s: "pl_targets p = ahead @ t # rest" and J: "?I ahead v"
    have t: "t \<in> set (pl_targets p)" and "tg_name t \<notin> tg_name ` set ahead" using s d by auto
    then have "pending_release (pw_rec v) found t" using J ok by (simp add: pending_release_def)
    with J t have "wp (release_target owner found t)
      (\<lambda>_ w'. proven H p w' \<and> same_other (tg_name t) (pw_rec v) (pw_rec w')) (\<lambda>_. retiring H p) v"
      by (intro wp_release_target) simp_all
    then show "wp (release_target owner found t) (\<lambda>_. ?I (ahead @ [t])) (\<lambda>_. retiring H p) v"
      by (rule wp_conseq) (use J in \<open>auto simp: same_other_def\<close>)
  qed
  then show ?thesis by (rule wp_conseq) simp_all
qed

lemma recorded_allocation:
  assumes "validate_compute H R p r = Inr ()" and "t \<in> set (pl_targets p)"
    and "nd_address (node_at r (tg_name t)) = Some ad"
  shows "ad_phase ad = ''allocating'' \<or> ad_allocation ad \<noteq> []"
proof -
  have "check_target p r t = Inr ()" using validate_compute_plan(11) [OF assms(1)] assms(2) by blast
  then have "validate_address p (node_at r (tg_name t)) = Inr ()" by (simp add: check_target_node_at)
  then show ?thesis using assms(3) by (auto simp: validate_address_def split: if_splits)
qed

lemma wp_release_body:
  assumes G: "retiring H p w"
  shows "wp (release_body H R p owner) (\<lambda>_. retiring H p) (\<lambda>_. retiring H p) w"
proof (cases "validate_cleanup H R p (pw_rec w) = Inr ()")
  case False
  then show ?thesis using G
    by (auto simp: release_body_def wp_bnd wp_gets wp_sq [of "lift _"] wp_lift split: sum.splits)
next
  case True
  then have c: "validate_compute H R p (pw_rec w) = Inr ()" by (auto simp: validate_cleanup_def res_simps)
  have pl: "rc_plan (pw_rec w) = p" and vp: "validate_plan H R p = Inr ()"
    using validate_compute_plan [OF c] by auto
  have d: "distinct (map tg_name (pl_targets p))" by (rule valid_plan_names [OF vp])
  define w1 where "w1 = w\<lparr>pw_rec := (pw_rec w)\<lparr>rc_runner := owner\<rparr>\<rparr>"
  have n1: "node_at (pw_rec w1) x = node_at (pw_rec w) x" for x by (simp add: w1_def node_at_def)
  have loop: "wp (sq (foreach (pl_targets p) (release_target owner found))
       (sq (set_rec (\<lambda>r. r\<lparr>rc_phase := ''addresses-released'', rc_error := None\<rparr>)) (checkpoint owner)))
       (\<lambda>_. retiring H p) (\<lambda>_. retiring H p) v"
    if v: "retiring H p v" "pw_rec v = pw_rec w1"
      and f: "\<forall>t \<in> set (pl_targets p). gone H p (pw_rec w1) (hist v) t \<and> confirmed (pw_rec w1) found t" for found v
  proof -
    have ok: "pending_release (pw_rec v) found t" if "t \<in> set (pl_targets p)" for t
      using f recorded_allocation [OF c that] that
      by (auto simp: pending_release_def confirmed_def releasing_def v(2) n1)
    have "proven H p v" using v f pl by (simp add: proven_def w1_def)
    moreover have "keeps (retiring H p) (sq (set_rec (\<lambda>r. r\<lparr>rc_phase := ''addresses-released'', rc_error := None\<rparr>)) (checkpoint owner))"
      by (intro keeps_sq keeps_retiring_set_rec keeps_retiring_checkpoint)
    ultimately show ?thesis
      unfolding wp_sq [of "foreach _ _"] using ok
      by (intro wp_conseq [OF wp_release_loop [OF _ d] keeps_wp]) (auto simp: proven_def)
  qed
  have "wp (bnd (retire_check H p) (\<lambda>found. sq (foreach (pl_targets p) (release_target owner found))
       (sq (set_rec (\<lambda>r. r\<lparr>rc_phase := ''addresses-released'', rc_error := None\<rparr>)) (checkpoint owner))))
       (\<lambda>_. retiring H p) (\<lambda>_. retiring H p) w1"
    unfolding wp_bnd
    by (rule wp_conseq [OF wp_retire_check]) (use G loop in \<open>auto simp: w1_def\<close>)
  then show ?thesis
    using True G
    by (simp add: release_body_def wp_bnd [of "gets _"] wp_gets wp_sq [of "lift _"] wp_lift wp_ret
        wp_sq [of "set_rec _"] wp_set_rec flip: w1_def)
qed

lemma keeps_retiring_settle: "keeps (retiring H p) (retire_settle ok p owner res)"
  unfolding retire_settle_def retire_interrupted_def
  by (intro keeps_bnd keeps_gets keeps_case_sum keeps_ret keeps_if keeps_sq keeps_attempt
      keeps_retiring_set_rec keeps_retiring_checkpoint keeps_retiring_call) (auto split: sum.splits)

section \<open>Property\<close>

text \<open>C3: Address retirement changes nothing but addresses it may give up: in whatever way AWS, the
  journal and the clock answer, the only change a run ever requests is the release of an address
  that the latest acknowledged save recorded as releasing, and before the first release every
  target of the plan has an instance that was seen terminated in the plan's account with the
  target's launch token, or whose exact identity was reported absent.\<close>

theorem release_after_termination:
  assumes "hist w = []"
  shows "guarded (\<lambda>older q. case mutates q of None \<Rightarrow> True
     | Some k \<Rightarrow> (\<exists>i r. k = Release i \<and> journaled saved_rec older = Some r \<and> announces H r (Release i) \<and>
         (\<forall>t \<in> set (pl_targets p). gone H p r older t))) (hist (snd (release_addresses H R p owner w)))"
proof -
  let ?G = "retiring H p"
  have acc: "keeps ?G (verify_account x)" for x
    unfolding verify_account_def by (intro keeps_bnd keeps_wrap keeps_retiring_call) auto
  have pool: "keeps ?G (verify_pool n f)" for n f
    unfolding verify_pool_def
    by (intro keeps_bnd keeps_wrap keeps_retiring_call) (auto split: option.splits list.splits prod.splits)
  have body: "keeps ?G (release_body H R p owner)" by (rule wp_keeps) (rule wp_release_body)
  have "keeps ?G (release_addresses H R p owner)"
    unfolding release_addresses_def
    by (intro keeps_intros acc pool keeps_retiring_call keeps_retiring_set_rec body keeps_retiring_settle) simp
  then have "?G (snd (release_addresses H R p owner w))" using assms by (simp add: keeps_def)
  then show ?thesis by (simp add: retire_guard_def [abs_def])
qed

end
