(* ===== verification/Provision_Sample.thy ===== *)
theory Provision_Sample
  imports Ipam_Release
begin

text \<open>
  A network in the public address mode with one host, and AWS and the journal around it, for the
  witnesses: its provisioning launches the instance, allocates an address and associates it, and its
  retirement releases the address once the instance is terminated.
\<close>

definition public_network :: network where
  "public_network = sample_network\<lparr>nw_aws := (nw_aws sample_network)\<lparr>aws_provision := Some (sample_footprint\<lparr>fp_public := True,
       fp_pool := ''ipam-pool-00000000000000000''\<rparr>)\<rparr>,
     nw_nodes := [\<lparr>ng_name = ''val'', ng_role = ''validator'', ng_count = 1, ng_arch = ''amd64'', ng_type = ''t3.large''\<rparr>]\<rparr>"

definition public_plan :: plan where
  "public_plan = build sample_hash public_network sample_roots"

lemma public_plan_valid: "validate_plan sample_hash sample_refs public_plan = Inr ()"
  by code_simp

definition public_target :: target where
  "public_target = hd (pl_targets public_plan)"

definition public_tags :: tag_list where
  "public_tags = [(''Name'', ''devnet-a-val-001''), (''net'', ''devnet-a''), (''dashnet:managed-by'', managed_by),
     (''dashnet:network'', ''devnet-a''), (''dashnet:generation'', itoa_int 1), (''dashnet:plan'', pl_id public_plan),
     (''dashnet:node'', ''val-001''), (''dashnet:role'', ''validator'')]"

definition public_machine :: "string \<Rightarrow> inst" where
  "public_machine state = \<lparr>in_id = ''i-00000001'', in_token = token sample_hash public_plan public_target, in_image = ''ami-00000000'',
     in_type = ''t3.large'', in_arch = ''x86_64'', in_subnet = ''subnet-00000000'', in_vpc = ''vpc-00000000'', in_key = ''k'',
     in_sgs = [''sg-00000000''], in_http_tokens = Some ''required'', in_state = Some state,
     in_tags = public_tags, in_public_ip = [], in_private_ip = ''10.0.0.1'',
     in_enis = [\<lparr>en_index = Some 0, en_id = ''eni-1''\<rparr>]\<rparr>"

definition public_eip :: "bool \<Rightarrow> eip" where
  "public_eip attached = \<lparr>ea_alloc = ''eipalloc-1'', ea_ip = ''203.0.113.10'', ea_assoc = (if attached then ''eipassoc-1'' else []),
     ea_eni = (if attached then ''eni-1'' else []), ea_instance = (if attached then ''i-00000001'' else []),
     ea_pool = ''ipam-pool-00000000000000000'', ea_border = ''us-west-2'', ea_domain = ''vpc'',
     ea_tags = public_tags\<rparr>"

definition asked :: "(preq \<Rightarrow> bool) \<Rightarrow> (preq, preply) hist \<Rightarrow> bool" where
  "asked f h = list_ex (\<lambda>e. f (fst e)) h"

definition public_answer :: "(preq, preply) hist \<Rightarrow> preq \<Rightarrow> preply" where
  "public_answer h q = (case q of
     QIdentity \<Rightarrow> RText (Inr (Some ''123456789012''))
   | QPool i \<Rightarrow> RPools (Inr (Some ([\<lparr>po_id = i, po_owner = ''123456789012'', po_locale = ''us-west-2'', po_state = ''create-complete'',
       po_family = ''ipv4'', po_scope = ''public'', po_source = ''byoip'', po_service = ''ec2''\<rparr>], [])))
   | QSubnet i \<Rightarrow> RSubnets (Inr (Some [\<lparr>sn_id = i, sn_vpc = ''vpc-00000000'', sn_owner = ''123456789012'', sn_state = ''available''\<rparr>]))
   | QGroups is \<Rightarrow> RGroups (Inr (Some (map (\<lambda>i. \<lparr>gr_id = i, gr_owner = ''123456789012'', gr_vpc = ''vpc-00000000''\<rparr>) is)))
   | QKey k \<Rightarrow> RKeys (Inr (Some [k]))
   | QImage i owner \<Rightarrow> RImages (Inr (Some [\<lparr>im_id = i, im_owner = owner, im_arch = ''x86_64'', im_state = ''available'', im_root_type = ''ebs'',
       im_virtualization = ''hvm'', im_platform = [], im_products = 0, im_root = ''/dev/sda1'',
       im_mappings = [\<lparr>mp_device = ''/dev/sda1'', mp_virtual = [], mp_no_device = False, mp_ebs = Some 8\<rparr>]\<rparr>]))
   | QType t \<Rightarrow> RTypes (Inr (Some [\<lparr>ty_name = t, ty_archs = Some [''x86_64''], ty_roots = [''ebs''], ty_virtualizations = [''hvm'']\<rparr>]))
   | QAcquire p owner \<Rightarrow> RRecord (Inr (new_record public_plan 1))
   | QInstances tok \<Rightarrow> RPage (Inr (Some \<lparr>pg_reservations = (if asked (\<lambda>q. case q of QRun i \<Rightarrow> True | _ \<Rightarrow> False) h
       then [\<lparr>rs_owner = ''123456789012'', rs_instances = [public_machine ''running'']\<rparr>] else []), pg_next = []\<rparr>))
   | QRun i \<Rightarrow> RIds (Inr (Some [''i-00000001'']))
   | QAddresses \<Rightarrow> RAddresses (Inr (Some (if asked (\<lambda>q. case q of QAllocate ts \<Rightarrow> True | _ \<Rightarrow> False) h
       then [public_eip (asked (\<lambda>q. case q of QAssociate a i \<Rightarrow> True | _ \<Rightarrow> False) h)] else [])))
   | QAllocate ts \<Rightarrow> RAllocated (Inr (Some (''eipalloc-1'', ''203.0.113.10'')))
   | _ \<Rightarrow> RUnit (Inr ()))"

definition public_world :: pworld where
  "public_world = \<lparr>env = \<lparr>answer = public_answer, clock = (\<lambda>h. 100 + int (length h)), cancelled = (\<lambda>_. False)\<rparr>, hist = [],
     pw_rec = new_record public_plan 1\<rparr>"

definition public_run :: "unit res \<times> pworld" where
  "public_run = execute sample_hash sample_refs public_plan 1 1 ''runner-1'' ''v1'' 5 public_world"

section \<open>The parts\<close>

lemma public_target_parts: "tg_name public_target = ''val-001''" "tg_role public_target = ''validator''" "tg_arch public_target = ''amd64''"
  "tg_type public_target = ''t3.large''" "tg_ami public_target = ''ami-00000000''" "tg_root public_target = ''/dev/sda1''"
  by code_simp+

lemma public_targets: "pl_targets public_plan = [public_target]"
proof -
  have "length (pl_targets public_plan) = 1" by code_simp
  then show ?thesis by (cases "pl_targets public_plan") (simp_all add: public_target_def)
qed

lemma public_plan_parts: "pl_network public_plan = public_network" "pl_id public_plan = replicate 64 (CHR ''a'')"
  by (simp_all add: public_plan_def build_def Let_def sample_hash_def)

lemma public_network_parts: "aws_account (nw_aws public_network) = ''123456789012''" "aws_region (nw_aws public_network) = ''us-west-2''"
  "aws_tag_key (nw_aws public_network) = ''net''" "md_name (nw_metadata public_network) = ''devnet-a''" "ch_generation (nw_chain public_network) = 1"
  "architectures public_network = [''amd64'']" "nw_nodes public_network = [\<lparr>ng_name = ''val'', ng_role = ''validator'', ng_count = 1, ng_arch = ''amd64'', ng_type = ''t3.large''\<rparr>]"
  "aws_provision (nw_aws public_network) = Some (footprint_of public_plan)"
proof -
  show "architectures public_network = [''amd64'']" by code_simp
qed (simp_all add: public_network_def sample_network_def footprint_of_def public_plan_parts)

lemma public_footprint: "fp_public (footprint_of public_plan)" "fp_pool (footprint_of public_plan) = ''ipam-pool-00000000000000000''"
  "fp_subnet (footprint_of public_plan) = ''subnet-00000000''" "fp_vpc (footprint_of public_plan) = ''vpc-00000000''"
  "fp_sgs (footprint_of public_plan) = [''sg-00000000'']" "fp_key (footprint_of public_plan) = ''k''" "fp_root_gib (footprint_of public_plan) = 100"
  "fmlookup (fp_amis (footprint_of public_plan)) ''amd64'' = Some \<lparr>ami_id = ''ami-00000000'', ami_owner = ''099720109477''\<rparr>"
  by (simp_all add: footprint_of_def public_plan_parts public_network_def sample_footprint_def)

lemma public_network_valid: "validate_network sample_refs public_network = Inr ()" "validate_provision public_network = Inr ()"
  by code_simp+

lemma public_rebuilt: "build sample_hash public_network (fmupd ''amd64'' ''/dev/sda1'' fmempty) = public_plan"
proof -
  have "fmupd ''amd64'' ''/dev/sda1'' fmempty = sample_roots" by (simp add: sample_roots_def)
  then show ?thesis by (simp add: public_plan_def)
qed

lemma public_record_valid: "validate_record sample_hash sample_refs public_plan (new_record public_plan 1) = Inr ()"
  by code_simp

lemma public_tags_read: "read_tags public_tags = Inr (tags public_plan public_target)"
  by (simp add: read_tags_def public_tags_def check_tag_def tags_def Let_def public_plan_parts public_network_parts public_target_parts)

lemma public_find: "find_target public_plan ''val-001'' = Some public_target" "mget (tags public_plan public_target) ''dashnet:node'' = ''val-001''"
  "owned public_plan public_target (tags public_plan public_target)"
proof -
  show "find_target public_plan ''val-001'' = Some public_target" by (simp add: find_target_def public_targets public_target_parts)
  show "mget (tags public_plan public_target) ''dashnet:node'' = ''val-001''" by (simp add: tags_def Let_def mget_def public_target_parts)
  show "owned public_plan public_target (tags public_plan public_target)" by (auto simp: owned_def fmpred_iff mget_def)
qed

section \<open>The run\<close>

lemma run_call: "call q f w = (f (answer (env w) (hist w) q), w\<lparr>hist := (q, answer (env w) (hist w) q) # hist w\<rparr>)"
  by (simp add: call_def run_steps ask_def Let_def oper_defs)

lemma run_wrap: "wrap c m w = (case m w of (Inl e, v) \<Rightarrow> (Inl (At c e), v) | (Inr x, v) \<Rightarrow> (Inr x, v))"
  by (simp add: wrap_def run_steps split: prod.splits sum.splits)

abbreviation public_prep :: "(preq, preply) hist" where
  "public_prep \<equiv> map (\<lambda>q. (q, public_answer [] q)) [QType ''t3.large'', QImage ''ami-00000000'' ''099720109477'', QKey ''k'', QGroups [''sg-00000000''],
     QSubnet ''subnet-00000000'', QPool ''ipam-pool-00000000000000000'', QIdentity]"

lemma public_prepare:
  assumes "answer (env w) = public_answer"
  shows "prepare sample_hash sample_refs public_network w = (Inr public_plan, w\<lparr>hist := public_prep @ hist w\<rparr>)"
proof -
  have d: "validate_disks \<lparr>im_id = ''ami-00000000'', im_owner = ''099720109477'', im_arch = ''x86_64'', im_state = ''available'', im_root_type = ''ebs'',
       im_virtualization = ''hvm'', im_platform = [], im_products = 0, im_root = ''/dev/sda1'',
       im_mappings = [\<lparr>mp_device = ''/dev/sda1'', mp_virtual = [], mp_no_device = False, mp_ebs = Some 8\<rparr>]\<rparr> 100 = Inr ()"
    by code_simp
  show ?thesis
    by (simp add: fun_cong [OF prepare_def] run_steps run_call run_wrap assms public_network_valid public_network_parts fun_cong [OF verify_account_def]
        fun_cong [OF verify_pool_def] fun_cong [OF check_subnet_def] fun_cong [OF check_groups_def] fun_cong [OF check_key_def]
        fun_cong [OF check_arch_image_def] fun_cong [OF check_type_def] Let_def public_footprint public_answer_def check_live_group_def aws_arch_def
        d public_rebuilt public_plan_valid)
qed

lemma public_nodes: "rc_nodes (new_record public_plan 1) = fmupd ''val-001'' (node_zero\<lparr>nd_phase := ''pending'', nd_state := ''unknown''\<rparr>) fmempty"
  by (simp add: new_record_def public_targets public_target_parts)

lemma public_fresh: "rc_phase (new_record public_plan 1) = ''pending''" "rc_plan (new_record public_plan 1) = public_plan"
  by (simp_all add: new_record_def)

lemma one_node: "fmpred P (fmupd k v fmempty) = P k v" "fmupd k v (fmupd k u m) = fmupd k v m" "(fmupd k v fmempty = fmupd k u fmempty) = (v = u)"
proof -
  show "fmpred P (fmupd k v fmempty) = P k v" "fmupd k v (fmupd k u m) = fmupd k v m" by (auto simp: fmpred_iff intro: fmap_ext)
  have "fmlookup (fmupd k v fmempty) k = Some v" for v by simp
  then show "(fmupd k v fmempty = fmupd k u fmempty) = (v = u)" by (metis option.inject)
qed

lemma public_check: "check_inst sample_hash public_plan ([], fmempty) (public_machine state) =
    (if state = ''pending'' \<or> state = ''running'' then Inr ([''i-00000001''], fmupd ''val-001'' (public_machine state) fmempty)
     else Inl (At ''val-001'' (Err ''not pending/running; no implicit restart or replacement'')))"
  by (simp add: check_inst_def public_machine_def public_tags_read public_find public_target_parts same_launch_def same_groups_def
      public_footprint aws_arch_def)

abbreviation was_run :: "preq \<Rightarrow> bool" where "was_run q \<equiv> (case q of QRun i \<Rightarrow> True | _ \<Rightarrow> False)"

lemma public_discover:
  assumes "answer (env w) = public_answer"
  shows "discover sample_hash (Suc 0) public_plan w = (Inr (if asked was_run (hist w) then fmupd ''val-001'' (public_machine ''running'') fmempty else fmempty),
    w\<lparr>hist := (QInstances [], public_answer (hist w) (QInstances [])) # hist w\<rparr>)"
proof -
  show ?thesis unfolding discover_def
    by (simp add: fun_cong [OF discover_pages.simps(2)] run_steps run_wrap run_call assms public_answer_def
        check_reservation_def public_plan_parts public_network_parts public_check)
qed

lemma public_eni: "primary_eni (public_machine state) = Inr ''eni-1''" "in_public_ip (public_machine state) = []" "in_id (public_machine state) = ''i-00000001''"
  "in_state (public_machine state) = Some state"
  by (simp_all add: public_machine_def primary_eni_def check_eni_def)

lemma public_ip: "valid_ipv4 ''203.0.113.10''"
  by code_simp

lemma public_eip_parts: "ea_tags (public_eip b) = public_tags" "ea_alloc (public_eip b) = ''eipalloc-1''" "ea_ip (public_eip b) = ''203.0.113.10''"
  "ea_pool (public_eip b) = ''ipam-pool-00000000000000000''" "ea_border (public_eip b) = ''us-west-2''" "ea_domain (public_eip b) = ''vpc''"
  "ea_assoc (public_eip b) = (if b then ''eipassoc-1'' else [])" "ea_eni (public_eip b) = (if b then ''eni-1'' else [])"
  "ea_instance (public_eip b) = (if b then ''i-00000001'' else [])"
  by (simp_all add: public_eip_def)

lemma public_check_address:
  assumes "nd_address (node_at r ''val-001'') = Some ad"
  shows "check_address public_plan r live ([], fmempty) (public_eip b) =
    (if ad_allocation ad \<noteq> [] \<and> (ad_allocation ad \<noteq> ''eipalloc-1'' \<or> ad_public_ip ad \<noteq> ''203.0.113.10'')
       then Inl (At ''val-001'' (Err ''address identity changed''))
     else after (check_attachment r live ''val-001'' (public_eip b) ad) (\<lambda>_. Inr ([''eipalloc-1''], fmupd ''val-001'' (public_eip b) fmempty)))"
  using assms by (simp add: check_address_def public_eip_parts public_tags_read public_find public_target_parts public_footprint public_plan_parts
      public_network_parts public_ip Let_def)

lemma public_answers:
  "public_answer h (QAcquire p owner) = RRecord (Inr (new_record public_plan 1))" "public_answer h (QSave r owner) = RUnit (Inr ())"
  "public_answer h (QRelease p owner) = RUnit (Inr ())" "public_answer h (QRun i) = RIds (Inr (Some [''i-00000001'']))"
  "public_answer h (QAllocate ts) = RAllocated (Inr (Some (''eipalloc-1'', ''203.0.113.10'')))" "public_answer h (QAssociate a j) = RUnit (Inr ())"
  "public_answer h QAddresses = RAddresses (Inr (Some (if asked (\<lambda>q. case q of QAllocate ts \<Rightarrow> True | _ \<Rightarrow> False) h
       then [public_eip (asked (\<lambda>q. case q of QAssociate a i \<Rightarrow> True | _ \<Rightarrow> False) h)] else [])))"
  by (simp_all add: public_answer_def)

lemma run_now: "now w = (Inr (clock (env w) (hist w)), w)" "ctx_done w = (Inr (cancelled (env w) (hist w)), w)"
  by (simp_all add: now_def ctx_done_def run_steps)

abbreviation was_allocate :: "preq \<Rightarrow> bool" where "was_allocate q \<equiv> (case q of QAllocate ts \<Rightarrow> True | _ \<Rightarrow> False)"
abbreviation was_associate :: "preq \<Rightarrow> bool" where "was_associate q \<equiv> (case q of QAssociate a i \<Rightarrow> True | _ \<Rightarrow> False)"

lemma asked_simps: "asked f [] = False" "asked f ((q, r) # h) = (f q \<or> asked f h)"
  by (simp_all add: asked_def)

lemmas public_ops = run_steps run_call run_wrap run_now public_answers public_discover public_targets public_target_parts public_fresh public_nodes one_node
  public_footprint public_eni public_eip_parts public_check_address public_ip asked_simps node_at_def set_node_def stamp_def started_def
  fun_cong [OF checkpoint_def] fun_cong [OF set_rec_def] fun_cong [OF put_node_def] fun_cong [OF get_node_def] fun_cong [OF upd_address_def]
  fun_cong [OF reconcile_def] fun_cong [OF reconcile_target_def] fun_cong [OF rediscover_def] fun_cong [OF discover_addresses_def] Let_def

text \<open>A state of the run: one node, and what has been requested so far.\<close>

definition public_state :: "pworld \<Rightarrow> node \<Rightarrow> bool \<Rightarrow> bool \<Rightarrow> bool" where
  "public_state w n b1 b2 \<longleftrightarrow> env w = env public_world \<and> rc_nodes (pw_rec w) = fmupd ''val-001'' n fmempty \<and>
     asked was_run (hist w) = b1 \<and> asked was_allocate (hist w) = b2 \<and> asked was_associate (hist w) = b2"

lemma public_env: "answer (env public_world) = public_answer" "clock (env public_world) h = 100 + int (length h)" "\<not> cancelled (env public_world) h"
  by (simp_all add: public_world_def)

lemma public_hist: "hist public_world = []"
  by (simp add: public_world_def)

lemma public_launch:
  assumes "public_state w n False False" and "nd_phase n = ''pending''" and "nd_address n = None"
  shows "\<exists>v n'. launch_target sample_hash public_plan owner public_target w = (Inr (), v) \<and> public_state v n' True False \<and>
    nd_phase n' = ''present'' \<and> nd_instance n' = ''i-00000001'' \<and> nd_address n' = None"
  using assms
  by (simp add: public_state_def public_env fun_cong [OF launch_target_def] public_ops fun_cong [OF launch_def])

lemma public_ensure:
  assumes "public_state w n True False" and "nd_address n = None" and "nd_instance n = ''i-00000001''"
  shows "\<exists>v n'. ensure_addresses public_plan (fmupd ''val-001'' (public_machine ''running'') fmempty) (checkpoint owner) w = (Inr (), v) \<and>
    public_state v n' True True \<and> rc_phase (pw_rec v) = rc_phase (pw_rec w)"
  using assms
  by (simp add: public_state_def public_env public_ops fun_cong [OF ensure_addresses_def] check_primary_def fun_cong [OF ensure_target_def]
     fun_cong [OF allocate_def] fun_cong [OF check_earlier_def] intended_def fun_cong [OF adopt_def]
     fun_cong [OF associate_def] all_visible_def allocation_of_def check_attachment_def)

lemma wp_run: "m w = (Inr x, v) \<Longrightarrow> Q x v \<Longrightarrow> wp m Q E w"
  by (simp add: wp_def)

lemma wp_total: "wp m (\<lambda>_. P) (\<lambda>_ _. False) w \<Longrightarrow> \<exists>x v. m w = (Inr x, v) \<and> P v"
  by (cases "m w"; cases "fst (m w)") (auto simp: wp_def)

lemma asked_some:
  "asked was_run h \<Longrightarrow> \<exists>i a. (QRun i, a) \<in> set h" "asked was_allocate h \<Longrightarrow> \<exists>ts a. (QAllocate ts, a) \<in> set h"
  "asked was_associate h \<Longrightarrow> \<exists>x j a. (QAssociate x j, a) \<in> set h"
proof -
  have q: "was_run q \<Longrightarrow> \<exists>i. q = QRun i" "was_allocate q \<Longrightarrow> \<exists>ts. q = QAllocate ts" "was_associate q \<Longrightarrow> \<exists>x j. q = QAssociate x j" for q
    by (cases q; simp)+
  show "asked was_run h \<Longrightarrow> \<exists>i a. (QRun i, a) \<in> set h" "asked was_allocate h \<Longrightarrow> \<exists>ts a. (QAllocate ts, a) \<in> set h"
    "asked was_associate h \<Longrightarrow> \<exists>x j a. (QAssociate x j, a) \<in> set h"
    unfolding asked_def list_ex_iff using q by (metis prod.collapse)+
qed

lemma public_stay: "public_state w n b1 b2 \<Longrightarrow> mutates q = None \<Longrightarrow> public_state (w\<lparr>hist := (q, a) # hist w\<rparr>) n b1 b2"
  by (cases q) (auto simp: public_state_def asked_simps)

lemma public_seen:
  assumes "public_state w n True False" and "nd_phase n = ''present''" and "nd_instance n = ''i-00000001''" and "nd_address n = None"
  shows "\<exists>v n'. reconcile public_plan (fmupd ''val-001'' (public_machine ''running'') fmempty) True w = (Inr (), v) \<and> public_state v n' True False \<and>
    nd_state n' = ''running'' \<and> nd_instance n' = ''i-00000001'' \<and> nd_address n' = None"
  using assms by (simp add: public_state_def public_env public_ops)

lemma public_done:
  assumes "public_state w n True True"
  shows "\<exists>v. sq (set_rec (\<lambda>r. r\<lparr>rc_phase := ''compute-ready''\<rparr>)) (checkpoint owner) w = (Inr (), v) \<and> public_state v n True True"
  using assms by (simp add: public_state_def public_env public_ops)

lemma public_wait:
  assumes w: "public_state w n True False" and n: "nd_phase n = ''present''" "nd_instance n = ''i-00000001''" "nd_address n = None"
  shows "wp (wait_running sample_hash public_plan (Suc 0) (Suc 0) owner) (\<lambda>_ v. \<exists>n'. public_state v n' True True) E w"
proof -
  let ?live = "fmupd ''val-001'' (public_machine ''running'') fmempty"
  let ?w = "w\<lparr>hist := (QInstances [], public_answer (hist w) (QInstances [])) # hist w\<rparr>"
  have w1: "public_state ?w n True False" by (rule public_stay [OF w]) simp
  have e: "answer (env w) = public_answer" "asked was_run (hist w)" using w by (simp_all add: public_state_def public_env)
  have d: "discover sample_hash (Suc 0) public_plan w = (Inr ?live, ?w)" by (simp add: public_discover [OF e(1)] e(2))
  obtain v1 n1 where v1: "reconcile public_plan ?live True ?w = (Inr (), v1)" "public_state v1 n1 True False" "nd_state n1 = ''running''"
    "nd_instance n1 = ''i-00000001''" "nd_address n1 = None" using public_seen [OF w1 n] by blast
  have r: "all_running (pw_rec v1)" using v1(2,3) by (simp add: all_running_def public_state_def one_node)
  obtain v2 n2 where v2: "ensure_addresses public_plan ?live (checkpoint owner) v1 = (Inr (), v2)" "public_state v2 n2 True True"
    using public_ensure [OF v1(2,5,4)] by blast
  obtain v3 where v3: "sq (set_rec (\<lambda>r. r\<lparr>rc_phase := ''compute-ready''\<rparr>)) (checkpoint owner) v2 = (Inr (), v3)" "public_state v3 n2 True True"
    using public_done [OF v2(2)] by blast
  have "wait_running sample_hash public_plan (Suc 0) (Suc 0) owner w =
      sq (set_rec (\<lambda>r. r\<lparr>rc_phase := ''compute-ready''\<rparr>)) (sq (checkpoint owner) (ret ())) v2"
    by (simp add: run_steps d v1(1) r public_footprint v2(1))
  also have "\<dots> = (Inr (), v3)" using v3(1) by (simp add: run_steps split: prod.splits sum.splits)
  finally show ?thesis using v3(2) by (auto simp: wp_def)
qed

text \<open>The provisioning succeeds: it launches the instance, allocates its address and associates it.\<close>

lemma public_runs: "fst public_run = Inr () \<and> (\<exists>n. public_state (snd public_run) n True True)"
proof -
  let ?acq = "(QAcquire public_plan ''runner-1'', RRecord (Inr (new_record public_plan 1)))"
  let ?w = "public_world\<lparr>hist := ?acq # public_prep, pw_rec := new_record public_plan 1\<rparr>"
  let ?Q = "\<lambda>_ v. \<exists>n. public_state v n True True"
  let ?n = "node_zero\<lparr>nd_phase := ''pending'', nd_state := ''unknown''\<rparr>"
  have w: "public_state ?w ?n False False" by (simp add: public_state_def public_nodes asked_simps)
  have last: "wp (sq (foreach [public_target] (launch_target sample_hash public_plan ''runner-1'')) (wait_running sample_hash public_plan (Suc 0) (Suc 0) ''runner-1''))
      (\<lambda>_. ?Q ()) (\<lambda>_ _. False) v" if v: "public_state v ?n False False" for v
  proof -
    obtain u n' where u: "launch_target sample_hash public_plan ''runner-1'' public_target v = (Inr (), u)" "public_state u n' True False"
      "nd_phase n' = ''present''" "nd_instance n' = ''i-00000001''" "nd_address n' = None"
      using public_launch [OF v, of "''runner-1''"] by (auto simp: node_zero_def)
    have "foreach [public_target] (launch_target sample_hash public_plan ''runner-1'') v = (Inr (), u)" using u(1) by (simp add: run_steps)
    then show ?thesis unfolding wp_sq [of "foreach _ _"] by (rule wp_run) (rule public_wait [OF u(2-5)])
  qed
  have body: "wp (execute_body sample_hash sample_refs public_plan (Suc 0) (Suc 0) ''runner-1'' ''v1'') (\<lambda>_. ?Q ()) (\<lambda>_ _. False) ?w"
  proof -
    define m where "m = sq (foreach [public_target] (launch_target sample_hash public_plan ''runner-1''))
      (wait_running sample_hash public_plan (Suc 0) (Suc 0) ''runner-1'')"
    have body: "execute_body sample_hash sample_refs public_plan (Suc 0) (Suc 0) ''runner-1'' ''v1'' = bnd (gets pw_rec) (\<lambda>r.
      sq (lift (validate_record sample_hash sample_refs public_plan r))
      (sq (reject_if (rc_phase r = ''addresses-released'') (Err ''allocation retired; IPAM addresses have been released''))
      (sq (reject_if (cleanup_began r) (Err ''address cleanup began; provisioning cannot recreate the footprint''))
      (sq (set_rec (started ''runner-1'' ''v1'')) (sq (checkpoint ''runner-1'') (bnd (discover sample_hash (Suc 0) public_plan) (\<lambda>live.
      sq (reconcile public_plan live False)
      (sq (if fp_public (footprint_of public_plan) then bnd (rediscover public_plan live) (\<lambda>_. ret ()) else ret ()) (sq (checkpoint ''runner-1'') m)))))))))"
      unfolding execute_body_def m_def public_targets ..
    have after: "case m v of (Inl e, u) \<Rightarrow> False | (Inr x, u) \<Rightarrow> \<exists>n. public_state u n True True" if "public_state v ?n False False" for v
      using last [OF that] by (simp add: wp_def m_def)
    show ?thesis
      unfolding wp_def body
      by (simp add: public_ops public_record_valid cleanup_began_def node_zero_def public_env all_visible_def allocation_of_def)
        (rule after, simp add: public_state_def one_node asked_simps public_env public_nodes node_zero_def)
  qed
  obtain v n where v: "execute_body sample_hash sample_refs public_plan (Suc 0) (Suc 0) ''runner-1'' ''v1'' ?w = (Inr (), v)" "public_state v n True True"
    using wp_total [OF body] by auto
  let ?v = "v\<lparr>hist := (QRelease public_plan ''runner-1'', RUnit (Inr ())) # hist v\<rparr>"
  have e: "env v = env public_world" using v(2) by (simp add: public_state_def)
  have r: "public_run = (Inr (), ?v)"
    unfolding public_run_def
    by (simp add: fun_cong [OF execute_def] run_steps run_call run_wrap public_plan_valid public_plan_parts public_prepare public_env public_answers
        fun_cong [OF set_rec_def] v(1) e fun_cong [OF settle_def] fun_cong [OF release_claim_def] public_hist del: list.map)
  have "public_state ?v n True True" by (rule public_stay [OF v(2)]) simp
  then show ?thesis unfolding r by auto
qed

theorem execute_writes_ahead_witness:
  "\<exists>i ts a j. announced sample_hash (hist (snd public_run)) \<and> saves_valid sample_hash sample_refs public_plan (hist (snd public_run)) \<and>
    {Launch i, Allocate ts, Associate a j} \<subseteq> {k. \<exists>e \<in> set (hist (snd public_run)). mutates (fst e) = Some k}"
proof -
  let ?h = "hist (snd public_run)"
  have t: "ticking public_world" by (simp add: ticking_def public_world_def)
  have g: "announced sample_hash ?h \<and> saves_valid sample_hash sample_refs public_plan ?h"
    unfolding public_run_def by (rule execute_writes_ahead [OF public_hist t])
  have s: "asked was_run ?h" "asked was_allocate ?h" "asked was_associate ?h" using public_runs by (auto simp: public_state_def)
  obtain i r1 where 1: "(QRun i, r1) \<in> set ?h" using asked_some(1) [OF s(1)] by blast
  obtain ts r2 where 2: "(QAllocate ts, r2) \<in> set ?h" using asked_some(2) [OF s(2)] by blast
  obtain a j r3 where 3: "(QAssociate a j, r3) \<in> set ?h" using asked_some(3) [OF s(3)] by blast
  have "\<exists>e \<in> set ?h. mutates (fst e) = Some (Launch i)" by (rule bexI [OF _ 1]) simp
  moreover have "\<exists>e \<in> set ?h. mutates (fst e) = Some (Allocate ts)" by (rule bexI [OF _ 2]) simp
  moreover have "\<exists>e \<in> set ?h. mutates (fst e) = Some (Associate a j)" by (rule bexI [OF _ 3]) simp
  ultimately show ?thesis using g by blast
qed

lemma runs_some: "(QRun i, r) \<in> set h \<Longrightarrow> runs h \<noteq> []"
  by (induction h rule: runs.induct) auto

theorem never_relaunches_witness:
  "runs (hist (snd public_run)) = [run_input sample_hash public_plan public_target] \<and>
    (\<exists>r0. (QAcquire public_plan ''runner-1'', RRecord (Inr r0)) \<in> set (hist (snd public_run)) \<and> nd_phase (node_at r0 ''val-001'') = ''pending'')"
proof -
  let ?h = "hist (snd public_run)"
  have "asked was_run ?h" using public_runs by (auto simp: public_state_def)
  then obtain i r where "(QRun i, r) \<in> set ?h" using asked_some(1) by blast
  then have ne: "runs ?h \<noteq> []" by (rule runs_some)
  obtain ls where ls: "runs ?h = rev (map (run_input sample_hash public_plan) ls)" "subseq ls [public_target]"
    "\<forall>t \<in> set ls. \<exists>r0. (QAcquire public_plan ''runner-1'', RRecord (Inr r0)) \<in> set ?h \<and> nd_phase (node_at r0 (tg_name t)) = ''pending''"
    using never_relaunches [OF public_hist, of ?h sample_hash sample_refs public_plan 1 1 "''runner-1''" "''v1''" 5]
    by (auto simp: public_run_def public_targets)
  have "ls = [public_target]" using ls(1,2) ne by (cases ls) (auto simp: subseq_Cons2_iff split: if_splits)
  then show ?thesis using ls(1,3) by (simp add: public_target_parts)
qed

section \<open>The retirement\<close>

definition retired_record :: oprec where
  "retired_record = (new_record public_plan 1)\<lparr>rc_phase := ''compute-ready'', rc_nodes := fmupd ''val-001'' \<lparr>nd_phase = ''present'', nd_attempted = 1,
     nd_instance = ''i-00000001'', nd_state = ''running'', nd_observed = 2, nd_address = Some \<lparr>ad_phase = ''associated'', ad_attempted = 1,
       ad_allocation = ''eipalloc-1'', ad_public_ip = ''203.0.113.10'', ad_association = ''eipassoc-1''\<rparr>\<rparr> fmempty\<rparr>"

definition retire_answer :: "(preq, preply) hist \<Rightarrow> preq \<Rightarrow> preply" where
  "retire_answer h q = (case q of
     QAcquire p owner \<Rightarrow> RRecord (Inr retired_record)
   | QInstancesById is \<Rightarrow> RPage (Inr (Some \<lparr>pg_reservations = [\<lparr>rs_owner = ''123456789012'', rs_instances = [public_machine ''terminated'']\<rparr>], pg_next = []\<rparr>))
   | QAddresses \<Rightarrow> RAddresses (Inr (Some [public_eip False]))
   | QAddressById a \<Rightarrow> RAddresses (Inl (Api ''InvalidAllocationID.NotFound''))
   | _ \<Rightarrow> public_answer h q)"

definition retire_world :: pworld where
  "retire_world = public_world\<lparr>env := (env public_world)\<lparr>answer := retire_answer\<rparr>\<rparr>"

definition retire_run :: "unit res \<times> pworld" where
  "retire_run = release_addresses sample_hash sample_refs public_plan ''runner-1'' retire_world"

lemma retired_record_valid: "validate_cleanup sample_hash sample_refs public_plan retired_record = Inr ()"
  by code_simp

lemma retire_env: "answer (env retire_world) = retire_answer" "clock (env retire_world) h = 100 + int (length h)" "\<not> cancelled (env retire_world) h"
  "hist retire_world = []"
  by (simp_all add: retire_world_def public_world_def)

lemma retire_checks:
  "collect_reservation public_plan fmempty \<lparr>rs_owner = ''123456789012'', rs_instances = [public_machine ''terminated'']\<rparr> =
    Inr (fmupd ''i-00000001'' (public_machine ''terminated'') fmempty)"
  "in_token (public_machine state) = token sample_hash public_plan public_target" "in_tags (public_machine state) = public_tags"
  by (simp_all add: collect_reservation_def collect_instance_def public_plan_parts public_network_parts public_machine_def)

definition retire_node :: "node" where
  "retire_node = \<lparr>nd_phase = ''present'', nd_attempted = 1, nd_instance = ''i-00000001'', nd_state = ''running'', nd_observed = 2,
     nd_address = Some \<lparr>ad_phase = ''associated'', ad_attempted = 1, ad_allocation = ''eipalloc-1'', ad_public_ip = ''203.0.113.10'',
       ad_association = ''eipassoc-1''\<rparr>\<rparr>"

lemma retired_parts: "rc_nodes retired_record = fmupd ''val-001'' retire_node fmempty" "rc_phase retired_record = ''compute-ready''"
  by (simp_all add: retired_record_def retire_node_def)

lemma map_one: "fmmap f (fmupd k v fmempty) = fmupd k (f v) fmempty"
  by (rule fmap_ext) simp

text \<open>The checks pass: the instance is terminated and its address is found detached.\<close>

lemma retire_checked:
  assumes "answer (env w) = retire_answer" and "rc_nodes (pw_rec w) = fmupd ''val-001'' retire_node fmempty"
  shows "retire_check sample_hash public_plan w = (Inr (fmupd ''val-001'' (public_eip False) fmempty),
    w\<lparr>hist := (QAddresses, RAddresses (Inr (Some [public_eip False]))) # (QInstancesById [''i-00000001''], retire_answer [] (QInstancesById [])) # hist w\<rparr>)"
  using assms
  by (simp add: fun_cong [OF retire_check_def] public_ops instances_of_def fun_cong [OF check_instance_known_def] fun_cong [OF read_instances_def]
      retire_answer_def retire_checks check_terminated_def public_tags_read public_find retire_node_def fun_cong [OF confirm_addresses_def]
      fun_cong [OF confirm_address_def] validation_copy_def detached_def map_one all_visible_def allocation_of_def check_attachment_def)

lemma retire_released:
  assumes "env w = env retire_world" and "rc_nodes (pw_rec w) = fmupd ''val-001'' retire_node fmempty"
  shows "\<exists>v. release_target ''runner-1'' (fmupd ''val-001'' (public_eip False) fmempty) public_target w = (Inr (), v) \<and> env v = env retire_world \<and>
    (QReleaseAddress ''eipalloc-1'', RUnit (Inr ())) \<in> set (hist v) \<and> hist w = drop (length (hist v) - length (hist w)) (hist v)"
  using assms
  by (simp add: fun_cong [OF release_target_def] public_ops retire_env fun_cong [OF release_found_def] releasing_def retire_node_def retire_answer_def
      public_answer_def fun_cong [OF verify_released_def] allocation_of_def)

lemma retire_runs: "\<exists>v. retire_run = (Inr (), v) \<and> (QReleaseAddress ''eipalloc-1'', RUnit (Inr ())) \<in> set (hist v)"
proof -
  let ?pool = "(QPool ''ipam-pool-00000000000000000'', public_answer [] (QPool ''ipam-pool-00000000000000000''))"
  let ?w = "retire_world\<lparr>hist := [(QAcquire public_plan ''runner-1'', RRecord (Inr retired_record)), ?pool, (QIdentity, public_answer [] QIdentity)],
    pw_rec := retired_record\<rparr>"
  let ?w1 = "retire_world\<lparr>hist := [(QAcquire public_plan ''runner-1'', RRecord (Inr retired_record)), ?pool, (QIdentity, public_answer [] QIdentity)],
    pw_rec := retired_record\<lparr>rc_runner := ''runner-1''\<rparr>\<rparr>"
  let ?live = "fmupd ''val-001'' (public_eip False) fmempty"
  let ?w2 = "retire_world\<lparr>pw_rec := retired_record\<lparr>rc_runner := ''runner-1''\<rparr>,
    hist := [(QAddresses, RAddresses (Inr (Some [public_eip False]))), (QInstancesById [''i-00000001''], retire_answer [] (QInstancesById [])),
      (QAcquire public_plan ''runner-1'', RRecord (Inr retired_record)), ?pool, (QIdentity, public_answer [] QIdentity)]\<rparr>"
  have chk: "retire_check sample_hash public_plan ?w1 = (Inr ?live, ?w2)"
    using retire_checked [of ?w1] by (simp add: retire_env retired_parts)
  obtain v where v: "release_target ''runner-1'' ?live public_target ?w2 = (Inr (), v)" "env v = env retire_world"
    "(QReleaseAddress ''eipalloc-1'', RUnit (Inr ())) \<in> set (hist v)" using retire_released [of ?w2] by (auto simp: retired_parts)
  have a: "retire_answer h (QSave r o1) = RUnit (Inr ())" "retire_answer h (QRelease p o1) = RUnit (Inr ())" "retire_answer h (QAcquire p o1) = RRecord (Inr retired_record)"
    "retire_answer h QIdentity = public_answer [] QIdentity" "retire_answer h (QPool x) = public_answer [] (QPool x)" for h r o1 p x
    by (simp_all add: retire_answer_def public_answer_def)
  have body: "\<exists>u. release_body sample_hash sample_refs public_plan ''runner-1'' ?w = (Inr (), u) \<and> env u = env retire_world \<and>
      (QReleaseAddress ''eipalloc-1'', RUnit (Inr ())) \<in> set (hist u)"
    by (simp add: fun_cong [OF release_body_def] run_steps retired_record_valid retired_parts fun_cong [OF set_rec_def] chk public_targets v
        fun_cong [OF checkpoint_def] run_now run_call retire_env a)
  then obtain u where u: "release_body sample_hash sample_refs public_plan ''runner-1'' ?w = (Inr (), u)" "env u = env retire_world"
    "(QReleaseAddress ''eipalloc-1'', RUnit (Inr ())) \<in> set (hist u)" by blast
  have i: "public_answer [] QIdentity = RText (Inr (Some ''123456789012''))" by (simp add: public_answer_def)
  have p: "verify_pool public_network (footprint_of public_plan) x = (Inr (), x\<lparr>hist := ?pool # hist x\<rparr>)" if "answer (env x) = retire_answer" for x
    using that by (simp add: fun_cong [OF verify_pool_def] run_steps run_wrap run_call retire_answer_def public_answer_def public_footprint public_network_parts)
  have r: "retire_run = (Inr (), u\<lparr>hist := (QRelease public_plan ''runner-1'', RUnit (Inr ())) # hist u\<rparr>)"
    unfolding retire_run_def
    by (simp add: fun_cong [OF release_addresses_def] run_steps run_wrap run_call public_plan_valid public_plan_parts public_network_parts public_footprint
        fun_cong [OF verify_account_def] retire_env a i p fun_cong [OF set_rec_def] u(2) u(1) [unfolded i] fun_cong [OF retire_settle_def] fun_cong [OF retire_interrupted_def])
  show ?thesis by (rule exI, rule conjI [OF r]) (simp add: u(3))
qed

theorem release_after_termination_witness:
  "\<exists>newer older r. fst retire_run = Inr () \<and> hist (snd retire_run) = newer @ (QReleaseAddress ''eipalloc-1'', RUnit (Inr ())) # older \<and>
    journaled saved_rec older = Some r \<and> announces sample_hash r (Release ''eipalloc-1'') \<and> gone sample_hash public_plan r older public_target"
proof -
  obtain v where v: "retire_run = (Inr (), v)" "(QReleaseAddress ''eipalloc-1'', RUnit (Inr ())) \<in> set (hist v)" using retire_runs by blast
  obtain newer older where h: "hist v = newer @ (QReleaseAddress ''eipalloc-1'', RUnit (Inr ())) # older" using v(2) by (meson split_list)
  have e: "hist (snd (release_addresses sample_hash sample_refs public_plan ''runner-1'' retire_world)) = newer @ (QReleaseAddress ''eipalloc-1'', RUnit (Inr ())) # older"
    using v(1) h by (simp add: retire_run_def)
  from guarded_split [OF release_after_termination [OF retire_env(4)] e] obtain r where
    "journaled saved_rec older = Some r" "announces sample_hash r (Release ''eipalloc-1'')" "gone sample_hash public_plan r older public_target"
    by (auto simp: public_targets)
  then show ?thesis unfolding v(1) fst_conv snd_conv using h by blast
qed

end
