(* ===== verification/Core_Join.thy ===== *)
theory Core_Join
  imports Operation_Record
begin

text \<open>
  \<open>internal/node/join.go\<close>: the public contract for joining an existing chain, and its validation.
\<close>

record core_join =
  cj_type :: string
  cj_network :: string
  cj_genesis :: string
  cj_height :: int
  cj_hash :: string
  cj_peers :: "string list"
  cj_options :: "string list"

definition core_join_json :: "core_join \<Rightarrow> json" where
  "core_join_json j = JObj [(''chainType'', JStr (cj_type j)), (''coreNetwork'', JStr (cj_network j)),
     (''genesis'', JStr (cj_genesis j)), (''checkpointHeight'', JNum (cj_height j)),
     (''checkpointHash'', JStr (cj_hash j)), (''peers'', JArr (map JStr (cj_peers j))),
     (''options'', JArr (map JStr (cj_options j)))]"

definition join_network :: rx where
  "join_network = Seq (lit ''devnet-'') (Seq (Sym is_lower) (Upto 49 (Sym is_slug)))"

definition public_address :: rx where
  "public_address = Seq (Times 26 (Sym is_base58)) (Upto 14 (Sym is_base58))"

definition quorum_option :: rx where
  "quorum_option = Seq (lit ''llmq_'') (Seq (Sym (\<lambda>c. is_lower c \<or> is_dec c \<or> c = CHR ''_''))
     (Upto 39 (Sym (\<lambda>c. is_lower c \<or> is_dec c \<or> c = CHR ''_''))))"

definition check_peer :: "string list \<Rightarrow> string \<Rightarrow> string list res" where
  "check_peer seen p = (case split_host_port p of
     None \<Rightarrow> Inl (Err ''join peers require unique usable IPv4:port endpoints'')
   | Some (host, port) \<Rightarrow> if \<not> usable_v4 host \<or> p \<in> set seen \<or>
         (case atoi port of None \<Rightarrow> True | Some n \<Rightarrow> n < 1 \<or> n > 65535)
       then Inl (Err ''join peers require unique usable IPv4:port endpoints'') else Inr (p # seen))"

definition quorum_keys :: "string list" where
  "quorum_keys = [''llmqchainlocks'', ''llmqinstantsend'', ''llmqinstantsenddip0024'', ''llmqplatform'', ''llmqmnhf'']"

definition number_keys :: "string list" where
  "number_keys = [''minimumdifficultyblocks'', ''highsubsidyblocks'', ''highsubsidyfactor'', ''powtargetspacing'']"

definition check_option_value :: "string \<Rightarrow> string \<Rightarrow> unit res" where
  "check_option_value k v =
     (if k = ''sporkaddr'' then (if matches public_address v then Inr () else Inl (Err ''sporkaddr requires public address''))
      else if k \<in> set quorum_keys then (if matches quorum_option v then Inr () else Inl (Err ''invalid quorum name''))
      else if k \<in> set number_keys then (case parse_uint 32 v of
          None \<Rightarrow> Inl (Err ''positive bounded devnet chain option required'')
        | Some n \<Rightarrow> if n = 0 then Inl (Err ''positive bounded devnet chain option required'') else Inr ())
      else Inl (Err ''unsupported join option; private identities, arbitrary config and RPC options are forbidden''))"

definition check_option :: "string list \<Rightarrow> string \<Rightarrow> string list res" where
  "check_option seen option = (case cut CHR ''='' option of (k, v, found) \<Rightarrow>
     if \<not> found \<or> contains_any option (CHR 0x0D # CHR 0x0A # CHR 0x09 # '' []#;'') \<or> k \<in> set seen
       then Inl (Err ''invalid or duplicate join option'')
     else after (check_option_value k v) (\<lambda>_. Inr (k # seen)))"

definition validate_core_join :: "core_join \<Rightarrow> unit res" where
  "validate_core_join j =
     (if (cj_type j \<noteq> ''devnet'' \<and> cj_type j \<noteq> ''testnet'') \<or> (cj_type j = ''testnet'' \<and> cj_network j \<noteq> ''test'') \<or>
         (cj_type j = ''devnet'' \<and> \<not> matches join_network (cj_network j))
        then Inl (Err ''explicit existing Core chain identity required'')
      else if \<not> matches hex64 (cj_genesis j) \<or> \<not> matches hex64 (cj_hash j) \<or> cj_height j < 2 \<or>
           length (cj_peers j) < 1 \<or> length (cj_peers j) > 32
        then Inl (Err ''confirmed genesis/checkpoint and 1..32 explicit peers required'')
      else after (scan_ok check_peer [] (cj_peers j)) (\<lambda>_.
      if length (cj_options j) > 32 \<or> (cj_type j = ''testnet'' \<and> cj_options j \<noteq> [])
        then Inl (Err ''testnet consensus uses compiled defaults; devnet public options limited to 32'')
      else after (scan_ok check_option [] (cj_options j)) (\<lambda>_. Inr ())))"

end
