(* ===== verification/Release_Lock.thy ===== *)
theory Release_Lock
  imports Sample "HOL-Library.Multiset"
begin

text \<open>
  \<open>internal/release\<close>: the lock that pins every component image of a network by digest, its
  validation against the network definition, its resolution, and the inspection of one reference in
  a registry. What the registry library returns for a reference is a parameter, a \<open>registry\<close>.
\<close>

section \<open>Data\<close>

record platform =
  pf_os :: string
  pf_arch :: string
  pf_digest :: string

record pinned_image =
  im_component :: string
  im_requested :: string
  im_pinned :: string
  im_platforms :: "platform list"

record lock =
  lk_api :: string
  lk_kind :: string
  lk_network :: string
  lk_generation :: int
  lk_spec :: string
  lk_resolved :: gotime
  lk_evidence :: string
  lk_images :: "pinned_image list"

definition platform_json :: "platform \<Rightarrow> json" where
  "platform_json p = JObj [(''os'', JStr (pf_os p)), (''architecture'', JStr (pf_arch p)),
     (''digest'', JStr (pf_digest p))]"

definition image_json :: "pinned_image \<Rightarrow> json" where
  "image_json i = JObj [(''component'', JStr (im_component i)), (''requested'', JStr (im_requested i)),
     (''pinned'', JStr (im_pinned i)), (''platforms'', JArr (map platform_json (im_platforms i)))]"

definition lock_json :: "lock \<Rightarrow> json" where
  "lock_json l = JObj [(''apiVersion'', JStr (lk_api l)), (''kind'', JStr (lk_kind l)),
     (''network'', JStr (lk_network l)), (''generation'', JNum (lk_generation l)),
     (''specHash'', JStr (lk_spec l)), (''resolvedAt'', JTime (lk_resolved l)),
     (''evidence'', JStr (lk_evidence l)), (''images'', JArr (map image_json (lk_images l)))]"

section \<open>Validation\<close>

definition evidence :: string where
  "evidence = ''artifacts-verified''"

definition digest_pattern :: rx where
  "digest_pattern = Seq (lit ''sha256:'') (Times 64 (Sym is_hex))"

definition check_pins :: "image_refs \<Rightarrow> string \<Rightarrow> pinned_image \<Rightarrow> unit res" where
  "check_pins R requested i = (case parse_reference R requested of
     None \<Rightarrow> Inl (Err ''invalid image reference'')
   | Some (repo, digest) \<Rightarrow> (case new_digest R (im_pinned i) of
       None \<Rightarrow> Inl (At (im_component i) (Err ''must pin the requested repository by sha256''))
     | Some (prepo, pdigest) \<Rightarrow>
         if \<not> matches digest_pattern pdigest \<or> repo \<noteq> prepo
           then Inl (At (im_component i) (Err ''must pin the requested repository by sha256''))
         else if digest \<noteq> None \<and> digest \<noteq> Some pdigest
           then Inl (At (im_component i) (Err ''changed an explicitly requested digest''))
         else Inr ()))"

definition check_platforms :: "string list \<Rightarrow> pinned_image \<Rightarrow> unit res" where
  "check_platforms arches i =
     (if length (im_platforms i) \<noteq> length arches
        then Inl (At (im_component i) (Err ''platform set differs from network architectures''))
      else if list_ex (\<lambda>p. pf_os p \<noteq> ''linux'' \<or> \<not> matches digest_pattern (pf_digest p)) (im_platforms i)
        then Inl (At (im_component i) (Err ''invalid platform descriptor''))
      else if sort (map pf_arch (im_platforms i)) \<noteq> arches
        then Inl (At (im_component i) (Err ''missing/duplicate architecture''))
      else Inr ())"

definition check_lock_image :: "image_refs \<Rightarrow> network \<Rightarrow> string list \<Rightarrow> pinned_image \<Rightarrow> string list res" where
  "check_lock_image R n seen i =
     (if fmlookup (nw_images n) (im_component i) \<noteq> Some (im_requested i) \<or> im_component i \<in> set seen
        then Inl (At (im_component i) (Err ''duplicated or differs from intent''))
      else after (check_pins R (im_requested i) i) (\<lambda>_.
        after (check_platforms (architectures n) i) (\<lambda>_. Inr (im_component i # seen))))"

definition validate_lock :: "hasher \<Rightarrow> image_refs \<Rightarrow> network \<Rightarrow> lock \<Rightarrow> unit res" where
  "validate_lock H R n l =
     (if lk_api l \<noteq> api_version \<or> lk_kind l \<noteq> ''ReleaseLock'' \<or> lk_evidence l \<noteq> evidence \<or> lk_resolved l = 0
        then Inl (Err ''invalid release lock version, kind, evidence, or timestamp'')
      else if lk_network l \<noteq> md_name (nw_metadata n) \<or> lk_generation l \<noteq> ch_generation (nw_chain n) \<or>
           lk_spec l \<noteq> fingerprint H n
        then Inl (Err ''release lock does not match this network definition/generation; resolve it again'')
      else if length (lk_images l) \<noteq> fcard (fmdom (nw_images n))
        then Inl (Err ''release lock component set is incomplete'')
      else after (scan_ok (check_lock_image R n) [] (lk_images l)) (\<lambda>_. Inr ()))"

section \<open>Inspecting a reference\<close>

text \<open>What the registry library returns: the descriptor of a reference, the manifests of an index
  with their advertised platform (os, architecture, variant), and image configurations (os,
  architecture).\<close>

record index_entry =
  ie_digest :: string
  ie_platform :: "(string \<times> string \<times> string) option"

record descriptor =
  de_digest :: string
  de_index :: bool
  de_manifests :: "index_entry list res"
  de_child :: "string \<Rightarrow> (string \<times> string) res"
  de_config :: "(string \<times> string) res"

type_synonym registry = "string \<Rightarrow> descriptor res"

definition offers :: "string \<Rightarrow> index_entry \<Rightarrow> bool" where
  "offers arch e = (case ie_platform e of None \<Rightarrow> False
     | Some (os, a, variant) \<Rightarrow> os = ''linux'' \<and> a = arch \<and>
         (variant = [] \<or> (arch = ''arm64'' \<and> variant = ''v8'')))"

definition inspect_arch :: "descriptor \<Rightarrow> index_entry list \<Rightarrow> string \<Rightarrow> platform res" where
  "inspect_arch d ms arch = (case filter (offers arch) ms of
     [e] \<Rightarrow> after (de_child d (ie_digest e)) (\<lambda>(os, a).
       if os \<noteq> ''linux'' \<or> a \<noteq> arch then Inl (Err ''image configuration disagrees with descriptor'')
       else Inr \<lparr>pf_os = ''linux'', pf_arch = arch, pf_digest = ie_digest e\<rparr>)
   | _ \<Rightarrow> Inl (At arch (Err ''expected one linux image'')))"

definition inspect_single :: "descriptor \<Rightarrow> string list \<Rightarrow> platform list res" where
  "inspect_single d arches = after (de_config d) (\<lambda>(os, a).
     if os \<noteq> ''linux'' \<or> arches \<noteq> [a] then Inl (Err ''single-platform image differs from required platforms'')
     else Inr [\<lparr>pf_os = ''linux'', pf_arch = a, pf_digest = de_digest d\<rparr>])"

definition inspect_index :: "descriptor \<Rightarrow> string list \<Rightarrow> platform list res" where
  "inspect_index d arches = after (de_manifests d) (\<lambda>ms.
     scan_ok (\<lambda>ps a. after (inspect_arch d ms a) (\<lambda>p. Inr (ps @ [p]))) [] arches)"

definition inspect :: "image_refs \<Rightarrow> registry \<Rightarrow> string \<Rightarrow> string list \<Rightarrow> pinned_image res" where
  "inspect R reg requested arches = (case parse_reference R requested of
     None \<Rightarrow> Inl (Err ''invalid image reference'')
   | Some (repo, _) \<Rightarrow> (case reg requested of
       Inl e \<Rightarrow> Inl (At ''read image manifest'' e)
     | Inr d \<Rightarrow> after (if de_index d then inspect_index d arches else inspect_single d arches) (\<lambda>ps.
         Inr \<lparr>im_component = [], im_requested = requested, im_pinned = digest_name R repo (de_digest d),
              im_platforms = sort_key pf_arch ps\<rparr>)))"

section \<open>Resolving a network\<close>

definition resolve_component ::
  "(string \<Rightarrow> string list \<Rightarrow> pinned_image res) \<Rightarrow> network \<Rightarrow> pinned_image list \<Rightarrow> string \<Rightarrow> pinned_image list res" where
  "resolve_component ins n acc c = (case ins (mget (nw_images n) c) (architectures n) of
     Inl e \<Rightarrow> Inl (At c e) | Inr i \<Rightarrow> Inr (acc @ [i\<lparr>im_component := c\<rparr>]))"

definition resolve ::
  "hasher \<Rightarrow> image_refs \<Rightarrow> (string \<Rightarrow> string list \<Rightarrow> pinned_image res) \<Rightarrow> network \<Rightarrow> gotime \<Rightarrow> lock res" where
  "resolve H R ins n now = after (validate_network R n) (\<lambda>_.
     after (scan_ok (resolve_component ins n) [] (image_components n)) (\<lambda>ims.
     let l = \<lparr>lk_api = api_version, lk_kind = ''ReleaseLock'', lk_network = md_name (nw_metadata n),
       lk_generation = ch_generation (nw_chain n), lk_spec = fingerprint H n, lk_resolved = now,
       lk_evidence = evidence, lk_images = ims\<rparr>
     in after (validate_lock H R n l) (\<lambda>_. Inr l)))"

section \<open>What a valid lock says\<close>

lemma check_pins_Inr:
  "check_pins R requested i = Inr () \<longleftrightarrow> (\<exists>repo digest d. parse_reference R requested = Some (repo, digest) \<and>
     new_digest R (im_pinned i) = Some (repo, d) \<and> matches digest_pattern d \<and> (digest = None \<or> digest = Some d))"
  by (auto simp: check_pins_def split: option.splits)

lemma check_platforms_Inr:
  "check_platforms arches i = Inr () \<longleftrightarrow> sort (map pf_arch (im_platforms i)) = arches \<and>
     (\<forall>p \<in> set (im_platforms i). pf_os p = ''linux'' \<and> matches digest_pattern (pf_digest p))"
proof -
  have "sort (map pf_arch (im_platforms i)) = arches \<Longrightarrow> length (im_platforms i) = length arches"
    by (metis length_map length_sort)
  then show ?thesis by (auto simp: check_platforms_def list_ex_iff)
qed

lemma check_lock_image_Inr:
  "check_lock_image R n seen i = Inr seen' \<longleftrightarrow> fmlookup (nw_images n) (im_component i) = Some (im_requested i) \<and>
     im_component i \<notin> set seen \<and> check_pins R (im_requested i) i = Inr () \<and>
     check_platforms (architectures n) i = Inr () \<and> seen' = im_component i # seen"
  by (auto simp: check_lock_image_def res_simps)

lemma scan_lock_images:
  "scan_ok (check_lock_image R n) seen ims = Inr seen' \<longleftrightarrow>
     (\<forall>i \<in> set ims. fmlookup (nw_images n) (im_component i) = Some (im_requested i) \<and>
        check_pins R (im_requested i) i = Inr () \<and> check_platforms (architectures n) i = Inr ()) \<and>
     distinct (map im_component ims) \<and> set (map im_component ims) \<inter> set seen = {} \<and>
     seen' = rev (map im_component ims) @ seen"
  by (induction ims arbitrary: seen) (auto simp: res_simps check_lock_image_Inr)

lemma validate_lock_Inr:
  "validate_lock H R n l = Inr () \<longleftrightarrow> lk_api l = api_version \<and> lk_kind l = ''ReleaseLock'' \<and>
     lk_evidence l = evidence \<and> lk_resolved l \<noteq> 0 \<and> lk_network l = md_name (nw_metadata n) \<and>
     lk_generation l = ch_generation (nw_chain n) \<and> lk_spec l = fingerprint H n \<and>
     length (lk_images l) = fcard (fmdom (nw_images n)) \<and> distinct (map im_component (lk_images l)) \<and>
     (\<forall>i \<in> set (lk_images l). fmlookup (nw_images n) (im_component i) = Some (im_requested i) \<and>
        check_pins R (im_requested i) i = Inr () \<and> check_platforms (architectures n) i = Inr ())"
  by (auto simp: validate_lock_def res_simps scan_lock_images)

lemma lock_components:
  assumes "validate_lock H R n l = Inr ()"
  shows "set (map im_component (lk_images l)) = fmdom' (nw_images n)"
proof (rule card_subset_eq)
  have v: "length (lk_images l) = fcard (fmdom (nw_images n))" "distinct (map im_component (lk_images l))"
    "\<forall>i \<in> set (lk_images l). fmlookup (nw_images n) (im_component i) = Some (im_requested i)"
    using assms by (simp_all add: validate_lock_Inr)
  show "finite (fmdom' (nw_images n))" by simp
  show "set (map im_component (lk_images l)) \<subseteq> fmdom' (nw_images n)" using v(3) by (auto intro: fmdom'I)
  show "card (set (map im_component (lk_images l))) = card (fmdom' (nw_images n))"
    using distinct_card [OF v(2)] v(1) by (simp add: fcard.rep_eq fmdom'_alt_def)
qed

lemma image_known:
  assumes "validate_network R n = Inr ()" and "c \<in> set (image_components n)"
  shows "fmlookup (nw_images n) c \<noteq> None"
proof -
  have "check_image R n c = Inr ()" using assms by (auto simp: validate_network_def res_simps)
  then show ?thesis by (auto simp: check_image_def Let_def mget_def after_last_def split: option.splits if_splits)
qed

lemma image_components_set:
  assumes "validate_network R n = Inr ()"
  shows "set (image_components n) = fmdom' (nw_images n)" and "distinct (image_components n)"
proof -
  have d: "distinct (image_components n)" by (simp add: image_components_def components_def optional_components_def)
  have c: "fcard (fmdom (nw_images n)) = length (image_components n)"
    using assms by (auto simp: validate_network_def res_simps)
  have s: "set (image_components n) \<subseteq> fmdom' (nw_images n)"
    using image_known [OF assms] by (auto intro: fmdom'I)
  show "set (image_components n) = fmdom' (nw_images n)"
    by (rule card_subset_eq [OF _ s]) (use c distinct_card [OF d] in \<open>simp_all add: fcard.rep_eq fmdom'_alt_def\<close>)
  show "distinct (image_components n)" by (rule d)
qed

section \<open>What the inspection returns\<close>

lemma inspect_index_Inr:
  assumes "inspect_index d arches = Inr ps"
  shows "map pf_arch ps = arches \<and> (\<forall>p \<in> set ps. pf_os p = ''linux'' \<and>
    (\<exists>ms e. de_manifests d = Inr ms \<and> e \<in> set ms \<and> pf_digest p = ie_digest e \<and> de_child d (ie_digest e) = Inr (''linux'', pf_arch p)))"
proof -
  obtain ms where ms: "de_manifests d = Inr ms"
    and s: "scan_ok (\<lambda>ps a. after (inspect_arch d ms a) (\<lambda>p. Inr (ps @ [p]))) [] arches = Inr ps"
    using assms by (auto simp: inspect_index_def res_simps)
  let ?ok = "\<lambda>p. pf_os p = ''linux'' \<and> (\<exists>e. e \<in> set ms \<and> pf_digest p = ie_digest e \<and>
    de_child d (ie_digest e) = Inr (''linux'', pf_arch p))"
  have one: "pf_arch p = a \<and> ?ok p" if "inspect_arch d ms a = Inr p" for a p
  proof -
    have "e \<in> set ms" if "filter (offers a) ms = [e]" for e
    proof -
      have "e \<in> set (filter (offers a) ms)" by (simp only: that) simp
      then show ?thesis by simp
    qed
    then show ?thesis using that by (auto simp: inspect_arch_def res_simps split: list.splits if_splits)
  qed
  have "map pf_arch ps' = map pf_arch ps0 @ as \<and> (\<forall>p \<in> set ps'. p \<in> set ps0 \<or> ?ok p)"
    if "scan_ok (\<lambda>ps a. after (inspect_arch d ms a) (\<lambda>p. Inr (ps @ [p]))) ps0 as = Inr ps'" for ps0 as ps'
    using that
    by (induction as arbitrary: ps0) (fastforce simp: res_simps dest!: one)+
  from this [OF s] show ?thesis using ms by auto
qed

lemma sort_key_map: "map f (sort_key f xs) = sort (map f xs)"
  by (rule properties_for_sort [symmetric]) simp_all

lemma inspect_Inr:
  assumes "inspect R reg q arches = Inr i" and "sorted arches"
  shows "\<exists>repo digest d. parse_reference R q = Some (repo, digest) \<and> reg q = Inr d \<and> im_requested i = q \<and>
    im_pinned i = digest_name R repo (de_digest d) \<and> map pf_arch (im_platforms i) = arches \<and>
    (\<forall>p \<in> set (im_platforms i). pf_os p = ''linux'' \<and> (pf_digest p = de_digest d \<or>
       (\<exists>ms e. de_manifests d = Inr ms \<and> e \<in> set ms \<and> pf_digest p = ie_digest e)))"
proof -
  obtain repo digest where r: "parse_reference R q = Some (repo, digest)"
    using assms(1) by (cases "parse_reference R q") (auto simp: inspect_def)
  obtain d where d: "reg q = Inr d" using assms(1) r by (cases "reg q") (auto simp: inspect_def)
  obtain ps where ps: "(if de_index d then inspect_index d arches else inspect_single d arches) = Inr ps"
    and i: "i = \<lparr>im_component = [], im_requested = q, im_pinned = digest_name R repo (de_digest d), im_platforms = sort_key pf_arch ps\<rparr>"
    using assms(1) r d by (auto simp: inspect_def res_simps)
  have p: "map pf_arch ps = arches \<and> (\<forall>p \<in> set ps. pf_os p = ''linux'' \<and> (pf_digest p = de_digest d \<or>
       (\<exists>ms e. de_manifests d = Inr ms \<and> e \<in> set ms \<and> pf_digest p = ie_digest e)))"
  proof (cases "de_index d")
    case True
    then show ?thesis using inspect_index_Inr [of d arches ps] ps by auto
  next
    case False
    then show ?thesis using ps by (auto simp: inspect_single_def res_simps split: if_splits)
  qed
  then have "map pf_arch (im_platforms i) = arches" using assms(2) by (simp add: i sort_key_map sorted_sort_id)
  then show ?thesis using r d p i by auto
qed

section \<open>Properties\<close>

lemma scan_resolve:
  assumes "\<forall>c \<in> set cs. ins (mget (nw_images n) c) (architectures n) = Inr (f c)"
  shows "scan_ok (resolve_component ins n) acc cs = Inr (acc @ map (\<lambda>c. (f c)\<lparr>im_component := c\<rparr>) cs)"
  using assms by (induction cs arbitrary: acc) (simp_all add: resolve_component_def)

text \<open>C26: A validated release lock pins exactly the components of the network, each once: the pin is in
  the requested repository with a sha256 digest, keeps a digest the network definition fixed, and
  carries one Linux manifest digest for every architecture of the network.\<close>

theorem lock_pins:
  assumes "validate_network R n = Inr ()" and "validate_lock H R n l = Inr ()"
  shows "distinct (map im_component (lk_images l)) \<and> im_component ` set (lk_images l) = set (image_components n) \<and>
    (\<forall>i \<in> set (lk_images l). \<exists>repo digest d. parse_reference R (mget (nw_images n) (im_component i)) = Some (repo, digest) \<and>
       new_digest R (im_pinned i) = Some (repo, d) \<and> matches digest_pattern d \<and> (digest = None \<or> digest = Some d) \<and>
       sort (map pf_arch (im_platforms i)) = architectures n \<and>
       (\<forall>p \<in> set (im_platforms i). pf_os p = ''linux'' \<and> matches digest_pattern (pf_digest p)))"
proof -
  have "im_component ` set (lk_images l) = set (image_components n)"
    using lock_components [OF assms(2)] image_components_set(1) [OF assms(1)] by simp
  then show ?thesis
    using assms(2) by (fastforce simp: validate_lock_Inr check_pins_Inr check_platforms_Inr mget_def)
qed

definition sample_digest :: string where
  "sample_digest = ''sha256:'' @ replicate 64 (CHR ''a'')"

definition sample_registry :: registry where
  "sample_registry q = (let d = (\<lambda>x. Inr \<lparr>de_digest = x, de_index = False, de_manifests = Inr [],
       de_child = (\<lambda>_. Inr (''linux'', ''amd64'')), de_config = Inr (''linux'', ''amd64'')\<rparr>)
     in case sample_split q of None \<Rightarrow> d sample_digest
     | Some (_, x) \<Rightarrow> if matches digest_pattern x then d x else Inl (Err ''bad digest''))"

definition sample_lock :: lock where
  "sample_lock = (case resolve sample_hash sample_refs (inspect sample_refs sample_registry) sample_network 1 of
     Inr l \<Rightarrow> l | Inl e \<Rightarrow> undefined)"

lemma sample_resolve: "resolve sample_hash sample_refs (inspect sample_refs sample_registry) sample_network 1 = Inr sample_lock"
proof -
  have "is_ok (resolve sample_hash sample_refs (inspect sample_refs sample_registry) sample_network 1)" by code_simp
  then show ?thesis
    unfolding sample_lock_def by (cases "resolve sample_hash sample_refs (inspect sample_refs sample_registry) sample_network 1") auto
qed

lemma sample_lock_valid: "validate_lock sample_hash sample_refs sample_network sample_lock = Inr ()"
  using sample_resolve by (auto simp: resolve_def res_simps Let_def)

theorem lock_pins_witness:
  "im_component ` set (lk_images sample_lock) = set (image_components sample_network)"
  using lock_pins [OF sample_network_valid sample_lock_valid] by blast

text \<open>C25: Resolution never produces a lock that validation refuses: for a valid network, when the
  reference library reads back the names it prints and the registry answers a pinned reference with
  that digest and with well-formed digests only, and every component's inspection succeeds,
  \<open>Resolve\<close> returns a lock with the network's components in order.\<close>

theorem resolve_completes:
  assumes "validate_network R n = Inr ()" and "now \<noteq> 0"
    and names: "\<forall>q r x d. parse_reference R q = Some (r, x) \<longrightarrow> matches digest_pattern d \<longrightarrow>
      new_digest R (digest_name R r d) = Some (r, d)"
    and registry: "\<forall>q d. reg q = Inr d \<longrightarrow> matches digest_pattern (de_digest d) \<and>
      (\<forall>ms. de_manifests d = Inr ms \<longrightarrow> (\<forall>e \<in> set ms. matches digest_pattern (ie_digest e))) \<and>
      (\<forall>r x. parse_reference R q = Some (r, Some x) \<longrightarrow> de_digest d = x)"
    and ok: "\<forall>c \<in> set (image_components n). is_ok (inspect R reg (mget (nw_images n) c) (architectures n))"
  shows "\<exists>l. resolve H R (inspect R reg) n now = Inr l \<and> map im_component (lk_images l) = image_components n"
proof -
  define f where "f c = (case inspect R reg (mget (nw_images n) c) (architectures n) of Inr i \<Rightarrow> i | Inl e \<Rightarrow> undefined)" for c
  have f: "inspect R reg (mget (nw_images n) c) (architectures n) = Inr (f c)" if "c \<in> set (image_components n)" for c
    using ok that by (cases "inspect R reg (mget (nw_images n) c) (architectures n)") (auto simp: f_def)
  let ?ims = "map (\<lambda>c. (f c)\<lparr>im_component := c\<rparr>) (image_components n)"
  have "sorted (architectures n)" by (simp add: architectures_def)
  note ins = inspect_Inr [OF f this]
  have good: "check_pins R (mget (nw_images n) c) ((f c)\<lparr>im_component := c\<rparr>) = Inr () \<and>
      check_platforms (architectures n) ((f c)\<lparr>im_component := c\<rparr>) = Inr () \<and>
      im_requested (f c) = mget (nw_images n) c" if c: "c \<in> set (image_components n)" for c
  proof -
    obtain repo digest d where i: "parse_reference R (mget (nw_images n) c) = Some (repo, digest)"
        "reg (mget (nw_images n) c) = Inr d" "im_requested (f c) = mget (nw_images n) c"
        "im_pinned (f c) = digest_name R repo (de_digest d)" "map pf_arch (im_platforms (f c)) = architectures n"
      and ps: "\<forall>p \<in> set (im_platforms (f c)). pf_os p = ''linux'' \<and> (pf_digest p = de_digest d \<or>
        (\<exists>ms e. de_manifests d = Inr ms \<and> e \<in> set ms \<and> pf_digest p = ie_digest e))"
      using ins [OF c] by blast
    have d: "matches digest_pattern (de_digest d)" using registry i(2) by blast
    have n: "new_digest R (digest_name R repo (de_digest d)) = Some (repo, de_digest d)" using names i(1) d by blast
    have x: "digest = None \<or> digest = Some (de_digest d)" using registry i(1,2) by (cases digest) auto
    have "\<forall>p \<in> set (im_platforms (f c)). pf_os p = ''linux'' \<and> matches digest_pattern (pf_digest p)"
      using ps d registry i(2) by metis
    then show ?thesis
      using i n d x \<open>sorted (architectures n)\<close> by (simp add: check_pins_Inr check_platforms_Inr sorted_sort_id)
  qed
  have req: "fmlookup (nw_images n) c = Some (mget (nw_images n) c)" if c: "c \<in> set (image_components n)" for c
    using image_known [OF assms(1) c] by (auto simp: mget_def)
  have len: "length (image_components n) = fcard (fmdom (nw_images n))"
    using image_components_set [OF assms(1)] distinct_card [of "image_components n"]
    by (simp add: fcard.rep_eq fmdom'_alt_def)
  have c: "map im_component ?ims = image_components n" by (simp add: comp_def)
  define l where "l = \<lparr>lk_api = api_version, lk_kind = ''ReleaseLock'', lk_network = md_name (nw_metadata n),
       lk_generation = ch_generation (nw_chain n), lk_spec = fingerprint H n, lk_resolved = now,
       lk_evidence = evidence, lk_images = ?ims\<rparr>"
  have "validate_lock H R n l = Inr ()"
    using assms(2) len c good req image_components_set(2) [OF assms(1)]
    by (simp add: l_def validate_lock_Inr comp_def)
  moreover have "scan_ok (resolve_component (inspect R reg) n) [] (image_components n) = Inr ?ims"
    using scan_resolve [of "image_components n" "inspect R reg" n f "[]"] f by simp
  ultimately have "resolve H R (inspect R reg) n now = Inr l"
    using assms(1) by (simp add: resolve_def Let_def l_def)
  then show ?thesis using c by (auto simp: l_def comp_def)
qed

lemma takeWhile_no: "c \<notin> set (takeWhile (\<lambda>d. d \<noteq> c) s)"
  by (metis (mono_tags) set_takeWhileD)

lemma sample_names:
  assumes "parse_reference sample_refs q = Some (r, x)"
  shows "new_digest sample_refs (digest_name sample_refs r d) = Some (r, d)"
proof -
  have "CHR ''@'' \<notin> set r" using assms takeWhile_no [of "CHR ''@''" q] by (auto simp: sample_refs_def cut_def)
  then show ?thesis
    by (auto simp: sample_refs_def sample_split_def cut_def takeWhile_append dropWhile_append takeWhile_eq_all_conv dropWhile_eq_Nil_conv)
qed

theorem resolve_completes_witness:
  "\<exists>l. resolve sample_hash sample_refs (inspect sample_refs sample_registry) sample_network 1 = Inr l \<and>
     map im_component (lk_images l) = image_components sample_network"
proof (rule resolve_completes [OF sample_network_valid])
  show "\<forall>q r x d. parse_reference sample_refs q = Some (r, x) \<longrightarrow> matches digest_pattern d \<longrightarrow>
      new_digest sample_refs (digest_name sample_refs r d) = Some (r, d)"
    using sample_names by blast
  have "matches digest_pattern sample_digest" by code_simp
  then show "\<forall>q d. sample_registry q = Inr d \<longrightarrow> matches digest_pattern (de_digest d) \<and>
      (\<forall>ms. de_manifests d = Inr ms \<longrightarrow> (\<forall>e \<in> set ms. matches digest_pattern (ie_digest e))) \<and>
      (\<forall>r x. parse_reference sample_refs q = Some (r, Some x) \<longrightarrow> de_digest d = x)"
    by (auto simp: sample_registry_def Let_def sample_refs_def split: option.splits if_splits)
  show "\<forall>c \<in> set (image_components sample_network).
      is_ok (inspect sample_refs sample_registry (mget (nw_images sample_network) c) (architectures sample_network))"
    by code_simp
qed simp

end
