(* ===== verification/Bootstrap_Plan.thy ===== *)
theory Bootstrap_Plan
  imports Release_Lock Plan_Properties
begin

text \<open>
  \<open>internal/bootstrap/plan.go\<close>: the host bootstrap plan, built from an EC2 plan, a release lock and
  an SSH access selection. \<open>recipe\<close> stands for \<open>digest([]byte(recipe))\<close>, the digest of the embedded
  shell recipe of this binary.
\<close>

record access =
  ac_user :: string
  ac_port :: int
  ac_address :: string

record component_pin =
  cp_component :: string
  cp_pinned :: string

record btarget =
  bg_name :: string
  bg_arch :: string
  bg_images :: "component_pin list"

record bplan =
  bp_api :: string
  bp_kind :: string
  bp_id :: string
  bp_compute :: plan
  bp_release :: lock
  bp_access :: access
  bp_recipe :: string
  bp_targets :: "btarget list"

definition access_json :: "access \<Rightarrow> json" where
  "access_json a = JObj [(''user'', JStr (ac_user a)), (''port'', JNum (ac_port a)), (''address'', JStr (ac_address a))]"

definition pin_json :: "component_pin \<Rightarrow> json" where
  "pin_json i = JObj [(''component'', JStr (cp_component i)), (''pinned'', JStr (cp_pinned i))]"

definition btarget_json :: "btarget \<Rightarrow> json" where
  "btarget_json t = JObj [(''name'', JStr (bg_name t)), (''architecture'', JStr (bg_arch t)),
     (''images'', JArr (map pin_json (bg_images t)))]"

definition bplan_json :: "bplan \<Rightarrow> json" where
  "bplan_json p = JObj [(''apiVersion'', JStr (bp_api p)), (''kind'', JStr (bp_kind p)), (''id'', JStr (bp_id p)),
     (''compute'', plan_json (bp_compute p)), (''release'', lock_json (bp_release p)),
     (''access'', access_json (bp_access p)), (''recipeSha256'', JStr (bp_recipe p)),
     (''targets'', JArr (map btarget_json (bp_targets p)))]"

section \<open>Building and validating\<close>

definition username :: rx where
  "username = Seq (Sym (\<lambda>c. is_lower c \<or> c = CHR ''_''))
     (Upto 31 (Sym (\<lambda>c. is_lower c \<or> is_dec c \<or> c = CHR ''_'' \<or> c = CHR ''-'')))"

definition check_access :: "plan \<Rightarrow> access \<Rightarrow> unit res" where
  "check_access compute a =
     (if \<not> matches username (ac_user a) \<or> ac_port a < 1 \<or> ac_port a > 65535 \<or>
         (ac_address a \<noteq> ''private'' \<and> ac_address a \<noteq> ''public'')
        then Inl (Err ''bootstrap requires an SSH user, port 1..65535, and private or public address selection'')
      else if ac_address a = ''public'' \<and>
           \<not> (case aws_provision (nw_aws (pl_network compute)) of None \<Rightarrow> False | Some f \<Rightarrow> fp_public f)
        then Inl (Err ''compute plan has no public IPv4 addresses'')
      else Inr ())"

definition needed :: "string \<Rightarrow> string \<Rightarrow> bool" where
  "needed role c \<longleftrightarrow> c \<notin> set optional_components \<and> c \<in> set (role_components role)"

definition arch_pins :: "image_refs \<Rightarrow> string \<Rightarrow> pinned_image \<Rightarrow> component_pin list" where
  "arch_pins R arch i = map (\<lambda>p. \<lparr>cp_component = im_component i,
       cp_pinned = digest_name R (case new_digest R (im_pinned i) of None \<Rightarrow> [] | Some (repo, _) \<Rightarrow> repo) (pf_digest p)\<rparr>)
     (filter (\<lambda>p. pf_arch p = arch) (im_platforms i))"

definition bootstrap_target :: "image_refs \<Rightarrow> lock \<Rightarrow> target \<Rightarrow> btarget" where
  "bootstrap_target R l t = \<lparr>bg_name = tg_name t, bg_arch = tg_arch t,
     bg_images = sort_key cp_component (concat (map (arch_pins R (tg_arch t))
       (filter (\<lambda>i. needed (tg_role t) (im_component i)) (lk_images l))))\<rparr>"

definition build_bootstrap :: "hasher \<Rightarrow> image_refs \<Rightarrow> string \<Rightarrow> plan \<Rightarrow> lock \<Rightarrow> access \<Rightarrow> bplan res" where
  "build_bootstrap H R recipe compute l a =
     after (validate_plan H R compute) (\<lambda>_.
     after (validate_lock H R (pl_network compute) l) (\<lambda>_.
     after (check_access compute a) (\<lambda>_.
     let p = \<lparr>bp_api = api_version, bp_kind = ''NodeBootstrapPlan'', bp_id = [], bp_compute = compute,
       bp_release = l, bp_access = a, bp_recipe = recipe, bp_targets = map (bootstrap_target R l) (pl_targets compute)\<rparr>
     in Inr (p\<lparr>bp_id := H (bplan_json p)\<rparr>))))"

definition validate_bplan :: "hasher \<Rightarrow> image_refs \<Rightarrow> string \<Rightarrow> bplan \<Rightarrow> unit res" where
  "validate_bplan H R recipe p =
     after (build_bootstrap H R recipe (bp_compute p) (bp_release p) (bp_access p)) (\<lambda>expected.
     if p \<noteq> expected then Inl (Err ''bootstrap plan altered or recipe differs from this CLI'') else Inr ())"

definition host_alias :: "bplan \<Rightarrow> string \<Rightarrow> string" where
  "host_alias p i = (let a = nw_aws (pl_network (bp_compute p)) in
     i @ ''.'' @ aws_region a @ ''.'' @ aws_account a @ ''.dashnet'')"

section \<open>Lemmas\<close>

lemma build_bootstrap_Inr:
  "build_bootstrap H R recipe compute l a = Inr p \<longleftrightarrow>
     validate_plan H R compute = Inr () \<and> validate_lock H R (pl_network compute) l = Inr () \<and>
     check_access compute a = Inr () \<and> bp_api p = api_version \<and> bp_kind p = ''NodeBootstrapPlan'' \<and>
     bp_compute p = compute \<and> bp_release p = l \<and> bp_access p = a \<and> bp_recipe p = recipe \<and>
     bp_targets p = map (bootstrap_target R l) (pl_targets compute) \<and> bp_id p = H (bplan_json (p\<lparr>bp_id := []\<rparr>))"
  by (cases p) (auto simp: build_bootstrap_def res_simps Let_def)

lemma validate_bplan_Inr:
  "validate_bplan H R recipe p = Inr () \<longleftrightarrow> build_bootstrap H R recipe (bp_compute p) (bp_release p) (bp_access p) = Inr p"
  by (auto simp: validate_bplan_def res_simps)

lemma role_not_optional: "c \<in> set (role_components role) \<Longrightarrow> c \<notin> set optional_components"
  by (auto simp: role_components_def components_def optional_components_def split: if_splits)

lemma role_components_known: "set (role_components role) \<subseteq> set (image_components n)"
  by (auto simp: role_components_def components_def image_components_def)

lemma concat_singles: "(\<And>x. x \<in> set xs \<Longrightarrow> \<exists>y. f x = [y] \<and> g y = h x) \<Longrightarrow> map g (concat (map f xs)) = map h xs"
  by (induction xs) (fastforce)+

lemma valid_target_arch:
  assumes "validate_plan H R p = Inr ()" and "t \<in> set (pl_targets p)"
  shows "tg_arch t \<in> set (architectures (pl_network p))"
  using valid_plan_targets [OF assms(1)] assms(2) by (auto simp: set_group_targets)

lemma arch_pins_single:
  assumes "sort (map pf_arch (im_platforms i)) = arches" and "distinct arches" and "arch \<in> set arches"
    and "new_digest R (im_pinned i) = Some (repo, d)"
  shows "\<exists>p \<in> set (im_platforms i). pf_arch p = arch \<and>
    arch_pins R arch i = [\<lparr>cp_component = im_component i, cp_pinned = digest_name R repo (pf_digest p)\<rparr>]"
proof -
  have m: "distinct (map pf_arch (im_platforms i))" using assms(1,2) by (metis distinct_sort)
  have "arch \<in> set (map pf_arch (im_platforms i))" using assms(1,3) by (metis set_sort)
  then obtain p where p: "p \<in> set (im_platforms i)" "pf_arch p = arch" by auto
  have "filter (\<lambda>q. pf_arch q = arch) ps = [p]" if "distinct (map pf_arch ps)" "p \<in> set ps" for ps
    using that
  proof (induction ps)
    case (Cons q qs)
    have "filter (\<lambda>q. pf_arch q = arch) qs = []" if "q = p"
      using Cons.prems(1) that p(2) by (auto simp: filter_empty_conv) (metis imageI)
    then show ?case using Cons p(2) by (cases "q = p") auto
  qed simp
  from this [OF m p(1)] show ?thesis using p assms(4) by (auto simp: arch_pins_def intro!: bexI [of _ p])
qed

section \<open>Properties\<close>

text \<open>C23: What a bootstrap plan installs: every target of an accepted plan is the EC2 target at the same
  position and gets exactly one image for each component its role needs, in the order of the
  component names; the image is the release lock's repository for that component with the digest
  the lock holds for the target's architecture.\<close>

theorem bootstrap_images:
  assumes "validate_bplan H R recipe p = Inr ()"
  shows "length (bp_targets p) = length (pl_targets (bp_compute p)) \<and>
    (\<forall>k < length (bp_targets p). let b = bp_targets p ! k; t = pl_targets (bp_compute p) ! k in
       bg_name b = tg_name t \<and> bg_arch b = tg_arch t \<and>
       map cp_component (bg_images b) = sort (role_components (tg_role t)) \<and>
       (\<forall>c \<in> set (bg_images b). \<exists>i \<in> set (lk_images (bp_release p)). \<exists>q \<in> set (im_platforms i). \<exists>repo d.
          im_component i = cp_component c \<and> new_digest R (im_pinned i) = Some (repo, d) \<and>
          pf_arch q = tg_arch t \<and> cp_pinned c = digest_name R repo (pf_digest q)))"
proof -
  let ?n = "pl_network (bp_compute p)" and ?ims = "lk_images (bp_release p)"
  have b: "validate_plan H R (bp_compute p) = Inr ()" "validate_lock H R ?n (bp_release p) = Inr ()"
    "bp_targets p = map (bootstrap_target R (bp_release p)) (pl_targets (bp_compute p))"
    using assms by (simp_all add: validate_bplan_Inr build_bootstrap_Inr)
  have n: "validate_network R ?n = Inr ()" using b(1) by (auto simp: validate_plan_def res_simps)
  have v: "distinct (map im_component ?ims)"
    and ims: "\<forall>i \<in> set ?ims. check_pins R (im_requested i) i = Inr () \<and> check_platforms (architectures ?n) i = Inr ()"
    using b(2) by (simp_all add: validate_lock_Inr)
  have comps: "im_component ` set ?ims = set (image_components ?n)"
    using lock_components [OF b(2)] image_components_set(1) [OF n] by simp
  have one: "bg_name (bootstrap_target R (bp_release p) t) = tg_name t \<and> bg_arch (bootstrap_target R (bp_release p) t) = tg_arch t \<and>
      map cp_component (bg_images (bootstrap_target R (bp_release p) t)) = sort (role_components (tg_role t)) \<and>
      (\<forall>c \<in> set (bg_images (bootstrap_target R (bp_release p) t)). \<exists>i \<in> set ?ims. \<exists>q \<in> set (im_platforms i). \<exists>repo d.
          im_component i = cp_component c \<and> new_digest R (im_pinned i) = Some (repo, d) \<and>
          pf_arch q = tg_arch t \<and> cp_pinned c = digest_name R repo (pf_digest q))"
    if t: "t \<in> set (pl_targets (bp_compute p))" for t
  proof -
    have arch: "tg_arch t \<in> set (architectures ?n)"
      using valid_target_arch [OF b(1) t] by simp
    have d: "distinct (architectures ?n)" by simp
    have pin: "\<exists>q \<in> set (im_platforms i). \<exists>repo d. new_digest R (im_pinned i) = Some (repo, d) \<and> pf_arch q = tg_arch t \<and>
        arch_pins R (tg_arch t) i = [\<lparr>cp_component = im_component i, cp_pinned = digest_name R repo (pf_digest q)\<rparr>]"
      if i: "i \<in> set ?ims" for i
    proof -
      obtain repo dg where "new_digest R (im_pinned i) = Some (repo, dg)" using ims i by (auto simp: check_pins_Inr)
      moreover have "sort (map pf_arch (im_platforms i)) = architectures ?n" using ims i by (simp add: check_platforms_Inr)
      ultimately show ?thesis using arch_pins_single [OF _ d arch] by blast
    qed
    let ?sel = "filter (\<lambda>i. needed (tg_role t) (im_component i)) ?ims"
    have "map cp_component (concat (map (arch_pins R (tg_arch t)) ?sel)) = map im_component ?sel"
      by (rule concat_singles) (use pin in fastforce)
    then have m: "map cp_component (bg_images (bootstrap_target R (bp_release p) t)) = sort (map im_component ?sel)"
      by (simp add: bootstrap_target_def sort_key_map)
    have "distinct (map im_component ?sel)" using v by (rule distinct_map_filter)
    moreover have "set (map im_component ?sel) = set (role_components (tg_role t))"
      using comps role_components_known role_not_optional by (fastforce simp: needed_def)
    moreover have "distinct (role_components (tg_role t))" by (simp add: role_components_def components_def)
    ultimately have "sort (map im_component ?sel) = sort (role_components (tg_role t))"
      by (intro sorted_distinct_set_unique) simp_all
    with m have "map cp_component (bg_images (bootstrap_target R (bp_release p) t)) = sort (role_components (tg_role t))" by simp
    moreover have "\<exists>i \<in> set ?ims. \<exists>q \<in> set (im_platforms i). \<exists>repo d.
          im_component i = cp_component c \<and> new_digest R (im_pinned i) = Some (repo, d) \<and>
          pf_arch q = tg_arch t \<and> cp_pinned c = digest_name R repo (pf_digest q)"
      if c: "c \<in> set (bg_images (bootstrap_target R (bp_release p) t))" for c
    proof -
      obtain i where i: "i \<in> set ?ims" "c \<in> set (arch_pins R (tg_arch t) i)"
        using c by (auto simp: bootstrap_target_def)
      from pin [OF i(1)] i show ?thesis by fastforce
    qed
    ultimately show ?thesis by (simp add: bootstrap_target_def)
  qed
  have "let b = bp_targets p ! k; t = pl_targets (bp_compute p) ! k in
       bg_name b = tg_name t \<and> bg_arch b = tg_arch t \<and>
       map cp_component (bg_images b) = sort (role_components (tg_role t)) \<and>
       (\<forall>c \<in> set (bg_images b). \<exists>i \<in> set ?ims. \<exists>q \<in> set (im_platforms i). \<exists>repo d.
          im_component i = cp_component c \<and> new_digest R (im_pinned i) = Some (repo, d) \<and>
          pf_arch q = tg_arch t \<and> cp_pinned c = digest_name R repo (pf_digest q))" if "k < length (bp_targets p)" for k
    using one [of "pl_targets (bp_compute p) ! k"] that by (simp add: b(3) Let_def)
  then show ?thesis by (simp add: b(3))
qed

definition sample_bplan :: bplan where
  "sample_bplan = (case build_bootstrap sample_hash sample_refs ''recipe'' sample_plan sample_lock
       \<lparr>ac_user = ''ubuntu'', ac_port = 22, ac_address = ''private''\<rparr> of Inr p \<Rightarrow> p | Inl e \<Rightarrow> undefined)"

lemma sample_bplan_valid: "validate_bplan sample_hash sample_refs ''recipe'' sample_bplan = Inr ()"
proof -
  let ?a = "\<lparr>ac_user = ''ubuntu'', ac_port = 22, ac_address = ''private''\<rparr>"
  have "check_access sample_plan ?a = Inr ()" by code_simp
  moreover have "pl_network sample_plan = sample_network" by (simp add: sample_plan_def build_def Let_def)
  ultimately have "build_bootstrap sample_hash sample_refs ''recipe'' sample_plan sample_lock ?a = Inr sample_bplan"
    using sample_plan_valid sample_lock_valid
    by (simp add: sample_bplan_def build_bootstrap_def Let_def)
  then show ?thesis by (simp add: validate_bplan_Inr build_bootstrap_Inr)
qed

theorem bootstrap_images_witness:
  "length (bp_targets sample_bplan) = length (pl_targets (bp_compute sample_bplan))"
  using bootstrap_images [OF sample_bplan_valid] by blast

end
