(* ===== verification/Managed_Fleet.thy ===== *)
theory Managed_Fleet
  imports Core_Join Bootstrap_Plan "HOL-Library.Word"
begin

text \<open>
  \<open>internal/managed/types.go\<close>: the declared fleet of existing hosts, what is observed of them, the
  snapshot of a fleet and the reviewed plan, with their validation. \<open>int64\<close> values that a host
  reports are 64-bit words read with \<open>sint\<close>; a pointer to a struct is an option; a nil map is an
  empty map.
\<close>

section \<open>Data\<close>

type_synonym int64 = "64 word"

record mtarget =
  mt_name :: string
  mt_id :: string
  mt_address :: string
  mt_arch :: string
  mt_role :: string
  mt_containers :: "(string, string) fmap"

record fleet =
  fl_api :: string
  fl_kind :: string
  fl_metadata :: metadata
  fl_type :: string
  fl_core :: string
  fl_account :: string
  fl_region :: string
  fl_tag_key :: string
  fl_table :: string
  fl_access :: access
  fl_targets :: "mtarget list"

record container =
  ct_id :: string
  ct_image_id :: string
  ct_image :: string
  ct_digests :: "string list"
  ct_config :: string
  ct_running :: bool
  ct_started :: string
  ct_restarts :: int

record mchain =
  mc_network :: string
  mc_genesis :: string
  mc_height :: int64
  mc_synced :: bool
  mc_lock :: int64
  mc_state :: string
  mc_protx :: string
  mc_platform :: string
  mc_platform_height :: int64
  mc_platform_hash :: string
  mc_protocol :: int
  mc_node :: string
  mc_catching :: bool
  mc_power :: "(string, int64) fmap"
  mc_dapi_height :: int64
  mc_dapi :: bool

record observation =
  ob_join :: "core_join option"
  ob_id :: string
  ob_at :: gotime
  ob_components :: "(string, container) fmap"
  ob_companions :: "(string, container) fmap"
  ob_native :: "(string, string) fmap"
  ob_files :: string
  ob_chain :: mchain
  ob_problems :: "string list"
  ob_error :: string

record snapshot =
  ss_api :: string
  ss_kind :: string
  ss_id :: string
  ss_fleet :: fleet
  ss_at :: gotime
  ss_nodes :: "(string, observation) fmap"

type_synonym pins = "(string, string) fmap"
type_synonym images = "(string, pins) fmap"

record mplan =
  mg_targets :: "string list"
  mg_api :: string
  mg_kind :: string
  mg_id :: string
  mg_snapshot :: snapshot
  mg_operation :: string
  mg_scope :: string
  mg_images :: images
  mg_previous :: string
  mg_recipe :: string
  mg_created :: gotime

text \<open>Reading a Go map: the zero value where the key is absent.\<close>

definition zero_container :: container where
  "zero_container = \<lparr>ct_id = [], ct_image_id = [], ct_image = [], ct_digests = [], ct_config = [],
     ct_running = False, ct_started = [], ct_restarts = 0\<rparr>"

definition zero_chain :: mchain where
  "zero_chain = \<lparr>mc_network = [], mc_genesis = [], mc_height = 0, mc_synced = False, mc_lock = 0, mc_state = [],
     mc_protx = [], mc_platform = [], mc_platform_height = 0, mc_platform_hash = [], mc_protocol = 0, mc_node = [],
     mc_catching = False, mc_power = fmempty, mc_dapi_height = 0, mc_dapi = False\<rparr>"

definition zero_observation :: observation where
  "zero_observation = \<lparr>ob_join = None, ob_id = [], ob_at = 0, ob_components = fmempty, ob_companions = fmempty,
     ob_native = fmempty, ob_files = [], ob_chain = zero_chain, ob_problems = [], ob_error = []\<rparr>"

definition at_or :: "'v \<Rightarrow> ('k, 'v) fmap \<Rightarrow> 'k \<Rightarrow> 'v" where
  "at_or z m k = (case fmlookup m k of None \<Rightarrow> z | Some v \<Rightarrow> v)"

abbreviation seen_at :: "(string, observation) fmap \<Rightarrow> string \<Rightarrow> observation" where
  "seen_at \<equiv> at_or zero_observation"

section \<open>JSON values\<close>

definition mtarget_json :: "mtarget \<Rightarrow> json" where
  "mtarget_json t = JObj [(''name'', JStr (mt_name t)), (''instanceId'', JStr (mt_id t)),
     (''address'', JStr (mt_address t)), (''architecture'', JStr (mt_arch t)), (''role'', JStr (mt_role t)),
     (''containers'', jmap (mt_containers t))]"

definition fleet_json :: "fleet \<Rightarrow> json" where
  "fleet_json f = JObj [(''apiVersion'', JStr (fl_api f)), (''kind'', JStr (fl_kind f)),
     (''metadata'', metadata_json (fl_metadata f)), (''chainType'', JStr (fl_type f)),
     (''coreNetwork'', JStr (fl_core f)), (''accountId'', JStr (fl_account f)), (''region'', JStr (fl_region f)),
     (''networkTagKey'', JStr (fl_tag_key f)), (''stateTable'', JStr (fl_table f)),
     (''access'', access_json (fl_access f)), (''targets'', JArr (map mtarget_json (fl_targets f)))]"

definition container_json :: "container \<Rightarrow> json" where
  "container_json c = JObj [(''id'', JStr (ct_id c)), (''imageId'', JStr (ct_image_id c)),
     (''image'', JStr (ct_image c)), (''digests'', JArr (map JStr (ct_digests c))),
     (''configHash'', JStr (ct_config c)), (''running'', JBool (ct_running c)),
     (''startedAt'', JStr (ct_started c)), (''restarts'', JNum (ct_restarts c))]"

definition mchain_json :: "mchain \<Rightarrow> json" where
  "mchain_json c = JObj [(''coreNetwork'', JStr (mc_network c)), (''coreGenesis'', JStr (mc_genesis c)),
     (''coreHeight'', JNum (sint (mc_height c))), (''coreSynced'', JBool (mc_synced c)),
     (''chainLockHeight'', JNum (sint (mc_lock c))), (''masternodeState'', JStr (mc_state c)),
     (''proTxHash'', JStr (mc_protx c)), (''platformChainId'', JStr (mc_platform c)),
     (''platformHeight'', JNum (sint (mc_platform_height c))), (''platformHash'', JStr (mc_platform_hash c)),
     (''platformProtocol'', JNum (mc_protocol c)), (''platformNodeId'', JStr (mc_node c)),
     (''catchingUp'', JBool (mc_catching c)), (''votingPower'', jmap_of (\<lambda>p. JNum (sint p)) (mc_power c)),
     (''dapiHeight'', JNum (sint (mc_dapi_height c))), (''dapiHealthy'', JBool (mc_dapi c))]"

definition observation_json :: "observation \<Rightarrow> json" where
  "observation_json b = JObj ((case ob_join b of None \<Rightarrow> [] | Some j \<Rightarrow> [(''join'', core_join_json j)]) @
     [(''instanceId'', JStr (ob_id b)), (''at'', JTime (ob_at b)),
      (''components'', jmap_of container_json (ob_components b)),
      (''companions'', jmap_of container_json (ob_companions b)), (''nativeProcesses'', jmap (ob_native b)),
      (''filesHash'', JStr (ob_files b)), (''chain'', mchain_json (ob_chain b)),
      (''problems'', JArr (map JStr (ob_problems b)))] @ omit_empty ''error'' (ob_error b))"

definition snapshot_json :: "snapshot \<Rightarrow> json" where
  "snapshot_json s = JObj [(''apiVersion'', JStr (ss_api s)), (''kind'', JStr (ss_kind s)), (''id'', JStr (ss_id s)),
     (''fleet'', fleet_json (ss_fleet s)), (''observedAt'', JTime (ss_at s)),
     (''nodes'', jmap_of observation_json (ss_nodes s))]"

definition mplan_json :: "mplan \<Rightarrow> json" where
  "mplan_json p = JObj ((if mg_targets p = [] then [] else [(''targets'', JArr (map JStr (mg_targets p)))]) @
     [(''apiVersion'', JStr (mg_api p)), (''kind'', JStr (mg_kind p)), (''id'', JStr (mg_id p)),
      (''snapshot'', snapshot_json (mg_snapshot p)), (''operation'', JStr (mg_operation p)),
      (''scope'', JStr (mg_scope p)), (''images'', jmap_of jmap (mg_images p))] @
     omit_empty ''previousId'' (mg_previous p) @
     [(''recipe'', JStr (mg_recipe p)), (''createdAt'', JTime (mg_created p))])"

section \<open>The fleet\<close>

definition container_name :: rx where
  "container_name = (let p = (\<lambda>c. is_lower c \<or> is_upper c \<or> is_dec c) in
     Seq (Sym p) (Upto 127 (Sym (\<lambda>c. p c \<or> c \<in> set ''_.-''))))"

definition instance_id :: rx where
  "instance_id = Seq (lit ''i-'') aws_suffix"

definition managed_components :: "string list" where
  "managed_components = [''core'', ''drive'', ''tenderdash'', ''dapi'', ''gateway'', ''helper'']"

definition fleet_id :: "hasher \<Rightarrow> fleet \<Rightarrow> string" where
  "fleet_id H f = H (fleet_json f)"

definition authority :: "hasher \<Rightarrow> fleet \<Rightarrow> string" where
  "authority H f = H (JObj [(''APIVersion'', JStr (fl_api f)), (''Kind'', JStr (fl_kind f)),
     (''Name'', JStr (md_name (fl_metadata f))), (''ChainType'', JStr (fl_type f)), (''CoreNetwork'', JStr (fl_core f)),
     (''AccountID'', JStr (fl_account f)), (''Region'', JStr (fl_region f)),
     (''NetworkTagKey'', JStr (fl_tag_key f)), (''StateTable'', JStr (fl_table f))])"

definition fleet_key :: "fleet \<Rightarrow> string" where
  "fleet_key f = fl_account f @ ''/'' @ fl_region f @ ''/'' @ md_name (fl_metadata f)"

text \<open>The inner loop runs over a map: it refuses when a component or container name is invalid or two
  components share a container, in whatever order the map is visited.\<close>

definition good_containers :: "(string, string) fmap \<Rightarrow> bool" where
  "good_containers m = (let l = sorted_list_of_fmap m in
     list_all (\<lambda>(c, n). c \<in> set managed_components \<and> matches container_name n) l \<and> distinct (map snd l))"

definition check_mtarget :: "mtarget list \<Rightarrow> mtarget \<Rightarrow> mtarget list res" where
  "check_mtarget seen t =
     (if \<not> matches slug (mt_name t) \<or> \<not> matches instance_id (mt_id t) \<or> mt_name t \<in> mt_name ` set seen \<or>
         mt_id t \<in> mt_id ` set seen \<or> mt_address t \<in> mt_address ` set seen \<or> \<not> usable_v4 (mt_address t)
        then Inl (Err ''targets require unique names/instances and usable IPv4 addresses'')
      else if mt_arch t \<noteq> ''amd64'' \<and> mt_arch t \<noteq> ''arm64'' then Inl (Err ''invalid architecture'')
      else if mt_role t \<notin> set [''validator'', ''seed'', ''core'', ''masternode'']
        then Inl (Err ''supported roles: validator, seed, core, masternode'')
      else if \<not> good_containers (mt_containers t) then Inl (Err ''invalid/duplicate component container'')
      else if mt_role t = ''validator'' \<and>
           list_ex (\<lambda>c. mget (mt_containers t) c = []) [''core'', ''drive'', ''tenderdash'', ''dapi'', ''gateway'']
        then Inl (Err ''validator missing a component'')
      else if ((mt_role t = ''core'' \<or> mt_role t = ''masternode'') \<and>
             (fcard (fmdom (mt_containers t)) \<noteq> 1 \<or> mget (mt_containers t) ''core'' = [])) \<or>
           (mt_role t = ''seed'' \<and> mget (mt_containers t) ''tenderdash'' = [])
        then Inl (Err ''role lacks required workload'')
      else Inr (t # seen))"

definition check_fleet_scope :: "fleet \<Rightarrow> unit res" where
  "check_fleet_scope f =
     (if fl_api f \<noteq> api_version \<or> fl_kind f \<noteq> ''ExistingNetwork'' \<or> \<not> matches slug (md_name (fl_metadata f)) \<or>
         md_display (fl_metadata f) = [] \<or> length (md_description (fl_metadata f)) > 1000 \<or>
         (md_visibility (fl_metadata f) \<noteq> ''private'' \<and> md_visibility (fl_metadata f) \<noteq> ''public'')
        then Inl (Err ''explicit existing-network identity/visibility required'')
      else if fl_type f \<noteq> ''testnet'' \<and> fl_type f \<noteq> ''devnet''
        then Inl (Err ''only managed testnet or devnet supported'')
      else if (fl_type f = ''testnet'' \<and> fl_core f \<noteq> ''test'') \<or>
           (fl_type f = ''devnet'' \<and> (\<not> has_prefix (fl_core f) ''devnet-'' \<or> \<not> matches slug (fl_core f)))
        then Inl (Err ''explicit Core chain name required'')
      else if \<not> matches account (fl_account f) \<or> \<not> matches region (fl_region f) \<or> \<not> matches table_name (fl_table f) \<or>
           fl_tag_key f = [] \<or> contains_any (fl_tag_key f) (CHR 0x0D # CHR 0x0A # CHR 0x09 # ''*'')
        then Inl (Err ''explicit AWS account/region/tag/journal required'')
      else if ac_user (fl_access f) \<noteq> ''ubuntu'' \<and> ac_user (fl_access f) \<noteq> ''root''
        then Inl (Err ''supported SSH user is ubuntu or root'')
      else if ac_port (fl_access f) < 1 \<or> ac_port (fl_access f) > 65535 \<or> fl_targets f = [] \<or> length (fl_targets f) > 200
        then Inl (Err ''invalid SSH port or target count'')
      else Inr ())"

definition validate_fleet :: "fleet \<Rightarrow> unit res" where
  "validate_fleet f = after (check_fleet_scope f) (\<lambda>_.
     after (scan_ok check_mtarget [] (fl_targets f)) (\<lambda>_. Inr ()))"

section \<open>The snapshot\<close>

definition validate_snapshot :: "hasher \<Rightarrow> snapshot \<Rightarrow> unit res" where
  "validate_snapshot H s =
     (if ss_api s \<noteq> api_version \<or> ss_kind s \<noteq> ''ExistingSnapshot'' \<or> ss_id s \<noteq> H (snapshot_json (s\<lparr>ss_id := []\<rparr>)) \<or>
         ss_at s = 0 then Inl (Err ''invalid/altered existing snapshot'')
      else after (validate_fleet (ss_fleet s)) (\<lambda>_.
        if fcard (fmdom (ss_nodes s)) \<noteq> length (fl_targets (ss_fleet s)) then Inl (Err ''snapshot lost target'')
        else each_ok (\<lambda>t. case fmlookup (ss_nodes s) (mt_name t) of
            None \<Rightarrow> Inl (Err ''snapshot target identity mismatch'')
          | Some b \<Rightarrow> if ob_id b \<noteq> mt_id t then Inl (Err ''snapshot target identity mismatch'') else Inr ())
          (fl_targets (ss_fleet s))))"

definition fingerprinted :: "observation \<Rightarrow> string \<Rightarrow> bool" where
  "fingerprinted b c = (case fmlookup (ob_components b) c of None \<Rightarrow> False
     | Some v \<Rightarrow> matches hex64 (ct_id v) \<and> matches hex64 (ct_config v) \<and> has_prefix (ct_image_id v) ''sha256:'')"

text \<open>One round of the loop of \<open>CompleteTargets\<close>; it carries the genesis and the Platform chain.\<close>

definition check_complete :: "snapshot \<Rightarrow> string list \<Rightarrow> string \<times> string \<Rightarrow> mtarget \<Rightarrow> (string \<times> string) res" where
  "check_complete s names st t = (let (genesis, chain) = st; b = seen_at (ss_nodes s) (mt_name t); c = ob_chain b;
       core = mget (mt_containers t) ''core'' \<noteq> [] in
     if names \<noteq> [] \<and> mt_name t \<notin> set names then Inr st
     else if ob_error b \<noteq> [] \<or> ob_problems b \<noteq> [] \<or> \<not> matches hex64 (ob_files b) \<or>
         fcard (fmdom (ob_components b)) \<noteq> fcard (fmdom (mt_containers t))
       then Inl (At (mt_name t) (Err ''incomplete/unsupported observation''))
     else if \<not> list_all (fingerprinted b) (map fst (sorted_list_of_fmap (mt_containers t)))
       then Inl (Err ''invalid workload fingerprint'')
     else if core \<and> (mc_network c \<noteq> fl_core (ss_fleet s) \<or> \<not> matches hex64 (mc_genesis c))
       then Inl (Err ''Core identity not proved'')
     else if core \<and> genesis \<noteq> [] \<and> genesis \<noteq> mc_genesis c then Inl (Err ''Core genesis differs across fleet'')
     else let genesis' = (if core then mc_genesis c else genesis) in
       if mt_role t \<noteq> ''validator'' then Inr (genesis', chain)
       else if mc_platform c = [] \<or> \<not> matches hex64 (mc_protx c) \<or> mc_node c = []
         then Inl (Err ''validator identity not proved'')
       else if chain \<noteq> [] \<and> chain \<noteq> mc_platform c then Inl (Err ''Platform chain differs across fleet'')
       else Inr (genesis', mc_platform c))"

definition complete_targets :: "hasher \<Rightarrow> snapshot \<Rightarrow> string list \<Rightarrow> unit res" where
  "complete_targets H s names = after (validate_snapshot H s) (\<lambda>_.
     if list_ex (\<lambda>x. x \<notin> mt_name ` set (fl_targets (ss_fleet s))) names
       then Inl (Err ''selected node outside fleet'')
     else after (scan_ok (check_complete s names) ([], []) (fl_targets (ss_fleet s))) (\<lambda>_. Inr ()))"

definition complete :: "hasher \<Rightarrow> snapshot \<Rightarrow> unit res" where
  "complete H s = complete_targets H s []"

section \<open>The plan\<close>

definition valid_pin :: "image_refs \<Rightarrow> string \<Rightarrow> bool" where
  "valid_pin R pin = (case new_digest R pin of None \<Rightarrow> False
     | Some (_, d) \<Rightarrow> has_prefix d ''sha256:'' \<and> matches hex64 (trim_prefix d ''sha256:''))"

definition selected :: "string \<Rightarrow> string \<Rightarrow> bool" where
  "selected scope c = (if scope = ''all'' then True
     else if scope = ''platform'' then c \<noteq> ''core'' \<and> c \<noteq> ''helper''
     else c \<in> set (split_on CHR '','' scope) \<or> (c = ''tenderdash'' \<and> ''drive'' \<in> set (split_on CHR '','' scope)))"

definition valid_scope :: "string \<Rightarrow> bool" where
  "valid_scope scope \<longleftrightarrow> scope = ''all'' \<or> scope = ''platform'' \<or>
     (list_all (\<lambda>c. c \<in> set managed_components) (split_on CHR '','' scope) \<and> distinct (split_on CHR '','' scope))"

definition selects :: "mplan \<Rightarrow> mtarget \<Rightarrow> bool" where
  "selects p t \<longleftrightarrow> mg_targets p = [] \<or> mt_name t \<in> set (mg_targets p)"

text \<open>\<open>W\<close> is the text of the embedded worker; \<open>pins_at\<close> reads \<open>p.Images[t.Name]\<close>.\<close>

definition managed_recipe :: "hasher \<Rightarrow> string \<Rightarrow> string" where
  "managed_recipe H W = H (JStr W)"

definition pins_at :: "mplan \<Rightarrow> mtarget \<Rightarrow> pins" where
  "pins_at p t = at_or fmempty (mg_images p) (mt_name t)"

text \<open>The components of the target that the plan changes, and the check of their pins.\<close>

definition expected_components :: "mplan \<Rightarrow> mtarget \<Rightarrow> string list" where
  "expected_components p t =
     filter (\<lambda>c. selects p t \<and> selected (mg_scope p) c) (map fst (sorted_list_of_fmap (mt_containers t)))"

definition check_mimages :: "image_refs \<Rightarrow> mplan \<Rightarrow> nat \<Rightarrow> mtarget \<Rightarrow> nat res" where
  "check_mimages R p n t =
     (if \<not> list_all (\<lambda>c. valid_pin R (mget (pins_at p t) c)) (expected_components p t)
        then Inl (At (mt_name t) (Err ''missing immutable image''))
      else if fcard (fmdom (pins_at p t)) \<noteq> length (expected_components p t)
        then Inl (Err ''image selection exceeds scope'')
      else Inr (if expected_components p t = [] then n else Suc n))"

definition validate_mplan :: "hasher \<Rightarrow> image_refs \<Rightarrow> string \<Rightarrow> mplan \<Rightarrow> unit res" where
  "validate_mplan H R W p =
     (if mg_api p \<noteq> api_version \<or> mg_kind p \<noteq> ''ExistingOperation'' \<or> mg_id p \<noteq> H (mplan_json (p\<lparr>mg_id := []\<rparr>)) \<or>
         mg_recipe p \<noteq> managed_recipe H W \<or> mg_created p = 0
        then Inl (Err ''managed plan altered or executor recipe changed'')
      else after (complete_targets H (mg_snapshot p) (mg_targets p)) (\<lambda>_.
        if mg_previous p \<noteq> [] \<and> \<not> matches hex64 (mg_previous p) then Inl (Err ''invalid predecessor'')
        else if mg_operation p \<noteq> ''upgrade'' \<and> mg_operation p \<noteq> ''deploy''
          then Inl (Err ''supported existing operations: deploy, upgrade'')
        else if \<not> valid_scope (mg_scope p) then Inl (Err ''unsupported component scope'')
        else if \<not> distinct (mg_targets p) then Inl (Err ''duplicate selected target'')
        else after (scan_ok (check_mimages R p) 0 (fl_targets (ss_fleet (mg_snapshot p)))) (\<lambda>count.
          if fcard (fmdom (mg_images p)) \<noteq> length (fl_targets (ss_fleet (mg_snapshot p))) \<or> count = 0
            then Inl (Err ''image selection lost target or selects nothing'') else Inr ())))"

text \<open>\<open>BuildSelected\<close> returns the plan with the verdict of its validation; \<open>Build\<close> selects no targets.\<close>

definition build_selected :: "hasher \<Rightarrow> image_refs \<Rightarrow> string \<Rightarrow> snapshot \<Rightarrow> string \<Rightarrow> string \<Rightarrow> string \<Rightarrow> images \<Rightarrow>
    string list \<Rightarrow> gotime \<Rightarrow> mplan \<times> unit res" where
  "build_selected H R W s operation scope previous ims targets t =
     (let p = \<lparr>mg_targets = targets, mg_api = api_version, mg_kind = ''ExistingOperation'', mg_id = [], mg_snapshot = s,
       mg_operation = operation, mg_scope = scope, mg_images = ims, mg_previous = previous,
       mg_recipe = managed_recipe H W, mg_created = t\<rparr>; q = p\<lparr>mg_id := H (mplan_json p)\<rparr>
      in (q, validate_mplan H R W q))"

definition build_operation :: "hasher \<Rightarrow> image_refs \<Rightarrow> string \<Rightarrow> snapshot \<Rightarrow> string \<Rightarrow> string \<Rightarrow> string \<Rightarrow> images \<Rightarrow>
    gotime \<Rightarrow> mplan \<times> unit res" where
  "build_operation H R W s operation scope previous ims t = build_selected H R W s operation scope previous ims [] t"

end
