(* ===== verification/Managed_Sample.thy ===== *)
theory Managed_Sample
  imports Managed_Fleet Sample
begin

text \<open>
  A managed devnet of two Core hosts, its snapshot and an upgrade plan, for the witnesses of the
  managed components.
\<close>

definition sample_a64 :: string where
  "sample_a64 = replicate 64 (CHR ''a'')"

definition sample_mtarget :: "string \<Rightarrow> string \<Rightarrow> string \<Rightarrow> mtarget" where
  "sample_mtarget x i a = \<lparr>mt_name = x, mt_id = i, mt_address = a, mt_arch = ''amd64'', mt_role = ''core'',
     mt_containers = fmap_of_list [(''core'', ''dashd'')]\<rparr>"

definition sample_fleet :: fleet where
  "sample_fleet = \<lparr>fl_api = api_version, fl_kind = ''ExistingNetwork'',
     fl_metadata = \<lparr>md_name = ''devnet-m'', md_display = ''M'', md_description = [], md_visibility = ''private''\<rparr>,
     fl_type = ''devnet'', fl_core = ''devnet-m'', fl_account = ''123456789012'', fl_region = ''us-west-2'',
     fl_tag_key = ''net'', fl_table = ''journal'',
     fl_access = \<lparr>ac_user = ''ubuntu'', ac_port = 22, ac_address = []\<rparr>,
     fl_targets = [sample_mtarget ''a'' ''i-00000001'' ''203.0.113.1'', sample_mtarget ''b'' ''i-00000002'' ''203.0.113.2'']\<rparr>"

definition sample_container :: "string \<Rightarrow> container" where
  "sample_container d = \<lparr>ct_id = sample_a64, ct_image_id = ''sha256:a'', ct_image = ''core'', ct_digests = [d], ct_config = sample_a64,
     ct_running = True, ct_started = [], ct_restarts = 0\<rparr>"

definition sample_observation :: "string \<Rightarrow> string \<Rightarrow> int64 \<Rightarrow> observation" where
  "sample_observation i d h = zero_observation\<lparr>ob_id := i, ob_at := 1, ob_components := fmap_of_list [(''core'', sample_container d)],
     ob_files := sample_a64, ob_chain := zero_chain\<lparr>mc_network := ''devnet-m'', mc_genesis := sample_a64,
       mc_height := h, mc_synced := True, mc_lock := h\<rparr>\<rparr>"

definition sample_snapshot :: snapshot where
  "sample_snapshot = \<lparr>ss_api = api_version, ss_kind = ''ExistingSnapshot'', ss_id = sample_a64, ss_fleet = sample_fleet,
     ss_at = 1, ss_nodes = fmap_of_list [(''a'', sample_observation ''i-00000001'' ''core@old'' 1),
       (''b'', sample_observation ''i-00000002'' ''core@old'' 1)]\<rparr>"

definition sample_pin :: string where
  "sample_pin = ''core@sha256:'' @ sample_a64"

definition sample_mplan :: mplan where
  "sample_mplan = \<lparr>mg_targets = [], mg_api = api_version, mg_kind = ''ExistingOperation'', mg_id = sample_a64,
     mg_snapshot = sample_snapshot, mg_operation = ''upgrade'', mg_scope = ''core'',
     mg_images = fmap_of_list [(''a'', fmap_of_list [(''core'', sample_pin)]), (''b'', fmap_of_list [(''core'', sample_pin)])],
     mg_previous = [], mg_recipe = sample_a64, mg_created = 1\<rparr>"

lemma sample_fleet_valid: "validate_fleet sample_fleet = Inr ()"
  by code_simp

lemma sample_snapshot_complete: "complete sample_hash sample_snapshot = Inr ()"
  by code_simp

lemma sample_mplan_valid: "validate_mplan sample_hash sample_refs ''w'' sample_mplan = Inr ()"
  by code_simp

end
