(* ===== verification/Dynamo_Table.thy ===== *)
theory Dynamo_Table
  imports Ops
begin

text \<open>
  The part of DynamoDB the two journals use: one table keyed by the string attribute \<open>Network\<close>,
  strongly consistent reads, conditional puts and conditional updates. Conditions and updates are
  data, as the code sends them; \<open>exec\<close> is the documented effect of one request. Every request is
  atomic, so the behaviour of any number of runners, with lost requests, lost replies, repeated
  deliveries and delays, is a list of requests of which some take effect.

  The locale \<open>fenced_journal\<close> is the contract between a journal client and the table: each of its
  calls either leaves an item alone or makes one of four steps (create, claim, release,
  checkpoint). Exclusive claims, permanent bindings and growing revisions follow for every run.
\<close>

section \<open>Items, conditions and requests\<close>

text \<open>An attribute is a string, a number or a JSON document. A document is what the code can read
  of a text: the record that a strict decoder yields (none for a malformed text, an unknown field
  or trailing data), the raw text of each field of the outer object, and the length.\<close>

record 'r doc =
  doc_record :: "'r option"
  doc_raw :: "(string, string) fmap"
  doc_size :: nat

datatype 'r attr = S string | N int | D "'r doc"

type_synonym 'r item = "(string, 'r attr) fmap"
type_synonym 'r table = "(string, 'r item) fmap"

datatype 'r cond = Absent string | Equals string "'r attr" | Both "'r cond" "'r cond"
  | Either "'r cond" "'r cond"

datatype 'r change = SetAll "(string \<times> 'r attr) list" | Unset string

datatype 'r request = Get string | Put string "'r item" "'r cond" | Update string "'r change" "'r cond"

datatype 'r reply = Found "'r item option" | Written "'r item option" | Refused | Fault gerr

fun holds :: "'r cond \<Rightarrow> 'r item \<Rightarrow> bool" where
  "holds (Absent a) it = (fmlookup it a = None)"
| "holds (Equals a v) it = (fmlookup it a = Some v)"
| "holds (Both c d) it = (holds c it \<and> holds d it)"
| "holds (Either c d) it = (holds c it \<or> holds d it)"

fun changed :: "'r change \<Rightarrow> 'r item \<Rightarrow> 'r item" where
  "changed (SetAll avs) it = fold (\<lambda>(a, v) m. fmupd a v m) avs it"
| "changed (Unset a) it = fmdrop a it"

text \<open>A condition on an item that does not exist sees no attributes.\<close>

definition item_at :: "'r table \<Rightarrow> string \<Rightarrow> 'r item" where
  "item_at T k = (case fmlookup T k of None \<Rightarrow> fmempty | Some it \<Rightarrow> it)"

fun exec :: "'r table \<Rightarrow> 'r request \<Rightarrow> 'r table \<times> 'r reply" where
  "exec T (Get k) = (T, Found (fmlookup T k))"
| "exec T (Put k it c) = (if holds c (item_at T k) then (fmupd k it T, Written None) else (T, Refused))"
| "exec T (Update k u c) = (if holds c (item_at T k)
     then (let it = changed u (case fmlookup T k of Some it \<Rightarrow> it | None \<Rightarrow> fmupd ''Network'' (S k) fmempty)
       in (fmupd k it T, Written (Some it)))
     else (T, Refused))"

text \<open>The table keeps the key attribute of every item.\<close>

definition keyed :: "'r table \<Rightarrow> bool" where
  "keyed T \<longleftrightarrow> (\<forall>k it. fmlookup T k = Some it \<longrightarrow> fmlookup it ''Network'' = Some (S k))"

lemma keyed_empty [simp]: "keyed fmempty"
  by (simp add: keyed_def)

lemma keyed_upd [intro]: "keyed T \<Longrightarrow> fmlookup it ''Network'' = Some (S k) \<Longrightarrow> keyed (fmupd k it T)"
  by (simp add: keyed_def)

lemma keyed_exists: "keyed T \<Longrightarrow> fmlookup (item_at T k) ''Network'' = None \<longleftrightarrow> fmlookup T k = None"
  by (auto simp: keyed_def item_at_def split: option.splits)

section \<open>A table behind an environment\<close>

text \<open>The table after a history of requests, and the environment that serves one client from it.\<close>

fun table_after :: "'r table \<Rightarrow> ('r request, 'r reply) hist \<Rightarrow> 'r table" where
  "table_after T [] = T"
| "table_after T ((q, r) # h) = fst (exec (table_after T h) q)"

definition serves :: "'r table \<Rightarrow> ('r request, 'r reply) env \<Rightarrow> bool" where
  "serves T e \<longleftrightarrow> (\<forall>h q. answer e h q = snd (exec (table_after T h) q))"

definition table_env :: "'r table \<Rightarrow> ('r request, 'r reply) env" where
  "table_env T = \<lparr>answer = (\<lambda>h q. snd (exec (table_after T h) q)), clock = (\<lambda>_. 1), cancelled = (\<lambda>_. False)\<rparr>"

lemma serves_table_env [simp]: "serves T (table_env T)"
  by (simp add: serves_def table_env_def)

lemma servesD: "serves T e \<Longrightarrow> answer e h q = snd (exec (table_after T h) q)"
  by (simp add: serves_def)

section \<open>Steps of an item\<close>

text \<open>The abstract journal: what runner \<open>o\<close> can do to the item of a network.\<close>

inductive item_step :: "string \<Rightarrow> 'r item option \<Rightarrow> 'r item option \<Rightarrow> bool" where
  created: "fmlookup it ''Owner'' = Some (S r) \<Longrightarrow> fmlookup it ''Revision'' = Some (N 0) \<Longrightarrow>
    item_step r None (Some it)"
| claimed: "fmlookup it ''Owner'' = None \<Longrightarrow> item_step r (Some it) (Some (fmupd ''Owner'' (S r) it))"
| released: "fmlookup it ''Owner'' = Some (S r) \<Longrightarrow> item_step r (Some it) (Some (fmdrop ''Owner'' it))"
| checkpoint: "fmlookup it ''Owner'' = Some (S r) \<Longrightarrow> fmlookup it ''Revision'' = Some (N n) \<Longrightarrow>
    item_step r (Some it) (Some (fmupd ''Revision'' (N (n + 1)) (fmupd ''Data'' d it)))"

inductive_cases item_stepE: "item_step r a b"
inductive_simps item_step_None [simp]: "item_step r a None"

lemma item_step_owned:
  assumes "item_step r (Some it) b" and "fmlookup it ''Owner'' = Some (S r')"
  shows "r = r'"
  using assms by (auto elim: item_stepE)

lemma item_step_keeps:
  assumes "item_step r (Some it) (Some it')" and "a \<noteq> ''Owner''" "a \<noteq> ''Revision''" "a \<noteq> ''Data''"
  shows "fmlookup it' a = fmlookup it a"
  using assms by (auto elim: item_stepE)

lemma item_step_revision:
  assumes "item_step r (Some it) (Some it')" and "fmlookup it ''Revision'' = Some (N n)"
  shows "\<exists>m \<ge> n. fmlookup it' ''Revision'' = Some (N m) \<and>
    (m = n \<longrightarrow> fmlookup it' ''Data'' = fmlookup it ''Data'')"
  using assms by (auto elim!: item_stepE)

lemma exec_local:
  assumes "fmlookup T k = fmlookup T' k"
  shows "fmlookup (fst (exec T q)) k = fmlookup (fst (exec T' q)) k"
  using assms by (cases q) (auto simp: item_at_def Let_def split: option.splits)

section \<open>Fenced journals\<close>

locale fenced_journal =
  fixes request :: "'c \<Rightarrow> 'r request" and actor :: "'c \<Rightarrow> string"
  assumes keys: "keyed T \<Longrightarrow> keyed (fst (exec T (request c)))"
    and step: "keyed T \<Longrightarrow> fmlookup (fst (exec T (request c))) k = fmlookup T k \<or>
    item_step (actor c) (fmlookup T k) (fmlookup (fst (exec T (request c))) k)"
begin

text \<open>Calls of any number of runners in the order the table serves them; the flag tells whether the
  request reached the table at all.\<close>

fun run :: "'r table \<Rightarrow> ('c \<times> bool) list \<Rightarrow> 'r table" where
  "run T [] = T"
| "run T ((c, hit) # cs) = run (if hit then fst (exec T (request c)) else T) cs"

lemma keyed_run: "keyed T \<Longrightarrow> keyed (run T cs)"
  by (induction T cs rule: run.induct) (auto simp: keys)

lemma run_append: "run T (xs @ ys) = run (run T xs) ys"
  by (induction T xs rule: run.induct) auto

lemma exec_owned:
  assumes "fmlookup T k = Some it" and "fmlookup it ''Owner'' = Some (S r)" and "actor c \<noteq> r" and "keyed T"
  shows "fmlookup (fst (exec T (request c))) k = Some it"
  using step [OF assms(4), of c k] item_step_owned [OF _ assms(2)] assms(1,3) by metis

lemma claim_exclusive:
  assumes "fmlookup T k = Some it" and "fmlookup it ''Owner'' = Some (S r)"
    and "\<forall>(c, hit) \<in> set cs. actor c \<noteq> r" and "keyed T"
  shows "fmlookup (run T cs) k = Some it"
  using assms
proof (induction T cs rule: run.induct)
  case (1 T)
  then show ?case by simp
next
  case (2 T c hit cs)
  let ?T = "if hit then fst (exec T (request c)) else T"
  have "actor c \<noteq> r" using 2 by auto
  then have "fmlookup ?T k = Some it" using exec_owned [OF 2(2,3)] 2(2,5) by auto
  moreover have "keyed ?T" using 2(5) keys by auto
  ultimately show ?case using 2 by auto
qed

lemma exec_kept:
  assumes "fmlookup T k = Some it" and "keyed T"
  shows "\<exists>it'. fmlookup (fst (exec T (request c))) k = Some it' \<and>
    (\<forall>a. a \<noteq> ''Owner'' \<longrightarrow> a \<noteq> ''Revision'' \<longrightarrow> a \<noteq> ''Data'' \<longrightarrow> fmlookup it' a = fmlookup it a) \<and>
    (\<forall>n. fmlookup it ''Revision'' = Some (N n) \<longrightarrow> (\<exists>m \<ge> n. fmlookup it' ''Revision'' = Some (N m) \<and>
       (m = n \<longrightarrow> fmlookup it' ''Data'' = fmlookup it ''Data'')))"
proof (cases "fmlookup (fst (exec T (request c))) k = Some it")
  case True
  then show ?thesis by auto
next
  case False
  with step [OF assms(2), of c k] assms
  have s: "item_step (actor c) (Some it) (fmlookup (fst (exec T (request c))) k)" by simp
  then obtain it' where it': "fmlookup (fst (exec T (request c))) k = Some it'"
    by (cases "fmlookup (fst (exec T (request c))) k") auto
  show ?thesis
    using item_step_keeps [OF s [unfolded it']] item_step_revision [OF s [unfolded it']] it' by blast
qed

lemma bound_forever:
  assumes "fmlookup T k = Some it" and "keyed T"
  shows "\<exists>it'. fmlookup (run T cs) k = Some it' \<and>
    (\<forall>a. a \<noteq> ''Owner'' \<longrightarrow> a \<noteq> ''Revision'' \<longrightarrow> a \<noteq> ''Data'' \<longrightarrow> fmlookup it' a = fmlookup it a) \<and>
    (\<forall>n. fmlookup it ''Revision'' = Some (N n) \<longrightarrow> (\<exists>m \<ge> n. fmlookup it' ''Revision'' = Some (N m) \<and>
       (m = n \<longrightarrow> fmlookup it' ''Data'' = fmlookup it ''Data'')))"
  using assms
proof (induction T cs arbitrary: it rule: run.induct)
  case (1 T)
  then show ?case by auto
next
  case (2 T c hit cs)
  let ?T = "if hit then fst (exec T (request c)) else T"
  obtain it1 where it1: "fmlookup ?T k = Some it1"
    and keep: "\<forall>a. a \<noteq> ''Owner'' \<longrightarrow> a \<noteq> ''Revision'' \<longrightarrow> a \<noteq> ''Data'' \<longrightarrow> fmlookup it1 a = fmlookup it a"
    and rev: "\<forall>n. fmlookup it ''Revision'' = Some (N n) \<longrightarrow> (\<exists>m \<ge> n. fmlookup it1 ''Revision'' = Some (N m) \<and>
       (m = n \<longrightarrow> fmlookup it1 ''Data'' = fmlookup it ''Data''))"
    using exec_kept [OF 2(2,3), of c] 2(2) by (cases hit) auto
  have "keyed ?T" using 2(3) keys by auto
  from 2(1) [OF it1 this] obtain it2 where "fmlookup (run ?T cs) k = Some it2"
    "\<forall>a. a \<noteq> ''Owner'' \<longrightarrow> a \<noteq> ''Revision'' \<longrightarrow> a \<noteq> ''Data'' \<longrightarrow> fmlookup it2 a = fmlookup it1 a"
    "\<forall>n. fmlookup it1 ''Revision'' = Some (N n) \<longrightarrow> (\<exists>m \<ge> n. fmlookup it2 ''Revision'' = Some (N m) \<and>
       (m = n \<longrightarrow> fmlookup it2 ''Data'' = fmlookup it1 ''Data''))" by blast
  with keep rev show ?case by (intro exI [of _ it2]) (fastforce dest: order_trans)
qed

text \<open>Calls that cannot change an item without attribute \<open>a\<close> can be left out of a run.\<close>

lemma run_apart:
  assumes apart: "\<And>U c it. keyed U \<Longrightarrow> fmlookup U k = Some it \<Longrightarrow> fmlookup it a = None \<Longrightarrow> foreign c \<Longrightarrow>
      fmlookup (fst (exec U (request c))) k = Some it"
    and a: "a \<noteq> ''Owner''" "a \<noteq> ''Revision''" "a \<noteq> ''Data''"
    and "keyed T" "keyed T'" "fmlookup T k = Some it" "fmlookup T' k = Some it" "fmlookup it a = None"
  shows "fmlookup (run T cs) k = fmlookup (run T' (filter (\<lambda>(c, _). \<not> foreign c) cs)) k"
  using assms(5-)
proof (induction T cs arbitrary: T' it rule: run.induct)
  case (1 T)
  then show ?case by simp
next
  case (2 T c hit cs)
  let ?T = "if hit then fst (exec T (request c)) else T"
  let ?U = "if hit then fst (exec T' (request c)) else T'"
  have kT: "keyed ?T" "keyed ?U" using 2(2,3) keys by auto
  show ?case
  proof (cases "foreign c")
    case True
    have "fmlookup ?T k = Some it" using apart [OF 2(2,4,6) True] 2(4) by simp
    from 2(1) [OF kT(1) 2(3) this 2(5,6)] True show ?thesis by simp
  next
    case False
    obtain it' where it': "fmlookup ?T k = Some it'" "fmlookup it' a = fmlookup it a"
      using exec_kept [OF 2(4,2), of c] a 2(4) by (cases hit) auto
    have "fmlookup ?U k = Some it'"
      using it'(1) exec_local [of T k T' "request c"] 2(4,5) by (cases hit) auto
    from 2(1) [OF kT it'(1) this] it'(2) 2(6) False show ?thesis by simp
  qed
qed

end

text \<open>Two journal clients on one table are one client of both kinds of calls.\<close>

locale two_engines = a: fenced_journal request_a actor_a + b: fenced_journal request_b actor_b
  for request_a :: "'a \<Rightarrow> 'r request" and actor_a :: "'a \<Rightarrow> string"
    and request_b :: "'b \<Rightarrow> 'r request" and actor_b :: "'b \<Rightarrow> string"

sublocale two_engines \<subseteq> both: fenced_journal "case_sum request_a request_b" "case_sum actor_a actor_b"
proof
  fix T :: "'r table" and c k
  assume T: "keyed T"
  show "keyed (fst (exec T (case_sum request_a request_b c)))"
    by (cases c) (simp_all add: a.keys b.keys T)
  show "fmlookup (fst (exec T (case_sum request_a request_b c))) k = fmlookup T k \<or>
    item_step (case_sum actor_a actor_b c) (fmlookup T k)
      (fmlookup (fst (exec T (case_sum request_a request_b c))) k)"
    by (cases c) (simp_all add: a.step b.step T)
qed

end
