(* ===== verification/Journal.thy ===== *)
theory Journal
  imports Dynamo_Table Operation_Record
begin

text \<open>
  \<open>internal/journal\<close>: the private operation journal in DynamoDB. The requests of the client are a
  datatype of calls and their translation to conditional requests; \<open>acquire\<close>, \<open>save_op\<close>,
  \<open>release\<close> and \<open>read_op\<close> are the methods of \<open>Dynamo\<close>; the address-cleanup store keeps the raw
  application history of the record it acquired. The theorems: what a successful acquire, save or
  release did to the table, retries and stale writes, exclusive claims among any runners.
\<close>

section \<open>Documents\<close>

text \<open>\<open>encoding/json\<close> gives the raw text of each outer field of a record and the length of the
  object put together from given raw fields; both are parameters. That a strict decoder reads back
  the record that was written is built into documents.\<close>

record marshal =
  raw_of :: "oprec \<Rightarrow> (string, string) fmap"
  size_of :: "oprec \<Rightarrow> (string, string) fmap \<Rightarrow> nat"

definition document :: "marshal \<Rightarrow> oprec \<Rightarrow> oprec doc" where
  "document M r = \<lparr>doc_record = Some r, doc_raw = raw_of M r, doc_size = size_of M r (raw_of M r)\<rparr>"

definition max_doc :: nat where "max_doc = 300000"

definition encode :: "hasher \<Rightarrow> image_refs \<Rightarrow> marshal \<Rightarrow> oprec \<Rightarrow> oprec doc res" where
  "encode H R M r = after (validate_record H R (rc_plan r) r) (\<lambda>_.
     if doc_size (document M r) > max_doc
       then Inl (Err ''operation journal exceeds conservative DynamoDB item budget'')
     else Inr (document M r))"

text \<open>\<open>value\<close>: the text of a string attribute, empty otherwise.\<close>

definition str_value :: "'r item \<Rightarrow> string \<Rightarrow> string" where
  "str_value it k = (case fmlookup it k of Some (S s) \<Rightarrow> s | _ \<Rightarrow> [])"

definition decode_record :: "(plan \<Rightarrow> oprec \<Rightarrow> unit res) \<Rightarrow> plan \<Rightarrow> oprec item \<Rightarrow> oprec res" where
  "decode_record validate p it =
     (if str_value it ''Network'' \<noteq> plan_key p \<or> str_value it ''PlanID'' \<noteq> pl_id p
        then Inl (Err ''network is already bound to a different plan'')
      else case fmlookup it ''Data'' of
        Some (D d) \<Rightarrow>
          if doc_size d = 0 \<or> doc_size d > max_doc then Inl (Err ''invalid journal payload size'')
          else (case doc_record d of None \<Rightarrow> Inl (Err ''malformed journal payload'')
            | Some r \<Rightarrow> if fmlookup it ''Revision'' \<noteq> Some (N (rc_revision r))
                then Inl (Err ''journal revision mismatch'')
              else after (validate p r) (\<lambda>_. Inr r))
      | _ \<Rightarrow> Inl (Err ''invalid journal payload size''))"

definition decode :: "hasher \<Rightarrow> image_refs \<Rightarrow> plan \<Rightarrow> oprec item \<Rightarrow> oprec res" where
  "decode H R p it = decode_record (validate_record H R) p it"

section \<open>Calls and their requests\<close>

datatype 'r jcall =
    JRead plan
  | JCreate plan "'r doc" string
  | JClaim plan string
  | JSave oprec string "'r doc"
  | JRelease plan string

fun jreq :: "'r jcall \<Rightarrow> 'r request" where
  "jreq (JRead p) = Get (plan_key p)"
| "jreq (JCreate p d owner) = Put (plan_key p)
     (fmap_of_list [(''Network'', S (plan_key p)), (''PlanID'', S (pl_id p)), (''Data'', D d),
       (''Owner'', S owner), (''Revision'', N 0)]) (Absent ''Network'')"
| "jreq (JClaim p owner) = Update (plan_key p) (SetAll [(''Owner'', S owner)])
     (Both (Equals ''PlanID'' (S (pl_id p))) (Absent ''Owner''))"
| "jreq (JSave r owner d) = Update (plan_key (rc_plan r))
     (SetAll [(''Data'', D d), (''Revision'', N (rc_revision r))])
     (Both (Equals ''PlanID'' (S (pl_id (rc_plan r)))) (Both (Equals ''Owner'' (S owner))
       (Either (Equals ''Revision'' (N (rc_revision r - 1)))
         (Both (Equals ''Revision'' (N (rc_revision r))) (Equals ''Data'' (D d))))))"
| "jreq (JRelease p owner) = Update (plan_key p) (Unset ''Owner'')
     (Both (Equals ''PlanID'' (S (pl_id p))) (Equals ''Owner'' (S owner)))"

fun jactor :: "'r jcall \<Rightarrow> string" where
  "jactor (JRead p) = []"
| "jactor (JCreate p d owner) = owner"
| "jactor (JClaim p owner) = owner"
| "jactor (JSave r owner d) = owner"
| "jactor (JRelease p owner) = owner"

section \<open>Methods\<close>

type_synonym ('z, 'a) joper = "((oprec request, oprec reply, 'z) sys_scheme, 'a) oper"

text \<open>A reply that the method of the SDK cannot give (a read answered as a write) is an error.\<close>

definition read_item :: "plan \<Rightarrow> ('z, oprec item) joper" where
  "read_item p = bnd (ask (jreq (JRead p))) (\<lambda>r. case r of
     Found (Some it) \<Rightarrow> if it = fmempty then fail (Err ''operation not found'') else ret it
   | Found None \<Rightarrow> fail (Err ''operation not found'')
   | Fault e \<Rightarrow> fail e
   | _ \<Rightarrow> fail (Transport ''unexpected reply''))"

definition read_op :: "hasher \<Rightarrow> image_refs \<Rightarrow> plan \<Rightarrow> ('z, oprec \<times> string) joper" where
  "read_op H R p = bnd (read_item p) (\<lambda>it. bnd (lift (decode H R p it)) (\<lambda>r.
     ret (r, str_value it ''Owner'')))"

definition claim :: "plan \<Rightarrow> string \<Rightarrow> ('z, oprec item) joper" where
  "claim p owner = bnd (ask (jreq (JClaim p owner))) (\<lambda>r. case r of
     Refused \<Rightarrow> fail (Err ''network already has an active runner claim'')
   | Fault e \<Rightarrow> fail e
   | Written (Some it) \<Rightarrow> if str_value it ''Owner'' \<noteq> owner
       then fail (Err ''claim response owner mismatch'') else ret it
   | _ \<Rightarrow> fail (Err ''empty claim response''))"

definition acquire :: "hasher \<Rightarrow> image_refs \<Rightarrow> marshal \<Rightarrow> plan \<Rightarrow> string \<Rightarrow> ('z, oprec) joper" where
  "acquire H R M p owner =
     sq (reject_if (owner = []) (Err ''empty runner ID'')) (
     bnd now (\<lambda>t. let r = new_record p t in
     bnd (lift (encode H R M r)) (\<lambda>d.
     bnd (ask (jreq (JCreate p d owner))) (\<lambda>rep. case rep of
       Fault e \<Rightarrow> fail e
     | Refused \<Rightarrow> bnd (read_op H R p) (\<lambda>_. bnd (claim p owner) (\<lambda>it. lift (decode H R p it)))
     | _ \<Rightarrow> ret r))))"

text \<open>\<open>save\<close>, shared with the cleanup store, and the method \<open>Save\<close>.\<close>

definition save_doc :: "oprec \<Rightarrow> string \<Rightarrow> oprec doc \<Rightarrow> ('z, unit) joper" where
  "save_doc r owner d = bnd (ask (jreq (JSave r owner d))) (\<lambda>rep. case rep of
     Refused \<Rightarrow> fail (Err ''runner ownership or journal revision changed; stale write refused'')
   | Fault e \<Rightarrow> fail e
   | _ \<Rightarrow> ret ())"

definition save_op :: "hasher \<Rightarrow> image_refs \<Rightarrow> marshal \<Rightarrow> oprec \<Rightarrow> string \<Rightarrow> ('z, unit) joper" where
  "save_op H R M r owner =
     sq (reject_if (owner = []) (Err ''empty runner ID'')) (
     sq (reject_if (rc_revision r < 1) (Err ''save requires the next journal revision'')) (
     bnd (lift (encode H R M r)) (\<lambda>d. save_doc r owner d)))"

definition release :: "plan \<Rightarrow> string \<Rightarrow> ('z, unit) joper" where
  "release p owner =
     sq (reject_if (owner = []) (Err ''empty runner ID'')) (
     bnd (ask (jreq (JRelease p owner))) (\<lambda>rep. case rep of
       Refused \<Rightarrow> fail (Err ''runner claim changed or was already released; no change made'')
     | Fault e \<Rightarrow> fail e
     | _ \<Rightarrow> ret ()))"

section \<open>Verifying the table\<close>

record table_info =
  ti_arn :: string
  ti_status :: string
  ti_schema :: "(string \<times> string) list" \<comment> \<open>attribute name and key type\<close>
  ti_attributes :: "(string \<times> string) list" \<comment> \<open>attribute name and scalar type\<close>

definition verify_table :: "string \<Rightarrow> plan \<Rightarrow> table_info option res \<Rightarrow> unit res" where
  "verify_table table p reply =
     (if table \<noteq> fp_table (footprint_of p) then Inl (Err ''journal table differs from provision plan'')
      else case reply of Inl e \<Rightarrow> Inl (At ''describe journal table'' e)
      | Inr None \<Rightarrow> Inl (Err ''missing journal table'')
      | Inr (Some t) \<Rightarrow> (case split_on CHR '':'' (ti_arn t) of
          [a0, _, a2, a3, a4, a5] \<Rightarrow>
            if a0 \<noteq> ''arn'' \<or> a2 \<noteq> ''dynamodb'' \<or> a3 \<noteq> aws_region (nw_aws (pl_network p)) \<or>
               a4 \<noteq> aws_account (nw_aws (pl_network p)) \<or> a5 \<noteq> ''table/'' @ table \<or>
               ti_status t \<noteq> ''ACTIVE'' \<or> ti_schema t \<noteq> [(''Network'', ''HASH'')]
              then Inl (Err ''journal table must be ACTIVE with only the Network string partition key'')
            else if (''Network'', ''S'') \<in> set (ti_attributes t) then Inr ()
            else Inl (Err ''journal Network partition key must be a string'')
        | _ \<Rightarrow> Inl (Err ''journal table must be ACTIVE with only the Network string partition key'')))"

section \<open>The address-cleanup store\<close>

record jworld = "(oprec request, oprec reply) sys" +
  cs_plan :: plan
  cs_owner :: string
  cs_history :: "(string, string) fmap"
  cs_canonical :: oprec

definition history_fields :: "string list" where
  "history_fields = [''bootstrap'', ''deployment'', ''join'', ''runtime'', ''upgrade'']"

text \<open>\<open>bytes.Equal\<close> of the marshalled application parts is \<open>same_application\<close>; the store keeps
  the parts in the record it acquired. The raw text of the history fields replaces what the
  encoder writes for them.\<close>

definition cleanup_document :: "marshal \<Rightarrow> oprec \<Rightarrow> (string, string) fmap \<Rightarrow> oprec doc" where
  "cleanup_document M r history =
     (let raw = fmfilter (\<lambda>k. k \<notin> set history_fields) (raw_of M r) ++\<^sub>f history
      in \<lparr>doc_record = Some r, doc_raw = raw, doc_size = size_of M r raw\<rparr>)"

definition cleanup_acquire :: "hasher \<Rightarrow> image_refs \<Rightarrow> plan \<Rightarrow> string \<Rightarrow> (jworld, oprec) oper" where
  "cleanup_acquire H R p owner =
     bnd (gets cs_owner) (\<lambda>mine.
     sq (reject_if (owner = [] \<or> mine \<noteq> []) (Err ''cleanup requires a fresh store and runner identity'')) (
     bnd (read_item p) (\<lambda>it0.
     bnd (lift (decode_record (validate_cleanup H R) p it0)) (\<lambda>_.
     bnd (claim p owner) (\<lambda>it.
     bnd (lift (decode_record (validate_cleanup H R) p it)) (\<lambda>r.
     sq (modify (\<lambda>w. w\<lparr>cs_history := (case fmlookup it ''Data'' of
           Some (D d) \<Rightarrow> fmfilter (\<lambda>k. k \<in> set history_fields) (doc_raw d) | _ \<Rightarrow> fmempty),
         cs_canonical := r, cs_plan := rc_plan r, cs_owner := owner\<rparr>))
     (ret r)))))))"

definition cleanup_save :: "hasher \<Rightarrow> image_refs \<Rightarrow> marshal \<Rightarrow> oprec \<Rightarrow> string \<Rightarrow> (jworld, unit) oper" where
  "cleanup_save H R M r owner =
     bnd (gets (\<lambda>w. w)) (\<lambda>s.
     sq (reject_if (cs_owner s = [] \<or> owner \<noteq> cs_owner s \<or> rc_plan r \<noteq> cs_plan s \<or> rc_revision r < 1)
       (Err ''cleanup save lost its acquired plan, runner, or revision'')) (
     bnd (lift (validate_cleanup H R (cs_plan s) r)) (\<lambda>_.
     sq (reject_if (\<not> same_application r (cs_canonical s))
       (Err ''address cleanup cannot change application history'')) (
     sq (reject_if (doc_size (cleanup_document M r (cs_history s)) > max_doc)
       (Err ''operation journal exceeds conservative DynamoDB item budget''))
     (save_doc r owner (cleanup_document M r (cs_history s)))))))"

definition cleanup_release :: "plan \<Rightarrow> string \<Rightarrow> (jworld, unit) oper" where
  "cleanup_release p owner =
     bnd (gets (\<lambda>w. w)) (\<lambda>s.
     sq (reject_if (cs_owner s = [] \<or> owner \<noteq> cs_owner s \<or> p \<noteq> cs_plan s)
       (Err ''cleanup release lost its acquired plan or runner''))
     (sq (release p owner) (modify (\<lambda>w. w\<lparr>cs_owner := []\<rparr>))))"

section \<open>The journal is fenced\<close>

lemma jreq_keyed: "keyed T \<Longrightarrow> keyed (fst (exec T (jreq c)))"
  by (cases c) (auto simp: keyed_def item_at_def Let_def split: option.splits)

lemma jreq_step:
  assumes "keyed T"
  shows "fmlookup (fst (exec T (jreq c))) k = fmlookup T k \<or>
   item_step (jactor c) (fmlookup T k) (fmlookup (fst (exec T (jreq c))) k)"
proof (cases c)
  case (JCreate p d owner)
  then show ?thesis using keyed_exists [OF assms, of "plan_key p"] by (auto intro!: item_step.created)
next
  case (JSave r owner d)
  have "fmupd ''Revision'' v (fmupd ''Data'' x it) = it"
    if "fmlookup it ''Revision'' = Some v" "fmlookup it ''Data'' = Some x" for v x and it :: "'a item"
    using that by (intro fmap_ext) auto
  moreover have "item_step owner (Some it) (Some (fmupd ''Revision'' (N n) (fmupd ''Data'' x it)))"
    if "fmlookup it ''Owner'' = Some (S owner)" "fmlookup it ''Revision'' = Some (N (n - 1))"
    for n x and it :: "'a item"
    using item_step.checkpoint [OF that, of x] by simp
  ultimately show ?thesis using JSave by (auto simp: item_at_def Let_def split: option.splits)
qed (auto simp: item_at_def Let_def split: option.splits intro: item_step.intros)

interpretation pj: fenced_journal jreq jactor
  by unfold_locales (rule jreq_keyed, assumption, rule jreq_step)

section \<open>What the methods do to the table\<close>

lemma encode_Inr: "encode H R M r = Inr d \<longleftrightarrow>
    validate_record H R (rc_plan r) r = Inr () \<and> d = document M r \<and> doc_size d \<le> max_doc"
  by (auto simp: encode_def res_simps)

lemma decode_Inr:
  assumes "decode_record v p it = Inr r"
  shows "\<exists>d. fmlookup it ''Data'' = Some (D d) \<and> doc_record d = Some r \<and>
    fmlookup it ''Revision'' = Some (N (rc_revision r)) \<and> v p r = Inr () \<and>
    str_value it ''PlanID'' = pl_id p \<and> str_value it ''Network'' = plan_key p"
  using assms by (auto simp: decode_record_def res_simps split: option.splits attr.splits if_splits)

definition held :: "plan \<Rightarrow> string \<Rightarrow> oprec \<Rightarrow> oprec item \<Rightarrow> bool" where
  "held p owner r it \<longleftrightarrow> fmlookup it ''Owner'' = Some (S owner) \<and>
     fmlookup it ''PlanID'' = Some (S (pl_id p)) \<and> fmlookup it ''Revision'' = Some (N (rc_revision r)) \<and>
     (\<exists>d. fmlookup it ''Data'' = Some (D d) \<and> doc_record d = Some r)"

lemma wp_result: "m w = (r, w') \<Longrightarrow> wp m (\<lambda>a w. r = Inr a \<longrightarrow> P a w) (\<lambda>e w. r = Inl e \<longrightarrow> F e w) w \<Longrightarrow>
    (\<forall>a. r = Inr a \<longrightarrow> P a w') \<and> (\<forall>e. r = Inl e \<longrightarrow> F e w')"
  by (auto simp: wp_def split: sum.splits)

lemma wp_pair: "wp m P F w \<Longrightarrow> m w = (Inr a, w') \<Longrightarrow> P a w'"
  by (simp add: wp_def)

lemma wp_read_op:
  assumes s: "serves T (env w)"
    and Q: "\<And>it r. fmlookup (table_after T (hist w)) (plan_key p) = Some it \<Longrightarrow> decode H R p it = Inr r \<Longrightarrow>
      Q (r, str_value it ''Owner'') (w\<lparr>hist := (jreq (JRead p), Found (Some it)) # hist w\<rparr>)"
    and E: "\<And>e rep. E e (w\<lparr>hist := (jreq (JRead p), rep) # hist w\<rparr>)"
  shows "wp (read_op H R p) Q E w"
  unfolding read_op_def read_item_def
  using Q E by (auto simp: wp_rules servesD [OF s] split: option.splits sum.splits)

lemma wp_claim:
  assumes s: "serves T (env w)"
    and Q: "\<And>it. fmlookup (table_after T (hist w)) (plan_key p) = Some it \<Longrightarrow>
      fmlookup it ''PlanID'' = Some (S (pl_id p)) \<Longrightarrow> fmlookup it ''Owner'' = None \<Longrightarrow>
      Q (fmupd ''Owner'' (S owner) it) (w\<lparr>hist := (jreq (JClaim p owner), Written (Some (fmupd ''Owner'' (S owner) it))) # hist w\<rparr>)"
    and E: "\<And>e. \<not> holds (Both (Equals ''PlanID'' (S (pl_id p))) (Absent ''Owner'')) (item_at (table_after T (hist w)) (plan_key p)) \<Longrightarrow>
      E e (w\<lparr>hist := (jreq (JClaim p owner), Refused) # hist w\<rparr>)"
  shows "wp (claim p owner) Q E w"
  unfolding claim_def
  using Q E by (auto simp: wp_rules servesD [OF s] item_at_def Let_def str_value_def split: option.splits)

section \<open>Properties\<close>

text \<open>C13: When acquiring succeeds on a table that serves its requests, the network's item holds the
  claim of this runner, is bound to the plan, and stores exactly the returned record at its
  revision, which passes full validation. Either the item did not exist and the record is fresh, or
  it existed without a claim and only its claim changed: nobody's claim is taken over.\<close>

theorem acquire_claims:
  assumes "serves T (env w)" and "hist w = []" and "keyed T"
    and "acquire H R M p owner w = (Inr r, w')"
  shows "\<exists>it. fmlookup (table_after T (hist w')) (plan_key p) = Some it \<and> held p owner r it \<and>
    owner \<noteq> [] \<and> validate_record H R p r = Inr () \<and> rc_plan r = p \<and>
    (case fmlookup T (plan_key p) of
       None \<Rightarrow> \<exists>t. r = new_record p t
     | Some old \<Rightarrow> fmlookup old ''Owner'' = None \<and> it = fmupd ''Owner'' (S owner) old)"
proof -
  let ?Q = "\<lambda>r w'. \<exists>it. fmlookup (table_after T (hist w')) (plan_key p) = Some it \<and> held p owner r it \<and>
    validate_record H R p r = Inr () \<and> rc_plan r = p \<and>
    (case fmlookup T (plan_key p) of
       None \<Rightarrow> \<exists>t. r = new_record p t
     | Some old \<Rightarrow> fmlookup old ''Owner'' = None \<and> it = fmupd ''Owner'' (S owner) old)"
  have "wp (acquire H R M p owner) (\<lambda>_ _. owner \<noteq> []) (\<lambda>_ _. True) w"
    by (simp add: acquire_def wp_sq wp_reject_if) (simp add: wp_def split: prod.splits sum.splits)
  then have o: "owner \<noteq> []" by (rule wp_pair) (rule assms(4))
  have p: "rc_plan (new_record p t) = p" "rc_revision (new_record p t) = 0" for t
    by (simp_all add: new_record_def)
  have kx: "fmlookup (item_at T (plan_key p)) ''Network'' = None \<longleftrightarrow> fmlookup T (plan_key p) = None"
    by (rule keyed_exists [OF assms(3)])
  have "wp (acquire H R M p owner) ?Q (\<lambda>_ _. True) w"
  proof (cases "fmlookup T (plan_key p)")
    case None
    then show ?thesis using kx assms(1,2)
      by (auto simp: acquire_def wp_rules servesD [OF assms(1)] Let_def now_def item_at_def encode_Inr held_def p
          document_def split: sum.splits)
  next
    case (Some old)
    have c: "fmlookup (item_at T (plan_key p)) ''Network'' = Some (S (plan_key p))"
      using assms(3) Some by (simp add: keyed_def item_at_def)
    have resume: "wp (bnd (read_op H R p) (\<lambda>_. bnd (claim p owner) (\<lambda>it. lift (decode H R p it)))) ?Q (\<lambda>_ _. True) v"
      if v: "serves T (env v)" "table_after T (hist v) = T" for v :: "(oprec request, oprec reply, 'a) sys_scheme"
      unfolding wp_bnd
    proof (rule wp_read_op [OF v(1)])
      fix it0 r0
      let ?v = "v\<lparr>hist := (jreq (JRead p), Found (Some it0)) # hist v\<rparr>"
      have s: "serves T (env ?v)" "table_after T (hist ?v) = T" using v by simp_all
      show "wp (claim p owner) (\<lambda>it. wp (lift (decode H R p it)) ?Q (\<lambda>_ _. True)) (\<lambda>_ _. True) ?v"
      proof (rule wp_claim [OF s(1)], unfold s(2))
        fix it
        assume it: "fmlookup T (plan_key p) = Some it" "fmlookup it ''PlanID'' = Some (S (pl_id p))"
          "fmlookup it ''Owner'' = None"
        show "wp (lift (decode H R p (fmupd ''Owner'' (S owner) it))) ?Q (\<lambda>_ _. True)
          (?v\<lparr>hist := (jreq (JClaim p owner), Written (Some (fmupd ''Owner'' (S owner) it))) # hist ?v\<rparr>)"
          using it o v(2)
          by (auto simp: wp_rules decode_def held_def item_at_def Let_def dest!: decode_Inr
              dest: validate_compute_plan(1) simp: validate_record_parts split: sum.splits)
      qed simp
    qed simp
    show ?thesis
      unfolding acquire_def
      by (auto simp: wp_rules servesD [OF assms(1)] assms(1,2) c Let_def now_def split: sum.splits
          intro!: resume [unfolded wp_bnd [of "read_op H R p"]])
  qed
  then have "?Q r w'" by (rule wp_pair) (rule assms(4))
  with o show ?thesis by blast
qed

definition sample_marshal :: marshal where
  "sample_marshal = \<lparr>raw_of = (\<lambda>_. fmempty), size_of = (\<lambda>_ _. 1000)\<rparr>"

definition sample_world :: "oprec table \<Rightarrow> (oprec request, oprec reply) sys" where
  "sample_world T = \<lparr>env = table_env T, hist = []\<rparr>"

lemma sample_encode:
  "encode sample_hash sample_refs sample_marshal (new_record sample_plan 1) =
     Inr (document sample_marshal (new_record sample_plan 1))"
proof -
  have "rc_plan (new_record sample_plan 1) = sample_plan" by (simp add: new_record_def)
  then show ?thesis
    by (simp add: encode_Inr new_record_valid_record [OF sample_plan_valid] document_def sample_marshal_def max_doc_def)
qed

definition sample_acquire :: "(oprec request, oprec reply) sys \<Rightarrow> oprec res \<times> (oprec request, oprec reply) sys" where
  "sample_acquire = acquire sample_hash sample_refs sample_marshal sample_plan ''run-1''"

lemma sample_acquired:
  "\<exists>w'. sample_acquire (sample_world fmempty) = (Inr (new_record sample_plan 1), w')"
  by (simp add: sample_acquire_def sample_world_def table_env_def acquire_def oper_defs Let_def
      sample_encode item_at_def)

theorem acquire_claims_witness:
  "\<exists>r w' it. sample_acquire (sample_world fmempty) = (Inr r, w') \<and>
    fmlookup (table_after fmempty (hist w')) (plan_key sample_plan) = Some it \<and> held sample_plan ''run-1'' r it"
proof -
  obtain w' where r: "sample_acquire (sample_world fmempty) = (Inr (new_record sample_plan 1), w')"
    using sample_acquired by blast
  have s: "serves fmempty (env (sample_world fmempty))" "hist (sample_world fmempty) = []"
    by (simp_all add: sample_world_def)
  show ?thesis using acquire_claims [OF s keyed_empty r [unfolded sample_acquire_def]] r by blast
qed

text \<open>C22: A network that already carries a claim cannot be acquired: whatever the plan and the runner,
  acquiring fails and the table is left exactly as it was.\<close>

theorem acquire_refused:
  assumes "serves T (env w)" and "hist w = []" and "keyed T"
    and "fmlookup T (plan_key p) = Some it" and "fmlookup it ''Owner'' = Some o'"
  shows "\<not> is_ok (fst (acquire H R M p owner w)) \<and>
    table_after T (hist (snd (acquire H R M p owner w))) = T"
proof -
  let ?P = "\<lambda>w. table_after T (hist w) = T"
  have c: "fmlookup (item_at T (plan_key p)) ''Network'' = Some (S (plan_key p))"
    using assms(3,4) by (simp add: keyed_def item_at_def)
  have resume: "wp (bnd (read_op H R p) (\<lambda>_. bnd (claim p owner) (\<lambda>it. lift (decode H R p it)))) (\<lambda>_ _. False) (\<lambda>_. ?P) v"
    if v: "serves T (env v)" "?P v" for v :: "(oprec request, oprec reply, 'a) sys_scheme"
    unfolding wp_bnd
  proof (rule wp_read_op [OF v(1)])
    fix it0 r0
    let ?v = "v\<lparr>hist := (jreq (JRead p), Found (Some it0)) # hist v\<rparr>"
    have s: "serves T (env ?v)" "table_after T (hist ?v) = T" using v by simp_all
    show "wp (claim p owner) (\<lambda>it. wp (lift (decode H R p it)) (\<lambda>_ _. False) (\<lambda>_. ?P)) (\<lambda>_. ?P) ?v"
      by (rule wp_claim [OF s(1)], unfold s(2)) (use assms(4,5) v(2) in \<open>simp_all add: item_at_def\<close>)
  qed (simp add: v)
  have "wp (acquire H R M p owner) (\<lambda>_ _. False) (\<lambda>_. ?P) w"
    unfolding acquire_def
    by (auto simp: wp_rules servesD [OF assms(1)] assms(1,2) c Let_def now_def split: sum.splits
        intro!: resume [unfolded wp_bnd [of "read_op H R p"]])
  then show ?thesis by (auto simp: wp_def split: prod.splits sum.splits)
qed

definition sample_table :: "oprec table" where
  "sample_table = fst (exec fmempty (jreq (JCreate sample_plan
     (document sample_marshal (new_record sample_plan 1)) ''run-1'')))"

theorem acquire_refused_witness:
  "keyed sample_table \<and>
   \<not> is_ok (fst (acquire sample_hash sample_refs sample_marshal sample_plan ''run-2'' (sample_world sample_table)))"
proof -
  have k: "keyed sample_table" by (simp add: sample_table_def jreq_keyed del: jreq.simps)
  have it: "\<exists>it. fmlookup sample_table (plan_key sample_plan) = Some it \<and>
      fmlookup it ''Owner'' = Some (S ''run-1'')"
    by (simp add: sample_table_def item_at_def)
  have s: "serves sample_table (env (sample_world sample_table))" "hist (sample_world sample_table) = []"
    by (simp_all add: sample_world_def)
  show ?thesis using acquire_refused [OF s k] it k by blast
qed

text \<open>C15: Saving is a fenced checkpoint: it succeeds on a serving table only while this runner holds
  the claim, the plan is bound, the record passes validation and the stored revision is the
  predecessor (or the very same document was already stored); then exactly the document and the
  revision are written. A refused save changes nothing.\<close>

theorem save_checkpoint:
  assumes "serves T (env w)" and "hist w = []" and "save_op H R M r owner w = (res, w')"
  shows "(res = Inr () \<longrightarrow> (\<exists>it. fmlookup T (plan_key (rc_plan r)) = Some it \<and>
      validate_record H R (rc_plan r) r = Inr () \<and> 1 \<le> rc_revision r \<and>
      fmlookup it ''Owner'' = Some (S owner) \<and> fmlookup it ''PlanID'' = Some (S (pl_id (rc_plan r))) \<and>
      (fmlookup it ''Revision'' = Some (N (rc_revision r - 1)) \<or>
       fmlookup it ''Revision'' = Some (N (rc_revision r)) \<and> fmlookup it ''Data'' = Some (D (document M r))) \<and>
      table_after T (hist w') = fmupd (plan_key (rc_plan r))
        (fmupd ''Revision'' (N (rc_revision r)) (fmupd ''Data'' (D (document M r)) it)) T)) \<and>
    (res \<noteq> Inr () \<longrightarrow> table_after T (hist w') = T)"
proof -
  have "wp (save_op H R M r owner)
    (\<lambda>_ w'. \<exists>it. fmlookup T (plan_key (rc_plan r)) = Some it \<and>
      validate_record H R (rc_plan r) r = Inr () \<and> 1 \<le> rc_revision r \<and>
      fmlookup it ''Owner'' = Some (S owner) \<and> fmlookup it ''PlanID'' = Some (S (pl_id (rc_plan r))) \<and>
      (fmlookup it ''Revision'' = Some (N (rc_revision r - 1)) \<or>
       fmlookup it ''Revision'' = Some (N (rc_revision r)) \<and> fmlookup it ''Data'' = Some (D (document M r))) \<and>
      table_after T (hist w') = fmupd (plan_key (rc_plan r))
        (fmupd ''Revision'' (N (rc_revision r)) (fmupd ''Data'' (D (document M r)) it)) T)
    (\<lambda>_ w'. table_after T (hist w') = T) w"
    by (auto simp: save_op_def save_doc_def wp_rules servesD [OF assms(1)] assms(2) encode_Inr item_at_def
        Let_def split: sum.splits option.splits)
  then show ?thesis using assms(3) by (cases res) (auto simp: wp_def)
qed

lemma sample_table_item:
  "fmlookup sample_table (plan_key sample_plan) = Some (fmap_of_list [(''Network'', S (plan_key sample_plan)),
     (''PlanID'', S (pl_id sample_plan)), (''Data'', D (document sample_marshal (new_record sample_plan 1))),
     (''Owner'', S ''run-1''), (''Revision'', N 0)])"
  by (simp add: sample_table_def item_at_def)

definition sample_saved :: oprec where
  "sample_saved = (new_record sample_plan 1)\<lparr>rc_revision := 1, rc_phase := ''provisioning''\<rparr>"

lemma sample_saved_valid: "validate_record sample_hash sample_refs sample_plan sample_saved = Inr ()"
  by code_simp

theorem save_checkpoint_witness:
  "\<exists>w'. save_op sample_hash sample_refs sample_marshal sample_saved ''run-1'' (sample_world sample_table) = (Inr (), w') \<and>
    (\<exists>it. fmlookup (table_after sample_table (hist w')) (plan_key sample_plan) = Some it \<and>
      fmlookup it ''Revision'' = Some (N 1))"
proof -
  have p: "rc_plan sample_saved = sample_plan" "rc_revision sample_saved = 1"
    by (simp_all add: sample_saved_def new_record_def)
  have enc: "encode sample_hash sample_refs sample_marshal sample_saved = Inr (document sample_marshal sample_saved)"
    by (simp add: encode_Inr p sample_saved_valid) (simp add: document_def sample_marshal_def max_doc_def)
  have "\<exists>w'. save_op sample_hash sample_refs sample_marshal sample_saved ''run-1'' (sample_world sample_table) = (Inr (), w')"
    by (simp add: save_op_def save_doc_def oper_defs sample_world_def table_env_def enc p item_at_def
        sample_table_item Let_def)
  then obtain w' where w': "save_op sample_hash sample_refs sample_marshal sample_saved ''run-1''
      (sample_world sample_table) = (Inr (), w')" by blast
  have s: "serves sample_table (env (sample_world sample_table))" "hist (sample_world sample_table) = []"
    by (simp_all add: sample_world_def)
  from save_checkpoint [OF s w'] p w' show ?thesis by auto
qed

text \<open>C14: A repeated delivery of an accepted save is harmless: it is accepted again and changes nothing.
  A save that arrives late, when the stored revision has reached its own with another document or
  has passed it, is refused and changes nothing: an old checkpoint never replaces a newer one.\<close>

theorem save_fencing:
  fixes d :: "'r doc"
  shows "(exec T (jreq (JSave r owner d)) = (T', Written x) \<longrightarrow>
      fst (exec T' (jreq (JSave r owner d))) = T' \<and> snd (exec T' (jreq (JSave r owner d))) \<noteq> Refused) \<and>
    (fmlookup (item_at T (plan_key (rc_plan r))) ''Revision'' = Some (N n) \<and> rc_revision r \<le> n \<and>
      (rc_revision r = n \<longrightarrow> fmlookup (item_at T (plan_key (rc_plan r))) ''Data'' \<noteq> Some (D d)) \<longrightarrow>
      exec T (jreq (JSave r owner d)) = (T, Refused))"
proof -
  have same: "fmupd k v m = m" if "fmlookup m k = Some v" for k v and m :: "(string, 'x) fmap"
    using that by (intro fmap_ext) auto
  have "fst (exec T' (jreq (JSave r owner d))) = T' \<and> snd (exec T' (jreq (JSave r owner d))) \<noteq> Refused"
    if "exec T (jreq (JSave r owner d)) = (T', Written x)"
    using that by (auto simp: item_at_def Let_def same split: option.splits if_splits)
  then show ?thesis by auto
qed

theorem save_fencing_witness:
  "exec sample_table (jreq (JSave (new_record sample_plan 1) ''run-1'' (document sample_marshal sample_saved))) =
     (sample_table, Refused)"
proof -
  have "rc_plan (new_record sample_plan 1) = sample_plan" "rc_revision (new_record sample_plan 1) = 0"
    by (simp_all add: new_record_def)
  moreover have "document sample_marshal (new_record sample_plan 1) \<noteq> document sample_marshal sample_saved"
    by (simp add: document_def sample_saved_def new_record_def)
  ultimately show ?thesis
    using save_fencing [of sample_table "new_record sample_plan 1" "''run-1''" "document sample_marshal sample_saved"
      sample_table None 0]
    by (simp add: item_at_def sample_table_item del: jreq.simps exec.simps)
qed

text \<open>C17: The address cleanup rewrites a record without touching its application history: whatever
  the environment answers, a save of the store that an acquire prepared either sends nothing and
  fails, or sends one document, however that request then ends; it carries, byte for byte, the raw
  history fields of the claim response that the acquire validated, and its record has the same
  bootstrap, deployment, join, runtime and upgrade parts.\<close>

theorem cleanup_keeps_history:
  assumes "cleanup_acquire H R p owner w = (Inr r0, w1)"
    and "cs_history w2 = cs_history w1" and "cs_canonical w2 = cs_canonical w1"
    and "cleanup_save H R M r owner w2 = (res, w3)"
  shows "\<exists>it d0. hd (hist w1) = (jreq (JClaim p owner), Written (Some it)) \<and>
    fmlookup it ''Data'' = Some (D d0) \<and> doc_record d0 = Some r0 \<and>
    ((hist w3 = hist w2 \<and> res \<noteq> Inr ()) \<or>
     (\<exists>d reply. hist w3 = (jreq (JSave r owner d), reply) # hist w2 \<and> doc_record d = Some r \<and>
       (\<forall>f \<in> set history_fields. fmlookup (doc_raw d) f = fmlookup (doc_raw d0) f) \<and> same_application r r0))"
proof -
  have "wp (cleanup_acquire H R p owner) (\<lambda>r0 w1. \<exists>it d0.
      hd (hist w1) = (jreq (JClaim p owner), Written (Some it)) \<and> fmlookup it ''Data'' = Some (D d0) \<and>
      doc_record d0 = Some r0 \<and> cs_history w1 = fmfilter (\<lambda>k. k \<in> set history_fields) (doc_raw d0) \<and>
      cs_canonical w1 = r0) (\<lambda>_ _. True) w"
    by (auto simp: cleanup_acquire_def read_item_def claim_def wp_rules split: reply.splits option.splits sum.splits
        dest!: decode_Inr)
  from wp_pair [OF this assms(1)] obtain it d0
    where a: "hd (hist w1) = (jreq (JClaim p owner), Written (Some it))" "fmlookup it ''Data'' = Some (D d0)"
      "doc_record d0 = Some r0" "cs_history w1 = fmfilter (\<lambda>k. k \<in> set history_fields) (doc_raw d0)"
      "cs_canonical w1 = r0" by blast
  let ?d = "cleanup_document M r (cs_history w2)"
  let ?sent = "\<lambda>w3. (\<exists>reply. hist w3 = (jreq (JSave r owner ?d), reply) # hist w2) \<and> same_application r (cs_canonical w2)"
  have "wp (cleanup_save H R M r owner) (\<lambda>_. ?sent) (\<lambda>_ w3. hist w3 = hist w2 \<or> ?sent w3) w2"
    by (auto simp: cleanup_save_def save_doc_def wp_rules split: reply.splits sum.splits simp del: jreq.simps)
  then have b: "(hist w3 = hist w2 \<and> res \<noteq> Inr ()) \<or> ?sent w3" using assms(4) by (cases res) (auto simp: wp_def)
  have "fmlookup (doc_raw ?d) f = fmlookup (doc_raw d0) f" if "f \<in> set history_fields" for f
    using that by (auto simp: cleanup_document_def Let_def assms(2) a(4) split: option.splits)
  moreover have "doc_record ?d = Some r" by (simp add: cleanup_document_def Let_def)
  ultimately show ?thesis using a b assms(3) by metis
qed

text \<open>A released item whose document has an explicit null for the bootstrap.\<close>

definition sample_history_doc :: "oprec doc" where
  "sample_history_doc = \<lparr>doc_record = Some (new_record sample_plan 1), doc_raw = fmap_of_list [(''bootstrap'', ''null'')],
     doc_size = 1000\<rparr>"

definition sample_free_table :: "oprec table" where
  "sample_free_table = fmap_of_list [(plan_key sample_plan, fmap_of_list [(''Network'', S (plan_key sample_plan)),
     (''PlanID'', S (pl_id sample_plan)), (''Data'', D sample_history_doc), (''Revision'', N 0)])]"

lemma sample_free_item:
  "fmlookup sample_free_table (plan_key sample_plan) = Some (fmap_of_list [(''Network'', S (plan_key sample_plan)),
     (''PlanID'', S (pl_id sample_plan)), (''Data'', D sample_history_doc), (''Revision'', N 0)])"
  by (simp add: sample_free_table_def)

definition sample_cleanup_world :: jworld where
  "sample_cleanup_world = \<lparr>env = table_env sample_free_table, hist = [], cs_plan = sample_plan, cs_owner = [],
     cs_history = fmempty, cs_canonical = new_record sample_plan 1\<rparr>"

definition sample_cleaned :: oprec where
  "sample_cleaned = (new_record sample_plan 1)\<lparr>rc_revision := 1\<rparr>"

lemma sample_cleaned_valid:
  "validate_cleanup sample_hash sample_refs sample_plan sample_cleaned = Inr ()"
  "validate_cleanup sample_hash sample_refs sample_plan (new_record sample_plan 1) = Inr ()"
  by code_simp+

theorem cleanup_keeps_history_witness:
  "\<exists>w1 w3 reply d. cleanup_acquire sample_hash sample_refs sample_plan ''run-2'' sample_cleanup_world =
      (Inr (new_record sample_plan 1), w1) \<and>
    cleanup_save sample_hash sample_refs sample_marshal sample_cleaned ''run-2'' w1 = (Inr (), w3) \<and>
    hist w3 = (jreq (JSave sample_cleaned ''run-2'' d), reply) # hist w1 \<and>
    fmlookup (doc_raw d) ''bootstrap'' = Some ''null''"
proof -
  have p: "rc_plan sample_cleaned = sample_plan" "rc_revision sample_cleaned = 1"
      "rc_plan (new_record sample_plan 1) = sample_plan" "rc_revision (new_record sample_plan 1) = 0"
    by (simp_all add: sample_cleaned_def new_record_def)
  have app: "same_application sample_cleaned (new_record sample_plan 1)"
    by (simp add: sample_cleaned_def same_application_def)
  have doc: "doc_record sample_history_doc = Some (new_record sample_plan 1)" "doc_size sample_history_doc = 1000"
      "doc_raw sample_history_doc = fmap_of_list [(''bootstrap'', ''null'')]"
      "doc_size (cleanup_document sample_marshal r f) = 1000" for r f
    by (simp_all add: sample_history_doc_def sample_marshal_def cleanup_document_def Let_def)
  have "\<exists>w1 w3 it. cleanup_acquire sample_hash sample_refs sample_plan ''run-2'' sample_cleanup_world =
      (Inr (new_record sample_plan 1), w1) \<and> hd (hist w1) = (jreq (JClaim sample_plan ''run-2''), Written (Some it)) \<and>
      fmlookup it ''Data'' = Some (D sample_history_doc) \<and>
    cleanup_save sample_hash sample_refs sample_marshal sample_cleaned ''run-2'' w1 = (Inr (), w3)"
    by (simp add: cleanup_acquire_def read_item_def claim_def cleanup_save_def save_doc_def oper_defs
        sample_cleanup_world_def table_env_def item_at_def sample_free_item Let_def str_value_def
        decode_record_def doc p sample_cleaned_valid app max_doc_def)
  then obtain w1 w3 it where
    a: "cleanup_acquire sample_hash sample_refs sample_plan ''run-2'' sample_cleanup_world = (Inr (new_record sample_plan 1), w1)"
    and it: "hd (hist w1) = (jreq (JClaim sample_plan ''run-2''), Written (Some it))" "fmlookup it ''Data'' = Some (D sample_history_doc)"
    and b: "cleanup_save sample_hash sample_refs sample_marshal sample_cleaned ''run-2'' w1 = (Inr (), w3)" by blast
  from cleanup_keeps_history [OF a refl refl b] it obtain d reply where
    "hist w3 = (jreq (JSave sample_cleaned ''run-2'' d), reply) # hist w1"
    "\<forall>f \<in> set history_fields. fmlookup (doc_raw d) f = fmlookup (doc_raw sample_history_doc) f" by auto
  then show ?thesis using a b doc(3) by (auto simp: history_fields_def)
qed

section \<open>Stored records stay readable\<close>

text \<open>The calls the methods of \<open>Dynamo\<close> make and, with \<open>b\<close>, the saves of address-cleanup stores.\<close>

inductive issued :: "bool \<Rightarrow> hasher \<Rightarrow> image_refs \<Rightarrow> marshal \<Rightarrow> oprec jcall \<Rightarrow> bool" for b H R M where
  "issued b H R M (JRead p)"
| "encode H R M (new_record p t) = Inr d \<Longrightarrow> issued b H R M (JCreate p d owner)"
| "issued b H R M (JClaim p owner)"
| "encode H R M r = Inr d \<Longrightarrow> issued b H R M (JSave r owner d)"
| "issued b H R M (JRelease p owner)"
| "b \<Longrightarrow> validate_cleanup H R (rc_plan r) r = Inr () \<Longrightarrow> doc_size (cleanup_document M r h) \<le> max_doc \<Longrightarrow>
     issued b H R M (JSave r owner (cleanup_document M r h))"

inductive_cases issuedE: "issued b H R M (JCreate p d owner)" "issued b H R M (JSave r owner d)"

definition only_issued :: "bool \<Rightarrow> hasher \<Rightarrow> image_refs \<Rightarrow> marshal \<Rightarrow> (oprec request, oprec reply, 'z) sys_scheme \<Rightarrow> bool" where
  "only_issued b H R M w \<longleftrightarrow> (\<forall>(q, r) \<in> set (hist w). \<exists>c. issued b H R M c \<and> q = jreq c)"

lemma keeps_ask_issued [intro]: "issued b H R M c \<Longrightarrow> keeps (only_issued b H R M) (ask (jreq c))"
  by (auto simp: keeps_def ask_def Let_def only_issued_def)

lemma methods_issue:
  "keeps (only_issued b H R M) (read_op H R p)" "keeps (only_issued b H R M) (acquire H R M p owner)"
  "keeps (only_issued b H R M) (save_op H R M r owner)" "keeps (only_issued b H R M) (release p owner)"
proof -
  have rd: "keeps (only_issued b H R M) (read_op H R p)"
    unfolding read_op_def read_item_def
    by (intro keeps_intros keeps_ask_issued issued.intros) (auto split: reply.splits option.splits)
  show "keeps (only_issued b H R M) (read_op H R p)" by (rule rd)
  have cl: "keeps (only_issued b H R M) (claim p owner)"
    unfolding claim_def
    by (intro keeps_intros keeps_ask_issued issued.intros) (auto split: reply.splits option.splits)
  have lft: "keeps I (bnd (lift x) f)" if "\<And>a. x = Inr a \<Longrightarrow> keeps I (f a)" for I x f
    using that by (cases x) (auto simp: keeps_def bnd_def lift_def)
  show "keeps (only_issued b H R M) (acquire H R M p owner)"
    unfolding acquire_def Let_def
    by (intro keeps_sq keeps_reject_if keeps_bnd keeps_now lft keeps_ask_issued issued.intros)
       (auto split: reply.splits intro!: keeps_bnd rd cl)
  show "keeps (only_issued b H R M) (save_op H R M r owner)"
    unfolding save_op_def save_doc_def
    by (intro keeps_sq keeps_reject_if keeps_bnd lft keeps_ask_issued issued.intros) (auto split: reply.splits)
  show "keeps (only_issued b H R M) (release p owner)"
    unfolding release_def
    by (intro keeps_sq keeps_reject_if keeps_bnd keeps_ask_issued issued.intros) (auto split: reply.splits)
qed

lemma cleanup_methods_issue:
  "keeps (only_issued True H R M) (cleanup_acquire H R p owner)" "keeps (only_issued True H R M) (cleanup_save H R M r owner)"
  "keeps (only_issued True H R M) (cleanup_release p owner)"
proof -
  have md: "keeps (only_issued True H R M) (modify g)" if "\<And>w. hist (g w) = hist w" for g :: "jworld \<Rightarrow> jworld"
    using that by (auto simp: keeps_def only_issued_def modify_def)
  have rd: "keeps (only_issued True H R M) (read_item p)" for p
    unfolding read_item_def
    by (intro keeps_intros keeps_ask_issued issued.intros) (auto split: reply.splits option.splits)
  have cl: "keeps (only_issued True H R M) (claim p owner)" for p owner
    unfolding claim_def
    by (intro keeps_intros keeps_ask_issued issued.intros) (auto split: reply.splits option.splits)
  show "keeps (only_issued True H R M) (cleanup_acquire H R p owner)"
    unfolding cleanup_acquire_def by (intro keeps_intros rd cl md) simp
  show "keeps (only_issued True H R M) (cleanup_release p owner)"
    unfolding cleanup_release_def by (intro keeps_intros methods_issue md) simp
  have sv: "wp (cleanup_save H R M r owner) (\<lambda>_. only_issued True H R M) (\<lambda>_. only_issued True H R M) w"
    if "only_issued True H R M w" for w
  proof -
    have "issued True H R M (JSave r owner (cleanup_document M r h))"
      if "rc_plan r = pl" "validate_cleanup H R pl r = Inr ()" "\<not> max_doc < doc_size (cleanup_document M r h)" for h pl owner
      using that by (intro issued.intros(6)) auto
    with that show ?thesis
      by (auto simp: cleanup_save_def save_doc_def wp_rules only_issued_def split: reply.splits sum.splits simp del: jreq.simps)
         blast+
  qed
  show "keeps (only_issued True H R M) (cleanup_save H R M r owner)" by (rule wp_keeps) (rule sv)
qed

definition journal_valid :: "bool \<Rightarrow> hasher \<Rightarrow> image_refs \<Rightarrow> oprec \<Rightarrow> bool" where
  "journal_valid b H R r \<longleftrightarrow> validate_record H R (rc_plan r) r = Inr () \<or> b \<and> validate_cleanup H R (rc_plan r) r = Inr ()"

definition readable :: "bool \<Rightarrow> hasher \<Rightarrow> image_refs \<Rightarrow> oprec table \<Rightarrow> bool" where
  "readable b H R T \<longleftrightarrow> (\<forall>k it. fmlookup T k = Some it \<longrightarrow>
     (\<exists>d r. fmlookup it ''Network'' = Some (S k) \<and> fmlookup it ''Data'' = Some (D d) \<and> doc_record d = Some r \<and>
        0 < doc_size d \<and> doc_size d \<le> max_doc \<and> fmlookup it ''Revision'' = Some (N (rc_revision r)) \<and>
        fmlookup it ''PlanID'' = Some (S (pl_id (rc_plan r))) \<and> k = plan_key (rc_plan r) \<and>
        journal_valid b H R r))"

lemma readable_upd:
  assumes "readable b H R T" and "fmlookup it ''Network'' = Some (S k)" "fmlookup it ''Data'' = Some (D d)"
    "doc_record d = Some r" "0 < doc_size d" "doc_size d \<le> max_doc" "fmlookup it ''Revision'' = Some (N (rc_revision r))"
    "fmlookup it ''PlanID'' = Some (S (pl_id (rc_plan r)))" "k = plan_key (rc_plan r)"
    "journal_valid b H R r"
  shows "readable b H R (fmupd k it T)"
  using assms unfolding readable_def by auto

lemma readable_touch:
  assumes "readable b H R T" and "fmlookup T k = Some it" and "\<forall>a. a \<noteq> ''Owner'' \<longrightarrow> fmlookup it' a = fmlookup it a"
  shows "readable b H R (fmupd k it' T)"
proof -
  have e: "fmlookup it' ''Network'' = fmlookup it ''Network''" "fmlookup it' ''Data'' = fmlookup it ''Data''"
    "fmlookup it' ''Revision'' = fmlookup it ''Revision''" "fmlookup it' ''PlanID'' = fmlookup it ''PlanID''"
    using assms(3) by simp_all
  show ?thesis using assms(1,2) e unfolding readable_def by auto
qed

lemma readable_save:
  assumes "readable b H R T" and "doc_record d = Some r" "0 < doc_size d" "doc_size d \<le> max_doc" "journal_valid b H R r"
  shows "readable b H R (fst (exec T (jreq (JSave r owner d))))"
proof (cases "fmlookup T (plan_key (rc_plan r))")
  case None
  then show ?thesis using assms(1) by (simp add: item_at_def)
next
  case (Some it)
  then have "fmlookup it ''Network'' = Some (S (plan_key (rc_plan r)))" using assms(1) by (auto simp: readable_def)
  then show ?thesis
    using assms Some by (auto simp: item_at_def Let_def intro!: readable_upd [where r = r and d = d])
qed

lemma readable_step:
  assumes "issued b H R M c" and "readable b H R T" and size: "\<forall>r f. 0 < size_of M r f"
  shows "readable b H R (fst (exec T (jreq c)))"
  using assms(1)
proof cases
  case (2 p t d owner)
  then have d: "d = document M (new_record p t)" "doc_size d \<le> max_doc" "journal_valid b H R (new_record p t)"
    by (auto simp: encode_Inr new_record_def journal_valid_def)
  have n: "rc_plan (new_record p t) = p" "rc_revision (new_record p t) = 0" by (simp_all add: new_record_def)
  show ?thesis
    using assms(2) 2(1) d by (auto intro!: readable_upd [where r = "new_record p t" and d = d] simp: n) (simp_all add: document_def size)
next
  case (3 p owner)
  then show ?thesis using assms(2)
    by (auto simp: item_at_def Let_def split: option.splits intro!: readable_touch)
next
  case (4 r d owner)
  then show ?thesis
    using readable_save [OF assms(2), of d r owner] by (auto simp: encode_Inr document_def size journal_valid_def)
next
  case (5 p owner)
  then show ?thesis using assms(2)
    by (auto simp: item_at_def Let_def split: option.splits intro!: readable_touch)
next
  case (6 r h owner)
  then show ?thesis
    using readable_save [OF assms(2), of "cleanup_document M r h" r owner]
    by (auto simp: size journal_valid_def cleanup_document_def Let_def)
qed (use assms(2) in auto)

lemma readable_run:
  assumes "readable b H R T" and "\<forall>(c, hit) \<in> set cs. issued b H R M c"
    and "\<forall>r f. 0 < size_of M r f"
  shows "readable b H R (pj.run T cs)"
  using assms by (induction T cs rule: pj.run.induct) (auto simp: readable_step simp del: jreq.simps)

text \<open>A creation and a cleanup save by the same runner.\<close>

definition sample_calls :: "(oprec jcall \<times> bool) list" where
  "sample_calls = [(JCreate sample_plan (document sample_marshal (new_record sample_plan 1)) ''run-1'', True),
     (JSave sample_cleaned ''run-1'' (cleanup_document sample_marshal sample_cleaned fmempty), True)]"

text \<open>C16: Nothing the runners write can make a journal unreadable: after any sequence of calls issued
  by the methods of any number of runners on a new table, with requests lost, repeated and
  reordered at will (and no encoding empty), every item is bound to the plan its record carries and
  decodes against it under one of the two codecs. If no address cleanup takes part (\<open>b\<close> is false),
  it decodes to a record that passes full validation; if cleanups take part, it does so or decodes
  to a record that passes the cleanup validation.\<close>

theorem journal_stays_readable:
  assumes "\<forall>(c, hit) \<in> set cs. issued b H R M c" and "\<forall>r f. 0 < size_of M r f"
    and "fmlookup (pj.run fmempty cs) k = Some it"
  shows "\<exists>r. k = plan_key (rc_plan r) \<and> str_value it ''PlanID'' = pl_id (rc_plan r) \<and>
    (decode H R (rc_plan r) it = Inr r \<and> validate_record H R (rc_plan r) r = Inr () \<or>
     b \<and> decode_record (validate_cleanup H R) (rc_plan r) it = Inr r \<and> validate_cleanup H R (rc_plan r) r = Inr ())"
proof -
  have "readable b H R (pj.run fmempty cs)"
    by (rule readable_run [OF _ assms(1,2)]) (simp add: readable_def)
  then obtain d r where "fmlookup it ''Network'' = Some (S k)" "fmlookup it ''Data'' = Some (D d)"
    "doc_record d = Some r" "0 < doc_size d" "doc_size d \<le> max_doc"
    "fmlookup it ''Revision'' = Some (N (rc_revision r))"
    "fmlookup it ''PlanID'' = Some (S (pl_id (rc_plan r)))" "k = plan_key (rc_plan r)" "journal_valid b H R r"
    using assms(3) unfolding readable_def by blast
  then show ?thesis by (intro exI [of _ r]) (auto simp: decode_def decode_record_def str_value_def journal_valid_def)
qed

theorem journal_stays_readable_witness:
  "\<exists>it. fmlookup (pj.run fmempty sample_calls) (plan_key sample_plan) = Some it \<and>
    (\<exists>r. plan_key sample_plan = plan_key (rc_plan r) \<and> (decode sample_hash sample_refs (rc_plan r) it = Inr r \<or>
       decode_record (validate_cleanup sample_hash sample_refs) (rc_plan r) it = Inr r))"
proof -
  have p: "rc_plan sample_cleaned = sample_plan" by (simp add: sample_cleaned_def new_record_def)
  have "issued True sample_hash sample_refs sample_marshal (JCreate sample_plan (document sample_marshal (new_record sample_plan 1)) ''run-1'')"
    by (rule issued.intros(2) [OF sample_encode])
  moreover have "issued True sample_hash sample_refs sample_marshal
      (JSave sample_cleaned ''run-1'' (cleanup_document sample_marshal sample_cleaned fmempty))"
    by (rule issued.intros(6)) (simp_all add: p sample_cleaned_valid, simp add: cleanup_document_def sample_marshal_def max_doc_def Let_def)
  ultimately have i: "\<forall>(c, hit) \<in> set sample_calls. issued True sample_hash sample_refs sample_marshal c"
    by (simp add: sample_calls_def)
  have m: "\<forall>r f. 0 < size_of sample_marshal r f" by (simp add: sample_marshal_def)
  have "\<exists>it. fmlookup (pj.run fmempty sample_calls) (plan_key sample_plan) = Some it"
    by (simp add: sample_calls_def item_at_def Let_def p)
  then show ?thesis using journal_stays_readable [OF i m] by blast
qed

end
