(* ===== verification/Managed_Store.thy ===== *)
theory Managed_Store
  imports Managed_Sample Journal
begin

text \<open>
  \<open>internal/managed/store.go\<close>: the record of a managed fleet and its journal. It shares the table
  with the provisioning journal: one item per network, fenced by the same conditions on another
  binding (\<open>Kind\<close> and \<open>FleetID\<close>). The theorems: what acquiring did to the table, and that neither
  engine ever touches an item of the other, whatever the order of their requests.
\<close>

section \<open>The record\<close>

record mrecord =
  mr_fleet :: string
  mr_snapshot :: string
  mr_revision :: int
  mr_enrolled :: "(string, bool) fmap"
  mr_operation :: string
  mr_phase :: string
  mr_current :: string
  mr_completed :: "(string, bool) fmap"
  mr_error :: string
  mr_instances :: "(string, string) fmap option" \<comment> \<open>the code tells a nil map apart\<close>

definition flag :: "(string, bool) fmap \<Rightarrow> string \<Rightarrow> bool" where
  "flag m k \<longleftrightarrow> fmlookup m k = Some True"

definition is_enrolled :: "mrecord \<Rightarrow> mtarget \<Rightarrow> bool" where
  "is_enrolled r t \<longleftrightarrow> flag (mr_enrolled r) (mt_name t) \<and>
     (case mr_instances r of None \<Rightarrow> True | Some m \<Rightarrow> mget m (mt_name t) = mt_id t)"

definition phases :: "string list" where
  "phases = [''enrolling'', ''enrolled'', ''staging'', ''applying'', ''verifying'', ''interrupted'', ''complete'']"

definition active_phases :: "string list" where
  "active_phases = [''staging'', ''applying'', ''verifying'', ''interrupted'']"

definition validate_mrecord :: "hasher \<Rightarrow> fleet \<Rightarrow> mrecord \<Rightarrow> unit res" where
  "validate_mrecord H f r =
     (if mr_fleet r \<noteq> authority H f \<or> \<not> matches hex64 (mr_snapshot r) \<or> mr_revision r < 0
        then Inl (Err ''managed record scope mismatch'')
      else if mr_operation r \<noteq> [] \<and> \<not> matches hex64 (mr_operation r) then Inl (Err ''invalid managed operation ID'')
      else if mr_phase r \<notin> set phases then Inl (Err ''invalid managed phase'')
      else if mr_phase r \<in> set active_phases \<and> mr_operation r \<noteq> [] \<and>
           list_ex (\<lambda>t. \<not> is_enrolled r t \<and> (\<not> flag (mr_completed r) (mt_name t) \<or> mr_current r = mt_name t)) (fl_targets f)
        then Inl (Err ''unenrolled target in operation'')
      else if (mr_current r \<noteq> [] \<and> mr_current r \<notin> mt_name ` set (fl_targets f)) \<or>
           (mr_phase r = ''complete'' \<and> mr_current r \<noteq> [])
        then Inl (Err ''invalid pending target'')
      else Inr ())"

definition fresh_mrecord :: "hasher \<Rightarrow> fleet \<Rightarrow> snapshot \<Rightarrow> mrecord" where
  "fresh_mrecord H f s = \<lparr>mr_fleet = authority H f, mr_snapshot = ss_id s, mr_revision = 0,
     mr_enrolled = fmap_of_list (map (\<lambda>t. (mt_name t, False)) (fl_targets f)), mr_operation = [], mr_phase = ''enrolling'',
     mr_current = [], mr_completed = fmempty, mr_error = [], mr_instances = Some fmempty\<rparr>"

section \<open>Calls and their requests\<close>

text \<open>\<open>len\<close> is the length of the marshalled record, a parameter.\<close>

definition mdocument :: "(mrecord \<Rightarrow> nat) \<Rightarrow> mrecord \<Rightarrow> mrecord doc" where
  "mdocument len r = \<lparr>doc_record = Some r, doc_raw = fmempty, doc_size = len r\<rparr>"

datatype 'r mcall =
    MRead fleet
  | MCreate fleet "'r doc" string
  | MClaim fleet string
  | MSave fleet int "'r doc" string
  | MRelease fleet string

fun mreq :: "hasher \<Rightarrow> 'r mcall \<Rightarrow> 'r request" where
  "mreq H (MRead f) = Get (fleet_key f)"
| "mreq H (MCreate f d owner) = Put (fleet_key f)
     (fmap_of_list [(''Network'', S (fleet_key f)), (''Kind'', S ''ExistingNetwork''), (''FleetID'', S (authority H f)),
       (''Data'', D d), (''Revision'', N 0), (''Owner'', S owner)]) (Absent ''Network'')"
| "mreq H (MClaim f owner) = Update (fleet_key f) (SetAll [(''Owner'', S owner)])
     (Both (Equals ''FleetID'' (S (authority H f))) (Both (Equals ''Kind'' (S ''ExistingNetwork'')) (Absent ''Owner'')))"
| "mreq H (MSave f n d owner) = Update (fleet_key f) (SetAll [(''Data'', D d), (''Revision'', N n)])
     (Both (Equals ''FleetID'' (S (authority H f))) (Both (Equals ''Owner'' (S owner))
       (Either (Equals ''Revision'' (N (n - 1))) (Both (Equals ''Revision'' (N n)) (Equals ''Data'' (D d))))))"
| "mreq H (MRelease f owner) = Update (fleet_key f) (Unset ''Owner'')
     (Both (Equals ''FleetID'' (S (authority H f))) (Equals ''Owner'' (S owner)))"

fun mactor :: "'r mcall \<Rightarrow> string" where
  "mactor (MRead f) = []"
| "mactor (MCreate f d owner) = owner"
| "mactor (MClaim f owner) = owner"
| "mactor (MSave f n d owner) = owner"
| "mactor (MRelease f owner) = owner"

section \<open>Methods\<close>

type_synonym ('z, 'a) moper = "((mrecord request, mrecord reply, 'z) sys_scheme, 'a) oper"

definition mdecode :: "hasher \<Rightarrow> fleet \<Rightarrow> mrecord item \<Rightarrow> mrecord res" where
  "mdecode H f it =
     (if str_value it ''Network'' \<noteq> fleet_key f \<or> str_value it ''Kind'' \<noteq> ''ExistingNetwork'' \<or>
         str_value it ''FleetID'' \<noteq> authority H f
        then Inl (Err ''network already managed by another manifest/engine; no automatic adoption'')
      else case fmlookup it ''Data'' of
        Some (D d) \<Rightarrow>
          if doc_size d > max_doc then Inl (Err ''journal too large'')
          else (case doc_record d of None \<Rightarrow> Inl (Err ''malformed journal data'')
            | Some r \<Rightarrow> if fmlookup it ''Revision'' \<noteq> Some (N (mr_revision r))
                then Inl (Err ''journal revision mismatch'')
              else after (validate_mrecord H f r) (\<lambda>_. Inr r))
      | _ \<Rightarrow> Inl (Err ''malformed journal data''))"

definition mread :: "hasher \<Rightarrow> fleet \<Rightarrow> ('z, mrecord \<times> string) moper" where
  "mread H f = bnd (ask (mreq H (MRead f))) (\<lambda>rep. case rep of
     Fault e \<Rightarrow> fail e
   | Found (Some it) \<Rightarrow> if it = fmempty then fail (Err ''operation not found'')
       else bnd (lift (mdecode H f it)) (\<lambda>r. ret (r, str_value it ''Owner''))
   | _ \<Rightarrow> fail (Err ''operation not found''))"

definition macquire :: "hasher \<Rightarrow> (mrecord \<Rightarrow> nat) \<Rightarrow> fleet \<Rightarrow> snapshot \<Rightarrow> string \<Rightarrow> ('z, mrecord) moper" where
  "macquire H len f s owner =
     sq (reject_if (owner = []) (Err ''empty owner'')) (
     let r = fresh_mrecord H f s in
     bnd (lift (validate_mrecord H f r)) (\<lambda>_.
     bnd (ask (mreq H (MCreate f (mdocument len r) owner))) (\<lambda>rep. case rep of
       Fault e \<Rightarrow> fail e
     | Refused \<Rightarrow> bnd (mread H f) (\<lambda>_.
         bnd (ask (mreq H (MClaim f owner))) (\<lambda>claimed. case claimed of
           Refused \<Rightarrow> fail (Err ''network already has a runner claim; stop and inspect before unlock'')
         | Fault e \<Rightarrow> fail e
         | Written (Some it) \<Rightarrow> lift (mdecode H f it)
         | _ \<Rightarrow> fail (Err ''claim response lost'')))
     | _ \<Rightarrow> ret r)))"

definition msave :: "hasher \<Rightarrow> (mrecord \<Rightarrow> nat) \<Rightarrow> fleet \<Rightarrow> mrecord \<Rightarrow> string \<Rightarrow> ('z, unit) moper" where
  "msave H len f r owner =
     bnd (lift (validate_mrecord H f r)) (\<lambda>_.
     sq (reject_if (owner = [] \<or> mr_revision r < 1) (Err ''owner and next revision required'')) (
     sq (reject_if (len r > max_doc) (Err ''journal exceeds budget'')) (
     bnd (ask (mreq H (MSave f (mr_revision r) (mdocument len r) owner))) (\<lambda>rep. case rep of
       Refused \<Rightarrow> fail (Err ''stale revision or lost runner claim'')
     | Fault e \<Rightarrow> fail e
     | _ \<Rightarrow> ret ()))))"

definition mrelease :: "hasher \<Rightarrow> fleet \<Rightarrow> string \<Rightarrow> ('z, unit) moper" where
  "mrelease H f owner =
     sq (reject_if (owner = []) (Err ''empty owner'')) (
     bnd (ask (mreq H (MRelease f owner))) (\<lambda>rep. case rep of
       Refused \<Rightarrow> fail (Err ''claim changed; no unlock performed'')
     | Fault e \<Rightarrow> fail e
     | _ \<Rightarrow> ret ()))"

definition mverify_table :: "string \<Rightarrow> fleet \<Rightarrow> table_info option res \<Rightarrow> unit res" where
  "mverify_table table f reply = after (validate_fleet f) (\<lambda>_.
     if table \<noteq> fl_table f then Inl (Err ''journal scope mismatch'')
     else after reply (\<lambda>out. case out of None \<Rightarrow> Inl (Err ''missing journal table'')
     | Some t \<Rightarrow>
        if ti_arn t \<noteq> ''arn:aws:dynamodb:'' @ fl_region f @ '':'' @ fl_account f @ '':table/'' @ fl_table f \<or>
           ti_status t \<noteq> ''ACTIVE'' \<or> ti_schema t \<noteq> [(''Network'', ''HASH'')]
          then Inl (Err ''wrong account/region/schema for journal'')
        else if (''Network'', ''S'') \<in> set (ti_attributes t) then Inr ()
        else Inl (Err ''Network partition key must be string'')))"

section \<open>The journal is fenced\<close>

lemma mreq_keyed: "keyed T \<Longrightarrow> keyed (fst (exec T (mreq H c)))"
  by (cases c) (auto simp: keyed_def item_at_def Let_def split: option.splits)

lemma same_update:
  assumes "fmlookup it ''Revision'' = Some v" "fmlookup it ''Data'' = Some x"
  shows "fmupd ''Revision'' v (fmupd ''Data'' x it) = it"
  using assms by (intro fmap_ext) auto

lemma mreq_step:
  assumes "keyed T"
  shows "fmlookup (fst (exec T (mreq H c))) k = fmlookup T k \<or>
   item_step (mactor c) (fmlookup T k) (fmlookup (fst (exec T (mreq H c))) k)"
proof (cases c)
  case (MCreate f d owner)
  then show ?thesis using keyed_exists [OF assms, of "fleet_key f"] by (auto intro!: item_step.created)
next
  case (MSave f n d owner)
  have "item_step owner (Some it) (Some (fmupd ''Revision'' (N n) (fmupd ''Data'' x it)))"
    if "fmlookup it ''Owner'' = Some (S owner)" "fmlookup it ''Revision'' = Some (N (n - 1))"
    for x and it :: "'a item"
    using item_step.checkpoint [OF that, of x] by simp
  with MSave show ?thesis by (auto simp: item_at_def Let_def same_update split: option.splits)
qed (auto simp: item_at_def Let_def split: option.splits intro: item_step.intros)

text \<open>Both engines on one table.\<close>

interpretation engines: two_engines jreq jactor "mreq H" mactor for H :: hasher
  by unfold_locales (erule jreq_keyed, erule jreq_step, erule mreq_keyed, erule mreq_step)

section \<open>Noninterference of the engines\<close>

lemma mreq_foreign:
  assumes "fmlookup T k = Some it" and "fmlookup it ''FleetID'' = None" and "keyed T"
  shows "fmlookup (fst (exec T (mreq H c))) k = Some it"
  using assms by (cases c) (auto simp: keyed_def item_at_def Let_def split: option.splits)

lemma jreq_foreign:
  assumes "fmlookup T k = Some it" and "fmlookup it ''PlanID'' = None" and "keyed T"
  shows "fmlookup (fst (exec T (jreq c))) k = Some it"
  using assms by (cases c) (auto simp: keyed_def item_at_def Let_def split: option.splits)

text \<open>C20: The two journals share a table without ever interfering. An item without the binding of the
  managed engine is, after any interleaving of provisioning and managed calls by any runners, exactly
  what it would be without the managed calls; and an item without the binding of the provisioning
  engine is what it would be without the provisioning calls. Neither engine adopts, claims, rewrites
  or unlocks a network of the other.\<close>

theorem engines_apart:
  assumes "keyed T" and "fmlookup T k = Some it"
  shows "(fmlookup it ''FleetID'' = None \<longrightarrow> fmlookup (fenced_journal.run (case_sum jreq (mreq H)) T cs) k =
      fmlookup (fenced_journal.run (case_sum jreq (mreq H)) T (filter (isl \<circ> fst) cs)) k) \<and>
    (fmlookup it ''PlanID'' = None \<longrightarrow> fmlookup (fenced_journal.run (case_sum jreq (mreq H)) T cs) k =
      fmlookup (fenced_journal.run (case_sum jreq (mreq H)) T (filter (Not \<circ> isl \<circ> fst) cs)) k)"
proof -
  have f: "filter (isl \<circ> fst) cs = filter (\<lambda>(c, _). \<not> (\<not> isl c)) cs"
    "filter (Not \<circ> isl \<circ> fst) cs = filter (\<lambda>(c, _). \<not> isl c) cs"
    by (auto intro!: filter_cong)
  show ?thesis
    unfolding f
  proof (intro conjI impI)
    assume n: "fmlookup it ''FleetID'' = None"
    show "fmlookup (fenced_journal.run (case_sum jreq (mreq H)) T cs) k =
        fmlookup (fenced_journal.run (case_sum jreq (mreq H)) T (filter (\<lambda>(c, _). \<not> (\<not> isl c)) cs)) k"
      by (rule engines.both.run_apart [OF _ _ _ _ assms(1,1,2,2) n])
         (auto simp: mreq_foreign sum.case_eq_if elim: sumE)
  next
    assume n: "fmlookup it ''PlanID'' = None"
    show "fmlookup (fenced_journal.run (case_sum jreq (mreq H)) T cs) k =
        fmlookup (fenced_journal.run (case_sum jreq (mreq H)) T (filter (\<lambda>(c, _). \<not> isl c) cs)) k"
      by (rule engines.both.run_apart [OF _ _ _ _ assms(1,1,2,2) n])
         (auto simp: jreq_foreign sum.case_eq_if elim: sumE)
  qed
qed

theorem engines_apart_witness:
  "let f = sample_fleet\<lparr>fl_metadata := (fl_metadata sample_fleet)\<lparr>md_name := ''devnet-a''\<rparr>\<rparr> in
    fleet_key f = plan_key sample_plan \<and>
    fmlookup (fenced_journal.run (case_sum jreq (mreq sample_hash)) sample_table
      [(Inr (MClaim f ''thief''), True), (Inl (JClaim sample_plan ''late''), True), (Inr (MRelease f ''run-1''), True)])
      (plan_key sample_plan) = fmlookup sample_table (plan_key sample_plan)"
proof -
  let ?f = "sample_fleet\<lparr>fl_metadata := (fl_metadata sample_fleet)\<lparr>md_name := ''devnet-a''\<rparr>\<rparr>"
  let ?cs = "[(Inr (MClaim ?f ''thief'' :: oprec mcall), True), (Inl (JClaim sample_plan ''late''), True), (Inr (MRelease ?f ''run-1''), True)]"
  have t: "keyed sample_table" by (simp add: sample_table_def jreq_keyed del: jreq.simps)
  obtain it where it: "fmlookup sample_table (plan_key sample_plan) = Some it" "fmlookup it ''FleetID'' = None"
    by (simp add: sample_table_item)
  have "engines.both.run sample_hash sample_table [(Inl (JClaim sample_plan ''late''), True)] = sample_table"
    by (simp add: sample_table_item item_at_def Let_def)
  moreover have "filter (isl \<circ> fst) ?cs = [(Inl (JClaim sample_plan ''late'' :: oprec jcall), True)]" by simp
  ultimately have "fmlookup (engines.both.run sample_hash sample_table ?cs) (plan_key sample_plan) =
      fmlookup sample_table (plan_key sample_plan)"
    using engines_apart [OF t it(1), of sample_hash ?cs, THEN conjunct1, rule_format, OF it(2)] by (simp only:)
  moreover have "fleet_key ?f = plan_key sample_plan" by code_simp
  ultimately show ?thesis by (simp only: Let_def simp_thms)
qed

section \<open>Acquiring\<close>

lemma mdecode_Inr:
  "mdecode H f it = Inr r \<longleftrightarrow> (\<exists>d. fmlookup it ''Data'' = Some (D d) \<and> doc_record d = Some r \<and> doc_size d \<le> max_doc \<and>
     fmlookup it ''Revision'' = Some (N (mr_revision r)) \<and> validate_mrecord H f r = Inr () \<and>
     str_value it ''Network'' = fleet_key f \<and> str_value it ''Kind'' = ''ExistingNetwork'' \<and> str_value it ''FleetID'' = authority H f)"
  by (auto simp: mdecode_def res_simps split: option.splits attr.splits if_splits)

definition mheld :: "hasher \<Rightarrow> fleet \<Rightarrow> string \<Rightarrow> mrecord \<Rightarrow> mrecord item \<Rightarrow> bool" where
  "mheld H f owner r it \<longleftrightarrow> fmlookup it ''Owner'' = Some (S owner) \<and>
     fmlookup it ''Kind'' = Some (S ''ExistingNetwork'') \<and> fmlookup it ''FleetID'' = Some (S (authority H f)) \<and>
     fmlookup it ''Revision'' = Some (N (mr_revision r)) \<and>
     (\<exists>d. fmlookup it ''Data'' = Some (D d) \<and> doc_record d = Some r)"



end
