(* ===== verification/Managed_Health.thy ===== *)
theory Managed_Health
  imports Managed_Store "HOL-Library.Signed_Division"
begin

text \<open>
  \<open>internal/managed/health.go\<close> and \<open>remote.go\<close>: the request to a managed host and the checks around it,
  the observation of a fleet, the two-sample health check with its extensions, the quorum gate of a
  withdrawal, and the preservation of what an operation must not change. The executors' requests are
  declared here.

  \<open>observeTargets\<close> runs one goroutine per target. The model makes the calls in the order of the
  fleet; every answer is the environment's, and \<open>HSlot\<close> is its choice between the two branches of
  the \<open>select\<close>.
\<close>

section \<open>Requests\<close>

record mrequest =
  mq_fleet :: fleet
  mq_id :: string
  mq_target :: mtarget
  mq_action :: string
  mq_expected :: "observation option"
  mq_pins :: pins
  mq_operation :: string
  mq_operation_id :: string
  mq_reference :: int64

definition host_request :: "hasher \<Rightarrow> fleet \<Rightarrow> mtarget \<Rightarrow> string \<Rightarrow> mrequest" where
  "host_request H f t action = \<lparr>mq_fleet = f, mq_id = authority H f, mq_target = t, mq_action = action, mq_expected = None,
     mq_pins = fmempty, mq_operation = [], mq_operation_id = [], mq_reference = 0\<rparr>"

record live_inst =
  li_id :: string
  li_tags :: "(string \<times> string) list"
  li_arch :: string
  li_state :: "string option"
  li_public :: string
  li_private :: string

datatype hreq =
    HIdentity
  | HInstances "string list" string \<comment> \<open>instance ids, page token\<close>
  | HRead fleet
  | HAcquire fleet snapshot string
  | HSave fleet mrecord string
  | HRelease fleet string
  | HCall mrequest
  | HSlot
  | HWait gotime

datatype hreply =
    AUnit "unit res"
  | AText "string option res"
  | AInstances "(live_inst list list \<times> string) option res" \<comment> \<open>reservations and next token\<close>
  | AStored "(mrecord \<times> string) res"
  | ARecord "mrecord res"
  | AObserved "observation res"

definition strange :: "'a res" where
  "strange = Inl (Transport ''reply of another call'')"

fun as_done :: "hreply \<Rightarrow> unit res" where "as_done (AUnit r) = r" | "as_done _ = strange"
fun as_account :: "hreply \<Rightarrow> string option res" where "as_account (AText r) = r" | "as_account _ = strange"
fun as_instances :: "hreply \<Rightarrow> (live_inst list list \<times> string) option res" where
  "as_instances (AInstances r) = r" | "as_instances _ = strange"
fun as_stored :: "hreply \<Rightarrow> (mrecord \<times> string) res" where "as_stored (AStored r) = r" | "as_stored _ = strange"
fun as_mrecord :: "hreply \<Rightarrow> mrecord res" where "as_mrecord (ARecord r) = r" | "as_mrecord _ = strange"
fun as_observed :: "hreply \<Rightarrow> observation res" where "as_observed (AObserved r) = r" | "as_observed _ = strange"

text \<open>The world of an executor: the record in memory and the flag \<open>mutated\<close>.\<close>

record mworld = "(hreq, hreply) sys" +
  mw_rec :: mrecord
  mw_mutated :: bool

type_synonym 'a hoper = "(mworld, 'a) oper"

definition hcall :: "hreq \<Rightarrow> (hreply \<Rightarrow> 'a res) \<Rightarrow> 'a hoper" where
  "hcall q f = bnd (ask q) (\<lambda>a. lift (f a))"

section \<open>The call of a host\<close>

text \<open>\<open>Remote.Call\<close> before and after the SSH command. What came back is the error of the command and
  the decoded output, \<open>None\<close> where it is malformed or followed by extra data; \<open>packed\<close> is the
  compressed worker in base64.\<close>

definition diagnostic :: rx where
  "diagnostic = (let p = (\<lambda>c. is_lower c \<or> is_dec c \<or> c \<in> set '':_-'') in Seq (Sym p) (Upto 99 (Sym p)))"

definition check_action :: "image_refs \<Rightarrow> mrequest \<Rightarrow> unit res" where
  "check_action R q =
     (if mq_action q = ''observe'' \<or> mq_action q = ''join-profile'' then Inr ()
      else if mq_action q = ''enroll'' then
        (if mq_expected q = None then Inl (Err ''enrollment baseline required'') else Inr ())
      else if mq_action q = ''stage'' \<or> mq_action q = ''apply'' then
        (if \<not> matches hex64 (mq_operation_id q) \<or> mq_expected q = None \<or>
            (mq_operation q \<noteq> ''deploy'' \<and> mq_operation q \<noteq> ''upgrade'')
           then Inl (Err ''reviewed operation required'')
         else if list_all (\<lambda>(c, pin). mget (mt_containers (mq_target q)) c \<noteq> [] \<and> valid_pin R pin) (sorted_list_of_fmap (mq_pins q))
           then Inr () else Inl (Err ''unexpected component/image''))
      else Inl (Err ''unsupported managed action''))"

definition check_request :: "hasher \<Rightarrow> image_refs \<Rightarrow> bool \<Rightarrow> bool \<Rightarrow> mrequest \<Rightarrow> unit res" where
  "check_request H R ssh deadline q =
     (if \<not> ssh then Inl (Err ''authenticated transport required'')
      else if \<not> deadline then Inl (Err ''deadline required'')
      else after (validate_fleet (mq_fleet q)) (\<lambda>_.
        if mq_id q \<noteq> authority H (mq_fleet q) then Inl (Err ''fleet ID mismatch'')
        else if \<not> list_ex (\<lambda>t. H (mtarget_json t) = H (mtarget_json (mq_target q))) (fl_targets (mq_fleet q))
          then Inl (Err ''target outside fleet'')
        else check_action R q))"

definition managed_command :: "string \<Rightarrow> fleet \<Rightarrow> string" where
  "managed_command packed f = (let c = ''/usr/bin/env -i PATH=/usr/sbin:/usr/bin:/sbin:/bin HOME=/root /usr/bin/python3 -c '' @
       [CHR 0x22] @ ''import base64,zlib;exec(zlib.decompress(base64.b64decode('' @ [CHR 0x27] @ packed @ [CHR 0x27] @ '')))'' @ [CHR 0x22]
     in if ac_user (fl_access f) \<noteq> ''root'' then ''sudo -n -- '' @ c else c)"

definition managed_endpoint :: "mrequest \<Rightarrow> string \<times> int \<times> string" where
  "managed_endpoint q = (mt_address (mq_target q), ac_port (fl_access (mq_fleet q)),
     mt_id (mq_target q) @ ''.'' @ fl_region (mq_fleet q) @ ''.'' @ fl_account (mq_fleet q) @ ''.dashnet'')"

definition read_reply :: "mrequest \<Rightarrow> gerr option \<Rightarrow> observation option \<Rightarrow> observation res" where
  "read_reply q run_error out = (case run_error of
     Some e \<Rightarrow> (case out of
         Some b \<Rightarrow> if matches diagnostic (ob_error b) then Inl (At (''node '' @ ob_error b) e) else Inl e
       | None \<Rightarrow> Inl e)
   | None \<Rightarrow> (case out of None \<Rightarrow> Inl (Err ''invalid managed response; raw output withheld'')
       | Some b \<Rightarrow> if ob_error b \<noteq> [] \<or> ob_id b \<noteq> mt_id (mq_target q)
           then Inl (Err ''invalid managed response; raw output withheld'') else Inr b))"

definition managed_call :: "hasher \<Rightarrow> image_refs \<Rightarrow> string \<Rightarrow> bool \<Rightarrow> bool \<Rightarrow>
    (string \<times> int \<times> string \<Rightarrow> string \<Rightarrow> mrequest \<Rightarrow> gerr option \<times> observation option) \<Rightarrow> mrequest \<Rightarrow> observation res" where
  "managed_call H R packed ssh deadline run q = after (check_request H R ssh deadline q) (\<lambda>_.
     case run (managed_endpoint q) (managed_command packed (mq_fleet q)) q of (e, out) \<Rightarrow> read_reply q e out)"

section \<open>Observing\<close>

definition unavailable :: "mtarget \<Rightarrow> gotime \<Rightarrow> gerr \<Rightarrow> observation" where
  "unavailable t t0 e = zero_observation\<lparr>ob_id := mt_id t, ob_at := t0, ob_error := safe_error e\<rparr>"

definition observe_target :: "hasher \<Rightarrow> fleet \<Rightarrow> int64 \<Rightarrow> mtarget \<Rightarrow> observation hoper" where
  "observe_target H f reference t =
     bnd (attempt (sq (hcall HSlot as_done)
       (hcall (HCall ((host_request H f t ''observe'')\<lparr>mq_reference := reference\<rparr>)) as_observed))) (\<lambda>res.
     case res of Inr b \<Rightarrow> ret b | Inl e \<Rightarrow> bnd now (\<lambda>t'. ret (unavailable t t' e)))"

fun observe_targets :: "hasher \<Rightarrow> fleet \<Rightarrow> int64 \<Rightarrow> mtarget list \<Rightarrow> (string, observation) fmap \<Rightarrow>
    (string, observation) fmap hoper" where
  "observe_targets H f reference [] m = ret m"
| "observe_targets H f reference (t # ts) m =
     bnd (observe_target H f reference t) (\<lambda>b. observe_targets H f reference ts (fmupd (mt_name t) b m))"

definition signed_snapshot :: "hasher \<Rightarrow> snapshot \<Rightarrow> snapshot" where
  "signed_snapshot H s = s\<lparr>ss_id := H (snapshot_json (s\<lparr>ss_id := []\<rparr>))\<rparr>"

definition observe :: "hasher \<Rightarrow> fleet \<Rightarrow> int64 \<Rightarrow> snapshot hoper" where
  "observe H f reference = bnd now (\<lambda>t.
     bnd (observe_targets H f reference (fl_targets f) fmempty) (\<lambda>m.
     ret (signed_snapshot H \<lparr>ss_api = api_version, ss_kind = ''ExistingSnapshot'', ss_id = [], ss_fleet = f, ss_at = t, ss_nodes = m\<rparr>)))"

section \<open>Health of one node\<close>

definition starting_status :: "string list \<Rightarrow> string option" where
  "starting_status ps = (case List.map_filter (\<lambda>p. cut_prefix p ''core-starting: '') ps of [] \<Rightarrow> None | s # _ \<Rightarrow> Some s)"

definition workload_problem :: "observation \<Rightarrow> string \<Rightarrow> gerr option" where
  "workload_problem b c = (case fmlookup (ob_components b) c of None \<Rightarrow> Some (Err ''missing workload observation'')
     | Some v \<Rightarrow> if ct_running v then None else Some (Err ''service not running''))"

definition healthy :: "mtarget \<Rightarrow> observation \<Rightarrow> unit res" where
  "healthy t b = (let c = ob_chain b in
     case (if ob_error b = [] then starting_status (ob_problems b) else None) of
       Some s \<Rightarrow> Inl (Err (''Core starting ('' @ s @ '')''))
     | None \<Rightarrow>
     if ob_error b \<noteq> [] \<or> ob_problems b \<noteq> [] then Inl (Err ''observation incomplete'')
     else if ob_id b \<noteq> mt_id t \<or> fcard (fmdom (ob_components b)) \<noteq> fcard (fmdom (mt_containers t))
       then Inl (Err ''missing workload observation'')
     else case List.map_filter (workload_problem b) (map fst (sorted_list_of_fmap (mt_containers t))) of
       e # _ \<Rightarrow> Inl e
     | [] \<Rightarrow>
     if mget (mt_containers t) ''core'' \<noteq> [] \<and> (\<not> mc_synced c \<or> sint (mc_lock c) \<le> 0)
       then Inl (Err ''Core not synced/ChainLocked'')
     else if mt_role t = ''masternode'' \<and> mc_state c \<noteq> ''READY'' then Inl (Err ''masternode not ready'')
     else if mt_role t = ''validator'' \<and> (mc_state c \<noteq> ''READY'' \<or> mc_catching c \<or> \<not> mc_dapi c \<or>
         sint (mc_platform_height c) < 1 \<or> sint (mc_dapi_height c) < 1)
       then Inl (Err ''validator/consensus/DAPI unhealthy'')
     else Inr ())"

definition same_identity :: "observation \<Rightarrow> observation \<Rightarrow> mtarget \<Rightarrow> bool" where
  "same_identity old new t = (let a = ob_chain old; b = ob_chain new in
     if ob_files old \<noteq> ob_files new then False
     else if mget (mt_containers t) ''core'' \<noteq> [] \<and> (mc_genesis a \<noteq> mc_genesis b \<or> mc_network a \<noteq> mc_network b) then False
     else if mt_role t = ''validator'' \<and> (mc_platform a \<noteq> mc_platform b \<or> mc_node a \<noteq> mc_node b \<or>
         mc_protx a \<noteq> mc_protx b \<or> mc_protocol a \<noteq> mc_protocol b) then False
     else True)"

section \<open>The health check\<close>

record node_health =
  nh_healthy :: bool
  nh_status :: string
  nh_problems :: "string list"

record health =
  he_nodes :: "(string, node_health) fmap"
  he_healthy :: bool
  he_at :: gotime
  he_window :: gotime \<comment> \<open>the code keeps its text\<close>
  he_problems :: "string list"
  he_snapshot :: snapshot

definition idle_extensions :: nat where "idle_extensions = 3"

definition lagging_core :: "fleet \<Rightarrow> snapshot \<Rightarrow> snapshot \<Rightarrow> string list \<Rightarrow> mtarget list" where
  "lagging_core f first later focus = filter (\<lambda>t. let a = seen_at (ss_nodes first) (mt_name t);
       b = seen_at (ss_nodes later) (mt_name t) in
     (focus = [] \<or> mt_name t \<in> set focus) \<and>
     \<not> (mget (mt_containers t) ''core'' = [] \<or> ob_error a \<noteq> [] \<or> ob_error b \<noteq> [] \<or>
       sint (mc_height (ob_chain a)) \<le> 0 \<or> sint (mc_height (ob_chain b)) \<le> 0) \<and>
     sint (mc_height (ob_chain b)) \<le> sint (mc_height (ob_chain a))) (fl_targets f)"

text \<open>The lowest positive Platform height of the first sample.\<close>

definition lowest_platform :: "snapshot \<Rightarrow> int64" where
  "lowest_platform first = foldl (\<lambda>ref t. let n = mc_platform_height (ob_chain (seen_at (ss_nodes first) (mt_name t))) in
     if mt_role t = ''validator'' \<and> sint n > 0 \<and> (ref = 0 \<or> sint n < sint ref) then n else ref) 0
     (fl_targets (ss_fleet first))"

text \<open>The extensions; \<open>n\<close> counts the rounds left, \<open>deadline\<close> is that of the context.\<close>

fun extend :: "hasher \<Rightarrow> fleet \<Rightarrow> gotime option \<Rightarrow> gotime \<Rightarrow> gotime \<Rightarrow> int64 \<Rightarrow> string list \<Rightarrow> snapshot \<Rightarrow> nat \<Rightarrow>
    snapshot \<Rightarrow> snapshot hoper" where
  "extend H f deadline window sweep reference focus first 0 later = ret later"
| "extend H f deadline window sweep reference focus first (Suc n) later =
     (let lagging = lagging_core f first later focus in
      if lagging = [] then ret later
      else bnd now (\<lambda>t.
        if (case deadline of None \<Rightarrow> False | Some d \<Rightarrow> d - t < window + sweep) then ret later
        else bnd (attempt (hcall (HWait window) as_done)) (\<lambda>r. case r of Inl _ \<Rightarrow> ret later
          | Inr _ \<Rightarrow> bnd (observe_targets H f reference lagging (ss_nodes later)) (\<lambda>m.
              extend H f deadline window sweep reference focus first n (signed_snapshot H (later\<lparr>ss_nodes := m\<rparr>))))))"

definition disagreement :: string where
  "disagreement = ''consensus block disagreement''"

text \<open>The problems of one target that both samples reached; \<open>block\<close> is the reference hash so far.\<close>

definition target_problems :: "snapshot \<Rightarrow> string \<Rightarrow> mtarget \<Rightarrow> observation \<Rightarrow> observation \<Rightarrow> string list" where
  "target_problems base block t a b = (let x = mt_name t; old = seen_at (ss_nodes base) x; c = ob_chain a; d = ob_chain b in
     (case healthy t a of Inl e \<Rightarrow> [x @ '': first '' @ error_text e] | Inr _ \<Rightarrow> []) @
     (case healthy t b of Inl e \<Rightarrow> [x @ '': '' @ error_text e] | Inr _ \<Rightarrow> []) @
     (if ob_error old = [] \<and> ob_files old \<noteq> [] \<and> \<not> same_identity old b t
        then [x @ '': identity/configuration/protocol changed''] else []) @
     (if mget (mt_containers t) ''core'' \<noteq> [] \<and> (sint (mc_height d) \<le> sint (mc_height c) \<or> sint (mc_lock d) < sint (mc_lock c))
        then [x @ '': Core not advancing''] else []) @
     (if mt_role t \<noteq> ''validator'' then [] else
       (if sint (mc_platform_height d) \<le> sint (mc_platform_height c) \<or> sint (mc_dapi_height d) < sint (mc_dapi_height c) \<or>
           sint (mc_dapi_height d) > sint (mc_platform_height d + 5) \<or> sint (mc_dapi_height d + 5) < sint (mc_platform_height d)
          then [x @ '': Platform not advancing''] else []) @
       (if \<not> matches hex64 (mc_platform_hash d) \<or> (block \<noteq> [] \<and> block \<noteq> mc_platform_hash d)
          then [x @ '': '' @ disagreement] else [])))"

text \<open>One round of the assessment: the nodes, the problems and the block hash so far.\<close>

definition assess_target :: "snapshot \<Rightarrow> snapshot \<Rightarrow> snapshot \<Rightarrow> (string, node_health) fmap \<times> string list \<times> string \<Rightarrow> mtarget \<Rightarrow>
    (string, node_health) fmap \<times> string list \<times> string" where
  "assess_target base first later st t = (let (nodes, problems, block) = st; x = mt_name t;
       a = seen_at (ss_nodes first) x; b = seen_at (ss_nodes later) x in
     if ob_error a \<noteq> [] \<or> ob_error b \<noteq> [] then
       (fmupd x \<lparr>nh_healthy = False, nh_status = ''unknown'', nh_problems = [''Observation unavailable'']\<rparr> nodes,
        problems @ [x @ '': observation unavailable''], block)
     else let ps = target_problems base block t a b in
       (fmupd x \<lparr>nh_healthy = (ps = []), nh_status = (if ps = [] then ''healthy'' else ''degraded''), nh_problems = ps\<rparr> nodes,
        problems @ ps, if mt_role t = ''validator'' then mc_platform_hash (ob_chain b) else block))"

text \<open>A disagreement degrades every validator that was observed.\<close>

definition zero_health :: node_health where
  "zero_health = \<lparr>nh_healthy = False, nh_status = [], nh_problems = []\<rparr>"

definition degrade_target :: "(string, node_health) fmap \<Rightarrow> mtarget \<Rightarrow> (string, node_health) fmap" where
  "degrade_target nodes t = (let n = at_or zero_health nodes (mt_name t) in
     if mt_role t = ''validator'' \<and> nh_status n \<noteq> ''unknown''
     then fmupd (mt_name t) \<lparr>nh_healthy = False, nh_status = ''degraded'', nh_problems = nh_problems n @ [disagreement]\<rparr> nodes
     else nodes)"

definition assess :: "snapshot \<Rightarrow> snapshot \<Rightarrow> snapshot \<Rightarrow> gotime \<Rightarrow> gotime \<Rightarrow> health" where
  "assess base first later window t = (let ts = fl_targets (ss_fleet base);
       (nodes, problems, _) = foldl (assess_target base first later) (fmempty, [], []) ts;
       nodes' = (if list_ex (\<lambda>p. contains_text p disagreement) problems then foldl degrade_target nodes ts else nodes)
     in \<lparr>he_nodes = nodes', he_healthy = (problems = []), he_at = t, he_window = window, he_problems = problems,
         he_snapshot = later\<rparr>)"

definition doctor :: "hasher \<Rightarrow> gotime option \<Rightarrow> snapshot \<Rightarrow> gotime \<Rightarrow> string list \<Rightarrow> health hoper" where
  "doctor H deadline s window focus =
     bnd (lift (validate_snapshot H s)) (\<lambda>_.
     sq (reject_if (window \<le> 0) (Err ''positive observation window required''))
     (bnd now (\<lambda>started.
     bnd (observe H (ss_fleet s) 0) (\<lambda>first.
     bnd now (\<lambda>swept.
     sq (hcall (HWait window) as_done)
     (bnd (observe H (ss_fleet s) (lowest_platform first)) (\<lambda>later.
     bnd (extend H (ss_fleet s) deadline window (swept - started) (lowest_platform first) focus first idle_extensions later) (\<lambda>last.
     bnd now (\<lambda>t. ret (assess s first last window t))))))))))"

definition doctor_all :: "hasher \<Rightarrow> gotime option \<Rightarrow> snapshot \<Rightarrow> gotime \<Rightarrow> health hoper" where
  "doctor_all H deadline s window = doctor H deadline s window []"

section \<open>Withdrawing a validator\<close>

definition healthy_voters :: "snapshot \<Rightarrow> mtarget \<Rightarrow> string set" where
  "healthy_voters s target = (\<lambda>t. to_lower (mc_protx (ob_chain (seen_at (ss_nodes s) (mt_name t))))) `
     set (filter (\<lambda>t. mt_role t = ''validator'' \<and> mt_name t \<noteq> mt_name target \<and>
       healthy t (seen_at (ss_nodes s) (mt_name t)) = Inr ()) (fl_targets (ss_fleet s)))"

definition good_power :: "string \<times> int64 \<Rightarrow> bool" where
  "good_power p \<longleftrightarrow> matches hex64 (fst p) \<and> \<not> sint (snd p) \<le> 0 \<and> \<not> sint (snd p) > 1000000000"

definition power_sums :: "string set \<Rightarrow> (string \<times> int64) list \<Rightarrow> int64 \<times> int64" where
  "power_sums voters ps = foldl (\<lambda>(everyone, left) (i, power).
     (everyone + power, if i \<in> voters then left + power else left)) (0, 0) ps"

definition check_quorum :: "snapshot \<Rightarrow> string set \<Rightarrow> mtarget \<Rightarrow> unit res" where
  "check_quorum s voters t = (let powers = sorted_list_of_fmap (mc_power (ob_chain (seen_at (ss_nodes s) (mt_name t)))) in
     if mt_role t \<noteq> ''validator'' then Inr ()
     else if powers = [] then Inl (Err ''quorum membership unavailable'')
     else if \<not> list_all good_power powers then Inl (Err ''invalid quorum power'')
     else case power_sums voters powers of (everyone, left) \<Rightarrow>
       if sint left \<le> sint (2 * everyone) sdiv 3
       then Inl (Err ''withdrawing lacks observed >2/3 voting power'') else Inr ())"

definition can_withdraw :: "snapshot \<Rightarrow> mtarget \<Rightarrow> unit res" where
  "can_withdraw s target = (if mt_role target \<noteq> ''validator'' then Inr ()
     else each_ok (check_quorum s (healthy_voters s target)) (fl_targets (ss_fleet s)))"

section \<open>Preservation\<close>

definition native_preserved :: "hasher \<Rightarrow> (string, string) fmap \<Rightarrow> (string, string) fmap \<Rightarrow> string list \<Rightarrow> bool" where
  "native_preserved H base current sel = (let keep = fmfilter (\<lambda>k. \<not> (''core'' \<in> set sel \<and> has_prefix k ''dashd:'')) in
     H (jmap (keep base)) = H (jmap (keep current)))"

definition preserved :: "hasher \<Rightarrow> observation \<Rightarrow> observation \<Rightarrow> string list \<Rightarrow> unit res" where
  "preserved H base current sel =
     (if ob_files base \<noteq> ob_files current \<or>
         H (jmap_of container_json (ob_companions base)) \<noteq> H (jmap_of container_json (ob_companions current)) \<or>
         \<not> native_preserved H (ob_native base) (ob_native current) sel
        then Inl (Err ''configuration/companion drift'')
      else each_ok (\<lambda>(c, b). case fmlookup (ob_components current) c of
          None \<Rightarrow> Inl (Err ''workload configuration drift'')
        | Some a \<Rightarrow> if ct_config a \<noteq> ct_config b then Inl (Err ''workload configuration drift'')
            else if c \<notin> set sel \<and> H (container_json a) \<noteq> H (container_json b) then Inl (Err ''unselected workload changed'')
            else Inr ()) (sorted_list_of_fmap (ob_components base)))"

end
