(* ===== verification/Managed_Gate.thy ===== *)
theory Managed_Gate
  imports Managed_Health
begin

text \<open>
  What the gates of a managed rollout decide: the withdrawal gate counts the voting power exactly (its
  64-bit sums do not wrap), and a health check that passes certifies both samples of every target.
\<close>

section \<open>Sums of voting power\<close>

lemma two_powers: "(2::int) ^ 63 = 9223372036854775808" "(2::int) ^ 62 = 4611686018427387904"
  by simp_all

lemma sint_add_exact:
  fixes a b :: int64
  assumes "0 \<le> sint a" "0 \<le> sint b" "sint a + sint b < 2 ^ 63"
  shows "sint (a + b) = sint a + sint b"
proof -
  have "sint (word_of_int (sint a + sint b) :: int64) = signed_take_bit 63 (sint a + sint b)"
    by (simp only: sint_sbintrunc') simp
  then show ?thesis using assms by (simp add: signed_take_bit_int_eq_self)
qed

definition power_of :: "string set \<Rightarrow> (string \<times> int64) list \<Rightarrow> int" where
  "power_of V ps = (\<Sum>(i, p) \<leftarrow> ps. if i \<in> V then sint p else 0)"

lemma power_of_bounds:
  assumes "list_all good_power ps"
  shows "0 \<le> power_of V ps \<and> power_of V ps \<le> power_of UNIV ps \<and> power_of UNIV ps \<le> int (length ps) * 1000000000"
  using assms by (induction ps) (auto simp: power_of_def good_power_def)

lemma power_sums_exact:
  assumes "list_all good_power ps" and "length ps \<le> 2 ^ 32"
  shows "sint (fst (power_sums V ps)) = power_of UNIV ps \<and> sint (snd (power_sums V ps)) = power_of V ps"
  using assms
proof (induction ps rule: rev_induct)
  case Nil
  then show ?case by (simp add: power_sums_def power_of_def)
next
  case (snoc q ps)
  obtain i p where q: "q = (i, p)" by fastforce
  have g0: "list_all good_power ps" "good_power (i, p)" using snoc.prems(1) by (simp_all add: q)
  then have g: "list_all good_power ps" "0 < sint p" "sint p \<le> 1000000000" "length ps < 2 ^ 32"
    using snoc.prems(2) by (auto simp: good_power_def [of "(i, p)"])
  have IH: "sint (fst (power_sums V ps)) = power_of UNIV ps" "sint (snd (power_sums V ps)) = power_of V ps"
    using snoc.IH g by auto
  have "int (length ps) \<le> 4294967296" using g(4) by simp
  then have b: "power_of UNIV ps + sint p < 2 ^ 63" "power_of V ps + sint p < 2 ^ 63" "0 \<le> power_of V ps" "0 \<le> power_of UNIV ps"
    using power_of_bounds [OF g(1), of V] power_of_bounds [OF g(1), of UNIV] g(3) unfolding two_powers
    by (auto intro: order_trans)
  obtain T L where TL: "power_sums V ps = (T, L)" by fastforce
  have s: "power_sums V (ps @ [q]) = (T + p, if i \<in> V then L + p else L)"
    using TL by (simp add: power_sums_def q)
  have e: "sint T = power_of UNIV ps" "sint L = power_of V ps" using IH TL by simp_all
  have "sint (T + p) = sint T + sint p" "sint (L + p) = sint L + sint p"
    using sint_add_exact [of T p] sint_add_exact [of L p] b g(2) by (simp_all add: e)
  then show ?case using e unfolding s by (simp add: power_of_def q)
qed

lemma sint_double:
  fixes a :: int64
  assumes "0 \<le> sint a" "sint a < 2 ^ 62"
  shows "sint (2 * a) = 2 * sint a"
proof -
  have "sint a + sint a < 2 ^ 63" using assms(2) by (simp add: two_powers)
  then show ?thesis using sint_add_exact [OF assms(1,1)] by (simp only: mult_2)
qed

lemma check_quorum_exact:
  assumes "mt_role t = ''validator''" and "ps = sorted_list_of_fmap (mc_power (ob_chain (seen_at (ss_nodes s) (mt_name t))))"
    and "length ps \<le> 2 ^ 32"
  shows "check_quorum s V t = Inr () \<longleftrightarrow> ps \<noteq> [] \<and> list_all good_power ps \<and> 2 * power_of UNIV ps < 3 * power_of V ps"
proof (cases "ps \<noteq> [] \<and> list_all good_power ps")
  case False
  then show ?thesis using assms(1,2) by (auto simp: check_quorum_def Let_def)
next
  case True
  obtain T L where TL: "power_sums V ps = (T, L)" by fastforce
  have e: "sint T = power_of UNIV ps" "sint L = power_of V ps"
    using power_sums_exact [of ps V] True assms(3) TL by auto
  have "int (length ps) \<le> 2 ^ 32" using assms(3) by simp
  then have b: "0 \<le> power_of UNIV ps" "power_of UNIV ps < 2 ^ 62"
    using power_of_bounds [of ps V] True by (auto intro: order_trans le_less_trans)
  have d: "sint (2 * T) sdiv 3 = (2 * power_of UNIV ps) div 3"
    using sint_double [of T] b e by (simp add: signed_divide_int_def sgn_if)
  have "check_quorum s V t = Inr () \<longleftrightarrow> \<not> sint L \<le> sint (2 * T) sdiv 3"
    using assms(1,2) True TL by (auto simp: check_quorum_def Let_def)
  moreover have "x \<le> (2 * y) div 3 \<longleftrightarrow> \<not> 2 * y < 3 * x" for x y :: int by presburger
  ultimately show ?thesis using True e d by simp
qed

text \<open>C18: The gate before withdrawing a validator decides exactly the two-thirds rule: with maps of at
  most \<open>2^32\<close> members, withdrawal is allowed if and only if every validator of the fleet reported a
  quorum of known, bounded powers in which the validators of the fleet that stay and are observed
  healthy hold more than two thirds of the total, computed without wrap-around or rounding.\<close>

theorem withdrawal_keeps_quorum:
  assumes "mt_role target = ''validator''"
    and "powers = (\<lambda>u. sorted_list_of_fmap (mc_power (ob_chain (seen_at (ss_nodes s) (mt_name u)))))"
    and "\<forall>u \<in> set (fl_targets (ss_fleet s)). length (powers u) \<le> 2 ^ 32"
  shows "can_withdraw s target = Inr () \<longleftrightarrow>
    (\<forall>u \<in> set (fl_targets (ss_fleet s)). mt_role u = ''validator'' \<longrightarrow> powers u \<noteq> [] \<and>
       (\<forall>(i, p) \<in> set (powers u). matches hex64 i \<and> 0 < sint p \<and> sint p \<le> 1000000000) \<and>
       2 * (\<Sum>(i, p) \<leftarrow> powers u. sint p) <
         3 * (\<Sum>(i, p) \<leftarrow> powers u. if i \<in> healthy_voters s target then sint p else 0))"
proof -
  have one: "check_quorum s (healthy_voters s target) u = Inr () \<longleftrightarrow> (mt_role u = ''validator'' \<longrightarrow> powers u \<noteq> [] \<and>
       (\<forall>(i, p) \<in> set (powers u). matches hex64 i \<and> 0 < sint p \<and> sint p \<le> 1000000000) \<and>
       2 * (\<Sum>(i, p) \<leftarrow> powers u. sint p) <
         3 * (\<Sum>(i, p) \<leftarrow> powers u. if i \<in> healthy_voters s target then sint p else 0))"
    if u: "u \<in> set (fl_targets (ss_fleet s))" for u
  proof (cases "mt_role u = ''validator''")
    case True
    have g: "list_all good_power (powers u) \<longleftrightarrow> (\<forall>(i, p) \<in> set (powers u). matches hex64 i \<and> 0 < sint p \<and> sint p \<le> 1000000000)"
      by (auto simp: list_all_iff good_power_def)
    show ?thesis
      using check_quorum_exact [OF True, of "powers u" s "healthy_voters s target"] assms(2,3) u True
      unfolding g [symmetric] by (simp add: power_of_def)
  next
    case False
    then show ?thesis by (simp add: check_quorum_def Let_def)
  qed
  show ?thesis using one assms(1) by (simp add: can_withdraw_def each_ok_iff)
qed

section \<open>What a passed health check says\<close>

definition both_clean :: "snapshot \<Rightarrow> snapshot \<Rightarrow> snapshot \<Rightarrow> string \<Rightarrow> mtarget \<Rightarrow> bool" where
  "both_clean base first later block t \<longleftrightarrow> (let a = seen_at (ss_nodes first) (mt_name t); b = seen_at (ss_nodes later) (mt_name t) in
     ob_error a = [] \<and> ob_error b = [] \<and> target_problems base block t a b = [])"

lemma assess_step:
  assumes "assess_target base first later (nodes, problems, block) t = (nodes', problems', block')"
  shows "(\<exists>n. nodes' = fmupd (mt_name t) n nodes \<and> (nh_healthy n \<longleftrightarrow> both_clean base first later block t)) \<and>
    (\<exists>more. problems' = problems @ more \<and> (more = [] \<longleftrightarrow> both_clean base first later block t)) \<and>
    (both_clean base first later block t \<longrightarrow>
       block' = (if mt_role t = ''validator'' then mc_platform_hash (ob_chain (seen_at (ss_nodes later) (mt_name t))) else block))"
  using assms by (auto simp: assess_target_def both_clean_def Let_def split: if_splits)

definition progressed :: "snapshot \<Rightarrow> mtarget \<Rightarrow> observation \<Rightarrow> observation \<Rightarrow> bool" where
  "progressed base t a b \<longleftrightarrow> (let old = seen_at (ss_nodes base) (mt_name t); c = ob_chain a; d = ob_chain b in
     healthy t a = Inr () \<and> healthy t b = Inr () \<and>
     (ob_error old = [] \<and> ob_files old \<noteq> [] \<longrightarrow> same_identity old b t) \<and>
     (mget (mt_containers t) ''core'' \<noteq> [] \<longrightarrow> sint (mc_height c) < sint (mc_height d) \<and> sint (mc_lock c) \<le> sint (mc_lock d)) \<and>
     (mt_role t = ''validator'' \<longrightarrow> sint (mc_platform_height c) < sint (mc_platform_height d) \<and>
        sint (mc_dapi_height c) \<le> sint (mc_dapi_height d) \<and> matches hex64 (mc_platform_hash d)))"

lemma target_problems_none:
  assumes "target_problems base block t a b = []"
  shows "progressed base t a b \<and>
    (mt_role t = ''validator'' \<longrightarrow> block = [] \<or> block = mc_platform_hash (ob_chain b))"
  using assms by (auto simp: target_problems_def progressed_def Let_def split: if_splits sum.splits)

lemma assess_fold:
  assumes "foldl (assess_target base first later) (nodes0, [], []) ts = (nodes, problems, block)"
  shows "(\<forall>t \<in> set ts. distinct (map mt_name ts) \<longrightarrow> (\<exists>n blk. fmlookup nodes (mt_name t) = Some n \<and>
      (nh_healthy n \<longleftrightarrow> both_clean base first later blk t))) \<and>
    (problems = [] \<longrightarrow> (\<forall>t \<in> set ts. \<exists>blk. both_clean base first later blk t) \<and>
      (\<forall>t \<in> set ts. mt_role t = ''validator'' \<longrightarrow> mc_platform_hash (ob_chain (seen_at (ss_nodes later) (mt_name t))) = block \<and> block \<noteq> []) \<and>
      ((\<forall>t \<in> set ts. mt_role t \<noteq> ''validator'') \<longrightarrow> block = []))"
  using assms
proof (induction ts arbitrary: nodes problems block rule: rev_induct)
  case Nil
  then show ?case by simp
next
  case (snoc t ts)
  obtain n1 p1 b1 where s1: "foldl (assess_target base first later) (nodes0, [], []) ts = (n1, p1, b1)"
    by (metis prod_cases3)
  have st: "assess_target base first later (n1, p1, b1) t = (nodes, problems, block)"
    using snoc.prems s1 by simp
  note step = assess_step [OF st]
  note IH = snoc.IH [OF s1]
  let ?h = "\<lambda>t. mc_platform_hash (ob_chain (seen_at (ss_nodes later) (mt_name t)))"
  have A: "\<exists>n blk. fmlookup nodes (mt_name u) = Some n \<and> (nh_healthy n \<longleftrightarrow> both_clean base first later blk u)"
    if u: "u \<in> set (ts @ [t])" and d: "distinct (map mt_name (ts @ [t]))" for u
  proof (cases "u = t")
    case True
    then show ?thesis using step by auto
  next
    case False
    then have u': "u \<in> set ts" using u by simp
    then have "mt_name u \<noteq> mt_name t" using d by (auto simp: rev_image_eqI)
    then show ?thesis using step IH u' d by fastforce
  qed
  have B: "(\<forall>u \<in> set (ts @ [t]). \<exists>blk. both_clean base first later blk u) \<and>
      (\<forall>u \<in> set (ts @ [t]). mt_role u = ''validator'' \<longrightarrow> ?h u = block \<and> block \<noteq> []) \<and>
      ((\<forall>u \<in> set (ts @ [t]). mt_role u \<noteq> ''validator'') \<longrightarrow> block = [])" if p: "problems = []"
  proof -
    have c: "both_clean base first later b1 t" "p1 = []" using step p by auto
    have tp: "target_problems base b1 t (seen_at (ss_nodes first) (mt_name t)) (seen_at (ss_nodes later) (mt_name t)) = []"
      using c(1) by (simp add: both_clean_def Let_def)
    note none = target_problems_none [OF tp]
    have ne: "?h t \<noteq> []" if "mt_role t = ''validator''"
      using none that by (auto simp: progressed_def Let_def hex64_iff)
    show ?thesis
    proof (cases "mt_role t = ''validator''")
      case True
      then have "block = ?h t" using step c(1) by simp
      moreover have "?h u = ?h t" if "u \<in> set ts" "mt_role u = ''validator''" for u
        using IH c(2) that none True by auto
      ultimately show ?thesis using IH c True ne by auto
    next
      case False
      then have "block = b1" using step c(1) by simp
      then show ?thesis using IH c False by auto
    qed
  qed
  show ?case using A B by blast
qed

lemma degrade_only:
  "nh_healthy (at_or zero_health (foldl degrade_target nodes ts) x) \<Longrightarrow> nh_healthy (at_or zero_health nodes x)"
  by (induction ts rule: rev_induct) (auto simp: degrade_target_def at_or_def Let_def zero_health_def split: if_splits option.splits)

text \<open>Where the entries of a sample come from: the answer of the host, or a failed call.\<close>

definition witnessed :: "(hreq, hreply) hist \<Rightarrow> (string, observation) fmap \<Rightarrow> bool" where
  "witnessed h m \<longleftrightarrow> (\<forall>x b. fmlookup m x = Some b \<longrightarrow> ob_components b = fmempty \<or>
     (\<exists>q. (HCall q, AObserved (Inr b)) \<in> set h \<and> mt_name (mq_target q) = x \<and> mq_action q = ''observe''))"

lemma witnessed_Cons: "witnessed h m \<Longrightarrow> witnessed (z # h) m"
  unfolding witnessed_def by (metis list.set_intros(2))

lemma wp_hcall:
  "wp (hcall q f) Q E w = (let a = answer (env w) (hist w) q; w' = w\<lparr>hist := (q, a) # hist w\<rparr> in
     case f a of Inr x \<Rightarrow> Q x w' | Inl e \<Rightarrow> E e w')"
  by (simp add: hcall_def wp_bnd wp_ask wp_lift Let_def)

lemma as_observed_Inr: "as_observed a = Inr b \<Longrightarrow> a = AObserved (Inr b)"
  by (cases a) (auto simp: strange_def)

lemma wp_observe_target:
  assumes "witnessed (hist w) m"
  shows "wp (observe_target H f reference t) (\<lambda>b w'. witnessed (hist w') (fmupd (mt_name t) b m)) (\<lambda>_ _. True) w"
proof -
  have a: "witnessed ((HCall q, AObserved (Inr b)) # h) (fmupd (mt_name t) b m)"
    if "witnessed h m" "mt_name (mq_target q) = mt_name t" "mq_action q = ''observe''" for b q h
    using that by (auto simp: witnessed_def)
  have u: "witnessed h (fmupd (mt_name t) (unavailable t t0 e) m)" if "witnessed h m" for h e t0
    using that by (auto simp: witnessed_def unavailable_def zero_observation_def)
  have hs: "witnessed (z # hist w) m" "witnessed (z # y # hist w) m" for y z
    by (intro witnessed_Cons assms)+
  show ?thesis
    unfolding observe_target_def
    by (auto simp: wp_bnd wp_attempt wp_sq wp_hcall wp_now wp_ret Let_def host_request_def split: sum.splits
        dest!: as_observed_Inr intro!: a u hs)
qed

lemma wp_observe_targets:
  assumes "witnessed (hist w) m"
  shows "wp (observe_targets H f reference ts m) (\<lambda>m' w'. witnessed (hist w') m') (\<lambda>_ _. True) w"
  using assms
proof (induction ts arbitrary: m w)
  case Nil
  then show ?case by (simp add: wp_ret)
next
  case (Cons t ts)
  show ?case
    by (simp add: wp_bnd) (rule wp_conseq [OF wp_observe_target [OF Cons.prems]], auto intro: Cons.IH)
qed

lemma wp_observe:
  "wp (observe H f reference) (\<lambda>s w'. witnessed (hist w') (ss_nodes s) \<and> ss_fleet s = f) (\<lambda>_ _. True) w"
  unfolding observe_def
  by (simp add: wp_bnd wp_now) (rule wp_conseq [OF wp_observe_targets],
    auto simp: wp_ret signed_snapshot_def witnessed_def)

lemma keeps_hcall: "(\<And>w. I w \<Longrightarrow> I (w\<lparr>hist := (q, answer (env w) (hist w) q) # hist w\<rparr>)) \<Longrightarrow> keeps I (hcall q f)"
  by (intro wp_keeps) (auto simp: wp_hcall Let_def split: sum.splits)

text \<open>The exchanges that change nothing outside: reads of the cloud, observations and waits. An
  invariant that they keep is kept by every gate.\<close>

fun quiet :: "hreq \<Rightarrow> bool" where
  "quiet HIdentity = True"
| "quiet (HInstances ids tok) = True"
| "quiet HSlot = True"
| "quiet (HWait d) = True"
| "quiet (HCall q) = (mq_action q = ''observe'')"
| "quiet q = False"

lemma quiet_observe [simp]: "mq_action (host_request H f t a) = a" "mq_target (host_request H f t a) = t"
  by (simp_all add: host_request_def)

locale quiet_invariant =
  fixes I :: "mworld \<Rightarrow> bool"
  assumes quiet: "quiet q \<Longrightarrow> I w \<Longrightarrow> I (w\<lparr>hist := (q, a) # hist w\<rparr>)"
begin

lemma keeps_quiet: "quiet q \<Longrightarrow> keeps I (hcall q f)"
  by (rule keeps_hcall) (rule quiet)

lemma keeps_observe_targets: "keeps I (observe_targets H f reference ts m)"
  by (induction ts arbitrary: m) (auto simp: observe_target_def intro!: keeps_intros keeps_quiet)

lemma keeps_observe: "keeps I (observe H f reference)"
  unfolding observe_def by (intro keeps_intros keeps_observe_targets)

lemma keeps_extend: "keeps I (extend H f deadline window sweep reference focus first n later)"
proof (induction n arbitrary: later)
  case 0
  then show ?case by (simp add: keeps_ret)
next
  case (Suc n)
  show ?case unfolding extend.simps Let_def by (intro keeps_intros keeps_observe_targets keeps_quiet Suc) simp
qed

lemma keeps_doctor: "keeps I (doctor H deadline s window focus)"
  unfolding doctor_def by (intro keeps_intros keeps_observe keeps_extend keeps_quiet) simp

end

interpretation wit: quiet_invariant "\<lambda>w. witnessed (hist w) m" for m
  by unfold_locales (simp add: witnessed_Cons)

lemma wp_extend:
  assumes "witnessed (hist w) (ss_nodes later)" and "ss_fleet later = f"
  shows "wp (extend H f deadline window sweep reference focus first n later)
    (\<lambda>s w'. witnessed (hist w') (ss_nodes s) \<and> ss_fleet s = f) (\<lambda>_ _. True) w"
  using assms
proof (induction n arbitrary: later w)
  case 0
  then show ?case by (simp add: wp_ret)
next
  case (Suc n)
  have "wp (observe_targets H f reference ts (ss_nodes later)) (\<lambda>m. wp (extend H f deadline window sweep reference focus first n
      (signed_snapshot H (later\<lparr>ss_nodes := m\<rparr>))) (\<lambda>s w'. witnessed (hist w') (ss_nodes s) \<and> ss_fleet s = f) (\<lambda>_ _. True))
      (\<lambda>_ _. True) v" if "witnessed (hist v) (ss_nodes later)" for v ts
    by (rule wp_conseq [OF wp_observe_targets [OF that]]) (auto intro!: Suc.IH simp: signed_snapshot_def Suc.prems(2))
  then show ?case using Suc.prems
    by (simp add: Let_def wp_ret wp_bnd wp_now wp_attempt wp_hcall witnessed_Cons split: sum.splits)
qed

lemma wp_both:
  assumes "wp m Q E w" and "keeps I m" and "I w" and "\<And>a w'. Q a w' \<Longrightarrow> I w' \<Longrightarrow> Q' a w'"
  shows "wp m Q' (\<lambda>_ _. True) w"
  by (rule wp_conseq [OF wp_conj [OF assms(1) keeps_wp [OF assms(2,3)]]]) (auto intro: assms(4))

text \<open>The result of a health check: two samples of the fleet, assessed.\<close>

definition sampled :: "snapshot \<Rightarrow> gotime \<Rightarrow> health \<Rightarrow> (hreq, hreply) hist \<Rightarrow> bool" where
  "sampled s window h hs \<longleftrightarrow> (\<exists>first later t. h = assess s first later window t \<and>
     witnessed hs (ss_nodes first) \<and> witnessed hs (ss_nodes later))"

lemma wp_doctor:
  "wp (doctor H deadline s window focus)
     (\<lambda>h w'. validate_snapshot H s = Inr () \<and> sampled s window h (hist w')) (\<lambda>_ _. True) w"
proof -
  have d: "wp (bnd now (\<lambda>t. ret (assess s first last window t))) (\<lambda>h w'. sampled s window h (hist w')) (\<lambda>_ _. True) v"
    if "witnessed (hist v) (ss_nodes first)" "witnessed (hist v) (ss_nodes last)" for first last v
    using that by (auto simp: wp_bnd wp_now wp_ret sampled_def)
  have c: "wp (bnd (extend H (ss_fleet s) deadline window sweep reference focus first n later)
      (\<lambda>last. bnd now (\<lambda>t. ret (assess s first last window t)))) (\<lambda>h w'. sampled s window h (hist w')) (\<lambda>_ _. True) v"
    if "witnessed (hist v) (ss_nodes first)" "witnessed (hist v) (ss_nodes later)" "ss_fleet later = ss_fleet s"
    for sweep reference first n later v
    unfolding wp_bnd [of "extend H (ss_fleet s) deadline window sweep reference focus first n later"]
    by (rule wp_both [OF wp_extend [OF that(2,3)] wit.keeps_extend [where m = "ss_nodes first"]])
       (simp_all add: d that)
  have b: "wp (bnd (observe H (ss_fleet s) reference) (\<lambda>later. bnd (extend H (ss_fleet s) deadline window sweep r2 focus first n later)
      (\<lambda>last. bnd now (\<lambda>t. ret (assess s first last window t))))) (\<lambda>h w'. sampled s window h (hist w')) (\<lambda>_ _. True) v"
    if "witnessed (hist v) (ss_nodes first)" for sweep reference r2 first n v
    unfolding wp_bnd [of "observe H (ss_fleet s) reference"]
    by (rule wp_both [OF wp_observe wit.keeps_observe [where m = "ss_nodes first"]])
       (simp_all add: c that)
  have a: "wp (bnd (observe H (ss_fleet s) 0) (\<lambda>first. bnd now (\<lambda>swept. sq (hcall (HWait window) as_done)
      (bnd (observe H (ss_fleet s) (lowest_platform first)) (\<lambda>later.
      bnd (extend H (ss_fleet s) deadline window (swept - started) (lowest_platform first) focus first idle_extensions later) (\<lambda>last.
      bnd now (\<lambda>t. ret (assess s first last window t))))))))  (\<lambda>h w'. sampled s window h (hist w')) (\<lambda>_ _. True) v" for started v
    unfolding wp_bnd [of "observe H (ss_fleet s) 0"]
    by (rule wp_conseq [OF wp_observe])
       (auto simp: wp_bnd [of now] wp_now wp_sq wp_hcall Let_def witnessed_Cons split: sum.splits intro!: b)
  show ?thesis
  proof (cases "validate_snapshot H s = Inr () \<and> \<not> window \<le> 0")
    case False
    then show ?thesis by (cases "validate_snapshot H s") (auto simp: doctor_def wp_bnd wp_sq wp_lift wp_reject_if)
  next
    case True
    then show ?thesis
      using a by (simp add: doctor_def wp_bnd [of "lift _"] wp_bnd [of now] wp_sq [of "reject_if _ _"] wp_lift wp_reject_if wp_now)
  qed
qed

lemma check_mtarget_Inr:
  "check_mtarget seen t = Inr seen' \<longleftrightarrow> seen' = t # seen \<and> check_mtarget seen t = Inr (t # seen)"
  by (simp only: check_mtarget_def if_Inl_iff) blast

lemma check_mtarget_name: "check_mtarget seen t = Inr seen' \<Longrightarrow> mt_name t \<notin> mt_name ` set seen"
  by (simp only: check_mtarget_def if_Inl_iff) blast

lemma check_mtarget_containers:
  assumes "check_mtarget seen t = Inr seen'"
  shows "mt_containers t \<noteq> fmempty"
proof
  assume e: "mt_containers t = fmempty"
  have z: "fcard (fmdom (fmempty :: (string, string) fmap)) = 0" by (simp add: fcard.rep_eq)
  show False
    using assms unfolding check_mtarget_def if_Inl_iff e by (auto simp: mget_def z simp del: fmdom_empty)
qed

lemma fleet_names:
  assumes "validate_fleet f = Inr ()"
  shows "distinct (map mt_name (fl_targets f))"
    and "\<forall>t \<in> set (fl_targets f). mt_containers t \<noteq> fmempty"
proof -
  obtain seen where s: "scan_ok check_mtarget [] (fl_targets f) = Inr seen"
    using assms by (auto simp: validate_fleet_def res_simps)
  have "mt_name t \<notin> mt_name ` set sn \<and> mt_name ` set sn' = insert (mt_name t) (mt_name ` set sn)"
    if "check_mtarget sn t = Inr sn'" for sn t sn'
    using check_mtarget_name [OF that] that check_mtarget_Inr [of sn t sn'] by simp
  from scan_ok_distinct [OF s, where key = mt_name and seen = "\<lambda>s. mt_name ` set s", OF this]
  show "distinct (map mt_name (fl_targets f))" by simp
  show "\<forall>t \<in> set (fl_targets f). mt_containers t \<noteq> fmempty"
    by (rule scan_ok_all [OF s]) (rule check_mtarget_containers)
qed

lemma fmdom_card_0: "fcard (fmdom m) = 0 \<longleftrightarrow> m = fmempty"
proof
  assume "fcard (fmdom m) = 0"
  then have "fmdom' m = {}" by (simp add: fcard.rep_eq fmdom'_alt_def)
  then have "fmlookup m x = None" for x by (metis empty_iff fmdom'I option.exhaust)
  then show "m = fmempty" by (intro fmap_ext) simp
qed (simp add: fcard.rep_eq)

lemma healthy_components:
  assumes "healthy t b = Inr ()" and "mt_containers t \<noteq> fmempty"
  shows "ob_components b \<noteq> fmempty"
proof -
  have "fcard (fmdom (ob_components b)) = fcard (fmdom (mt_containers t))"
    using assms(1) by (auto simp: healthy_def Let_def split: if_splits option.splits)
  then show ?thesis using assms(2) fmdom_card_0 by metis
qed


section \<open>Witnesses\<close>

definition sample_voter :: "nat \<Rightarrow> string" where
  "sample_voter n = itoa n @ replicate 63 (CHR ''0'')"

definition sample_validator :: "nat \<Rightarrow> mtarget" where
  "sample_validator n = \<lparr>mt_name = ''v'' @ itoa n, mt_id = ''i-0000000'' @ itoa n, mt_address = ''203.0.113.'' @ itoa n,
     mt_arch = ''amd64'', mt_role = ''validator'', mt_containers = fmap_of_list [(''core'', ''dashd'')]\<rparr>"

text \<open>Four validators of equal power; the observation of the last one failed.\<close>

definition sample_vnode :: "nat \<Rightarrow> observation" where
  "sample_vnode n = (sample_observation (''i-0000000'' @ itoa n) ''core@old'' 7)\<lparr>
     ob_chain := zero_chain\<lparr>mc_synced := True, mc_lock := 7, mc_height := 7, mc_state := ''READY'', mc_dapi := True,
       mc_platform_height := 3, mc_dapi_height := 3, mc_protx := sample_voter n,
       mc_power := fmap_of_list (map (\<lambda>i. (sample_voter i, 100)) [1, 2, 3, 4])\<rparr>\<rparr>"

definition sample_vsnapshot :: "nat list \<Rightarrow> snapshot" where
  "sample_vsnapshot down = sample_snapshot\<lparr>ss_fleet := sample_fleet\<lparr>fl_targets := map sample_validator [1, 2, 3, 4]\<rparr>,
     ss_nodes := fmap_of_list (map (\<lambda>n. (''v'' @ itoa n, if n \<in> set down
       then (sample_vnode n)\<lparr>ob_problems := [''no-answer'']\<rparr> else sample_vnode n)) [1, 2, 3, 4])\<rparr>"

theorem withdrawal_keeps_quorum_witness:
  "can_withdraw (sample_vsnapshot []) (sample_validator 1) = Inr () \<and>
   can_withdraw (sample_vsnapshot [4]) (sample_validator 1) \<noteq> Inr ()"
proof -
  let ?p = "\<lambda>s u. sorted_list_of_fmap (mc_power (ob_chain (seen_at (ss_nodes s) (mt_name u))))"
  let ?rhs = "\<lambda>s V. list_all (\<lambda>u. mt_role u = ''validator'' \<longrightarrow> ?p s u \<noteq> [] \<and>
     list_all (\<lambda>(i, p). matches hex64 i \<and> 0 < sint p \<and> sint p \<le> 1000000000) (?p s u) \<and>
     2 * (\<Sum>(i, p) \<leftarrow> ?p s u. sint p) <
       3 * (\<Sum>(i, p) \<leftarrow> ?p s u. if i \<in> V then sint p else 0)) (fl_targets (ss_fleet s))"
  have role: "mt_role (sample_validator 1) = ''validator''" by (simp add: sample_validator_def)
  have len: "\<forall>u \<in> set (fl_targets (ss_fleet (sample_vsnapshot d))). length (?p (sample_vsnapshot d) u) \<le> 2 ^ 32" if "d = [] \<or> d = [4]" for d
  proof -
    have "list_all (\<lambda>u. length (?p (sample_vsnapshot []) u) \<le> 4) (fl_targets (ss_fleet (sample_vsnapshot [])))" by code_simp
    moreover have "list_all (\<lambda>u. length (?p (sample_vsnapshot [4]) u) \<le> 4) (fl_targets (ss_fleet (sample_vsnapshot [4])))" by code_simp
    ultimately show ?thesis using that by (fastforce simp: list_all_iff)
  qed
  have v: "healthy_voters (sample_vsnapshot []) (sample_validator 1) = set (map sample_voter [2, 3, 4])" by code_simp
  have v4: "healthy_voters (sample_vsnapshot [4]) (sample_validator 1) = set (map sample_voter [2, 3])" by code_simp
  have yes: "?rhs (sample_vsnapshot []) (set (map sample_voter [2, 3, 4]))" by code_simp
  have no: "\<not> ?rhs (sample_vsnapshot [4]) (set (map sample_voter [2, 3]))" by code_simp
  show ?thesis
    using withdrawal_keeps_quorum [OF role refl len, of "[]"] withdrawal_keeps_quorum [OF role refl len, of "[4]"] yes no
    unfolding list_all_iff v v4 by blast
qed

text \<open>Hosts whose Core height grows with every exchange.\<close>

definition sample_hosts :: "(hreq, hreply) env" where
  "sample_hosts = \<lparr>answer = (\<lambda>h q. case q of
       HCall r \<Rightarrow> AObserved (Inr (sample_observation (mt_id (mq_target r)) sample_pin (word_of_nat (length h))))
     | HIdentity \<Rightarrow> AText (Inr (Some ''123456789012''))
     | HInstances ids tok \<Rightarrow> AInstances (Inr (Some ([map (\<lambda>t. \<lparr>li_id = mt_id t, li_tags = [(''net'', ''devnet-m'')], li_arch = ''x86_64'',
         li_state = Some ''running'', li_public = mt_address t, li_private = []\<rparr>) (fl_targets sample_fleet)], [])))
     | _ \<Rightarrow> AUnit (Inr ())), clock = (\<lambda>h. int (length h)), cancelled = (\<lambda>_. False)\<rparr>"

definition sample_mworld :: "(hreq, hreply) env \<Rightarrow> mworld" where
  "sample_mworld e = \<lparr>env = e, hist = [], mw_rec = fresh_mrecord sample_hash sample_fleet sample_snapshot, mw_mutated = False\<rparr>"


end
