(* ===== verification/Managed_Runner.thy ===== *)
theory Managed_Runner
  imports Managed_Gate
begin

text \<open>
  \<open>internal/managed/runner.go\<close> and \<open>cloud.go\<close>: the verification of the live instances, enrollment, and
  the execution of a reviewed plan (preflight, staging, one target at a time through the gates, the
  final verification) with its deferred interruption and release. The record and the flag \<open>mutated\<close>
  live in the world; \<open>deadline\<close> is that of the operation's context, a derived context ends with the
  operation's or at its own limit. Polling and paging take fuel.
\<close>

section \<open>The cloud\<close>

definition check_live ::
  "fleet \<Rightarrow> string list \<Rightarrow> live_inst \<Rightarrow> string list res" where
  "check_live f found i = (case filter (\<lambda>t. mt_id t = li_id i) (rev (fl_targets f)) of
     [] \<Rightarrow> Inl (Err ''EC2 returned unexpected/duplicate target'')
   | t # _ \<Rightarrow>
     if li_id i \<in> set found then Inl (Err ''EC2 returned unexpected/duplicate target'')
     else let tag = (case filter (\<lambda>kv. fst kv = fl_tag_key f) (rev (li_tags i)) of [] \<Rightarrow> [] | kv # _ \<Rightarrow> snd kv);
         arch = (if li_arch i = ''x86_64'' then ''amd64'' else li_arch i)
       in if tag \<noteq> md_name (fl_metadata f) \<or> li_state i \<noteq> Some ''running'' \<or> arch \<noteq> mt_arch t \<or>
             (li_public i \<noteq> mt_address t \<and> li_private i \<noteq> mt_address t)
          then Inl (At (mt_name t) (Err ''live EC2 scope/address/state mismatch'')) else Inr (li_id i # found))"

fun live_pages :: "fleet \<Rightarrow> nat \<Rightarrow> string \<Rightarrow> string list \<Rightarrow> string list \<Rightarrow> string list hoper" where
  "live_pages f 0 tok pages found = fail OutOfFuel"
| "live_pages f (Suc n) tok pages found =
     bnd (hcall (HInstances (map mt_id (fl_targets f)) tok) as_instances) (\<lambda>out. case out of
       None \<Rightarrow> fail (Err ''empty EC2 scope response'')
     | Some (reservations, next) \<Rightarrow>
       bnd (lift (scan_ok (check_live f) found (concat reservations))) (\<lambda>found'.
       if next = [] then ret found'
       else if next \<in> set pages then fail (Err ''repeated EC2 page'')
       else live_pages f n next (next # pages) found'))"

definition managed_account :: "string \<Rightarrow> unit hoper" where
  "managed_account expected = bnd (attempt (hcall HIdentity as_account)) (\<lambda>r. case r of
     Inl e \<Rightarrow> fail (At ''verify AWS account'' e)
   | Inr c \<Rightarrow> reject_if (c \<noteq> Some expected) (Err ''AWS credentials do not match the configured account''))"

definition verify_cloud :: "fleet \<Rightarrow> nat \<Rightarrow> unit hoper" where
  "verify_cloud f pfuel =
     bnd (lift (validate_fleet f)) (\<lambda>_.
     sq (managed_account (fl_account f))
     (bnd (live_pages f pfuel [] [] []) (\<lambda>found.
     reject_if (length found \<noteq> card (set (map mt_id (fl_targets f)))) (Err ''EC2 lost an intended target''))))"

section \<open>The runner\<close>

text \<open>\<open>Runner\<close>: the selected targets, the claim's owner, the options, whether the collaborators are set,
  and the bounds of the model on pages and polls.\<close>

record mrunner =
  rn_targets :: "string list"
  rn_ready :: bool \<comment> \<open>backend and store are set\<close>
  rn_owner :: string
  rn_window :: gotime
  rn_timeout :: gotime
  rn_deadline :: "gotime option"
  rn_pages :: nat
  rn_polls :: nat

definition window_of :: "mrunner \<Rightarrow> gotime" where
  "window_of r = (if rn_window r = 0 then 4 * minute else rn_window r)"

definition timeout_of :: "mrunner \<Rightarrow> gotime" where
  "timeout_of r = (if rn_timeout r = 0 then 60 * minute else rn_timeout r)"

definition runner_check :: "mrunner \<Rightarrow> fleet \<Rightarrow> unit hoper" where
  "runner_check r f =
     sq (reject_if (\<not> rn_ready r \<or> rn_owner r = []) (Err ''authenticated backend, store and owner required''))
     (sq (reject_if (rn_deadline r = None) (Err ''operation deadline required''))
     (verify_cloud f (rn_pages r)))"

definition runner_health :: "hasher \<Rightarrow> mrunner \<Rightarrow> gotime option \<Rightarrow> snapshot \<Rightarrow> string list \<Rightarrow> health hoper" where
  "runner_health H r deadline s focus = doctor H deadline s (window_of r) focus"

text \<open>\<open>ready.Err() != nil\<close> for a context that also ends at \<open>limit\<close>.\<close>

definition expired :: "gotime \<Rightarrow> bool hoper" where
  "expired limit = gets (\<lambda>w. cancelled (env w) (hist w) \<or> clock (env w) (hist w) \<ge> limit)"

text \<open>The verdict of one poll: ready, gone, or the status to report.\<close>

definition poll_status :: "mtarget \<Rightarrow> string \<Rightarrow> bool \<Rightarrow> observation res \<Rightarrow> string option res" where
  "poll_status t prev ended reply = (case reply of
     Inl e \<Rightarrow> if ended then Inr (Some prev) else Inr (Some (''observation unavailable: '' @ take 200 (safe_error e)))
   | Inr b \<Rightarrow>
     if mc_state (ob_chain b) = ''POSE_BANNED'' \<or> mc_state (ob_chain b) = ''REMOVED''
       then Inl (At (mt_name t) (Err (''masternode '' @ mc_state (ob_chain b) @ '' after the change'')))
     else (case healthy t b of Inr _ \<Rightarrow> Inr None | Inl e \<Rightarrow> Inr (Some (error_text e))))"

fun await_ready :: "hasher \<Rightarrow> fleet \<Rightarrow> mtarget \<Rightarrow> gotime \<Rightarrow> nat \<Rightarrow> string \<Rightarrow> unit hoper" where
  "await_ready H f t limit 0 prev = fail OutOfFuel"
| "await_ready H f t limit (Suc n) prev =
     bnd (attempt (hcall (HCall (host_request H f t ''observe'')) as_observed)) (\<lambda>reply.
     bnd (expired limit) (\<lambda>ended.
     bnd (lift (poll_status t prev ended reply)) (\<lambda>status. case status of
       None \<Rightarrow> ret ()
     | Some s \<Rightarrow> bnd (attempt (hcall (HWait (15 * second)) as_done)) (\<lambda>r. case r of
         Inr _ \<Rightarrow> await_ready H f t limit n s
       | Inl e \<Rightarrow> bnd ctx_done (\<lambda>stopped.
           if stopped then fail (At (mt_name t @ '' was still starting when the operation stopped ('' @ s @ '')'') Cancelled)
           else fail (Err (mt_name t @ '' not ready within the timeout: '' @ s)))))))"

definition await_target :: "hasher \<Rightarrow> mrunner \<Rightarrow> fleet \<Rightarrow> mtarget \<Rightarrow> unit hoper" where
  "await_target H r f t = bnd now (\<lambda>start. await_ready H f t (start + timeout_of r) (rn_polls r) [])"

section \<open>The record\<close>

definition set_mrec :: "(mrecord \<Rightarrow> mrecord) \<Rightarrow> unit hoper" where
  "set_mrec f = modify (\<lambda>w. w\<lparr>mw_rec := f (mw_rec w)\<rparr>)"

definition set_mutated :: "unit hoper" where
  "set_mutated = modify (\<lambda>w. w\<lparr>mw_mutated := True\<rparr>)"

definition next_revision :: "mrecord \<Rightarrow> mrecord" where
  "next_revision r = r\<lparr>mr_revision := mr_revision r + 1\<rparr>"

definition save_record :: "fleet \<Rightarrow> string \<Rightarrow> unit hoper" where
  "save_record f owner = sq (set_mrec next_revision)
     (bnd (gets mw_rec) (\<lambda>r. hcall (HSave f r owner) as_done))"

text \<open>\<open>errors.Join(err, e)\<close> after a deferred call.\<close>

definition joined :: "unit res \<Rightarrow> unit res \<Rightarrow> unit res" where
  "joined res e = (case e of Inr _ \<Rightarrow> res
   | Inl e2 \<Rightarrow> (case res of Inr _ \<Rightarrow> Inl (Joined [e2]) | Inl e1 \<Rightarrow> Inl (Joined [e1, e2])))"

definition release_fleet :: "fleet \<Rightarrow> string \<Rightarrow> unit res \<Rightarrow> unit hoper" where
  "release_fleet f owner res =
     bnd (attempt (hcall (HRelease f owner) as_done)) (\<lambda>e. lift (joined res e))"

section \<open>Enrollment\<close>

definition enrolled :: "mtarget \<Rightarrow> mrecord \<Rightarrow> mrecord" where
  "enrolled t r = r\<lparr>mr_enrolled := fmupd (mt_name t) True (mr_enrolled r),
     mr_instances := Some (fmupd (mt_name t) (mt_id t) (case mr_instances r of None \<Rightarrow> fmempty | Some m \<Rightarrow> m))\<rparr>"

definition enroll_target :: "hasher \<Rightarrow> mrunner \<Rightarrow> snapshot \<Rightarrow> mtarget \<Rightarrow> unit hoper" where
  "enroll_target H r s t = bnd (gets mw_rec) (\<lambda>c.
     if is_enrolled c t \<or> (rn_targets r \<noteq> [] \<and> mt_name t \<notin> set (rn_targets r)) then ret ()
     else bnd (hcall (HCall ((host_request H (ss_fleet s) t ''enroll'')\<lparr>mq_expected := Some (seen_at (ss_nodes s) (mt_name t))\<rparr>)) as_observed) (\<lambda>_.
       sq (set_mrec (enrolled t)) (save_record (ss_fleet s) (rn_owner r))))"

definition enroll_body :: "hasher \<Rightarrow> mrunner \<Rightarrow> snapshot \<Rightarrow> unit hoper" where
  "enroll_body H r s = bnd (gets mw_rec) (\<lambda>c.
     sq (reject_if (mr_snapshot c \<noteq> ss_id s \<and> mr_phase c = ''enrolling'') (Err ''resume enrollment with its original snapshot''))
     (sq (reject_if (mr_operation c \<noteq> [] \<and> mr_phase c \<noteq> ''complete'' \<and> mr_phase c \<noteq> ''enrolled'')
        (Err ''already in managed operation; enrollment is not redeployment''))
     (sq (set_mrec (\<lambda>c. c\<lparr>mr_instances := Some (case mr_instances c of None \<Rightarrow> fmempty | Some m \<Rightarrow> m), mr_snapshot := ss_id s\<rparr>))
     (sq (foreach (fl_targets (ss_fleet s)) (enroll_target H r s))
     (sq (set_mrec (\<lambda>c. c\<lparr>mr_phase := ''enrolled''\<rparr>)) (save_record (ss_fleet s) (rn_owner r)))))))"

definition enroll :: "hasher \<Rightarrow> mrunner \<Rightarrow> snapshot \<Rightarrow> unit hoper" where
  "enroll H r s =
     bnd (lift (complete_targets H s (rn_targets r))) (\<lambda>_.
     sq (runner_check r (ss_fleet s))
     (bnd (hcall (HAcquire (ss_fleet s) s (rn_owner r)) as_mrecord) (\<lambda>c.
     sq (set_mrec (\<lambda>_. c))
     (bnd (attempt (enroll_body H r s)) (release_fleet (ss_fleet s) (rn_owner r))))))"

section \<open>Gates of an execution\<close>

definition health_selected :: "health \<Rightarrow> mplan \<Rightarrow> bool" where
  "health_selected h p \<longleftrightarrow> (if mg_targets p = [] then he_healthy h
     else list_all (\<lambda>x. nh_healthy (at_or zero_health (he_nodes h) x)) (mg_targets p))"

definition can_withdraw_selected :: "snapshot \<Rightarrow> mtarget \<Rightarrow> pins \<Rightarrow> unit res" where
  "can_withdraw_selected s t ps =
     (if list_ex (\<lambda>c. mget ps c \<noteq> []) [''core'', ''drive'', ''tenderdash''] then can_withdraw s t else Inr ())"

definition plan_fleet :: "mplan \<Rightarrow> fleet" where
  "plan_fleet p = ss_fleet (mg_snapshot p)"

definition pinned_components :: "mplan \<Rightarrow> mtarget \<Rightarrow> string list" where
  "pinned_components p t = map fst (sorted_list_of_fmap (pins_at p t))"

definition replaced :: "observation \<Rightarrow> observation \<Rightarrow> string \<Rightarrow> bool" where
  "replaced old new c = (let a = at_or zero_container (ob_components old) c; b = at_or zero_container (ob_components new) c
     in ct_id a \<noteq> ct_id b \<or> ct_image_id a \<noteq> ct_image_id b)"

definition preflight_target :: "hasher \<Rightarrow> mplan \<Rightarrow> snapshot \<Rightarrow> mtarget \<Rightarrow> unit res" where
  "preflight_target H p current t = (let sel = (if mg_operation p = ''deploy'' then pinned_components p t else []);
       old = seen_at (ss_nodes (mg_snapshot p)) (mt_name t); new = seen_at (ss_nodes current) (mt_name t) in
     if \<not> selects p t then Inr ()
     else case preserved H old new sel of Inl e \<Rightarrow> Inl (At (mt_name t @ '' preflight'') e)
     | Inr _ \<Rightarrow> if list_ex (replaced old new) sel then Inl (At (mt_name t) (Err ''deployment source was replaced'')) else Inr ())"

definition staging :: "mplan \<Rightarrow> mrecord \<Rightarrow> mrecord" where
  "staging p c = c\<lparr>mr_operation := mg_id p, mr_phase := ''staging'', mr_error := [],
     mr_completed := fmap_of_list (map (\<lambda>t. (mt_name t, pins_at p t = fmempty)) (fl_targets (plan_fleet p)))\<rparr>"

definition require_health :: "hasher \<Rightarrow> mrunner \<Rightarrow> mplan \<Rightarrow> string \<Rightarrow> health hoper" where
  "require_health H r p m = bnd (runner_health H r (rn_deadline r) (mg_snapshot p) (mg_targets p)) (\<lambda>h.
     sq (reject_if (\<not> health_selected h p) (Err m)) (ret h))"

definition start_operation :: "hasher \<Rightarrow> mrunner \<Rightarrow> mplan \<Rightarrow> unit hoper" where
  "start_operation H r p = bnd (gets mw_rec) (\<lambda>c.
     sq (reject_if (mr_operation c \<noteq> mg_previous p \<or> (mr_phase c \<noteq> ''enrolled'' \<and> mr_phase c \<noteq> ''complete''))
       (Err ''stale plan or a different unfinished operation''))
     (bnd (observe H (plan_fleet p) 0) (\<lambda>current.
     sq (lift (each_ok (preflight_target H p current) (fl_targets (plan_fleet p))))
     (sq (if mg_operation p = ''upgrade''
          then bnd (require_health H r p ''selected upgrade targets failed health checks'') (\<lambda>_. ret ()) else ret ())
     (sq (set_mrec (staging p))
     (sq set_mutated (save_record (plan_fleet p) (rn_owner r))))))))"

section \<open>Verification\<close>

definition artifact_running :: "observation \<Rightarrow> pins \<Rightarrow> string \<Rightarrow> bool" where
  "artifact_running b ps c = list_ex (\<lambda>d. CHR ''@'' \<in> set d \<and>
     fst (snd (cut CHR ''@'' d)) = fst (snd (cut CHR ''@'' (mget ps c)))) (ct_digests (at_or zero_container (ob_components b) c))"

definition verify_target :: "hasher \<Rightarrow> mplan \<Rightarrow> mrecord \<Rightarrow> snapshot \<Rightarrow> mtarget \<Rightarrow> unit res" where
  "verify_target H p c current t =
     (let sel = (if flag (mr_completed c) (mt_name t) \<or> mr_current c = mt_name t then pinned_components p t else []);
       new = seen_at (ss_nodes current) (mt_name t) in
      if \<not> selects p t then Inr ()
      else case preserved H (seen_at (ss_nodes (mg_snapshot p)) (mt_name t)) new sel of Inl e \<Rightarrow> Inl (At (mt_name t) e)
      | Inr _ \<Rightarrow> if \<not> list_all (artifact_running new (pins_at p t)) sel
          then Inl (At (mt_name t) (Err ''running artifact not verified'')) else Inr ())"

definition earlier :: "gotime option \<Rightarrow> gotime \<Rightarrow> gotime" where
  "earlier deadline limit = (case deadline of None \<Rightarrow> limit | Some d \<Rightarrow> min d limit)"

fun verify_rounds :: "hasher \<Rightarrow> mrunner \<Rightarrow> mplan \<Rightarrow> mrecord \<Rightarrow> gotime \<Rightarrow> nat \<Rightarrow> unit hoper" where
  "verify_rounds H r p c limit 0 = fail OutOfFuel"
| "verify_rounds H r p c limit (Suc n) =
     bnd (runner_health H r (Some limit) (mg_snapshot p) (mg_targets p)) (\<lambda>h.
     if health_selected h p then lift (each_ok (verify_target H p c (he_snapshot h)) (fl_targets (plan_fleet p)))
     else sq (hcall (HWait (15 * second)) as_done) (verify_rounds H r p c limit n))"

definition verify_plan :: "hasher \<Rightarrow> mrunner \<Rightarrow> mplan \<Rightarrow> unit hoper" where
  "verify_plan H r p = bnd (gets mw_rec) (\<lambda>c. bnd now (\<lambda>t.
     verify_rounds H r p c (earlier (rn_deadline r) (t + max (10 * minute) ((int idle_extensions + 5) * window_of r))) (rn_polls r)))"

section \<open>Execution\<close>

definition plan_request :: "hasher \<Rightarrow> mplan \<Rightarrow> mtarget \<Rightarrow> string \<Rightarrow> mrequest" where
  "plan_request H p t action = (host_request H (plan_fleet p) t action)\<lparr>
     mq_expected := Some (seen_at (ss_nodes (mg_snapshot p)) (mt_name t)), mq_pins := pins_at p t,
     mq_operation := mg_operation p, mq_operation_id := mg_id p\<rparr>"

definition stage_target :: "hasher \<Rightarrow> mplan \<Rightarrow> mtarget \<Rightarrow> unit hoper" where
  "stage_target H p t = (if pins_at p t = fmempty then ret ()
     else bnd (hcall (HCall (plan_request H p t ''stage'')) as_observed) (\<lambda>_. ret ()))"

text \<open>The gate before the next withdrawal of an upgrade.\<close>

definition withdrawal_gate :: "hasher \<Rightarrow> mrunner \<Rightarrow> mplan \<Rightarrow> mtarget \<Rightarrow> unit hoper" where
  "withdrawal_gate H r p t = bnd (require_health H r p ''fleet unhealthy before next withdrawal'') (\<lambda>h.
     lift (can_withdraw_selected (he_snapshot h) t (pins_at p t)))"

definition change_target :: "hasher \<Rightarrow> mrunner \<Rightarrow> mplan \<Rightarrow> mtarget \<Rightarrow> unit hoper" where
  "change_target H r p t =
     sq (set_mrec (\<lambda>c. c\<lparr>mr_current := mt_name t, mr_phase := ''applying''\<rparr>))
     (sq (save_record (plan_fleet p) (rn_owner r))
     (bnd (hcall (HCall (plan_request H p t ''apply'')) as_observed) (\<lambda>_.
     sq (set_mrec (\<lambda>c. c\<lparr>mr_phase := ''verifying''\<rparr>))
     (sq (save_record (plan_fleet p) (rn_owner r))
     (sq (if mg_operation p = ''upgrade'' then sq (await_target H r (plan_fleet p) t) (verify_plan H r p) else ret ())
     (sq (set_mrec (\<lambda>c. c\<lparr>mr_completed := fmupd (mt_name t) True (mr_completed c), mr_current := []\<rparr>))
     (save_record (plan_fleet p) (rn_owner r))))))))"

definition apply_target :: "hasher \<Rightarrow> mrunner \<Rightarrow> mplan \<Rightarrow> mtarget \<Rightarrow> unit hoper" where
  "apply_target H r p t = bnd (gets mw_rec) (\<lambda>c.
     if flag (mr_completed c) (mt_name t) then ret ()
     else sq (verify_cloud (plan_fleet p) (rn_pages r))
       (sq (if mg_operation p = ''upgrade'' \<and> mr_current c = [] then withdrawal_gate H r p t else ret ())
       (change_target H r p t)))"

definition rollout_order :: "string \<Rightarrow> mtarget list \<Rightarrow> mtarget list" where
  "rollout_order current ts = (if current = [] then ts
     else filter (\<lambda>t. mt_name t = current) ts @ filter (\<lambda>t. mt_name t \<noteq> current) ts)"

definition roll_out :: "hasher \<Rightarrow> mrunner \<Rightarrow> mplan \<Rightarrow> unit hoper" where
  "roll_out H r p =
     sq set_mutated
     (sq (foreach (fl_targets (plan_fleet p)) (stage_target H p))
     (bnd (gets mw_rec) (\<lambda>c.
     sq (foreach (rollout_order (mr_current c) (fl_targets (plan_fleet p))) (apply_target H r p))
     (sq (verify_plan H r p)
     (sq (set_mrec (\<lambda>c. c\<lparr>mr_phase := ''complete'', mr_error := []\<rparr>))
     (save_record (plan_fleet p) (rn_owner r)))))))"

definition mexecute_body :: "hasher \<Rightarrow> mrunner \<Rightarrow> mplan \<Rightarrow> unit hoper" where
  "mexecute_body H r p = bnd (gets mw_rec) (\<lambda>c.
     sq (if mr_operation c = mg_id p then ret () else start_operation H r p)
     (bnd (gets mw_rec) (\<lambda>c.
     if mr_phase c = ''complete''
     then bnd (require_health H r p ''completed operation is currently unhealthy'') (\<lambda>_. ret ())
     else roll_out H r p)))"

text \<open>The deferred function: an error after the first change is journaled, the claim is released.\<close>

definition msettle :: "mrunner \<Rightarrow> mplan \<Rightarrow> unit res \<Rightarrow> unit hoper" where
  "msettle r p res = bnd (gets mw_mutated) (\<lambda>mutated.
     bnd (case res of
         Inl e \<Rightarrow> if mutated
           then sq (set_mrec (\<lambda>c. c\<lparr>mr_phase := ''interrupted'', mr_error := safe_error e\<rparr>))
             (bnd (attempt (save_record (plan_fleet p) (rn_owner r))) (\<lambda>s. ret (joined res s)))
           else ret res
       | Inr _ \<Rightarrow> ret res) (release_fleet (plan_fleet p) (rn_owner r)))"

definition mexecute :: "hasher \<Rightarrow> image_refs \<Rightarrow> string \<Rightarrow> mrunner \<Rightarrow> mplan \<Rightarrow> unit hoper" where
  "mexecute H R W r p =
     bnd (lift (validate_mplan H R W p)) (\<lambda>_.
     sq (runner_check r (plan_fleet p))
     (bnd (hcall (HRead (plan_fleet p)) as_stored) (\<lambda>(prior, _).
     sq (reject_if (list_ex (\<lambda>t. selects p t \<and> \<not> is_enrolled prior t) (fl_targets (plan_fleet p)))
       (Err ''finish explicit enrollment first''))
     (bnd (hcall (HAcquire (plan_fleet p) (mg_snapshot p) (rn_owner r)) as_mrecord) (\<lambda>c.
     sq (modify (\<lambda>w. w\<lparr>mw_rec := c, mw_mutated := False\<rparr>))
     (bnd (attempt (mexecute_body H r p)) (msettle r p)))))))"

end
