(* ===== verification/Managed_Rollout.thy ===== *)
theory Managed_Rollout
  imports Managed_Runner
begin

text \<open>
  Safety of a managed rollout, for every behaviour of the hosts, of AWS and of the journal: every
  change of a host is announced by an acknowledged save, concerns an enrolled target, and in an
  upgrade is the resumed target or has passed the health and quorum gates; what the rollout saves
  keeps its pending target coherent. Nothing is assumed of the journal: what a claim returned is
  named where a result depends on it.
\<close>

section \<open>What a history must satisfy\<close>

fun msaved :: "hreq \<Rightarrow> hreply \<Rightarrow> mrecord option" where
  "msaved (HSave f c o1) (AUnit (Inr ())) = Some c"
| "msaved _ _ = None"

fun mapplied :: "hreq \<Rightarrow> mrequest option" where
  "mapplied (HCall q) = (if mq_action q = ''apply'' then Some q else None)"
| "mapplied _ = None"

definition mintends :: "mrecord \<Rightarrow> mrequest \<Rightarrow> bool" where
  "mintends c q \<longleftrightarrow> mr_phase c = ''applying'' \<and> mr_current c = mt_name (mq_target q) \<and> mr_operation c = mq_operation_id q"

interpretation rollout: write_ahead msaved mapplied mintends
proof
  fix q :: hreq and k r
  assume "mapplied q = Some k"
  then show "msaved q r = None" by (cases q) auto
qed

text \<open>A pending target is one of the fleet, is not completed, and belongs to an open phase.\<close>

definition coherent :: "fleet \<Rightarrow> mrecord \<Rightarrow> bool" where
  "coherent f c \<longleftrightarrow> (mr_current c \<noteq> [] \<longrightarrow> mr_current c \<in> mt_name ` set (fl_targets f) \<and>
     \<not> flag (mr_completed c) (mr_current c) \<and> mr_phase c \<in> {''applying'', ''verifying'', ''interrupted''})"

definition known_enrolled :: "(hreq, hreply) hist \<Rightarrow> mtarget \<Rightarrow> bool" where
  "known_enrolled h t \<longleftrightarrow> (\<exists>f c o1. (HRead f, AStored (Inr (c, o1))) \<in> set h \<and> is_enrolled c t)"

text \<open>No host was changed yet; the claimed records; a claimed record whose pending target does not
  cohere.\<close>

definition untouched :: "(hreq, hreply) hist \<Rightarrow> bool" where
  "untouched h \<longleftrightarrow> (\<forall>z \<in> set h. mapplied (fst z) = None)"

definition claims :: "(hreq, hreply) hist \<Rightarrow> mrecord set" where
  "claims h = {c. \<exists>f s o1. (HAcquire f s o1, ARecord (Inr c)) \<in> set h}"

definition sound :: "mplan \<Rightarrow> (hreq, hreply) hist \<Rightarrow> mrecord \<Rightarrow> bool" where
  "sound p h c \<longleftrightarrow> coherent (plan_fleet p) c \<or> (\<exists>d \<in> claims h. \<not> coherent (plan_fleet p) d)"

text \<open>The first change of a run, for the pending target of the claimed record.\<close>

definition resumed :: "mplan \<Rightarrow> (hreq, hreply) hist \<Rightarrow> string \<Rightarrow> bool" where
  "resumed p h x \<longleftrightarrow> untouched h \<and>
     (\<exists>c \<in> claims h. mr_current c \<noteq> [] \<and> (coherent (plan_fleet p) c \<longrightarrow> mr_current c = x))"

text \<open>Nothing is pending, or still what the claimed record had; \<open>b\<close>: the claimed record itself.\<close>

definition pends :: "mplan \<Rightarrow> bool \<Rightarrow> mrecord \<Rightarrow> (hreq, hreply) hist \<Rightarrow> bool" where
  "pends p b c h \<longleftrightarrow> mr_current c = [] \<or> untouched h \<and>
     (\<exists>d \<in> claims h. mr_current d = mr_current c \<and> (coherent (plan_fleet p) d \<longrightarrow> b \<and> d = c))"

definition gated :: "mplan \<Rightarrow> gotime \<Rightarrow> (hreq, hreply) hist \<Rightarrow> mtarget \<Rightarrow> pins \<Rightarrow> bool" where
  "gated p window h t ps \<longleftrightarrow> (\<exists>he. sampled (mg_snapshot p) window he h \<and> health_selected he p \<and>
     can_withdraw_selected (he_snapshot he) t ps = Inr ())"

definition rollout_guard :: "mplan \<Rightarrow> gotime \<Rightarrow> (hreq, hreply) hist \<Rightarrow> hreq \<Rightarrow> bool" where
  "rollout_guard p window h q \<longleftrightarrow> intent_guard msaved mapplied mintends h q \<and> (case q of
     HCall m \<Rightarrow> (mq_action m = ''stage'' \<or> mq_action m = ''apply'' \<longrightarrow> mq_pins m \<noteq> fmempty \<longrightarrow> known_enrolled h (mq_target m)) \<and>
       (mq_action m = ''apply'' \<longrightarrow> mg_operation p = ''upgrade'' \<longrightarrow>
          resumed p h (mt_name (mq_target m)) \<or> gated p window h (mq_target m) (mq_pins m))
   | HSave f c o1 \<Rightarrow> sound p h c
   | _ \<Rightarrow> True)"

lemma known_enrolled_Cons: "known_enrolled h t \<Longrightarrow> known_enrolled (z # h) t"
  unfolding known_enrolled_def by (metis list.set_intros(2))

lemma claims_Cons: "claims h \<subseteq> claims (z # h)"
  by (auto simp: claims_def)

lemma untouched_Cons [simp]: "untouched (z # h) \<longleftrightarrow> mapplied (fst z) = None \<and> untouched h"
  by (simp add: untouched_def)

lemma sound_Cons: "sound p h c \<Longrightarrow> sound p (z # h) c"
  unfolding sound_def using claims_Cons by blast

lemma resumed_Cons: "mapplied q = None \<Longrightarrow> resumed p h x \<Longrightarrow> resumed p ((q, a) # h) x"
  unfolding resumed_def using claims_Cons [of h "(q, a)"] by (metis fst_conv subsetD untouched_Cons)

lemma pends_Cons: "mapplied q = None \<Longrightarrow> pends p b c h \<Longrightarrow> pends p b c ((q, a) # h)"
  unfolding pends_def using claims_Cons by fastforce

lemma quiet_applies [simp]: "quiet q \<Longrightarrow> mapplied q = None"
  by (cases q) auto

lemma sampled_Cons: "sampled s window he h \<Longrightarrow> sampled s window he (z # h)"
  unfolding sampled_def using witnessed_Cons by blast

lemma gated_Cons: "gated p window h t ps \<Longrightarrow> gated p window (z # h) t ps"
  unfolding gated_def using sampled_Cons by blast

lemma quiet_guard: "quiet q \<Longrightarrow> rollout_guard p window h q"
  by (cases q) (auto simp: rollout_guard_def intent_guard_def split: option.splits if_splits)

section \<open>Gates keep every quiet invariant\<close>

context quiet_invariant
begin

lemma keeps_live_pages: "keeps I (live_pages f n tok pages found)"
  by (induction n arbitrary: tok pages found) (auto intro!: keeps_intros keeps_quiet split: prod.splits)

lemma keeps_verify_cloud: "keeps I (verify_cloud f n)"
  unfolding verify_cloud_def managed_account_def by (intro keeps_intros keeps_quiet keeps_live_pages) simp

lemma keeps_runner_check: "keeps I (runner_check r f)"
  unfolding runner_check_def by (intro keeps_intros keeps_verify_cloud)

lemma keeps_runner_health: "keeps I (runner_health H r deadline s focus)"
  unfolding runner_health_def by (rule keeps_doctor)

lemma keeps_await_ready: "keeps I (await_ready H f t limit n prev)"
  by (induction n arbitrary: prev) (auto simp: expired_def intro!: keeps_intros keeps_quiet)

lemma keeps_await_target: "keeps I (await_target H r f t)"
  unfolding await_target_def by (intro keeps_intros keeps_await_ready)

lemma keeps_require_health: "keeps I (require_health H r p m)"
  unfolding require_health_def by (intro keeps_intros keeps_runner_health)

lemma keeps_withdrawal_gate: "keeps I (withdrawal_gate H r p t)"
  unfolding withdrawal_gate_def by (intro keeps_intros keeps_require_health)

lemma keeps_verify_rounds: "keeps I (verify_rounds H r p c limit n)"
  by (induction n) (auto intro!: keeps_intros keeps_quiet keeps_runner_health)

lemma keeps_verify_plan: "keeps I (verify_plan H r p)"
  unfolding verify_plan_def by (intro keeps_intros keeps_verify_rounds)

end

section \<open>The invariant of a rollout\<close>

text \<open>What holds after the claim: the history is guarded, the pending target is coherent unless the one
  claimed was not, and the selected targets are known to be enrolled.\<close>

definition rolling :: "mplan \<Rightarrow> gotime \<Rightarrow> mworld \<Rightarrow> bool" where
  "rolling p window w \<longleftrightarrow> guarded (rollout_guard p window) (hist w) \<and> sound p (hist w) (mw_rec w) \<and>
     (\<forall>t \<in> set (fl_targets (plan_fleet p)). selects p t \<longrightarrow> known_enrolled (hist w) t)"

lemma rolling_ask:
  "rolling p window w \<Longrightarrow> rollout_guard p window (hist w) q \<Longrightarrow> rolling p window (w\<lparr>hist := (q, a) # hist w\<rparr>)"
  by (auto simp: rolling_def known_enrolled_Cons sound_Cons)

interpretation roll: quiet_invariant "rolling p window" for p window
  by unfold_locales (rule rolling_ask, assumption, rule quiet_guard)

interpretation roll_op: quiet_invariant "\<lambda>w. rolling p window w \<and> mw_rec w = c" for p window c
  by unfold_locales (auto intro!: rolling_ask quiet_guard)

interpretation roll_res: quiet_invariant
  "\<lambda>w. rolling p window w \<and> mw_rec w = c \<and> pends p b c (hist w)" for p window c b
  by unfold_locales (auto intro!: rolling_ask quiet_guard pends_Cons)

lemma rolling_set:
  "rolling p window w \<Longrightarrow> sound p (hist w) c \<Longrightarrow> rolling p window (w\<lparr>mw_rec := c\<rparr>)"
  by (simp add: rolling_def)

lemma save_guard: "sound p h c \<Longrightarrow> rollout_guard p window h (HSave f c o1)"
  by (simp add: rollout_guard_def intent_guard_def)

lemma coherent_next [simp]: "coherent f (next_revision c) = coherent f c"
  by (simp add: coherent_def next_revision_def)

lemma sound_next [simp]: "sound p h (next_revision c) = sound p h c"
  by (simp add: sound_def)

lemma next_revision_simps [simp]: "mr_current (next_revision c) = mr_current c" "mr_phase (next_revision c) = mr_phase c"
  "mr_operation (next_revision c) = mr_operation c" "mr_completed (next_revision c) = mr_completed c"
  by (simp_all add: next_revision_def)

text \<open>A save: the record gets the next revision, and an acknowledged save is the journaled state.\<close>

lemma wp_save_record:
  assumes "\<And>a. Q () (w\<lparr>mw_rec := next_revision (mw_rec w), hist := (HSave f (next_revision (mw_rec w)) owner, AUnit (Inr ())) # hist w\<rparr>)"
    and "\<And>e a. E e (w\<lparr>mw_rec := next_revision (mw_rec w), hist := (HSave f (next_revision (mw_rec w)) owner, a) # hist w\<rparr>)"
  shows "wp (save_record f owner) Q E w"
proof -
  have "as_done a = Inr x \<Longrightarrow> a = AUnit (Inr ())" for a x by (cases a) (auto simp: strange_def)
  then show ?thesis
    using assms by (auto simp: save_record_def set_mrec_def wp_sq wp_modify wp_bnd wp_gets wp_hcall Let_def split: sum.splits)
qed

lemma wp_hcallI:
  assumes "\<And>a x. f a = Inr x \<Longrightarrow> Q x (w\<lparr>hist := (q, a) # hist w\<rparr>)" and "\<And>a e. f a = Inl e \<Longrightarrow> E e (w\<lparr>hist := (q, a) # hist w\<rparr>)"
  shows "wp (hcall q f) Q E w"
  using assms by (simp add: wp_hcall Let_def split: sum.split)

lemma wp_hcallI2:
  assumes "\<And>x. f (answer (env w) (hist w) q) = Inr x \<Longrightarrow> Q x (w\<lparr>hist := (q, answer (env w) (hist w) q) # hist w\<rparr>)"
    and "\<And>e. E e (w\<lparr>hist := (q, answer (env w) (hist w) q) # hist w\<rparr>)"
  shows "wp (hcall q f) Q E w"
  using assms by (simp add: wp_hcall Let_def split: sum.split)

lemma save_rolling:
  assumes "rolling p window w" and "sound p (hist w) c"
  shows "rolling p window (w\<lparr>mw_rec := c, hist := (HSave f c owner, a) # hist w\<rparr>)"
  using rolling_ask [OF rolling_set [OF assms], of "HSave f c owner" a] save_guard [OF assms(2)] by simp

lemma wp_set_save:
  assumes w: "rolling p window w" and c: "sound p (hist w) (g (mw_rec w))"
    and Q: "rolling p window (w\<lparr>mw_rec := next_revision (g (mw_rec w)),
        hist := (HSave (plan_fleet p) (next_revision (g (mw_rec w))) owner, AUnit (Inr ())) # hist w\<rparr>) \<Longrightarrow>
      Q () (w\<lparr>mw_rec := next_revision (g (mw_rec w)),
        hist := (HSave (plan_fleet p) (next_revision (g (mw_rec w))) owner, AUnit (Inr ())) # hist w\<rparr>)"
    and E: "\<And>e v. rolling p window v \<Longrightarrow> E e v"
  shows "wp (set_mrec g) (\<lambda>_. wp (save_record (plan_fleet p) owner) Q E) E w"
proof -
  have "sound p (hist w) (next_revision (g (mw_rec w)))" using c by simp
  note s = save_rolling [OF w this]
  show ?thesis
    unfolding set_mrec_def wp_modify
    by (rule wp_save_record) (use s in \<open>auto intro: Q E\<close>)
qed

lemma sound_clear: "mr_current c = [] \<Longrightarrow> sound p h c"
  by (simp add: sound_def coherent_def)

lemma plan_request_simps [simp]: "mq_action (plan_request H p t a) = a" "mq_target (plan_request H p t a) = t"
  "mq_pins (plan_request H p t a) = pins_at p t" "mq_operation_id (plan_request H p t a) = mg_id p"
  by (simp_all add: plan_request_def host_request_def)

lemma wp_change_target:
  assumes w: "rolling p (window_of r) w" and op: "mr_operation (mw_rec w) = mg_id p"
    and t: "t \<in> set (fl_targets (plan_fleet p))" and new: "\<not> flag (mr_completed (mw_rec w)) (mt_name t)"
    and sel: "pins_at p t \<noteq> fmempty \<longrightarrow> selects p t"
    and gate: "mg_operation p = ''upgrade'' \<longrightarrow> resumed p (hist w) (mt_name t) \<or> gated p (window_of r) (hist w) t (pins_at p t)"
  shows "wp (change_target H r p t) (\<lambda>_ v. rolling p (window_of r) v \<and> mr_operation (mw_rec v) = mg_id p \<and> mr_current (mw_rec v) = [])
    (\<lambda>_. rolling p (window_of r)) w"
proof -
  let ?K = "rolling p (window_of r)" and ?f = "plan_fleet p" and ?o = "rn_owner r"
  let ?Q = "\<lambda>_ :: unit. \<lambda>v. ?K v \<and> mr_operation (mw_rec v) = mg_id p \<and> mr_current (mw_rec v) = []"
  let ?E = "\<lambda>_ :: gerr. ?K"
  have final: "wp (sq (set_mrec (\<lambda>c. c\<lparr>mr_completed := fmupd (mt_name t) True (mr_completed c), mr_current := []\<rparr>))
      (save_record ?f ?o)) ?Q ?E v" if "?K v" "mr_operation (mw_rec v) = mg_id p" for v
    unfolding wp_sq by (rule wp_set_save) (use that in \<open>simp_all add: sound_clear\<close>)
  have settle: "wp (sq (if mg_operation p = ''upgrade'' then sq (await_target H r ?f t) (verify_plan H r p) else ret ())
      (sq (set_mrec (\<lambda>c. c\<lparr>mr_completed := fmupd (mt_name t) True (mr_completed c), mr_current := []\<rparr>)) (save_record ?f ?o))) ?Q ?E v"
    if "?K v" "mr_operation (mw_rec v) = mg_id p" for v
  proof -
    have k: "keeps (\<lambda>u. ?K u \<and> mw_rec u = mw_rec v) (if mg_operation p = ''upgrade'' then sq (await_target H r ?f t) (verify_plan H r p) else ret ())"
      by (intro keeps_intros roll_op.keeps_await_target roll_op.keeps_verify_plan)
    show ?thesis
      unfolding wp_sq [of "if _ then _ else _"]
      by (rule wp_conseq [OF keeps_wp [OF k]]) (use that final in auto)
  qed
  have applied: "wp (sq (set_mrec (\<lambda>c. c\<lparr>mr_phase := ''verifying''\<rparr>)) (sq (save_record ?f ?o)
      (sq (if mg_operation p = ''upgrade'' then sq (await_target H r ?f t) (verify_plan H r p) else ret ())
      (sq (set_mrec (\<lambda>c. c\<lparr>mr_completed := fmupd (mt_name t) True (mr_completed c), mr_current := []\<rparr>)) (save_record ?f ?o))))) ?Q ?E v"
    if "?K v" "mr_operation (mw_rec v) = mg_id p" for v
    unfolding wp_sq [of "set_mrec _"] wp_sq [of "save_record _ _"]
  proof (rule wp_set_save [OF that(1)])
    show "sound p (hist v) ((mw_rec v)\<lparr>mr_phase := ''verifying''\<rparr>)" using that(1) by (auto simp: rolling_def sound_def coherent_def)
  qed (rule settle, use that in simp_all)
  show ?thesis
    unfolding change_target_def wp_sq [of "set_mrec _"] wp_sq [of "save_record _ _"]
  proof (rule wp_set_save [OF w])
    show "sound p (hist w) ((mw_rec w)\<lparr>mr_current := mt_name t, mr_phase := ''applying''\<rparr>)" using t new by (simp add: sound_def coherent_def)
  next
    let ?c = "next_revision ((mw_rec w)\<lparr>mr_current := mt_name t, mr_phase := ''applying''\<rparr>)"
    let ?v = "w\<lparr>mw_rec := ?c, hist := (HSave ?f ?c ?o, AUnit (Inr ())) # hist w\<rparr>"
    assume v: "?K ?v"
    have "rollout_guard p (window_of r) (hist ?v) (HCall (plan_request H p t ''apply''))"
      using w t sel gate op
      by (auto simp: rollout_guard_def intent_guard_def mintends_def rolling_def intro: known_enrolled_Cons resumed_Cons gated_Cons)
    note after_call = rolling_ask [OF v this]
    show "wp (bnd (hcall (HCall (plan_request H p t ''apply'')) as_observed) (\<lambda>_.
        sq (set_mrec (\<lambda>c. c\<lparr>mr_phase := ''verifying''\<rparr>)) (sq (save_record ?f ?o)
        (sq (if mg_operation p = ''upgrade'' then sq (await_target H r ?f t) (verify_plan H r p) else ret ())
        (sq (set_mrec (\<lambda>c. c\<lparr>mr_completed := fmupd (mt_name t) True (mr_completed c), mr_current := []\<rparr>)) (save_record ?f ?o)))))) ?Q ?E ?v"
      unfolding wp_bnd [of "hcall _ _"] by (rule wp_hcallI, rule applied [OF after_call], simp add: op, rule after_call)
  qed simp
qed

lemma wp_withdrawal_gate:
  assumes "rolling p (window_of r) w"
  shows "wp (withdrawal_gate H r p t) (\<lambda>_ v. rolling p (window_of r) v \<and> mw_rec v = mw_rec w \<and>
      gated p (window_of r) (hist v) t (pins_at p t)) (\<lambda>_. rolling p (window_of r)) w"
proof -
  have d: "wp (doctor H dl s win fo) (\<lambda>h v. (rolling p (window_of r) v \<and> mw_rec v = mw_rec w) \<and> sampled s win h (hist v))
      (\<lambda>_. rolling p (window_of r)) w" for dl s win fo
    by (rule wp_conseq [OF wp_conj [OF wp_doctor keeps_wp [OF roll_op.keeps_doctor]]]) (use assms in auto)
  show ?thesis
    unfolding withdrawal_gate_def require_health_def runner_health_def wp_bnd wp_sq wp_reject_if wp_ret wp_lift
    by (rule wp_conseq [OF d]) (auto simp: gated_def split: sum.splits)
qed

lemma wp_apply_target:
  assumes w: "rolling p (window_of r) w" and op: "mr_operation (mw_rec w) = mg_id p"
    and t: "t \<in> set (fl_targets (plan_fleet p))" and sel: "pins_at p t \<noteq> fmempty \<longrightarrow> selects p t"
    and pending: "pends p b (mw_rec w) (hist w)" and head: "b \<longrightarrow> mr_current (mw_rec w) \<noteq> [] \<longrightarrow>
      coherent (plan_fleet p) (mw_rec w) \<longrightarrow> mr_current (mw_rec w) = mt_name t"
  shows "wp (apply_target H r p t) (\<lambda>_ v. rolling p (window_of r) v \<and> mr_operation (mw_rec v) = mg_id p \<and> pends p False (mw_rec v) (hist v))
    (\<lambda>_. rolling p (window_of r)) w"
proof (cases "flag (mr_completed (mw_rec w)) (mt_name t)")
  case True
  then have "pends p False (mw_rec w) (hist w)" using pending head by (fastforce simp: pends_def coherent_def)
  then show ?thesis using True w op by (simp add: apply_target_def wp_bnd wp_gets wp_ret)
next
  case False
  let ?K = "rolling p (window_of r)" and ?c = "mw_rec w"
  let ?Q = "\<lambda>_ :: unit. \<lambda>v. ?K v \<and> mr_operation (mw_rec v) = mg_id p \<and> mr_current (mw_rec v) = []"
  let ?P = "\<lambda>_ :: unit. \<lambda>v. ?K v \<and> mr_operation (mw_rec v) = mg_id p \<and> pends p False (mw_rec v) (hist v)"
  have weaken: "?Q x v \<Longrightarrow> ?P x v" for x v by (simp add: pends_def)
  have go: "wp (change_target H r p t) ?Q (\<lambda>_. ?K) v"
    if "?K v" "mw_rec v = ?c" "mg_operation p = ''upgrade'' \<longrightarrow> resumed p (hist v) (mt_name t) \<or> gated p (window_of r) (hist v) t (pins_at p t)" for v
    by (rule wp_change_target) (use that op t sel False in simp_all)
  have res: "resumed p (hist v) (mt_name t)" if "pends p b ?c (hist v)" "mr_current ?c \<noteq> []" for v
    using that head unfolding pends_def resumed_def by metis
  have gate: "wp (if mg_operation p = ''upgrade'' \<and> mr_current ?c = [] then withdrawal_gate H r p t else ret ())
      (\<lambda>_. wp (change_target H r p t) ?Q (\<lambda>_. ?K)) (\<lambda>_. ?K) v"
    if v: "?K v" "mw_rec v = ?c" "pends p b ?c (hist v)" for v
  proof (cases "mg_operation p = ''upgrade'' \<and> mr_current ?c = []")
    case True
    then show ?thesis unfolding wp_if by (simp) (rule wp_conseq [OF wp_withdrawal_gate [OF v(1)]], use v go in auto)
  next
    case False
    then show ?thesis using go [OF v(1,2)] res [OF v(3)] by (auto simp: wp_ret)
  qed
  have "wp (apply_target H r p t) ?Q (\<lambda>_. ?K) w"
    unfolding apply_target_def wp_bnd [of "gets _"] wp_gets wp_sq if_not_P [OF False]
    by (rule wp_conseq [OF keeps_wp [OF roll_res.keeps_verify_cloud [where p = p and window = "window_of r" and c = ?c and b = b]]])
       (use w pending in simp, rule gate, simp_all)
  then show ?thesis by (rule wp_conseq) (use weaken in auto)
qed

section \<open>The whole execution\<close>

lemma wp_stage:
  assumes v: "rolling p window v \<and> mw_rec v = c \<and> pends p b c (hist v)"
    and t: "t \<in> set (fl_targets (plan_fleet p))" and sel: "pins_at p t \<noteq> fmempty \<longrightarrow> selects p t"
  shows "wp (stage_target H p t) (\<lambda>_ v. rolling p window v \<and> mw_rec v = c \<and> pends p b c (hist v)) (\<lambda>_. rolling p window) v"
proof (cases "pins_at p t = fmempty")
  case True
  then show ?thesis using v by (simp add: stage_target_def wp_ret)
next
  case False
  then have "known_enrolled (hist v) t" using v t sel by (simp add: rolling_def)
  then have "rollout_guard p window (hist v) (HCall (plan_request H p t ''stage''))"
    by (simp add: rollout_guard_def intent_guard_def)
  note step = rolling_ask [OF conjunct1 [OF v] this]
  show ?thesis
    unfolding stage_target_def if_not_P [OF False] wp_bnd wp_ret
    by (rule wp_hcallI) (use step v in \<open>auto intro: pends_Cons\<close>)
qed

lemma set_rollout_order [simp]: "set (rollout_order cur ts) = set ts"
  by (auto simp: rollout_order_def)

lemma rollout_order_head:
  assumes "rollout_order cur ts = x # xs" and "cur \<noteq> []" and "cur \<in> mt_name ` set ts"
  shows "mt_name x = cur"
proof -
  have "filter (\<lambda>t. mt_name t = cur) ts \<noteq> []" using assms(3) by (auto simp: filter_empty_conv)
  then obtain y ys where y: "filter (\<lambda>t. mt_name t = cur) ts = y # ys" by (cases "filter (\<lambda>t. mt_name t = cur) ts") auto
  then have "y \<in> set (filter (\<lambda>t. mt_name t = cur) ts)" by (simp only: y) simp
  then have "mt_name y = cur" by simp
  then show ?thesis using assms(1,2) y by (simp add: rollout_order_def)
qed

lemma wp_roll_out:
  assumes w: "rolling p (window_of r) w" and op: "mr_operation (mw_rec w) = mg_id p" and pr: "pends p True (mw_rec w) (hist w)"
    and sel: "\<forall>t \<in> set (fl_targets (plan_fleet p)). pins_at p t \<noteq> fmempty \<longrightarrow> selects p t"
  shows "wp (roll_out H r p) (\<lambda>_. rolling p (window_of r)) (\<lambda>_. rolling p (window_of r)) w"
proof -
  let ?K = "rolling p (window_of r)" and ?f = "plan_fleet p" and ?c = "mw_rec w"
  let ?J = "\<lambda>v. ?K v \<and> mw_rec v = ?c \<and> pends p True ?c (hist v)"
  let ?ts = "rollout_order (mr_current ?c) (fl_targets ?f)"
  have finish: "wp (sq (verify_plan H r p) (sq (set_mrec (\<lambda>c. c\<lparr>mr_phase := ''complete'', mr_error := []\<rparr>)) (save_record ?f (rn_owner r))))
      (\<lambda>_. ?K) (\<lambda>_. ?K) v" if v: "?K v" "pends p False (mw_rec v) (hist v)" for v
    unfolding wp_sq
  proof (rule wp_conseq [OF keeps_wp [OF roll_res.keeps_verify_plan [where p = p and window = "window_of r" and c = "mw_rec v" and b = False]]])
    fix u assume u: "?K u \<and> mw_rec u = mw_rec v \<and> pends p False (mw_rec v) (hist u)"
    then have "sound p (hist u) ((mw_rec u)\<lparr>mr_phase := ''complete'', mr_error := []\<rparr>)"
      by (auto simp: sound_def pends_def coherent_def)
    with u show "wp (set_mrec (\<lambda>c. c\<lparr>mr_phase := ''complete'', mr_error := []\<rparr>)) (\<lambda>_. wp (save_record ?f (rn_owner r)) (\<lambda>_. ?K) (\<lambda>_. ?K)) (\<lambda>_. ?K) u"
      by (intro wp_set_save) simp_all
  qed (use v in simp_all)
  let ?I = "\<lambda>(ahead :: mtarget list) v. ?K v \<and> mr_operation (mw_rec v) = mg_id p \<and> pends p (ahead = []) (mw_rec v) (hist v) \<and>
     (ahead = [] \<longrightarrow> mw_rec v = ?c)"
  have loop: "wp (foreach ?ts (apply_target H r p)) (\<lambda>_. ?I ?ts) (\<lambda>_. ?K) v" if v: "?J v" for v
  proof (rule wp_foreach_done [where I = ?I])
    show "?I [] v" using v op by simp
  next
    fix ahead t rest u
    assume xs: "?ts = ahead @ t # rest" and u: "?I ahead u"
    have "t \<in> set ?ts" by (simp only: xs) simp
    then have t: "t \<in> set (fl_targets ?f)" by simp
    have head: "mr_current (mw_rec u) = mt_name t" if "ahead = []" "mr_current (mw_rec u) \<noteq> []" "coherent ?f (mw_rec u)"
    proof -
      have c: "mw_rec u = ?c" using u that(1) by simp
      then have "mr_current ?c \<in> mt_name ` set (fl_targets ?f)" using that by (simp add: coherent_def)
      then show ?thesis using rollout_order_head [of "mr_current ?c" "fl_targets ?f" t rest] xs that c by simp
    qed
    show "wp (apply_target H r p t) (\<lambda>_. ?I (ahead @ [t])) (\<lambda>_. ?K) u"
      by (rule wp_conseq [OF wp_apply_target [where b = "ahead = []"]]) (use u t sel head in auto)
  qed
  have rest: "wp (bnd (gets mw_rec) (\<lambda>c. sq (foreach (rollout_order (mr_current c) (fl_targets ?f)) (apply_target H r p))
      (sq (verify_plan H r p) (sq (set_mrec (\<lambda>c. c\<lparr>mr_phase := ''complete'', mr_error := []\<rparr>)) (save_record ?f (rn_owner r))))))
      (\<lambda>_. ?K) (\<lambda>_. ?K) v" if v: "?J v" for v
  proof -
    have c: "mw_rec v = ?c" using v by simp
    have e: "pends p False (mw_rec u) (hist u)" if u: "?I ?ts u" for u
    proof (cases "?ts = []")
      case True
      moreover have "set ?ts = set (fl_targets ?f)" by simp
      ultimately have "fl_targets ?f = []" by simp
      then have "mr_current d = [] \<or> \<not> coherent ?f d" for d by (simp add: coherent_def)
      then show ?thesis using u by (fastforce simp: pends_def)
    qed (use u in simp)
    show ?thesis
      unfolding wp_bnd [of "gets _"] wp_gets wp_sq [of "foreach _ _"] c
      by (rule wp_conseq [OF loop [OF v]]) (use e finish in auto)
  qed
  have k: "?J (w\<lparr>mw_mutated := True\<rparr>)" using w pr by (auto simp: rolling_def)
  show ?thesis
    unfolding roll_out_def set_mutated_def wp_sq [of "modify _"] wp_modify wp_sq [of "foreach _ _"]
    by (rule wp_conseq [OF wp_foreach [where I = ?J, OF k wp_stage]]) (use sel rest in auto)
qed

lemma wp_start_operation:
  assumes w: "rolling p (window_of r) w" and pr: "pends p True (mw_rec w) (hist w)"
  shows "wp (start_operation H r p) (\<lambda>_ v. rolling p (window_of r) v \<and> mr_operation (mw_rec v) = mg_id p \<and> pends p True (mw_rec v) (hist v))
    (\<lambda>_. rolling p (window_of r)) w"
proof -
  let ?K = "rolling p (window_of r)" and ?f = "plan_fleet p" and ?c = "mw_rec w"
  let ?Q = "\<lambda>_ :: unit. \<lambda>v. ?K v \<and> mr_operation (mw_rec v) = mg_id p \<and> pends p True (mw_rec v) (hist v)"
  let ?J = "\<lambda>v. ?K v \<and> mw_rec v = ?c \<and> pends p True ?c (hist v)"
  have begin_op: "wp (sq (set_mrec (staging p)) (sq set_mutated (save_record ?f (rn_owner r)))) ?Q (\<lambda>_. ?K) v"
    if v: "?J v" "mr_phase ?c \<in> {''enrolled'', ''complete''}" for v
  proof -
    have n: "\<not> coherent ?f d" if "mr_current ?c \<noteq> []" "coherent ?f d \<longrightarrow> d = ?c" for d
      using v(2) that by (auto simp: coherent_def)
    have same: "mr_current (next_revision (staging p ?c)) = mr_current ?c" by (simp add: staging_def)
    have f: "pends p True (next_revision (staging p ?c)) (hist v)"
      using v(1) n unfolding pends_def same by metis
    have c: "sound p (hist v) (next_revision (staging p ?c))"
      using v(1) n same unfolding pends_def sound_def coherent_def by metis
    have "?K (v\<lparr>mw_mutated := True\<rparr>)" using conjunct1 [OF v(1)] by (simp add: rolling_def)
    note s = save_rolling [OF this, of "next_revision (staging p ?c)"]
    show ?thesis
      unfolding set_mrec_def set_mutated_def wp_sq wp_modify
      by (rule wp_save_record) (use s c v pends_Cons [OF _ f] in \<open>simp_all add: staging_def\<close>)
  qed
  have gate: "wp (sq (if mg_operation p = ''upgrade''
        then bnd (require_health H r p m) (\<lambda>_. ret ()) else ret ())
      (sq (set_mrec (staging p)) (sq set_mutated (save_record ?f (rn_owner r))))) ?Q (\<lambda>_. ?K) v"
    if v: "?J v" "mr_phase ?c \<in> {''enrolled'', ''complete''}" for v m
    unfolding wp_sq [of "if _ then _ else _"]
    by (rule wp_conseq [OF keeps_wp [where I = ?J]])
       (use v begin_op in \<open>auto intro!: keeps_intros roll_res.keeps_require_health\<close>)
  have pre: "wp (bnd (observe H ?f 0) (\<lambda>current. sq (lift (each_ok (preflight_target H p current) (fl_targets ?f)))
      (sq (if mg_operation p = ''upgrade''
        then bnd (require_health H r p m) (\<lambda>_. ret ()) else ret ())
      (sq (set_mrec (staging p)) (sq set_mutated (save_record ?f (rn_owner r))))))) ?Q (\<lambda>_. ?K) w"
    if "mr_phase ?c \<in> {''enrolled'', ''complete''}" for m
    unfolding wp_bnd [of "observe _ _ _"] wp_sq [of "lift _"] wp_lift
    by (rule wp_conseq [OF keeps_wp [OF roll_res.keeps_observe [where p = p and window = "window_of r" and c = ?c and b = True]]])
       (use w pr that gate in \<open>auto split: sum.splits\<close>)
  then show ?thesis
    unfolding start_operation_def wp_bnd [of "gets _"] wp_gets wp_sq [of "reject_if _ _"] wp_reject_if
    using w by auto
qed

lemma wp_mexecute_body:
  assumes w: "rolling p (window_of r) w" and pr: "pends p True (mw_rec w) (hist w)"
    and sel: "\<forall>t \<in> set (fl_targets (plan_fleet p)). pins_at p t \<noteq> fmempty \<longrightarrow> selects p t"
  shows "wp (mexecute_body H r p) (\<lambda>_. rolling p (window_of r)) (\<lambda>_. rolling p (window_of r)) w"
proof -
  let ?K = "rolling p (window_of r)"
  have last_part: "wp (bnd (gets mw_rec) (\<lambda>c. if mr_phase c = ''complete''
       then bnd (require_health H r p m) (\<lambda>_. ret ()) else roll_out H r p)) (\<lambda>_. ?K) (\<lambda>_. ?K) v"
    if v: "?K v" "mr_operation (mw_rec v) = mg_id p" "pends p True (mw_rec v) (hist v)" for v m
  proof (cases "mr_phase (mw_rec v) = ''complete''")
    case True
    have "keeps ?K (bnd (require_health H r p m) (\<lambda>_. ret ()))"
      by (intro keeps_intros roll.keeps_require_health)
    then show ?thesis unfolding wp_bnd [of "gets _"] wp_gets if_P [OF True] using v(1) by (rule keeps_wp)
  next
    case False
    then show ?thesis using wp_roll_out [OF v sel] by (simp add: wp_bnd wp_gets)
  qed
  have "wp (if mr_operation (mw_rec w) = mg_id p then ret () else start_operation H r p)
      (\<lambda>_ v. ?K v \<and> mr_operation (mw_rec v) = mg_id p \<and> pends p True (mw_rec v) (hist v)) (\<lambda>_. ?K) w"
  proof (cases "mr_operation (mw_rec w) = mg_id p")
    case True
    then show ?thesis using w pr by (simp add: wp_ret)
  next
    case False
    then show ?thesis using wp_start_operation [OF w pr] by simp
  qed
  then show ?thesis
    unfolding mexecute_body_def wp_bnd [of "gets _"] wp_gets wp_sq [of "if _ then _ else _"]
    by (rule wp_conseq) (use last_part in \<open>auto simp: wp_bnd wp_gets\<close>)
qed

lemma wp_msettle:
  assumes w: "rolling p (window_of r) w"
  shows "wp (msettle r p res) (\<lambda>_. rolling p (window_of r)) (\<lambda>_. rolling p (window_of r)) w"
proof -
  let ?K = "rolling p (window_of r)" and ?f = "plan_fleet p"
  have rel: "wp (release_fleet ?f o1 x) (\<lambda>_. ?K) (\<lambda>_. ?K) v" if "?K v" for v x o1
  proof -
    have "rollout_guard p (window_of r) (hist v) (HRelease ?f o1)"
      by (simp add: rollout_guard_def intent_guard_def)
    note step = rolling_ask [OF that this]
    show ?thesis
      unfolding release_fleet_def wp_bnd wp_attempt
      by (rule wp_hcallI) (use step in \<open>auto simp: wp_lift split: sum.splits\<close>)
  qed
  have save: "wp (sq (set_mrec (\<lambda>c. c\<lparr>mr_phase := ''interrupted'', mr_error := safe_error e\<rparr>))
      (bnd (attempt (save_record ?f (rn_owner r))) (\<lambda>s. ret (joined res s)))) (\<lambda>_. ?K) (\<lambda>_. ?K) w" for e
    unfolding wp_sq wp_bnd wp_attempt wp_ret
  proof (rule wp_set_save [OF w])
    show "sound p (hist w) ((mw_rec w)\<lparr>mr_phase := ''interrupted'', mr_error := safe_error e\<rparr>)"
      using w by (auto simp: rolling_def sound_def coherent_def)
  qed
  have "wp (case res of Inl e \<Rightarrow> if mw_mutated w
           then sq (set_mrec (\<lambda>c. c\<lparr>mr_phase := ''interrupted'', mr_error := safe_error e\<rparr>))
             (bnd (attempt (save_record ?f (rn_owner r))) (\<lambda>s. ret (joined res s)))
           else ret res
       | Inr _ \<Rightarrow> ret res) (\<lambda>_. ?K) (\<lambda>_. ?K) w"
    using save w by (cases res) (simp_all add: wp_ret)
  then show ?thesis
    unfolding msettle_def wp_bnd [of "gets _"] wp_gets wp_bnd [of "case_sum _ _ _"]
    by (rule wp_conseq) (auto intro: rel)
qed

lemma no_pins_unselected:
  assumes "validate_mplan H R W p = Inr ()" and "t \<in> set (fl_targets (plan_fleet p))" and "pins_at p t \<noteq> fmempty"
  shows "selects p t"
proof (rule ccontr)
  assume n: "\<not> selects p t"
  obtain k where "scan_ok (check_mimages R p) 0 (fl_targets (plan_fleet p)) = Inr k"
    using assms(1) by (auto simp: validate_mplan_def res_simps plan_fleet_def)
  then have "\<forall>t \<in> set (fl_targets (plan_fleet p)). fcard (fmdom (pins_at p t)) = length (expected_components p t)"
    by (rule scan_ok_all) (auto simp: check_mimages_def split: if_splits)
  then have "fcard (fmdom (pins_at p t)) = 0" using assms(2) n by (simp add: expected_components_def)
  then show False using assms(3) fmdom_card_0 by metis
qed

interpretation plain: quiet_invariant "\<lambda>w. guarded (rollout_guard p window) (hist w) \<and> untouched (hist w)" for p window
  by unfold_locales (auto intro!: quiet_guard)

lemma mexecute_guarded:
  assumes "hist w = []" and "mexecute H R W r p w = (res, w')"
  shows "guarded (rollout_guard p (window_of r)) (hist w')"
proof (cases "validate_mplan H R W p")
  case (Inl e)
  then show ?thesis using assms by (simp add: mexecute_def oper_defs)
next
  case (Inr u)
  let ?G = "\<lambda>w. guarded (rollout_guard p (window_of r)) (hist w)" and ?f = "plan_fleet p"
  let ?P = "\<lambda>v. ?G v \<and> untouched (hist v)"
  have valid: "validate_mplan H R W p = Inr ()" using Inr by simp
  have sel: "\<forall>t \<in> set (fl_targets ?f). pins_at p t \<noteq> fmempty \<longrightarrow> selects p t"
    using no_pins_unselected [OF valid] by blast
  have rollG: "rolling p (window_of r) v \<Longrightarrow> ?G v" for v by (simp add: rolling_def)
  have body: "wp (sq (modify (\<lambda>w. w\<lparr>mw_rec := c, mw_mutated := False\<rparr>)) (bnd (attempt (mexecute_body H r p)) (msettle r p)))
      (\<lambda>_. ?G) (\<lambda>_. ?G) v"
    if "?G v" "c \<in> claims (hist v)" "untouched (hist v)" "\<forall>t \<in> set (fl_targets ?f). selects p t \<longrightarrow> known_enrolled (hist v) t" for v c
  proof -
    let ?u = "v\<lparr>mw_rec := c, mw_mutated := False\<rparr>"
    have k: "rolling p (window_of r) ?u" "pends p True (mw_rec ?u) (hist ?u)"
      using that by (auto simp: rolling_def pends_def sound_def)
    have s: "wp (msettle r p x) (\<lambda>_. ?G) (\<lambda>_. ?G) u" if "rolling p (window_of r) u" for u x
      by (rule wp_conseq [OF wp_msettle [OF that]]) (auto intro: rollG)
    show ?thesis
      unfolding wp_sq wp_modify wp_bnd wp_attempt
      by (rule wp_conseq [OF wp_mexecute_body [OF k sel]]) (auto intro: s)
  qed
  have claim: "wp (bnd (hcall (HAcquire ?f s o1) as_mrecord) (\<lambda>c. sq (modify (\<lambda>w. w\<lparr>mw_rec := c, mw_mutated := False\<rparr>))
      (bnd (attempt (mexecute_body H r p)) (msettle r p)))) (\<lambda>_. ?G) (\<lambda>_. ?G) v"
    if v: "?P v" "\<forall>t \<in> set (fl_targets ?f). selects p t \<longrightarrow> known_enrolled (hist v) t" for v s o1
  proof -
    let ?q = "HAcquire ?f s o1" and ?a = "answer (env v) (hist v) (HAcquire ?f s o1)"
    have g: "rollout_guard p (window_of r) (hist v) ?q" by (simp add: rollout_guard_def intent_guard_def)
    have a: "?a = ARecord (Inr c)" if "as_mrecord ?a = Inr c" for c
      using that by (cases ?a) (auto simp: strange_def)
    have "wp (sq (modify (\<lambda>w. w\<lparr>mw_rec := c, mw_mutated := False\<rparr>)) (bnd (attempt (mexecute_body H r p)) (msettle r p)))
        (\<lambda>_. ?G) (\<lambda>_. ?G) (v\<lparr>hist := (?q, ?a) # hist v\<rparr>)" if c: "as_mrecord ?a = Inr c" for c
    proof (rule body)
      show "?G (v\<lparr>hist := (?q, ?a) # hist v\<rparr>)" using v(1) g by simp
      show "c \<in> claims (hist (v\<lparr>hist := (?q, ?a) # hist v\<rparr>))" using a [OF c] by (auto simp: claims_def)
      show "untouched (hist (v\<lparr>hist := (?q, ?a) # hist v\<rparr>))" using v(1) by simp
      show "\<forall>t \<in> set (fl_targets ?f). selects p t \<longrightarrow> known_enrolled (hist (v\<lparr>hist := (?q, ?a) # hist v\<rparr>)) t"
        using v(2) by (auto intro: known_enrolled_Cons)
    qed
    then show ?thesis using v(1) g by (simp add: wp_bnd [of "hcall _ _"] wp_hcall Let_def split: sum.splits)
  qed
  have read: "wp (bnd (hcall (HRead ?f) as_stored) (\<lambda>(prior, _).
     sq (reject_if (list_ex (\<lambda>t. selects p t \<and> \<not> is_enrolled prior t) (fl_targets ?f)) m)
     (bnd (hcall (HAcquire ?f s o1) as_mrecord) (\<lambda>c. sq (modify (\<lambda>w. w\<lparr>mw_rec := c, mw_mutated := False\<rparr>))
      (bnd (attempt (mexecute_body H r p)) (msettle r p)))))) (\<lambda>_. ?G) (\<lambda>_. ?G) v" if v: "?P v" for v s o1 m
  proof -
    let ?a = "answer (env v) (hist v) (HRead ?f)"
    let ?v = "v\<lparr>hist := (HRead ?f, ?a) # hist v\<rparr>"
    have g: "rollout_guard p (window_of r) (hist v) (HRead ?f)" by (simp add: rollout_guard_def intent_guard_def)
    have a: "?a = AStored (Inr x)" if "as_stored ?a = Inr x" for x
      using that by (cases ?a) (auto simp: strange_def)
    have P: "?P ?v" using v g by simp
    have e: "known_enrolled (hist ?v) t" if "as_stored ?a = Inr (c, x)" "is_enrolled c t" for c x t
      using a [OF that(1)] that(2) by (auto simp: known_enrolled_def)
    show ?thesis
      unfolding wp_bnd [of "hcall (HRead _) _"]
    proof (rule wp_hcallI2)
      fix y assume y: "as_stored ?a = Inr y"
      obtain c x where cx: "y = (c, x)" by fastforce
      show "wp (case y of (prior, _) \<Rightarrow> sq (reject_if (list_ex (\<lambda>t. selects p t \<and> \<not> is_enrolled prior t) (fl_targets ?f)) m)
         (bnd (hcall (HAcquire ?f s o1) as_mrecord) (\<lambda>c. sq (modify (\<lambda>w. w\<lparr>mw_rec := c, mw_mutated := False\<rparr>))
         (bnd (attempt (mexecute_body H r p)) (msettle r p))))) (\<lambda>_. ?G) (\<lambda>_. ?G) ?v"
        unfolding cx prod.case wp_sq [of "reject_if _ _"] wp_reject_if
        using P claim [OF P] e y cx by (auto simp: list_ex_iff)
    next
      show "?G ?v" using P by simp
    qed
  qed
  have "wp (mexecute H R W r p) (\<lambda>_. ?G) (\<lambda>_. ?G) w"
    unfolding mexecute_def wp_bnd [of "lift _"] wp_lift valid wp_sq [of "runner_check _ _"]
    by (simp only: sum.case) (rule wp_conseq [OF keeps_wp [OF plain.keeps_runner_check [where p = p and window = "window_of r"]]],
      use assms(1) read in \<open>auto simp: untouched_def\<close>)
  from wp_exit [OF this] show ?thesis using assms(2) by simp
qed

section \<open>Properties\<close>

text \<open>C4: A managed rollout writes ahead. In every run of an execution, whatever the hosts, AWS and the
  journal answer, the latest acknowledged save before each request to change a host announces it: the
  saved record is in phase applying, of this operation, and names this target as the pending one.\<close>

theorem managed_writes_ahead:
  assumes "hist w = []" and "mexecute H R W r p w = (res, w')"
    and "hist w' = newer @ (HCall q, rep) # older" and "mq_action q = ''apply''"
  shows "\<exists>mid f c o1 old. older = mid @ (HSave f c o1, AUnit (Inr ())) # old \<and> mr_phase c = ''applying'' \<and>
    mr_current c = mt_name (mq_target q) \<and> mr_operation c = mq_operation_id q \<and>
    (\<forall>(q', r') \<in> set mid. msaved q' r' = None)"
proof -
  have "guarded (intent_guard msaved mapplied mintends) h" if "guarded (rollout_guard p (window_of r)) h" for h
    using that by (induction h) (auto simp: rollout_guard_def)
  then have g: "guarded (intent_guard msaved mapplied mintends) (hist w')" using mexecute_guarded [OF assms(1,2)] by blast
  have "mapplied (HCall q) = Some q" using assms(4) by simp
  from rollout.effect_announced [OF g assms(3) this] obtain mid sq1 sr old c where
    m: "older = mid @ (sq1, sr) # old" "msaved sq1 sr = Some c" "mintends c q" "\<forall>(q', r') \<in> set mid. msaved q' r' = None" by blast
  from m(2) obtain f o1 where "sq1 = HSave f c o1" "sr = AUnit (Inr ())"
    by (cases "(sq1, sr)" rule: msaved.cases) auto
  with m show ?thesis unfolding mintends_def by blast
qed

text \<open>C12: No host outside the enrollment is changed. In every run, whatever the hosts, AWS and the journal
  answer, each request to stage or to apply at least one image is for a target that the record read
  from the journal before shows as enrolled: by this very instance, or by its name when the record has
  no map of instances.\<close>

theorem managed_only_enrolled:
  assumes "hist w = []" and "mexecute H R W r p w = (res, w')"
    and "hist w' = newer @ (HCall q, rep) # older" and "mq_action q = ''stage'' \<or> mq_action q = ''apply''" and "mq_pins q \<noteq> fmempty"
  shows "\<exists>f c o1. (HRead f, AStored (Inr (c, o1))) \<in> set older \<and> is_enrolled c (mq_target q)"
  using guarded_split [OF mexecute_guarded [OF assms(1,2)] assms(3)] assms(4,5)
  by (auto simp: rollout_guard_def known_enrolled_def)

text \<open>C8: In an upgrade, a target is only withdrawn through the gates. In every run, whatever the hosts, AWS
  and the journal answer, each change of a host was preceded by a complete health check in which the
  selected targets were healthy, and which the target passed as a withdrawal: if the change replaces
  the core, drive or tenderdash of a validator, the observed power without it stays above two thirds.
  The one exception is the first change of a run whose claimed record names a pending target: it is
  that very target, unless the claimed record was incoherent (it named a target outside the fleet, one
  completed already, or one in a phase with nothing pending). Every record that the execution saves is
  coherent, unless the claimed one was not.\<close>

theorem withdrawals_gated:
  assumes "hist w = []" and "mexecute H R W r p w = (res, w')" and "mg_operation p = ''upgrade''"
  shows "(\<forall>newer q rep older. hist w' = newer @ (HCall q, rep) # older \<longrightarrow> mq_action q = ''apply'' \<longrightarrow>
      (\<exists>he. sampled (mg_snapshot p) (window_of r) he older \<and> health_selected he p \<and>
         can_withdraw_selected (he_snapshot he) (mq_target q) (mq_pins q) = Inr ()) \<or>
      (\<forall>z \<in> set older. mapplied (fst z) = None) \<and> (\<exists>f s o1 c. (HAcquire f s o1, ARecord (Inr c)) \<in> set older \<and>
         mr_current c \<noteq> [] \<and> (mr_current c = mt_name (mq_target q) \<or> \<not> coherent (plan_fleet p) c))) \<and>
    (\<forall>f c o1 rep. (HSave f c o1, rep) \<in> set (hist w') \<longrightarrow> coherent (plan_fleet p) c \<or>
      (\<exists>f' s o2 d. (HAcquire f' s o2, ARecord (Inr d)) \<in> set (hist w') \<and> \<not> coherent (plan_fleet p) d))"
proof (intro conjI allI impI)
  fix newer q rep older
  assume h: "hist w' = newer @ (HCall q, rep) # older" "mq_action q = ''apply''"
  have "resumed p older (mt_name (mq_target q)) \<or> gated p (window_of r) older (mq_target q) (mq_pins q)"
    using guarded_split [OF mexecute_guarded [OF assms(1,2)] h(1)] h(2) assms(3) by (simp add: rollout_guard_def)
  then show "(\<exists>he. sampled (mg_snapshot p) (window_of r) he older \<and> health_selected he p \<and>
         can_withdraw_selected (he_snapshot he) (mq_target q) (mq_pins q) = Inr ()) \<or>
      (\<forall>z \<in> set older. mapplied (fst z) = None) \<and> (\<exists>f s o1 c. (HAcquire f s o1, ARecord (Inr c)) \<in> set older \<and>
         mr_current c \<noteq> [] \<and> (mr_current c = mt_name (mq_target q) \<or> \<not> coherent (plan_fleet p) c))"
    unfolding resumed_def gated_def untouched_def claims_def by blast
next
  fix f c o1 rep
  assume "(HSave f c o1, rep) \<in> set (hist w')"
  then obtain newer older where h: "hist w' = newer @ (HSave f c o1, rep) # older" by (meson split_list)
  from guarded_split [OF mexecute_guarded [OF assms(1,2)] h] have "sound p older c" by (simp add: rollout_guard_def)
  then show "coherent (plan_fleet p) c \<or>
      (\<exists>f' s o2 d. (HAcquire f' s o2, ARecord (Inr d)) \<in> set (hist w') \<and> \<not> coherent (plan_fleet p) d)"
    unfolding sound_def claims_def h by auto
qed

section \<open>Witnesses\<close>

definition sample_enrolled :: mrecord where
  "sample_enrolled = (fresh_mrecord sample_hash sample_fleet sample_snapshot)\<lparr>mr_phase := ''enrolled'',
     mr_enrolled := fmap_of_list [(''a'', True), (''b'', True)],
     mr_instances := Some (fmap_of_list [(''a'', ''i-00000001''), (''b'', ''i-00000002'')])\<rparr>"

text \<open>A claimed record whose withdrawal of the first host had begun; changing the host fails.\<close>

definition sample_interrupted :: mrecord where
  "sample_interrupted = sample_enrolled\<lparr>mr_operation := mg_id sample_mplan, mr_phase := ''interrupted'', mr_current := ''a'',
     mr_completed := fmap_of_list [(''a'', False), (''b'', False)]\<rparr>"

definition sample_service :: "mrecord \<Rightarrow> bool \<Rightarrow> (hreq, hreply) env" where
  "sample_service c works = sample_hosts\<lparr>answer := (\<lambda>h q. case q of HRead f \<Rightarrow> AStored (Inr (c, []))
     | HAcquire f s o1 \<Rightarrow> ARecord (Inr c)
     | HCall m \<Rightarrow> if mq_action m = ''apply'' \<and> \<not> works then AObserved (Inl (Transport ''lost'')) else answer sample_hosts h q
     | _ \<Rightarrow> answer sample_hosts h q)\<rparr>"

definition sample_runner :: mrunner where
  "sample_runner = \<lparr>rn_targets = [], rn_ready = True, rn_owner = ''run-1'', rn_window = 5, rn_timeout = 0,
     rn_deadline = Some 100000, rn_pages = 1, rn_polls = 1\<rparr>"

definition sample_run :: "unit res \<times> mworld" where
  "sample_run = mexecute sample_hash sample_refs ''w'' sample_runner sample_mplan (sample_mworld (sample_service sample_interrupted False))"

lemma run_hcall: "hcall q g w = (g (answer (env w) (hist w) q), w\<lparr>hist := (q, answer (env w) (hist w) q) # hist w\<rparr>)"
  by (simp add: oper_defs hcall_def Let_def)

lemma sample_live: "scan_ok (check_live sample_fleet) [] (concat [map (\<lambda>t. \<lparr>li_id = mt_id t, li_tags = [(''net'', ''devnet-m'')],
    li_arch = ''x86_64'', li_state = Some ''running'', li_public = mt_address t, li_private = []\<rparr>) (fl_targets sample_fleet)]) =
    Inr [''i-00000002'', ''i-00000001'']"
  by code_simp

definition sample_seen :: "(hreq, hreply) hist" where
  "sample_seen = map (\<lambda>q. (q, answer sample_hosts [] q)) [HInstances (map mt_id (fl_targets sample_fleet)) [], HIdentity]"

lemma sample_cloud:
  assumes "env w = sample_service c b"
  shows "verify_cloud sample_fleet (Suc 0) w = (Inr (), w\<lparr>hist := sample_seen @ hist w\<rparr>)"
proof -
  have n: "card (set (map mt_id (fl_targets sample_fleet))) = 2" by (simp add: sample_fleet_def sample_mtarget_def)
  have a: "fl_account sample_fleet = ''123456789012''" by (simp add: sample_fleet_def)
  show ?thesis
    using sample_live n
    by (simp add: verify_cloud_def managed_account_def run_steps run_hcall sample_fleet_valid assms sample_service_def
        sample_hosts_def sample_seen_def a del: concat.simps map_map set_map)
qed

lemma sample_plan_parts:
  "plan_fleet sample_mplan = sample_fleet" "mg_operation sample_mplan = ''upgrade''" "mg_id sample_mplan = sample_a64"
  "mg_snapshot sample_mplan = sample_snapshot"
  by (simp_all add: plan_fleet_def sample_mplan_def sample_snapshot_def)

lemma sample_targets: "fl_targets sample_fleet = [sample_mtarget ''a'' ''i-00000001'' ''203.0.113.1'', sample_mtarget ''b'' ''i-00000002'' ''203.0.113.2'']"
  by (simp add: sample_fleet_def)

lemma sample_pins: "pins_at sample_mplan (sample_mtarget ''a'' i x) = fmap_of_list [(''core'', sample_pin)]"
  "pins_at sample_mplan (sample_mtarget ''b'' i x) = fmap_of_list [(''core'', sample_pin)]"
  by (simp_all add: pins_at_def at_or_def sample_mplan_def sample_mtarget_def)

lemma sample_host_names: "mt_name (sample_mtarget x i a) = x" "mt_id (sample_mtarget x i a) = i"
  by (simp_all add: sample_mtarget_def)

lemma sample_enrollment: "is_enrolled sample_interrupted (sample_mtarget ''a'' ''i-00000001'' x)"
  "is_enrolled sample_interrupted (sample_mtarget ''b'' ''i-00000002'' x)"
  by code_simp+

lemma sample_record: "mr_operation sample_interrupted = sample_a64" "mr_phase sample_interrupted = ''interrupted''"
  "mr_current sample_interrupted = ''a''" "\<not> flag (mr_completed sample_interrupted) ''a''"
  by (simp_all add: sample_interrupted_def sample_plan_parts flag_def)

lemma sample_answers:
  "answer (sample_service c b) h (HRead f) = AStored (Inr (c, []))"
  "answer (sample_service c b) h (HAcquire f s o1) = ARecord (Inr c)"
  "answer (sample_service c b) h (HSave f r o1) = AUnit (Inr ())"
  "answer (sample_service c b) h (HRelease f o1) = AUnit (Inr ())"
  "answer (sample_service c b) h (HCall m) = (if mq_action m = ''apply'' \<and> \<not> b then AObserved (Inl (Transport ''lost''))
     else AObserved (Inr (sample_observation (mt_id (mq_target m)) sample_pin (word_of_nat (length h)))))"
  by (simp_all add: sample_service_def sample_hosts_def)

lemma sample_options: "rn_ready sample_runner" "rn_owner sample_runner = ''run-1''" "rn_pages sample_runner = Suc 0"
  "rn_deadline sample_runner = Some 100000" "window_of sample_runner = 5"
  by (simp_all add: sample_runner_def window_of_def)

definition sample_change :: mrequest where
  "sample_change = plan_request sample_hash sample_mplan (sample_mtarget ''a'' ''i-00000001'' ''203.0.113.1'') ''apply''"

lemma sample_body:
  "HCall sample_change \<in> fst ` set (hist (snd sample_run))"
  unfolding sample_run_def sample_change_def
  by (simp add: fun_cong [OF mexecute_def] run_steps run_hcall sample_mplan_valid sample_cloud sample_plan_parts
      fun_cong [OF runner_check_def] sample_options sample_mworld_def sample_answers sample_enrollment sample_targets
      fun_cong [OF mexecute_body_def] sample_record fun_cong [OF roll_out_def] fun_cong [OF set_mutated_def] fun_cong [OF stage_target_def]
      sample_pins sample_host_names rollout_order_def fun_cong [OF apply_target_def] fun_cong [OF change_target_def] fun_cong [OF set_mrec_def]
      fun_cong [OF save_record_def] fun_cong [OF msettle_def] fun_cong [OF release_fleet_def])

lemma sample_run_split:
  obtains newer rep older where "hist (snd sample_run) = newer @ (HCall sample_change, rep) # older"
proof -
  obtain a where "(HCall sample_change, a) \<in> set (hist (snd sample_run))" using sample_body by auto
  then show thesis using that by (metis split_list)
qed

lemma sample_run_facts:
  "hist (sample_mworld e) = []"
  "mexecute sample_hash sample_refs ''w'' sample_runner sample_mplan (sample_mworld (sample_service sample_interrupted False)) =
     (fst sample_run, snd sample_run)"
  "mq_action sample_change = ''apply''" "mq_pins sample_change \<noteq> fmempty" "mt_name (mq_target sample_change) = ''a''"
  by (simp_all add: sample_mworld_def sample_run_def sample_change_def sample_pins sample_host_names)

theorem managed_writes_ahead_witness:
  "\<exists>f c o1 rep. (HSave f c o1, rep) \<in> set (hist (snd sample_run)) \<and> mr_phase c = ''applying'' \<and> mr_current c = ''a''"
proof -
  obtain newer rep older where h: "hist (snd sample_run) = newer @ (HCall sample_change, rep) # older" by (rule sample_run_split)
  obtain mid f c o1 old where "older = mid @ (HSave f c o1, AUnit (Inr ())) # old" "mr_phase c = ''applying''"
    "mr_current c = mt_name (mq_target sample_change)"
    using managed_writes_ahead [OF sample_run_facts(1,2) h sample_run_facts(3)] by blast
  then show ?thesis using h sample_run_facts(5) by (metis in_set_conv_decomp append.assoc append_Cons)
qed

theorem managed_only_enrolled_witness:
  "\<exists>f c o1. (HRead f, AStored (Inr (c, o1))) \<in> set (hist (snd sample_run)) \<and> is_enrolled c (mq_target sample_change)"
proof -
  obtain newer rep older where h: "hist (snd sample_run) = newer @ (HCall sample_change, rep) # older" by (rule sample_run_split)
  show ?thesis
    using managed_only_enrolled [OF sample_run_facts(1,2) h disjI2 [OF sample_run_facts(3)] sample_run_facts(4)]
    unfolding h by auto
qed

theorem withdrawals_gated_witness:
  "\<exists>newer rep older. hist (snd sample_run) = newer @ (HCall sample_change, rep) # older \<and>
    ((\<exists>he. sampled sample_snapshot 5 he older \<and> health_selected he sample_mplan) \<or>
     (\<exists>f s o1 c. (HAcquire f s o1, ARecord (Inr c)) \<in> set older \<and> (mr_current c = ''a'' \<or> \<not> coherent sample_fleet c)))"
proof -
  obtain newer rep older where h: "hist (snd sample_run) = newer @ (HCall sample_change, rep) # older" by (rule sample_run_split)
  have u: "mg_operation sample_mplan = ''upgrade''" by (rule sample_plan_parts)
  have "(\<exists>he. sampled (mg_snapshot sample_mplan) (window_of sample_runner) he older \<and> health_selected he sample_mplan \<and>
         can_withdraw_selected (he_snapshot he) (mq_target sample_change) (mq_pins sample_change) = Inr ()) \<or>
      (\<forall>z \<in> set older. mapplied (fst z) = None) \<and> (\<exists>f s o1 c. (HAcquire f s o1, ARecord (Inr c)) \<in> set older \<and>
         mr_current c \<noteq> [] \<and> (mr_current c = mt_name (mq_target sample_change) \<or> \<not> coherent (plan_fleet sample_mplan) c))"
    using conjunct1 [OF withdrawals_gated [OF sample_run_facts(1,2) u]] h sample_run_facts(3) by blast
  then show ?thesis unfolding sample_run_facts(5) sample_plan_parts sample_options using h by blast
qed

end
