(* ===== verification/Managed_Resolve.thy ===== *)
theory Managed_Resolve
  imports Managed_Gate
begin

text \<open>
  \<open>internal/managed/resolve.go\<close>: the immutable images of an operation, resolved once per reference and
  architecture. \<open>ins\<close> is the registry inspector; the components of a target are taken in the order of
  their names (the code ranges over a map). The theorem composes it with the plan: what it returns is
  what the validation of a plan accepts.
\<close>

definition source_reference :: "snapshot \<Rightarrow> (string, string) fmap \<Rightarrow> mtarget \<Rightarrow> string \<Rightarrow> string res" where
  "source_reference s choices t c =
     (if mget choices c \<noteq> [] then Inr (mget choices c)
      else case ct_digests (at_or zero_container (ob_components (seen_at (ss_nodes s) (mt_name t))) c) of
        [] \<Rightarrow> Inl (Err ''no immutable source; declare a candidate'') | d # _ \<Rightarrow> Inr d)"

definition inspect_pin :: "image_refs \<Rightarrow> (string \<Rightarrow> string list \<Rightarrow> pinned_image res) \<Rightarrow> string \<Rightarrow> string \<Rightarrow> string res" where
  "inspect_pin R ins ref arch = after (ins ref [arch]) (\<lambda>i. case im_platforms i of
     [q] \<Rightarrow> (case weak_digest R (im_pinned i) of None \<Rightarrow> Inl (Err ''invalid digest reference'')
       | Some (repo, _) \<Rightarrow> Inr (digest_name R repo (pf_digest q)))
   | _ \<Rightarrow> Inl (Err ''image architecture resolution incomplete''))"

definition resolve_one :: "image_refs \<Rightarrow> (string \<Rightarrow> string list \<Rightarrow> pinned_image res) \<Rightarrow> snapshot \<Rightarrow> string \<Rightarrow>
    (string, string) fmap \<Rightarrow> string list \<Rightarrow> mtarget \<Rightarrow> (string, string) fmap \<times> pins \<Rightarrow> string \<Rightarrow>
    ((string, string) fmap \<times> pins) res" where
  "resolve_one R ins s scope choices targets t st c = (let (cache, ps) = st in
     if (targets \<noteq> [] \<and> mt_name t \<notin> set targets) \<or> \<not> selected scope c then Inr st
     else after (source_reference s choices t c) (\<lambda>ref. let key = ref @ ''/'' @ mt_arch t in
       if mget cache key \<noteq> [] then Inr (cache, fmupd c (mget cache key) ps)
       else after (inspect_pin R ins ref (mt_arch t)) (\<lambda>pin. Inr (fmupd key pin cache, fmupd c pin ps))))"

definition resolve_target :: "image_refs \<Rightarrow> (string \<Rightarrow> string list \<Rightarrow> pinned_image res) \<Rightarrow> snapshot \<Rightarrow> string \<Rightarrow>
    (string, string) fmap \<Rightarrow> string list \<Rightarrow> (string, string) fmap \<times> images \<Rightarrow> mtarget \<Rightarrow>
    ((string, string) fmap \<times> images) res" where
  "resolve_target R ins s scope choices targets st t = (let (cache, ims) = st in
     after (scan_ok (resolve_one R ins s scope choices targets t) (cache, fmempty) (map fst (sorted_list_of_fmap (mt_containers t))))
       (\<lambda>(cache', ps). Inr (cache', fmupd (mt_name t) ps ims)))"

definition resolve_selected :: "hasher \<Rightarrow> image_refs \<Rightarrow> (string \<Rightarrow> string list \<Rightarrow> pinned_image res) \<Rightarrow> snapshot \<Rightarrow> string \<Rightarrow>
    (string, string) fmap \<Rightarrow> string list \<Rightarrow> images res" where
  "resolve_selected H R ins s scope choices targets =
     (if \<not> valid_scope scope then Inl (Err ''invalid component selection'')
      else after (complete_targets H s targets) (\<lambda>_.
        if \<not> list_all (\<lambda>(c, _). c \<in> set managed_components \<and> selected scope c) (sorted_list_of_fmap choices)
          then Inl (Err ''image override outside selected scope'')
        else after (scan_ok (resolve_target R ins s scope choices targets) (fmempty, fmempty) (fl_targets (ss_fleet s)))
          (\<lambda>(_, ims). Inr ims)))"

definition resolve_all :: "hasher \<Rightarrow> image_refs \<Rightarrow> (string \<Rightarrow> string list \<Rightarrow> pinned_image res) \<Rightarrow> snapshot \<Rightarrow> string \<Rightarrow>
    (string, string) fmap \<Rightarrow> images res" where
  "resolve_all H R ins s scope choices = resolve_selected H R ins s scope choices []"

section \<open>What is resolved\<close>

text \<open>The contract of an inspector and of the reference library: one manifest digest per requested
  platform, and a rendered digest reference parses back.\<close>

definition sound_inspector :: "image_refs \<Rightarrow> (string \<Rightarrow> string list \<Rightarrow> pinned_image res) \<Rightarrow> bool" where
  "sound_inspector R ins \<longleftrightarrow> (\<forall>ref arch i q repo d. ins ref [arch] = Inr i \<longrightarrow> q \<in> set (im_platforms i) \<longrightarrow>
     weak_digest R (im_pinned i) = Some (repo, d) \<longrightarrow>
     new_digest R (digest_name R repo (pf_digest q)) = Some (repo, pf_digest q) \<and> matches digest_pattern (pf_digest q))"

lemma digest_pattern_pin: "matches digest_pattern d \<Longrightarrow> has_prefix d ''sha256:'' \<and> matches hex64 (trim_prefix d ''sha256:'')"
  by (auto simp: digest_pattern_def matches_lang hex64_def has_prefix_def trim_prefix_def lang_lit)

lemma inspect_pin_valid:
  assumes "sound_inspector R ins" and "inspect_pin R ins ref arch = Inr pin"
  shows "valid_pin R pin"
proof -
  obtain i where i: "ins ref [arch] = Inr i" using assms(2) by (auto simp: inspect_pin_def res_simps)
  then obtain q repo d where q: "im_platforms i = [q]" "weak_digest R (im_pinned i) = Some (repo, d)"
    "pin = digest_name R repo (pf_digest q)"
    using assms(2) by (auto simp: inspect_pin_def split: list.split_asm option.split_asm)
  with i assms(1) have "new_digest R pin = Some (repo, pf_digest q)" "matches digest_pattern (pf_digest q)"
    unfolding sound_inspector_def by (metis list.set_intros(1))+
  then show ?thesis using digest_pattern_pin by (simp add: valid_pin_def)
qed

definition chosen :: "string \<Rightarrow> string list \<Rightarrow> mtarget \<Rightarrow> string \<Rightarrow> bool" where
  "chosen scope targets t c \<longleftrightarrow> (targets = [] \<or> mt_name t \<in> set targets) \<and> selected scope c"

definition all_pins :: "image_refs \<Rightarrow> (string, string) fmap \<Rightarrow> bool" where
  "all_pins R m \<longleftrightarrow> (\<forall>k v. fmlookup m k = Some v \<longrightarrow> valid_pin R v)"

lemma all_pins_upd: "all_pins R m \<Longrightarrow> valid_pin R v \<Longrightarrow> all_pins R (fmupd k v m)"
  by (simp add: all_pins_def)

lemma resolve_one_step:
  assumes "sound_inspector R ins" and "resolve_one R ins s scope choices targets t (cache, ps) c = Inr (cache', ps')"
    and "all_pins R cache" and "all_pins R ps"
  shows "all_pins R cache' \<and> all_pins R ps' \<and> fmdom' ps' = fmdom' ps \<union> (if chosen scope targets t c then {c} else {})"
proof (cases "chosen scope targets t c")
  case False
  then show ?thesis using assms by (auto simp: resolve_one_def chosen_def)
next
  case True
  then obtain ref where src: "source_reference s choices t c = Inr ref"
    using assms(2) by (cases "source_reference s choices t c") (auto simp: resolve_one_def chosen_def)
  have ref: "(if mget cache (ref @ ''/'' @ mt_arch t) \<noteq> [] then Inr (cache, fmupd c (mget cache (ref @ ''/'' @ mt_arch t)) ps)
       else after (inspect_pin R ins ref (mt_arch t)) (\<lambda>pin. Inr (fmupd (ref @ ''/'' @ mt_arch t) pin cache, fmupd c pin ps))) = Inr (cache', ps')"
    using assms(2) True src by (auto simp: resolve_one_def chosen_def Let_def)
  show ?thesis
  proof (cases "mget cache (ref @ ''/'' @ mt_arch t) = []")
    case True
    then obtain pin where "inspect_pin R ins ref (mt_arch t) = Inr pin" "cache' = fmupd (ref @ ''/'' @ mt_arch t) pin cache"
      "ps' = fmupd c pin ps" using ref by (auto simp: res_simps)
    then show ?thesis using \<open>chosen scope targets t c\<close> assms(3,4) inspect_pin_valid [OF assms(1)]
      by (auto intro!: all_pins_upd)
  next
    case False
    then obtain v where v: "fmlookup cache (ref @ ''/'' @ mt_arch t) = Some v" "mget cache (ref @ ''/'' @ mt_arch t) = v"
      by (auto simp: mget_def split: option.splits)
    then have "valid_pin R v" using assms(3) by (auto simp: all_pins_def)
    then show ?thesis using ref False v assms(3,4) \<open>chosen scope targets t c\<close> by (auto intro!: all_pins_upd)
  qed
qed

lemma resolve_components:
  assumes "sound_inspector R ins" and "scan_ok (resolve_one R ins s scope choices targets t) (cache, ps) cs = Inr (cache', ps')"
    and "all_pins R cache" and "all_pins R ps"
  shows "all_pins R cache' \<and> all_pins R ps' \<and> fmdom' ps' = fmdom' ps \<union> {c \<in> set cs. chosen scope targets t c}"
  using assms(2-)
proof (induction cs arbitrary: cache ps)
  case Nil
  then show ?case by simp
next
  case (Cons c cs)
  from Cons.prems(1) obtain cache1 ps1 where one: "resolve_one R ins s scope choices targets t (cache, ps) c = Inr (cache1, ps1)"
    and rest: "scan_ok (resolve_one R ins s scope choices targets t) (cache1, ps1) cs = Inr (cache', ps')"
    by (auto simp: res_simps)
  note step = resolve_one_step [OF assms(1) one Cons.prems(2,3)]
  from Cons.IH [OF rest] step show ?case by (auto split: if_splits)
qed

definition resolved :: "image_refs \<Rightarrow> string \<Rightarrow> string list \<Rightarrow> images \<Rightarrow> mtarget \<Rightarrow> bool" where
  "resolved R scope targets ims t \<longleftrightarrow> (\<exists>ps. fmlookup ims (mt_name t) = Some ps \<and> all_pins R ps \<and>
     fmdom' ps = {c \<in> fmdom' (mt_containers t). chosen scope targets t c})"

lemma set_keys [simp]: "fst ` set (sorted_list_of_fmap m) = fmdom' m"
  by (simp add: sorted_list_of_fmap_def fmdom'_alt_def image_image)

lemma resolve_targets:
  assumes "sound_inspector R ins" and "scan_ok (resolve_target R ins s scope choices targets) (cache, ims) ts = Inr (cache', ims')"
    and "all_pins R cache" and "distinct (map mt_name ts)"
  shows "fmdom' ims' = fmdom' ims \<union> mt_name ` set ts \<and> (\<forall>t \<in> set ts. resolved R scope targets ims' t) \<and>
    (\<forall>x. x \<notin> mt_name ` set ts \<longrightarrow> fmlookup ims' x = fmlookup ims x)"
  using assms(2-)
proof (induction ts arbitrary: cache ims)
  case Nil
  then show ?case by simp
next
  case (Cons t ts)
  from Cons.prems(1) obtain cache1 ims1 where one: "resolve_target R ins s scope choices targets (cache, ims) t = Inr (cache1, ims1)"
    and rest: "scan_ok (resolve_target R ins s scope choices targets) (cache1, ims1) ts = Inr (cache', ims')"
    by (auto simp: res_simps)
  from one obtain ps where ps: "scan_ok (resolve_one R ins s scope choices targets t) (cache, fmempty)
      (map fst (sorted_list_of_fmap (mt_containers t))) = Inr (cache1, ps)" "ims1 = fmupd (mt_name t) ps ims"
    by (auto simp: resolve_target_def res_simps)
  have c: "all_pins R cache1 \<and> all_pins R ps \<and> fmdom' ps = {c \<in> fmdom' (mt_containers t). chosen scope targets t c}"
    using resolve_components [OF assms(1) ps(1) Cons.prems(2)] by (simp add: all_pins_def)
  from Cons.IH [OF rest] c Cons.prems(3) have IH: "fmdom' ims' = fmdom' ims1 \<union> mt_name ` set ts"
    "\<forall>t \<in> set ts. resolved R scope targets ims' t" "\<forall>x. x \<notin> mt_name ` set ts \<longrightarrow> fmlookup ims' x = fmlookup ims1 x" by auto
  have "mt_name t \<notin> mt_name ` set ts" using Cons.prems(3) by auto
  then have "resolved R scope targets ims' t" using IH(3) ps(2) c by (auto simp: resolved_def)
  then show ?case using IH ps(2) by auto
qed

lemma keys_distinct: "distinct (map fst (sorted_list_of_fmap m))"
  by (simp add: sorted_list_of_fmap_def comp_def sorted_list_of_fset.rep_eq)

lemma resolved_images:
  assumes r: "resolved R scope targets (mg_images p) t" and p: "mg_targets p = targets" "mg_scope p = scope"
  shows "check_mimages R p n t = Inr (if expected_components p t = [] then n else Suc n)"
proof -
  obtain ps where ps: "fmlookup (mg_images p) (mt_name t) = Some ps" "all_pins R ps"
    "fmdom' ps = {c \<in> fmdom' (mt_containers t). chosen scope targets t c}"
    using r by (auto simp: resolved_def)
  have at: "pins_at p t = ps" using ps(1) by (simp add: pins_at_def at_or_def)
  have e: "set (expected_components p t) = fmdom' ps"
    using ps(3) p by (auto simp: expected_components_def chosen_def selects_def)
  have "valid_pin R (mget ps c)" if c: "c \<in> fmdom' ps" for c
  proof -
    obtain v where "fmlookup ps c = Some v" using c by (auto simp: fmlookup_dom'_iff)
    then show ?thesis using ps(2) by (simp add: all_pins_def mget_def)
  qed
  then have v: "list_all (\<lambda>c. valid_pin R (mget (pins_at p t) c)) (expected_components p t)"
    using e by (auto simp: list_all_iff at)
  have "distinct (expected_components p t)" unfolding expected_components_def by (intro distinct_filter keys_distinct)
  then have "length (expected_components p t) = fcard (fmdom (pins_at p t))"
    using distinct_card [of "expected_components p t"] e by (simp add: at fcard.rep_eq fmdom'_alt_def)
  then show ?thesis using v by (simp add: check_mimages_def)
qed

lemma scan_images:
  assumes "\<forall>t \<in> set ts. resolved R (mg_scope p) (mg_targets p) (mg_images p) t"
  shows "\<exists>k. scan_ok (check_mimages R p) n ts = Inr k \<and> n \<le> k \<and> ((\<exists>t \<in> set ts. expected_components p t \<noteq> []) \<longrightarrow> n < k)"
  using assms
proof (induction ts arbitrary: n)
  case Nil
  then show ?case by simp
next
  case (Cons t ts)
  let ?n = "if expected_components p t = [] then n else Suc n"
  have one: "check_mimages R p n t = Inr ?n" by (rule resolved_images) (use Cons.prems in auto)
  obtain k where "scan_ok (check_mimages R p) ?n ts = Inr k" "?n \<le> k" "(\<exists>t \<in> set ts. expected_components p t \<noteq> []) \<longrightarrow> ?n < k"
    using Cons.IH [of ?n] Cons.prems by auto
  then show ?case using one by (intro exI [of _ k]) (auto split: if_splits)
qed

text \<open>C24: Resolution and planning compose. With an inspector that reports sha256 platform digests, the images
  that a resolution returns make, with the same snapshot, scope and target selection, a plan that passes its
  full validation, as long as the operation is supported, the selection has no duplicates and covers at
  least one component, the previous plan is none or named by a full hash, and the time is set.\<close>

theorem resolution_builds:
  assumes "sound_inspector R ins" and "resolve_selected H R ins s scope choices targets = Inr ims"
    and "operation \<in> {''upgrade'', ''deploy''}" and "distinct targets" and "previous = [] \<or> matches hex64 previous" and "t0 \<noteq> 0"
    and "t \<in> set (fl_targets (ss_fleet s))" and "c \<in> fmdom' (mt_containers t)" and "chosen scope targets t c"
  shows "snd (build_selected H R W s operation scope previous ims targets t0) = Inr ()"
proof -
  obtain P where build: "build_selected H R W s operation scope previous ims targets t0 = (P, validate_mplan H R W P)"
    and p: "mg_targets P = targets" "mg_api P = api_version" "mg_kind P = ''ExistingOperation''" "mg_snapshot P = s"
      "mg_operation P = operation" "mg_scope P = scope" "mg_images P = ims" "mg_previous P = previous"
      "mg_recipe P = managed_recipe H W" "mg_created P = t0"
    and hash: "H (mplan_json (P\<lparr>mg_id := []\<rparr>)) = mg_id P"
    by (simp add: build_selected_def Let_def)
  have r: "valid_scope scope" "complete_targets H s targets = Inr ()"
    using assms(2) by (auto simp: resolve_selected_def res_simps)
  then have f: "validate_fleet (ss_fleet s) = Inr ()" by (auto simp: complete_targets_def validate_snapshot_def res_simps)
  obtain cache where scan: "scan_ok (resolve_target R ins s scope choices targets) (fmempty, fmempty) (fl_targets (ss_fleet s)) = Inr (cache, ims)"
    using assms(2) by (auto simp: resolve_selected_def res_simps)
  have d: "fmdom' ims = mt_name ` set (fl_targets (ss_fleet s))" "\<forall>t \<in> set (fl_targets (ss_fleet s)). resolved R scope targets ims t"
    using resolve_targets [OF assms(1) scan _ fleet_names(1) [OF f]] by (auto simp: all_pins_def)
  have card: "fcard (fmdom ims) = length (fl_targets (ss_fleet s))"
    using d(1) distinct_card [OF fleet_names(1) [OF f]] by (simp add: fcard.rep_eq fmdom'_alt_def)
  obtain k where k: "scan_ok (check_mimages R P) 0 (fl_targets (ss_fleet s)) = Inr k"
    "(\<exists>t \<in> set (fl_targets (ss_fleet s)). expected_components P t \<noteq> []) \<longrightarrow> 0 < k"
    using scan_images [of "fl_targets (ss_fleet s)" R P 0] d(2) by (auto simp: p)
  have "c \<in> set (expected_components P t)"
    using assms(8,9) by (auto simp: expected_components_def p selects_def chosen_def)
  then have "expected_components P t \<noteq> []" by auto
  then have "0 < k" using k(2) assms(7) by blast
  then have "scan_ok (check_mimages R P) 0 (fl_targets (ss_fleet (mg_snapshot P))) = Inr k" "k \<noteq> 0" using k(1) p by auto
  then have "validate_mplan H R W P = Inr ()"
    using r card assms(3-6) by (auto simp: validate_mplan_def p hash)
  then show ?thesis by (simp add: build)
qed

definition sample_inspector :: "string \<Rightarrow> string list \<Rightarrow> pinned_image res" where
  "sample_inspector ref arches = Inr \<lparr>im_component = [], im_requested = ref, im_pinned = ''core@'' @ sample_digest,
     im_platforms = map (\<lambda>a. \<lparr>pf_os = ''linux'', pf_arch = a, pf_digest = sample_digest\<rparr>) arches\<rparr>"

lemma sample_inspector_sound: "sound_inspector sample_refs sample_inspector"
proof -
  have "weak_digest sample_refs (''core@'' @ sample_digest) = Some (''core'', sample_digest)"
    "new_digest sample_refs (digest_name sample_refs ''core'' sample_digest) = Some (''core'', sample_digest)"
    "matches digest_pattern sample_digest" by code_simp+
  then show ?thesis by (auto simp: sound_inspector_def sample_inspector_def)
qed

theorem resolution_builds_witness:
  "\<exists>ims. resolve_selected sample_hash sample_refs sample_inspector sample_snapshot ''core'' fmempty [''b''] = Inr ims \<and>
    snd (build_selected sample_hash sample_refs ''w'' sample_snapshot ''upgrade'' ''core'' [] ims [''b''] 1) = Inr ()"
proof -
  have "is_ok (resolve_selected sample_hash sample_refs sample_inspector sample_snapshot ''core'' fmempty [''b''])" by code_simp
  then obtain ims where r: "resolve_selected sample_hash sample_refs sample_inspector sample_snapshot ''core'' fmempty [''b''] = Inr ims"
    by (auto simp: is_ok_iff)
  have t: "sample_mtarget ''b'' ''i-00000002'' ''203.0.113.2'' \<in> set (fl_targets (ss_fleet sample_snapshot))"
    "''core'' \<in> fmdom' (mt_containers (sample_mtarget ''b'' ''i-00000002'' ''203.0.113.2''))"
    "chosen ''core'' [''b''] (sample_mtarget ''b'' ''i-00000002'' ''203.0.113.2'') ''core''"
    by (simp_all add: sample_snapshot_def sample_fleet_def sample_mtarget_def chosen_def selected_def)
  show ?thesis
    using resolution_builds [OF sample_inspector_sound r _ _ _ _ t, of "''upgrade''" "[]" 1 "''w''"] r by simp
qed

end
