(* ===== verification/Node_Protocol.thy ===== *)
theory Node_Protocol
  imports Core_Join Bootstrap_Plan "HOL-Library.Word"
begin

text \<open>
  \<open>internal/node/node.go\<close>, \<open>upgrade.go\<close> and the request part of \<open>join.go\<close>: the targets, requests and
  observations of the host protocol, the checks of \<open>Remote.Call\<close> before and after the SSH command,
  and the worker a request runs. \<open>int64\<close> values that take part in arithmetic are 64-bit words read
  with \<open>sint\<close>; a time that is sent as text is its instant. The random keys, the signed certificate,
  the compression of a worker script, the SSH command and the strict decoding of its output are
  parameters.
\<close>

type_synonym i64 = "64 word"

section \<open>Targets and contexts\<close>

record ntarget =
  nt_name :: string
  nt_role :: string
  nt_arch :: string
  nt_instance :: string
  nt_ssh :: string
  nt_peer :: string
  nt_private :: string
  nt_images :: "component_pin list"

record ports =
  po_core_p2p :: int
  po_core_rpc :: int
  po_core_zmq :: int
  po_platform_p2p :: int
  po_platform_rpc :: int
  po_drive_abci :: int
  po_drive_grpc :: int
  po_dapi_grpc :: int
  po_dapi_json :: int
  po_gateway :: int

definition default_ports :: ports where
  "default_ports = \<lparr>po_core_p2p = 20001, po_core_rpc = 20002, po_core_zmq = 29998, po_platform_p2p = 26656,
     po_platform_rpc = 26657, po_drive_abci = 26658, po_drive_grpc = 26670, po_dapi_grpc = 3010,
     po_dapi_json = 3009, po_gateway = 1443\<rparr>"

record gateway_tls =
  gt_issuer :: string
  gt_email :: string
  gt_images :: "(string, string) fmap"

record ncontext =
  nc_plan :: string
  nc_compute :: string
  nc_bootstrap :: string
  nc_network :: string
  nc_core_network :: string
  nc_platform_chain :: string
  nc_genesis_time :: gotime
  nc_protocol :: int
  nc_mining_interval :: int
  nc_mining_node :: string
  nc_premine :: int
  nc_epoch :: int
  nc_advertise :: string
  nc_tls :: "gateway_tls option"
  nc_peers :: "string list"
  nc_ports :: ports
  nc_sidecars :: "(string, string) fmap"

definition instance_pattern :: rx where
  "instance_pattern = Seq (lit ''i-'') (Alt (Times 8 (Sym is_hex)) (Times 17 (Sym is_hex)))"

definition node_name_pattern :: rx where
  "node_name_pattern = Seq (Sym is_lower) (Upto 66 (Sym is_slug))"

definition validate_ntarget :: "ntarget \<Rightarrow> unit res" where
  "validate_ntarget t =
     (if \<not> matches node_name_pattern (nt_name t) \<or> \<not> matches instance_pattern (nt_instance t)
        then Inl (Err ''invalid node name or instance ID'')
      else each_ok (\<lambda>s. if usable_v4 s then Inr () else Inl (Err ''node requires usable IPv4 addresses''))
        ([nt_ssh t, nt_peer t] @ (if nt_private t \<noteq> [] then [nt_private t] else [])))"

section \<open>Trusted gateway certificates\<close>

definition acme_email :: rx where
  "acme_email = (let alnum = (\<lambda>c. is_lower c \<or> is_upper c \<or> is_dec c);
       l = (\<lambda>c. alnum c \<or> c \<in> set ''._%+-''); d = (\<lambda>c. alnum c \<or> c \<in> set ''.-''); a = (\<lambda>c. is_lower c \<or> is_upper c)
     in Seq (Seq (Sym l) (Upto 63 (Sym l))) (Seq (lit ''@'') (Seq (Seq (Sym d) (Upto 189 (Sym d)))
       (Seq (lit ''.'') (Seq (Times 2 (Sym a)) (Upto 22 (Sym a)))))))"

definition acme_issuers :: "(string \<times> string) list" where
  "acme_issuers = [(''letsencrypt'', ''https://acme-v02.api.letsencrypt.org/directory''),
     (''letsencrypt-staging'', ''https://acme-staging-v02.api.letsencrypt.org/directory'')]"

definition validate_gateway :: "image_refs \<Rightarrow> gateway_tls \<Rightarrow> string list \<Rightarrow> unit res" where
  "validate_gateway R g arches =
     (if map_of acme_issuers (gt_issuer g) = None \<or> \<not> matches acme_email (gt_email g)
        then Inl (Err ''gateway TLS needs a supported issuer and a contact email'')
      else if fcard (fmdom (gt_images g)) \<noteq> length arches
        then Inl (Err ''gateway TLS needs one pinned ACME client image per validator architecture'')
      else each_ok (\<lambda>arch. case new_digest R (mget (gt_images g) arch) of
          None \<Rightarrow> Inl (Err ''gateway TLS ACME client images must be pinned by sha256'')
        | Some (_, d) \<Rightarrow> if prefix ''sha256:'' d then Inr ()
            else Inl (Err ''gateway TLS ACME client images must be pinned by sha256'')) arches)"

section \<open>Requests\<close>

record peer =
  pe_name :: string
  pe_address :: string
  pe_node :: string
  pe_operator :: string
  pe_protx :: string

record image_change =
  ic_id :: string
  ic_previous :: string
  ic_from :: image_set
  ic_to :: image_set
  ic_preserve :: preservation
  ic_scope :: string

record nrequest =
  nq_join :: "core_join option"
  nq_context :: ncontext
  nq_target :: ntarget
  nq_action :: string
  nq_spork :: string
  nq_payout :: string
  nq_registration :: "peer option"
  nq_peers :: "peer list"
  nq_genesis_height :: int
  nq_balance :: int
  nq_confirmations :: int
  nq_reference :: i64
  nq_upgrade :: "image_change option"
  nq_node_key :: string
  nq_tls_cert :: string
  nq_tls_key :: string

section \<open>Observations\<close>

record mining =
  mi_running :: bool
  mi_container :: string
  mi_restarts :: int

record core_state =
  co_checkpoint :: string
  co_started :: string
  co_mining :: "mining option"
  co_genesis :: string
  co_height :: i64
  co_headers :: i64
  co_synced :: bool
  co_ibd :: bool
  co_peers :: int
  co_container :: string
  co_restarts :: int
  co_config :: string
  co_masternode :: string
  co_protx :: string
  co_chainlock :: i64
  co_quorums :: "(string, int) fmap"

record platform_state =
  pt_protocol :: int
  pt_validators :: "string list"
  pt_height :: i64
  pt_age :: i64
  pt_dapi :: i64
  pt_catching :: bool
  pt_chain :: string
  pt_node :: string
  pt_protx :: string
  pt_drive :: string
  pt_reference :: string
  pt_containers :: "(string, string) fmap"
  pt_restarts :: "(string, int) fmap"

record rendered =
  rd_version :: string
  rd_sidecars :: "(string, string) fmap"
  rd_changes :: "string list"
  rd_deferred :: "string list"

record nobservation =
  no_instance :: string
  no_plan :: string
  no_action :: string
  no_error :: string
  no_core :: "core_state option"
  no_platform :: "platform_state option"
  no_operator :: string
  no_node :: string
  no_payout :: string
  no_spork :: string
  no_protx :: string
  no_confirmations :: int
  no_balance :: int
  no_render :: "rendered option"

definition dashmate_version :: rx where
  "dashmate_version = (let d = Seq (Sym is_dec) (Star (Sym is_dec)); s = (\<lambda>c. is_lower c \<or> is_dec c \<or> c = CHR ''.'')
     in Seq d (Seq (lit ''.'') (Seq d (Seq (lit ''.'') (Seq d
       (Alt Eps (Seq (lit ''-'') (Seq (Sym s) (Star (Sym s))))))))))"

text \<open>\<open>Render.validate\<close>; a nil render is valid.\<close>

definition check_render :: "image_refs \<Rightarrow> rendered \<Rightarrow> unit res" where
  "check_render R r =
     (if \<not> matches dashmate_version (rd_version r) \<or> fcard (fmdom (rd_sidecars r)) > length sidecar_services
        then Inl (Err ''invalid dashmate render observation'')
      else after (each_ok (\<lambda>(service, ref).
          if service \<notin> set sidecar_services then Inl (Err ''render requests an unsupported sidecar service'')
          else if image_reference R ref = None then Inl (Err ''render requests an invalid sidecar image'')
          else Inr ()) (sorted_list_of_fmap (rd_sidecars r))) (\<lambda>_.
        each_ok (\<lambda>service. if service \<notin> set platform_services \<and> service \<noteq> ''core'' \<and> service \<noteq> ''core_tor''
          then Inl (Err ''render reports an unknown service'') else Inr ()) (rd_changes r @ rd_deferred r)))"

definition validate_render :: "image_refs \<Rightarrow> rendered option \<Rightarrow> unit res" where
  "validate_render R r = (case r of None \<Rightarrow> Inr () | Some r \<Rightarrow> check_render R r)"

section \<open>The reviewed change of a node\<close>

definition upgrade_components :: "nrequest \<Rightarrow> image_change \<Rightarrow> string list res" where
  "upgrade_components q u = (let role = nt_role (nq_target q); cs = role_components role;
       complete = (\<lambda>n. fcard (fmdom (ic_from u)) = n \<and> fcard (fmdom (ic_to u)) = n) in
     if ic_scope u = ''core'' then
       (if \<not> complete (length cs) then Inl (Err ''Core upgrade requires the node's complete image set'')
        else if list_ex (\<lambda>c. c \<noteq> ''core'' \<and> mget (ic_from u) c \<noteq> mget (ic_to u) c) cs
          then Inl (Err ''Core upgrade may change only Core'')
        else Inr cs)
     else if ic_scope u = [] \<and> role = ''validator'' then
       (if \<not> complete 6 \<or> mget (ic_from u) ''core'' \<noteq> mget (ic_to u) ''core''
          then Inl (Err ''upgrade requires complete image sets and unchanged Core'')
        else Inr components)
     else if ic_scope u = [] \<and> nq_action q = ''upgrade-stage'' then
       (if \<not> complete (length cs) \<or> mget (ic_from u) ''core'' \<noteq> mget (ic_to u) ''core'' \<or>
           mget (ic_from u) ''helper'' = mget (ic_to u) ''helper''
          then Inl (Err ''a Platform rollout changes only the dashmate helper on other nodes'')
        else Inr cs)
     else Inl (Err ''Platform upgrades apply to validators only''))"

definition current_images :: "component_pin list \<Rightarrow> image_set" where
  "current_images is = fold (\<lambda>i m. fmupd (cp_component i) (cp_pinned i) m) is fmempty"

definition validate_change :: "image_refs \<Rightarrow> nrequest \<Rightarrow> unit res" where
  "validate_change R q = (case nq_upgrade q of None \<Rightarrow> Inl (Err ''upgrade requires a reviewed change identity'')
   | Some u \<Rightarrow>
     if \<not> matches hex64 (ic_id u) \<or> (ic_previous u \<noteq> [] \<and> \<not> matches hex64 (ic_previous u))
       then Inl (Err ''upgrade requires a reviewed change identity'')
     else after (upgrade_components q u) (\<lambda>cs.
     if \<not> list_all (\<lambda>c. immutable_ref R (mget (ic_from u) c) \<and> immutable_ref R (mget (ic_to u) c)) cs
       then Inl (Err ''upgrade images must be SHA256 references for every component'')
     else if current_images (nt_images (nq_target q)) \<noteq> ic_from u \<and> current_images (nt_images (nq_target q)) \<noteq> ic_to u
       then Inl (Err ''upgrade target is outside reviewed image sets'')
     else if \<not> matches hex64 (pv_core (ic_preserve u)) \<or> \<not> matches hex64 (pv_config (ic_preserve u)) \<or>
         \<not> matches hex64 (pv_genesis (ic_preserve u)) \<or> pv_started (ic_preserve u) = []
       then Inl (Err ''upgrade lacks Core preservation evidence'')
     else Inr ()))"

definition validate_join_request :: "nrequest \<Rightarrow> unit res" where
  "validate_join_request q = (case nq_join q of None \<Rightarrow> Inl (Err ''join requires exact owned fullnode plan'')
   | Some j \<Rightarrow>
     if nt_role (nq_target q) \<noteq> ''fullnode'' \<or> nc_core_network (nq_context q) \<noteq> cj_network j \<or>
        \<not> matches hex64 (nc_plan (nq_context q)) \<or> \<not> matches hex64 (nc_compute (nq_context q)) \<or>
        \<not> matches hex64 (nc_bootstrap (nq_context q))
       then Inl (Err ''join requires exact owned fullnode plan'')
     else validate_core_join j)"

section \<open>The call\<close>

definition node_actions :: "string list" where
  "node_actions = [''inspect'', ''render'', ''core-start'', ''core-status'', ''identity'', ''wallet'', ''core-finalize'',
     ''fund'', ''register'', ''activate'', ''fast-forward'', ''mine-start'', ''mine-pause'', ''platform-start'',
     ''platform-status'', ''stop'']"

definition node_diagnostic :: rx where
  "node_diagnostic = (let p = (\<lambda>c. is_lower c \<or> is_dec c \<or> c \<in> set '':_-'') in Seq (Sym p) (Upto 119 (Sym p)))"

definition check_node_action :: "image_refs \<Rightarrow> nrequest \<Rightarrow> unit res" where
  "check_node_action R q =
     (if nq_action q = ''join-start'' \<or> nq_action q = ''join-status'' then validate_join_request q
      else if nq_action q \<in> set node_actions then Inr ()
      else if nq_action q \<noteq> ''upgrade-stage'' \<and> nq_action q \<noteq> ''upgrade-apply'' then Inl (Err ''unsupported node action'')
      else validate_change R q)"

text \<open>The embedded scripts; each action runs the worker alone or behind the guard that fits it.\<close>

record scripts =
  sp_recipe :: string
  sp_observer :: string
  sp_upgrade :: string
  sp_join :: string

definition worker_script :: "scripts \<Rightarrow> string \<Rightarrow> string" where
  "worker_script s action = (let nl = [CHR 0x0A]; quoted = (\<lambda>m. [CHR 0x27] @ m @ [CHR 0x27]); main = nl @ ''main()'' @ nl in
     if action = ''join-start'' \<or> action = ''join-status''
       then ''__name__ = '' @ quoted ''dashnet_join'' @ nl @ sp_recipe s @ nl @ sp_join s @ main
     else if action = ''upgrade-stage'' \<or> action = ''upgrade-apply''
       then ''__name__ = '' @ quoted ''dashnet_upgrade'' @ nl @ sp_recipe s @ nl @ sp_observer s @ nl @ sp_upgrade s @ main
     else if action = ''inspect'' \<or> action = ''core-status'' \<or> action = ''platform-status''
       then ''__name__ = '' @ quoted ''dashnet_observation'' @ nl @ sp_recipe s @ nl @ sp_observer s @ main
     else sp_recipe s)"

definition node_command :: "(string \<Rightarrow> string) \<Rightarrow> access \<Rightarrow> string \<Rightarrow> string" where
  "node_command pack a script = (let c = ''/usr/bin/env -i PATH=/usr/sbin:/usr/bin:/sbin:/bin HOME=/root /usr/bin/python3 -c '' @
       [CHR 0x22] @ ''import base64,zlib;exec(zlib.decompress(base64.b64decode('' @ [CHR 0x27] @ pack script @ [CHR 0x27] @ '')))'' @ [CHR 0x22]
     in if ac_user a \<noteq> ''root'' then ''sudo -n -- '' @ c else c)"

text \<open>The template of a self-signed certificate.\<close>

record cert_template =
  xt_name :: string
  xt_dns :: "string list"
  xt_ips :: "string list"
  xt_from :: gotime
  xt_until :: gotime

definition certificate :: "(cert_template \<Rightarrow> (string \<times> string) res) \<Rightarrow> gotime \<Rightarrow> ntarget \<Rightarrow> (string \<times> string) res" where
  "certificate sign t0 t = sign \<lparr>xt_name = nt_name t, xt_dns = [nt_name t, ''localhost''],
     xt_ips = [nt_peer t, nt_ssh t, ''127.0.0.1''], xt_from = t0 - 60 * minute, xt_until = t0 + 365 * 24 * 60 * minute\<rparr>"

text \<open>What the client has: the transport (or none), the access, the account and the region.\<close>

type_synonym ssh_run = "string \<times> int \<times> string \<Rightarrow> string \<Rightarrow> nrequest \<Rightarrow> gerr option \<times> nobservation option"

record nremote =
  nr_ssh :: "ssh_run option"
  nr_access :: access
  nr_account :: string
  nr_region :: string

definition with_identity :: "string res \<Rightarrow> (cert_template \<Rightarrow> (string \<times> string) res) \<Rightarrow> gotime \<Rightarrow> nrequest \<Rightarrow> nrequest res" where
  "with_identity key sign t0 q =
     (if nq_action q \<noteq> ''identity'' then Inr q
      else after key (\<lambda>k. after (certificate sign t0 (nq_target q)) (\<lambda>(c, s).
        Inr (q\<lparr>nq_node_key := k, nq_tls_cert := c, nq_tls_key := s\<rparr>))))"

definition node_endpoint :: "nremote \<Rightarrow> nrequest \<Rightarrow> string \<times> int \<times> string" where
  "node_endpoint r q = (nt_ssh (nq_target q), ac_port (nr_access r),
     nt_instance (nq_target q) @ ''.'' @ nr_region r @ ''.'' @ nr_account r @ ''.dashnet'')"

definition node_reply :: "image_refs \<Rightarrow> nrequest \<Rightarrow> gerr option \<Rightarrow> nobservation option \<Rightarrow> nobservation res" where
  "node_reply R q run_error out = (case run_error of
     Some e \<Rightarrow> (case out of
         Some b \<Rightarrow> if matches node_diagnostic (no_error b) then Inl (At (''node '' @ no_error b) e) else Inl e
       | None \<Rightarrow> Inl e)
   | None \<Rightarrow> (case out of None \<Rightarrow> Inl (Err ''invalid/mismatched node observation; raw output withheld'')
       | Some b \<Rightarrow> if no_error b \<noteq> [] \<or> no_instance b \<noteq> nt_instance (nq_target q) \<or>
             no_plan b \<noteq> nc_plan (nq_context q) \<or> no_action b \<noteq> nq_action q \<or> validate_render R (no_render b) \<noteq> Inr ()
           then Inl (Err ''invalid/mismatched node observation; raw output withheld'') else Inr b))"

definition node_call :: "image_refs \<Rightarrow> scripts \<Rightarrow> (string \<Rightarrow> string) \<Rightarrow> string res \<Rightarrow> (cert_template \<Rightarrow> (string \<times> string) res) \<Rightarrow>
    gotime \<Rightarrow> bool \<Rightarrow> nremote \<Rightarrow> nrequest \<Rightarrow> nobservation res" where
  "node_call R s pack key sign t0 deadline r q = (case nr_ssh r of None \<Rightarrow> Inl (Err ''authenticated SSH required'')
   | Some run \<Rightarrow>
     if \<not> deadline then Inl (Err ''node operation requires a deadline'')
     else after (check_node_action R q) (\<lambda>_. after (validate_ntarget (nq_target q)) (\<lambda>_.
     after (with_identity key sign t0 q) (\<lambda>q'.
     case run (node_endpoint r q') (node_command pack (nr_access r) (worker_script s (nq_action q'))) q' of
       (e, out) \<Rightarrow> node_reply R q' e out))))"

section \<open>What the checks establish\<close>

lemma complete_domain:
  assumes "new_digest R [] = None" and "distinct cs" and "fcard (fmdom m) = length cs"
    and "\<forall>c \<in> set cs. immutable_ref R (mget m c)"
  shows "fmdom' m = set cs"
proof -
  have "\<forall>c \<in> set cs. fmlookup m c \<noteq> None"
    using assms(1,4) by (auto simp: immutable_ref_def mget_def split: option.splits)
  from fcard_fmdom_eq [of "\<lambda>c. c" cs m] this show ?thesis using assms(2,3) by simp
qed

lemma mget_in_dom: "c \<in> fmdom' m \<Longrightarrow> fmlookup m c = Some (mget m c)"
  by (auto simp: mget_def fmlookup_dom'_iff)

lemma same_domain_ext:
  assumes "fmdom' m = fmdom' m'" and "\<And>c. c \<in> fmdom' m \<Longrightarrow> mget m c = mget m' c"
  shows "m = m'"
proof (rule fmap_ext)
  fix c
  show "fmlookup m c = fmlookup m' c"
  proof (cases "c \<in> fmdom' m")
    case True
    then show ?thesis using assms mget_in_dom by metis
  next
    case False
    then have "fmlookup m c = None" "fmlookup m' c = None" using assms(1) fmlookup_dom'_iff by (metis option.exhaust)+
    then show ?thesis by simp
  qed
qed

lemma distinct_components [simp]: "distinct components" "distinct (role_components role)"
  by (simp_all add: components_def role_components_def)

lemma core_in_role [simp]: "''core'' \<in> set (role_components role)" "''core'' \<in> set components"
  by (simp_all add: role_components_def components_def)

lemma upgrade_components_Inr:
  assumes "upgrade_components q u = Inr cs"
  shows "cs = role_components (nt_role (nq_target q)) \<and> fcard (fmdom (ic_from u)) = length cs \<and> fcard (fmdom (ic_to u)) = length cs \<and>
    (ic_scope u = ''core'' \<and> (\<forall>c \<in> set cs. c = ''core'' \<or> mget (ic_from u) c = mget (ic_to u) c) \<or>
     ic_scope u = [] \<and> mget (ic_from u) ''core'' = mget (ic_to u) ''core'' \<and>
       (nt_role (nq_target q) = ''validator'' \<or> nq_action q = ''upgrade-stage''))"
  using assms by (auto simp: upgrade_components_def Let_def list_ex_iff role_components_def components_def split: if_splits)

lemma validate_change_Inr:
  assumes "validate_change R q = Inr ()" and "nq_upgrade q = Some u"
  obtains cs where "upgrade_components q u = Inr cs"
    and "\<forall>c \<in> set cs. immutable_ref R (mget (ic_from u) c) \<and> immutable_ref R (mget (ic_to u) c)"
    and "current_images (nt_images (nq_target q)) \<in> {ic_from u, ic_to u}"
    and "matches hex64 (ic_id u)" and "matches hex64 (pv_core (ic_preserve u))" and "matches hex64 (pv_config (ic_preserve u))"
    and "matches hex64 (pv_genesis (ic_preserve u))" and "pv_started (ic_preserve u) \<noteq> []"
  using assms by (auto simp: validate_change_def res_simps list_all_iff)

lemma validate_ntarget_Inr:
  "validate_ntarget t = Inr () \<longleftrightarrow> matches node_name_pattern (nt_name t) \<and> matches instance_pattern (nt_instance t) \<and>
     usable_v4 (nt_ssh t) \<and> usable_v4 (nt_peer t) \<and> (nt_private t \<noteq> [] \<longrightarrow> usable_v4 (nt_private t))"
  by (auto simp: validate_ntarget_def res_simps split: if_splits)

lemma with_identity_same:
  assumes "with_identity key sign t0 q = Inr q'"
  shows "nq_target q' = nq_target q \<and> nq_context q' = nq_context q \<and> nq_action q' = nq_action q \<and>
    nq_upgrade q' = nq_upgrade q \<and> nq_join q' = nq_join q"
  using assms by (auto simp: with_identity_def res_simps split: if_splits prod.splits)

lemma check_action_identity:
  assumes "with_identity key sign t0 q = Inr q'"
  shows "check_node_action R q' = check_node_action R q"
proof -
  obtain a b c where "q' = q \<or> q' = q\<lparr>nq_node_key := a, nq_tls_cert := b, nq_tls_key := c\<rparr>"
    using assms by (auto simp: with_identity_def res_simps split: if_splits prod.splits)
  moreover have "upgrade_components (q\<lparr>nq_node_key := a, nq_tls_cert := b, nq_tls_key := c\<rparr>) = upgrade_components q"
    by (rule ext) (simp add: upgrade_components_def cong: if_cong)
  moreover have "validate_join_request (q\<lparr>nq_node_key := a, nq_tls_cert := b, nq_tls_key := c\<rparr>) = validate_join_request q"
    by (simp add: validate_join_request_def cong: option.case_cong if_cong)
  ultimately show ?thesis by (auto simp: check_node_action_def validate_change_def cong: option.case_cong if_cong)
qed

lemma node_reply_Inr:
  "node_reply R q e out = Inr b \<longleftrightarrow> e = None \<and> out = Some b \<and> no_error b = [] \<and>
     no_instance b = nt_instance (nq_target q) \<and> no_plan b = nc_plan (nq_context q) \<and> no_action b = nq_action q \<and>
     validate_render R (no_render b) = Inr ()"
  by (auto simp: node_reply_def split: option.splits)

lemma check_render_Inr:
  assumes "check_render R r = Inr ()"
  shows "fmdom' (rd_sidecars r) \<subseteq> set sidecar_services" and "set (rd_changes r) \<subseteq> set platform_services \<union> {''core'', ''core_tor''}"
proof -
  have "\<forall>x \<in> set (sorted_list_of_fmap (rd_sidecars r)). fst x \<in> set sidecar_services"
    using assms by (auto simp: check_render_def res_simps)
  moreover have "fst ` set (sorted_list_of_fmap (rd_sidecars r)) = fmdom' (rd_sidecars r)"
    by (simp add: sorted_list_of_fmap_def fmdom'_alt_def image_image)
  ultimately show "fmdom' (rd_sidecars r) \<subseteq> set sidecar_services" by (metis image_subsetI)
  show "set (rd_changes r) \<subseteq> set platform_services \<union> {''core'', ''core_tor''}"
    using assms by (auto simp: check_render_def res_simps)
qed

section \<open>Properties\<close>

text \<open>C37: What a host request can change. For a reviewed change that the client accepts, the images sent
  as the node's current ones are one of the two reviewed sets, both sets pin exactly the components of
  the node's role by sha256 digest, the change and the Core process to preserve (its container, its
  configuration, its genesis block) are named by full hashes, and its start time is given. A change of
  scope core replaces the Core image and nothing else; any other change keeps the Core image.\<close>

theorem upgrade_change_bounds:
  assumes "new_digest R [] = None" and "validate_change R q = Inr ()" and "nq_upgrade q = Some u"
  shows "current_images (nt_images (nq_target q)) \<in> {ic_from u, ic_to u} \<and>
    fmdom' (ic_from u) = set (role_components (nt_role (nq_target q))) \<and> fmdom' (ic_to u) = fmdom' (ic_from u) \<and>
    (\<forall>c pin. fmlookup (ic_from u) c = Some pin \<or> fmlookup (ic_to u) c = Some pin \<longrightarrow> immutable_ref R pin) \<and>
    matches hex64 (ic_id u) \<and> matches hex64 (pv_core (ic_preserve u)) \<and> matches hex64 (pv_config (ic_preserve u)) \<and>
    matches hex64 (pv_genesis (ic_preserve u)) \<and> pv_started (ic_preserve u) \<noteq> [] \<and>
    (ic_scope u = ''core'' \<longrightarrow> ic_to u = fmupd ''core'' (mget (ic_to u) ''core'') (ic_from u)) \<and>
    (ic_scope u \<noteq> ''core'' \<longrightarrow> ic_scope u = [] \<and> fmlookup (ic_to u) ''core'' = fmlookup (ic_from u) ''core'')"
proof -
  obtain cs where v: "upgrade_components q u = Inr cs"
    "\<forall>c \<in> set cs. immutable_ref R (mget (ic_from u) c) \<and> immutable_ref R (mget (ic_to u) c)"
    "current_images (nt_images (nq_target q)) \<in> {ic_from u, ic_to u}"
    "matches hex64 (ic_id u)" "matches hex64 (pv_core (ic_preserve u))" "matches hex64 (pv_config (ic_preserve u))"
    "matches hex64 (pv_genesis (ic_preserve u))" "pv_started (ic_preserve u) \<noteq> []" by (rule validate_change_Inr [OF assms(2,3)])
  from upgrade_components_Inr [OF v(1)] have cs: "cs = role_components (nt_role (nq_target q))"
    "fcard (fmdom (ic_from u)) = length cs" "fcard (fmdom (ic_to u)) = length cs"
    and s: "ic_scope u = ''core'' \<and> (\<forall>c \<in> set cs. c = ''core'' \<or> mget (ic_from u) c = mget (ic_to u) c) \<or>
      ic_scope u = [] \<and> mget (ic_from u) ''core'' = mget (ic_to u) ''core''" by auto
  have d: "fmdom' (ic_from u) = set cs" "fmdom' (ic_to u) = set cs"
    using complete_domain [OF assms(1), of cs] cs v(2) by simp_all
  have core: "''core'' \<in> set cs" using cs(1) by simp
  have im: "immutable_ref R pin" if "fmlookup (ic_from u) c = Some pin \<or> fmlookup (ic_to u) c = Some pin" for c pin
  proof -
    have "c \<in> set cs" using that d by (metis fmdom'I)
    then show ?thesis using v(2) that by (auto simp: mget_def)
  qed
  have one: "ic_to u = fmupd ''core'' (mget (ic_to u) ''core'') (ic_from u)" if "ic_scope u = ''core''"
  proof (rule same_domain_ext)
    show "fmdom' (ic_to u) = fmdom' (fmupd ''core'' (mget (ic_to u) ''core'') (ic_from u))" using d core by auto
    show "mget (ic_to u) c = mget (fmupd ''core'' (mget (ic_to u) ''core'') (ic_from u)) c" if "c \<in> fmdom' (ic_to u)" for c
      using s that d \<open>ic_scope u = ''core''\<close> by (auto simp: mget_def)
  qed
  have two: "fmlookup (ic_to u) ''core'' = fmlookup (ic_from u) ''core''" if "ic_scope u \<noteq> ''core''"
    using s that d core mget_in_dom by metis
  show ?thesis using v(3-8) d cs(1) im one two s by auto
qed


section \<open>Witnesses\<close>

definition sample_hex :: string where
  "sample_hex = replicate 64 (CHR ''a'')"

definition sample_node_pins :: "component_pin list" where
  "sample_node_pins = map (\<lambda>c. \<lparr>cp_component = c, cp_pinned = ''repo@sha256:'' @ sample_hex\<rparr>) components"

definition sample_ntarget :: ntarget where
  "sample_ntarget = \<lparr>nt_name = ''devnet-a-val-001'', nt_role = ''validator'', nt_arch = ''amd64'',
     nt_instance = ''i-00000001'', nt_ssh = ''203.0.113.1'', nt_peer = ''203.0.113.1'', nt_private = ''10.0.0.1'',
     nt_images = sample_node_pins\<rparr>"

definition sample_ncontext :: ncontext where
  "sample_ncontext = \<lparr>nc_plan = sample_hex, nc_compute = sample_hex, nc_bootstrap = sample_hex, nc_network = ''devnet-a'',
     nc_core_network = ''a'', nc_platform_chain = ''dash-devnet-a'', nc_genesis_time = 1, nc_protocol = 1,
     nc_mining_interval = 10, nc_mining_node = ''devnet-a-wal-001'', nc_premine = 4032, nc_epoch = 3600,
     nc_advertise = ''public'', nc_tls = None, nc_peers = [], nc_ports = default_ports, nc_sidecars = fmempty\<rparr>"

definition sample_image_change :: image_change where
  "sample_image_change = \<lparr>ic_id = sample_hex, ic_previous = [], ic_from = current_images sample_node_pins,
     ic_to = fmupd ''core'' (''repo@sha256:'' @ replicate 64 (CHR ''b'')) (current_images sample_node_pins),
     ic_preserve = pv_zero\<lparr>pv_core := sample_hex, pv_config := sample_hex, pv_genesis := sample_hex, pv_started := ''t''\<rparr>,
     ic_scope = ''core''\<rparr>"

definition sample_nrequest :: nrequest where
  "sample_nrequest = \<lparr>nq_join = None, nq_context = sample_ncontext, nq_target = sample_ntarget, nq_action = ''upgrade-apply'',
     nq_spork = [], nq_payout = [], nq_registration = None, nq_peers = [], nq_genesis_height = 0, nq_balance = 0,
     nq_confirmations = 0, nq_reference = 0, nq_upgrade = Some sample_image_change, nq_node_key = [], nq_tls_cert = [],
     nq_tls_key = []\<rparr>"

lemma sample_change_valid: "validate_change sample_refs sample_nrequest = Inr ()"
proof -
  have "upgrade_components sample_nrequest sample_image_change = Inr components" by code_simp
  moreover have "list_all (\<lambda>c. immutable_ref sample_refs (mget (ic_from sample_image_change) c) \<and>
      immutable_ref sample_refs (mget (ic_to sample_image_change) c)) components" by code_simp
  moreover have "matches hex64 (ic_id sample_image_change)" "matches hex64 (pv_core (ic_preserve sample_image_change))"
    "matches hex64 (pv_config (ic_preserve sample_image_change))" "matches hex64 (pv_genesis (ic_preserve sample_image_change))" by code_simp+
  ultimately show ?thesis
    by (simp add: validate_change_def sample_nrequest_def [THEN arg_cong [where f = nq_upgrade]]
        sample_nrequest_def [THEN arg_cong [where f = nq_target]])
       (simp add: sample_image_change_def sample_ntarget_def)
qed

theorem upgrade_change_bounds_witness:
  "fmdom' (ic_to sample_image_change) = set components \<and> sample_image_change = the (nq_upgrade sample_nrequest)"
proof -
  have u: "nq_upgrade sample_nrequest = Some sample_image_change" "nt_role (nq_target sample_nrequest) = ''validator''"
    by (simp_all add: sample_nrequest_def sample_ntarget_def)
  have "new_digest sample_refs [] = None" by code_simp
  from upgrade_change_bounds [OF this sample_change_valid u(1)] u show ?thesis by (simp add: role_components_def)
qed

definition sample_nobservation :: nobservation where
  "sample_nobservation = \<lparr>no_instance = ''i-00000001'', no_plan = sample_hex, no_action = ''upgrade-apply'', no_error = [],
     no_core = None, no_platform = None, no_operator = [], no_node = [], no_payout = [], no_spork = [], no_protx = [],
     no_confirmations = 0, no_balance = 0, no_render = None\<rparr>"

definition sample_remote :: nremote where
  "sample_remote = \<lparr>nr_ssh = Some (\<lambda>e c q. (None, Some sample_nobservation)), nr_access = \<lparr>ac_user = ''root'', ac_port = 22, ac_address = ''public''\<rparr>,
     nr_account = ''123456789012'', nr_region = ''us-west-2''\<rparr>"

definition sample_scripts :: scripts where
  "sample_scripts = \<lparr>sp_recipe = ''r'', sp_observer = ''o'', sp_upgrade = ''u'', sp_join = ''j''\<rparr>"

definition sample_node_call :: "nobservation res" where
  "sample_node_call = node_call sample_refs sample_scripts (\<lambda>x. x) (Inr []) (\<lambda>_. Inr ([], [])) 0 True sample_remote sample_nrequest"


end
