(* ===== verification/Chain_Plan.thy ===== *)
theory Chain_Plan
  imports Node_Protocol Ec2
begin

text \<open>
  \<open>internal/lifecycle/plan.go\<close>: the deployment plan of a devnet chain. It is built from a bootstrap plan,
  the live instances and the options, and bound to the exact hosts and addresses; \<open>recipe\<close> is the
  digest of the host bootstrap recipe and \<open>worker\<close> that of the node worker of this binary.
\<close>

section \<open>Data\<close>

definition profile :: string where
  "profile = ''devnet-dashmate-compose''"

record lplan =
  lp_api :: string
  lp_kind :: string
  lp_id :: string
  lp_bootstrap :: bplan
  lp_profile :: string
  lp_recipe :: string
  lp_core_network :: string
  lp_platform_chain :: string
  lp_genesis_time :: gotime
  lp_protocol :: int
  lp_mining :: int
  lp_premine :: int
  lp_epoch :: int
  lp_advertise :: string
  lp_tls :: "gateway_tls option"
  lp_targets :: "ntarget list"

record chain_options =
  op_public :: "(string, string) fmap option"
  op_issuer :: string
  op_email :: string
  op_block :: int
  op_epoch :: int

definition default_epoch :: int where "default_epoch = 3600"
definition min_epoch :: int where "min_epoch = 180"
definition max_epoch :: int where "max_epoch = 30 * 24 * 3600"
definition default_block :: int where "default_block = 10"
definition min_block :: int where "min_block = 8"
definition max_block :: int where "max_block = 600"
definition default_premine :: int where "default_premine = 4032"

definition ntarget_json :: "ntarget \<Rightarrow> json" where
  "ntarget_json t = JObj ([(''name'', JStr (nt_name t)), (''role'', JStr (nt_role t)), (''architecture'', JStr (nt_arch t)),
     (''instanceId'', JStr (nt_instance t)), (''sshAddress'', JStr (nt_ssh t)), (''peerAddress'', JStr (nt_peer t))] @
     omit_empty ''privateAddress'' (nt_private t) @ [(''images'', JArr (map pin_json (nt_images t)))])"

definition gateway_json :: "gateway_tls \<Rightarrow> json" where
  "gateway_json g = JObj [(''issuer'', JStr (gt_issuer g)), (''email'', JStr (gt_email g)), (''images'', jmap (gt_images g))]"

definition omit_zero :: "string \<Rightarrow> int \<Rightarrow> (string \<times> json) list" where
  "omit_zero k n = (if n = 0 then [] else [(k, JNum n)])"

definition lplan_json :: "lplan \<Rightarrow> json" where
  "lplan_json p = JObj ([(''apiVersion'', JStr (lp_api p)), (''kind'', JStr (lp_kind p)), (''id'', JStr (lp_id p)),
     (''bootstrap'', bplan_json (lp_bootstrap p)), (''profile'', JStr (lp_profile p)), (''recipeSha256'', JStr (lp_recipe p)),
     (''coreNetwork'', JStr (lp_core_network p)), (''platformChainId'', JStr (lp_platform_chain p)),
     (''genesisTime'', JTime (lp_genesis_time p)), (''initialProtocolVersion'', JNum (lp_protocol p)),
     (''miningIntervalSeconds'', JNum (lp_mining p))] @ omit_zero ''premineHeight'' (lp_premine p) @
     omit_zero ''platformEpochSeconds'' (lp_epoch p) @ omit_empty ''advertise'' (lp_advertise p) @
     (case lp_tls p of None \<Rightarrow> [] | Some g \<Rightarrow> [(''gatewayTls'', gateway_json g)]) @
     [(''targets'', JArr (map ntarget_json (lp_targets p)))])"

section \<open>Identity and addresses\<close>

definition generation_suffix :: "string \<Rightarrow> int \<Rightarrow> string" where
  "generation_suffix short g = short @ ''-g'' @ itoa_int g"

definition chain_name :: "string \<Rightarrow> int \<Rightarrow> string" where
  "chain_name network g = (let short = trim_prefix network ''devnet-'' in
     if g \<le> 1 then short else generation_suffix short g)"

text \<open>\<open>gatewayTLS\<close>: a later platform of the same architecture wins.\<close>

definition validator_archs :: "target list \<Rightarrow> string list" where
  "validator_archs ts = foldl (\<lambda>as t. if tg_role t = ''validator'' \<and> tg_arch t \<notin> set as then as @ [tg_arch t] else as) [] ts"

definition acme_image :: "image_refs \<Rightarrow> string list \<Rightarrow> (string, string) fmap \<Rightarrow> pinned_image \<Rightarrow> (string, string) fmap res" where
  "acme_image R archs m i =
     (if im_component i \<noteq> ''acme'' then Inr m
      else case new_digest R (im_pinned i) of None \<Rightarrow> Inl (Err ''invalid digest reference'')
      | Some (repo, _) \<Rightarrow> Inr (foldl (\<lambda>m p. if pf_arch p \<in> set archs then fmupd (pf_arch p) (digest_name R repo (pf_digest p)) m else m)
          m (im_platforms i)))"

definition build_gateway :: "image_refs \<Rightarrow> bplan \<Rightarrow> string \<Rightarrow> string \<Rightarrow> gateway_tls res" where
  "build_gateway R b issuer email = (let archs = validator_archs (pl_targets (bp_compute b)) in
     after (scan_ok (acme_image R archs) fmempty (lk_images (bp_release b))) (\<lambda>m.
     if m = fmempty then Inl (Err ''trusted gateway certificates need an acme image (for example goacme/lego) in the network images'')
     else let g = \<lparr>gt_issuer = issuer, gt_email = email, gt_images = m\<rparr> in after (validate_gateway R g archs) (\<lambda>_. Inr g)))"

text \<open>\<open>advertised\<close>. The targets it is applied to have IPv4 addresses (\<open>Target.Validate\<close>), for which
  \<open>net.ParseIP\<close> gives \<open>to4\<close>.\<close>

definition check_advertised :: "string \<Rightarrow> ntarget \<Rightarrow> unit res" where
  "check_advertised mode t =
     (if mode = ''public'' then
        (case (to4 (nt_peer t), to4 (nt_private t)) of
           (Some peer, Some priv) \<Rightarrow> if is_private peer \<or> \<not> is_global_unicast peer \<or> \<not> is_private priv
             then Inl (At (nt_name t) (Err ''public advertising requires a public peer address and a private VPC address'')) else Inr ()
         | _ \<Rightarrow> Inl (At (nt_name t) (Err ''public advertising requires a public peer address and a private VPC address'')))
      else if nt_private t \<noteq> [] then Inl (At (nt_name t) (Err ''a private-address plan carries no separate private address''))
      else Inr ())"

definition vpc_address :: "ntarget \<Rightarrow> string" where
  "vpc_address t = (if nt_private t \<noteq> [] then nt_private t else nt_peer t)"

section \<open>Validation\<close>

record seen_targets =
  sn_ids :: "string list"
  sn_ips :: "string list"
  sn_validators :: nat
  sn_wallets :: nat
  sn_miners :: nat

definition check_chain_target :: "string \<Rightarrow> seen_targets \<Rightarrow> ntarget \<times> target \<times> btarget \<Rightarrow> seen_targets res" where
  "check_chain_target mode s x = (case x of (t, e, b) \<Rightarrow>
     if nt_name t \<noteq> tg_name e \<or> nt_role t \<noteq> tg_role e \<or> nt_arch t \<noteq> tg_arch e \<or> nt_images t \<noteq> bg_images b
       then Inl (Err ''deployment differs from the approved bootstrap target'')
     else after (validate_ntarget t) (\<lambda>_. after (check_advertised mode t) (\<lambda>_.
     if nt_instance t \<in> set (sn_ids s) \<or> nt_peer t \<in> set (sn_ips s) \<or> (nt_private t \<noteq> [] \<and> nt_private t \<in> set (sn_ips s))
       then Inl (Err ''duplicate instance or peer address'')
     else if nt_role t \<notin> {''validator'', ''wallet'', ''miner'', ''fullnode''}
       then Inl (Err ''full devnet profile supports validator, wallet, miner and fullnode roles; seeds must not be silently omitted'')
     else Inr \<lparr>sn_ids = nt_instance t # sn_ids s,
       sn_ips = (if nt_private t \<noteq> [] then [nt_private t] else []) @ nt_peer t # sn_ips s,
       sn_validators = sn_validators s + (if nt_role t = ''validator'' then 1 else 0),
       sn_wallets = sn_wallets s + (if nt_role t = ''wallet'' then 1 else 0),
       sn_miners = sn_miners s + (if nt_role t = ''miner'' then 1 else 0)\<rparr>)))"

definition no_targets_seen :: seen_targets where
  "no_targets_seen = \<lparr>sn_ids = [], sn_ips = [], sn_validators = 0, sn_wallets = 0, sn_miners = 0\<rparr>"

definition check_chain_policy :: "lplan \<Rightarrow> unit res" where
  "check_chain_policy p =
     (if lp_protocol p < 1 \<or> lp_protocol p > 100 \<or> lp_genesis_time p = 0 \<or> lp_mining p < min_block \<or> lp_mining p > max_block \<or>
         lp_premine p < 0 \<or> lp_premine p > 20000
        then Inl (Err ''explicit protocol version (1..100), genesis time and supported mining policy required'')
      else if lp_epoch p \<noteq> 0 \<and> (lp_epoch p < min_epoch \<or> lp_epoch p > max_epoch)
        then Inl (Err ''Platform epoch must be 180..2592000 seconds'')
      else Inr ())"

definition check_chain_identity :: "lplan \<Rightarrow> unit res" where
  "check_chain_identity p = (let n = pl_network (bp_compute (lp_bootstrap p)); name = md_name (nw_metadata n); g = ch_generation (nw_chain n) in
     if (lp_core_network p \<noteq> chain_name name g \<and> lp_core_network p \<noteq> generation_suffix (trim_prefix name ''devnet-'') g) \<or>
        lp_platform_chain p \<noteq> ''dash-devnet-'' @ lp_core_network p \<or> length (lp_platform_chain p) > 50
       then Inl (Err ''invalid or overlong chain identity; use a shorter devnet name'')
     else if length (lp_targets p) \<noteq> length (bp_targets (lp_bootstrap p)) then Inl (Err ''deployment target set incomplete'')
     else if lp_advertise p \<noteq> ''public'' then Inl (Err ''dashmate-rendered devnets advertise public addresses'')
     else Inr ())"

definition check_chain_gateway :: "image_refs \<Rightarrow> lplan \<Rightarrow> unit res" where
  "check_chain_gateway R p = (case lp_tls p of None \<Rightarrow> Inr () | Some g \<Rightarrow>
     if lp_advertise p \<noteq> ''public'' then Inl (Err ''trusted gateway certificates require public service addresses'')
     else after (build_gateway R (lp_bootstrap p) (gt_issuer g) (gt_email g)) (\<lambda>expected.
       if expected \<noteq> g then Inl (Err ''gateway TLS ACME client images differ from the release lock'') else Inr ()))"

definition validate_lplan :: "hasher \<Rightarrow> image_refs \<Rightarrow> string \<Rightarrow> string \<Rightarrow> lplan \<Rightarrow> unit res" where
  "validate_lplan H R recipe worker p =
     (if ch_type (nw_chain (pl_network (bp_compute (lp_bootstrap p)))) \<noteq> ''devnet''
        then Inl (Err ''genesis lifecycle is devnet-only; existing chains require a join plan'')
      else after (validate_bplan H R recipe (lp_bootstrap p)) (\<lambda>_.
      if lp_id p \<noteq> H (lplan_json (p\<lparr>lp_id := []\<rparr>)) \<or> lp_api p \<noteq> api_version \<or> lp_kind p \<noteq> ''DevnetDeploymentPlan'' \<or>
         lp_profile p \<noteq> profile \<or> lp_recipe p \<noteq> worker
        then Inl (Err ''deployment plan altered or node recipe changed; retain exact plan/binary'')
      else after (check_chain_policy p) (\<lambda>_. after (check_chain_identity p) (\<lambda>_. after (check_chain_gateway R p) (\<lambda>_.
      after (scan_ok (check_chain_target (lp_advertise p)) no_targets_seen
        (zip (lp_targets p) (zip (pl_targets (bp_compute (lp_bootstrap p))) (bp_targets (lp_bootstrap p))))) (\<lambda>s.
      if sn_validators s < 13 \<or> sn_validators s > 25 \<or> sn_wallets s \<noteq> 1 \<or> sn_miners s > 1
        then Inl (Err ''full devnet profile requires 13..25 validators, exactly one wallet, and at most one separate miner'')
      else Inr ()))))))"

section \<open>Building\<close>

definition chain_target :: "bplan \<Rightarrow> (string, string) fmap \<Rightarrow> live_map \<Rightarrow> ntarget list \<Rightarrow> target \<times> btarget \<Rightarrow> ntarget list res" where
  "chain_target b public live ts x = (case x of (t, bt) \<Rightarrow> (case fmlookup live (tg_name t) of
     None \<Rightarrow> Inl (Err (''missing target '' @ tg_name t))
   | Some i \<Rightarrow>
     let ip = (if ac_address (bp_access b) = ''public'' then in_public_ip i else in_private_ip i); eip = in_public_ip i in
     if mget public (tg_name t) = [] \<or> mget public (tg_name t) \<noteq> eip
       then Inl (At (tg_name t) (Err ''public address is not its journaled IPAM Elastic IP''))
     else Inr (ts @ [\<lparr>nt_name = tg_name t, nt_role = tg_role t, nt_arch = tg_arch t, nt_instance = in_id i, nt_ssh = ip,
       nt_peer = eip, nt_private = in_private_ip i, nt_images = bg_images bt\<rparr>])))"

definition build_lplan :: "hasher \<Rightarrow> image_refs \<Rightarrow> string \<Rightarrow> string \<Rightarrow> bplan \<Rightarrow> live_map \<Rightarrow> chain_options \<Rightarrow> int \<Rightarrow> gotime \<Rightarrow> lplan res" where
  "build_lplan H R recipe worker b live o1 protocol t0 =
     after (validate_bplan H R recipe b) (\<lambda>_.
     let n = pl_network (bp_compute b); core = chain_name (md_name (nw_metadata n)) (ch_generation (nw_chain n)) in
     case op_public o1 of None \<Rightarrow> Inl (Err ''dashmate-rendered devnets advertise public addresses: every host needs an IPAM Elastic IP'')
     | Some public \<Rightarrow>
       after (if op_issuer o1 \<noteq> [] then after (build_gateway R b (op_issuer o1) (op_email o1)) (\<lambda>g. Inr (Some g)) else Inr None) (\<lambda>tls.
       after (scan_ok (chain_target b public live) [] (zip (pl_targets (bp_compute b)) (bp_targets b))) (\<lambda>ts.
       let p = \<lparr>lp_api = api_version, lp_kind = ''DevnetDeploymentPlan'', lp_id = [], lp_bootstrap = b, lp_profile = profile,
         lp_recipe = worker, lp_core_network = core, lp_platform_chain = ''dash-devnet-'' @ core, lp_genesis_time = t0,
         lp_protocol = protocol, lp_mining = (if op_block o1 \<noteq> 0 then op_block o1 else default_block),
         lp_premine = default_premine, lp_epoch = (if op_epoch o1 \<noteq> 0 then op_epoch o1 else default_epoch),
         lp_advertise = ''public'', lp_tls = tls, lp_targets = ts\<rparr>;
         q = p\<lparr>lp_id := H (lplan_json p)\<rparr>
       in after (validate_lplan H R recipe worker q) (\<lambda>_. Inr q))))"

text \<open>\<open>Build\<close> and \<open>BuildAdvertising\<close>: the entry points without further options.\<close>

definition no_options :: chain_options where
  "no_options = \<lparr>op_public = None, op_issuer = [], op_email = [], op_block = 0, op_epoch = 0\<rparr>"

definition build_advertising :: "hasher \<Rightarrow> image_refs \<Rightarrow> string \<Rightarrow> string \<Rightarrow> bplan \<Rightarrow> live_map \<Rightarrow> (string, string) fmap option \<Rightarrow> int \<Rightarrow> gotime \<Rightarrow> lplan res" where
  "build_advertising H R recipe worker b live public protocol t0 =
     build_lplan H R recipe worker b live (no_options\<lparr>op_public := public\<rparr>) protocol t0"

definition build_private :: "hasher \<Rightarrow> image_refs \<Rightarrow> string \<Rightarrow> string \<Rightarrow> bplan \<Rightarrow> live_map \<Rightarrow> int \<Rightarrow> gotime \<Rightarrow> lplan res" where
  "build_private H R recipe worker b live protocol t0 = build_advertising H R recipe worker b live None protocol t0"

section \<open>Reading a plan\<close>

definition validators :: "lplan \<Rightarrow> ntarget list" where
  "validators p = filter (\<lambda>t. nt_role t = ''validator'') (lp_targets p)"

text \<open>\<open>Wallet\<close> panics on a plan without a wallet, which validation refuses; \<open>None\<close> is the panic.\<close>

definition wallet_of :: "lplan \<Rightarrow> ntarget option" where
  "wallet_of p = find (\<lambda>t. nt_role t = ''wallet'') (lp_targets p)"

definition miner_of :: "lplan \<Rightarrow> ntarget option" where
  "miner_of p = (case find (\<lambda>t. nt_role t = ''miner'') (lp_targets p) of Some t \<Rightarrow> Some t | None \<Rightarrow> wallet_of p)"

definition peer_addresses :: "lplan \<Rightarrow> string list" where
  "peer_addresses p = sort (map (\<lambda>t. (if CHR '':'' \<in> set (nt_peer t) then ''['' @ nt_peer t @ '']'' else nt_peer t) @ '':20001'') (lp_targets p))"

section \<open>What an accepted plan says\<close>

definition bound_target :: "string \<Rightarrow> ntarget \<times> target \<times> btarget \<Rightarrow> bool" where
  "bound_target mode x = (case x of (t, e, b) \<Rightarrow> nt_name t = tg_name e \<and> nt_role t = tg_role e \<and> nt_arch t = tg_arch e \<and>
     nt_images t = bg_images b \<and> validate_ntarget t = Inr () \<and> check_advertised mode t = Inr () \<and>
     nt_role t \<in> {''validator'', ''wallet'', ''miner'', ''fullnode''})"

definition target_ips :: "ntarget \<Rightarrow> string list" where
  "target_ips t = (if nt_private t \<noteq> [] then [nt_private t] else []) @ [nt_peer t]"

definition role_count :: "string \<Rightarrow> ntarget list \<Rightarrow> nat" where
  "role_count role ts = length (filter (\<lambda>t. nt_role t = role) ts)"

definition seen_after :: "ntarget list \<Rightarrow> seen_targets" where
  "seen_after ts = \<lparr>sn_ids = rev (map nt_instance ts), sn_ips = concat (map target_ips (rev ts)),
     sn_validators = role_count ''validator'' ts, sn_wallets = role_count ''wallet'' ts, sn_miners = role_count ''miner'' ts\<rparr>"

lemma check_chain_target_Inr:
  "check_chain_target mode s (t, e, b) = Inr s' \<longleftrightarrow> bound_target mode (t, e, b) \<and> nt_instance t \<notin> set (sn_ids s) \<and>
     set (target_ips t) \<inter> set (sn_ips s) = {} \<and>
     s' = \<lparr>sn_ids = nt_instance t # sn_ids s, sn_ips = target_ips t @ sn_ips s,
       sn_validators = sn_validators s + role_count ''validator'' [t],
       sn_wallets = sn_wallets s + role_count ''wallet'' [t], sn_miners = sn_miners s + role_count ''miner'' [t]\<rparr>"
  by (auto simp: check_chain_target_def bound_target_def target_ips_def role_count_def res_simps)

lemma seen_after_snoc:
  "seen_after (ts @ [t]) = \<lparr>sn_ids = nt_instance t # sn_ids (seen_after ts), sn_ips = target_ips t @ sn_ips (seen_after ts),
     sn_validators = sn_validators (seen_after ts) + role_count ''validator'' [t],
     sn_wallets = sn_wallets (seen_after ts) + role_count ''wallet'' [t], sn_miners = sn_miners (seen_after ts) + role_count ''miner'' [t]\<rparr>"
  by (simp add: seen_after_def role_count_def)

text \<open>The scan accepts exactly bound targets with distinct instances whose addresses do not meet.\<close>

definition apart :: "ntarget list \<Rightarrow> bool" where
  "apart ts \<longleftrightarrow> distinct (map nt_instance ts) \<and>
     (\<forall>i < length ts. \<forall>j < i. set (target_ips (ts ! i)) \<inter> set (target_ips (ts ! j)) = {})"

lemma pairs_snoc:
  "(\<forall>i < length (ts @ [t]). \<forall>j < i. S ((ts @ [t]) ! i) ((ts @ [t]) ! j)) \<longleftrightarrow>
     (\<forall>i < length ts. \<forall>j < i. S (ts ! i) (ts ! j)) \<and> (\<forall>u \<in> set ts. S t u)"
proof -
  have "(\<forall>i < length ts. \<forall>j < i. S ((ts @ [t]) ! i) ((ts @ [t]) ! j)) \<longleftrightarrow> (\<forall>i < length ts. \<forall>j < i. S (ts ! i) (ts ! j))"
    by (simp add: nth_append)
  moreover have "(\<forall>j < length ts. S ((ts @ [t]) ! length ts) ((ts @ [t]) ! j)) \<longleftrightarrow> (\<forall>u \<in> set ts. S t u)"
    by (simp add: nth_append all_set_conv_all_nth)
  ultimately show ?thesis by (simp add: All_less_Suc conj_commute)
qed

lemma apart_snoc:
  "apart (ts @ [t]) \<longleftrightarrow> apart ts \<and> nt_instance t \<notin> set (sn_ids (seen_after ts)) \<and> set (target_ips t) \<inter> set (sn_ips (seen_after ts)) = {}"
proof -
  have "(\<forall>u \<in> set ts. set (target_ips t) \<inter> set (target_ips u) = {}) \<longleftrightarrow>
      set (target_ips t) \<inter> set (sn_ips (seen_after ts)) = {}"
    by (auto simp: seen_after_def)
  moreover have "distinct (map nt_instance (ts @ [t])) \<longleftrightarrow> distinct (map nt_instance ts) \<and> nt_instance t \<notin> set (sn_ids (seen_after ts))"
    by (auto simp: seen_after_def)
  ultimately show ?thesis
    unfolding apart_def pairs_snoc [where S = "\<lambda>a b. set (target_ips a) \<inter> set (target_ips b) = {}"] by blast
qed

lemma scan_chain_targets:
  "scan_ok (check_chain_target mode) no_targets_seen xs = Inr s \<longleftrightarrow>
     (\<forall>x \<in> set xs. bound_target mode x) \<and> apart (map fst xs) \<and> s = seen_after (map fst xs)"
proof (induction xs arbitrary: s rule: rev_induct)
  case Nil
  then show ?case by (auto simp: no_targets_seen_def seen_after_def role_count_def apart_def)
next
  case (snoc x xs)
  obtain t e b where x: "x = (t, e, b)" by (cases x)
  have one: "Ball {y} P = P y" for y :: "ntarget \<times> target \<times> btarget" and P by simp
  have "scan_ok (check_chain_target mode) no_targets_seen (xs @ [x]) = Inr s \<longleftrightarrow>
      (\<exists>s1. scan_ok (check_chain_target mode) no_targets_seen xs = Inr s1 \<and> check_chain_target mode s1 x = Inr s)"
    by (simp add: scan_ok_append res_simps)
  also have "\<dots> \<longleftrightarrow> (\<forall>x \<in> set xs. bound_target mode x) \<and> apart (map fst xs) \<and>
      check_chain_target mode (seen_after (map fst xs)) x = Inr s"
    unfolding snoc.IH by blast
  also have "\<dots> \<longleftrightarrow> (\<forall>x \<in> set (xs @ [x]). bound_target mode x) \<and> apart (map fst (xs @ [x])) \<and> s = seen_after (map fst (xs @ [x]))"
    unfolding x check_chain_target_Inr map_append list.map fst_conv apart_snoc seen_after_snoc set_append list.set ball_Un
    by (simp only: one conj_ac)
  finally show ?case .
qed

lemma validate_lplan_Inr:
  "validate_lplan H R recipe worker p = Inr () \<longleftrightarrow>
     ch_type (nw_chain (pl_network (bp_compute (lp_bootstrap p)))) = ''devnet'' \<and>
     validate_bplan H R recipe (lp_bootstrap p) = Inr () \<and>
     lp_id p = H (lplan_json (p\<lparr>lp_id := []\<rparr>)) \<and> lp_api p = api_version \<and> lp_kind p = ''DevnetDeploymentPlan'' \<and>
     lp_profile p = profile \<and> lp_recipe p = worker \<and> check_chain_policy p = Inr () \<and> check_chain_identity p = Inr () \<and>
     check_chain_gateway R p = Inr () \<and>
     (\<forall>x \<in> set (zip (lp_targets p) (zip (pl_targets (bp_compute (lp_bootstrap p))) (bp_targets (lp_bootstrap p)))). bound_target (lp_advertise p) x) \<and>
     apart (lp_targets p) \<and> 13 \<le> role_count ''validator'' (lp_targets p) \<and> role_count ''validator'' (lp_targets p) \<le> 25 \<and>
     role_count ''wallet'' (lp_targets p) = 1 \<and> role_count ''miner'' (lp_targets p) \<le> 1"
proof (cases "check_chain_identity p = Inr () \<and> validate_bplan H R recipe (lp_bootstrap p) = Inr ()")
  case True
  then have "length (lp_targets p) = length (zip (pl_targets (bp_compute (lp_bootstrap p))) (bp_targets (lp_bootstrap p)))"
    by (auto simp: check_chain_identity_def validate_bplan_Inr build_bootstrap_Inr Let_def split: if_splits)
  then have m: "map fst (zip (lp_targets p) (zip (pl_targets (bp_compute (lp_bootstrap p))) (bp_targets (lp_bootstrap p)))) = lp_targets p"
    by (rule map_fst_zip)
  show ?thesis
    unfolding validate_lplan_def by (auto simp: res_simps scan_chain_targets m seen_after_def)
next
  case False
  then show ?thesis unfolding validate_lplan_def by (auto simp: res_simps)
qed

lemma check_chain_identity_Inr:
  "check_chain_identity p = Inr () \<Longrightarrow> lp_advertise p = ''public'' \<and> lp_platform_chain p = ''dash-devnet-'' @ lp_core_network p \<and>
     length (lp_platform_chain p) \<le> 50 \<and> length (lp_targets p) = length (bp_targets (lp_bootstrap p))"
  by (auto simp: check_chain_identity_def Let_def split: if_splits)

lemma public_target:
  assumes "check_advertised ''public'' t = Inr ()"
  shows "\<exists>ip. to4 (nt_peer t) = Some ip \<and> is_global_unicast ip \<and> \<not> is_private ip"
    "\<exists>ip. to4 (nt_private t) = Some ip \<and> is_private ip"
  using assms by (auto simp: check_advertised_def split: option.splits if_splits)

lemma find_role: "0 < role_count role ts \<Longrightarrow> \<exists>t. find (\<lambda>t. nt_role t = role) ts = Some t \<and> t \<in> set ts \<and> nt_role t = role"
  by (induction ts) (auto simp: role_count_def split: if_splits)

lemma lplan_bound:
  assumes "validate_lplan H R recipe worker p = Inr ()" and "k < length (lp_targets p)"
  shows "bound_target ''public'' (lp_targets p ! k, pl_targets (bp_compute (lp_bootstrap p)) ! k, bp_targets (lp_bootstrap p) ! k)"
    and "length (lp_targets p) = length (bp_targets (lp_bootstrap p))"
    and "length (pl_targets (bp_compute (lp_bootstrap p))) = length (bp_targets (lp_bootstrap p))"
proof -
  let ?e = "pl_targets (bp_compute (lp_bootstrap p))" and ?b = "bp_targets (lp_bootstrap p)" and ?ts = "lp_targets p"
  have v: "validate_bplan H R recipe (lp_bootstrap p) = Inr ()" "check_chain_identity p = Inr ()"
    "\<forall>x \<in> set (zip ?ts (zip ?e ?b)). bound_target (lp_advertise p) x"
    using assms(1) by (simp_all add: validate_lplan_Inr)
  have l: "length ?ts = length ?b" "length ?e = length ?b" and pub: "lp_advertise p = ''public''"
    using check_chain_identity_Inr [OF v(2)] v(1) by (auto simp: validate_bplan_Inr build_bootstrap_Inr)
  have "(?ts ! k, ?e ! k, ?b ! k) \<in> set (zip ?ts (zip ?e ?b))" using assms(2) l by (auto simp: in_set_zip)
  then show "bound_target ''public'' (?ts ! k, ?e ! k, ?b ! k)" using v(3) pub by auto
  show "length ?ts = length ?b" "length ?e = length ?b" by (rule l)+
qed

lemma lplan_mirror:
  assumes "validate_lplan H R recipe worker p = Inr ()"
  shows "map nt_name (lp_targets p) = map tg_name (pl_targets (bp_compute (lp_bootstrap p)))"
    and "map nt_role (lp_targets p) = map tg_role (pl_targets (bp_compute (lp_bootstrap p)))"
    and "map nt_images (lp_targets p) = map bg_images (bp_targets (lp_bootstrap p))"
    and "map nt_arch (lp_targets p) = map tg_arch (pl_targets (bp_compute (lp_bootstrap p)))"
    and "distinct (map nt_name (lp_targets p))"
proof -
  have "length (lp_targets p) = length (bp_targets (lp_bootstrap p))"
    "length (pl_targets (bp_compute (lp_bootstrap p))) = length (bp_targets (lp_bootstrap p))"
    using assms by (auto simp: validate_lplan_Inr validate_bplan_Inr build_bootstrap_Inr dest: check_chain_identity_Inr)
  then show n: "map nt_name (lp_targets p) = map tg_name (pl_targets (bp_compute (lp_bootstrap p)))"
    "map nt_role (lp_targets p) = map tg_role (pl_targets (bp_compute (lp_bootstrap p)))"
    "map nt_images (lp_targets p) = map bg_images (bp_targets (lp_bootstrap p))"
    "map nt_arch (lp_targets p) = map tg_arch (pl_targets (bp_compute (lp_bootstrap p)))"
    using lplan_bound(1) [OF assms] by (auto intro!: nth_equalityI simp: bound_target_def)
  show "distinct (map nt_name (lp_targets p))"
    unfolding n(1) using assms by (intro valid_plan_names) (auto simp: validate_lplan_Inr validate_bplan_Inr build_bootstrap_Inr)
qed

lemma lplan_addresses:
  assumes "validate_lplan H R recipe worker p = Inr ()" and "t \<in> set (lp_targets p)"
  shows "(\<exists>ip. to4 (nt_peer t) = Some ip \<and> is_global_unicast ip \<and> \<not> is_private ip) \<and>
       (\<exists>ip. to4 (nt_private t) = Some ip \<and> is_private ip) \<and> usable_v4 (nt_ssh t)" and "nt_private t \<noteq> []"
proof -
  obtain k where "k < length (lp_targets p)" "t = lp_targets p ! k" using assms(2) by (metis in_set_conv_nth)
  then show *: "(\<exists>ip. to4 (nt_peer t) = Some ip \<and> is_global_unicast ip \<and> \<not> is_private ip) \<and>
       (\<exists>ip. to4 (nt_private t) = Some ip \<and> is_private ip) \<and> usable_v4 (nt_ssh t)"
    using lplan_bound(1) [OF assms(1), of k] by (auto simp: bound_target_def validate_ntarget_Inr dest: public_target)
  show "nt_private t \<noteq> []"
  proof
    assume "nt_private t = []"
    moreover have "to4 [] = None" by (simp add: to4_def)
    ultimately show False using * by simp
  qed
qed

lemma lplan_roles:
  assumes "validate_lplan H R recipe worker p = Inr ()"
  obtains w m where "wallet_of p = Some w" and "miner_of p = Some m" and "w \<in> set (lp_targets p)" and "m \<in> set (lp_targets p)"
    and "13 \<le> length (validators p)" and "length (validators p) \<le> 25"
proof -
  have v: "13 \<le> role_count ''validator'' (lp_targets p)" "role_count ''validator'' (lp_targets p) \<le> 25" "role_count ''wallet'' (lp_targets p) = 1"
    using assms by (simp_all add: validate_lplan_Inr)
  obtain w where w: "wallet_of p = Some w" "w \<in> set (lp_targets p)"
    using find_role [of "''wallet''" "lp_targets p"] v(3) by (auto simp: wallet_of_def)
  obtain m where "miner_of p = Some m" "m \<in> set (lp_targets p)"
    using w by (cases "find (\<lambda>t. nt_role t = ''miner'') (lp_targets p)") (auto simp: miner_of_def find_Some_iff)
  then show thesis using that w v(1,2) by (simp add: validators_def role_count_def)
qed

section \<open>Properties\<close>

text \<open>C35: What an accepted deployment plan binds. Its targets are the bootstrap plan's, position by
  position, with their names, roles, architectures and images; they are distinct instances on hosts
  whose addresses nowhere meet; each advertises a public unicast address and has a private one; there
  are 13 to 25 validators, exactly one wallet (so that the wallet lookup does not panic), at most one
  separate miner, and a node that mines.\<close>

theorem chain_plan_binds:
  assumes "validate_lplan H R recipe worker p = Inr ()"
  shows "map nt_name (lp_targets p) = map tg_name (pl_targets (bp_compute (lp_bootstrap p))) \<and>
    map nt_role (lp_targets p) = map tg_role (pl_targets (bp_compute (lp_bootstrap p))) \<and>
    map nt_arch (lp_targets p) = map tg_arch (pl_targets (bp_compute (lp_bootstrap p))) \<and>
    map nt_images (lp_targets p) = map bg_images (bp_targets (lp_bootstrap p)) \<and>
    distinct (map nt_name (lp_targets p)) \<and> distinct (map nt_instance (lp_targets p)) \<and>
    distinct (map nt_peer (lp_targets p)) \<and> distinct (map nt_private (lp_targets p)) \<and>
    (\<forall>t \<in> set (lp_targets p). (\<exists>ip. to4 (nt_peer t) = Some ip \<and> is_global_unicast ip \<and> \<not> is_private ip) \<and>
       (\<exists>ip. to4 (nt_private t) = Some ip \<and> is_private ip) \<and> usable_v4 (nt_ssh t)) \<and>
    13 \<le> length (validators p) \<and> length (validators p) \<le> 25 \<and>
    length (filter (\<lambda>t. nt_role t = ''wallet'') (lp_targets p)) = 1 \<and>
    length (filter (\<lambda>t. nt_role t = ''miner'') (lp_targets p)) \<le> 1 \<and>
    (\<exists>w m. wallet_of p = Some w \<and> miner_of p = Some m \<and> w \<in> set (lp_targets p) \<and> m \<in> set (lp_targets p))"
proof -
  let ?ts = "lp_targets p"
  have v: "apart ?ts" using assms by (simp add: validate_lplan_Inr)
  then have "distinct (map nt_instance ?ts)" by (simp add: apart_def)
  moreover have "i \<noteq> j \<Longrightarrow> i < length ?ts \<Longrightarrow> j < length ?ts \<Longrightarrow> set (target_ips (?ts ! i)) \<inter> set (target_ips (?ts ! j)) = {}" for i j
    using v unfolding apart_def by (metis inf_commute linorder_neqE_nat)
  then have "distinct (map nt_peer ?ts)" "distinct (map nt_private ?ts)"
    using lplan_addresses(2) [OF assms] by (fastforce simp: distinct_conv_nth target_ips_def)+
  moreover have "length (filter (\<lambda>t. nt_role t = ''wallet'') ?ts) = 1 \<and> length (filter (\<lambda>t. nt_role t = ''miner'') ?ts) \<le> 1"
    using assms by (simp add: validate_lplan_Inr role_count_def)
  ultimately show ?thesis
    using lplan_mirror [OF assms] lplan_addresses(1) [OF assms] by (rule_tac lplan_roles [OF assms]) auto
qed

end
