(* ===== verification/Chain_Sample.thy ===== *)
theory Chain_Sample
  imports Chain_Plan
begin

text \<open>
  A concrete devnet for the witnesses of the chain lifecycle: thirteen validators and a wallet on
  public Elastic IPs, with its EC2, bootstrap and deployment plans.
\<close>

text \<open>Distinct addresses over a list of lists keep its members apart.\<close>

lemma distinct_concat_apart:
  "distinct (concat (map f xs)) \<Longrightarrow> i < length xs \<Longrightarrow> j < i \<Longrightarrow> set (f (xs ! i)) \<inter> set (f (xs ! j)) = {}"
proof (induction xs arbitrary: i j)
  case (Cons x xs)
  then show ?case by (cases i; cases j) (fastforce simp: nth_mem)+
qed simp

definition devnet_footprint :: footprint where
  "devnet_footprint = sample_footprint\<lparr>fp_public := True, fp_pool := ''ipam-pool-00000000000000000''\<rparr>"

definition devnet_network :: network where
  "devnet_network = sample_network\<lparr>nw_aws := (nw_aws sample_network)\<lparr>aws_provision := Some devnet_footprint\<rparr>,
     nw_nodes := [\<lparr>ng_name = ''val'', ng_role = ''validator'', ng_count = 13, ng_arch = ''amd64'', ng_type = ''t3.large''\<rparr>,
       \<lparr>ng_name = ''wal'', ng_role = ''wallet'', ng_count = 1, ng_arch = ''amd64'', ng_type = ''t3.large''\<rparr>]\<rparr>"

definition devnet_plan :: plan where
  "devnet_plan = build sample_hash devnet_network sample_roots"

definition devnet_lock :: lock where
  "devnet_lock = \<lparr>lk_api = api_version, lk_kind = ''ReleaseLock'', lk_network = ''devnet-a'', lk_generation = 1,
     lk_spec = fingerprint sample_hash devnet_network, lk_resolved = 1, lk_evidence = evidence, lk_images = map (\<lambda>c. \<lparr>im_component = c,
       im_requested = ''repo:1'', im_pinned = ''repo:1@'' @ sample_digest, im_platforms = [\<lparr>pf_os = ''linux'',
       pf_arch = ''amd64'', pf_digest = sample_digest\<rparr>]\<rparr>) components\<rparr>"

definition devnet_access :: access where
  "devnet_access = \<lparr>ac_user = ''ubuntu'', ac_port = 22, ac_address = ''public''\<rparr>"

definition devnet_bplan :: bplan where
  "devnet_bplan = (case build_bootstrap sample_hash sample_refs ''recipe'' devnet_plan devnet_lock devnet_access of
     Inr p \<Rightarrow> p | Inl e \<Rightarrow> undefined)"

definition devnet_inst :: "nat \<Rightarrow> inst" where
  "devnet_inst k = \<lparr>in_id = ''i-000000'' @ itoa (k + 10), in_token = [], in_image = [], in_type = [], in_arch = [], in_subnet = [],
     in_vpc = [], in_key = [], in_sgs = [], in_http_tokens = None, in_state = Some ''running'', in_tags = [],
     in_public_ip = ''203.0.113.'' @ itoa (k + 10), in_private_ip = ''10.0.0.'' @ itoa (k + 10), in_enis = []\<rparr>"

definition devnet_live :: live_map where
  "devnet_live = fmap_of_list (zip (map tg_name (pl_targets devnet_plan)) (map devnet_inst [0..<14]))"

definition devnet_options :: chain_options where
  "devnet_options = no_options\<lparr>op_public := Some (fmap_of_list
     (zip (map tg_name (pl_targets devnet_plan)) (map (in_public_ip \<circ> devnet_inst) [0..<14])))\<rparr>"

definition devnet_host :: "target \<times> inst \<Rightarrow> ntarget" where
  "devnet_host x = (case x of (t, i) \<Rightarrow> \<lparr>nt_name = tg_name t, nt_role = tg_role t, nt_arch = tg_arch t, nt_instance = in_id i,
     nt_ssh = in_public_ip i, nt_peer = in_public_ip i, nt_private = in_private_ip i, nt_images = []\<rparr>)"

definition devnet_hosts :: "(target \<times> inst) list" where
  "devnet_hosts = zip (pl_targets devnet_plan) (map devnet_inst [0..<14])"

definition devnet_ntarget :: "target \<times> inst \<Rightarrow> ntarget" where
  "devnet_ntarget x = (devnet_host x)\<lparr>nt_images := bg_images (bootstrap_target sample_refs devnet_lock (fst x))\<rparr>"

definition devnet_ntargets :: "ntarget list" where
  "devnet_ntargets = map devnet_ntarget devnet_hosts"

definition devnet_lplan :: lplan where
  "devnet_lplan = \<lparr>lp_api = api_version, lp_kind = ''DevnetDeploymentPlan'', lp_id = sample_hex, lp_bootstrap = devnet_bplan,
     lp_profile = profile, lp_recipe = ''worker'', lp_core_network = ''a'', lp_platform_chain = ''dash-devnet-a'',
     lp_genesis_time = 1, lp_protocol = 1, lp_mining = 10, lp_premine = 4032, lp_epoch = 3600, lp_advertise = ''public'',
     lp_tls = None, lp_targets = devnet_ntargets\<rparr>"

lemma devnet_network_valid: "validate_network sample_refs devnet_network = Inr ()"
  by code_simp

lemma devnet_plan_valid: "validate_plan sample_hash sample_refs devnet_plan = Inr ()"
  by code_simp

lemma devnet_lock_valid: "validate_lock sample_hash sample_refs devnet_network devnet_lock = Inr ()"
  by code_simp

lemma devnet_bplan_valid: "validate_bplan sample_hash sample_refs ''recipe'' devnet_bplan = Inr ()"
proof -
  have "check_access devnet_plan devnet_access = Inr ()" by code_simp
  moreover have "pl_network devnet_plan = devnet_network" by (simp add: devnet_plan_def build_def Let_def)
  ultimately have "build_bootstrap sample_hash sample_refs ''recipe'' devnet_plan devnet_lock devnet_access = Inr devnet_bplan"
    using devnet_plan_valid devnet_lock_valid by (simp add: devnet_bplan_def build_bootstrap_def Let_def)
  then show ?thesis by (simp add: validate_bplan_Inr build_bootstrap_Inr)
qed

lemma devnet_bplan_parts:
  "bp_compute devnet_bplan = devnet_plan" "bp_release devnet_bplan = devnet_lock" "bp_access devnet_bplan = devnet_access"
  "bp_targets devnet_bplan = map (bootstrap_target sample_refs devnet_lock) (pl_targets devnet_plan)"
  "pl_network devnet_plan = devnet_network"
proof -
  have c: "check_access devnet_plan devnet_access = Inr ()" by code_simp
  show n: "pl_network devnet_plan = devnet_network" by (simp add: devnet_plan_def build_def Let_def)
  show "bp_compute devnet_bplan = devnet_plan" "bp_release devnet_bplan = devnet_lock" "bp_access devnet_bplan = devnet_access"
    "bp_targets devnet_bplan = map (bootstrap_target sample_refs devnet_lock) (pl_targets devnet_plan)"
    using devnet_plan_valid devnet_lock_valid c n by (simp_all add: devnet_bplan_def build_bootstrap_def Let_def)
qed

lemma devnet_hosts_valid:
  "list_all (\<lambda>t. validate_ntarget t = Inr () \<and> check_advertised ''public'' t = Inr () \<and>
     nt_role t \<in> {''validator'', ''wallet'', ''miner'', ''fullnode''}) (map devnet_host devnet_hosts)"
  by code_simp

lemma devnet_hosts_apart: "apart (map devnet_host devnet_hosts)"
proof -
  have "distinct (map nt_instance (map devnet_host devnet_hosts)) \<and>
      distinct (concat (map target_ips (map devnet_host devnet_hosts)))" by code_simp
  then show ?thesis unfolding apart_def using distinct_concat_apart by blast
qed

lemma devnet_hosts_roles:
  "role_count ''validator'' (map devnet_host devnet_hosts) = 13" "role_count ''wallet'' (map devnet_host devnet_hosts) = 1"
  "role_count ''miner'' (map devnet_host devnet_hosts) = 0" "length devnet_hosts = 14"
  by code_simp+

lemma devnet_ntarget_fields [simp]:
  "nt_name (devnet_ntarget x) = tg_name (fst x)" "nt_role (devnet_ntarget x) = tg_role (fst x)" "nt_arch (devnet_ntarget x) = tg_arch (fst x)"
  "nt_images (devnet_ntarget x) = bg_images (bootstrap_target sample_refs devnet_lock (fst x))"
  "validate_ntarget (devnet_ntarget x) = validate_ntarget (devnet_host x)" "nt_instance (devnet_ntarget x) = nt_instance (devnet_host x)"
  "check_advertised m (devnet_ntarget x) = check_advertised m (devnet_host x)" "target_ips (devnet_ntarget x) = target_ips (devnet_host x)"
  "nt_role (devnet_host x) = tg_role (fst x)" "nt_name (devnet_host x) = tg_name (fst x)" "nt_arch (devnet_host x) = tg_arch (fst x)"
  by (simp_all add: devnet_ntarget_def devnet_host_def validate_ntarget_def check_advertised_def target_ips_def
      cong: option.case_cong if_cong split: prod.splits)

lemma devnet_targets_valid:
  "\<forall>x \<in> set (zip devnet_ntargets (zip (pl_targets devnet_plan) (map (bootstrap_target sample_refs devnet_lock) (pl_targets devnet_plan)))).
     bound_target ''public'' x" "apart devnet_ntargets" "role_count ''validator'' devnet_ntargets = 13"
  "role_count ''wallet'' devnet_ntargets = 1" "role_count ''miner'' devnet_ntargets = 0"
proof -
  have l: "length (pl_targets devnet_plan) = 14" by code_simp
  have b: "bound_target ''public'' (devnet_ntarget x, fst x, bootstrap_target sample_refs devnet_lock (fst x))" if "x \<in> set devnet_hosts" for x
    using that devnet_hosts_valid by (auto simp: bound_target_def list_all_iff)
  have "zip devnet_ntargets (zip (pl_targets devnet_plan) (map (bootstrap_target sample_refs devnet_lock) (pl_targets devnet_plan))) =
      map (\<lambda>x. (devnet_ntarget x, fst x, bootstrap_target sample_refs devnet_lock (fst x))) devnet_hosts"
    using l by (intro nth_equalityI) (simp_all add: devnet_ntargets_def devnet_hosts_def)
  then show "\<forall>x \<in> set (zip devnet_ntargets (zip (pl_targets devnet_plan) (map (bootstrap_target sample_refs devnet_lock) (pl_targets devnet_plan)))).
     bound_target ''public'' x" using b by simp
  show "apart devnet_ntargets"
    using devnet_hosts_apart by (simp add: apart_def devnet_ntargets_def comp_def)
  show "role_count ''validator'' devnet_ntargets = 13" "role_count ''wallet'' devnet_ntargets = 1" "role_count ''miner'' devnet_ntargets = 0"
    using devnet_hosts_roles by (simp_all add: role_count_def devnet_ntargets_def filter_map comp_def)
qed

lemma devnet_lplan_valid: "validate_lplan sample_hash sample_refs ''recipe'' ''worker'' devnet_lplan = Inr ()"
proof -
  have l: "length devnet_ntargets = 14" "length (pl_targets devnet_plan) = 14" using devnet_hosts_roles by (simp add: devnet_ntargets_def) code_simp
  have i: "chain_name ''devnet-a'' 1 = ''a''" by code_simp
  have n: "md_name (nw_metadata devnet_network) = ''devnet-a''" "ch_generation (nw_chain devnet_network) = 1" "ch_type (nw_chain devnet_network) = ''devnet''"
    by (simp_all add: devnet_network_def sample_network_def)
  have p: "lp_bootstrap devnet_lplan = devnet_bplan" "lp_targets devnet_lplan = devnet_ntargets" "lp_advertise devnet_lplan = ''public''"
    by (simp_all add: devnet_lplan_def)
  have "sample_hash (lplan_json (devnet_lplan\<lparr>lp_id := []\<rparr>)) = sample_hex" by (simp add: sample_hash_def sample_hex_def)
  moreover have "check_chain_policy devnet_lplan = Inr ()"
    by (simp add: check_chain_policy_def devnet_lplan_def min_block_def max_block_def min_epoch_def max_epoch_def)
  moreover have "check_chain_identity devnet_lplan = Inr ()"
    by (simp add: check_chain_identity_def p devnet_bplan_parts n l i) (simp add: devnet_lplan_def)
  moreover have "check_chain_gateway sample_refs devnet_lplan = Inr ()" by (simp add: check_chain_gateway_def devnet_lplan_def)
  ultimately show ?thesis
    using devnet_targets_valid devnet_bplan_valid
    by (simp add: validate_lplan_Inr p devnet_bplan_parts n) (simp add: devnet_lplan_def)
qed

theorem chain_plan_binds_witness:
  "length (validators devnet_lplan) \<le> 25 \<and> distinct (map nt_peer (lp_targets devnet_lplan))"
  using chain_plan_binds [OF devnet_lplan_valid] by blast

end
