(* ===== verification/Fleet_Ops.thy ===== *)
theory Fleet_Ops
  imports Provision Node_Protocol
begin

text \<open>
  What the executors over hosts share (\<open>internal/bootstrap\<close>, \<open>internal/join\<close>, \<open>internal/lifecycle\<close>):
  requests to AWS, to the journal, to a registry and to the hosts, the provisioning operations run
  inside such an executor, and a batch of concurrent host calls whose results one goroutine takes in
  the order they arrive.
\<close>

section \<open>Requests and the world\<close>

datatype 'h freq =
    FCloud preq
  | FRead plan
  | FHost 'h
  | FInspect string "string list" \<comment> \<open>reference, architectures\<close>
  | FNext \<comment> \<open>the scheduler's choice\<close>
  | FWait gotime

datatype 'o freply =
    WCloud preply
  | WStored "(oprec \<times> string) res"
  | WSeen "'o res"
  | WPinned "pinned_image res"
  | WNext nat
  | WDone "unit res"

fun cloud_reply :: "'o freply \<Rightarrow> preply" where "cloud_reply (WCloud r) = r" | "cloud_reply _ = RUnit odd_reply"
fun stored_reply :: "'o freply \<Rightarrow> (oprec \<times> string) res" where "stored_reply (WStored r) = r" | "stored_reply _ = odd_reply"
fun seen_reply :: "'o freply \<Rightarrow> 'o res" where "seen_reply (WSeen r) = r" | "seen_reply _ = odd_reply"
fun pinned_reply :: "'o freply \<Rightarrow> pinned_image res" where "pinned_reply (WPinned r) = r" | "pinned_reply _ = odd_reply"
fun next_reply :: "'o freply \<Rightarrow> nat" where "next_reply (WNext n) = n" | "next_reply _ = 0"
fun done_reply :: "'o freply \<Rightarrow> unit res" where "done_reply (WDone r) = r" | "done_reply _ = odd_reply"

text \<open>The world of an executor: the record in memory and the flag \<open>changed\<close>.\<close>

record ('h, 'o) fworld = "('h freq, 'o freply) sys" +
  fw_rec :: oprec
  fw_changed :: bool

type_synonym ('h, 'o, 'a) foper = "(('h, 'o) fworld, 'a) oper"

definition fcall :: "'h freq \<Rightarrow> ('o freply \<Rightarrow> 'a res) \<Rightarrow> ('h, 'o, 'a) foper" where
  "fcall q f = bnd (ask q) (\<lambda>a. lift (f a))"

definition set_frec :: "(oprec \<Rightarrow> oprec) \<Rightarrow> ('h, 'o, unit) foper" where
  "set_frec f = modify (\<lambda>w. w\<lparr>fw_rec := f (fw_rec w)\<rparr>)"

definition set_changed :: "('h, 'o, unit) foper" where
  "set_changed = modify (\<lambda>w. w\<lparr>fw_changed := True\<rparr>)"

definition wrapf :: "string \<Rightarrow> ('h, 'o, 'a) foper \<Rightarrow> ('h, 'o, 'a) foper" where
  "wrapf c m = bnd (attempt m) (\<lambda>r. case r of Inl e \<Rightarrow> fail (At c e) | Inr a \<Rightarrow> ret a)"

text \<open>A checkpoint: stamp the record and save it under the claim.\<close>

definition fsave :: "string \<Rightarrow> ('h, 'o, unit) foper" where
  "fsave owner = bnd now (\<lambda>t. sq (set_frec (stamp t))
     (bnd (gets fw_rec) (\<lambda>r. fcall (FCloud (QSave r owner)) (as_unit \<circ> cloud_reply))))"

text \<open>\<open>errors.Join(err, e)\<close> after a deferred call.\<close>

definition join_errors :: "unit res \<Rightarrow> unit res \<Rightarrow> unit res" where
  "join_errors res e = (case e of Inr _ \<Rightarrow> res
   | Inl e2 \<Rightarrow> (case res of Inr _ \<Rightarrow> Inl (Joined [e2]) | Inl e1 \<Rightarrow> Inl (Joined [e1, e2])))"

text \<open>The deferred function of an executor: \<open>mark\<close> records the interruption in the record.\<close>

definition fsettle :: "(oprec \<Rightarrow> oprec) \<Rightarrow> string \<Rightarrow> string \<Rightarrow> plan \<Rightarrow> string \<Rightarrow> unit res \<Rightarrow> ('h, 'o, unit) foper" where
  "fsettle mark saving releasing p owner res =
     bnd (gets fw_changed) (\<lambda>changed.
     bnd (case res of
         Inr _ \<Rightarrow> ret res
       | Inl e \<Rightarrow> if changed then sq (set_frec (\<lambda>r. (mark r)\<lparr>rc_error := Some e\<rparr>))
             (bnd (attempt (fsave owner)) (\<lambda>s. ret (join_errors res (case s of Inl e2 \<Rightarrow> Inl (At saving e2) | Inr _ \<Rightarrow> Inr ()))))
           else ret res) (\<lambda>res'.
     bnd (attempt (fcall (FCloud (QRelease p owner)) (as_unit \<circ> cloud_reply))) (\<lambda>s.
     lift (join_errors res' (case s of Inl e2 \<Rightarrow> Inl (if releasing = [] then e2 else At releasing e2) | Inr _ \<Rightarrow> Inr ())))))"

section \<open>Provisioning operations inside an executor\<close>

definition to_fleet :: "(preq, preply) hist \<Rightarrow> ('h freq, 'o freply) hist" where
  "to_fleet h = map (\<lambda>(q, r). (FCloud q, WCloud r)) h"

definition cloud_env :: "('h freq, 'o freply) env \<Rightarrow> ('h freq, 'o freply) hist \<Rightarrow> (preq, preply) env" where
  "cloud_env e h0 = \<lparr>answer = (\<lambda>h q. cloud_reply (answer e (to_fleet h @ h0) (FCloud q))),
     clock = (\<lambda>h. clock e (to_fleet h @ h0)), cancelled = (\<lambda>h. cancelled e (to_fleet h @ h0))\<rparr>"

definition to_pworld :: "('h, 'o) fworld \<Rightarrow> pworld" where
  "to_pworld w = \<lparr>env = cloud_env (env w) (hist w), hist = [], pw_rec = fw_rec w\<rparr>"

definition on_cloud :: "'a poper \<Rightarrow> ('h, 'o, 'a) foper" where
  "on_cloud m = (\<lambda>w. case m (to_pworld w) of
     (r, v) \<Rightarrow> (r, w\<lparr>hist := to_fleet (hist v) @ hist w, fw_rec := pw_rec v\<rparr>))"

text \<open>The lifting is faithful: a call inside is the call outside, and sequences are sequences.\<close>

lemma to_fleet_simps [simp]: "to_fleet [] = []" "to_fleet ((q, r) # h) = (FCloud q, WCloud r) # to_fleet h"
  "to_fleet (h @ h') = to_fleet h @ to_fleet h'"
  by (simp_all add: to_fleet_def)

section \<open>Concurrent host calls\<close>

text \<open>
  A batch starts every call of \<open>todo\<close> and hands each result to \<open>handle\<close>, one at a time. The scheduler
  decides at each point which outstanding result (an index into \<open>flying\<close>) is taken, or that the
  next call starts; \<open>st\<close> is what the handler accumulates. Every interleaving of the workers with the goroutine that takes the results is
  one of its answers. A buffered channel as long as the batch never blocks a worker, so any number of
  results may be outstanding.
\<close>

definition without :: "nat \<Rightarrow> 'x list \<Rightarrow> 'x list" where
  "without i xs = take i xs @ drop (Suc i) xs"

lemma length_without [simp]: "i < length xs \<Longrightarrow> length (without i xs) = length xs - 1"
  by (simp add: without_def)

function batch :: "('t \<times> 'h) list \<Rightarrow> ('t \<times> 'o res) list \<Rightarrow> 's \<Rightarrow> ('t \<Rightarrow> 'o res \<Rightarrow> 's \<Rightarrow> ('h, 'o, 's) foper) \<Rightarrow>
    ('h, 'o, 's) foper" where
  "batch todo flying st handle =
     (if todo = [] \<and> flying = [] then ret st
      else bnd (ask FNext) (\<lambda>a. let i = next_reply a in
        if i < length flying then
          bnd (handle (fst (flying ! i)) (snd (flying ! i)) st) (\<lambda>st'. batch todo (without i flying) st' handle)
        else if todo \<noteq> [] then
          bnd (ask (FHost (snd (hd todo)))) (\<lambda>b. batch (tl todo) (flying @ [(fst (hd todo), seen_reply b)]) st handle)
        else bnd (handle (fst (hd flying)) (snd (hd flying)) st) (\<lambda>st'. batch todo (tl flying) st' handle)))"
  by pat_completeness auto
termination
  by (relation "measure (\<lambda>(todo, flying, st, handle). 2 * length todo + length flying)")
     (auto simp: neq_Nil_conv)

declare batch.simps [simp del]

definition joined_failures :: "gerr list \<Rightarrow> unit res" where
  "joined_failures es = (if es = [] then Inr () else Inl (Joined es))"

lemma tl_without [simp]: "xs \<noteq> [] \<Longrightarrow> without 0 xs = tl xs" "xs \<noteq> [] \<Longrightarrow> xs ! 0 = hd xs"
  by (simp_all add: without_def drop_Suc hd_conv_nth)

text \<open>The invariant of a batch speaks of the calls not started and of the results not taken.\<close>

lemma wp_batch:
  fixes I :: "('t \<times> 'h) list \<Rightarrow> ('t \<times> 'o res) list \<Rightarrow> 's \<Rightarrow> ('h, 'o) fworld \<Rightarrow> bool"
  assumes "I todo flying st w"
    and choice: "\<And>todo flying st w a. I todo flying st w \<Longrightarrow> I todo flying st (w\<lparr>hist := (FNext, a) # hist w\<rparr>)"
    and start: "\<And>t q todo flying st w a. I ((t, q) # todo) flying st w \<Longrightarrow>
      I todo (flying @ [(t, seen_reply a)]) st (w\<lparr>hist := (FHost q, a) # hist w\<rparr>)"
    and handled: "\<And>todo flying st w i. i < length flying \<Longrightarrow> I todo flying st w \<Longrightarrow>
      wp (handle (fst (flying ! i)) (snd (flying ! i)) st) (\<lambda>st'. I todo (without i flying) st') E w"
  shows "wp (batch todo flying st handle) (\<lambda>st'. I [] [] st') E w"
  using assms(1) handled
proof (induction todo flying st handle arbitrary: w rule: batch.induct)
  case (1 todo flying st handle)
  show ?case
  proof (cases "todo = [] \<and> flying = []")
    case True
    then show ?thesis using "1.prems"(1) by (subst batch.simps) (simp add: wp_ret)
  next
    case False
    have c: "I todo flying st (w\<lparr>hist := (FNext, a) # hist w\<rparr>)" for a by (rule choice [OF "1.prems"(1)])
    have take_it: "wp (bnd (handle (fst (flying ! i)) (snd (flying ! i)) st) (\<lambda>st'. batch todo (without i flying) st' handle))
        (\<lambda>st'. I [] [] st') E (w\<lparr>hist := (FNext, a) # hist w\<rparr>)" if "i = next_reply a" "i < length flying" for i a
      unfolding wp_bnd
      by (rule wp_conseq [OF "1.prems"(2) [OF that(2) c]]) (use "1.IH"(1) [OF False refl] that "1.prems"(2) in auto)
    have first: "wp (bnd (handle (fst (hd flying)) (snd (hd flying)) st) (\<lambda>st'. batch todo (tl flying) st' handle))
        (\<lambda>st'. I [] [] st') E (w\<lparr>hist := (FNext, a) # hist w\<rparr>)" if "todo = []" "\<not> next_reply a < length flying" for a
    proof -
      have f: "flying \<noteq> []" using that False by simp
      show ?thesis unfolding wp_bnd
        by (rule wp_conseq [OF "1.prems"(2) [of 0, OF _ c, unfolded tl_without(1) [OF f] tl_without(2) [OF f]]])
          (use "1.IH"(3) [OF False refl] that f "1.prems"(2) in auto)
    qed
    have begin_it: "wp (bnd (ask (FHost (snd (hd todo)))) (\<lambda>b. batch (tl todo) (flying @ [(fst (hd todo), seen_reply b)]) st handle))
        (\<lambda>st'. I [] [] st') E (w\<lparr>hist := (FNext, a) # hist w\<rparr>)" if "todo \<noteq> []" "\<not> next_reply a < length flying" for a
    proof -
      obtain t q ts where t: "todo = (t, q) # ts" using \<open>todo \<noteq> []\<close> by (cases todo) auto
      show ?thesis unfolding wp_bnd wp_ask
        using "1.IH"(2) [OF False refl that(2,1)] start [OF c [unfolded t]] "1.prems"(2) by (simp add: t)
    qed
    show ?thesis
      by (subst batch.simps) (use False take_it first begin_it in \<open>simp add: wp_bnd [of "ask FNext"] wp_ask Let_def\<close>)
  qed
qed

section \<open>Invariants of reads\<close>

text \<open>The verification of the account and of the running targets only reads the cloud.\<close>

definition reads :: "preq \<Rightarrow> bool" where
  "reads q \<longleftrightarrow> inspects q \<or> (\<exists>tok. q = QInstances tok)"

locale reading_invariant =
  fixes I :: "pworld \<Rightarrow> bool"
  assumes reading: "reads q \<Longrightarrow> I w \<Longrightarrow> I (w\<lparr>hist := (q, a) # hist w\<rparr>)"
begin

lemma keeps_reading: "reads q \<Longrightarrow> keeps I (call q f)"
  unfolding call_def
  by (rule keeps_bnd) (auto simp: keeps_def ask_def lift_def Let_def intro: reading)

lemma keeps_account: "keeps I (verify_account x)"
  unfolding verify_account_def by (intro keeps_intros keeps_reading) (simp add: reads_def inspects_def)

lemma keeps_discover: "keeps I (discover H n p)"
proof -
  have "keeps I (discover_pages H p n tok seen st)" for tok seen st
    by (induction n arbitrary: tok seen st)
      (auto simp: reads_def intro!: keeps_bnd keeps_fail keeps_wrap keeps_reading keeps_lift keeps_ret split: option.splits)
  then show ?thesis by (simp add: discover_def)
qed

lemma keeps_running: "keeps I (running_targets H R n p r)"
  unfolding running_targets_def by (intro keeps_intros keeps_discover)

end

definition read_only :: "oprec \<Rightarrow> pworld \<Rightarrow> bool" where
  "read_only r w \<longleftrightarrow> pw_rec w = r \<and> list_all (\<lambda>x. reads (fst x)) (hist w)"

interpretation read_only: reading_invariant "read_only r" for r
  by unfold_locales (simp add: read_only_def)

fun peeks :: "('h \<Rightarrow> bool) \<Rightarrow> 'h freq \<Rightarrow> bool" where
  "peeks observes (FCloud q) = reads q"
| "peeks observes (FHost h) = observes h"
| "peeks observes (FRead p) = True"
| "peeks observes (FInspect ref arches) = True"
| "peeks observes FNext = True"
| "peeks observes (FWait d) = True"

text \<open>
  An invariant that the reads of an executor keep: of the cloud, of the journal, of a registry, the
  waits, and the host calls in \<open>observes\<close>.
\<close>

locale peeking_invariant =
  fixes I :: "('h, 'o) fworld \<Rightarrow> bool" and observes :: "'h \<Rightarrow> bool"
  assumes peek: "peeks observes q \<Longrightarrow> I w \<Longrightarrow> I (w\<lparr>hist := (q, a) # hist w\<rparr>)"
begin

lemma keeps_ask_peek: "peeks observes q \<Longrightarrow> keeps I (ask q)"
  by (auto simp: keeps_def ask_def Let_def intro: peek)

lemma keeps_peek: "peeks observes q \<Longrightarrow> keeps I (fcall q f)"
  unfolding fcall_def by (intro keeps_bnd keeps_lift keeps_ask_peek)

lemma keeps_on_cloud:
  assumes "\<And>r. keeps (read_only r) m"
  shows "keeps I (on_cloud m)"
proof (unfold keeps_def, intro allI impI)
  fix w assume I: "I w"
  obtain r v where m: "m (to_pworld w) = (r, v)" by fastforce
  have "read_only (fw_rec w) (to_pworld w)" by (simp add: read_only_def to_pworld_def)
  then have v: "read_only (fw_rec w) v" using assms [of "fw_rec w"] m by (auto simp: keeps_def)
  have "I (w\<lparr>hist := to_fleet h @ hist w\<rparr>)" if "list_all (\<lambda>x. reads (fst x)) h" for h
    using that
  proof (induction h)
    case (Cons x h)
    then show ?case using peek [of "FCloud (fst x)" "w\<lparr>hist := to_fleet h @ hist w\<rparr>" "WCloud (snd x)"]
      by (cases x) simp
  qed (simp add: I)
  then show "I (snd (on_cloud m w))" using v by (simp add: on_cloud_def m read_only_def)
qed

lemma keeps_on_account: "keeps I (on_cloud (verify_account x))"
  by (rule keeps_on_cloud) (rule read_only.keeps_account)

lemma keeps_on_running: "keeps I (on_cloud (running_targets H R n p r))"
  by (rule keeps_on_cloud) (rule read_only.keeps_running)

end

lemma wp_fcall:
  "wp (fcall q f) Q E w = (let a = answer (env w) (hist w) q; w' = w\<lparr>hist := (q, a) # hist w\<rparr> in
     case f a of Inr x \<Rightarrow> Q x w' | Inl e \<Rightarrow> E e w')"
  by (simp add: fcall_def wp_bnd wp_ask wp_lift Let_def)

lemma keeps_wrapf [keeps_intros, intro]: "keeps I m \<Longrightarrow> keeps I (wrapf c m)"
  unfolding wrapf_def by (intro keeps_bnd keeps_attempt keeps_case_sum keeps_fail keeps_ret)

lemma seen_reply_Inr: "seen_reply a = Inr b \<Longrightarrow> a = WSeen (Inr b)"
  by (cases a) (auto simp: odd_reply_def)

lemma done_reply_Inr: "done_reply a = Inr u \<Longrightarrow> a = WDone (Inr u)"
  by (cases a) (auto simp: odd_reply_def)

end
