(* ===== verification/Chain_Runtime.thy ===== *)
theory Chain_Runtime
  imports Chain_Sample Fleet_Ops
begin

text \<open>
  \<open>internal/lifecycle/runtime.go\<close> and \<open>upgrade_plan.go\<close>: the images and sidecar pins a fleet runs, the
  request of a node, the sidecar images a release's renders ask for, and the reviewed upgrade plan.
  The registry is asked for a reference by the text a render requested.
\<close>

section \<open>What the fleet runs\<close>

definition plan_images :: "lplan \<Rightarrow> fleet_images" where
  "plan_images p = fold (\<lambda>t m. fmupd (nt_name t) (current_images (nt_images t)) m) (lp_targets p) fmempty"

definition same_core_repo :: "image_refs \<Rightarrow> runtime \<Rightarrow> string \<times> image_set \<Rightarrow> unit res" where
  "same_core_repo R rt x = (case x of (n, was) \<Rightarrow>
     (case (new_digest R (mget was ''core''), new_digest R (mget (images_at (rt_images rt) n) ''core'')) of
        (Some (a, _), Some (b, _)) \<Rightarrow> if a \<noteq> b then Inl (Err ''runtime attempted to replace Core with another repository'') else Inr ()
      | _ \<Rightarrow> Inl (Err ''runtime attempted to replace Core with another repository'')))"

definition effective_images :: "image_refs \<Rightarrow> lplan \<Rightarrow> oprec \<Rightarrow> fleet_images res" where
  "effective_images R p r = (case rc_runtime r of None \<Rightarrow> Inr (plan_images p)
   | Some rt \<Rightarrow>
     if rt_deployment rt \<noteq> lp_id p then Inl (Err ''runtime belongs to another deployment'')
     else after (validate_images R (bp_compute (lp_bootstrap p)) (rt_images rt)) (\<lambda>_.
       after (each_ok (same_core_repo R rt) (sorted_list_of_fmap (plan_images p))) (\<lambda>_. Inr (rt_images rt))))"

definition effective_sidecars :: "oprec \<Rightarrow> sidecar list" where
  "effective_sidecars r = (case rc_runtime r of
     Some rt \<Rightarrow> if rt_sidecars rt \<noteq> [] then rt_sidecars rt
       else (case rc_deployment r of Some d \<Rightarrow> dp_sidecars d | None \<Rightarrow> [])
   | None \<Rightarrow> (case rc_deployment r of Some d \<Rightarrow> dp_sidecars d | None \<Rightarrow> []))"

section \<open>Requests\<close>

text \<open>\<open>p.Miner().Name\<close>; on a plan without wallet and miner, which validation refuses, the code panics.\<close>

definition miner_name :: "lplan \<Rightarrow> string" where
  "miner_name p = (case miner_of p of Some m \<Rightarrow> nt_name m | None \<Rightarrow> [])"

definition chain_context :: "lplan \<Rightarrow> ncontext" where
  "chain_context p = \<lparr>nc_plan = lp_id p, nc_compute = pl_id (bp_compute (lp_bootstrap p)), nc_bootstrap = bp_id (lp_bootstrap p),
     nc_network = md_name (nw_metadata (pl_network (bp_compute (lp_bootstrap p)))), nc_core_network = lp_core_network p,
     nc_platform_chain = lp_platform_chain p, nc_genesis_time = lp_genesis_time p, nc_protocol = lp_protocol p,
     nc_mining_interval = lp_mining p, nc_mining_node = miner_name p, nc_premine = lp_premine p, nc_epoch = lp_epoch p,
     nc_advertise = lp_advertise p, nc_tls = lp_tls p, nc_peers = peer_addresses p, nc_ports = default_ports, nc_sidecars = fmempty\<rparr>"

definition plain_request :: "ncontext \<Rightarrow> ntarget \<Rightarrow> string \<Rightarrow> nrequest" where
  "plain_request c t action = \<lparr>nq_join = None, nq_context = c, nq_target = t, nq_action = action, nq_spork = [], nq_payout = [],
     nq_registration = None, nq_peers = [], nq_genesis_height = 0, nq_balance = 0, nq_confirmations = 0, nq_reference = 0,
     nq_upgrade = None, nq_node_key = [], nq_tls_cert = [], nq_tls_key = []\<rparr>"

definition chain_request :: "lplan \<Rightarrow> ntarget \<Rightarrow> string \<Rightarrow> nrequest" where
  "chain_request p t action = plain_request (chain_context p) t action"

definition set_sidecars :: "(string, string) fmap \<Rightarrow> nrequest \<Rightarrow> nrequest" where
  "set_sidecars m q = q\<lparr>nq_context := (nq_context q)\<lparr>nc_sidecars := m\<rparr>\<rparr>"

definition runtime_pins :: "runtime \<Rightarrow> string \<Rightarrow> component_pin list" where
  "runtime_pins rt n = map (\<lambda>(c, pin). \<lparr>cp_component = c, cp_pinned = pin\<rparr>) (sorted_list_of_fmap (images_at (rt_images rt) n))"

definition runtime_request :: "image_refs \<Rightarrow> lplan \<Rightarrow> oprec \<Rightarrow> ntarget \<Rightarrow> string \<Rightarrow> nrequest" where
  "runtime_request R p r t action = set_sidecars (sidecars_for R (nt_arch t) (effective_sidecars r)) (chain_request p
     (case rc_runtime r of None \<Rightarrow> t | Some rt \<Rightarrow> t\<lparr>nt_images := runtime_pins rt (nt_name t)\<rparr>) action)"

section \<open>Sidecar images\<close>

definition known_pin :: "sidecar list \<Rightarrow> string \<Rightarrow> string \<Rightarrow> sidecar option" where
  "known_pin current service ref = (case find (\<lambda>i. sc_service i = service) (rev current) of
     None \<Rightarrow> None | Some i \<Rightarrow> if sc_requested i = ref then Some i else None)"

definition resolved_pin :: "string \<Rightarrow> string \<Rightarrow> pinned_image \<Rightarrow> sidecar" where
  "resolved_pin service ref im = \<lparr>sc_service = service, sc_requested = ref, sc_pinned = im_pinned im,
     sc_platforms = map (\<lambda>x. (pf_arch x, pf_digest x)) (im_platforms im)\<rparr>"

fun pin_services :: "image_refs \<Rightarrow> bool \<Rightarrow> string list \<Rightarrow> sidecar list \<Rightarrow> (string \<times> string) list \<Rightarrow> sidecar list \<Rightarrow>
    ('h, 'o, sidecar list) foper" where
  "pin_services R registry arches current [] out = ret out"
| "pin_services R registry arches current ((service, ref) # todo) out = (case known_pin current service ref of
     Some i \<Rightarrow> pin_services R registry arches current todo (out @ [i])
   | None \<Rightarrow>
     sq (reject_if (\<not> registry) (Err ''pinning dashmate's sidecar images needs registry access''))
     (sq (reject_if (image_reference R ref = None) (Err (''invalid '' @ service @ '' image '' @ ref)))
     (bnd (wrapf (''pin '' @ service @ '' image '' @ ref) (fcall (FInspect ref arches) pinned_reply)) (\<lambda>im.
     pin_services R registry arches current todo (out @ [resolved_pin service ref im])))))"

definition pin_sidecars :: "image_refs \<Rightarrow> bool \<Rightarrow> lplan \<Rightarrow> sidecar list \<Rightarrow> (string, string) fmap \<Rightarrow> ('h, 'o, sidecar list) foper" where
  "pin_sidecars R registry p current requested =
     bnd (pin_services R registry (architectures (pl_network (bp_compute (lp_bootstrap p)))) current (sorted_list_of_fmap requested) []) (\<lambda>out.
     sq (lift (validate_sidecars R (bp_compute (lp_bootstrap p)) out)) (ret out))"

text \<open>\<open>renders\<close>: one release and one set of requested sidecar images over all nodes.\<close>

definition merge_request :: "(string, string) fmap \<Rightarrow> string \<times> string \<Rightarrow> (string, string) fmap res" where
  "merge_request m x = (case x of (service, ref) \<Rightarrow>
     (case fmlookup m service of
        Some prev \<Rightarrow> if prev \<noteq> ref then Inl (Err (''nodes request different '' @ service @ '' images'')) else Inr (fmupd service ref m)
      | None \<Rightarrow> Inr (fmupd service ref m)))"

definition merge_render :: "string \<times> (string, string) fmap \<Rightarrow> string \<times> rendered option \<Rightarrow> (string \<times> (string, string) fmap) res" where
  "merge_render st x = (case (st, x) of ((version, requested), (name, rd)) \<Rightarrow> (case rd of
     None \<Rightarrow> Inl (Err (name @ '' returned no dashmate render''))
   | Some r \<Rightarrow>
     if version \<noteq> [] \<and> rd_version r \<noteq> version then Inl (Err (name @ '' renders with another dashmate than other nodes''))
     else after (scan_ok merge_request requested (sorted_list_of_fmap (rd_sidecars r))) (\<lambda>m.
       Inr (if version = [] then rd_version r else version, m))))"

definition merge_renders :: "(string, rendered option) fmap \<Rightarrow> (string \<times> (string, string) fmap) res" where
  "merge_renders observed = scan_ok merge_render ([], fmempty) (sorted_list_of_fmap observed)"

section \<open>The upgrade plan\<close>

record uplan =
  up_api :: string
  up_kind :: string
  up_id :: string
  up_deployment :: lplan
  up_candidate :: network
  up_release :: lock
  up_scope :: string
  up_previous :: string
  up_recipe :: string
  up_created :: gotime
  up_from :: fleet_images
  up_to :: fleet_images
  up_recovery :: string

definition uplan_json :: "uplan \<Rightarrow> json" where
  "uplan_json u = JObj ([(''apiVersion'', JStr (up_api u)), (''kind'', JStr (up_kind u)), (''id'', JStr (up_id u)),
     (''deployment'', lplan_json (up_deployment u)), (''candidate'', network_json (up_candidate u)),
     (''release'', lock_json (up_release u)), (''scope'', JStr (up_scope u))] @ omit_empty ''previousId'' (up_previous u) @
     [(''recipeSha256'', JStr (up_recipe u)), (''createdAt'', JTime (up_created u)), (''from'', jmap_of jmap (up_from u)),
      (''to'', jmap_of jmap (up_to u)), (''recovery'', JStr (up_recovery u))])"

definition core_recovery :: string where
  "core_recovery = ''forward-only; one node at a time: validators, then fullnodes, then the mining node; Platform services and mining are withdrawn gracefully around the Core replacement and restarted after Core is synced; configuration, genesis, keys, wallets and chain data are preserved; stop on failure; no automatic downgrade''"

definition platform_recovery :: string where
  "platform_recovery = ''forward-only; Drive replacement gracefully stops Tenderdash then restarts it after ABCI readiness; Core remains running; stop on failure; no automatic downgrade, database reset or protocol migration''"

definition recovery_for :: "string \<Rightarrow> string" where
  "recovery_for scope = (if scope = ''core'' then core_recovery else platform_recovery)"

definition core_scope_limit :: nat where
  "core_scope_limit = 40"

text \<open>One component of one target moves to the lock's pin for the target's architecture; \<open>changed\<close>
  records whether any pin differs.\<close>

definition set_pin :: "string \<Rightarrow> string \<Rightarrow> string \<Rightarrow> fleet_images \<Rightarrow> fleet_images" where
  "set_pin x c pin f = fmupd x (fmupd c pin (images_at f x)) f"

definition move_pin :: "image_refs \<Rightarrow> fleet_images \<Rightarrow> ntarget \<Rightarrow> pinned_image \<Rightarrow> fleet_images \<times> bool \<Rightarrow> string \<Rightarrow> fleet_images \<times> bool" where
  "move_pin R from t im st repo = foldl (\<lambda>(to, changed) x.
     if pf_arch x = nt_arch t then (let pin = digest_name R repo (pf_digest x) in
       (set_pin (nt_name t) (im_component im) pin to, changed \<or> pin \<noteq> mget (images_at from (nt_name t)) (im_component im)))
     else (to, changed)) st (im_platforms im)"

definition core_move :: "image_refs \<Rightarrow> fleet_images \<Rightarrow> ntarget \<Rightarrow> fleet_images \<times> bool \<Rightarrow> pinned_image \<Rightarrow> (fleet_images \<times> bool) res" where
  "core_move R from t st im =
     (if im_component im \<noteq> ''core'' then Inr st
      else case new_digest R (im_pinned im) of None \<Rightarrow> Inl (Err ''invalid digest reference'')
      | Some (repo, _) \<Rightarrow> (case new_digest R (mget (images_at from (nt_name t)) ''core'') of
          None \<Rightarrow> Inl (Err ''a Core upgrade keeps Core's image repository'')
        | Some (current, _) \<Rightarrow> if current \<noteq> repo then Inl (Err ''a Core upgrade keeps Core's image repository'')
            else Inr (move_pin R from t im st repo)))"

definition in_platform_scope :: "string \<Rightarrow> ntarget \<Rightarrow> string \<Rightarrow> bool" where
  "in_platform_scope scope t c \<longleftrightarrow> \<not> (c = ''core'' \<or> c \<in> set optional_components \<or> (scope = ''tenderdash'' \<and> c \<noteq> ''tenderdash'') \<or>
     (nt_role t \<noteq> ''validator'' \<and> c \<noteq> ''helper'') \<or> c \<notin> set (role_components (nt_role t)))"

definition platform_move :: "image_refs \<Rightarrow> string \<Rightarrow> fleet_images \<Rightarrow> ntarget \<Rightarrow> fleet_images \<times> bool \<Rightarrow> pinned_image \<Rightarrow> (fleet_images \<times> bool) res" where
  "platform_move R scope from t st im =
     (if \<not> in_platform_scope scope t (im_component im) then Inr st
      else case new_digest R (im_pinned im) of None \<Rightarrow> Inl (Err ''invalid digest reference'')
      | Some (repo, _) \<Rightarrow> Inr (move_pin R from t im st repo))"

definition upgrade_moves :: "(ntarget \<Rightarrow> fleet_images \<times> bool \<Rightarrow> pinned_image \<Rightarrow> (fleet_images \<times> bool) res) \<Rightarrow> lock \<Rightarrow>
    ntarget list \<Rightarrow> fleet_images \<Rightarrow> (fleet_images \<times> bool) res" where
  "upgrade_moves mv l ts from = scan_ok (\<lambda>st t. scan_ok (mv t) st (lk_images l)) (from, False) ts"

definition upgrade_targets :: "hasher \<Rightarrow> image_refs \<Rightarrow> string \<Rightarrow> string \<Rightarrow> lplan \<Rightarrow> network \<Rightarrow> lock \<Rightarrow> fleet_images \<Rightarrow> string \<Rightarrow>
    fleet_images res" where
  "upgrade_targets H R recipe worker p candidate l from scope = (let compute = bp_compute (lp_bootstrap p) in
     if scope = ''core'' \<and> length (validators p) \<ge> core_scope_limit
       then Inl (Err ''core-scope upgrades support devnets under 40 validators: larger fleets form quorum types whose DKG sessions the quiet window does not cover'')
     else after (validate_lplan H R recipe worker p) (\<lambda>_. after (validate_network R candidate) (\<lambda>_.
     after (validate_lock H R candidate l) (\<lambda>_. after (validate_images R compute from) (\<lambda>_.
     if candidate\<lparr>nw_images := nw_images (pl_network compute)\<rparr> \<noteq> pl_network compute
       then Inl (Err ''upgrade cannot change network identity, topology, cloud placement or metadata'')
     else if scope \<notin> {''platform'', ''tenderdash'', ''core''} then Inl (Err ''executable upgrades support platform, tenderdash or core scope'')
     else after (upgrade_moves (if scope = ''core'' then core_move R from else platform_move R scope from) l (lp_targets p) from) (\<lambda>(to, changed).
     if \<not> changed then Inl (Err (if scope = ''core'' then ''Core image is unchanged; no upgrade operation needed''
       else ''selected runtime images are unchanged; no upgrade operation needed''))
     else after (validate_images R compute to) (\<lambda>_. Inr to)))))))"

text \<open>\<open>hex.DecodeString\<close> returns no error.\<close>

definition hex_decodes :: "string \<Rightarrow> bool" where
  "hex_decodes s \<longleftrightarrow> even (length s) \<and> list_all is_xdigit s"

definition validate_uplan :: "hasher \<Rightarrow> image_refs \<Rightarrow> string \<Rightarrow> string \<Rightarrow> string \<Rightarrow> uplan \<Rightarrow> unit res" where
  "validate_uplan H R recipe worker upgrader u =
     (if up_id u \<noteq> H (uplan_json (u\<lparr>up_id := []\<rparr>)) \<or> up_api u \<noteq> api_version \<or> up_kind u \<noteq> ''DevnetUpgradePlan'' \<or>
         up_recipe u \<noteq> upgrader \<or> up_recovery u \<noteq> recovery_for (up_scope u) \<or> up_created u = 0
        then Inl (Err ''upgrade plan altered or recipe changed; retain exact plan/binary'')
      else if up_previous u \<noteq> [] \<and> (length (up_previous u) \<noteq> 64 \<or> up_previous u = up_id u)
        then Inl (Err ''invalid upgrade predecessor'')
      else if \<not> hex_decodes (up_previous u) then Inl (Err ''invalid upgrade predecessor digest'')
      else after (upgrade_targets H R recipe worker (up_deployment u) (up_candidate u) (up_release u) (up_from u) (up_scope u)) (\<lambda>to.
      if to \<noteq> up_to u then Inl (Err ''upgrade targets differ from reviewed release/scope'') else Inr ()))"

definition build_upgrade :: "hasher \<Rightarrow> image_refs \<Rightarrow> string \<Rightarrow> string \<Rightarrow> string \<Rightarrow> lplan \<Rightarrow> oprec \<Rightarrow> network \<Rightarrow> lock \<Rightarrow> string \<Rightarrow> gotime \<Rightarrow> uplan res" where
  "build_upgrade H R recipe worker upgrader p r candidate l scope t0 =
     after (validate_record H R (bp_compute (lp_bootstrap p)) r) (\<lambda>_.
     if (case rc_deployment r of None \<Rightarrow> True | Some d \<Rightarrow> dp_plan d \<noteq> lp_id p \<or> dp_phase d \<noteq> ''network-ready'')
       then Inl (Err ''complete the original deployment before planning an upgrade'')
     else if (case rc_upgrade r of None \<Rightarrow> False | Some u \<Rightarrow> ug_phase u \<noteq> ''complete'')
       then Inl (Err ''resume the unfinished upgrade; do not supersede it'')
     else after (effective_images R p r) (\<lambda>from. after (upgrade_targets H R recipe worker p candidate l from scope) (\<lambda>to.
     let u = \<lparr>up_api = api_version, up_kind = ''DevnetUpgradePlan'', up_id = [], up_deployment = p, up_candidate = candidate,
         up_release = l, up_scope = scope, up_previous = (case rc_runtime r of None \<Rightarrow> [] | Some rt \<Rightarrow> rt_upgrade rt),
         up_recipe = upgrader, up_created = t0, up_from = from, up_to = to, up_recovery = recovery_for scope\<rparr>;
       v = u\<lparr>up_id := H (uplan_json u)\<rparr>
     in after (validate_uplan H R recipe worker upgrader v) (\<lambda>_. Inr v))))"

section \<open>What an upgrade changes\<close>

text \<open>The specification of the targets: a component in the scope of a node takes the lock's pin for the
  node's architecture, everything else stays.\<close>

definition scoped :: "string \<Rightarrow> ntarget \<Rightarrow> string \<Rightarrow> bool" where
  "scoped scope t c \<longleftrightarrow> (if scope = ''core'' then c = ''core'' else in_platform_scope scope t c)"

definition lock_pin :: "image_refs \<Rightarrow> pinned_image list \<Rightarrow> ntarget \<Rightarrow> string \<Rightarrow> string option" where
  "lock_pin R ims t c = (case find (\<lambda>im. im_component im = c) ims of None \<Rightarrow> None
   | Some im \<Rightarrow> (case find (\<lambda>x. pf_arch x = nt_arch t) (im_platforms im) of None \<Rightarrow> None
   | Some x \<Rightarrow> (case new_digest R (im_pinned im) of None \<Rightarrow> None
   | Some (repo, _) \<Rightarrow> Some (digest_name R repo (pf_digest x)))))"

definition moved_pin :: "image_refs \<Rightarrow> pinned_image list \<Rightarrow> string \<Rightarrow> ntarget \<Rightarrow> string \<Rightarrow> string option \<Rightarrow> string option" where
  "moved_pin R ims scope t c old = (if scoped scope t c then (case lock_pin R ims t c of None \<Rightarrow> old | Some pin \<Rightarrow> Some pin) else old)"

lemma images_at_set_pin [simp]:
  "fmlookup (images_at (set_pin x c pin f) y) d = (if x = y \<and> c = d then Some pin else fmlookup (images_at f y) d)"
  by (simp add: set_pin_def images_at_def)

lemma find_none_arch: "arch \<notin> pf_arch ` set ps \<Longrightarrow> find (\<lambda>x. pf_arch x = arch) ps = None"
  by (auto simp: find_None_iff)

lemma move_pin_single:
  assumes "distinct (map pf_arch (im_platforms im))"
  shows "move_pin R from t im (to, ch) repo = (case find (\<lambda>x. pf_arch x = nt_arch t) (im_platforms im) of None \<Rightarrow> (to, ch)
     | Some x \<Rightarrow> (let pin = digest_name R repo (pf_digest x) in (set_pin (nt_name t) (im_component im) pin to,
         ch \<or> pin \<noteq> mget (images_at from (nt_name t)) (im_component im))))"
proof -
  let ?f = "\<lambda>(to, changed) x. if pf_arch x = nt_arch t then (let pin = digest_name R repo (pf_digest x) in
       (set_pin (nt_name t) (im_component im) pin to, changed \<or> pin \<noteq> mget (images_at from (nt_name t)) (im_component im)))
     else (to, changed)"
  have skip: "foldl ?f st ps = st" if "nt_arch t \<notin> pf_arch ` set ps" for ps st
    using that by (induction ps arbitrary: st) (auto split: prod.splits)
  have "foldl ?f (to, ch) ps = (case find (\<lambda>x. pf_arch x = nt_arch t) ps of None \<Rightarrow> (to, ch)
     | Some x \<Rightarrow> (let pin = digest_name R repo (pf_digest x) in (set_pin (nt_name t) (im_component im) pin to,
         ch \<or> pin \<noteq> mget (images_at from (nt_name t)) (im_component im))))" if "distinct (map pf_arch ps)" for ps
    using that
  proof (induction ps)
    case (Cons y ys)
    show ?case
    proof (cases "pf_arch y = nt_arch t")
      case True
      then have "nt_arch t \<notin> pf_arch ` set ys" using Cons.prems by auto
      then show ?thesis using True by (simp add: skip Let_def)
    next
      case False
      then show ?thesis using Cons by simp
    qed
  qed simp
  then show ?thesis using assms by (simp add: move_pin_def)
qed

text \<open>Both kinds of move are the same step.\<close>

definition a_move :: "image_refs \<Rightarrow> string \<Rightarrow> fleet_images \<Rightarrow> (ntarget \<Rightarrow> fleet_images \<times> bool \<Rightarrow> pinned_image \<Rightarrow> (fleet_images \<times> bool) res) \<Rightarrow> bool" where
  "a_move R scope from mv \<longleftrightarrow> (\<forall>t st im st'. mv t st im = Inr st' \<longrightarrow>
     (if scoped scope t (im_component im)
      then \<exists>repo d. new_digest R (im_pinned im) = Some (repo, d) \<and> st' = move_pin R from t im st repo \<and>
        (scope = ''core'' \<longrightarrow> (\<exists>e. new_digest R (mget (images_at from (nt_name t)) ''core'') = Some (repo, e)))
      else st' = st))"

lemma core_a_move: "a_move R ''core'' from (core_move R from)"
  by (auto simp: a_move_def core_move_def scoped_def split: if_splits option.splits)

lemma platform_a_move: "scope \<noteq> ''core'' \<Longrightarrow> a_move R scope from (platform_move R scope from)"
  by (auto simp: a_move_def platform_move_def scoped_def split: if_splits option.splits)

lemma a_moveD:
  assumes "a_move R scope from mv" and "mv t st im = Inr st'"
  shows "if scoped scope t (im_component im) then \<exists>repo d. new_digest R (im_pinned im) = Some (repo, d) \<and> st' = move_pin R from t im st repo
    else st' = st"
  using assms unfolding a_move_def by (cases "scoped scope t (im_component im)") (fastforce, fastforce)

definition repinned :: "image_refs \<Rightarrow> pinned_image list \<Rightarrow> string \<Rightarrow> fleet_images \<Rightarrow> ntarget \<Rightarrow> bool" where
  "repinned R ims scope from t \<longleftrightarrow> (\<exists>c pin. scoped scope t c \<and> lock_pin R ims t c = Some pin \<and> pin \<noteq> mget (images_at from (nt_name t)) c)"

lemma one_move:
  assumes "a_move R scope from mv" and "mv t (to, ch) im = Inr (to', ch')" and "distinct (map pf_arch (im_platforms im))"
  shows "(\<forall>x c. fmlookup (images_at to' x) c = (if x = nt_name t \<and> c = im_component im
      then moved_pin R [im] scope t c (fmlookup (images_at to x) c) else fmlookup (images_at to x) c)) \<and>
    (ch' \<longrightarrow> ch \<or> repinned R [im] scope from t)"
proof (cases "scoped scope t (im_component im)")
  case True
  then obtain repo d where r: "new_digest R (im_pinned im) = Some (repo, d)" and m: "(to', ch') = move_pin R from t im (to, ch) repo"
    using a_moveD [OF assms(1,2)] by auto
  show ?thesis
    using m True r unfolding move_pin_single [OF assms(3)]
    by (auto simp: moved_pin_def lock_pin_def repinned_def Let_def split: option.splits)
next
  case False
  then have "(to', ch') = (to, ch)" using a_moveD [OF assms(1,2)] by simp
  then show ?thesis using False by (simp add: moved_pin_def)
qed

lemma lock_pin_Cons:
  "lock_pin R (im # ims) t c = (if im_component im = c then lock_pin R [im] t c else lock_pin R ims t c)"
  by (simp add: lock_pin_def)

lemma lock_pin_other: "c \<notin> im_component ` set ims \<Longrightarrow> lock_pin R ims t c = None"
  by (auto simp: lock_pin_def find_None_iff split: option.splits dest!: find_Some_iff [THEN iffD1])

lemma target_moves:
  assumes "a_move R scope from mv" and "scan_ok (mv t) (to, ch) ims = Inr (to', ch')"
    and "\<forall>im \<in> set ims. distinct (map pf_arch (im_platforms im))" and "distinct (map im_component ims)"
  shows "(\<forall>x c. fmlookup (images_at to' x) c = (if x = nt_name t
      then moved_pin R ims scope t c (fmlookup (images_at to x) c) else fmlookup (images_at to x) c)) \<and>
    (ch' \<longrightarrow> ch \<or> repinned R ims scope from t)"
  using assms(2-4)
proof (induction ims arbitrary: to ch)
  case Nil
  then show ?case by (auto simp: moved_pin_def lock_pin_def)
next
  case (Cons im ims)
  obtain t1 c1 where m: "mv t (to, ch) im = Inr (t1, c1)" and rest: "scan_ok (mv t) (t1, c1) ims = Inr (to', ch')"
    using Cons.prems(1) by (auto simp: res_simps)
  have d: "distinct (map pf_arch (im_platforms im))" "im_component im \<notin> im_component ` set ims" using Cons.prems(2,3) by auto
  note one = one_move [OF assms(1) m d(1)]
  note ih = Cons.IH [OF rest]
  have none: "lock_pin R ims t (im_component im) = None" using d(2) by (rule lock_pin_other)
  have other: "lock_pin R (im # ims) t c = lock_pin R ims t c" if "im_component im \<noteq> c" for c using that by (simp add: lock_pin_Cons)
  have same: "lock_pin R (im # ims) t (im_component im) = lock_pin R [im] t (im_component im)" by (subst lock_pin_Cons) simp
  have single: "lock_pin R [im] t c = None" if "im_component im \<noteq> c" for c using that by (simp add: lock_pin_def)
  have "repinned R [im] scope from t \<or> repinned R ims scope from t \<Longrightarrow> repinned R (im # ims) scope from t"
    unfolding repinned_def using none other same single by (metis option.distinct(1))
  then show ?case
    using one ih Cons.prems(2,3) none other same by (auto simp: moved_pin_def split: option.splits)
qed

lemma all_moves:
  assumes "a_move R scope from mv" and "upgrade_moves mv l ts from = Inr (to, changed)"
    and "\<forall>im \<in> set (lk_images l). distinct (map pf_arch (im_platforms im))" and "distinct (map im_component (lk_images l))"
    and "distinct (map nt_name ts)"
  shows "(\<forall>t \<in> set ts. \<forall>c. fmlookup (images_at to (nt_name t)) c =
      moved_pin R (lk_images l) scope t c (fmlookup (images_at from (nt_name t)) c)) \<and>
    (\<forall>x. x \<notin> nt_name ` set ts \<longrightarrow> images_at to x = images_at from x) \<and>
    (changed \<longrightarrow> (\<exists>t \<in> set ts. repinned R (lk_images l) scope from t))"
proof -
  let ?ims = "lk_images l"
  have "(\<forall>t \<in> set ts. \<forall>c. fmlookup (images_at to (nt_name t)) c = moved_pin R ?ims scope t c (fmlookup (images_at f0 (nt_name t)) c)) \<and>
      (\<forall>x. x \<notin> nt_name ` set ts \<longrightarrow> images_at to x = images_at f0 x) \<and> (changed \<longrightarrow> ch \<or> (\<exists>t \<in> set ts. repinned R ?ims scope from t))"
    if "scan_ok (\<lambda>st t. scan_ok (mv t) st ?ims) (f0, ch) ts = Inr (to, changed)" "distinct (map nt_name ts)" for f0 ch ts
    using that
  proof (induction ts arbitrary: f0 ch)
    case (Cons t ts)
    obtain f1 c1 where m: "scan_ok (mv t) (f0, ch) ?ims = Inr (f1, c1)"
      and rest: "scan_ok (\<lambda>st t. scan_ok (mv t) st ?ims) (f1, c1) ts = Inr (to, changed)"
      using Cons.prems(1) by (auto simp: res_simps)
    note one = target_moves [OF assms(1) m assms(3,4)]
    have n: "nt_name t \<notin> nt_name ` set ts" using Cons.prems(2) by auto
    have keep: "images_at f1 x = images_at f0 x" if "x \<noteq> nt_name t" for x
      using one that by (intro fmap_ext) auto
    note ih = Cons.IH [OF rest]
    have other: "images_at f1 (nt_name u) = images_at f0 (nt_name u)" if "u \<in> set ts" for u
      using keep n that by (metis imageI)
    have now_t: "images_at to (nt_name t) = images_at f1 (nt_name t)" using ih Cons.prems(2) n by simp
    show ?case using ih one other now_t keep Cons.prems(2) by auto
  qed simp
  from this [of "from" False ts] assms(2,5) show ?thesis by (simp add: upgrade_moves_def)
qed

lemma upgrade_targets_Inr:
  assumes "upgrade_targets H R recipe worker p candidate l from scope = Inr to"
  shows "validate_lplan H R recipe worker p = Inr ()" "validate_lock H R candidate l = Inr ()"
    "validate_images R (bp_compute (lp_bootstrap p)) from = Inr ()" "validate_images R (bp_compute (lp_bootstrap p)) to = Inr ()"
    "upgrade_moves (if scope = ''core'' then core_move R from else platform_move R scope from) l (lp_targets p) from = Inr (to, True)"
    "scope \<in> {''platform'', ''tenderdash'', ''core''}" "scope = ''core'' \<longrightarrow> length (validators p) < 40"
    "candidate\<lparr>nw_images := nw_images (pl_network (bp_compute (lp_bootstrap p)))\<rparr> = pl_network (bp_compute (lp_bootstrap p))"
  using assms by (auto simp: upgrade_targets_def Let_def res_simps core_scope_limit_def split: prod.splits)

lemma scoped_core: "scope \<in> {''platform'', ''tenderdash'', ''core''} \<Longrightarrow> scoped scope t ''core'' \<longleftrightarrow> scope = ''core''"
  by (auto simp: scoped_def in_platform_scope_def)

text \<open>The repository of a node's Core after a Core upgrade is the one it had.\<close>

lemma core_moves_repo:
  assumes "scan_ok (core_move R from t) st ims = Inr st'" and "im \<in> set ims" and "im_component im = ''core''"
  shows "\<exists>repo d e. new_digest R (im_pinned im) = Some (repo, d) \<and> new_digest R (mget (images_at from (nt_name t)) ''core'') = Some (repo, e)"
  using assms
proof (induction ims arbitrary: st)
  case (Cons i ims)
  obtain st1 where m: "core_move R from t st i = Inr st1" "scan_ok (core_move R from t) st1 ims = Inr st'"
    using Cons.prems(1) by (auto simp: res_simps)
  show ?case
  proof (cases "im = i")
    case True
    then show ?thesis using m(1) Cons.prems(3) by (auto simp: core_move_def split: if_splits option.splits)
  next
    case False
    then show ?thesis using Cons.IH [OF m(2)] Cons.prems(2,3) by simp
  qed
qed simp

lemma upgrade_moves_each:
  assumes "upgrade_moves mv l ts from = Inr r" and "t \<in> set ts"
  shows "\<exists>st st'. scan_ok (mv t) st (lk_images l) = Inr st'"
proof -
  have "scan_ok (\<lambda>st t. scan_ok (mv t) st (lk_images l)) st0 ts = Inr r \<Longrightarrow> t \<in> set ts \<Longrightarrow> \<exists>st st'. scan_ok (mv t) st (lk_images l) = Inr st'" for st0
    by (induction ts arbitrary: st0) (auto simp: res_simps)
  then show ?thesis using assms by (simp add: upgrade_moves_def)
qed

lemma lock_pin_Some:
  assumes "lock_pin R ims t c = Some pin"
  shows "\<exists>im x repo e. im \<in> set ims \<and> im_component im = c \<and> new_digest R (im_pinned im) = Some (repo, e) \<and>
    x \<in> set (im_platforms im) \<and> pin = digest_name R repo (pf_digest x)"
  using assms by (auto simp: lock_pin_def split: option.splits dest!: find_Some_iff [THEN iffD1]) (metis nth_mem)

lemma upgrade_targets_network:
  "upgrade_targets H R recipe worker p candidate l from scope = Inr to \<Longrightarrow> validate_network R candidate = Inr ()"
  by (auto simp: upgrade_targets_def Let_def res_simps split: prod.splits)

lemma upgrade_target_arch:
  assumes "upgrade_targets H R recipe worker p candidate l from scope = Inr to" and "t \<in> set (lp_targets p)"
  shows "nt_arch t \<in> set (architectures candidate)"
proof -
  note v = upgrade_targets_Inr [OF assms(1)]
  let ?c = "bp_compute (lp_bootstrap p)"
  have "nt_arch t \<in> set (map tg_arch (pl_targets ?c))" using lplan_mirror(4) [OF v(1)] assms(2) by (metis image_eqI set_map)
  moreover have "validate_plan H R ?c = Inr ()" using v(1) by (auto simp: validate_lplan_Inr validate_bplan_Inr build_bootstrap_Inr)
  ultimately have "nt_arch t \<in> set (architectures (pl_network ?c))" using valid_target_arch by fastforce
  moreover have "nw_nodes candidate = nw_nodes (pl_network ?c)" using arg_cong [OF v(8), of nw_nodes] by simp
  ultimately show ?thesis by simp
qed

lemma lock_pin_some:
  assumes "validate_network R n = Inr ()" and "validate_lock H R n l = Inr ()" and "c \<in> set components"
    and "nt_arch t \<in> set (architectures n)"
  shows "\<exists>pin. lock_pin R (lk_images l) t c = Some pin"
proof -
  have "c \<in> im_component ` set (lk_images l)"
    using lock_components [OF assms(2)] image_components_set(1) [OF assms(1)] assms(3) by (auto simp: image_components_def)
  then obtain im where im: "find (\<lambda>im. im_component im = c) (lk_images l) = Some im"
    by (cases "find (\<lambda>im. im_component im = c) (lk_images l)") (auto simp: find_None_iff)
  then have "im \<in> set (lk_images l)" by (auto simp: find_Some_iff)
  then have k: "check_pins R (im_requested im) im = Inr ()" "sort (map pf_arch (im_platforms im)) = architectures n"
    using assms(2) by (auto simp: validate_lock_Inr check_platforms_Inr)
  have "nt_arch t \<in> pf_arch ` set (im_platforms im)" using assms(4) k(2) by (metis set_map set_sort)
  then obtain x where "find (\<lambda>x. pf_arch x = nt_arch t) (im_platforms im) = Some x"
    by (cases "find (\<lambda>x. pf_arch x = nt_arch t) (im_platforms im)") (auto simp: find_None_iff)
  then show ?thesis using im k(1) by (auto simp: lock_pin_def check_pins_Inr)
qed

lemma scoped_component: "scoped scope t c \<Longrightarrow> c \<in> set components"
  by (auto simp: scoped_def in_platform_scope_def role_components_def components_def split: if_splits)

text \<open>C39: The target images of an upgrade are exactly the specified ones: on every node, each component in
  the scope of the upgrade takes the pin that the release lock holds for it (the lock has one, for the
  node's architecture), and every other component and every other name keeps what it had. Some
  component really changes; Core changes in scope core only, and its new pin is then a digest of the
  lock written in the repository that the current pin has; a node that is not a validator changes
  nothing but Core or the helper.\<close>

theorem upgrade_targets_refine:
  assumes "upgrade_targets H R recipe worker p candidate l from scope = Inr to"
  shows "(\<forall>t \<in> set (lp_targets p). \<forall>c. if scoped scope t c
      then \<exists>pin. lock_pin R (lk_images l) t c = Some pin \<and> fmlookup (images_at to (nt_name t)) c = Some pin
      else fmlookup (images_at to (nt_name t)) c = fmlookup (images_at from (nt_name t)) c) \<and>
    (\<forall>x. x \<notin> nt_name ` set (lp_targets p) \<longrightarrow> images_at to x = images_at from x) \<and> to \<noteq> from \<and>
    (\<forall>t \<in> set (lp_targets p). \<forall>c. fmlookup (images_at to (nt_name t)) c \<noteq> fmlookup (images_at from (nt_name t)) c \<longrightarrow>
       (c = ''core'' \<longleftrightarrow> scope = ''core'') \<and> (nt_role t \<noteq> ''validator'' \<longrightarrow> c \<in> {''core'', ''helper''})) \<and>
    (scope = ''core'' \<longrightarrow> (\<forall>t \<in> set (lp_targets p). \<exists>repo e d. new_digest R (mget (images_at from (nt_name t)) ''core'') = Some (repo, e) \<and>
       fmlookup (images_at to (nt_name t)) ''core'' = Some (digest_name R repo d) \<and> matches digest_pattern d))"
proof -
  note v = upgrade_targets_Inr [OF assms]
  have d: "\<forall>im \<in> set (lk_images l). distinct (map pf_arch (im_platforms im))" "distinct (map im_component (lk_images l))"
    using v(2) by (auto simp: validate_lock_Inr check_platforms_Inr) (metis distinct_sort architectures_def distinct_remdups)
  have mv: "a_move R scope from (if scope = ''core'' then core_move R from else platform_move R scope from)"
    using core_a_move platform_a_move by simp
  note m = all_moves [OF mv v(5) d lplan_mirror(5) [OF v(1)]]
  obtain t c pin where t: "t \<in> set (lp_targets p)" "scoped scope t c" "lock_pin R (lk_images l) t c = Some pin"
    "pin \<noteq> mget (images_at from (nt_name t)) c"
    using m by (auto simp: repinned_def)
  have "fmlookup (images_at to (nt_name t)) c = Some pin" using m t by (auto simp: moved_pin_def)
  then have "images_at to (nt_name t) \<noteq> images_at from (nt_name t)" using t(4) by (auto simp: mget_def)
  then have ne: "to \<noteq> from" by auto
  have sc: "(c = ''core'' \<longleftrightarrow> scope = ''core'') \<and> (nt_role u \<noteq> ''validator'' \<longrightarrow> c \<in> {''core'', ''helper''})" if "scoped scope u c" for u c
    using that v(6) by (auto simp: scoped_def in_platform_scope_def split: if_splits)
  have pins: "if scoped scope u c
      then \<exists>pin. lock_pin R (lk_images l) u c = Some pin \<and> fmlookup (images_at to (nt_name u)) c = Some pin
      else fmlookup (images_at to (nt_name u)) c = fmlookup (images_at from (nt_name u)) c" if u: "u \<in> set (lp_targets p)" for u c
  proof (cases "scoped scope u c")
    case True
    obtain pin where "lock_pin R (lk_images l) u c = Some pin"
      using lock_pin_some [OF upgrade_targets_network [OF assms] v(2) scoped_component [OF True] upgrade_target_arch [OF assms u]] by blast
    then show ?thesis using m u True by (auto simp: moved_pin_def)
  qed (use m u in \<open>auto simp: moved_pin_def\<close>)
  have core: "\<exists>repo e d. new_digest R (mget (images_at from (nt_name u)) ''core'') = Some (repo, e) \<and>
       fmlookup (images_at to (nt_name u)) ''core'' = Some (digest_name R repo d) \<and> matches digest_pattern d"
    if scope: "scope = ''core''" and u: "u \<in> set (lp_targets p)" for u
  proof -
    obtain pin where pin: "lock_pin R (lk_images l) u ''core'' = Some pin" "fmlookup (images_at to (nt_name u)) ''core'' = Some pin"
      using pins [OF u, of "''core''"] scope by (auto simp: scoped_def)
    obtain im x repo e where im: "im \<in> set (lk_images l)" "im_component im = ''core''" "new_digest R (im_pinned im) = Some (repo, e)"
      "x \<in> set (im_platforms im)" "pin = digest_name R repo (pf_digest x)"
      using lock_pin_Some [OF pin(1)] by blast
    obtain st st' where "scan_ok (core_move R from u) st (lk_images l) = Inr st'"
      using upgrade_moves_each [OF v(5) u] scope by auto
    from core_moves_repo [OF this im(1,2)] im(3) obtain e' where "new_digest R (mget (images_at from (nt_name u)) ''core'') = Some (repo, e')"
      by auto
    moreover have "matches digest_pattern (pf_digest x)" using v(2) im(1,4) by (auto simp: validate_lock_Inr check_platforms_Inr)
    ultimately show ?thesis using pin(2) im(5) by blast
  qed
  have "\<forall>u \<in> set (lp_targets p). \<forall>c. fmlookup (images_at to (nt_name u)) c \<noteq> fmlookup (images_at from (nt_name u)) c \<longrightarrow>
       (c = ''core'' \<longleftrightarrow> scope = ''core'') \<and> (nt_role u \<noteq> ''validator'' \<longrightarrow> c \<in> {''core'', ''helper''})"
    using pins sc by metis
  then show ?thesis using m ne pins core by blast
qed

section \<open>Witness\<close>

text \<open>A release that replaces Core by another digest of the same repository.\<close>

definition devnet_newer :: lock where
  "devnet_newer = devnet_lock\<lparr>lk_images := map (\<lambda>c. \<lparr>im_component = c, im_requested = ''repo:1'',
     im_pinned = ''repo:1@sha256:'' @ replicate 64 (CHR ''b''), im_platforms = [\<lparr>pf_os = ''linux'',
     pf_arch = ''amd64'', pf_digest = ''sha256:'' @ replicate 64 (CHR ''b'')\<rparr>]\<rparr>) components\<rparr>"

definition devnet_pins :: "string \<Rightarrow> image_set" where
  "devnet_pins role = fmap_of_list (map (\<lambda>c. (c, ''repo:1@'' @ sample_digest)) (role_components role))"

definition devnet_from :: fleet_images where
  "devnet_from = fmap_of_list (map (\<lambda>t. (tg_name t, devnet_pins (tg_role t))) (pl_targets devnet_plan))"

lemma devnet_newer_valid: "validate_lock sample_hash sample_refs devnet_network devnet_newer = Inr ()"
  by code_simp

lemma devnet_from_valid: "validate_images sample_refs devnet_plan devnet_from = Inr ()"
  by code_simp

definition devnet_moves :: "fleet_images \<times> bool" where
  "devnet_moves = (case upgrade_moves (core_move sample_refs devnet_from) devnet_newer (map devnet_host devnet_hosts) devnet_from of
     Inr m \<Rightarrow> m | Inl e \<Rightarrow> (fmempty, False))"

definition devnet_to :: fleet_images where
  "devnet_to = fmap_of_list (map (\<lambda>t. (tg_name t, fmupd ''core'' (''repo:1@sha256:'' @ replicate 64 (CHR ''b'')) (devnet_pins (tg_role t))))
     (pl_targets devnet_plan))"

lemma devnet_to_valid: "validate_images sample_refs devnet_plan devnet_to = Inr ()"
  by code_simp

lemma devnet_moves_ok: "devnet_moves = (devnet_to, True)"
  by code_simp

lemma devnet_upgrade:
  "upgrade_targets sample_hash sample_refs ''recipe'' ''worker'' devnet_lplan devnet_network devnet_newer devnet_from ''core'' =
     Inr devnet_to"
proof -
  have n: "nt_name (devnet_ntarget x) = nt_name (devnet_host x)" "nt_arch (devnet_ntarget x) = nt_arch (devnet_host x)" for x
    by (simp_all add: devnet_ntarget_def)
  have mp: "move_pin R from (devnet_ntarget x) = move_pin R from (devnet_host x)" for R "from" x
    by (intro ext) (simp only: move_pin_def n)
  have c: "core_move R from (devnet_ntarget x) = core_move R from (devnet_host x)" for R "from" x
    by (intro ext) (simp only: core_move_def n mp)
  have "scan_ok (\<lambda>st t. scan_ok (core_move R from t) st ims) st (map devnet_ntarget xs) =
      scan_ok (\<lambda>st t. scan_ok (core_move R from t) st ims) st (map devnet_host xs)" for R "from" ims st xs
    by (induction xs arbitrary: st) (simp_all add: c)
  then have "upgrade_moves (core_move R from) l devnet_ntargets f = upgrade_moves (core_move R from) l (map devnet_host devnet_hosts) f" for R "from" l f
    by (simp add: upgrade_moves_def devnet_ntargets_def)
  then have m: "upgrade_moves (core_move sample_refs devnet_from) devnet_newer devnet_ntargets devnet_from = Inr (devnet_to, True)"
    using devnet_moves_ok by (auto simp: devnet_moves_def split: sum.splits)
  have v: "length (validators devnet_lplan) = 13"
    using devnet_targets_valid(3) by (simp add: validators_def role_count_def devnet_lplan_def)
  have p: "lp_bootstrap devnet_lplan = devnet_bplan" "lp_targets devnet_lplan = devnet_ntargets"
    by (simp_all add: devnet_lplan_def)
  show ?thesis
    using devnet_lplan_valid devnet_network_valid devnet_newer_valid devnet_from_valid devnet_to_valid
    by (simp add: upgrade_targets_def core_scope_limit_def v p devnet_bplan_parts m)
qed

theorem upgrade_targets_refine_witness:
  "devnet_to \<noteq> devnet_from"
  using upgrade_targets_refine [OF devnet_upgrade] by blast

end
