(* ===== verification/Chain_Health.thy ===== *)
theory Chain_Health
  imports Chain_Runtime "HOL-Library.Signed_Division"
begin

text \<open>
  \<open>internal/lifecycle/health.go\<close> with \<open>liveScope\<close> and \<open>coreHealthy\<close> of \<open>runner.go\<close>: the binding of a
  deployment to its live hosts, one sample of every node, and the two-sample health check. A sample
  makes its calls in the order of the plan (every answer is the environment's); a scheduler's answer
  of zero takes the branch of \<open>select\<close> for a context that has ended.
\<close>

section \<open>The runner\<close>

text \<open>\<open>Runner\<close>: whether its collaborators and the context's deadline are set, its identity and options.
  \<open>cr_pages\<close> and \<open>cr_polls\<close> bound the pages of a listing and the rounds of a waiting loop in the model.\<close>

record crunner =
  cr_hash :: hasher
  cr_refs :: image_refs
  cr_recipe :: string
  cr_worker :: string
  cr_upgrader :: string
  cr_remote :: bool
  cr_registry :: bool
  cr_deadline :: bool
  cr_owner :: string
  cr_version :: string
  cr_window :: gotime
  cr_core_only :: bool
  cr_pages :: nat
  cr_polls :: nat

type_synonym cworld = "(nrequest, nobservation) fworld"
type_synonym 'a coper = "(nrequest, nobservation, 'a) foper"

abbreviation lplan_compute :: "lplan \<Rightarrow> plan" where
  "lplan_compute p \<equiv> bp_compute (lp_bootstrap p)"

section \<open>Live hosts\<close>

definition live_addresses :: "live_map \<Rightarrow> string \<Rightarrow> string \<times> string \<times> string" where
  "live_addresses live x = (case fmlookup live x of None \<Rightarrow> ([], [], [])
     | Some i \<Rightarrow> (in_id i, in_private_ip i, in_public_ip i))"

definition at_home :: "lplan \<Rightarrow> live_map \<Rightarrow> ntarget \<Rightarrow> bool" where
  "at_home p live t \<longleftrightarrow> (case live_addresses live (nt_name t) of (i, private, public) \<Rightarrow>
     i = nt_instance t \<and> (if ac_address (bp_access (lp_bootstrap p)) = ''public'' then public else private) = nt_ssh t \<and>
     (if lp_advertise p = ''public'' then public else private) = nt_peer t \<and> private = vpc_address t)"

definition live_scope :: "crunner \<Rightarrow> lplan \<Rightarrow> oprec \<Rightarrow> unit coper" where
  "live_scope r p rc = bnd (on_cloud (running_targets (cr_hash r) (cr_refs r) (cr_pages r) (lplan_compute p) rc)) (\<lambda>live.
     foreach (lp_targets p) (\<lambda>t. reject_if (\<not> at_home p live t)
       (At (nt_name t) (Err ''instance/address drift; deployment plan is bound to exact hosts''))))"

section \<open>A sample\<close>

record csample =
  cs_core :: "core_state option"
  cs_platform :: "platform_state option"
  cs_problems :: "gerr list"

definition no_sample :: csample where
  "no_sample = \<lparr>cs_core = None, cs_platform = None, cs_problems = []\<rparr>"

definition chain_request_at :: "crunner \<Rightarrow> lplan \<Rightarrow> oprec \<Rightarrow> i64 \<Rightarrow> ntarget \<Rightarrow> nrequest" where
  "chain_request_at r p rc reference t = (runtime_request (cr_refs r) p rc t ''platform-status'')\<lparr>nq_reference := reference\<rparr>"

definition sample_core :: "crunner \<Rightarrow> lplan \<Rightarrow> oprec \<Rightarrow> ntarget \<Rightarrow> csample coper" where
  "sample_core r p rc t =
     bnd (attempt (fcall (FHost (runtime_request (cr_refs r) p rc t ''core-status'')) seen_reply)) (\<lambda>a. case a of
       Inl e \<Rightarrow> ret (no_sample\<lparr>cs_problems := [At ''Core'' e]\<rparr>)
     | Inr o1 \<Rightarrow> ret (no_sample\<lparr>cs_core := no_core o1\<rparr>))"

definition sample_platform :: "crunner \<Rightarrow> lplan \<Rightarrow> oprec \<Rightarrow> i64 \<Rightarrow> ntarget \<Rightarrow> csample \<Rightarrow> csample coper" where
  "sample_platform r p rc reference t s =
     bnd (attempt (fcall (FHost (chain_request_at r p rc reference t)) seen_reply)) (\<lambda>a. case a of
       Inl e \<Rightarrow> ret (s\<lparr>cs_problems := cs_problems s @ [At ''Platform'' e]\<rparr>)
     | Inr o1 \<Rightarrow> ret (s\<lparr>cs_platform := no_platform o1\<rparr>))"

definition sample_target :: "crunner \<Rightarrow> lplan \<Rightarrow> oprec \<Rightarrow> i64 \<Rightarrow> ntarget \<Rightarrow> csample coper" where
  "sample_target r p rc reference t =
     bnd ctx_done (\<lambda>d. bnd (ask FNext) (\<lambda>slot.
     if d \<and> next_reply slot = 0 then ret (no_sample\<lparr>cs_problems := [Err ''observation deadline'']\<rparr>)
     else bnd (sample_core r p rc t) (\<lambda>s.
       if nt_role t = ''validator'' then sample_platform r p rc reference t s else ret s)))"

fun sample_targets :: "crunner \<Rightarrow> lplan \<Rightarrow> oprec \<Rightarrow> i64 \<Rightarrow> ntarget list \<Rightarrow> (string, csample) fmap \<Rightarrow> (string, csample) fmap coper" where
  "sample_targets r p rc reference [] m = ret m"
| "sample_targets r p rc reference (t # ts) m =
     bnd (sample_target r p rc reference t) (\<lambda>s. sample_targets r p rc reference ts (fmupd (nt_name t) s m))"

definition sample :: "crunner \<Rightarrow> lplan \<Rightarrow> oprec \<Rightarrow> i64 \<Rightarrow> (string, csample) fmap coper" where
  "sample r p rc reference = sample_targets r p rc reference (lp_targets p) fmempty"

definition sample_at :: "(string, csample) fmap \<Rightarrow> string \<Rightarrow> csample" where
  "sample_at m x = (case fmlookup m x of None \<Rightarrow> no_sample | Some s \<Rightarrow> s)"

section \<open>The health of a node\<close>

definition dep_zero :: dep_node where
  "dep_zero = \<lparr>dn_phase = [], dn_operator_key = [], dn_node_id = [], dn_protx = [], dn_container = [], dn_core_height = 0,
     dn_platform_height = 0, dn_observed = 0\<rparr>"

definition dep_at :: "deployment \<Rightarrow> string \<Rightarrow> dep_node" where
  "dep_at d x = (case fmlookup (dp_nodes d) x of None \<Rightarrow> dep_zero | Some n \<Rightarrow> n)"

definition quorum_at :: "core_state \<Rightarrow> string \<Rightarrow> int" where
  "quorum_at c x = (case fmlookup (co_quorums c) x of None \<Rightarrow> 0 | Some n \<Rightarrow> n)"

definition core_healthy :: "ntarget \<Rightarrow> dep_node \<Rightarrow> core_state option \<Rightarrow> string \<Rightarrow> unit res" where
  "core_healthy t n core miner = (case core of None \<Rightarrow> Inl (Err ''Core observation missing'')
   | Some c \<Rightarrow>
     if \<not> co_synced c \<or> co_ibd c \<or> co_peers c < 1 \<or> sint (co_height c) < sint (co_headers c)
       then Inl (Err ''Core not synchronized'')
     else if sint (co_chainlock c) < 1 \<or> sint (co_chainlock c) < sint (co_height c - 12)
       then Inl (Err ''ChainLock not ready/fresh'')
     else if nt_name t = miner \<and> (case co_mining c of None \<Rightarrow> True | Some m \<Rightarrow> \<not> mi_running m \<or> length (mi_container m) \<noteq> 64)
       then Inl (Err ''persistent miner unavailable'')
     else after (each_ok (\<lambda>x. if quorum_at c x < 1 then Inl (Err (''missing '' @ x)) else Inr ())
       [''llmq_devnet'', ''llmq_devnet_dip0024'', ''llmq_devnet_platform'']) (\<lambda>_.
     if nt_role t = ''validator'' \<and> (co_masternode c \<noteq> ''READY'' \<or> \<not> equal_fold (co_protx c) (dn_protx n))
       then Inl (Err ''masternode not READY with registered identity'') else Inr ()))"

definition problem_if :: "bool \<Rightarrow> string \<Rightarrow> gerr list" where
  "problem_if b m = (if b then [Err m] else [])"

definition core_progress :: "string \<Rightarrow> core_state option \<Rightarrow> core_state option \<Rightarrow> gerr list" where
  "core_progress genesis before later = (case later of None \<Rightarrow> []
   | Some c \<Rightarrow>
     problem_if (co_genesis c \<noteq> genesis) ''Core genesis mismatch'' @
     (case before of None \<Rightarrow> [Err ''Core did not advance'']
      | Some b \<Rightarrow>
        problem_if (sint (co_height c) \<le> sint (co_height b)) ''Core did not advance'' @
        (case (co_mining b, co_mining c) of (Some mb, Some mc) \<Rightarrow>
           problem_if (mi_container mb \<noteq> mi_container mc \<or> mi_restarts mb \<noteq> mi_restarts mc) ''miner restarted during observation''
         | _ \<Rightarrow> []) @
        problem_if (co_container b \<noteq> co_container c \<or> co_restarts b \<noteq> co_restarts c) ''Core container changed during observation''))"

definition nanoseconds :: i64 where "nanoseconds = 1000000000"
definition platform_idle_limit :: gotime where "platform_idle_limit = 4 * minute"

text \<open>The age of a block is a number of seconds, turned into a duration with wrap-around.\<close>

definition stale_block :: "platform_state \<Rightarrow> bool" where
  "stale_block x \<longleftrightarrow> sint (pt_age x) < 0 \<or> sint (pt_age x * nanoseconds) > platform_idle_limit"

definition platform_identity :: "lplan \<Rightarrow> dep_node \<Rightarrow> platform_state \<Rightarrow> bool" where
  "platform_identity p n x \<longleftrightarrow> \<not> pt_catching x \<and> 1 \<le> sint (pt_height x) \<and> 1 \<le> sint (pt_dapi x) \<and>
     sint (pt_height x - 3) \<le> sint (pt_dapi x) \<and> pt_drive x \<noteq> [] \<and> pt_chain x = lp_platform_chain p \<and>
     pt_node x = dn_node_id n \<and> equal_fold (pt_protx x) (dn_protx n)"

definition services :: "string list" where
  "services = [''drive'', ''tenderdash'', ''dapi'', ''gateway'']"

definition platform_restarts :: "platform_state \<Rightarrow> string \<Rightarrow> int" where
  "platform_restarts x c = (case fmlookup (pt_restarts x) c of None \<Rightarrow> 0 | Some n \<Rightarrow> n)"

definition platform_changes :: "platform_state \<Rightarrow> platform_state \<Rightarrow> gerr list" where
  "platform_changes b x = concat (map (\<lambda>(c, i). if mget (pt_containers x) c \<noteq> i \<or> platform_restarts x c \<noteq> platform_restarts b c
     then [Err (''Platform container changed: '' @ c)] else []) (sorted_list_of_fmap (pt_containers b)))"

text \<open>The problems of a validator's Platform, and the block hash all of them must share so far.\<close>

definition platform_problems :: "lplan \<Rightarrow> dep_node \<Rightarrow> platform_state option \<Rightarrow> platform_state option \<Rightarrow> string \<Rightarrow> gerr list \<times> string" where
  "platform_problems p n before later common = (case later of None \<Rightarrow> ([Err ''Platform unavailable''], common)
   | Some x \<Rightarrow>
     (problem_if (\<not> platform_identity p n x) ''Platform/DAPI identity or sync mismatch'' @
      problem_if (case before of None \<Rightarrow> True | Some b \<Rightarrow> sint (pt_height x) \<le> sint (pt_height b) \<and> stale_block x)
        ''Platform did not advance and its last block is old'' @
      (if length (pt_reference x) \<noteq> 64 then [Err ''missing common-height block hash'']
       else problem_if (common \<noteq> [] \<and> common \<noteq> pt_reference x) ''Platform block hash disagreement'') @
      problem_if (list_ex (\<lambda>c. mget (pt_containers x) c = []) services) ''incomplete Platform service set'' @
      (case before of None \<Rightarrow> [] | Some b \<Rightarrow> platform_changes b x),
      if length (pt_reference x) = 64 \<and> common = [] then pt_reference x else common))"

section \<open>The health of the fleet\<close>

record chain_node =
  cn_healthy :: bool
  cn_core_height :: i64
  cn_platform_height :: i64
  cn_problems :: "gerr list"

record chain_health =
  cl_network :: string
  cl_plan :: string
  cl_observed :: gotime
  cl_healthy :: bool
  cl_nodes :: "(string, chain_node) fmap"
  cl_problems :: "gerr list"
  cl_window :: gotime

definition judge_target :: "lplan \<Rightarrow> deployment \<Rightarrow> (string, csample) fmap \<Rightarrow> (string, csample) fmap \<Rightarrow>
    (string, chain_node) fmap \<times> gerr list \<times> string \<Rightarrow> ntarget \<Rightarrow> (string, chain_node) fmap \<times> gerr list \<times> string" where
  "judge_target p d a b st t = (case st of (nodes, problems, common) \<Rightarrow>
     let x = nt_name t; first = sample_at a x; v = sample_at b x; n = dep_at d x;
       core = (case core_healthy t n (cs_core v) (miner_name p) of Inl e \<Rightarrow> [e] | Inr _ \<Rightarrow> []) @
         core_progress (dp_genesis d) (cs_core first) (cs_core v);
       (platform, common') = (if nt_role t = ''validator'' then platform_problems p n (cs_platform first) (cs_platform v) common
         else ([], common));
       probs = cs_problems first @ cs_problems v @ core @ platform;
       node = \<lparr>cn_healthy = (probs = []), cn_core_height = (case cs_core v of None \<Rightarrow> 0 | Some c \<Rightarrow> co_height c),
         cn_platform_height = (if nt_role t = ''validator'' then (case cs_platform v of None \<Rightarrow> 0 | Some y \<Rightarrow> pt_height y) else 0),
         cn_problems = probs\<rparr>
     in (fmupd x node nodes, (if probs = [] then problems else problems @ [At x (Joined probs)]), common'))"

text \<open>The lowest Platform height of the first sample, zero when no validator reports one.\<close>

definition reference_height :: "lplan \<Rightarrow> (string, csample) fmap \<Rightarrow> i64" where
  "reference_height p a = foldl (\<lambda>reference t. case cs_platform (sample_at a (nt_name t)) of None \<Rightarrow> reference
     | Some v \<Rightarrow> if sint (pt_height v) > 0 \<and> (reference = 0 \<or> sint (pt_height v) < sint reference) then pt_height v else reference)
     0 (validators p)"

definition observation_window :: "crunner \<Rightarrow> lplan \<Rightarrow> gotime" where
  "observation_window r p = (let window = (if cr_window r = 0 then 15 * second else cr_window r);
     blocks = (lp_mining p * 5 * second) div 2
     in if lp_mining p > default_block \<and> window < blocks then blocks else window)"

definition check_doctor :: "crunner \<Rightarrow> lplan \<Rightarrow> oprec \<Rightarrow> unit res" where
  "check_doctor r p rc =
     (if cr_window r < 0 then Inl (Err ''health observation window must be positive'')
      else after (validate_lplan (cr_hash r) (cr_refs r) (cr_recipe r) (cr_worker r) p) (\<lambda>_.
      after (validate_record (cr_hash r) (cr_refs r) (lplan_compute p) rc) (\<lambda>_.
      if (case rc_deployment rc of None \<Rightarrow> True | Some d \<Rightarrow> dp_plan d \<noteq> lp_id p)
        then Inl (Err ''missing matching deployment journal'')
      else after (effective_images (cr_refs r) p rc) (\<lambda>_.
      if \<not> cr_remote r then Inl (Err ''authenticated transport required'')
      else if \<not> cr_deadline r then Inl (Err ''doctor requires a deadline'') else Inr ()))))"

definition deployment_of :: "oprec \<Rightarrow> deployment" where
  "deployment_of rc = (case rc_deployment rc of Some d \<Rightarrow> d | None \<Rightarrow>
     \<lparr>dp_plan = [], dp_phase = [], dp_stage = [], dp_genesis = [], dp_payout = [], dp_spork = [], dp_genesis_height = 0,
       dp_observed = 0, dp_nodes = fmempty, dp_sidecars = []\<rparr>)"

definition judge_chain :: "crunner \<Rightarrow> lplan \<Rightarrow> oprec \<Rightarrow> (string, csample) fmap \<Rightarrow> (string, csample) fmap \<Rightarrow> gotime \<Rightarrow> chain_health" where
  "judge_chain r p rc a b t0 = (case foldl (judge_target p (deployment_of rc) a b) (fmempty, [], []) (lp_targets p) of
     (nodes, problems, common) \<Rightarrow> \<lparr>cl_network = md_name (nw_metadata (pl_network (lplan_compute p))), cl_plan = lp_id p,
       cl_observed = t0, cl_healthy = (problems = []), cl_nodes = nodes, cl_problems = problems, cl_window = observation_window r p\<rparr>)"

text \<open>The second look, after the waiting window; the cloud identity is checked again after it.\<close>

definition second_look :: "crunner \<Rightarrow> lplan \<Rightarrow> oprec \<Rightarrow> (string, csample) fmap \<Rightarrow> chain_health coper" where
  "second_look r p rc a = bnd (sample r p rc (reference_height p a)) (\<lambda>b. sq (live_scope r p rc)
     (bnd now (\<lambda>t0. ret (judge_chain r p rc a b t0))))"

definition chain_doctor :: "crunner \<Rightarrow> lplan \<Rightarrow> oprec \<Rightarrow> chain_health coper" where
  "chain_doctor r p rc =
     sq (lift (check_doctor r p rc))
     (sq (on_cloud (verify_account (aws_account (nw_aws (pl_network (lplan_compute p))))))
     (sq (live_scope r p rc)
     (bnd (sample r p rc 0) (\<lambda>a.
     sq (fcall (FWait (observation_window r p)) done_reply) (second_look r p rc a)))))"

section \<open>What a healthy judgement says\<close>

text \<open>The two Core observations of a node in a healthy fleet, over the integers.\<close>

definition core_sound :: "lplan \<Rightarrow> deployment \<Rightarrow> ntarget \<Rightarrow> core_state \<Rightarrow> core_state \<Rightarrow> bool" where
  "core_sound p d t a b \<longleftrightarrow> co_synced b \<and> \<not> co_ibd b \<and> 1 \<le> co_peers b \<and> sint (co_headers b) \<le> sint (co_height b) \<and>
     sint (co_height a) < sint (co_height b) \<and> 1 \<le> sint (co_chainlock b) \<and> sint (co_height b) - 12 \<le> sint (co_chainlock b) \<and>
     co_genesis b = dp_genesis d \<and> co_container b = co_container a \<and> co_restarts b = co_restarts a \<and>
     (\<forall>x \<in> {''llmq_devnet'', ''llmq_devnet_dip0024'', ''llmq_devnet_platform''}. 1 \<le> quorum_at b x) \<and>
     (nt_name t = miner_name p \<longrightarrow> (\<exists>m. co_mining b = Some m \<and> mi_running m)) \<and>
     (nt_role t = ''validator'' \<longrightarrow> co_masternode b = ''READY'' \<and> equal_fold (co_protx b) (dn_protx (dep_at d (nt_name t))))"

text \<open>The two Platform observations of a validator. The age of an idle chain's last block is at most four
  minutes, unless it is so large that the product with a second leaves 64 bits.\<close>

definition platform_sound :: "lplan \<Rightarrow> deployment \<Rightarrow> ntarget \<Rightarrow> string \<Rightarrow> platform_state \<Rightarrow> platform_state \<Rightarrow> bool" where
  "platform_sound p d t block a b \<longleftrightarrow> \<not> pt_catching b \<and> 1 \<le> sint (pt_height b) \<and> sint (pt_height b) - 3 \<le> sint (pt_dapi b) \<and>
     pt_chain b = lp_platform_chain p \<and> pt_node b = dn_node_id (dep_at d (nt_name t)) \<and>
     equal_fold (pt_protx b) (dn_protx (dep_at d (nt_name t))) \<and> pt_reference b = block \<and> length block = 64 \<and>
     (sint (pt_height a) < sint (pt_height b) \<or>
       0 \<le> sint (pt_age b) \<and> (sint (pt_age b) \<le> 240 \<or> 2 ^ 63 \<le> sint (pt_age b) * 10 ^ 9)) \<and>
     (\<forall>c \<in> set services. mget (pt_containers b) c \<noteq> []) \<and>
     (\<forall>c i. fmlookup (pt_containers a) c = Some i \<longrightarrow> mget (pt_containers b) c = i \<and> platform_restarts b c = platform_restarts a c)"

lemma sint_of_int: "sint (word_of_int k :: i64) = signed_take_bit 63 k"
  by (simp only: sint_sbintrunc') simp

lemma sint_bounds: "- (2 ^ 63) \<le> sint (x :: i64)" "sint (x :: i64) < 2 ^ 63"
  using sint_range_size [of x] by (auto simp: word_size)

lemma sint_minus_small:
  fixes x y :: i64
  assumes "sint (x - word_of_int k) \<le> sint y" and "0 \<le> k"
  shows "sint x - k \<le> sint y"
proof (cases "- (2 ^ 63) \<le> sint x - k")
  case True
  have "x - word_of_int k = word_of_int (sint x - k)" by simp
  then have "sint (x - word_of_int k) = signed_take_bit 63 (sint x - k)" by (simp only: sint_of_int)
  also have "\<dots> = sint x - k" using True assms(2) sint_bounds [of x] by (intro signed_take_bit_int_eq_self) auto
  finally show ?thesis using assms(1) by simp
next
  case False
  then show ?thesis using sint_bounds [of y] by linarith
qed

lemma fresh_block:
  assumes "\<not> stale_block x"
  shows "0 \<le> sint (pt_age x) \<and> (sint (pt_age x) \<le> 240 \<or> 2 ^ 63 \<le> sint (pt_age x) * 10 ^ 9)"
proof -
  have p: "0 \<le> sint (pt_age x)" using assms by (simp add: stale_block_def)
  have "sint (pt_age x) \<le> 240" if "sint (pt_age x) * 10 ^ 9 < 2 ^ 63"
  proof -
    have "pt_age x * nanoseconds = word_of_int (sint (pt_age x) * 10 ^ 9)" by (simp add: nanoseconds_def)
    then have "sint (pt_age x * nanoseconds) = signed_take_bit 63 (sint (pt_age x) * 10 ^ 9)" by (simp only: sint_of_int)
    also have "\<dots> = sint (pt_age x) * 10 ^ 9" using p that by (intro signed_take_bit_int_eq_self) auto
    finally show ?thesis using assms by (simp add: stale_block_def platform_idle_limit_def minute_def second_def)
  qed
  then show ?thesis using p by linarith
qed

lemma problem_if_none [simp]: "problem_if b m = [] \<longleftrightarrow> \<not> b"
  by (simp add: problem_if_def)

lemma core_certified:
  assumes "core_healthy t (dep_at d (nt_name t)) core (miner_name p) = Inr ()" and "core_progress (dp_genesis d) before core = []"
  shows "\<exists>a b. before = Some a \<and> core = Some b \<and> core_sound p d t a b"
proof -
  obtain b where b: "core = Some b" using assms(1) by (cases core) (auto simp: core_healthy_def)
  obtain a where a: "before = Some a" using assms(2) b by (cases before) (auto simp: core_progress_def)
  have "sint (co_height b) - 12 \<le> sint (co_chainlock b)"
    using assms(1) b by (intro sint_minus_small) (auto simp: core_healthy_def split: if_splits)
  moreover have "1 \<le> quorum_at b x" if "x \<in> {''llmq_devnet'', ''llmq_devnet_dip0024'', ''llmq_devnet_platform''}" for x
    using assms(1) b that by (auto simp: core_healthy_def res_simps split: if_splits)
  ultimately have "core_sound p d t a b"
    using assms a b unfolding core_sound_def
    by (auto simp: core_healthy_def core_progress_def res_simps not_less split: if_splits option.splits)
  then show ?thesis using a b by blast
qed

lemma platform_certified:
  assumes "platform_problems p (dep_at d (nt_name t)) before later common = ([], common')"
  shows "\<exists>a b. before = Some a \<and> later = Some b \<and> platform_sound p d t common' a b \<and> (common \<noteq> [] \<longrightarrow> common' = common)"
proof -
  obtain b where b: "later = Some b" using assms by (cases later) (auto simp: platform_problems_def)
  obtain a where a: "before = Some a" using assms b by (cases before) (auto simp: platform_problems_def)
  note q = assms [unfolded a b platform_problems_def, simplified, unfolded not_less not_le]
  have i: "platform_identity p (dep_at d (nt_name t)) b" using q by simp
  have h: "sint (pt_height b) - 3 \<le> sint (pt_dapi b)"
    using i by (intro sint_minus_small) (auto simp: platform_identity_def)
  have r: "pt_reference b = common'" "length common' = 64" "common \<noteq> [] \<longrightarrow> common' = common" using q by (auto split: if_splits)
  have c: "\<forall>c i. fmlookup (pt_containers a) c = Some i \<longrightarrow> mget (pt_containers b) c = i \<and> platform_restarts b c = platform_restarts a c"
  proof (intro allI impI)
    fix c i assume "fmlookup (pt_containers a) c = Some i"
    then have "(c, i) \<in> set (sorted_list_of_fmap (pt_containers a))" by (auto simp: sorted_list_of_fmap_def intro!: image_eqI [of _ _ c] fmdomI)
    then show "mget (pt_containers b) c = i \<and> platform_restarts b c = platform_restarts a c"
      using q by (auto simp: platform_changes_def split: if_splits)
  qed
  have m: "\<forall>c \<in> set services. mget (pt_containers b) c \<noteq> []" using q by (auto simp: list_ex_iff)
  have f: "sint (pt_height a) < sint (pt_height b) \<or>
       0 \<le> sint (pt_age b) \<and> (sint (pt_age b) \<le> 240 \<or> 2 ^ 63 \<le> sint (pt_age b) * 10 ^ 9)"
    using q fresh_block [of b] by auto
  show ?thesis using a b i h r c m f by (auto simp: platform_sound_def platform_identity_def)
qed

definition certified :: "lplan \<Rightarrow> deployment \<Rightarrow> string \<Rightarrow> (string, csample) fmap \<Rightarrow> (string, csample) fmap \<Rightarrow> ntarget \<Rightarrow> bool" where
  "certified p d block a b t \<longleftrightarrow> (let s1 = sample_at a (nt_name t); s2 = sample_at b (nt_name t) in
     (\<exists>c1 c2. cs_core s1 = Some c1 \<and> cs_core s2 = Some c2 \<and> core_sound p d t c1 c2) \<and>
     (nt_role t = ''validator'' \<longrightarrow> (\<exists>p1 p2. cs_platform s1 = Some p1 \<and> cs_platform s2 = Some p2 \<and> platform_sound p d t block p1 p2)))"

lemma judge_step:
  assumes "judge_target p d a b (nodes, problems, common) t = (nodes', [], common')"
  shows "problems = [] \<and> certified p d common' a b t \<and> (common \<noteq> [] \<longrightarrow> common' = common) \<and>
    (nt_role t = ''validator'' \<longrightarrow> common' \<noteq> [])"
proof -
  let ?s1 = "sample_at a (nt_name t)" and ?s2 = "sample_at b (nt_name t)" and ?n = "dep_at d (nt_name t)"
  obtain platform c where pc: "(if nt_role t = ''validator'' then platform_problems p ?n (cs_platform ?s1) (cs_platform ?s2) common
      else ([], common)) = (platform, c)" by fastforce
  have j: "problems = []" "c = common'" "platform = []" "core_progress (dp_genesis d) (cs_core ?s1) (cs_core ?s2) = []"
    "core_healthy t ?n (cs_core ?s2) (miner_name p) = Inr ()"
    using assms unfolding judge_target_def Let_def prod.case pc by (auto split: if_splits sum.splits)
  have core: "\<exists>c1 c2. cs_core ?s1 = Some c1 \<and> cs_core ?s2 = Some c2 \<and> core_sound p d t c1 c2"
    by (rule core_certified [OF j(5,4)])
  show ?thesis
  proof (cases "nt_role t = ''validator''")
    case True
    then have "platform_problems p ?n (cs_platform ?s1) (cs_platform ?s2) common = ([], common')" using pc j by simp
    from platform_certified [OF this] obtain p1 p2 where
      pl: "cs_platform ?s1 = Some p1" "cs_platform ?s2 = Some p2" "platform_sound p d t common' p1 p2" "common \<noteq> [] \<longrightarrow> common' = common"
      by blast
    then have "common' \<noteq> []" by (auto simp: platform_sound_def)
    then show ?thesis using core pl j by (auto simp: certified_def Let_def)
  next
    case False
    then show ?thesis using core pc j by (auto simp: certified_def Let_def)
  qed
qed

lemma certified_cong: "nt_role t \<noteq> ''validator'' \<Longrightarrow> certified p d c a b t \<longleftrightarrow> certified p d c' a b t"
  by (simp add: certified_def Let_def)

lemma judge_fold:
  assumes "foldl (judge_target p d a b) (nodes, problems, common) ts = (nodes', [], common')"
  shows "problems = [] \<and> (\<forall>t \<in> set ts. certified p d common' a b t) \<and> (common \<noteq> [] \<longrightarrow> common' = common)"
  using assms
proof (induction ts arbitrary: nodes problems common)
  case (Cons t ts)
  obtain n1 p1 c1 where s: "judge_target p d a b (nodes, problems, common) t = (n1, p1, c1)" by (metis prod_cases3)
  note ih = Cons.IH [of n1 p1 c1] 
  have r: "foldl (judge_target p d a b) (n1, p1, c1) ts = (nodes', [], common')" using Cons.prems s by simp
  have p1: "p1 = []" using ih r by simp
  note st = judge_step [OF s [unfolded p1]]
  show ?case using st ih r certified_cong [of t p d c1 a b common'] by auto
qed simp

lemma judge_chain_healthy:
  assumes "cl_healthy (judge_chain r p rc a b t0)"
  shows "\<exists>block. \<forall>t \<in> set (lp_targets p). certified p (deployment_of rc) block a b t"
proof -
  obtain nodes problems common where f: "foldl (judge_target p (deployment_of rc) a b) (fmempty, [], []) (lp_targets p) = (nodes, problems, common)"
    by (metis prod_cases3)
  have "problems = []" using assms by (simp add: judge_chain_def f)
  then show ?thesis using judge_fold f by blast
qed

section \<open>Where a sample comes from\<close>

definition chain_observes :: "nrequest \<Rightarrow> bool" where
  "chain_observes q \<longleftrightarrow> nq_action q = ''core-status'' \<or> nq_action q = ''platform-status''"

abbreviation chain_reads :: "(nrequest freq, nobservation freply) hist \<Rightarrow> bool" where
  "chain_reads h \<equiv> list_all (\<lambda>x. peeks chain_observes (fst x)) h"

definition seen_core :: "(nrequest freq, nobservation freply) hist \<Rightarrow> string \<Rightarrow> core_state \<Rightarrow> bool" where
  "seen_core h x c \<longleftrightarrow> (\<exists>q o1. (FHost q, WSeen (Inr o1)) \<in> set h \<and> nt_name (nq_target q) = x \<and> nq_action q = ''core-status'' \<and>
     no_core o1 = Some c)"

definition seen_platform :: "(nrequest freq, nobservation freply) hist \<Rightarrow> string \<Rightarrow> platform_state \<Rightarrow> bool" where
  "seen_platform h x c \<longleftrightarrow> (\<exists>q o1. (FHost q, WSeen (Inr o1)) \<in> set h \<and> nt_name (nq_target q) = x \<and> nq_action q = ''platform-status'' \<and>
     no_platform o1 = Some c)"

definition true_sample :: "(nrequest freq, nobservation freply) hist \<Rightarrow> string \<Rightarrow> csample \<Rightarrow> bool" where
  "true_sample h x s \<longleftrightarrow> (\<forall>c. cs_core s = Some c \<longrightarrow> seen_core h x c) \<and> (\<forall>c. cs_platform s = Some c \<longrightarrow> seen_platform h x c)"

definition true_samples :: "(nrequest freq, nobservation freply) hist \<Rightarrow> (string, csample) fmap \<Rightarrow> bool" where
  "true_samples h m \<longleftrightarrow> (\<forall>x s. fmlookup m x = Some s \<longrightarrow> true_sample h x s)"

text \<open>What was exchanged since a point of the history only reads, and the samples are its answers.\<close>

definition sampled_since :: "(nrequest freq, nobservation freply) hist \<Rightarrow> (string, csample) fmap \<Rightarrow> cworld \<Rightarrow> bool" where
  "sampled_since h0 m w \<longleftrightarrow> (\<exists>new. hist w = new @ h0 \<and> chain_reads new \<and> true_samples new m)"

lemma true_Cons: "true_sample h x s \<Longrightarrow> true_sample (z # h) x s" "true_samples h m \<Longrightarrow> true_samples (z # h) m"
  by (fastforce simp: true_samples_def true_sample_def seen_core_def seen_platform_def)+

lemma true_at: "true_samples h m \<Longrightarrow> true_sample h x (sample_at m x)"
  by (auto simp: true_samples_def sample_at_def true_sample_def no_sample_def split: option.splits)

interpretation since: peeking_invariant "sampled_since h0 m" chain_observes for h0 m
proof
  fix q :: "nrequest freq" and w :: cworld and a
  assume q: "peeks chain_observes q" and "sampled_since h0 m w"
  then obtain new where "hist w = new @ h0" "chain_reads new" "true_samples new m" by (auto simp: sampled_since_def)
  then show "sampled_since h0 m (w\<lparr>hist := (q, a) # hist w\<rparr>)"
    unfolding sampled_since_def using q true_Cons(2) by (intro exI [of _ "(q, a) # new"]) auto
qed

lemma request_simps [simp]:
  "nt_name (nq_target (runtime_request R p rc t action)) = nt_name t" "nq_action (runtime_request R p rc t action) = action"
  "nt_name (nq_target (chain_request_at r p rc reference t)) = nt_name t" "nq_action (chain_request_at r p rc reference t) = ''platform-status''"
  by (simp_all add: runtime_request_def chain_request_at_def set_sidecars_def chain_request_def plain_request_def split: option.splits)

lemma wp_sample_target:
  assumes "sampled_since h0 m w"
  shows "wp (sample_target r p rc reference t) (\<lambda>s. sampled_since h0 (fmupd (nt_name t) s m)) (\<lambda>_ _. False) w"
proof -
  have put: "sampled_since h0 (fmupd x s m) v" if "hist v = new @ h0" "chain_reads new" "true_samples new m" "true_sample new x s" for v new x s
    using that by (auto simp: sampled_since_def true_samples_def)
  have none: "true_sample new x (no_sample\<lparr>cs_problems := e\<rparr>)" for new x e by (simp add: true_sample_def no_sample_def)
  obtain new where n: "hist w = new @ h0" "chain_reads new" "true_samples new m" using assms by (auto simp: sampled_since_def)
  let ?c = "runtime_request (cr_refs r) p rc t ''core-status''" and ?x = "nt_name t"
  have core: "wp (sample_core r p rc t) (\<lambda>s v. \<exists>new. hist v = new @ h0 \<and> chain_reads new \<and> true_samples new m \<and> true_sample new ?x s)
      (\<lambda>_ _. False) v" if "hist v = new @ h0" "chain_reads new" "true_samples new m" for v new
  proof -
    let ?q = "(FHost ?c, answer (env v) (hist v) (FHost ?c))"
    have o: "chain_reads (?q # new)" using that by (simp add: chain_observes_def)
    have "true_sample (?q # new) ?x (no_sample\<lparr>cs_core := no_core o1\<rparr>)" if "seen_reply (snd ?q) = Inr o1" for o1
      using seen_reply_Inr [of "snd ?q" o1] that by (auto simp: true_sample_def no_sample_def seen_core_def intro!: exI [of _ ?c] exI [of _ o1])
    then show ?thesis
      unfolding sample_core_def
      by (simp add: wp_bnd wp_attempt wp_fcall wp_ret Let_def split: sum.splits)
        (use o that none true_Cons(2) in \<open>fastforce intro: exI [of _ "?q # new"]\<close>)
  qed
  let ?p = "chain_request_at r p rc reference t"
  have plat: "wp (sample_platform r p rc reference t s) (\<lambda>s v. \<exists>new. hist v = new @ h0 \<and> chain_reads new \<and> true_samples new m \<and> true_sample new ?x s)
      (\<lambda>_ _. False) v" if "hist v = new @ h0" "chain_reads new" "true_samples new m" "true_sample new ?x s" for v new s
  proof -
    let ?q = "(FHost ?p, answer (env v) (hist v) (FHost ?p))"
    have o: "chain_reads (?q # new)" using that by (simp add: chain_observes_def)
    have k: "true_sample (?q # new) ?x s" "true_samples (?q # new) m" using that true_Cons by auto
    then have k1: "true_sample (?q # new) ?x (s\<lparr>cs_problems := e\<rparr>)" for e by (simp add: true_sample_def)
    have "true_sample (?q # new) ?x (s\<lparr>cs_platform := no_platform o1\<rparr>)" if "seen_reply (snd ?q) = Inr o1" for o1
      using seen_reply_Inr [of "snd ?q" o1] that k by (auto simp: true_sample_def seen_platform_def intro!: exI [of _ ?p] exI [of _ o1])
    then show ?thesis
      unfolding sample_platform_def
      by (simp add: wp_bnd wp_attempt wp_fcall wp_ret Let_def split: sum.splits)
        (use o that(1) k k1 in \<open>fastforce intro: exI [of _ "?q # new"]\<close>)
  qed
  let ?s = "(FNext, answer (env w) (hist w) FNext)"
  let ?w = "w\<lparr>hist := ?s # hist w\<rparr>"
  have n1: "hist ?w = (?s # new) @ h0" "chain_reads (?s # new)" "true_samples (?s # new) m" using n true_Cons(2) by auto
  have cancel: "sampled_since h0 (fmupd ?x (no_sample\<lparr>cs_problems := e\<rparr>) m) ?w" for e
    by (rule put [OF n1 none])
  have go: "wp (bnd (sample_core r p rc t) (\<lambda>s. if nt_role t = ''validator'' then sample_platform r p rc reference t s else ret s))
      (\<lambda>s. sampled_since h0 (fmupd ?x s m)) (\<lambda>_ _. False) ?w"
    unfolding wp_bnd
  proof (rule wp_conseq [OF core [OF n1]])
    fix s and v :: cworld assume "\<exists>new. hist v = new @ h0 \<and> chain_reads new \<and> true_samples new m \<and> true_sample new ?x s"
    then obtain new where v: "hist v = new @ h0" "chain_reads new" "true_samples new m" "true_sample new ?x s" by blast
    show "wp (if nt_role t = ''validator'' then sample_platform r p rc reference t s else ret s)
        (\<lambda>s. sampled_since h0 (fmupd ?x s m)) (\<lambda>_ _. False) v"
      using put [OF v] by (auto simp: wp_ret intro!: wp_conseq [OF plat [OF v]] put)
  qed simp
  show ?thesis
    unfolding sample_target_def
    by (subst wp_bnd, simp only: wp_ctx_done, subst wp_bnd, simp only: wp_ask) (use cancel go in \<open>simp add: wp_ret\<close>)
qed

lemma wp_sample_targets:
  assumes "sampled_since h0 m w"
  shows "wp (sample_targets r p rc reference ts m) (\<lambda>m'. sampled_since h0 m') (\<lambda>_ _. False) w"
  using assms
proof (induction ts arbitrary: m w)
  case (Cons t ts)
  show ?case
    by (simp add: wp_bnd) (rule wp_conseq [OF wp_sample_target [OF Cons.prems]], auto intro: Cons.IH)
qed (simp add: wp_ret)

lemma wp_sample: "wp (sample r p rc reference) (\<lambda>m. sampled_since (hist w) m) (\<lambda>_ _. False) w"
  unfolding sample_def by (rule wp_sample_targets) (simp add: sampled_since_def true_samples_def)

lemma keeps_live_scope: "(\<And>q p n. keeps I (on_cloud (running_targets (cr_hash r) (cr_refs r) n p q))) \<Longrightarrow> keeps I (live_scope r p rc)"
  unfolding live_scope_def by (intro keeps_intros)


text \<open>A health check: two samples of the fleet before and after its waiting window, each the answers of
  the hosts in its part of the history, and nothing but reads around them.\<close>

definition two_samples :: "crunner \<Rightarrow> lplan \<Rightarrow> oprec \<Rightarrow> (nrequest freq, nobservation freply) hist \<Rightarrow> chain_health \<Rightarrow>
    (nrequest freq, nobservation freply) hist \<Rightarrow> bool" where
  "two_samples r p rc h0 h h' \<longleftrightarrow> (\<exists>h1 h2 a b t0. h' = h2 @ (FWait (observation_window r p), WDone (Inr ())) # h1 @ h0 \<and>
     chain_reads h1 \<and> chain_reads h2 \<and> true_samples h1 a \<and> true_samples h2 b \<and> h = judge_chain r p rc a b t0)"

definition only_reads :: "(nrequest freq, nobservation freply) hist \<Rightarrow> cworld \<Rightarrow> bool" where
  "only_reads h0 w \<longleftrightarrow> (\<exists>new. hist w = new @ h0 \<and> chain_reads new)"

interpretation only_reads: peeking_invariant "only_reads h0" chain_observes for h0
proof
  fix q :: "nrequest freq" and w :: cworld and a
  assume "peeks chain_observes q" and "only_reads h0 w"
  then show "only_reads h0 (w\<lparr>hist := (q, a) # hist w\<rparr>)"
    by (fastforce simp: only_reads_def intro: exI [of _ "(q, a) # new" for new])
qed

lemma since_reads: "sampled_since h0 m w \<Longrightarrow> only_reads h0 w" "only_reads h0 w \<Longrightarrow> sampled_since h0 fmempty w"
  by (auto simp: sampled_since_def only_reads_def true_samples_def)

lemma only_reads_trans: "only_reads h w \<Longrightarrow> h = new @ h0 \<Longrightarrow> chain_reads new \<Longrightarrow> only_reads h0 w"
  by (auto simp: only_reads_def)

lemma wp_second_look:
  assumes "hist w = h1 @ h0" and "chain_reads h1" and "true_samples h1 a"
  shows "wp (second_look r p rc a) (\<lambda>h w'. two_samples r p rc h0 h (hist w')) (\<lambda>_. only_reads h0)
    (w\<lparr>hist := (FWait (observation_window r p), WDone (Inr ())) # hist w\<rparr>)"
proof -
  let ?h = "(FWait (observation_window r p), WDone (Inr ())) # h1 @ h0"
  have e: "only_reads h0 u" if "sampled_since ?h b u" for b u
    using only_reads_trans [OF since_reads(1) [OF that], of "(FWait (observation_window r p), WDone (Inr ())) # h1"] assms(2) by simp
  have q: "two_samples r p rc h0 (judge_chain r p rc a b t0) (hist u)" if "sampled_since ?h b u" for b u t0
    using that assms(2,3) by (fastforce simp: two_samples_def sampled_since_def)
  have k: "keeps (sampled_since ?h b) (live_scope r p rc)" for b
    by (rule keeps_live_scope) (rule since.keeps_on_running)
  have last: "wp (sq (live_scope r p rc) (bnd now (\<lambda>t0. ret (judge_chain r p rc a b t0))))
      (\<lambda>h w'. two_samples r p rc h0 h (hist w')) (\<lambda>_. only_reads h0) v" if "sampled_since ?h b v" for b v
    unfolding wp_sq by (rule wp_conseq [OF keeps_wp [OF k that]]) (use q e in \<open>auto simp: wp_bnd wp_now wp_ret\<close>)
  show ?thesis
    unfolding second_look_def wp_bnd [of "sample r p rc ref" for ref]
    by (rule wp_conseq [OF wp_sample]) (use last assms(1) in simp_all)
qed

lemma wp_chain_doctor:
  "wp (chain_doctor r p rc) (\<lambda>h w'. two_samples r p rc (hist w) h (hist w')) (\<lambda>_. only_reads (hist w)) w"
proof -
  let ?h = "hist w" and ?win = "observation_window r p"
  let ?Q = "\<lambda>h w'. two_samples r p rc ?h h (hist w')"
  have r0: "only_reads ?h w" by (auto simp: only_reads_def)
  have acc: "keeps (only_reads ?h) (on_cloud (verify_account x))" for x by (rule only_reads.keeps_on_account)
  have live: "keeps (only_reads ?h) (live_scope r p rc)" by (rule keeps_live_scope) (rule only_reads.keeps_on_running)
  have waited: "wp (sq (fcall (FWait ?win) done_reply) (second_look r p rc a)) ?Q (\<lambda>_. only_reads ?h) v"
    if v: "sampled_since ?h a v" for a v
  proof -
    obtain h1 where h1: "hist v = h1 @ ?h" "chain_reads h1" "true_samples h1 a" using v by (auto simp: sampled_since_def)
    have "only_reads ?h (v\<lparr>hist := (FWait ?win, x) # hist v\<rparr>)" for x
      using only_reads.peek [of "FWait ?win"] since_reads(1) [OF v] by simp
    then show ?thesis using wp_second_look [OF h1]
      by (auto simp: wp_sq wp_fcall Let_def split: sum.splits dest!: done_reply_Inr)
  qed
  have first: "wp (bnd (sample r p rc 0) (\<lambda>a. sq (fcall (FWait ?win) done_reply) (second_look r p rc a))) ?Q (\<lambda>_. only_reads ?h) v"
    if "only_reads ?h v" for v
    unfolding wp_bnd sample_def by (rule wp_conseq [OF wp_sample_targets [OF since_reads(2) [OF that]]]) (use waited in simp_all)
  have second: "wp (sq (live_scope r p rc) (bnd (sample r p rc 0) (\<lambda>a. sq (fcall (FWait ?win) done_reply) (second_look r p rc a)))) ?Q
      (\<lambda>_. only_reads ?h) v" if "only_reads ?h v" for v
    unfolding wp_sq by (rule wp_conseq [OF keeps_wp [OF live that]]) (use first in \<open>simp_all add: wp_sq\<close>)
  have third: "wp (sq (on_cloud (verify_account x)) (sq (live_scope r p rc) (bnd (sample r p rc 0) (\<lambda>a.
      sq (fcall (FWait ?win) done_reply) (second_look r p rc a))))) ?Q (\<lambda>_. only_reads ?h) w" for x
    unfolding wp_sq [of "on_cloud _"] by (rule wp_conseq [OF keeps_wp [OF acc r0]]) (use second in simp_all)
  show ?thesis
    unfolding chain_doctor_def wp_sq [of "lift _"] wp_lift using third r0 by (auto split: sum.splits)
qed

text \<open>C40: A health check that returns a healthy verdict is made of reads only (no journal write and no host
  action but status), checks the whole fleet twice with the waiting window in between, and certifies
  each node by the answers of its own host on both sides of the window: Core advanced in one
  container on the deployment's genesis with a fresh ChainLock and all quorums, the miner runs, and
  every validator is READY under its registered identity with Platform in sync, its services
  unchanged and one common block hash for the whole fleet.\<close>

theorem chain_health_certifies:
  assumes "chain_doctor r p rc w = (Inr h, w')" and "cl_healthy h"
  shows "\<exists>h1 h2 block. hist w' = h2 @ (FWait (observation_window r p), WDone (Inr ())) # h1 @ hist w \<and> chain_reads h1 \<and> chain_reads h2 \<and>
    (\<forall>t \<in> set (lp_targets p).
      (\<exists>c1 c2. seen_core h1 (nt_name t) c1 \<and> seen_core h2 (nt_name t) c2 \<and> core_sound p (deployment_of rc) t c1 c2) \<and>
      (nt_role t = ''validator'' \<longrightarrow> (\<exists>p1 p2. seen_platform h1 (nt_name t) p1 \<and> seen_platform h2 (nt_name t) p2 \<and>
        platform_sound p (deployment_of rc) t block p1 p2)))"
proof -
  have "two_samples r p rc (hist w) h (hist w')"
    using wp_chain_doctor [of r p rc w] assms(1) by (simp add: wp_def)
  then obtain h1 h2 a b t0 where e: "hist w' = h2 @ (FWait (observation_window r p), WDone (Inr ())) # h1 @ hist w"
    "chain_reads h1" "chain_reads h2" "true_samples h1 a" "true_samples h2 b" "h = judge_chain r p rc a b t0"
    by (auto simp: two_samples_def)
  obtain block where c: "\<forall>t \<in> set (lp_targets p). certified p (deployment_of rc) block a b t"
    using judge_chain_healthy assms(2) e(6) by blast
  show ?thesis
    using e(1-3) c true_at [OF e(4)] true_at [OF e(5)]
    by (intro exI [of _ h1] exI [of _ h2] exI [of _ block]) (fastforce simp: certified_def Let_def true_sample_def)
qed

end
