(* ===== verification/Chain_World.thy ===== *)
theory Chain_World
  imports Chain_Health
begin

text \<open>
  The world of the sample devnet for the witnesses of the chain lifecycle: its instances, its journal
  record after a completed deployment, and hosts that answer every request, with a Core height that
  grows with the history.
\<close>

definition devnet_runner :: crunner where
  "devnet_runner = \<lparr>cr_hash = sample_hash, cr_refs = sample_refs, cr_recipe = ''recipe'', cr_worker = ''worker'', cr_upgrader = ''upgrade'',
     cr_remote = True, cr_registry = True, cr_deadline = True, cr_owner = ''runner-1'', cr_version = ''v1'', cr_window = 0,
     cr_core_only = False, cr_pages = 5, cr_polls = 5\<rparr>"

definition devnet_tags :: "target \<Rightarrow> tag_list" where
  "devnet_tags t = [(''Name'', ''devnet-a-'' @ tg_name t), (''net'', ''devnet-a''), (''dashnet:managed-by'', managed_by),
     (''dashnet:network'', ''devnet-a''), (''dashnet:generation'', itoa_int 1), (''dashnet:plan'', pl_id devnet_plan),
     (''dashnet:node'', tg_name t), (''dashnet:role'', tg_role t)]"

definition devnet_machine :: "target \<times> inst \<Rightarrow> inst" where
  "devnet_machine x = (case x of (t, i) \<Rightarrow> i\<lparr>in_token := token sample_hash devnet_plan t, in_image := tg_ami t, in_type := tg_type t,
     in_arch := aws_arch (tg_arch t), in_subnet := fp_subnet devnet_footprint, in_vpc := fp_vpc devnet_footprint,
     in_key := fp_key devnet_footprint, in_sgs := fp_sgs devnet_footprint, in_http_tokens := Some ''required'',
     in_tags := devnet_tags t\<rparr>)"

definition devnet_page :: page where
  "devnet_page = \<lparr>pg_reservations = [\<lparr>rs_owner = ''123456789012'', rs_instances = map devnet_machine devnet_hosts\<rparr>], pg_next = []\<rparr>"

definition devnet_protx :: "string \<Rightarrow> string" where
  "devnet_protx x = replicate 61 (CHR ''a'') @ drop 4 x"

definition devnet_dep_node :: "string \<Rightarrow> dep_node" where
  "devnet_dep_node x = \<lparr>dn_phase = ''ready'', dn_operator_key = replicate 96 (CHR ''a''), dn_node_id = replicate 40 (CHR ''a''),
     dn_protx = devnet_protx x, dn_container = sample_hex, dn_core_height = 7, dn_platform_height = 7, dn_observed = 9\<rparr>"

definition devnet_address :: string where
  "devnet_address = replicate 30 (CHR ''y'')"

definition devnet_deployment :: deployment where
  "devnet_deployment = \<lparr>dp_plan = sample_hex, dp_phase = ''network-ready'', dp_stage = ''ready'', dp_genesis = sample_hex,
     dp_payout = devnet_address, dp_spork = devnet_address, dp_genesis_height = 1, dp_observed = 9,
     dp_nodes = fmap_of_list (map (\<lambda>t. (tg_name t, devnet_dep_node (tg_name t))) (pl_targets devnet_plan)), dp_sidecars = []\<rparr>"

definition devnet_bare :: oprec where
  "devnet_bare = (new_record devnet_plan 1)\<lparr>rc_phase := ''compute-ready'',
     rc_nodes := fmap_of_list (map (\<lambda>x. (tg_name (fst x), node_zero\<lparr>nd_phase := ''present'', nd_attempted := 1,
       nd_instance := in_id (snd x), nd_state := ''running'', nd_observed := 1\<rparr>)) devnet_hosts),
     rc_boot := Some \<lparr>bt_plan = sample_hex, bt_phase = ''hosts-ready'', bt_nodes = fmap_of_list (map (\<lambda>t. (tg_name t,
       \<lparr>bn_phase = ''ready'', bn_observed = 1, bn_docker = ''27.0.0'', bn_compose = ''2.0.0''\<rparr>)) (pl_targets devnet_plan))\<rparr>\<rparr>"

definition devnet_record :: oprec where
  "devnet_record = devnet_bare\<lparr>rc_deployment := Some devnet_deployment\<rparr>"

definition devnet_core :: "string \<Rightarrow> i64 \<Rightarrow> core_state" where
  "devnet_core x n = \<lparr>co_checkpoint = [], co_started = ''2024-01-02T03:04:05Z'', co_mining = Some \<lparr>mi_running = True,
     mi_container = sample_hex, mi_restarts = 0\<rparr>, co_genesis = sample_hex, co_height = n, co_headers = n, co_synced = True, co_ibd = False,
     co_peers = 13, co_container = sample_hex, co_restarts = 0, co_config = sample_hex, co_masternode = ''READY'',
     co_protx = devnet_protx x, co_chainlock = n,
     co_quorums = fmap_of_list [(''llmq_devnet'', 1), (''llmq_devnet_dip0024'', 1), (''llmq_devnet_platform'', 1)]\<rparr>"

definition devnet_platform :: "string \<Rightarrow> i64 \<Rightarrow> platform_state" where
  "devnet_platform x n = \<lparr>pt_protocol = 1, pt_validators = map (\<lambda>t. devnet_protx (tg_name t)) (take 12 (pl_targets devnet_plan)),
     pt_height = n, pt_age = 1, pt_dapi = n, pt_catching = False, pt_chain = ''dash-devnet-a'', pt_node = replicate 40 (CHR ''a''),
     pt_protx = devnet_protx x, pt_drive = ''1'', pt_reference = sample_hex,
     pt_containers = fmap_of_list (map (\<lambda>c. (c, sample_hex)) services), pt_restarts = fmempty\<rparr>"

definition devnet_answer :: "nat \<Rightarrow> nrequest \<Rightarrow> nobservation" where
  "devnet_answer n q = (let x = nt_name (nq_target q) in \<lparr>no_instance = [], no_plan = [], no_action = [], no_error = [],
     no_core = Some (devnet_core x (word_of_nat n)), no_platform = Some (devnet_platform x (word_of_nat n)),
     no_operator = replicate 96 (CHR ''a''), no_node = replicate 40 (CHR ''a''), no_payout = devnet_address, no_spork = devnet_address,
     no_protx = (case nq_registration q of None \<Rightarrow> [] | Some b \<Rightarrow> devnet_protx (pe_name b)), no_confirmations = 1, no_balance = 5000,
     no_render = Some \<lparr>rd_version = ''1.0.0'', rd_sidecars = fmempty, rd_changes = [], rd_deferred = []\<rparr>\<rparr>)"

definition devnet_env :: "oprec \<Rightarrow> (nrequest freq, nobservation freply) env" where
  "devnet_env rc = \<lparr>answer = (\<lambda>h q. case q of
       FCloud QIdentity \<Rightarrow> WCloud (RText (Inr (Some ''123456789012'')))
     | FCloud (QInstances tok) \<Rightarrow> WCloud (RPage (Inr (Some devnet_page)))
     | FCloud (QAcquire p owner) \<Rightarrow> WCloud (RRecord (Inr rc))
     | FRead p \<Rightarrow> WStored (Inr (rc, []))
     | FHost r \<Rightarrow> WSeen (Inr (devnet_answer (length h) r))
     | FNext \<Rightarrow> WNext 0
     | FWait d \<Rightarrow> WDone (Inr ())
     | _ \<Rightarrow> WCloud (RUnit (Inr ()))), clock = (\<lambda>h. 100 + int (length h)), cancelled = (\<lambda>_. False)\<rparr>"

definition devnet_world :: "oprec \<Rightarrow> cworld" where
  "devnet_world rc = \<lparr>env = devnet_env rc, hist = [], fw_rec = rc, fw_changed = False\<rparr>"

definition devnet_found :: live_map where
  "devnet_found = fold (\<lambda>x. fmupd (tg_name (fst x)) (devnet_machine x)) devnet_hosts fmempty"

section \<open>The live hosts\<close>

lemma devnet_parts [simp]:
  "pl_network devnet_plan = devnet_network" "footprint_of devnet_plan = devnet_footprint" "aws_account (nw_aws devnet_network) = ''123456789012''"
  "lp_bootstrap devnet_lplan = devnet_bplan" "lp_targets devnet_lplan = devnet_ntargets" "lp_advertise devnet_lplan = ''public''"
  "bp_compute devnet_bplan = devnet_plan" "bp_access devnet_bplan = devnet_access" "lp_id devnet_lplan = sample_hex"
  using devnet_bplan_parts by (simp_all add: devnet_lplan_def footprint_of_def devnet_network_def sample_network_def)

lemma devnet_names: "distinct (map (tg_name \<circ> fst) devnet_hosts)" "map fst devnet_hosts = pl_targets devnet_plan"
proof -
  have l: "length (pl_targets devnet_plan) = 14" by code_simp
  then show "map fst devnet_hosts = pl_targets devnet_plan" by (simp add: devnet_hosts_def)
  then show "distinct (map (tg_name \<circ> fst) devnet_hosts)"
    using valid_plan_names(1) [OF devnet_plan_valid] by (metis map_map)
qed

lemma devnet_tags_read: "read_tags (devnet_tags t) = Inr (tags devnet_plan t)"
  by (simp add: read_tags_def devnet_tags_def check_tag_def tags_def Let_def devnet_network_def sample_network_def)

lemma owned_self: "owned p t (tags p t)"
  by (auto simp: owned_def fmpred_iff mget_def)

lemma lookup_of_map:
  assumes "distinct (map f xs)" and "x \<in> set xs"
  shows "fmlookup (fmap_of_list (map (\<lambda>x. (f x, g x)) xs)) (f x) = Some (g x)"
  using assms by (auto simp: fmlookup_of_list intro!: map_of_is_SomeI simp: comp_def)

lemma devnet_ids: "distinct (map (in_id \<circ> snd) devnet_hosts)" "\<forall>x \<in> set devnet_hosts. in_id (snd x) \<noteq> [] \<and> in_state (snd x) = Some ''running'' \<and> in_private_ip (snd x) \<noteq> []"
proof -
  have "in_id \<circ> snd = nt_instance \<circ> devnet_host" by (auto simp: fun_eq_iff devnet_host_def)
  then show "distinct (map (in_id \<circ> snd) devnet_hosts)" using devnet_hosts_apart by (simp add: apart_def)
  show "\<forall>x \<in> set devnet_hosts. in_id (snd x) \<noteq> [] \<and> in_state (snd x) = Some ''running'' \<and> in_private_ip (snd x) \<noteq> []"
    by (auto simp: devnet_hosts_def devnet_inst_def dest!: set_zip_rightD)
qed

lemma card_of_map: "distinct (map f xs) \<Longrightarrow> fcard (fmdom (fmap_of_list (map (\<lambda>x. (f x, g x)) xs))) = length xs"
proof -
  assume d: "distinct (map f xs)"
  have "fcard (fmdom (fmap_of_list (map (\<lambda>x. (f x, g x)) xs))) = card (set (map f xs))"
    by (simp add: fcard.rep_eq fset_of_list.rep_eq image_image)
  then show ?thesis using distinct_card [OF d] by simp
qed

section \<open>The journal is valid\<close>

lemma devnet_target_cases: "t \<in> set (pl_targets devnet_plan) \<Longrightarrow> \<exists>x \<in> set devnet_hosts. t = fst x"
  using devnet_names(2) by (metis imageE list.set_map)

lemma devnet_nodes: "x \<in> set devnet_hosts \<Longrightarrow> fmlookup (rc_nodes devnet_bare) (tg_name (fst x)) = Some (node_zero\<lparr>nd_phase := ''present'',
    nd_attempted := 1, nd_instance := in_id (snd x), nd_state := ''running'', nd_observed := 1\<rparr>)"
  using lookup_of_map [of "tg_name \<circ> fst" devnet_hosts x] devnet_names(1) by (simp add: devnet_bare_def)

lemma devnet_length [simp]: "length (pl_targets devnet_plan) = 14" "length devnet_hosts = 14"
  using devnet_hosts_roles(4) devnet_names(2) by (metis length_map)+

text \<open>What the deployment, the runtime and the upgrade of a record do not touch.\<close>

definition devnet_computed :: "oprec \<Rightarrow> bool" where
  "devnet_computed rc \<longleftrightarrow> rc_plan rc = devnet_plan \<and> 0 \<le> rc_revision rc \<and> rc_api rc = pl_api devnet_plan \<and> rc_kind rc = ''EC2ProvisionOperation'' \<and>
     rc_health rc = ''unknown'' \<and> rc_created rc \<noteq> 0 \<and> rc_updated rc \<noteq> 0 \<and> rc_phase rc = ''compute-ready'' \<and>
     rc_nodes rc = rc_nodes devnet_bare \<and> rc_boot rc = rc_boot devnet_bare \<and> rc_join rc = None"

lemma devnet_computed_valid:
  assumes "devnet_computed rc"
  shows "validate_compute sample_hash sample_refs devnet_plan rc = Inr ()" "validate_bootstrap devnet_plan rc = Inr ()"
    "validate_join devnet_plan rc = Inr ()"
proof -
  note c = assms [unfolded devnet_computed_def]
  have t: "check_target devnet_plan rc t = Inr ()" if "t \<in> set (pl_targets devnet_plan)" for t
    using devnet_target_cases [OF that] c devnet_nodes devnet_ids(2)
    by (auto simp: check_target_def check_node_def validate_address_def check_retired_def node_zero_def)
  have n: "fcard (fmdom (rc_nodes devnet_bare)) = 14"
    using card_of_map [of "tg_name \<circ> fst" devnet_hosts] devnet_names(1) by (simp add: devnet_bare_def)
  show "validate_compute sample_hash sample_refs devnet_plan rc = Inr ()"
    using c t n devnet_plan_valid by (simp add: validate_compute_iff op_phases_def)
  show "validate_join devnet_plan rc = Inr ()" using c by (simp add: validate_join_def)
  have d: "distinct (map tg_name (pl_targets devnet_plan))" by (rule valid_plan_names(1) [OF devnet_plan_valid])
  define node where "node = \<lparr>bn_phase = ''ready'', bn_observed = 1, bn_docker = ''27.0.0'', bn_compose = ''2.0.0''\<rparr>"
  define nodes where "nodes = fmap_of_list (map (\<lambda>t. (tg_name t, node)) (pl_targets devnet_plan))"
  have b: "rc_boot rc = Some \<lparr>bt_plan = sample_hex, bt_phase = ''hosts-ready'', bt_nodes = nodes\<rparr>"
    using c by (simp add: devnet_bare_def nodes_def node_def)
  have k: "fcard (fmdom nodes) = 14" using card_of_map [OF d, of "\<lambda>_. node"] by (simp add: nodes_def)
  have l: "fmlookup nodes (tg_name t) = Some node" if "t \<in> set (pl_targets devnet_plan)" for t
    using lookup_of_map [OF d that, of "\<lambda>_. node"] by (simp add: nodes_def)
  have v: "matches runtime_version (bn_docker node)" "matches runtime_version (bn_compose node)" "matches hex64 sample_hex"
    unfolding node_def by code_simp+
  have w: "bn_phase node = ''ready''" "bn_observed node \<noteq> 0" by (simp_all add: node_def)
  show "validate_bootstrap devnet_plan rc = Inr ()"
    using l v w by (simp add: validate_bootstrap_def b k each_ok_iff check_boot_target_def)
qed

lemma devnet_chain_nodes: "list_all (\<lambda>t. matches hex64 (devnet_protx (tg_name t))) (pl_targets devnet_plan)"
  by code_simp

lemma devnet_deployment_fields: "dp_plan devnet_deployment = sample_hex" "dp_phase devnet_deployment = ''network-ready''"
  "dp_stage devnet_deployment = ''ready''" "dp_genesis devnet_deployment = sample_hex" "dp_payout devnet_deployment = devnet_address"
  "dp_spork devnet_deployment = devnet_address" "dp_genesis_height devnet_deployment = 1" "dp_observed devnet_deployment = 9"
  "dp_sidecars devnet_deployment = []"
  by (simp_all add: devnet_deployment_def)

lemma devnet_deployment_valid:
  assumes "rc_deployment rc = Some devnet_deployment"
  shows "validate_deployment sample_refs devnet_plan rc = Inr ()"
proof -
  have d: "distinct (map tg_name (pl_targets devnet_plan))" by (rule valid_plan_names(1) [OF devnet_plan_valid])
  have k: "fcard (fmdom (dp_nodes devnet_deployment)) = 14"
    using card_of_map [OF d, of "\<lambda>t. devnet_dep_node (tg_name t)"] by (simp add: devnet_deployment_def)
  have l: "fmlookup (dp_nodes devnet_deployment) (tg_name t) = Some (devnet_dep_node (tg_name t))" if "t \<in> set (pl_targets devnet_plan)" for t
    using lookup_of_map [OF d that, of "\<lambda>t. devnet_dep_node (tg_name t)"] by (simp add: devnet_deployment_def)
  have v: "matches hex64 sample_hex" "matches hex96 (replicate 96 (CHR ''a''))" "matches hex40 (replicate 40 (CHR ''a''))" "matches dash_address devnet_address"
    by code_simp+
  have p: "matches hex64 (devnet_protx (tg_name t))" if "t \<in> set (pl_targets devnet_plan)" for t
    using devnet_chain_nodes that by (simp add: list_all_iff)
  have e: "sample_hex \<noteq> []" "devnet_address \<noteq> []" "devnet_protx x \<noteq> []" for x by (simp_all add: sample_hex_def devnet_address_def devnet_protx_def)
  have t: "check_dep_target devnet_deployment t = Inr ()" if "t \<in> set (pl_targets devnet_plan)" for t
    using l [OF that] v p [OF that] e by (simp add: check_dep_target_def devnet_dep_node_def dep_node_phases_def)
  show ?thesis
    using v e t k assms by (simp add: validate_deployment_def each_ok_iff devnet_deployment_fields dep_phases_def dep_stages_def validate_sidecars_def)
qed

lemma devnet_record_valid: "validate_record sample_hash sample_refs devnet_plan devnet_record = Inr ()"
proof -
  have c: "devnet_computed devnet_record" by (simp add: devnet_computed_def devnet_record_def devnet_bare_def new_record_def)
  have d: "rc_deployment devnet_record = Some devnet_deployment" by (simp add: devnet_record_def)
  have "validate_upgrade sample_refs devnet_plan devnet_record = Inr ()"
    by (simp add: validate_upgrade_def devnet_record_def devnet_bare_def new_record_def)
  then show ?thesis using devnet_computed_valid [OF c] devnet_deployment_valid [OF d] by (simp add: validate_record_def)
qed

lemma devnet_bare_valid: "validate_record sample_hash sample_refs devnet_plan devnet_bare = Inr ()"
proof -
  have c: "devnet_computed devnet_bare" by (simp add: devnet_computed_def devnet_bare_def new_record_def)
  have "validate_upgrade sample_refs devnet_plan devnet_bare = Inr ()" "validate_deployment sample_refs devnet_plan devnet_bare = Inr ()"
    by (simp_all add: validate_upgrade_def validate_deployment_def devnet_bare_def new_record_def)
  then show ?thesis using devnet_computed_valid [OF c] by (simp add: validate_record_def)
qed

lemma lookup_fold:
  "distinct (map k xs) \<Longrightarrow> x \<in> set xs \<Longrightarrow> fmlookup (fold (\<lambda>x. fmupd (k x) (g x)) xs m) (k x) = Some (g x)"
proof (induction xs arbitrary: m rule: rev_induct)
  case (snoc y ys)
  then show ?case by (cases "x = y") (auto simp: rev_image_eqI)
qed simp

lemma machine_parts [simp]: "in_id (devnet_machine x) = in_id (snd x)" "in_state (devnet_machine x) = in_state (snd x)"
  "in_public_ip (devnet_machine x) = in_public_ip (snd x)" "in_private_ip (devnet_machine x) = in_private_ip (snd x)"
  by (simp_all add: devnet_machine_def split: prod.splits)

lemma machine_found:
  assumes "x \<in> set devnet_hosts" and "in_id (snd x) \<notin> set ids" and "fmlookup live (tg_name (fst x)) = None"
  shows "check_inst sample_hash devnet_plan (ids, live) (devnet_machine x) =
    Inr (in_id (snd x) # ids, fmupd (tg_name (fst x)) (devnet_machine x) live)"
proof -
  have t: "fst x \<in> set (pl_targets devnet_plan)" using assms(1) devnet_names(2) by (metis image_eqI list.set_map)
  have f: "find_target devnet_plan (tg_name (fst x)) = Some (fst x)"
    using find_target_eq [OF valid_plan_names(1) [OF devnet_plan_valid]] t by blast
  have n: "mget (tags devnet_plan (fst x)) ''dashnet:node'' = tg_name (fst x)"
    by (simp add: tags_def Let_def mget_def devnet_network_def sample_network_def)
  have r: "read_tags (in_tags (devnet_machine x)) = Inr (tags devnet_plan (fst x))"
    by (simp add: devnet_machine_def devnet_tags_read split: prod.splits)
  have l: "same_launch sample_hash devnet_plan (fst x) (devnet_machine x)" "same_groups devnet_plan (devnet_machine x)"
    "in_http_tokens (devnet_machine x) = Some ''required''"
    by (simp_all add: same_launch_def same_groups_def devnet_machine_def list_all_iff devnet_footprint_def sample_footprint_def split: prod.splits)
  show ?thesis using assms devnet_ids(2) t f by (simp add: check_inst_def r n l owned_self)
qed

lemma machines_found:
  assumes "set xs \<subseteq> set devnet_hosts" and "distinct (map (in_id \<circ> snd) xs)" and "distinct (map (tg_name \<circ> fst) xs)"
    and "\<forall>x \<in> set xs. in_id (snd x) \<notin> set ids \<and> fmlookup live (tg_name (fst x)) = None"
  shows "\<exists>ids'. scan_ok (check_inst sample_hash devnet_plan) (ids, live) (map devnet_machine xs) =
    Inr (ids', fold (\<lambda>x. fmupd (tg_name (fst x)) (devnet_machine x)) xs live)"
  using assms
proof (induction xs arbitrary: ids live)
  case (Cons x xs)
  let ?ids = "in_id (snd x) # ids" and ?live = "fmupd (tg_name (fst x)) (devnet_machine x) live"
  have c: "check_inst sample_hash devnet_plan (ids, live) (devnet_machine x) = Inr (?ids, ?live)"
    using Cons.prems by (intro machine_found) auto
  have ne: "in_id (snd y) \<noteq> in_id (snd x) \<and> tg_name (fst y) \<noteq> tg_name (fst x)" if "y \<in> set xs" for y
    using Cons.prems(2,3) that by (simp add: image_iff) metis
  have "\<forall>y \<in> set xs. in_id (snd y) \<notin> set ?ids \<and> fmlookup ?live (tg_name (fst y)) = None"
  proof
    fix y assume y: "y \<in> set xs"
    show "in_id (snd y) \<notin> set ?ids \<and> fmlookup ?live (tg_name (fst y)) = None" using ne [OF y] Cons.prems(4) y by (auto simp: eq_commute)
  qed
  then obtain ids' where "scan_ok (check_inst sample_hash devnet_plan) (?ids, ?live) (map devnet_machine xs) =
      Inr (ids', fold (\<lambda>x. fmupd (tg_name (fst x)) (devnet_machine x)) xs ?live)"
    using Cons.IH [of ?ids ?live] Cons.prems(1-3) by auto
  then show ?case using c by simp
qed simp

lemma devnet_discovered: "\<exists>ids. scan_ok (check_reservation sample_hash devnet_plan) ([], fmempty) (pg_reservations devnet_page) = Inr (ids, devnet_found)"
proof -
  obtain ids where "scan_ok (check_inst sample_hash devnet_plan) ([], fmempty) (map devnet_machine devnet_hosts) = Inr (ids, devnet_found)"
    using machines_found [of devnet_hosts "[]" fmempty] devnet_ids(1) devnet_names(1) by (auto simp: devnet_found_def)
  then show ?thesis by (simp add: devnet_page_def check_reservation_def)
qed

lemma devnet_at: "x \<in> set devnet_hosts \<Longrightarrow> fmlookup devnet_found (tg_name (fst x)) = Some (devnet_machine x)"
  using lookup_fold [of "tg_name \<circ> fst" devnet_hosts x devnet_machine fmempty] devnet_names(1) by (simp add: devnet_found_def)

lemma devnet_home: "x \<in> set devnet_hosts \<Longrightarrow> at_home devnet_lplan devnet_found (devnet_ntarget x)"
  using devnet_at [of x] devnet_ids(2)
  by (cases x) (auto simp: at_home_def live_addresses_def devnet_ntarget_def devnet_host_def devnet_access_def vpc_address_def)

lemma devnet_running: "x \<in> set devnet_hosts \<Longrightarrow> rc_nodes rc = rc_nodes devnet_bare \<Longrightarrow> running_target rc devnet_found (fst x)"
  using devnet_at [of x] devnet_ids(2) lookup_of_map [of "tg_name \<circ> fst" devnet_hosts x "\<lambda>x. node_zero\<lparr>nd_phase := ''present'',
      nd_attempted := 1, nd_instance := in_id (snd x), nd_state := ''running'', nd_observed := 1\<rparr>", OF devnet_names(1)]
  by (simp add: running_target_def node_at_def devnet_bare_def)

text \<open>A journal state of the sample devnet: a valid record over the live hosts.\<close>

definition devnet_state :: "oprec \<Rightarrow> bool" where
  "devnet_state rc \<longleftrightarrow> validate_record sample_hash sample_refs devnet_plan rc = Inr () \<and> rc_phase rc = ''compute-ready'' \<and>
     rc_nodes rc = rc_nodes devnet_bare"

abbreviation devnet_listed :: "nrequest freq \<times> nobservation freply" where
  "devnet_listed \<equiv> (FCloud (QInstances []), WCloud (RPage (Inr (Some devnet_page))))"

lemma foreach_nothing: "(\<And>x. x \<in> set xs \<Longrightarrow> f x = ret ()) \<Longrightarrow> foreach xs f = ret ()"
  by (induction xs) (auto simp: bnd_def ret_def)

lemma devnet_cloud_targets:
  assumes "devnet_state rc" and "\<And>h. answer (env w) h (FCloud (QInstances [])) = WCloud (RPage (Inr (Some devnet_page)))"
  shows "on_cloud (running_targets sample_hash sample_refs 5 devnet_plan rc) w =
    (Inr devnet_found, w\<lparr>hist := (FCloud (QInstances []), WCloud (RPage (Inr (Some devnet_page)))) # hist w\<rparr>)"
proof -
  have t: "\<exists>x \<in> set devnet_hosts. t = fst x" if "t \<in> set (pl_targets devnet_plan)" for t
    using that devnet_names(2) by (metis imageE list.set_map)
  have r: "foreach (pl_targets devnet_plan) (\<lambda>t. reject_if (\<not> running_target rc devnet_found t) (e t)) = ret ()" for e
    using t devnet_running assms(1) by (intro foreach_nothing) (fastforce simp: reject_if_def devnet_state_def)
  obtain ids where d: "scan_ok (check_reservation sample_hash devnet_plan) ([], fmempty) (pg_reservations devnet_page) = Inr (ids, devnet_found)"
    using devnet_discovered by blast
  have a: "answer (env (to_pworld w)) hh (QInstances []) = RPage (Inr (Some devnet_page))" for hh
    using assms(2) by (simp add: to_pworld_def cloud_env_def)
  have n: "pg_next devnet_page = []" by (simp add: devnet_page_def)
  have k: "(5::nat) = Suc 4" by simp
  have o: "hist (to_pworld w) = []" by (simp add: to_pworld_def)
  have "discover sample_hash (Suc k) devnet_plan (to_pworld w) = (Inr devnet_found,
      (to_pworld w)\<lparr>hist := [(QInstances [], RPage (Inr (Some devnet_page)))]\<rparr>)" for k
    using d by (simp add: discover_def wrap_def call_def oper_defs a n o Let_def)
  then have "discover sample_hash 5 devnet_plan (to_pworld w) = (Inr devnet_found,
      (to_pworld w)\<lparr>hist := [(QInstances [], RPage (Inr (Some devnet_page)))]\<rparr>)"
    by (simp only: k)
  then have "running_targets sample_hash sample_refs 5 devnet_plan rc (to_pworld w) = (Inr devnet_found,
      (to_pworld w)\<lparr>hist := [(QInstances [], RPage (Inr (Some devnet_page)))]\<rparr>)"
    using assms(1) by (simp add: running_targets_def devnet_state_def run_steps r del: foreach.simps)
  then show ?thesis by (simp add: on_cloud_def to_pworld_def)
qed

lemma devnet_live_scope_at:
  assumes "devnet_state rc" and "\<And>h. answer (env w) h (FCloud (QInstances [])) = WCloud (RPage (Inr (Some devnet_page)))"
  shows "live_scope devnet_runner devnet_lplan rc w = (Inr (), w\<lparr>hist := devnet_listed # hist w\<rparr>)"
proof -
  have h: "foreach devnet_ntargets (\<lambda>t. reject_if (\<not> at_home devnet_lplan devnet_found t) (e t)) = ret ()" for e
    using devnet_home by (intro foreach_nothing) (auto simp: reject_if_def devnet_ntargets_def)
  have p: "cr_pages devnet_runner = 5" "cr_hash devnet_runner = sample_hash" "cr_refs devnet_runner = sample_refs" by (simp_all add: devnet_runner_def)
  show ?thesis by (simp add: live_scope_def p devnet_cloud_targets [OF assms] h run_steps)
qed

lemma devnet_live_scope:
  assumes "devnet_state rc" and "env w = devnet_env rc0"
  shows "live_scope devnet_runner devnet_lplan rc w = (Inr (), w\<lparr>hist := devnet_listed # hist w\<rparr>)"
  by (rule devnet_live_scope_at [OF assms(1)]) (use assms(2) in \<open>simp add: devnet_env_def\<close>)

section \<open>A healthy fleet\<close>

definition good_sample :: "ntarget \<Rightarrow> nat \<Rightarrow> nat \<Rightarrow> csample" where
  "good_sample t n m = \<lparr>cs_core = Some (devnet_core (nt_name t) (word_of_nat n)), cs_platform = (if nt_role t = ''validator''
     then Some (devnet_platform (nt_name t) (word_of_nat m)) else None), cs_problems = []\<rparr>"

lemma run_fcall: "fcall q f w = (f (answer (env w) (hist w) q), w\<lparr>hist := (q, answer (env w) (hist w) q) # hist w\<rparr>)"
  by (simp add: oper_defs fcall_def Let_def)

lemma run_ask: "ask q w = (Inr (answer (env w) (hist w) q), w\<lparr>hist := (q, answer (env w) (hist w) q) # hist w\<rparr>)"
  by (simp add: oper_defs Let_def)

lemma run_ctx_done: "ctx_done w = (Inr (cancelled (env w) (hist w)), w)"
  by (simp add: oper_defs)

lemma devnet_answers [simp]:
  "answer (devnet_env rc0) h (FHost q) = WSeen (Inr (devnet_answer (length h) q))" "answer (devnet_env rc0) h FNext = WNext 0"
  "answer (devnet_env rc0) h (FWait d) = WDone (Inr ())" "cancelled (devnet_env rc0) h \<longleftrightarrow> False"
  "clock (devnet_env rc0) h = 100 + int (length h)" "answer (devnet_env rc0) h (FRead p) = WStored (Inr (rc0, []))"
  by (simp_all add: devnet_env_def)

lemma run_sample_target:
  assumes "env w = devnet_env rc0"
  shows "\<exists>new n m. sample_target r p rc ref t w = (Inr (good_sample t n m), w\<lparr>hist := new @ hist w\<rparr>) \<and> 0 < length new \<and> length new \<le> 3 \<and>
    length (hist w) \<le> n \<and> n < length new + length (hist w) \<and> length (hist w) \<le> m \<and> m < length new + length (hist w)"
proof (cases "nt_role t = ''validator''")
  case True
  let ?h1 = "(FNext, WNext 0) # hist w"
  let ?q = "runtime_request (cr_refs r) p rc t ''core-status''"
  let ?h2 = "(FHost ?q, WSeen (Inr (devnet_answer (length ?h1) ?q))) # ?h1"
  let ?p = "chain_request_at r p rc ref t"
  show ?thesis
    using assms True
    by (intro exI [of _ "[(FHost ?p, WSeen (Inr (devnet_answer (length ?h2) ?p))), (FHost ?q, WSeen (Inr (devnet_answer (length ?h1) ?q))), (FNext, WNext 0)]"]
        exI [of _ "length ?h1"] exI [of _ "length ?h2"])
      (simp add: sample_target_def sample_core_def sample_platform_def run_steps run_fcall run_ask run_ctx_done good_sample_def devnet_answer_def Let_def no_sample_def)
next
  case False
  let ?h1 = "(FNext, WNext 0) # hist w"
  let ?q = "runtime_request (cr_refs r) p rc t ''core-status''"
  show ?thesis
    using assms False
    by (intro exI [of _ "[(FHost ?q, WSeen (Inr (devnet_answer (length ?h1) ?q))), (FNext, WNext 0)]"] exI [of _ "length ?h1"] exI [of _ "length ?h1"])
      (simp add: sample_target_def sample_core_def run_steps run_fcall run_ask run_ctx_done good_sample_def devnet_answer_def Let_def no_sample_def)
qed

definition good_samples :: "ntarget list \<Rightarrow> nat \<Rightarrow> nat \<Rightarrow> (string, csample) fmap \<Rightarrow> bool" where
  "good_samples ts lo hi m \<longleftrightarrow> (\<forall>t \<in> set ts. \<exists>i j. lo \<le> i \<and> i < hi \<and> lo \<le> j \<and> j < hi \<and> sample_at m (nt_name t) = good_sample t i j)"

lemma good_samples_mono: "good_samples ts lo' hi' m \<Longrightarrow> lo \<le> lo' \<Longrightarrow> hi' \<le> hi \<Longrightarrow> good_samples ts lo hi m"
  unfolding good_samples_def by (meson le_trans less_le_trans)

lemma good_samples_Cons: "good_samples ts lo hi m \<Longrightarrow> sample_at m (nt_name t) = good_sample t i j \<Longrightarrow> lo \<le> i \<Longrightarrow> i < hi \<Longrightarrow> lo \<le> j \<Longrightarrow>
    j < hi \<Longrightarrow> good_samples (t # ts) lo hi m"
  unfolding good_samples_def by auto

lemma run_sample_targets:
  assumes "env w = devnet_env rc0" and "distinct (map nt_name ts)"
  shows "\<exists>new M. sample_targets r p rc ref ts m w = (Inr M, w\<lparr>hist := new @ hist w\<rparr>) \<and> length new \<le> 3 * length ts \<and>
    good_samples ts (length (hist w)) (length new + length (hist w)) M \<and> (\<forall>x. x \<notin> nt_name ` set ts \<longrightarrow> sample_at M x = sample_at m x)"
  using assms
proof (induction ts arbitrary: m w)
  case Nil
  then show ?case by (intro exI [of _ "[]"]) (simp add: run_steps good_samples_def)
next
  case (Cons t ts)
  obtain new i j where one: "sample_target r p rc ref t w = (Inr (good_sample t i j), w\<lparr>hist := new @ hist w\<rparr>)" "length new \<le> 3"
    "length (hist w) \<le> i" "i < length new + length (hist w)" "length (hist w) \<le> j" "j < length new + length (hist w)"
    using run_sample_target [OF Cons.prems(1)] by blast
  let ?w = "w\<lparr>hist := new @ hist w\<rparr>" and ?m = "fmupd (nt_name t) (good_sample t i j) m"
  have "env ?w = devnet_env rc0" "distinct (map nt_name ts)" using Cons.prems by simp_all
  from Cons.IH [OF this, of ?m] obtain new2 M where rest: "sample_targets r p rc ref ts ?m ?w = (Inr M, ?w\<lparr>hist := new2 @ hist ?w\<rparr>)"
    "length new2 \<le> 3 * length ts" "good_samples ts (length (hist ?w)) (length new2 + length (hist ?w)) M"
    "\<forall>x. x \<notin> nt_name ` set ts \<longrightarrow> sample_at M x = sample_at ?m x" by blast
  have "sample_at M (nt_name t) = good_sample t i j" using rest(4) Cons.prems(2) by (simp add: sample_at_def)
  then have "good_samples (t # ts) (length (hist w)) (length (new2 @ new) + length (hist w)) M"
    using one(3-6) by (intro good_samples_Cons [of _ _ _ _ _ i j] good_samples_mono [OF rest(3)]) auto
  moreover have "\<forall>x. x \<notin> nt_name ` set (t # ts) \<longrightarrow> sample_at M x = sample_at m x"
    using rest(4) by (simp add: sample_at_def)
  ultimately show ?case using one(1,2) rest(1,2)
    by (intro exI [of _ "new2 @ new"] exI [of _ M]) (simp add: run_steps)
qed

lemma sint_nat: "n < 2 ^ 62 \<Longrightarrow> sint (word_of_nat n :: i64) = int n"
proof -
  assume n: "n < 2 ^ 62"
  have "sint (word_of_int (int n) :: i64) = signed_take_bit 63 (int n)" by (rule sint_of_int)
  also have "\<dots> = int n" using n by (intro signed_take_bit_int_eq_self) auto
  finally show ?thesis by simp
qed

lemma sint_nat_minus: "n < 2 ^ 62 \<Longrightarrow> k < 2 ^ 62 \<Longrightarrow> sint (word_of_nat n - word_of_nat k :: i64) = int n - int k"
proof -
  assume n: "n < 2 ^ 62" "k < 2 ^ 62"
  have "sint (word_of_int (int n - int k) :: i64) = signed_take_bit 63 (int n - int k)" by (rule sint_of_int)
  also have "\<dots> = int n - int k" using n by (intro signed_take_bit_int_eq_self) auto
  finally show ?thesis by simp
qed

lemma sorted_of_fmap: "(c, i) \<in> set (sorted_list_of_fmap m) \<Longrightarrow> fmlookup m c = Some i"
  by (auto simp: sorted_list_of_fmap_def fmlookup_dom_iff)

text \<open>A deployment whose nodes the sample hosts answer for.\<close>

definition good_deployment :: "deployment \<Rightarrow> bool" where
  "good_deployment d \<longleftrightarrow> dp_genesis d = sample_hex \<and> (\<forall>t \<in> set devnet_ntargets. nt_role t = ''validator'' \<longrightarrow>
     dn_protx (dep_at d (nt_name t)) = devnet_protx (nt_name t) \<and> dn_node_id (dep_at d (nt_name t)) = replicate 40 (CHR ''a''))"

lemma devnet_core_healthy:
  assumes "1 \<le> n" and "n < 2 ^ 62" and "nt_role t = ''validator'' \<longrightarrow> dn_protx dn = devnet_protx (nt_name t)"
  shows "core_healthy t dn (Some (devnet_core (nt_name t) (word_of_nat n))) m = Inr ()"
proof -
  have "sint (word_of_nat n - 12 :: i64) = int n - 12" using sint_nat_minus [of n 12] assms by simp
  then show ?thesis using assms sint_nat [of n]
    by (simp add: core_healthy_def devnet_core_def quorum_at_def equal_fold_def sample_hex_def)
qed

lemma devnet_core_progress:
  assumes "n < m" and "m < 2 ^ 62"
  shows "core_progress sample_hex (Some (devnet_core x (word_of_nat n))) (Some (devnet_core x (word_of_nat m))) = []"
  using assms by (simp add: core_progress_def devnet_core_def problem_if_def sint_nat)

lemma devnet_platform_problems:
  assumes "n < m" and "m < 2 ^ 62" and "dn_protx dn = devnet_protx x" and "dn_node_id dn = replicate 40 (CHR ''a'')"
    and "c \<in> {[], sample_hex}" and "lp_platform_chain p = ''dash-devnet-a''"
  shows "platform_problems p dn (Some (devnet_platform x (word_of_nat n))) (Some (devnet_platform x (word_of_nat m))) c = ([], sample_hex)"
proof -
  have "sint (word_of_nat m - 3 :: i64) = int m - 3" using sint_nat_minus [of m 3] assms by simp
  moreover have "platform_changes (devnet_platform x k) (devnet_platform x k') = []" for k k'
    using sorted_of_fmap by (fastforce simp: platform_changes_def devnet_platform_def platform_restarts_def mget_def)
  moreover have "mget (fmap_of_list (map (\<lambda>c. (c, sample_hex)) services)) c \<noteq> []" if "c \<in> set services" for c
    using that by (auto simp: mget_def services_def sample_hex_def)
  ultimately show ?thesis using assms
    by (auto simp: platform_problems_def platform_identity_def devnet_platform_def problem_if_def sint_nat equal_fold_def list_ex_iff sample_hex_def)
qed

lemma devnet_heights: "co_height (devnet_core x n) = n" "pt_height (devnet_platform x n) = n"
  by (simp_all add: devnet_core_def devnet_platform_def)

lemma judge_good:
  assumes "good_samples devnet_ntargets lo hi a" and "good_samples devnet_ntargets lo' hi' b" and "hi \<le> lo'" and "hi' < 2 ^ 62"
    and "good_deployment d" and "c \<in> {[], sample_hex}" and t: "t \<in> set devnet_ntargets"
  shows "\<exists>n c'. judge_target devnet_lplan d a b (nodes, [], c) t = (fmupd (nt_name t) n nodes, [], c') \<and> c' \<in> {[], sample_hex} \<and>
    lo' \<le> unat (cn_core_height n) \<and> unat (cn_core_height n) < hi' \<and>
    (nt_role t = ''validator'' \<longrightarrow> lo' \<le> unat (cn_platform_height n) \<and> unat (cn_platform_height n) < hi')"
proof -
  obtain i j where A: "i < hi" "j < hi" "sample_at a (nt_name t) = good_sample t i j" using assms(1) t by (auto simp: good_samples_def)
  obtain k l where B: "lo' \<le> k" "k < hi'" "lo' \<le> l" "l < hi'" "sample_at b (nt_name t) = good_sample t k l"
    using assms(2) t by (auto simp: good_samples_def)
  have bound: "i < k" "j < l" "1 \<le> k" "k < 2 ^ 62" "l < 2 ^ 62" using A B assms(3,4) by auto
  have dep: "nt_role t = ''validator'' \<longrightarrow> dn_protx (dep_at d (nt_name t)) = devnet_protx (nt_name t) \<and>
      dn_node_id (dep_at d (nt_name t)) = replicate 40 (CHR ''a'')" "dp_genesis d = sample_hex"
    using assms(5) t by (auto simp: good_deployment_def)
  have h: "core_healthy t (dep_at d (nt_name t)) (Some (devnet_core (nt_name t) (word_of_nat k))) m = Inr ()" for m
    using dep by (intro devnet_core_healthy bound) auto
  have pc: "lp_platform_chain devnet_lplan = ''dash-devnet-a''" by (simp add: devnet_lplan_def)
  have u: "unat (word_of_nat k :: i64) = k" "unat (word_of_nat l :: i64) = l" using bound by (simp_all add: unat_of_nat)
  show ?thesis
  proof (cases "nt_role t = ''validator''")
    case True
    have "platform_problems devnet_lplan (dep_at d (nt_name t)) (Some (devnet_platform (nt_name t) (word_of_nat j)))
        (Some (devnet_platform (nt_name t) (word_of_nat l))) c = ([], sample_hex)"
      using dep True by (intro devnet_platform_problems bound assms(6) pc) auto
    then show ?thesis
      using True h A(3) B dep(2) u devnet_core_progress [OF bound(1,4)]
      by (simp add: judge_target_def Let_def good_sample_def devnet_heights) (intro exI conjI, rule refl, simp_all)
  next
    case False
    then show ?thesis
      using h A(3) B dep(2) u devnet_core_progress [OF bound(1,4)] assms(6)
      by (simp add: judge_target_def Let_def good_sample_def devnet_heights) (intro exI conjI, rule refl, simp_all)
  qed
qed

lemma judge_all_good:
  assumes "good_samples devnet_ntargets lo hi a" and "good_samples devnet_ntargets lo' hi' b" and "hi \<le> lo'" and "hi' < 2 ^ 62"
    and "good_deployment d" and "c \<in> {[], sample_hex}" and "set ts \<subseteq> set devnet_ntargets" and "distinct (map nt_name ts)"
  shows "\<exists>nodes' c'. foldl (judge_target devnet_lplan d a b) (nodes, [], c) ts = (nodes', [], c') \<and>
    (\<forall>x. x \<notin> nt_name ` set ts \<longrightarrow> fmlookup nodes' x = fmlookup nodes x) \<and>
    (\<forall>t \<in> set ts. \<exists>n. fmlookup nodes' (nt_name t) = Some n \<and> lo' \<le> unat (cn_core_height n) \<and> unat (cn_core_height n) < hi' \<and>
       (nt_role t = ''validator'' \<longrightarrow> lo' \<le> unat (cn_platform_height n) \<and> unat (cn_platform_height n) < hi'))"
  using assms(6-)
proof (induction ts arbitrary: nodes c)
  case (Cons t ts)
  obtain n c1 where one: "judge_target devnet_lplan d a b (nodes, [], c) t = (fmupd (nt_name t) n nodes, [], c1)" "c1 \<in> {[], sample_hex}"
    "lo' \<le> unat (cn_core_height n)" "unat (cn_core_height n) < hi'"
    "nt_role t = ''validator'' \<longrightarrow> lo' \<le> unat (cn_platform_height n) \<and> unat (cn_platform_height n) < hi'"
    using judge_good [OF assms(1-5) Cons.prems(1), of t nodes] Cons.prems(2) by auto
  obtain nodes' c' where rest: "foldl (judge_target devnet_lplan d a b) (fmupd (nt_name t) n nodes, [], c1) ts = (nodes', [], c')"
    "\<forall>x. x \<notin> nt_name ` set ts \<longrightarrow> fmlookup nodes' x = fmlookup (fmupd (nt_name t) n nodes) x"
    "\<forall>t \<in> set ts. \<exists>n. fmlookup nodes' (nt_name t) = Some n \<and> lo' \<le> unat (cn_core_height n) \<and> unat (cn_core_height n) < hi' \<and>
       (nt_role t = ''validator'' \<longrightarrow> lo' \<le> unat (cn_platform_height n) \<and> unat (cn_platform_height n) < hi')"
    using Cons.IH [OF one(2), of "fmupd (nt_name t) n nodes"] Cons.prems by auto
  have "fmlookup nodes' (nt_name t) = Some n" using rest(2) Cons.prems(3) by simp
  then show ?case using one rest by auto
qed simp

lemma devnet_ntarget_names: "distinct (map nt_name devnet_ntargets)"
  using devnet_names(1) by (simp add: devnet_ntargets_def comp_def)

lemma devnet_account_at:
  assumes "\<And>h. answer (env w) h (FCloud QIdentity) = WCloud (RText (Inr (Some ''123456789012'')))"
  shows "on_cloud (verify_account ''123456789012'') w =
    (Inr (), w\<lparr>hist := (FCloud QIdentity, WCloud (RText (Inr (Some ''123456789012'')))) # hist w\<rparr>)"
proof -
  have "answer (env (to_pworld w)) [] QIdentity = RText (Inr (Some ''123456789012''))" "hist (to_pworld w) = []"
    using assms by (simp_all add: to_pworld_def cloud_env_def)
  then have "verify_account ''123456789012'' (to_pworld w) =
      (Inr (), (to_pworld w)\<lparr>hist := [(QIdentity, RText (Inr (Some ''123456789012'')))]\<rparr>)"
    by (simp add: verify_account_def wrap_def call_def run_steps run_ask Let_def)
  then show ?thesis by (simp add: on_cloud_def to_pworld_def)
qed

lemma devnet_account:
  assumes "env w = devnet_env rc0"
  shows "on_cloud (verify_account ''123456789012'') w =
    (Inr (), w\<lparr>hist := (FCloud QIdentity, WCloud (RText (Inr (Some ''123456789012'')))) # hist w\<rparr>)"
  by (rule devnet_account_at) (use assms in \<open>simp add: devnet_env_def\<close>)

text \<open>A healthy check of the sample fleet.\<close>

lemma devnet_healthy:
  assumes "devnet_state rc" and "rc_deployment rc = Some d" and "dp_plan d = sample_hex" and "good_deployment d"
    and "effective_images sample_refs devnet_lplan rc = Inr images"
    and "env w = devnet_env rc0" and "length (hist w) < 2 ^ 61"
  shows "\<exists>new h. chain_doctor devnet_runner devnet_lplan rc w = (Inr h, w\<lparr>hist := new @ hist w\<rparr>) \<and> length new < 100 \<and> cl_healthy h \<and>
    cl_observed h = 100 + int (length new + length (hist w)) \<and>
    (\<forall>t \<in> set devnet_ntargets. \<exists>n. fmlookup (cl_nodes h) (nt_name t) = Some n \<and> 1 \<le> unat (cn_core_height n) \<and> unat (cn_core_height n) < 2 ^ 62 \<and>
       (nt_role t = ''validator'' \<longrightarrow> 1 \<le> unat (cn_platform_height n) \<and> unat (cn_platform_height n) < 2 ^ 62))"
proof -
  let ?r = devnet_runner and ?p = devnet_lplan
  have n: "distinct (map nt_name devnet_ntargets)" "length devnet_ntargets = 14"
    using devnet_ntarget_names by (simp_all add: devnet_ntargets_def)
  have chk: "check_doctor ?r ?p rc = Inr ()"
    using assms(1-3,5) devnet_lplan_valid by (simp add: check_doctor_def devnet_runner_def devnet_state_def)
  let ?id = "(FCloud QIdentity, WCloud (RText (Inr (Some ''123456789012''))))"
  let ?w1 = "w\<lparr>hist := devnet_listed # ?id # hist w\<rparr>"
  have e1: "env ?w1 = devnet_env rc0" using assms(6) by simp
  obtain h1 a where one: "sample ?r ?p rc 0 ?w1 = (Inr a, ?w1\<lparr>hist := h1 @ hist ?w1\<rparr>)" "length h1 \<le> 42"
    "good_samples devnet_ntargets (length (hist ?w1)) (length h1 + length (hist ?w1)) a"
    using run_sample_targets [OF e1 n(1), of ?r ?p rc 0 fmempty] n(2) by (auto simp: sample_def)
  let ?w2 = "?w1\<lparr>hist := (FWait (observation_window ?r ?p), WDone (Inr ())) # h1 @ hist ?w1\<rparr>"
  have e2: "env ?w2 = devnet_env rc0" using assms(6) by simp
  obtain h2 b where two: "sample ?r ?p rc (reference_height ?p a) ?w2 = (Inr b, ?w2\<lparr>hist := h2 @ hist ?w2\<rparr>)" "length h2 \<le> 42"
    "good_samples devnet_ntargets (length (hist ?w2)) (length h2 + length (hist ?w2)) b"
    using run_sample_targets [OF e2 n(1), of ?r ?p rc "reference_height ?p a" fmempty] n(2) by (auto simp: sample_def)
  let ?w3 = "?w2\<lparr>hist := devnet_listed # h2 @ hist ?w2\<rparr>"
  let ?h = "judge_chain ?r ?p rc a b (100 + int (length (hist ?w3)))"
  have bound: "length h2 + length (hist ?w2) < 2 ^ 62" using assms(7) one(2) two(2) by simp
  have hi: "length h1 + length (hist ?w1) \<le> length (hist ?w2)" by simp
  obtain nodes c where j: "foldl (judge_target ?p d a b) (fmempty, [], []) devnet_ntargets = (nodes, [], c)"
    "\<forall>t \<in> set devnet_ntargets. \<exists>n. fmlookup nodes (nt_name t) = Some n \<and> length (hist ?w2) \<le> unat (cn_core_height n) \<and>
       unat (cn_core_height n) < length h2 + length (hist ?w2) \<and>
       (nt_role t = ''validator'' \<longrightarrow> length (hist ?w2) \<le> unat (cn_platform_height n) \<and> unat (cn_platform_height n) < length h2 + length (hist ?w2))"
    using judge_all_good [OF one(3) two(3) hi bound assms(4), of "[]" devnet_ntargets fmempty] n(1) by auto
  have jc: "?h = \<lparr>cl_network = md_name (nw_metadata devnet_network), cl_plan = sample_hex, cl_observed = 100 + int (length (hist ?w3)),
      cl_healthy = True, cl_nodes = nodes, cl_problems = [], cl_window = observation_window ?r ?p\<rparr>"
    using j(1) assms(2) by (simp add: judge_chain_def deployment_of_def)
  have look: "second_look ?r ?p rc a ?w2 = (Inr ?h, ?w3)"
    using two(1) devnet_live_scope [OF assms(1), of "?w2\<lparr>hist := h2 @ hist ?w2\<rparr>" rc0] e2
    by (simp add: second_look_def run_steps now_def)
  have run: "chain_doctor ?r ?p rc w = (Inr ?h, ?w3)"
    using chk one(1) devnet_account [OF assms(6)] look assms(6)
      devnet_live_scope [OF assms(1), of "w\<lparr>hist := ?id # hist w\<rparr>" rc0]
    by (simp add: chain_doctor_def run_steps run_fcall)
  let ?new = "devnet_listed # h2 @ (FWait (observation_window ?r ?p), WDone (Inr ())) # h1 @ [devnet_listed, ?id]"
  show ?thesis
  proof (intro exI conjI)
    show "chain_doctor ?r ?p rc w = (Inr ?h, w\<lparr>hist := ?new @ hist w\<rparr>)" using run by simp
    show "length ?new < 100" using one(2) two(2) by simp
    show "cl_healthy ?h" "cl_observed ?h = 100 + int (length ?new + length (hist w))" unfolding jc by simp_all
    show "\<forall>t \<in> set devnet_ntargets. \<exists>n. fmlookup (cl_nodes ?h) (nt_name t) = Some n \<and> 1 \<le> unat (cn_core_height n) \<and> unat (cn_core_height n) < 2 ^ 62 \<and>
       (nt_role t = ''validator'' \<longrightarrow> 1 \<le> unat (cn_platform_height n) \<and> unat (cn_platform_height n) < 2 ^ 62)"
      unfolding jc using j(2) bound by fastforce
  qed
qed

lemma devnet_good: "good_deployment devnet_deployment"
proof -
  have d: "distinct (map tg_name (pl_targets devnet_plan))" by (rule valid_plan_names(1) [OF devnet_plan_valid])
  have "fmlookup (dp_nodes devnet_deployment) (tg_name t) = Some (devnet_dep_node (tg_name t))" if "t \<in> set (pl_targets devnet_plan)" for t
    using lookup_of_map [OF d that, of "\<lambda>t. devnet_dep_node (tg_name t)"] by (simp add: devnet_deployment_def)
  moreover have "fst x \<in> set (pl_targets devnet_plan)" if "x \<in> set devnet_hosts" for x
    using that devnet_names(2) by (metis image_eqI list.set_map)
  ultimately show ?thesis
    by (auto simp: good_deployment_def devnet_deployment_fields devnet_ntargets_def dep_at_def devnet_dep_node_def)
qed

lemma devnet_record_state: "devnet_state devnet_record"
  using devnet_record_valid by (simp add: devnet_state_def devnet_record_def devnet_bare_def)

theorem chain_health_certifies_witness:
  "\<exists>h w' t. chain_doctor devnet_runner devnet_lplan devnet_record (devnet_world devnet_record) = (Inr h, w') \<and> cl_healthy h \<and>
     t \<in> set (lp_targets devnet_lplan) \<and> (\<exists>c1 c2. core_sound devnet_lplan devnet_deployment t c1 c2)"
proof -
  have "effective_images sample_refs devnet_lplan devnet_record = Inr (plan_images devnet_lplan)"
    by (simp add: effective_images_def devnet_record_def devnet_bare_def new_record_def)
  then obtain new h where d: "chain_doctor devnet_runner devnet_lplan devnet_record (devnet_world devnet_record) =
      (Inr h, (devnet_world devnet_record)\<lparr>hist := new @ hist (devnet_world devnet_record)\<rparr>)" "cl_healthy h"
    using devnet_healthy [OF devnet_record_state _ _ devnet_good, of "plan_images devnet_lplan" "devnet_world devnet_record" devnet_record]
    by (auto simp: devnet_record_def devnet_deployment_fields devnet_world_def)
  have "length (lp_targets devnet_lplan) = 14" by (simp add: devnet_ntargets_def)
  then have t: "lp_targets devnet_lplan ! 0 \<in> set (lp_targets devnet_lplan)" by (intro nth_mem) simp
  have "deployment_of devnet_record = devnet_deployment" by (simp add: deployment_of_def devnet_record_def)
  then show ?thesis using chain_health_certifies [OF d] d t by metis
qed

end
