(* ===== verification/Chain_Deploy.thy ===== *)
theory Chain_Deploy
  imports Chain_World
begin

text \<open>
  \<open>internal/lifecycle/runner.go\<close>: the execution of a deployment plan under the compute claim, stage by
  stage with a checkpoint before each, the batches of host calls, the stop of a fleet.
\<close>

section \<open>Checkpoints\<close>

definition set_dep :: "(deployment \<Rightarrow> deployment) \<Rightarrow> unit coper" where
  "set_dep f = set_frec (\<lambda>rc. rc\<lparr>rc_deployment := map_option f (rc_deployment rc)\<rparr>)"

definition get_dep :: "deployment coper" where
  "get_dep = gets (\<lambda>w. deployment_of (fw_rec w))"

definition set_dep_node :: "string \<Rightarrow> (dep_node \<Rightarrow> dep_node) \<Rightarrow> unit coper" where
  "set_dep_node x f = set_dep (\<lambda>d. d\<lparr>dp_nodes := fmupd x (f (dep_at d x)) (dp_nodes d)\<rparr>)"

definition enter_stage :: "crunner \<Rightarrow> string \<Rightarrow> unit coper" where
  "enter_stage r name = sq (set_dep (\<lambda>d. d\<lparr>dp_stage := name\<rparr>)) (fsave (cr_owner r))"

definition chain_wait :: "unit coper" where
  "chain_wait = fcall (FWait (15 * second)) done_reply"

section \<open>Host calls\<close>

definition host_call :: "crunner \<Rightarrow> lplan \<Rightarrow> ntarget \<Rightarrow> string \<Rightarrow> (nrequest \<Rightarrow> nrequest) \<Rightarrow> nobservation coper" where
  "host_call r p t action prep = bnd (gets fw_rec) (\<lambda>rc.
     wrapf (action @ '' '' @ nt_name t) (fcall (FHost (prep (runtime_request (cr_refs r) p rc t action))) seen_reply))"

text \<open>What the goroutine that takes the results does with one: the verdict of \<open>accept\<close>, the time of the
  observation and a checkpoint. A host that fails is marked and the others go on.\<close>

definition take_result :: "crunner \<Rightarrow> string \<Rightarrow> (ntarget \<Rightarrow> nobservation \<Rightarrow> 's \<Rightarrow> 's coper) \<Rightarrow> ntarget \<Rightarrow> nobservation res \<Rightarrow>
    's \<times> gerr list \<Rightarrow> ('s \<times> gerr list) coper" where
  "take_result r action accept t out st = (case st of (s, errs) \<Rightarrow>
     bnd (case out of Inl e \<Rightarrow> ret (Inl e) | Inr o1 \<Rightarrow> attempt (accept t o1 s)) (\<lambda>verdict.
     bnd now (\<lambda>t0.
     sq (set_dep_node (nt_name t) (\<lambda>n. (case verdict of Inl _ \<Rightarrow> n\<lparr>dn_phase := ''unknown''\<rparr> | Inr _ \<Rightarrow> n)\<lparr>dn_observed := t0\<rparr>))
     (bnd (attempt (fsave (cr_owner r))) (\<lambda>saved.
     ret (case verdict of Inl _ \<Rightarrow> s | Inr s' \<Rightarrow> s',
       errs @ (case verdict of Inl e \<Rightarrow> [At (action @ '' '' @ nt_name t) e] | Inr _ \<Rightarrow> []) @
         (case saved of Inl e \<Rightarrow> [e] | Inr _ \<Rightarrow> [])))))))"

definition each :: "crunner \<Rightarrow> lplan \<Rightarrow> ntarget list \<Rightarrow> string \<Rightarrow> (nrequest \<Rightarrow> nrequest) \<Rightarrow>
    (ntarget \<Rightarrow> nobservation \<Rightarrow> 's \<Rightarrow> 's coper) \<Rightarrow> 's \<Rightarrow> 's coper" where
  "each r p ts action prep accept s = bnd (gets fw_rec) (\<lambda>rc.
     bnd (batch (map (\<lambda>t. (t, prep (runtime_request (cr_refs r) p rc t action))) ts) [] (s, []) (take_result r action accept)) (\<lambda>(s', errs).
     sq (lift (joined_failures errs)) (ret s')))"

definition plain :: "nrequest \<Rightarrow> nrequest" where "plain q = q"

definition accept_all :: "ntarget \<Rightarrow> nobservation \<Rightarrow> unit \<Rightarrow> unit coper" where
  "accept_all t o1 s = ret ()"

text \<open>The evidence of a running Core: its genesis is the one the deployment has seen first.\<close>

definition core_ready :: "ntarget \<Rightarrow> nobservation \<Rightarrow> unit coper" where
  "core_ready t o1 = (case no_core o1 of
     None \<Rightarrow> fail (Err ''missing Core identity/readiness evidence'')
   | Some c \<Rightarrow>
     sq (reject_if (length (co_genesis c) \<noteq> 64 \<or> sint (co_height c) < 1 \<or> length (co_container c) \<noteq> 64)
       (Err ''missing Core identity/readiness evidence''))
     (bnd get_dep (\<lambda>d.
     sq (if dp_genesis d = [] then set_dep (\<lambda>d. d\<lparr>dp_genesis := co_genesis c\<rparr>)
         else reject_if (dp_genesis d \<noteq> co_genesis c) (Err ''Core genesis mismatch''))
     (set_dep_node (nt_name t) (\<lambda>n. n\<lparr>dn_core_height := sint (co_height c), dn_container := co_container c, dn_phase := ''core-ready''\<rparr>)))))"

definition accept_core :: "ntarget \<Rightarrow> nobservation \<Rightarrow> unit \<Rightarrow> unit coper" where
  "accept_core t o1 s = core_ready t o1"

section \<open>Rendering\<close>

definition accept_render :: "ntarget \<Rightarrow> nobservation \<Rightarrow> (string, rendered option) fmap \<Rightarrow> (string, rendered option) fmap coper" where
  "accept_render t o1 m = ret (fmupd (nt_name t) (no_render o1) m)"

definition chain_render :: "crunner \<Rightarrow> lplan \<Rightarrow> unit coper" where
  "chain_render r p =
     bnd (each r p (lp_targets p) ''render'' plain accept_render fmempty) (\<lambda>observed.
     bnd (lift (merge_renders observed)) (\<lambda>(version, requested).
     bnd (gets (\<lambda>w. effective_sidecars (fw_rec w))) (\<lambda>current.
     bnd (pin_sidecars (cr_refs r) (cr_registry r) p current requested) (\<lambda>pins.
     sq (reject_if (current \<noteq> [] \<and> pins \<noteq> current)
       (Err ''the release's dashmate requests sidecar images other than the pinned ones; only an upgrade changes them''))
     (if current = [] \<and> pins \<noteq> [] then sq (set_dep (\<lambda>d. d\<lparr>dp_sidecars := pins\<rparr>)) (fsave (cr_owner r)) else ret ())))))"

section \<open>Identities and registrations\<close>

definition unchanged :: "string \<Rightarrow> string \<Rightarrow> bool" where
  "unchanged previous actual \<longleftrightarrow> actual \<noteq> [] \<and> (previous = [] \<or> previous = actual)"

text \<open>\<open>Wallet\<close> and \<open>Miner\<close> of a validated plan.\<close>

definition must :: "ntarget option \<Rightarrow> ntarget coper" where
  "must x = (case x of None \<Rightarrow> fail (Err ''validated plan missing wallet'') | Some t \<Rightarrow> ret t)"

definition at_wallet :: "crunner \<Rightarrow> lplan \<Rightarrow> string \<Rightarrow> (nrequest \<Rightarrow> nrequest) \<Rightarrow> nobservation coper" where
  "at_wallet r p action prep = bnd (must (wallet_of p)) (\<lambda>t. host_call r p t action prep)"

definition at_miner :: "crunner \<Rightarrow> lplan \<Rightarrow> string \<Rightarrow> (nrequest \<Rightarrow> nrequest) \<Rightarrow> nobservation coper" where
  "at_miner r p action prep = bnd (must (miner_of p)) (\<lambda>t. host_call r p t action prep)"

definition wallet_identity :: "crunner \<Rightarrow> lplan \<Rightarrow> unit coper" where
  "wallet_identity r p =
     bnd (at_wallet r p ''wallet'' plain) (\<lambda>o1.
     bnd get_dep (\<lambda>d.
     sq (reject_if (\<not> unchanged (dp_payout d) (no_payout o1) \<or> \<not> unchanged (dp_spork d) (no_spork o1)) (Err ''wallet identity changed''))
     (sq (set_dep (\<lambda>d. d\<lparr>dp_payout := no_payout o1, dp_spork := no_spork o1\<rparr>)) (fsave (cr_owner r)))))"

definition accept_identity :: "ntarget \<Rightarrow> nobservation \<Rightarrow> unit \<Rightarrow> unit coper" where
  "accept_identity t o1 s =
     bnd get_dep (\<lambda>d. let n = dep_at d (nt_name t) in
     sq (reject_if (length (no_operator o1) \<noteq> 96 \<or> length (no_node o1) \<noteq> 40 \<or> \<not> unchanged (dn_operator_key n) (no_operator o1) \<or>
         \<not> unchanged (dn_node_id n) (no_node o1)) (Err ''validator identity changed or missing''))
     (set_dep_node (nt_name t) (\<lambda>n. n\<lparr>dn_operator_key := no_operator o1, dn_node_id := no_node o1, dn_phase := ''identified''\<rparr>)))"

definition set_spork :: "string \<Rightarrow> nrequest \<Rightarrow> nrequest" where
  "set_spork s q = q\<lparr>nq_spork := s\<rparr>"

definition set_balance :: "int \<Rightarrow> nrequest \<Rightarrow> nrequest" where
  "set_balance n q = q\<lparr>nq_balance := n\<rparr>"

definition set_registration :: "peer \<Rightarrow> nrequest \<Rightarrow> nrequest" where
  "set_registration b q = q\<lparr>nq_registration := Some b, nq_confirmations := 1\<rparr>"

definition set_payout :: "string \<Rightarrow> nrequest \<Rightarrow> nrequest" where
  "set_payout s q = q\<lparr>nq_payout := s\<rparr>"

definition set_peers :: "peer list \<Rightarrow> int \<Rightarrow> nrequest \<Rightarrow> nrequest" where
  "set_peers ps h q = q\<lparr>nq_peers := ps, nq_genesis_height := h\<rparr>"

definition register_validator :: "crunner \<Rightarrow> lplan \<Rightarrow> ntarget \<Rightarrow> unit coper" where
  "register_validator r p t =
     bnd get_dep (\<lambda>d. let n = dep_at d (nt_name t) in
     sq (if dn_protx n = [] then bnd (at_wallet r p ''fund'' (set_balance 4001)) (\<lambda>_. ret ()) else ret ())
     (bnd (at_wallet r p ''register'' (set_registration \<lparr>pe_name = nt_name t, pe_address = nt_peer t, pe_node = dn_node_id n,
         pe_operator = dn_operator_key n, pe_protx = []\<rparr>)) (\<lambda>o1.
     sq (reject_if (length (no_protx o1) \<noteq> 64 \<or> no_confirmations o1 < 1 \<or> \<not> unchanged (dn_protx n) (no_protx o1))
       (Err ''registration identity/confirmation mismatch''))
     (sq (set_dep_node (nt_name t) (\<lambda>_. n\<lparr>dn_protx := no_protx o1, dn_phase := ''registered''\<rparr>)) (fsave (cr_owner r))))))"

section \<open>Synchronization and quorums\<close>

definition accept_sync :: "ntarget \<Rightarrow> nobservation \<Rightarrow> bool \<Rightarrow> bool coper" where
  "accept_sync t o1 ready = sq (core_ready t o1) (case no_core o1 of None \<Rightarrow> ret ready
     | Some c \<Rightarrow> ret (ready \<and> co_synced c \<and> \<not> co_ibd c \<and> sint (co_headers c) \<le> sint (co_height c) \<and> co_peers c \<noteq> 0))"

text \<open>The wait for masternode sync: the owned miner is paused once, Core keeps running.\<close>

fun sync_loop :: "crunner \<Rightarrow> lplan \<Rightarrow> nat \<Rightarrow> bool \<Rightarrow> unit coper" where
  "sync_loop r p 0 paused = fail OutOfFuel"
| "sync_loop r p (Suc n) paused =
     bnd (each r p (lp_targets p) ''core-status'' plain accept_sync True) (\<lambda>ready.
     if ready then ret ()
     else sq (if paused then ret () else bnd (at_miner r p ''mine-pause'' plain) (\<lambda>_. ret ()))
       (sq chain_wait (sync_loop r p n True)))"

definition accept_quorum :: "string \<Rightarrow> ntarget \<Rightarrow> nobservation \<Rightarrow> bool \<times> int \<Rightarrow> (bool \<times> int) coper" where
  "accept_quorum miner t o1 st = (case st of (ready, lowest) \<Rightarrow>
     sq (core_ready t o1)
     (bnd get_dep (\<lambda>d. let lock_height = (case no_core o1 of None \<Rightarrow> 0 | Some c \<Rightarrow> sint (co_chainlock c)) in
     ret (ready \<and> core_healthy t (dep_at d (nt_name t)) (no_core o1) miner = Inr (),
       if lowest = 0 \<or> lock_height < lowest then lock_height else lowest))))"

fun quorum_loop :: "crunner \<Rightarrow> lplan \<Rightarrow> nat \<Rightarrow> unit coper" where
  "quorum_loop r p 0 = fail OutOfFuel"
| "quorum_loop r p (Suc n) =
     bnd (each r p (lp_targets p) ''core-status'' plain (accept_quorum (miner_name p)) (True, 0)) (\<lambda>(ready, lowest).
     if ready \<and> lowest > 0 then
       bnd get_dep (\<lambda>d. if dp_genesis_height d = 0
         then sq (set_dep (\<lambda>d. d\<lparr>dp_genesis_height := lowest\<rparr>)) (fsave (cr_owner r)) else ret ())
     else sq (wrapf ''waiting for READY masternodes, all devnet quorums and ChainLocks'' chain_wait) (quorum_loop r p n))"

section \<open>Platform and health\<close>

definition chain_peers :: "lplan \<Rightarrow> deployment \<Rightarrow> peer list" where
  "chain_peers p d = map (\<lambda>t. let n = dep_at d (nt_name t) in \<lparr>pe_name = nt_name t, pe_address = nt_peer t, pe_node = dn_node_id n,
     pe_operator = dn_operator_key n, pe_protx = dn_protx n\<rparr>) (validators p)"

definition accept_platform :: "ntarget \<Rightarrow> nobservation \<Rightarrow> unit \<Rightarrow> unit coper" where
  "accept_platform t o1 s = set_dep_node (nt_name t) (\<lambda>n. n\<lparr>dn_phase := ''platform-started''\<rparr>)"

definition accept_nodes :: "chain_health \<Rightarrow> deployment \<Rightarrow> deployment" where
  "accept_nodes h d = d\<lparr>dp_nodes := fold (\<lambda>(x, v) m. fmupd x ((dep_at d x)\<lparr>dn_phase := ''ready'', dn_observed := cl_observed h,
     dn_core_height := sint (cn_core_height v), dn_platform_height := sint (cn_platform_height v)\<rparr>) m)
     (sorted_list_of_fmap (cl_nodes h)) (dp_nodes d)\<rparr>"

definition accept_health :: "crunner \<Rightarrow> chain_health \<Rightarrow> unit coper" where
  "accept_health r h =
     sq (set_dep (accept_nodes h))
     (sq (set_dep (\<lambda>d. d\<lparr>dp_phase := ''network-ready'', dp_observed := cl_observed h\<rparr>))
     (sq (set_frec (\<lambda>rc. rc\<lparr>rc_error := None\<rparr>))
     (enter_stage r ''ready'')))"

definition current_doctor :: "crunner \<Rightarrow> lplan \<Rightarrow> chain_health coper" where
  "current_doctor r p = bnd (gets fw_rec) (\<lambda>rc. chain_doctor r p rc)"

fun health_loop :: "crunner \<Rightarrow> lplan \<Rightarrow> nat \<Rightarrow> unit coper" where
  "health_loop r p 0 = fail OutOfFuel"
| "health_loop r p (Suc n) = bnd (current_doctor r p) (\<lambda>h.
     if cl_healthy h then accept_health r h
     else sq (wrapf ''application verification incomplete'' chain_wait) (health_loop r p n))"

section \<open>The deployment\<close>

definition deploy_core :: "crunner \<Rightarrow> lplan \<Rightarrow> unit coper" where
  "deploy_core r p =
     sq (enter_stage r ''render'')
     (sq (chain_render r p)
     (sq (enter_stage r ''core-start'')
     (sq (each r p (lp_targets p) ''core-start'' plain accept_core ())
     (sq (enter_stage r ''identities'')
     (sq (wallet_identity r p)
     (each r p (validators p) ''identity'' plain accept_identity ()))))))"

text \<open>Registrations are serial on the one wallet; then it mines the rotation cycles and enables the DKG.\<close>

definition register_fleet :: "crunner \<Rightarrow> lplan \<Rightarrow> unit coper" where
  "register_fleet r p =
     sq (foreach (validators p) (register_validator r p))
     (bnd (at_wallet r p ''fast-forward'' plain) (\<lambda>o1.
     bnd (must (wallet_of p)) (\<lambda>t.
     sq (core_ready t o1)
     (bnd (at_wallet r p ''activate'' plain) (\<lambda>_. ret ())))))"

definition deploy_registered :: "crunner \<Rightarrow> lplan \<Rightarrow> unit coper" where
  "deploy_registered r p =
     sq (enter_stage r ''core-finalize'')
     (sq (bnd get_dep (\<lambda>d. each r p (lp_targets p) ''core-finalize'' (set_spork (dp_spork d)) accept_core ()))
     (bnd (at_wallet r p ''wallet'' plain) (\<lambda>_.
     sq (enter_stage r ''registrations'') (register_fleet r p))))"

definition deploy_synced :: "crunner \<Rightarrow> lplan \<Rightarrow> unit coper" where
  "deploy_synced r p =
     sq (enter_stage r ''core-sync'')
     (sq (sync_loop r p (cr_polls r) False)
     (bnd get_dep (\<lambda>d. bnd (at_miner r p ''mine-start'' (set_payout (dp_payout d))) (\<lambda>_.
     enter_stage r ''quorums''))))"

definition deploy_platform :: "crunner \<Rightarrow> lplan \<Rightarrow> unit coper" where
  "deploy_platform r p =
     sq (quorum_loop r p (cr_polls r))
     (sq (enter_stage r ''platform-start'')
     (sq (bnd get_dep (\<lambda>d. each r p (validators p) ''platform-start'' (set_peers (chain_peers p d) (dp_genesis_height d)) accept_platform ()))
     (sq (enter_stage r ''health'')
     (health_loop r p (cr_polls r)))))"

definition deploy :: "crunner \<Rightarrow> lplan \<Rightarrow> unit coper" where
  "deploy r p =
     sq (deploy_core r p) (sq (deploy_registered r p) (sq (deploy_synced r p)
     (if cr_core_only r then ret () else deploy_platform r p)))"

section \<open>Execution\<close>

definition bootstrapped :: "lplan \<Rightarrow> oprec \<Rightarrow> bool" where
  "bootstrapped p rc \<longleftrightarrow> (case rc_boot rc of None \<Rightarrow> False
     | Some b \<Rightarrow> bt_plan b = bp_id (lp_bootstrap p) \<and> bt_phase b = ''hosts-ready'')"

definition unfinished :: "oprec \<Rightarrow> bool" where
  "unfinished rc \<longleftrightarrow> (case rc_upgrade rc of None \<Rightarrow> False | Some u \<Rightarrow> ug_phase u \<noteq> ''complete'')"

definition check_prior :: "crunner \<Rightarrow> lplan \<Rightarrow> oprec \<Rightarrow> unit res" where
  "check_prior r p rc = after (validate_record (cr_hash r) (cr_refs r) (lplan_compute p) rc) (\<lambda>_.
     if rc_join rc \<noteq> None then Inl (Err ''allocation belongs to an existing chain join, not genesis lifecycle'')
     else if unfinished rc then Inl (Err ''unfinished upgrade owns runtime intent; resume that upgrade before deploy/stop'')
     else after (effective_images (cr_refs r) p rc) (\<lambda>_.
       if \<not> bootstrapped p rc then Inl (Err ''finish exact node bootstrap first'') else Inr ()))"

definition check_claimed :: "crunner \<Rightarrow> lplan \<Rightarrow> bool \<Rightarrow> oprec \<Rightarrow> unit res" where
  "check_claimed r p halt rc = after (validate_record (cr_hash r) (cr_refs r) (lplan_compute p) rc) (\<lambda>_.
     if unfinished rc then Inl (Err ''upgrade changed before claim; resume that upgrade'')
     else after (effective_images (cr_refs r) p rc) (\<lambda>_.
     if \<not> bootstrapped p rc then Inl (Err ''bootstrap changed before claim'')
     else if (case rc_deployment rc of None \<Rightarrow> False | Some d \<Rightarrow> dp_plan d \<noteq> lp_id p)
       then Inl (Err ''different deployment already owns this network; no implicit adoption or reset'')
     else if halt \<and> rc_deployment rc = None then Inl (Err ''cannot stop a deployment that has never started'')
     else Inr ()))"

definition verify_first :: "oprec \<Rightarrow> bool" where
  "verify_first rc \<longleftrightarrow> (case rc_deployment rc of None \<Rightarrow> False
     | Some d \<Rightarrow> dp_genesis_height d > 0 \<and> (dp_stage d = ''health'' \<or> dp_stage d = ''ready''))"

definition begin_deployment :: "crunner \<Rightarrow> lplan \<Rightarrow> oprec \<Rightarrow> oprec" where
  "begin_deployment r p rc = (let d = (case rc_deployment rc of Some d \<Rightarrow> d | None \<Rightarrow> (deployment_of rc)\<lparr>dp_plan := lp_id p\<rparr>);
       d1 = d\<lparr>dp_phase := ''deploying'', dp_observed := 0\<rparr>;
       d2 = fold (\<lambda>t d. d\<lparr>dp_nodes := fmupd (nt_name t) ((dep_at d (nt_name t))\<lparr>dn_phase := ''pending'', dn_observed := 0\<rparr>) (dp_nodes d)\<rparr>)
         (lp_targets p) d1
     in rc\<lparr>rc_deployment := Some d2, rc_runner := cr_owner r, rc_cli := cr_version r, rc_error := None\<rparr>)"

definition halt_fleet :: "crunner \<Rightarrow> lplan \<Rightarrow> unit coper" where
  "halt_fleet r p =
     sq (enter_stage r ''stopping'')
     (bnd (must (miner_of p)) (\<lambda>m.
     sq (each r p [m] ''stop'' plain accept_all ())
     (sq (each r p (filter (\<lambda>t. nt_name t \<noteq> nt_name m) (lp_targets p)) ''stop'' plain accept_all ())
     (sq (set_dep (\<lambda>d. d\<lparr>dp_phase := ''stopped''\<rparr>)) (enter_stage r ''stopped'')))))"

text \<open>An interrupted final check is repeated before the work is: fresh evidence, not the journal's flag.\<close>

definition verify_or_deploy :: "crunner \<Rightarrow> lplan \<Rightarrow> unit coper" where
  "verify_or_deploy r p =
     sq (enter_stage r ''health'') (bnd (current_doctor r p) (\<lambda>h. if cl_healthy h then accept_health r h else deploy r p))"

definition execute_claimed :: "crunner \<Rightarrow> lplan \<Rightarrow> bool \<Rightarrow> unit coper" where
  "execute_claimed r p halt =
     bnd (gets fw_rec) (\<lambda>rc.
     sq (lift (check_claimed r p halt rc))
     (sq (set_frec (begin_deployment r p))
     (sq set_changed
     (sq (enter_stage r ''preflight'')
     (sq (bnd (gets fw_rec) (live_scope r p))
     (sq (each r p (lp_targets p) ''inspect'' plain accept_all ())
     (if halt then halt_fleet r p else if verify_first rc then verify_or_deploy r p else deploy r p)))))))"

definition interrupted_deployment :: "oprec \<Rightarrow> oprec" where
  "interrupted_deployment rc = rc\<lparr>rc_deployment := map_option (\<lambda>d. d\<lparr>dp_phase := ''interrupted''\<rparr>) (rc_deployment rc)\<rparr>"

text \<open>The execution starts on the claimed record, with nothing changed yet.\<close>

definition begin_run :: "oprec \<Rightarrow> unit coper" where
  "begin_run rc = modify (\<lambda>w. w\<lparr>fw_rec := rc, fw_changed := False\<rparr>)"

definition chain_execute :: "crunner \<Rightarrow> lplan \<Rightarrow> bool \<Rightarrow> unit coper" where
  "chain_execute r p halt = (let compute = lplan_compute p in
     sq (lift (validate_lplan (cr_hash r) (cr_refs r) (cr_recipe r) (cr_worker r) p))
     (sq (reject_if (\<not> cr_remote r \<or> cr_owner r = []) (Err ''authenticated backend and runner identity required''))
     (sq (reject_if (\<not> cr_deadline r) (Err ''deployment requires a deadline''))
     (sq (on_cloud (verify_account (aws_account (nw_aws (pl_network compute)))))
     (bnd (fcall (FRead compute) stored_reply) (\<lambda>(prior, _).
     sq (lift (check_prior r p prior))
     (bnd (fcall (FCloud (QAcquire compute (cr_owner r))) (as_record \<circ> cloud_reply)) (\<lambda>rc.
     sq (begin_run rc)
     (bnd (attempt (execute_claimed r p halt)) (fsettle interrupted_deployment ''save interruption'' [] compute (cr_owner r)))))))))))"

end
