(* ===== verification/Deploy_Guard.thy ===== *)
theory Deploy_Guard
  imports Chain_Deploy
begin

text \<open>
  What every step of a deployment keeps: each action on a host is announced by the latest acknowledged
  save, and a stop takes the miner first. The stages of a deployment in \<open>Chain_Deploy\<close> keep this guard,
  with whatever evidence the run has already gathered.
\<close>

section \<open>Rules for batches\<close>

lemma keeps_batch:
  fixes handle :: "'t \<Rightarrow> nobservation res \<Rightarrow> 's \<Rightarrow> 's coper"
  assumes choice: "\<And>w a. I w \<Longrightarrow> I (w\<lparr>hist := (FNext, a) # hist w\<rparr>)"
    and start: "\<And>t q w a. (t, q) \<in> set todo \<Longrightarrow> I w \<Longrightarrow> I (w\<lparr>hist := (FHost q, a) # hist w\<rparr>)"
    and handled: "\<And>t out st. keeps I (handle t out st)"
  shows "keeps I (batch todo flying st handle)"
proof (rule wp_keeps)
  fix w assume I: "I w"
  let ?J = "\<lambda>todo' flying st w. set todo' \<subseteq> set todo \<and> I w"
  have "wp (batch todo flying st handle) (\<lambda>st'. ?J [] [] st') (\<lambda>_. I) w"
  proof (rule wp_batch [where I = ?J])
    show "?J todo flying st w" using I by simp
  next
    fix todo' :: "('t \<times> nrequest) list" and flying' :: "('t \<times> nobservation res) list" and st' w i
    assume "i < length flying'" and "?J todo' flying' st' w"
    then show "wp (handle (fst (flying' ! i)) (snd (flying' ! i)) st') (\<lambda>st''. ?J todo' (without i flying') st'') (\<lambda>_. I) w"
      using keeps_wp [OF handled] by (fastforce intro: wp_conseq)
  qed (auto intro: choice start)
  then show "wp (batch todo flying st handle) (\<lambda>_. I) (\<lambda>_. I) w" by (rule wp_conseq) auto
qed

definition answered :: "nrequest \<Rightarrow> (nrequest freq, nobservation freply) hist \<Rightarrow> bool" where
  "answered q h \<longleftrightarrow> (\<exists>o1. (FHost q, WSeen (Inr o1)) \<in> set h)"

lemma nth_or_without: "i < length xs \<Longrightarrow> x \<in> set xs \<Longrightarrow> x = xs ! i \<or> x \<in> set (without i xs)"
proof -
  assume "i < length xs" "x \<in> set xs"
  then have "xs = take i xs @ xs ! i # drop (Suc i) xs" by (simp add: id_take_nth_drop)
  then show ?thesis using \<open>x \<in> set xs\<close> unfolding without_def by (metis UnE set_ConsD set_append UnI1 UnI2)
qed

text \<open>A batch that ends without a failure has an answer of every host.\<close>

lemma wp_batch_answered:
  fixes handle :: "'t \<Rightarrow> nobservation res \<Rightarrow> 's \<times> gerr list \<Rightarrow> ('s \<times> gerr list) coper"
  assumes grow: "\<And>t out st x. keeps (\<lambda>w. x \<in> set (hist w)) (handle t out st)"
    and fails: "\<And>t out st w. wp (handle t out st) (\<lambda>st' _. snd st' = [] \<longrightarrow> snd st = [] \<and> (\<exists>o1. out = Inr o1)) (\<lambda>_ _. True) w"
  shows "wp (batch jobs [] (s, []) handle) (\<lambda>st w'. snd st = [] \<longrightarrow> (\<forall>(t, q) \<in> set jobs. answered q (hist w'))) (\<lambda>_ _. True) w"
proof -
  let ?F = "\<lambda>flying t q w. \<exists>res :: nobservation res. (t, res) \<in> set flying \<and> (\<forall>o1. res = Inr o1 \<longrightarrow> (FHost q, WSeen (Inr o1)) \<in> set (hist w))"
  let ?J = "\<lambda>todo flying (st :: 's \<times> gerr list) (w :: cworld). snd st = [] \<longrightarrow>
      (\<forall>(t, q) \<in> set jobs. (t, q) \<in> set todo \<or> ?F flying t q w \<or> answered q (hist w))"
  have "wp (batch jobs [] (s, []) handle) (\<lambda>st'. ?J [] [] st') (\<lambda>_ _. True) w"
  proof (rule wp_batch [where I = ?J])
    show "?J jobs [] (s, []) w" by auto
  next
    fix todo flying st and w :: cworld and a assume "?J todo flying st w"
    then show "?J todo flying st (w\<lparr>hist := (FNext, a) # hist w\<rparr>)" by (fastforce simp: answered_def)
  next
    fix t q todo flying st and w :: cworld and a assume J: "?J ((t, q) # todo) flying st w"
    have "?F (flying @ [(t, seen_reply a)]) t q (w\<lparr>hist := (FHost q, a) # hist w\<rparr>)"
      by (intro exI [of _ "seen_reply a"]) (auto dest: seen_reply_Inr)
    then show "?J todo (flying @ [(t, seen_reply a)]) st (w\<lparr>hist := (FHost q, a) # hist w\<rparr>)"
      using J by (fastforce simp: answered_def)
  next
    fix todo flying st w i assume i: "i < length flying" and J: "?J todo flying st w"
    let ?t = "fst (flying ! i)" and ?out = "snd (flying ! i)"
    have "set (hist w) \<subseteq> set (hist (snd (handle ?t ?out st w)))" using grow unfolding keeps_def by blast
    then have all: "wp (handle ?t ?out st) (\<lambda>_ w'. set (hist w) \<subseteq> set (hist w')) (\<lambda>_ _. True) w"
      by (auto simp: wp_def split: prod.splits sum.splits)
    show "wp (handle ?t ?out st) (\<lambda>st'. ?J todo (without i flying) st') (\<lambda>_ _. True) w"
    proof (rule wp_conseq [OF wp_conj [OF fails all]])
      fix st' :: "'s \<times> gerr list" and w' :: cworld
      assume h: "(snd st' = [] \<longrightarrow> snd st = [] \<and> (\<exists>o1. ?out = Inr o1)) \<and> set (hist w) \<subseteq> set (hist w')"
      have "(t, q) \<in> set todo \<or> ?F (without i flying) t q w' \<or> answered q (hist w')" if e: "snd st' = []" "(t, q) \<in> set jobs" for t q
      proof (rule ccontr)
        assume n: "\<not> ((t, q) \<in> set todo \<or> ?F (without i flying) t q w' \<or> answered q (hist w'))"
        then have "\<not> answered q (hist w)" using h by (auto simp: answered_def)
        then obtain res where r: "(t, res) \<in> set flying" "\<forall>o1. res = Inr o1 \<longrightarrow> (FHost q, WSeen (Inr o1)) \<in> set (hist w)"
          using J h e n by blast
        from nth_or_without [OF i r(1)] show False
        proof
          assume "(t, res) = flying ! i"
          then obtain o1 where "res = Inr o1" using h e(1) by (metis snd_conv)
          then show False using r(2) n h by (auto simp: answered_def)
        qed (use r n h in blast)
      qed
      then show "?J todo (without i flying) st' w'" by auto
    qed simp
  qed
  then show ?thesis by (rule wp_conseq) auto
qed

section \<open>The guard of a deployment\<close>

fun saved_record :: "nrequest freq \<Rightarrow> nobservation freply \<Rightarrow> oprec option" where
  "saved_record (FCloud (QSave rc owner)) (WCloud (RUnit (Inr u))) = Some rc"
| "saved_record q a = None"

text \<open>A request that does more than read the status of a host.\<close>

fun acts :: "nrequest freq \<Rightarrow> nrequest option" where
  "acts (FHost q) = (if chain_observes q then None else Some q)"
| "acts q = None"

text \<open>The stages in which an action runs.\<close>

definition action_stages :: "string \<Rightarrow> string list" where
  "action_stages a = (if a = ''inspect'' then [''preflight''] else if a = ''wallet'' then [''identities'', ''core-finalize'']
     else if a = ''identity'' then [''identities'']
     else if a \<in> {''fund'', ''register'', ''fast-forward'', ''activate''} then [''registrations'']
     else if a \<in> {''mine-pause'', ''mine-start''} then [''core-sync''] else if a = ''stop'' then [''stopping'']
     else if a \<in> {''render'', ''core-start'', ''core-finalize'', ''platform-start''} then [a] else [])"

definition at_stage :: "lplan \<Rightarrow> string list \<Rightarrow> oprec \<Rightarrow> bool" where
  "at_stage p ss rc \<longleftrightarrow> (case rc_deployment rc of None \<Rightarrow> False
     | Some d \<Rightarrow> dp_plan d = lp_id p \<and> dp_phase d = ''deploying'' \<and> dp_stage d \<in> set ss)"

definition announced :: "lplan \<Rightarrow> oprec \<Rightarrow> nrequest \<Rightarrow> bool" where
  "announced p rc q \<longleftrightarrow> at_stage p (action_stages (nq_action q)) rc"

definition stopped_miner :: "lplan \<Rightarrow> (nrequest freq, nobservation freply) hist \<Rightarrow> bool" where
  "stopped_miner p h \<longleftrightarrow> (\<exists>q. answered q h \<and> nq_action q = ''stop'' \<and> nt_name (nq_target q) = miner_name p)"

definition halts_in_order :: "lplan \<Rightarrow> (nrequest freq, nobservation freply) hist \<Rightarrow> nrequest freq \<Rightarrow> bool" where
  "halts_in_order p h q \<longleftrightarrow> (case acts q of None \<Rightarrow> True
     | Some k \<Rightarrow> nq_action k = ''stop'' \<and> nt_name (nq_target k) \<noteq> miner_name p \<longrightarrow> stopped_miner p h)"

interpretation deploying: write_ahead saved_record acts "announced p" for p
proof
  fix q k and a :: "nobservation freply" assume "acts q = Some k"
  then show "saved_record q a = None" by (cases q) auto
qed

definition deploy_guard :: "lplan \<Rightarrow> (nrequest freq, nobservation freply) hist \<Rightarrow> nrequest freq \<Rightarrow> bool" where
  "deploy_guard p h q \<longleftrightarrow> intent_guard saved_record acts (announced p) h q \<and> halts_in_order p h q"

lemma quiet_deploy: "acts q = None \<Longrightarrow> deploy_guard p h q"
  by (simp add: deploy_guard_def intent_guard_def halts_in_order_def)

lemma peeks_acts:
  assumes "peeks chain_observes q"
  shows "acts q = None" and "saved_record q a = None"
proof -
  show "acts q = None" using assms by (cases q) auto
  show "saved_record q a = None" using assms by (cases "(q, a)" rule: saved_record.cases) (auto simp: reads_def inspects_def)
qed

text \<open>
  Evidence in the history: what a part of the execution has established and later exchanges cannot
  take back. \<open>begun\<close> says that the record in memory deploys the plan, \<open>staged\<close> that the journal has
  acknowledged the stage as well.
\<close>

locale evidence =
  fixes E :: "(nrequest freq, nobservation freply) hist \<Rightarrow> bool"
  assumes lasts: "E h \<Longrightarrow> E (x # h)"

definition calm :: "lplan \<Rightarrow> ((nrequest freq, nobservation freply) hist \<Rightarrow> bool) \<Rightarrow> cworld \<Rightarrow> bool" where
  "calm p E w \<longleftrightarrow> guarded (deploy_guard p) (hist w) \<and> E (hist w)"

definition begun :: "lplan \<Rightarrow> ((nrequest freq, nobservation freply) hist \<Rightarrow> bool) \<Rightarrow> cworld \<Rightarrow> bool" where
  "begun p E w \<longleftrightarrow> calm p E w \<and> (\<exists>d. rc_deployment (fw_rec w) = Some d \<and> dp_plan d = lp_id p \<and> dp_phase d = ''deploying'')"

definition staged :: "lplan \<Rightarrow> string \<Rightarrow> ((nrequest freq, nobservation freply) hist \<Rightarrow> bool) \<Rightarrow> cworld \<Rightarrow> bool" where
  "staged p s E w \<longleftrightarrow> calm p E w \<and> at_stage p [s] (fw_rec w) \<and> (\<exists>rc. journaled saved_record (hist w) = Some rc \<and> at_stage p [s] rc)"

lemma at_stage_simps [simp]: "at_stage p ss (stamp t rc) = at_stage p ss rc" "at_stage p ss (rc\<lparr>rc_error := e\<rparr>) = at_stage p ss rc"
  by (simp_all add: at_stage_def stamp_def)

lemma at_stage_mono: "at_stage p [s] rc \<Longrightarrow> s \<in> set ss \<Longrightarrow> at_stage p ss rc"
  by (auto simp: at_stage_def split: option.splits)

lemma staged_begun: "staged p s E w \<Longrightarrow> begun p E w"
  by (auto simp: staged_def begun_def at_stage_def split: option.splits)

lemma begun_calm: "begun p E w \<Longrightarrow> calm p E w"
  by (simp add: begun_def)

lemma as_unit_Inr: "as_unit (cloud_reply a) = Inr u \<Longrightarrow> a = WCloud (RUnit (Inr ()))"
  by (cases a; cases "cloud_reply a") (auto simp: odd_reply_def)

text \<open>A change of the record that leaves plan, phase and stage alone.\<close>

definition steady :: "(deployment \<Rightarrow> deployment) \<Rightarrow> bool" where
  "steady f \<longleftrightarrow> (\<forall>d. dp_plan (f d) = dp_plan d \<and> dp_phase (f d) = dp_phase d \<and> dp_stage (f d) = dp_stage d)"

context evidence
begin

lemma calm_Cons: "calm p E w \<Longrightarrow> deploy_guard p (hist w) q \<Longrightarrow> calm p E (w\<lparr>hist := (q, a) # hist w\<rparr>)"
  by (simp add: calm_def lasts)

lemma staged_Cons:
  "staged p s E w \<Longrightarrow> deploy_guard p (hist w) q \<Longrightarrow> saved_record q a = None \<Longrightarrow> staged p s E (w\<lparr>hist := (q, a) # hist w\<rparr>)"
  by (auto simp: staged_def calm_def lasts)

lemma begun_Cons: "begun p E w \<Longrightarrow> deploy_guard p (hist w) q \<Longrightarrow> begun p E (w\<lparr>hist := (q, a) # hist w\<rparr>)"
  by (simp add: begun_def calm_Cons)

lemma keeps_staged_save: "keeps (staged p s E) (fsave owner)"
proof (rule wp_keeps)
  fix w :: cworld assume s: "staged p s E w"
  have "staged p s E (w\<lparr>fw_rec := stamp t (fw_rec w), hist := (FCloud (QSave (stamp t (fw_rec w)) owner), a) # hist w\<rparr>)" for t a
    using s by (cases "(FCloud (QSave (stamp t (fw_rec w)) owner) :: nrequest freq, a)" rule: saved_record.cases)
      (auto simp: staged_def calm_def lasts quiet_deploy)
  then show "wp (fsave owner) (\<lambda>_. staged p s E) (\<lambda>_. staged p s E) w"
    by (simp add: fsave_def set_frec_def wp_bnd wp_now wp_sq wp_modify wp_gets wp_fcall Let_def split: sum.splits)
qed

lemma keeps_staged_set: "steady f \<Longrightarrow> keeps (staged p s E) (set_dep f)"
  unfolding set_dep_def set_frec_def
  by (intro keeps_modify) (auto simp: staged_def calm_def at_stage_def steady_def split: option.splits)

lemma keeps_staged_node: "keeps (staged p s E) (set_dep_node x f)"
  unfolding set_dep_node_def by (intro keeps_staged_set) (simp add: steady_def)

lemma wp_enter_stage:
  assumes "begun p E w"
  shows "wp (enter_stage r s) (\<lambda>_. staged p s E) (\<lambda>_. calm p E) w"
proof -
  obtain d where d: "rc_deployment (fw_rec w) = Some d" "dp_plan d = lp_id p" "dp_phase d = ''deploying''" and c: "calm p E w"
    using assms by (auto simp: begun_def)
  let ?rc = "(fw_rec w)\<lparr>rc_deployment := map_option (\<lambda>d. d\<lparr>dp_stage := s\<rparr>) (rc_deployment (fw_rec w))\<rparr>"
  have a: "at_stage p [s] (stamp t ?rc)" for t using d by (simp only: at_stage_simps) (simp add: at_stage_def)
  have k: "calm p E (w\<lparr>fw_rec := stamp t ?rc, hist := (FCloud (QSave (stamp t ?rc) owner), a) # hist w\<rparr>)" for t a owner
    using c by (simp add: calm_def lasts quiet_deploy)
  have "staged p s E (w\<lparr>fw_rec := stamp t ?rc, hist := (FCloud (QSave (stamp t ?rc) owner), x) # hist w\<rparr>)"
    if "as_unit (cloud_reply x) = Inr u" for t x u owner
    using k [of t owner x] a as_unit_Inr [OF that] by (simp add: staged_def)
  then show ?thesis using k
    by (simp add: enter_stage_def set_dep_def fsave_def set_frec_def wp_bnd wp_now wp_sq wp_modify wp_gets wp_fcall Let_def split: sum.splits)
qed

end

sublocale evidence \<subseteq> on_stage: peeking_invariant "staged p s E" chain_observes for p s
  by unfold_locales (rule staged_Cons, assumption, auto dest: peeks_acts intro: quiet_deploy)

sublocale evidence \<subseteq> on_calm: peeking_invariant "calm p E" chain_observes for p
  by unfold_locales (rule calm_Cons, assumption, auto dest: peeks_acts intro: quiet_deploy)

text \<open>The requests that a stage may make: status, or an action of the stage; a stop only of the miner,
  or of another host once the miner has stopped.\<close>

definition allowed :: "lplan \<Rightarrow> string \<Rightarrow> ((nrequest freq, nobservation freply) hist \<Rightarrow> bool) \<Rightarrow> nrequest \<Rightarrow> bool" where
  "allowed p s E q \<longleftrightarrow> chain_observes q \<or> s \<in> set (action_stages (nq_action q)) \<and>
     (nq_action q = ''stop'' \<longrightarrow> nt_name (nq_target q) = miner_name p \<or> (\<forall>h. E h \<longrightarrow> stopped_miner p h))"

text \<open>A change of a request that leaves its action and its target alone.\<close>

definition decorates :: "(nrequest \<Rightarrow> nrequest) \<Rightarrow> bool" where
  "decorates f \<longleftrightarrow> (\<forall>q. nq_action (f q) = nq_action q \<and> nq_target (f q) = nq_target q)"

lemma decorates_simps [simp]: "decorates plain" "decorates (set_spork s)" "decorates (set_balance n)" "decorates (set_registration b)"
  "decorates (set_payout s)" "decorates (set_peers ps h)"
  by (simp_all add: decorates_def plain_def set_spork_def set_balance_def set_registration_def set_payout_def set_peers_def)

lemma decorated:
  assumes "decorates f"
  shows "nq_action (f (runtime_request R p rc t action)) = action" "nt_name (nq_target (f (runtime_request R p rc t action))) = nt_name t"
  using assms by (simp_all add: decorates_def)

lemma keeps_chain_doctor:
  assumes "peeking_invariant I chain_observes"
  shows "keeps I (chain_doctor r p rc)" "keeps I (live_scope r p rc)"
proof -
  note I = peeking_invariant.keeps_peek [OF assms] peeking_invariant.keeps_ask_peek [OF assms]
    peeking_invariant.keeps_on_account [OF assms] peeking_invariant.keeps_on_running [OF assms]
  show live: "keeps I (live_scope r p rc)" for rc by (rule keeps_live_scope) (rule I)
  have "keeps I (sample_target r p rc ref t)" for rc ref t
    unfolding sample_target_def sample_core_def sample_platform_def by (intro keeps_intros I) (simp_all add: chain_observes_def)
  then have "keeps I (sample_targets r p rc ref ts m)" for rc ref ts m
    by (induction ts arbitrary: m) (auto intro: keeps_bnd keeps_ret)
  then have "keeps I (sample r p rc ref)" for rc ref by (simp add: sample_def)
  then show "keeps I (chain_doctor r p rc)"
    unfolding chain_doctor_def second_look_def by (intro keeps_intros I live) simp_all
qed

context evidence
begin

lemma staged_guard:
  assumes "staged p s E w" and "allowed p s E q"
  shows "deploy_guard p (hist w) (FHost q)"
proof (cases "chain_observes q")
  case True
  then show ?thesis by (simp add: quiet_deploy)
next
  case False
  obtain rc where rc: "journaled saved_record (hist w) = Some rc" "at_stage p [s] rc" and e: "E (hist w)"
    using assms(1) by (auto simp: staged_def calm_def)
  have "announced p rc q" using assms(2) False at_stage_mono [OF rc(2)] by (simp add: announced_def allowed_def)
  moreover have "nq_action q = ''stop'' \<and> nt_name (nq_target q) \<noteq> miner_name p \<longrightarrow> stopped_miner p (hist w)"
    using assms(2) False e by (auto simp: allowed_def)
  ultimately show ?thesis using False rc(1) by (simp add: deploy_guard_def intent_guard_def halts_in_order_def)
qed

lemma staged_host: "staged p s E w \<Longrightarrow> allowed p s E q \<Longrightarrow> staged p s E (w\<lparr>hist := (FHost q, a) # hist w\<rparr>)"
  by (rule staged_Cons) (auto intro: staged_guard)

lemma keeps_host_call:
  assumes "\<And>rc. allowed p s E (f (runtime_request (cr_refs r) p rc t action))"
  shows "keeps (staged p s E) (host_call r p t action f)"
proof -
  have "keeps (staged p s E) (fcall (FHost (f (runtime_request (cr_refs r) p rc t action))) g)" for rc and g :: "nobservation freply \<Rightarrow> nobservation res"
    by (rule wp_keeps) (auto simp: wp_fcall Let_def split: sum.splits intro: staged_host assms)
  then show ?thesis unfolding host_call_def by (intro keeps_intros)
qed

lemma keeps_take_result:
  assumes "\<And>t o1 st. keeps (staged p s E) (accept t o1 st)"
  shows "keeps (staged p s E) (take_result r action accept t out st)"
  unfolding take_result_def by (cases st) (auto intro!: keeps_intros assms keeps_staged_node keeps_staged_save)

lemma keeps_each:
  assumes "\<And>t rc. t \<in> set ts \<Longrightarrow> allowed p s E (f (runtime_request (cr_refs r) p rc t action))"
    and "\<And>t o1 st. keeps (staged p s E) (accept t o1 st)"
  shows "keeps (staged p s E) (each r p ts action f accept st)"
proof -
  have b: "keeps (staged p s E) (batch (map (\<lambda>t. (t, f (runtime_request (cr_refs r) p rc t action))) ts) [] (st, []) (take_result r action accept))" for rc
  proof (rule keeps_batch)
    show "staged p s E (w\<lparr>hist := (FNext, a) # hist w\<rparr>)" if "staged p s E w" for w a
      using that on_stage.peek [of FNext] by simp
  qed (auto intro: staged_host assms keeps_take_result)
  have "keeps (staged p s E) (case x of (s', errs) \<Rightarrow> sq (lift (joined_failures errs)) (ret s'))" for x
    by (cases x) (auto intro: keeps_intros)
  then show ?thesis unfolding each_def by (intro keeps_bnd keeps_gets b) auto
qed

lemma keeps_core_ready: "keeps (staged p s E) (core_ready t o1)"
  unfolding core_ready_def get_dep_def
  by (intro keeps_intros keeps_staged_node keeps_staged_set) (simp add: steady_def)

lemma keeps_chain_wait: "keeps (staged p s E) chain_wait"
  unfolding chain_wait_def by (rule on_stage.keeps_peek) simp

lemma keeps_pin_sidecars: "keeps (staged p s E) (pin_sidecars R registry q current requested)"
proof -
  have "keeps (staged p s E) (pin_services R registry arches current todo out)" for arches todo out
    by (induction R registry arches current todo out rule: pin_services.induct)
      (auto intro!: keeps_intros on_stage.keeps_peek split: option.splits)
  then show ?thesis unfolding pin_sidecars_def by (intro keeps_intros)
qed

lemma keeps_current_doctor: "keeps (staged p s E) (current_doctor r q)"
  unfolding current_doctor_def by (intro keeps_intros keeps_chain_doctor(1)) (rule on_stage.peeking_invariant_axioms)

lemma keeps_at_wallet:
  "decorates f \<Longrightarrow> s \<in> set (action_stages action) \<Longrightarrow> action \<noteq> ''stop'' \<Longrightarrow> keeps (staged p s E) (at_wallet r p action f)"
  unfolding at_wallet_def must_def by (intro keeps_intros keeps_host_call) (simp add: allowed_def decorated)

lemma keeps_at_miner:
  "decorates f \<Longrightarrow> s \<in> set (action_stages action) \<Longrightarrow> action \<noteq> ''stop'' \<Longrightarrow> keeps (staged p s E) (at_miner r p action f)"
  unfolding at_miner_def must_def by (intro keeps_intros keeps_host_call) (simp add: allowed_def decorated)

lemma keeps_each_action:
  assumes "decorates f" and "s \<in> set (action_stages action)" and "action \<noteq> ''stop''" and "\<And>t o1 st. keeps (staged p s E) (accept t o1 st)"
  shows "keeps (staged p s E) (each r p ts action f accept st)"
  using assms by (intro keeps_each) (auto simp: allowed_def decorated)

lemma keeps_each_status:
  assumes "\<And>t o1 st. keeps (staged p s E) (accept t o1 st)"
  shows "keeps (staged p s E) (each r p ts ''core-status'' plain accept st)"
  using assms by (intro keeps_each) (auto simp: allowed_def decorated chain_observes_def)

end

section \<open>The stages keep the guard\<close>

context evidence
begin

lemma keeps_chain_render: "keeps (staged p ''render'' E) (chain_render r p)"
  unfolding chain_render_def accept_render_def
  by (intro keeps_intros keeps_each_action keeps_pin_sidecars keeps_staged_set keeps_staged_save)
    (auto simp: action_stages_def steady_def intro!: keeps_intros keeps_pin_sidecars keeps_staged_set keeps_staged_save)

lemma keeps_wallet_identity: "keeps (staged p ''identities'' E) (wallet_identity r p)"
  unfolding wallet_identity_def get_dep_def
  by (intro keeps_intros keeps_at_wallet keeps_staged_set keeps_staged_save) (simp_all add: action_stages_def steady_def)

lemma keeps_accept: "keeps (staged p s E) (accept_core t o1 st)" "keeps (staged p s E) (accept_identity t o1 u)"
  "keeps (staged p s E) (accept_sync t o1 b)" "keeps (staged p s E) (accept_quorum m t o1 bn)" "keeps (staged p s E) (accept_platform t o1 v)"
  "keeps (staged p s E) (accept_all t o1 x)"
  unfolding accept_core_def accept_identity_def accept_sync_def accept_quorum_def accept_platform_def accept_all_def get_dep_def Let_def
  by (auto intro!: keeps_intros keeps_core_ready keeps_staged_node split: prod.splits option.splits)

lemma keeps_register: "keeps (staged p ''registrations'' E) (register_validator r p t)"
  unfolding register_validator_def get_dep_def Let_def
  by (intro keeps_intros keeps_at_wallet keeps_staged_node keeps_staged_save) (simp_all add: action_stages_def)

lemma keeps_sync_loop: "keeps (staged p ''core-sync'' E) (sync_loop r p n paused)"
  by (induction n arbitrary: paused)
    (auto simp: action_stages_def intro!: keeps_intros keeps_each_status keeps_accept keeps_at_miner keeps_chain_wait)

lemma keeps_quorum_loop: "keeps (staged p s E) (quorum_loop r p n)"
  by (induction n)
    (auto simp: get_dep_def steady_def intro!: keeps_intros keeps_each_status keeps_accept keeps_chain_wait keeps_wrapf keeps_staged_set keeps_staged_save
      split: prod.splits)

lemma staged_calm: "staged p s E w \<Longrightarrow> calm p E w"
  by (simp add: staged_def)

text \<open>A stage and what it does, followed by the rest.\<close>

lemma wp_in_stage:
  assumes "begun p E w" and "keeps (staged p s E) m" and "\<And>v. staged p s E v \<Longrightarrow> wp k Q (\<lambda>_. calm p E) v"
  shows "wp (sq (enter_stage r s) (sq m k)) Q (\<lambda>_. calm p E) w"
  unfolding wp_sq
  by (rule wp_conseq [OF wp_enter_stage [OF assms(1)]], rule wp_conseq [OF keeps_wp [OF assms(2)]]) (auto intro: assms(3) staged_calm)

lemma wp_last:
  assumes "begun p E w" and "keeps (staged p s E) m"
  shows "wp (sq (enter_stage r s) m) (\<lambda>_. staged p s E) (\<lambda>_. calm p E) w"
  unfolding wp_sq
  by (rule wp_conseq [OF wp_enter_stage [OF assms(1)]], rule wp_conseq [OF keeps_wp [OF assms(2)]]) (auto intro: staged_calm)

lemma wp_deploy_core:
  assumes "begun p E w"
  shows "wp (deploy_core r p) (\<lambda>_. staged p ''identities'' E) (\<lambda>_. calm p E) w"
  unfolding deploy_core_def
  by (intro wp_in_stage wp_last assms keeps_chain_render keeps_each_action keeps_accept keeps_sq keeps_wallet_identity)
    (auto simp: action_stages_def dest: staged_begun)

lemma keeps_register_fleet: "keeps (staged p ''registrations'' E) (register_fleet r p)"
  unfolding register_fleet_def must_def
  by (intro keeps_intros keeps_register keeps_at_wallet keeps_core_ready) (simp_all add: action_stages_def)

lemma wp_deploy_registered:
  assumes "begun p E w"
  shows "wp (deploy_registered r p) (\<lambda>_. staged p ''registrations'' E) (\<lambda>_. calm p E) w"
proof -
  have fin: "keeps (staged p ''core-finalize'' E) (bnd get_dep (\<lambda>d. each r p (lp_targets p) ''core-finalize'' (set_spork (dp_spork d)) accept_core ()))"
    unfolding get_dep_def by (intro keeps_intros keeps_each_action keeps_accept) (simp_all add: action_stages_def)
  have wal: "keeps (staged p ''core-finalize'' E) (at_wallet r p ''wallet'' plain)"
    by (intro keeps_at_wallet) (simp_all add: action_stages_def)
  have reg: "wp (sq (enter_stage r ''registrations'') (register_fleet r p)) (\<lambda>_. staged p ''registrations'' E) (\<lambda>_. calm p E) v"
    if "staged p ''core-finalize'' E v" for v
    by (rule wp_last [OF staged_begun [OF that] keeps_register_fleet])
  have "wp (bnd (at_wallet r p ''wallet'' plain) (\<lambda>_. sq (enter_stage r ''registrations'') (register_fleet r p)))
      (\<lambda>_. staged p ''registrations'' E) (\<lambda>_. calm p E) v" if "staged p ''core-finalize'' E v" for v
    unfolding wp_bnd [of "at_wallet r p ''wallet'' plain"]
    by (rule wp_conseq [OF keeps_wp [OF wal, OF that]], erule reg, erule staged_calm)
  then show ?thesis unfolding deploy_registered_def by (rule wp_in_stage [OF assms fin])
qed

lemma wp_deploy_synced:
  assumes "begun p E w"
  shows "wp (deploy_synced r p) (\<lambda>_. staged p ''quorums'' E) (\<lambda>_. calm p E) w"
proof -
  have start: "keeps (staged p ''core-sync'' E) (at_miner r p ''mine-start'' (set_payout x))" for x
    by (intro keeps_at_miner) (simp_all add: action_stages_def)
  have "wp (bnd (at_miner r p ''mine-start'' (set_payout x)) (\<lambda>_. enter_stage r ''quorums'')) (\<lambda>_. staged p ''quorums'' E) (\<lambda>_. calm p E) v"
    if "staged p ''core-sync'' E v" for v x
    unfolding wp_bnd
    by (rule wp_conseq [OF keeps_wp [OF start, OF that]], rule wp_enter_stage, erule staged_begun, erule staged_calm)
  then show ?thesis
    unfolding deploy_synced_def get_dep_def wp_bnd [of "gets f" for f] wp_gets
    by (intro wp_in_stage [OF assms keeps_sync_loop]) (simp add: wp_bnd [of "gets f" for f] wp_gets)
qed

end

end
