(* ===== verification/Deploy_Sample.thy ===== *)
theory Deploy_Sample
  imports Chain_Deploy Chain_World
begin

text \<open>
  Runs of the sample devnet for the witnesses of the deployment: an order to stop the fleet, and the
  verification of a completed deployment.
\<close>

section \<open>The record along a run\<close>

definition devnet_node_ok :: "string \<Rightarrow> dep_node \<Rightarrow> bool" where
  "devnet_node_ok x n \<longleftrightarrow> (\<exists>ph t. n = (devnet_dep_node x)\<lparr>dn_phase := ph, dn_observed := t\<rparr> \<and> ph \<in> set dep_node_phases)"

definition devnet_dep_ok :: "string \<Rightarrow> deployment \<Rightarrow> bool" where
  "devnet_dep_ok s d \<longleftrightarrow> dp_plan d = sample_hex \<and> dp_phase d = ''deploying'' \<and> dp_stage d = s \<and> dp_genesis d = sample_hex \<and>
     dp_payout d = devnet_address \<and> dp_spork d = devnet_address \<and> dp_genesis_height d = 1 \<and> dp_sidecars d = [] \<and>
     fmdom (dp_nodes d) = fmdom (dp_nodes devnet_deployment) \<and> (\<forall>x n. fmlookup (dp_nodes d) x = Some n \<longrightarrow> devnet_node_ok x n)"

text \<open>A valid record whose deployment is at stage \<open>s\<close>.\<close>

definition devnet_in :: "string \<Rightarrow> oprec \<Rightarrow> bool" where
  "devnet_in s rc \<longleftrightarrow> devnet_computed rc \<and> rc_upgrade rc = None \<and> rc_runtime rc = None \<and> (\<exists>d. rc_deployment rc = Some d \<and> devnet_dep_ok s d)"

lemma devnet_dep_nodes:
  "t \<in> set (pl_targets devnet_plan) \<Longrightarrow> fmlookup (dp_nodes devnet_deployment) (tg_name t) = Some (devnet_dep_node (tg_name t))"
  "fmlookup (dp_nodes devnet_deployment) x = Some n \<Longrightarrow> n = devnet_dep_node x"
  "fcard (fmdom (dp_nodes devnet_deployment)) = 14"
proof -
  have d: "distinct (map tg_name (pl_targets devnet_plan))" by (rule valid_plan_names(1) [OF devnet_plan_valid])
  show "fcard (fmdom (dp_nodes devnet_deployment)) = 14"
    using card_of_map [OF d, of "\<lambda>t. devnet_dep_node (tg_name t)"] by (simp add: devnet_deployment_def)
  show "fmlookup (dp_nodes devnet_deployment) (tg_name t) = Some (devnet_dep_node (tg_name t))" if "t \<in> set (pl_targets devnet_plan)"
    using lookup_of_map [OF d that, of "\<lambda>t. devnet_dep_node (tg_name t)"] by (simp add: devnet_deployment_def)
  show "fmlookup (dp_nodes devnet_deployment) x = Some n \<Longrightarrow> n = devnet_dep_node x"
    by (auto simp: devnet_deployment_def fmlookup_of_list dest!: map_of_SomeD)
qed

lemma devnet_in_valid:
  assumes "devnet_in s rc" and "s \<in> set dep_stages"
  shows "validate_record sample_hash sample_refs devnet_plan rc = Inr ()"
proof -
  obtain d where d: "rc_deployment rc = Some d" "devnet_dep_ok s d" and c: "devnet_computed rc" and u: "rc_upgrade rc = None" "rc_runtime rc = None"
    using assms(1) by (auto simp: devnet_in_def)
  note ok = d(2) [unfolded devnet_dep_ok_def]
  have l: "\<exists>n. fmlookup (dp_nodes d) (tg_name t) = Some n \<and> devnet_node_ok (tg_name t) n" if "t \<in> set (pl_targets devnet_plan)" for t
  proof -
    have "tg_name t |\<in>| fmdom (dp_nodes d)" using devnet_dep_nodes(1) [OF that] ok by (metis fmdomI)
    then show ?thesis using ok by (meson fmlookup_dom_iff)
  qed
  have k: "fcard (fmdom (dp_nodes d)) = 14" using ok devnet_dep_nodes(3) by simp
  have v: "matches hex64 sample_hex" "matches hex96 (replicate 96 (CHR ''a''))" "matches hex40 (replicate 40 (CHR ''a''))" "matches dash_address devnet_address"
    by code_simp+
  have p: "matches hex64 (devnet_protx (tg_name t))" if "t \<in> set (pl_targets devnet_plan)" for t
    using devnet_chain_nodes that by (simp add: list_all_iff)
  have t: "check_dep_target d t = Inr ()" if "t \<in> set (pl_targets devnet_plan)" for t
    using l [OF that] v p [OF that] ok by (auto simp: check_dep_target_def devnet_node_ok_def devnet_dep_node_def)
  have "validate_deployment sample_refs devnet_plan rc = Inr ()"
    using v ok k t d(1) assms(2) by (simp add: validate_deployment_def each_ok_iff dep_phases_def validate_sidecars_def)
  moreover have "validate_upgrade sample_refs devnet_plan rc = Inr ()" using u by (simp add: validate_upgrade_def)
  ultimately show ?thesis using devnet_computed_valid [OF c] by (simp add: validate_record_def)
qed

lemma devnet_in_state: "devnet_in s rc \<Longrightarrow> s \<in> set dep_stages \<Longrightarrow> devnet_state rc"
  using devnet_in_valid by (auto simp: devnet_state_def devnet_in_def devnet_computed_def)

lemma devnet_in_good:
  assumes "devnet_in s rc" and "rc_deployment rc = Some d"
  shows "good_deployment d" "dp_plan d = sample_hex" "effective_images sample_refs devnet_lplan rc = Inr (plan_images devnet_lplan)"
proof -
  have ok: "devnet_dep_ok s d" using assms by (auto simp: devnet_in_def)
  have "\<exists>n. fmlookup (dp_nodes d) (nt_name t) = Some n \<and> devnet_node_ok (nt_name t) n" if t: "t \<in> set devnet_ntargets" for t
  proof -
    obtain x where x: "x \<in> set devnet_hosts" "nt_name t = tg_name (fst x)" using t by (auto simp: devnet_ntargets_def)
    then have "fst x \<in> set (pl_targets devnet_plan)" using devnet_names(2) by (metis image_eqI list.set_map)
    then have "nt_name t |\<in>| fmdom (dp_nodes d)" using devnet_dep_nodes(1) ok x(2) by (metis devnet_dep_ok_def fmdomI)
    then show ?thesis using ok by (meson devnet_dep_ok_def fmlookup_dom_iff)
  qed
  then show "good_deployment d" using ok
    by (fastforce simp: good_deployment_def devnet_dep_ok_def dep_at_def devnet_node_ok_def devnet_dep_node_def)
  show "dp_plan d = sample_hex" using ok by (simp add: devnet_dep_ok_def)
  show "effective_images sample_refs devnet_lplan rc = Inr (plan_images devnet_lplan)"
    using assms(1) by (simp add: effective_images_def devnet_in_def)
qed

lemma devnet_in_stamp: "devnet_in s rc \<Longrightarrow> 0 < t \<Longrightarrow> devnet_in s (stamp t rc)"
  by (simp add: devnet_in_def devnet_computed_def stamp_def)

lemma devnet_node_at:
  assumes "devnet_dep_ok s d" and "t \<in> set devnet_ntargets"
  shows "nt_name t |\<in>| fmdom (dp_nodes d)" "devnet_node_ok (nt_name t) (dep_at d (nt_name t))"
proof -
  obtain x where x: "x \<in> set devnet_hosts" "nt_name t = tg_name (fst x)" using assms(2) by (auto simp: devnet_ntargets_def)
  then have "fst x \<in> set (pl_targets devnet_plan)" using devnet_names(2) by (metis image_eqI list.set_map)
  then show m: "nt_name t |\<in>| fmdom (dp_nodes d)" using devnet_dep_nodes(1) assms(1) x(2) by (metis devnet_dep_ok_def fmdomI)
  obtain n where "fmlookup (dp_nodes d) (nt_name t) = Some n" using m by (meson fmlookup_dom_iff)
  then show "devnet_node_ok (nt_name t) (dep_at d (nt_name t))" using assms(1) by (simp add: devnet_dep_ok_def dep_at_def)
qed

lemma devnet_dep_touch:
  assumes "devnet_dep_ok s d" and "t \<in> set devnet_ntargets"
  shows "devnet_dep_ok s (d\<lparr>dp_nodes := fmupd (nt_name t) ((dep_at d (nt_name t))\<lparr>dn_observed := t0\<rparr>) (dp_nodes d)\<rparr>)"
    "devnet_dep_ok s (d\<lparr>dp_nodes := fmupd (nt_name t) ((dep_at d (nt_name t))\<lparr>dn_phase := ''pending'', dn_observed := t0\<rparr>) (dp_nodes d)\<rparr>)"
proof -
  obtain ph ta where n: "dep_at d (nt_name t) = (devnet_dep_node (nt_name t))\<lparr>dn_phase := ph, dn_observed := ta\<rparr>" "ph \<in> set dep_node_phases"
    using devnet_node_at(2) [OF assms] by (auto simp: devnet_node_ok_def)
  have "devnet_node_ok (nt_name t) ((dep_at d (nt_name t))\<lparr>dn_observed := t0\<rparr>)"
    unfolding devnet_node_ok_def using n by (intro exI [of _ ph] exI [of _ t0]) simp
  then show "devnet_dep_ok s (d\<lparr>dp_nodes := fmupd (nt_name t) ((dep_at d (nt_name t))\<lparr>dn_observed := t0\<rparr>) (dp_nodes d)\<rparr>)"
    using devnet_node_at(1) [OF assms] assms(1) by (auto simp: devnet_dep_ok_def)
  have "''pending'' \<in> set dep_node_phases" by (simp add: dep_node_phases_def)
  then have "devnet_node_ok (nt_name t) ((dep_at d (nt_name t))\<lparr>dn_phase := ''pending'', dn_observed := t0\<rparr>)"
    unfolding devnet_node_ok_def using n by (intro exI [of _ "''pending''"] exI [of _ t0]) simp
  then show "devnet_dep_ok s (d\<lparr>dp_nodes := fmupd (nt_name t) ((dep_at d (nt_name t))\<lparr>dn_phase := ''pending'', dn_observed := t0\<rparr>) (dp_nodes d)\<rparr>)"
    using devnet_node_at(1) [OF assms] assms(1) by (auto simp: devnet_dep_ok_def)
qed

lemma devnet_in_observed:
  assumes "devnet_in s rc" and "t \<in> set devnet_ntargets"
  shows "devnet_in s (rc\<lparr>rc_deployment := map_option (\<lambda>d. d\<lparr>dp_nodes := fmupd (nt_name t) ((dep_at d (nt_name t))\<lparr>dn_observed := t0\<rparr>) (dp_nodes d)\<rparr>) (rc_deployment rc)\<rparr>)"
  using assms devnet_dep_touch(1) by (auto simp: devnet_in_def devnet_computed_def)

lemma devnet_in_stage: "devnet_in s rc \<Longrightarrow> devnet_in s' (rc\<lparr>rc_deployment := map_option (\<lambda>d. d\<lparr>dp_stage := s'\<rparr>) (rc_deployment rc)\<rparr>)"
  by (auto simp: devnet_in_def devnet_computed_def devnet_dep_ok_def)

section \<open>Steps of a run\<close>

text \<open>An operation that succeeds on the sample devnet, keeps its environment and adds fewer than \<open>k\<close> exchanges.\<close>

definition goes_well :: "(oprec \<Rightarrow> bool) \<Rightarrow> nat \<Rightarrow> unit coper \<Rightarrow> cworld \<Rightarrow> bool" where
  "goes_well K k m w \<longleftrightarrow> (\<exists>rc new. m w = (Inr (), w\<lparr>fw_rec := rc, hist := new @ hist w\<rparr>) \<and> K rc \<and> length new < k)"

lemma goes_well_sq:
  assumes "goes_well K k m w"
    and "\<And>rc new. K rc \<Longrightarrow> length new < k \<Longrightarrow> goes_well K' k' m' (w\<lparr>fw_rec := rc, hist := new @ hist w\<rparr>)"
  shows "goes_well K' (k + k') (sq m m') w"
proof -
  obtain rc new where a: "m w = (Inr (), w\<lparr>fw_rec := rc, hist := new @ hist w\<rparr>)" "K rc" "length new < k"
    using assms(1) by (auto simp: goes_well_def)
  obtain rc' new' where b: "m' (w\<lparr>fw_rec := rc, hist := new @ hist w\<rparr>) =
      (Inr (), (w\<lparr>fw_rec := rc, hist := new @ hist w\<rparr>)\<lparr>fw_rec := rc', hist := new' @ new @ hist w\<rparr>)" "K' rc'" "length new' < k'"
    using assms(2) [OF a(2,3)] by (auto simp: goes_well_def)
  show ?thesis unfolding goes_well_def
    using a b by (intro exI [of _ rc'] exI [of _ "new' @ new"]) (simp add: run_steps)
qed

lemma devnet_save_answer: "answer (devnet_env rc0) h (FCloud (QSave rc owner)) = WCloud (RUnit (Inr ()))"
  by (simp add: devnet_env_def)

lemma run_save:
  assumes "env w = devnet_env rc0"
  shows "fsave owner w = (Inr (), w\<lparr>fw_rec := stamp (100 + int (length (hist w))) (fw_rec w),
    hist := (FCloud (QSave (stamp (100 + int (length (hist w))) (fw_rec w)) owner), WCloud (RUnit (Inr ()))) # hist w\<rparr>)"
  using assms by (simp add: fsave_def set_frec_def run_steps run_fcall now_def devnet_save_answer)

lemma enter_stage_goes_well:
  assumes "env w = devnet_env rc0" and "devnet_in s (fw_rec w)"
  shows "goes_well (devnet_in s') 2 (enter_stage r s') w"
proof -
  let ?rc = "(fw_rec w)\<lparr>rc_deployment := map_option (\<lambda>d. d\<lparr>dp_stage := s'\<rparr>) (rc_deployment (fw_rec w))\<rparr>"
  let ?rc' = "stamp (100 + int (length (hist w))) ?rc"
  have "enter_stage r s' w = (Inr (), w\<lparr>fw_rec := ?rc', hist := [(FCloud (QSave ?rc' (cr_owner r)), WCloud (RUnit (Inr ())))] @ hist w\<rparr>)"
    using run_save [of "w\<lparr>fw_rec := ?rc\<rparr>" rc0 "cr_owner r"] assms(1) by (simp add: enter_stage_def run_steps set_dep_def set_frec_def)
  moreover have "devnet_in s' ?rc'" by (rule devnet_in_stamp [OF devnet_in_stage [OF assms(2)]]) simp
  ultimately show ?thesis unfolding goes_well_def
    by (intro exI [of _ ?rc'] exI [of _ "[(FCloud (QSave ?rc' (cr_owner r)), WCloud (RUnit (Inr ())))]"]) simp
qed

text \<open>One host of a batch: the call starts, the answer is taken, the record is saved.\<close>

lemma run_take:
  assumes "env w = devnet_env rc0" and "devnet_in s (fw_rec w)" and "t \<in> set devnet_ntargets"
  shows "\<exists>rc e. take_result r action accept_all t (Inr o1) ((), []) w = (Inr ((), []), w\<lparr>fw_rec := rc, hist := e # hist w\<rparr>) \<and> devnet_in s rc"
proof -
  let ?t0 = "100 + int (length (hist w))"
  let ?rc = "(fw_rec w)\<lparr>rc_deployment := map_option (\<lambda>d. d\<lparr>dp_nodes := fmupd (nt_name t) ((dep_at d (nt_name t))\<lparr>dn_observed := ?t0\<rparr>) (dp_nodes d)\<rparr>) (rc_deployment (fw_rec w))\<rparr>"
  have e: "env (w\<lparr>fw_rec := ?rc\<rparr>) = devnet_env rc0" using assms(1) by simp
  show ?thesis
    using run_save [OF e, of "cr_owner r"] devnet_in_stamp [OF devnet_in_observed [OF assms(2,3), of ?t0]] assms(1)
    by (simp add: take_result_def accept_all_def run_steps now_def set_dep_node_def set_dep_def set_frec_def) (intro exI conjI, rule refl, simp_all)
qed

lemma run_batch:
  assumes "env w = devnet_env rc0" and "devnet_in s (fw_rec w)" and "set ts \<subseteq> set devnet_ntargets"
  shows "\<exists>rc new. batch (map (\<lambda>t. (t, g t)) ts) [] ((), []) (take_result r action accept_all) w = (Inr ((), []), w\<lparr>fw_rec := rc, hist := new @ hist w\<rparr>) \<and>
    devnet_in s rc \<and> length new = 4 * length ts"
  using assms
proof (induction ts arbitrary: w)
  case Nil
  then show ?case by (subst batch.simps) (auto simp: run_steps intro!: exI [of _ "fw_rec w"] exI [of _ "[]"])
next
  case (Cons t ts)
  let ?o = "devnet_answer (Suc (length (hist w))) (g t)"
  let ?w2 = "w\<lparr>hist := (FNext, WNext 0) # (FHost (g t), WSeen (Inr ?o)) # (FNext, WNext 0) # hist w\<rparr>"
  obtain rc e where t: "take_result r action accept_all t (Inr ?o) ((), []) ?w2 = (Inr ((), []), ?w2\<lparr>fw_rec := rc, hist := e # hist ?w2\<rparr>)" "devnet_in s rc"
    using run_take [of ?w2 rc0 s t r action ?o] Cons.prems by auto
  let ?w3 = "?w2\<lparr>fw_rec := rc, hist := e # hist ?w2\<rparr>"
  obtain rc' new where u: "batch (map (\<lambda>t. (t, g t)) ts) [] ((), []) (take_result r action accept_all) ?w3 =
      (Inr ((), []), ?w3\<lparr>fw_rec := rc', hist := new @ hist ?w3\<rparr>)" "devnet_in s rc'" "length new = 4 * length ts"
    using Cons.IH [of ?w3] Cons.prems t(2) by auto
  have "batch (map (\<lambda>t. (t, g t)) (t # ts)) [] ((), []) (take_result r action accept_all) w =
      batch (map (\<lambda>t. (t, g t)) ts) [] ((), []) (take_result r action accept_all) ?w3"
    using t(1) Cons.prems(1)
    by (subst batch.simps, simp add: run_steps run_ask, subst batch.simps, simp add: run_steps run_ask without_def)
  then show ?case
    using u by (intro exI [of _ rc'] exI [of _ "new @ e # (FNext, WNext 0) # (FHost (g t), WSeen (Inr ?o)) # [(FNext, WNext 0)]"]) simp
qed

lemma each_goes_well:
  assumes "env w = devnet_env rc0" and "devnet_in s (fw_rec w)" and "set ts \<subseteq> set devnet_ntargets" and "length ts \<le> 14"
  shows "goes_well (devnet_in s) 60 (each r p ts action f accept_all ()) w"
proof -
  obtain rc new where b: "batch (map (\<lambda>t. (t, f (runtime_request (cr_refs r) p (fw_rec w) t action))) ts) [] ((), []) (take_result r action accept_all) w =
      (Inr ((), []), w\<lparr>fw_rec := rc, hist := new @ hist w\<rparr>)" "devnet_in s rc" "length new = 4 * length ts"
    using run_batch [OF assms(1-3), of "\<lambda>t. f (runtime_request (cr_refs r) p (fw_rec w) t action)" r action] by auto
  show ?thesis unfolding goes_well_def
    using b assms(4) by (intro exI [of _ rc] exI [of _ new]) (simp add: each_def run_steps joined_failures_def)
qed

lemma live_goes_well:
  assumes "env w = devnet_env rc0" and "devnet_in s (fw_rec w)" and "s \<in> set dep_stages"
  shows "goes_well (devnet_in s) 2 (bnd (gets fw_rec) (live_scope devnet_runner devnet_lplan)) w"
  unfolding goes_well_def using devnet_live_scope [OF devnet_in_state [OF assms(2,3)] assms(1)] assms(2)
  by (intro exI [of _ "fw_rec w"] exI [of _ "[devnet_listed]"]) (simp add: run_steps)

section \<open>A fleet is stopped\<close>

lemma devnet_begun: "devnet_in ''ready'' (begin_deployment r devnet_lplan devnet_record)"
proof -
  let ?put = "\<lambda>t d. d\<lparr>dp_nodes := fmupd (nt_name t) ((dep_at d (nt_name t))\<lparr>dn_phase := ''pending'', dn_observed := 0\<rparr>) (dp_nodes d)\<rparr>"
  let ?d = "devnet_deployment\<lparr>dp_phase := ''deploying'', dp_observed := 0\<rparr>"
  have k: "devnet_dep_ok s (fold ?put ts d)" if "devnet_dep_ok s d" "set ts \<subseteq> set devnet_ntargets" for s d ts
    using that by (induction ts arbitrary: d) (auto intro: devnet_dep_touch)
  have "devnet_node_ok x n" if "fmlookup (dp_nodes devnet_deployment) x = Some n" for x n
    using devnet_dep_nodes(2) [OF that]
    by (auto simp: devnet_node_ok_def devnet_dep_node_def dep_node_phases_def intro!: exI [of _ "''ready''"] exI [of _ 9])
  then have "devnet_dep_ok ''ready'' ?d"
    by (auto simp: devnet_dep_ok_def devnet_deployment_fields)
  then have "devnet_dep_ok ''ready'' (fold ?put devnet_ntargets ?d)" by (rule k) simp
  then show ?thesis
    by (simp add: devnet_in_def begin_deployment_def devnet_record_def devnet_bare_def devnet_computed_def new_record_def)
qed

lemma devnet_bplan_id: "bp_id devnet_bplan = sample_hex"
proof -
  have "check_access devnet_plan devnet_access = Inr ()" by code_simp
  then show ?thesis
    using devnet_plan_valid devnet_lock_valid by (simp add: devnet_bplan_def build_bootstrap_def Let_def sample_hash_def sample_hex_def)
qed

lemma devnet_miner: "\<exists>m \<in> set devnet_ntargets. miner_of devnet_lplan = Some m"
proof -
  have "filter (\<lambda>t. nt_role t = ''wallet'') devnet_ntargets \<noteq> []" using devnet_targets_valid(4) by (auto simp: role_count_def)
  moreover have "find (\<lambda>t. nt_role t = ''miner'') devnet_ntargets = None" using devnet_targets_valid(5) by (auto simp: role_count_def find_None_iff filter_empty_conv)
  ultimately obtain m where "miner_of devnet_lplan = Some m" "find (\<lambda>t. nt_role t = ''wallet'') devnet_ntargets = Some m"
    by (cases "find (\<lambda>t. nt_role t = ''wallet'') devnet_ntargets") (auto simp: miner_of_def wallet_of_def find_None_iff filter_empty_conv)
  then show ?thesis by (auto simp: find_Some_iff)
qed

lemma devnet_claimed: "check_claimed devnet_runner devnet_lplan halt devnet_record = Inr ()" "check_prior devnet_runner devnet_lplan devnet_record = Inr ()"
proof -
  have b: "bootstrapped devnet_lplan devnet_record"
    using devnet_bplan_id by (simp add: bootstrapped_def devnet_record_def devnet_bare_def)
  have e: "effective_images sample_refs devnet_lplan devnet_record = Inr (plan_images devnet_lplan)" "\<not> unfinished devnet_record" "rc_join devnet_record = None"
    "rc_deployment devnet_record = Some devnet_deployment"
    by (simp_all add: effective_images_def unfinished_def devnet_record_def devnet_bare_def new_record_def)
  have h: "cr_hash devnet_runner = sample_hash" "cr_refs devnet_runner = sample_refs" by (simp_all add: devnet_runner_def)
  show "check_claimed devnet_runner devnet_lplan halt devnet_record = Inr ()" "check_prior devnet_runner devnet_lplan devnet_record = Inr ()"
    using b e devnet_record_valid by (simp_all add: check_claimed_def check_prior_def h devnet_deployment_fields)
qed

lemma bnd_ret: "bnd (ret x) f = f x"
  by (simp add: bnd_def ret_def)

lemma halt_goes_well:
  assumes "env w = devnet_env rc0" and "devnet_in s (fw_rec w)"
  shows "goes_well (\<lambda>_. True) 132 (halt_fleet devnet_runner devnet_lplan) w"
proof -
  obtain m where m: "m \<in> set devnet_ntargets" "miner_of devnet_lplan = Some m" using devnet_miner by blast
  let ?rest = "filter (\<lambda>t. nt_name t \<noteq> nt_name m) devnet_ntargets"
  have l: "length ?rest \<le> 14" "set ?rest \<subseteq> set devnet_ntargets"
    using length_filter_le [of "\<lambda>t. nt_name t \<noteq> nt_name m" devnet_ntargets] by (auto simp: devnet_ntargets_def)
  have last: "goes_well (\<lambda>_. True) 10 (sq (set_dep (\<lambda>d. d\<lparr>dp_phase := ''stopped''\<rparr>)) (enter_stage devnet_runner ''stopped'')) v"
    if "env v = devnet_env rc0" for v
    unfolding goes_well_def enter_stage_def set_dep_def set_frec_def run_steps(2) [of "modify _"] run_steps(10) prod.case sum.case
    by (subst run_save [of _ rc0], simp add: that) (rule exI, rule exI [of _ "[x]" for x], simp)
  have rest: "goes_well (\<lambda>_. True) (60 + 10) (sq (each devnet_runner devnet_lplan ?rest ''stop'' plain accept_all ())
      (sq (set_dep (\<lambda>d. d\<lparr>dp_phase := ''stopped''\<rparr>)) (enter_stage devnet_runner ''stopped''))) v"
    if "env v = devnet_env rc0" "devnet_in ''stopping'' (fw_rec v)" for v
    by (rule goes_well_sq [OF each_goes_well [OF that l(2,1)]], rule last) (simp add: that)
  have fleet: "goes_well (\<lambda>_. True) (60 + (60 + 10)) (sq (each devnet_runner devnet_lplan [m] ''stop'' plain accept_all ())
      (sq (each devnet_runner devnet_lplan ?rest ''stop'' plain accept_all ())
      (sq (set_dep (\<lambda>d. d\<lparr>dp_phase := ''stopped''\<rparr>)) (enter_stage devnet_runner ''stopped'')))) v"
    if "env v = devnet_env rc0" "devnet_in ''stopping'' (fw_rec v)" for v
    by (rule goes_well_sq [OF each_goes_well [OF that]], use m in simp, simp, rule rest) (simp_all add: that)
  have "goes_well (\<lambda>_. True) (2 + (60 + (60 + 10))) (halt_fleet devnet_runner devnet_lplan) w"
    unfolding halt_fleet_def m(2) must_def option.case devnet_parts bnd_ret
    by (rule goes_well_sq [OF enter_stage_goes_well [OF assms]], rule fleet) (simp_all add: assms)
  then show ?thesis by simp
qed

section \<open>Whole runs\<close>

text \<open>What runs before the first request.\<close>

lemma run_front:
  "bnd (gets g) m w = m (g w) w" "sq (modify u) k w = k (u w)" "sq (lift (Inl e)) k w = (Inl e, w)" "sq (lift (Inr ())) k w = k w"
  "sq (lift (Inr x)) k w = k w"
  by (simp_all add: run_steps)

text \<open>From the claimed record of the sample devnet to the end of an execution.\<close>

lemma execute_goes_well:
  assumes e: "env w = devnet_env rc0" and r: "fw_rec w = devnet_record"
    and last: "\<And>v. env v = devnet_env rc0 \<Longrightarrow> devnet_in ''preflight'' (fw_rec v) \<Longrightarrow> length (hist v) < length (hist w) + 70 \<Longrightarrow>
      goes_well (\<lambda>_. True) k (if halt then halt_fleet devnet_runner devnet_lplan else if verify_first devnet_record
        then verify_or_deploy devnet_runner devnet_lplan else deploy devnet_runner devnet_lplan) v"
  shows "\<exists>w'. execute_claimed devnet_runner devnet_lplan halt w = (Inr (), w') \<and> env w' = devnet_env rc0"
proof -
  let ?last = "if halt then halt_fleet devnet_runner devnet_lplan else if verify_first devnet_record
        then verify_or_deploy devnet_runner devnet_lplan else deploy devnet_runner devnet_lplan"
  let ?w = "w\<lparr>fw_rec := begin_deployment devnet_runner devnet_lplan devnet_record, fw_changed := True\<rparr>"
  have pre: "''preflight'' \<in> set dep_stages" by (simp add: dep_stages_def)
  have insp: "goes_well (\<lambda>_. True) (60 + k) (sq (each devnet_runner devnet_lplan devnet_ntargets ''inspect'' plain accept_all ()) ?last) v"
    if v: "env v = devnet_env rc0" "devnet_in ''preflight'' (fw_rec v)" "length (hist v) < length (hist w) + 4" for v
    by (rule goes_well_sq [OF each_goes_well [OF v(1,2)]], simp, simp add: devnet_ntargets_def, rule last) (use v in simp_all)
  have live: "goes_well (\<lambda>_. True) (2 + (60 + k)) (sq (bnd (gets fw_rec) (live_scope devnet_runner devnet_lplan))
      (sq (each devnet_runner devnet_lplan devnet_ntargets ''inspect'' plain accept_all ()) ?last)) v"
    if v: "env v = devnet_env rc0" "devnet_in ''preflight'' (fw_rec v)" "length (hist v) < length (hist w) + 2" for v
    by (rule goes_well_sq [OF live_goes_well [OF v(1,2) pre]], rule insp) (use v in simp_all)
  have "goes_well (\<lambda>_. True) (2 + (2 + (60 + k))) (sq (enter_stage devnet_runner ''preflight'') (sq (bnd (gets fw_rec) (live_scope devnet_runner devnet_lplan))
      (sq (each devnet_runner devnet_lplan devnet_ntargets ''inspect'' plain accept_all ()) ?last))) ?w"
    by (rule goes_well_sq [OF enter_stage_goes_well [of _ rc0 "''ready''"]], simp add: e, simp add: devnet_begun, rule live) (simp_all add: e)
  then obtain rc new where "sq (enter_stage devnet_runner ''preflight'') (sq (bnd (gets fw_rec) (live_scope devnet_runner devnet_lplan))
      (sq (each devnet_runner devnet_lplan devnet_ntargets ''inspect'' plain accept_all ()) ?last)) ?w = (Inr (), ?w\<lparr>fw_rec := rc, hist := new @ hist ?w\<rparr>)"
    by (auto simp: goes_well_def)
  then have "execute_claimed devnet_runner devnet_lplan halt w = (Inr (), ?w\<lparr>fw_rec := rc, hist := new @ hist ?w\<rparr>)"
    unfolding execute_claimed_def set_frec_def set_changed_def run_front r devnet_claimed(1) devnet_parts sys.simps fworld.simps
    by (simp only: r)
  then show ?thesis using e by simp
qed

lemma run_chain:
  assumes "\<And>v rc. env v = devnet_env devnet_record \<Longrightarrow> fw_rec v = devnet_record \<Longrightarrow> length (hist v) < 10 \<Longrightarrow>
      \<exists>v'. execute_claimed devnet_runner devnet_lplan halt v = (Inr (), v') \<and> env v' = devnet_env devnet_record"
  shows "\<exists>w'. chain_execute devnet_runner devnet_lplan halt (devnet_world devnet_record) = (Inr (), w')"
proof -
  let ?w = "devnet_world devnet_record"
  let ?id = "(FCloud QIdentity, WCloud (RText (Inr (Some ''123456789012''))))"
  let ?w2 = "?w\<lparr>hist := [(FCloud (QAcquire devnet_plan (cr_owner devnet_runner)), WCloud (RRecord (Inr devnet_record))),
     (FRead devnet_plan, WStored (Inr (devnet_record, []))), ?id], fw_rec := devnet_record, fw_changed := False\<rparr>"
  obtain v where v: "execute_claimed devnet_runner devnet_lplan halt ?w2 = (Inr (), v)" "env v = devnet_env devnet_record"
    using assms [of ?w2] by (auto simp: devnet_world_def)
  have acc: "on_cloud (verify_account ''123456789012'') ?w = (Inr (), ?w\<lparr>hist := ?id # hist ?w\<rparr>)"
    by (rule devnet_account) (simp add: devnet_world_def)
  have p: "cr_hash devnet_runner = sample_hash" "cr_refs devnet_runner = sample_refs" "cr_recipe devnet_runner = ''recipe''"
    "cr_worker devnet_runner = ''worker''" "cr_remote devnet_runner" "cr_owner devnet_runner \<noteq> []" "cr_deadline devnet_runner"
    by (simp_all add: devnet_runner_def)
  have c: "lplan_compute devnet_lplan = devnet_plan" by simp
  have s: "fsettle interrupted_deployment ''save interruption'' [] devnet_plan (cr_owner devnet_runner) (Inr ()) v =
      (Inr (), v\<lparr>hist := (FCloud (QRelease devnet_plan (cr_owner devnet_runner)), WCloud (RUnit (Inr ()))) # hist v\<rparr>)"
    using v(2) by (simp add: fsettle_def run_steps run_fcall devnet_env_def join_errors_def)
  have a: "answer (devnet_env devnet_record) h (FCloud (QAcquire q o1)) = WCloud (RRecord (Inr devnet_record))" for h q o1
    by (simp add: devnet_env_def)
  have w: "env ?w = devnet_env devnet_record" "hist ?w = []" by (simp_all add: devnet_world_def)
  show ?thesis
    using v(1) s acc by (simp add: chain_execute_def Let_def c p devnet_lplan_valid run_steps run_fcall w devnet_claimed(2) a begin_run_def)
qed

text \<open>The sample fleet is stopped.\<close>

lemma devnet_halts: "\<exists>w'. chain_execute devnet_runner devnet_lplan True (devnet_world devnet_record) = (Inr (), w')"
  by (rule run_chain, rule execute_goes_well [where k = 132]) (simp_all add: halt_goes_well)

lemma verify_goes_well:
  assumes e: "env w = devnet_env rc0" and d: "devnet_in ''preflight'' (fw_rec w)" and l: "length (hist w) < 100"
  shows "goes_well (\<lambda>_. True) 200 (verify_or_deploy devnet_runner devnet_lplan) w"
proof -
  have hs: "''health'' \<in> set dep_stages" by (simp add: dep_stages_def)
  have go: "goes_well (\<lambda>_. True) 198 (bnd (current_doctor devnet_runner devnet_lplan) (\<lambda>h. if cl_healthy h then accept_health devnet_runner h
      else deploy devnet_runner devnet_lplan)) v"
    if v: "env v = devnet_env rc0" "devnet_in ''health'' (fw_rec v)" "length (hist v) < 110" for v
  proof -
    obtain d where dd: "rc_deployment (fw_rec v) = Some d" using v(2) by (auto simp: devnet_in_def)
    have lv: "length (hist v) < 2 ^ 61" using v(3) by simp
    obtain new h where doc: "chain_doctor devnet_runner devnet_lplan (fw_rec v) v = (Inr h, v\<lparr>hist := new @ hist v\<rparr>)" "length new < 100" "cl_healthy h"
      using devnet_healthy [OF devnet_in_state [OF v(2) hs] dd devnet_in_good(2,1,3) [OF v(2) dd] v(1) lv] by blast
    let ?v = "v\<lparr>hist := new @ hist v\<rparr>"
    obtain rc e2 where acc: "accept_health devnet_runner h ?v = (Inr (), ?v\<lparr>fw_rec := rc, hist := e2 # hist ?v\<rparr>)"
    proof -
      let ?rc = "(fw_rec v)\<lparr>rc_error := None, rc_deployment := Some (d\<lparr>dp_nodes := dp_nodes (accept_nodes h d), dp_phase := ''network-ready'',
        dp_observed := cl_observed h, dp_stage := ''ready''\<rparr>)\<rparr>"
      have "env (?v\<lparr>fw_rec := ?rc\<rparr>) = devnet_env rc0" using v(1) by simp
      from that run_save [OF this, of "cr_owner devnet_runner"] show thesis
        by (simp add: accept_health_def enter_stage_def set_dep_def set_frec_def run_steps dd accept_nodes_def)
    qed
    show ?thesis unfolding goes_well_def
      using doc acc by (intro exI [of _ rc] exI [of _ "e2 # new"]) (simp add: current_doctor_def run_steps)
  qed
  have "goes_well (\<lambda>_. True) (2 + 198) (verify_or_deploy devnet_runner devnet_lplan) w"
    unfolding verify_or_deploy_def
    by (rule goes_well_sq [OF enter_stage_goes_well [OF e d]], rule go) (use e l in simp_all)
  then show ?thesis by simp
qed

text \<open>Its completed deployment is verified again.\<close>

lemma devnet_verifies: "\<exists>w'. chain_execute devnet_runner devnet_lplan False (devnet_world devnet_record) = (Inr (), w')"
proof -
  have "verify_first devnet_record" by (simp add: verify_first_def devnet_record_def devnet_deployment_fields)
  then show ?thesis by (intro run_chain execute_goes_well [where k = 200]) (simp_all add: verify_goes_well)
qed

lemma devnet_world_hist [simp]: "hist (devnet_world rc) = []"
  by (simp add: devnet_world_def)

text \<open>A fleet that was never deployed cannot be stopped: the execution fails on its claimed record.\<close>

lemma devnet_refuses:
  "chain_execute devnet_runner devnet_lplan True (devnet_world devnet_bare) =
    (Inl (Err ''cannot stop a deployment that has never started''), (devnet_world devnet_bare)\<lparr>hist :=
      [(FCloud (QRelease devnet_plan (cr_owner devnet_runner)), WCloud (RUnit (Inr ()))),
       (FCloud (QAcquire devnet_plan (cr_owner devnet_runner)), WCloud (RRecord (Inr devnet_bare))),
       (FRead devnet_plan, WStored (Inr (devnet_bare, []))), (FCloud QIdentity, WCloud (RText (Inr (Some ''123456789012''))))]\<rparr>)"
proof -
  let ?w = "devnet_world devnet_bare"
  have acc: "on_cloud (verify_account ''123456789012'') ?w = (Inr (), ?w\<lparr>hist := (FCloud QIdentity, WCloud (RText (Inr (Some ''123456789012'')))) # hist ?w\<rparr>)"
    by (rule devnet_account) (simp add: devnet_world_def)
  have p: "cr_hash devnet_runner = sample_hash" "cr_refs devnet_runner = sample_refs" "cr_recipe devnet_runner = ''recipe''"
    "cr_worker devnet_runner = ''worker''" "cr_remote devnet_runner" "cr_owner devnet_runner \<noteq> []" "cr_deadline devnet_runner"
    by (simp_all add: devnet_runner_def)
  have e: "effective_images sample_refs devnet_lplan devnet_bare = Inr (plan_images devnet_lplan)" "\<not> unfinished devnet_bare" "rc_join devnet_bare = None"
    "rc_deployment devnet_bare = None" "bootstrapped devnet_lplan devnet_bare"
    using devnet_bplan_id by (simp_all add: effective_images_def unfinished_def bootstrapped_def devnet_bare_def new_record_def)
  have k: "check_prior devnet_runner devnet_lplan devnet_bare = Inr ()"
    "check_claimed devnet_runner devnet_lplan True devnet_bare = Inl (Err ''cannot stop a deployment that has never started'')"
    using e devnet_bare_valid by (simp_all add: check_claimed_def check_prior_def p)
  have a: "answer (devnet_env devnet_bare) h (FCloud (QAcquire q o1)) = WCloud (RRecord (Inr devnet_bare))"
    "answer (devnet_env devnet_bare) h (FCloud (QRelease q o1)) = WCloud (RUnit (Inr ()))" for h q o1
    by (simp_all add: devnet_env_def)
  have w: "?w = \<lparr>env = devnet_env devnet_bare, hist = [], fw_rec = devnet_bare, fw_changed = False\<rparr>" by (simp add: devnet_world_def)
  show ?thesis
    using acc by (simp add: chain_execute_def Let_def p devnet_lplan_valid run_steps run_fcall w k a begin_run_def execute_claimed_def
      fsettle_def join_errors_def)
qed

end
