(* ===== verification/Deploy_Safety.thy ===== *)
theory Deploy_Safety
  imports Deploy_Guard Deploy_Sample
begin

text \<open>
  Safety and outcome of a deployment, for every behaviour of the hosts, of AWS, of the journal and of
  the scheduler: write-ahead stages, the order of a stop, and what a run that reports success leaves.
\<close>

section \<open>The evidence a deployment gathers\<close>

interpretation started: evidence "\<lambda>_. True"
  by unfold_locales simp

interpretation frozen: evidence "stopped_miner p" for p
  by unfold_locales (auto simp: stopped_miner_def answered_def)

type_synonym chain_hist = "(nrequest freq, nobservation freply) hist"

text \<open>The last checkpoint of a run: the record in memory was acknowledged and nothing followed.\<close>

definition checkpointed :: "crunner \<Rightarrow> oprec \<Rightarrow> chain_hist \<Rightarrow> chain_hist \<Rightarrow> bool" where
  "checkpointed r rc h0 h \<longleftrightarrow> h = (FCloud (QSave rc (cr_owner r)), WCloud (RUnit (Inr ()))) # h0"

lemma checkpointed_journal: "checkpointed r rc h0 h \<Longrightarrow> journaled saved_record h = Some rc"
  by (simp add: checkpointed_def)

context evidence
begin

lemma wp_last_save:
  assumes "calm p E w"
  shows "wp (enter_stage r s) (\<lambda>_ w'. calm p E w' \<and> checkpointed r (fw_rec w') (hist w) (hist w') \<and>
      rc_deployment (fw_rec w') = map_option (\<lambda>d. d\<lparr>dp_stage := s\<rparr>) (rc_deployment (fw_rec w)) \<and>
      rc_error (fw_rec w') = rc_error (fw_rec w)) (\<lambda>_. calm p E) w"
proof -
  let ?rc = "(fw_rec w)\<lparr>rc_deployment := map_option (\<lambda>d. d\<lparr>dp_stage := s\<rparr>) (rc_deployment (fw_rec w))\<rparr>"
  have k: "calm p E (w\<lparr>fw_rec := stamp t ?rc, hist := (FCloud (QSave (stamp t ?rc) owner), a) # hist w\<rparr>)" for t a owner
    using assms by (simp add: calm_def lasts quiet_deploy)
  show ?thesis
    using k by (auto simp: enter_stage_def set_dep_def fsave_def set_frec_def wp_bnd wp_now wp_sq wp_modify wp_gets wp_fcall Let_def
      checkpointed_def stamp_def split: sum.splits dest!: as_unit_Inr)
qed

lemma keeps_calm_save: "keeps (calm p E) (fsave owner)"
  unfolding fsave_def set_frec_def
  by (rule wp_keeps) (auto simp: wp_bnd wp_now wp_sq wp_modify wp_gets wp_fcall Let_def calm_def lasts quiet_deploy split: sum.splits)

lemma keeps_calm_settle: "keeps (calm p E) (fsettle mark saving releasing c owner res)"
proof -
  have rel: "keeps (calm p E) (fcall (FCloud (QRelease c owner)) f)" for f :: "nobservation freply \<Rightarrow> unit res"
    by (rule wp_keeps) (auto simp: wp_fcall Let_def calm_def lasts quiet_deploy split: sum.splits)
  have set: "keeps (calm p E) (set_frec g)" for g
    unfolding set_frec_def by (rule keeps_modify) (simp add: calm_def)
  show ?thesis unfolding fsettle_def by (intro keeps_intros rel set keeps_calm_save)
qed

end

section \<open>A healthy end\<close>

text \<open>The verdict a deployment ends with: two samples of the fleet just before the last checkpoint, and
  the checkpoint says what the verdict said.\<close>

definition ends_ready :: "crunner \<Rightarrow> lplan \<Rightarrow> oprec \<Rightarrow> chain_hist \<Rightarrow> bool" where
  "ends_ready r p rc h \<longleftrightarrow> (\<exists>rc0 hc h0 h1 d. two_samples r p rc0 h0 hc h1 \<and> cl_healthy hc \<and> at_stage p [''health''] rc0 \<and>
     checkpointed r rc h1 h \<and> rc_deployment rc = Some d \<and> dp_plan d = lp_id p \<and> dp_phase d = ''network-ready'' \<and>
     dp_stage d = ''ready'' \<and> dp_observed d = cl_observed hc \<and> rc_error rc = None)"


definition ready_post :: "crunner \<Rightarrow> lplan \<Rightarrow> (chain_hist \<Rightarrow> bool) \<Rightarrow> cworld \<Rightarrow> bool" where
  "ready_post r p E w \<longleftrightarrow> calm p E w \<and> ends_ready r p (fw_rec w) (hist w)"

context evidence
begin

lemma wp_accept_health:
  assumes c: "staged p ''health'' E w" and two: "two_samples r p rc0 h0 hc (hist w)" "cl_healthy hc" "at_stage p [''health''] rc0"
  shows "wp (accept_health r hc) (\<lambda>_. ready_post r p E) (\<lambda>_. calm p E) w"
proof -
  obtain d where d: "rc_deployment (fw_rec w) = Some d" "dp_plan d = lp_id p"
    using c by (auto simp: staged_def at_stage_def split: option.splits)
  let ?d = "(accept_nodes hc d)\<lparr>dp_phase := ''network-ready'', dp_observed := cl_observed hc\<rparr>"
  let ?w = "w\<lparr>fw_rec := (fw_rec w)\<lparr>rc_deployment := Some ?d, rc_error := None\<rparr>\<rparr>"
  have k: "calm p E ?w" using staged_calm [OF c] by (simp add: calm_def)
  have e: "rc_deployment (fw_rec ?w) = Some ?d" "hist ?w = hist w" "rc_error (fw_rec ?w) = None" "dp_plan ?d = lp_id p"
    using d by (simp_all add: accept_nodes_def)
  have "wp (enter_stage r ''ready'') (\<lambda>_. ready_post r p E) (\<lambda>_. calm p E) ?w"
    by (rule wp_conseq [OF wp_last_save [OF k]]) (use two e in \<open>auto simp: ready_post_def ends_ready_def\<close>)
  then show ?thesis
    using d(1) by (simp add: accept_health_def set_dep_def set_frec_def wp_sq wp_modify)
qed

lemma wp_current_doctor:
  assumes "staged p ''health'' E w"
  shows "wp (current_doctor r p) (\<lambda>hc w'. staged p ''health'' E w' \<and> (\<exists>rc0. two_samples r p rc0 (hist w) hc (hist w') \<and> at_stage p [''health''] rc0))
    (\<lambda>_. calm p E) w"
proof -
  have a: "at_stage p [''health''] (fw_rec w)" using assms by (simp add: staged_def)
  have two: "wp (current_doctor r p) (\<lambda>hc w'. two_samples r p (fw_rec w) (hist w) hc (hist w')) (\<lambda>_ _. True) w"
    unfolding current_doctor_def wp_bnd wp_gets by (rule wp_conseq [OF wp_chain_doctor]) auto
  show ?thesis
    by (rule wp_conseq [OF wp_conj [OF keeps_wp [OF keeps_current_doctor, OF assms] two]]) (use a staged_calm in blast)+
qed

lemma wp_health_loop:
  assumes "staged p ''health'' E w"
  shows "wp (health_loop r p n) (\<lambda>_. ready_post r p E) (\<lambda>_. calm p E) w"
  using assms
proof (induction n arbitrary: w)
  case 0
  then show ?case by (simp add: wp_fail staged_calm)
next
  case (Suc n)
  have again: "wp (sq (wrapf c chain_wait) (health_loop r p n)) (\<lambda>_. ready_post r p E) (\<lambda>_. calm p E) v" if "staged p ''health'' E v" for v c
    unfolding wp_sq by (rule wp_conseq [OF keeps_wp [OF keeps_wrapf [OF keeps_chain_wait], OF that]], erule Suc.IH, erule staged_calm)
  have turn: "wp (if cl_healthy hc then accept_health r hc else sq (wrapf c chain_wait) (health_loop r p n)) (\<lambda>_. ready_post r p E) (\<lambda>_. calm p E) v"
    if s: "staged p ''health'' E v \<and> (\<exists>rc0. two_samples r p rc0 h0 hc (hist v) \<and> at_stage p [''health''] rc0)" for v hc c h0
  proof (cases "cl_healthy hc")
    case True
    obtain rc0 where "two_samples r p rc0 h0 hc (hist v)" "at_stage p [''health''] rc0" "staged p ''health'' E v" using s by blast
    then show ?thesis using wp_accept_health True by (simp only: if_True)
  next
    case False
    then show ?thesis using s again by (simp only: if_False)
  qed
  show ?case
    unfolding health_loop.simps wp_bnd [of "current_doctor r p"]
    by (rule wp_conseq [OF wp_current_doctor [OF Suc.prems]], erule turn)
qed

lemma wp_deploy_platform:
  assumes "staged p ''quorums'' E w"
  shows "wp (deploy_platform r p) (\<lambda>_. ready_post r p E) (\<lambda>_. calm p E) w"
proof -
  have start: "keeps (staged p ''platform-start'' E) (bnd get_dep (\<lambda>d. each r p (validators p) ''platform-start''
      (set_peers (chain_peers p d) (dp_genesis_height d)) accept_platform ()))"
    unfolding get_dep_def by (intro keeps_intros keeps_each_action keeps_accept) (simp_all add: action_stages_def)
  have check: "wp (sq (enter_stage r ''health'') (health_loop r p n)) (\<lambda>_. ready_post r p E) (\<lambda>_. calm p E) v" if "begun p E v" for v n
    unfolding wp_sq by (rule wp_conseq [OF wp_enter_stage [OF that]], erule wp_health_loop)
  have plat: "wp (sq (enter_stage r ''platform-start'') (sq (bnd get_dep (\<lambda>d. each r p (validators p) ''platform-start''
      (set_peers (chain_peers p d) (dp_genesis_height d)) accept_platform ())) (sq (enter_stage r ''health'') (health_loop r p n))))
      (\<lambda>_. ready_post r p E) (\<lambda>_. calm p E) v" if "begun p E v" for v n
    by (rule wp_in_stage [OF that start check]) (erule staged_begun)
  show ?thesis
    unfolding deploy_platform_def wp_sq [of "quorum_loop r p (cr_polls r)"]
    by (rule wp_conseq [OF keeps_wp [OF keeps_quorum_loop, OF assms]], rule plat, erule staged_begun, erule staged_calm)
qed

lemma wp_deploy:
  assumes "begun p E w"
  shows "wp (deploy r p) (\<lambda>_ v. calm p E v \<and> (\<not> cr_core_only r \<longrightarrow> ready_post r p E v)) (\<lambda>_. calm p E) w"
proof -
  have last: "wp (if cr_core_only r then ret () else deploy_platform r p) (\<lambda>_ v. calm p E v \<and> (\<not> cr_core_only r \<longrightarrow> ready_post r p E v))
      (\<lambda>_. calm p E) v" if "staged p ''quorums'' E v" for v
    using that by (auto simp: wp_ret ready_post_def intro: staged_calm wp_conseq [OF wp_deploy_platform])
  show ?thesis
    unfolding deploy_def wp_sq
    by (rule wp_conseq [OF wp_deploy_core [OF assms]], drule staged_begun, rule wp_conseq [OF wp_deploy_registered], assumption,
      drule staged_begun, rule wp_conseq [OF wp_deploy_synced], assumption, erule last)
qed

lemma wp_verify_or_deploy:
  assumes "begun p E w"
  shows "wp (verify_or_deploy r p) (\<lambda>_ v. calm p E v \<and> (\<not> cr_core_only r \<longrightarrow> ready_post r p E v)) (\<lambda>_. calm p E) w"
proof -
  have go: "wp (if cl_healthy hc then accept_health r hc else deploy r p) (\<lambda>_ v. calm p E v \<and> (\<not> cr_core_only r \<longrightarrow> ready_post r p E v))
      (\<lambda>_. calm p E) v" if v: "staged p ''health'' E v \<and> (\<exists>rc0. two_samples r p rc0 h0 hc (hist v) \<and> at_stage p [''health''] rc0)" for v hc h0
  proof (cases "cl_healthy hc")
    case True
    obtain rc0 where "two_samples r p rc0 h0 hc (hist v)" "at_stage p [''health''] rc0" "staged p ''health'' E v" using v by blast
    then have "wp (accept_health r hc) (\<lambda>_. ready_post r p E) (\<lambda>_. calm p E) v" using wp_accept_health True by simp
    then show ?thesis unfolding if_P [OF True] by (rule wp_conseq) (simp_all add: ready_post_def)
  next
    case False
    then show ?thesis using v wp_deploy staged_begun by (simp only: if_False) blast
  qed
  have doctor: "wp (bnd (current_doctor r p) (\<lambda>hc. if cl_healthy hc then accept_health r hc else deploy r p))
      (\<lambda>_ v. calm p E v \<and> (\<not> cr_core_only r \<longrightarrow> ready_post r p E v)) (\<lambda>_. calm p E) v" if "staged p ''health'' E v" for v
    unfolding wp_bnd [of "current_doctor r p"] by (rule wp_conseq [OF wp_current_doctor [OF that]], erule go)
  show ?thesis
    unfolding verify_or_deploy_def wp_sq
    by (rule wp_conseq [OF wp_enter_stage [OF assms]], erule doctor)
qed

end


section \<open>A stop\<close>

lemma wp_into:
  assumes "\<And>a w'. wp (f a) Q (\<lambda>_ _. True) w'"
  shows "wp (bnd m f) Q (\<lambda>_ _. True) w"
  unfolding wp_bnd using assms by (simp add: wp_def split: prod.splits sum.splits)

lemma take_result_fails:
  "wp (take_result r action accept t out st) (\<lambda>st' _. snd st' = [] \<longrightarrow> snd st = [] \<and> (\<exists>o1. out = Inr o1)) (\<lambda>_ _. True) w"
proof -
  obtain s errs where st: "st = (s, errs)" by fastforce
  show ?thesis
  proof (cases out)
    case (Inl e)
    show ?thesis unfolding take_result_def st Inl prod.case sum.case wp_bnd [of "ret _"] wp_ret sq_def
      by (intro wp_into) (simp add: wp_ret)
  next
    case (Inr o1)
    show ?thesis unfolding take_result_def st Inr prod.case sum.case sq_def
      by (intro wp_into) (simp add: wp_ret)
  qed
qed

text \<open>Operations only extend the history.\<close>

lemma keeps_seen_save: "keeps (\<lambda>w. x \<in> set (hist w)) (fsave owner)" "keeps (\<lambda>w. x \<in> set (hist w)) (set_dep_node y f)"
  "keeps (\<lambda>w. x \<in> set (hist w)) (set_dep g)"
proof -
  show "keeps (\<lambda>w. x \<in> set (hist w)) (fsave owner)"
    unfolding fsave_def set_frec_def
    by (rule wp_keeps) (auto simp: wp_bnd wp_now wp_sq wp_modify wp_gets wp_fcall Let_def split: sum.splits)
  show "keeps (\<lambda>w. x \<in> set (hist w)) (set_dep g)" for g
    unfolding set_dep_def set_frec_def by (rule keeps_modify) simp
  then show "keeps (\<lambda>w. x \<in> set (hist w)) (set_dep_node y f)" by (simp add: set_dep_node_def)
qed

text \<open>A batch that succeeds has an answer of every one of its hosts.\<close>

lemma wp_each_answered:
  assumes "\<And>x t o1 st. keeps (\<lambda>w. x \<in> set (hist w)) (accept t o1 st)"
  shows "wp (each r p ts action f accept st) (\<lambda>_ w'. \<exists>rc. \<forall>t \<in> set ts. answered (f (runtime_request (cr_refs r) p rc t action)) (hist w'))
    (\<lambda>_ _. True) w"
proof -
  let ?rc = "fw_rec w"
  let ?jobs = "map (\<lambda>t. (t, f (runtime_request (cr_refs r) p ?rc t action))) ts"
  have grow: "keeps (\<lambda>w. x \<in> set (hist w)) (take_result r action accept t out st)" for x t out st
    unfolding take_result_def by (cases st) (auto intro!: keeps_intros keeps_seen_save assms)
  have b: "wp (batch ?jobs [] (st, []) (take_result r action accept))
      (\<lambda>st' w'. snd st' = [] \<longrightarrow> (\<forall>(t, q) \<in> set ?jobs. answered q (hist w'))) (\<lambda>_ _. True) w"
    by (rule wp_batch_answered [OF grow take_result_fails])
  have e: "wp (case st' of (s', errs) \<Rightarrow> sq (lift (joined_failures errs)) (ret s'))
      (\<lambda>_ w'. \<exists>rc. \<forall>t \<in> set ts. answered (f (runtime_request (cr_refs r) p rc t action)) (hist w')) (\<lambda>_ _. True) v"
    if "snd st' = [] \<longrightarrow> (\<forall>(t, q) \<in> set ?jobs. answered q (hist v))" for st' :: "'c \<times> gerr list" and v
    using that by (cases st') (auto simp: wp_sq wp_lift wp_ret joined_failures_def)
  show ?thesis
    unfolding each_def wp_bnd [of "gets fw_rec"] wp_gets wp_bnd [of "batch _ _ _ _"]
    by (rule wp_conseq [OF b], rule e) auto
qed

lemma keeps_seen_accept_all: "keeps (\<lambda>w. x \<in> set (hist w)) (accept_all t o1 st)"
  by (simp add: accept_all_def keeps_ret)

definition host_stopped :: "ntarget \<Rightarrow> chain_hist \<Rightarrow> bool" where
  "host_stopped t h \<longleftrightarrow> (\<exists>q. answered q h \<and> nq_action q = ''stop'' \<and> nt_name (nq_target q) = nt_name t)"

lemma wp_each_stopped:
  "wp (each r p ts ''stop'' plain accept_all ()) (\<lambda>_ w'. \<forall>t \<in> set ts. host_stopped t (hist w')) (\<lambda>_ _. True) w"
proof (rule wp_conseq [OF wp_each_answered])
  show "keeps (\<lambda>w. x \<in> set (hist w)) (accept_all t o1 st)" for x t o1 st by (rule keeps_seen_accept_all)
  fix w' :: cworld assume "\<exists>rc. \<forall>t \<in> set ts. answered (plain (runtime_request (cr_refs r) p rc t ''stop'')) (hist w')"
  then obtain rc where "\<forall>t \<in> set ts. answered (plain (runtime_request (cr_refs r) p rc t ''stop'')) (hist w')" by blast
  then show "\<forall>t \<in> set ts. host_stopped t (hist w')"
    using decorated [OF decorates_simps(1)] unfolding host_stopped_def by blast
qed simp

lemma host_stopped_grows: "host_stopped t h \<Longrightarrow> set h \<subseteq> set h' \<Longrightarrow> host_stopped t h'"
  by (auto simp: host_stopped_def answered_def)

definition halted_post :: "crunner \<Rightarrow> lplan \<Rightarrow> cworld \<Rightarrow> bool" where
  "halted_post r p w \<longleftrightarrow> (\<forall>t \<in> set (lp_targets p). host_stopped t (hist w)) \<and>
     (\<exists>h0 d. checkpointed r (fw_rec w) h0 (hist w) \<and> rc_deployment (fw_rec w) = Some d \<and> dp_plan d = lp_id p \<and>
        dp_phase d = ''stopped'' \<and> dp_stage d = ''stopped'')"


lemma miner_stopped: "nt_name m = miner_name p \<Longrightarrow> host_stopped m h \<longleftrightarrow> stopped_miner p h"
  by (simp add: host_stopped_def stopped_miner_def)

lemma frozen_calm: "calm p (stopped_miner p) w \<Longrightarrow> calm p (\<lambda>_. True) w"
  by (simp add: calm_def)

lemma wp_halt_miner:
  assumes "staged p ''stopping'' (\<lambda>_. True) w" and "nt_name m = miner_name p"
  shows "wp (each r p [m] ''stop'' plain accept_all ()) (\<lambda>_. staged p ''stopping'' (stopped_miner p)) (\<lambda>_. calm p (\<lambda>_. True)) w"
proof -
  have k: "keeps (staged p ''stopping'' (\<lambda>_. True)) (each r p [m] ''stop'' plain accept_all ())"
    by (rule started.keeps_each) (use assms(2) in \<open>auto simp: allowed_def decorated action_stages_def intro: started.keeps_accept\<close>)
  show ?thesis
    by (rule wp_conseq [OF wp_conj [OF keeps_wp [OF k, OF assms(1)] wp_each_stopped]])
      (auto simp: staged_def calm_def miner_stopped [OF assms(2)])
qed

lemma wp_halt_rest:
  assumes "staged p ''stopping'' (stopped_miner p) w" and m: "nt_name m = miner_name p"
  shows "wp (each r p (filter (\<lambda>t. nt_name t \<noteq> nt_name m) (lp_targets p)) ''stop'' plain accept_all ())
    (\<lambda>_ v. staged p ''stopping'' (stopped_miner p) v \<and> (\<forall>t \<in> set (lp_targets p). host_stopped t (hist v))) (\<lambda>_. calm p (\<lambda>_. True)) w"
proof -
  let ?ts = "filter (\<lambda>t. nt_name t \<noteq> nt_name m) (lp_targets p)"
  have k: "keeps (staged p ''stopping'' (stopped_miner p)) (each r p ?ts ''stop'' plain accept_all ())"
    by (rule frozen.keeps_each) (auto simp: allowed_def decorated action_stages_def intro: frozen.keeps_accept)
  show ?thesis
  proof (rule wp_conseq [OF wp_conj [OF keeps_wp [OF k, OF assms(1)] wp_each_stopped]])
    fix v :: cworld assume v: "staged p ''stopping'' (stopped_miner p) v \<and> (\<forall>t \<in> set ?ts. host_stopped t (hist v))"
    then have "stopped_miner p (hist v)" by (simp add: staged_def calm_def)
    then have "host_stopped t (hist v)" if "t \<in> set (lp_targets p)" for t
      using v that miner_stopped [of t p "hist v"] m by (cases "nt_name t = nt_name m") auto
    then show "staged p ''stopping'' (stopped_miner p) v \<and> (\<forall>t \<in> set (lp_targets p). host_stopped t (hist v))" using v by blast
  qed (auto simp: staged_def calm_def)
qed

lemma wp_halt_fleet:
  assumes "begun p (\<lambda>_. True) w"
  shows "wp (halt_fleet r p) (\<lambda>_ v. calm p (\<lambda>_. True) v \<and> halted_post r p v) (\<lambda>_. calm p (\<lambda>_. True)) w"
proof -
  let ?Q = "\<lambda>_ v. calm p (\<lambda>_. True) v \<and> halted_post r p v" and ?E = "\<lambda>_. calm p (\<lambda>_. True)"
  have finish: "wp (sq (set_dep (\<lambda>d. d\<lparr>dp_phase := ''stopped''\<rparr>)) (enter_stage r ''stopped'')) ?Q ?E v"
    if v: "staged p ''stopping'' (stopped_miner p) v \<and> (\<forall>t \<in> set (lp_targets p). host_stopped t (hist v))" for v
  proof -
    obtain d where d: "rc_deployment (fw_rec v) = Some d" "dp_plan d = lp_id p" and c: "calm p (\<lambda>_. True) v"
      using v by (auto simp: staged_def at_stage_def calm_def split: option.splits)
    let ?v = "v\<lparr>fw_rec := (fw_rec v)\<lparr>rc_deployment := Some (d\<lparr>dp_phase := ''stopped''\<rparr>)\<rparr>\<rparr>"
    have c': "calm p (\<lambda>_. True) ?v" using c by (simp add: calm_def)
    have "wp (enter_stage r ''stopped'') ?Q ?E ?v"
    proof (rule wp_conseq [OF started.wp_last_save [OF c']])
      fix x and v' :: cworld
      assume a: "calm p (\<lambda>_. True) v' \<and> checkpointed r (fw_rec v') (hist ?v) (hist v') \<and>
        rc_deployment (fw_rec v') = map_option (\<lambda>d. d\<lparr>dp_stage := ''stopped''\<rparr>) (rc_deployment (fw_rec ?v)) \<and> rc_error (fw_rec v') = rc_error (fw_rec ?v)"
      then have "set (hist v) \<subseteq> set (hist v')" by (auto simp: checkpointed_def)
      then show "calm p (\<lambda>_. True) v' \<and> halted_post r p v'"
        using a v d host_stopped_grows by (fastforce simp: halted_post_def)
    qed
    then show ?thesis using d(1) by (simp add: set_dep_def set_frec_def wp_sq wp_modify)
  qed
  have rest: "wp (sq (each r p (filter (\<lambda>t. nt_name t \<noteq> nt_name m) (lp_targets p)) ''stop'' plain accept_all ())
      (sq (set_dep (\<lambda>d. d\<lparr>dp_phase := ''stopped''\<rparr>)) (enter_stage r ''stopped''))) ?Q ?E v"
    if "staged p ''stopping'' (stopped_miner p) v" "nt_name m = miner_name p" for m v
    unfolding wp_sq [of "each r p ts ''stop'' plain accept_all ()" for ts] by (rule wp_conseq [OF wp_halt_rest [OF that]], erule finish)
  have fleet: "wp (bnd (must (miner_of p)) (\<lambda>m. sq (each r p [m] ''stop'' plain accept_all ())
      (sq (each r p (filter (\<lambda>t. nt_name t \<noteq> nt_name m) (lp_targets p)) ''stop'' plain accept_all ())
      (sq (set_dep (\<lambda>d. d\<lparr>dp_phase := ''stopped''\<rparr>)) (enter_stage r ''stopped''))))) ?Q ?E v"
    if s: "staged p ''stopping'' (\<lambda>_. True) v" for v
  proof (cases "miner_of p")
    case None
    then show ?thesis using s by (simp add: must_def wp_bnd wp_fail started.staged_calm)
  next
    case (Some m)
    then have m: "nt_name m = miner_name p" by (simp add: miner_name_def)
    show ?thesis
      unfolding must_def Some option.case wp_bnd [of "ret _"] wp_ret wp_sq [of "each r p [m] ''stop'' plain accept_all ()"]
      by (rule wp_conseq [OF wp_halt_miner [OF s m]], erule rest, rule m)
  qed
  show ?thesis
    unfolding halt_fleet_def wp_sq [of "enter_stage r ''stopping''"]
    by (rule wp_conseq [OF started.wp_enter_stage [OF assms]], erule fleet)
qed

section \<open>The whole execution\<close>

lemma begun_deployment:
  assumes "check_claimed r p halt rc = Inr ()"
  shows "\<exists>d. rc_deployment (begin_deployment r p rc) = Some d \<and> dp_plan d = lp_id p \<and> dp_phase d = ''deploying''"
proof -
  have f: "dp_plan (fold (\<lambda>t d. d\<lparr>dp_nodes := g t d\<rparr>) ts d) = dp_plan d \<and> dp_phase (fold (\<lambda>t d. d\<lparr>dp_nodes := g t d\<rparr>) ts d) = dp_phase d"
    for ts g and d :: deployment
    by (induction ts arbitrary: d) auto
  show ?thesis
    using assms by (cases "rc_deployment rc") (auto simp: check_claimed_def begin_deployment_def Let_def f after_def split: if_splits sum.splits)
qed

definition outcome :: "crunner \<Rightarrow> lplan \<Rightarrow> bool \<Rightarrow> cworld \<Rightarrow> bool" where
  "outcome r p halt w \<longleftrightarrow> (if halt then halted_post r p w else cr_core_only r \<or> ends_ready r p (fw_rec w) (hist w))"

lemma wp_execute_claimed:
  assumes "calm p (\<lambda>_. True) w"
  shows "wp (execute_claimed r p halt) (\<lambda>_ v. calm p (\<lambda>_. True) v \<and> outcome r p halt v) (\<lambda>_. calm p (\<lambda>_. True)) w"
proof -
  let ?Q = "\<lambda>_ v. calm p (\<lambda>_. True) v \<and> outcome r p halt v" and ?E = "\<lambda>_. calm p (\<lambda>_. True)"
  have live: "keeps (staged p ''preflight'' (\<lambda>_. True)) (bnd (gets fw_rec) (live_scope r p))"
    by (intro keeps_intros keeps_chain_doctor(2) started.on_stage.peeking_invariant_axioms)
  have insp: "keeps (staged p ''preflight'' (\<lambda>_. True)) (each r p (lp_targets p) ''inspect'' plain accept_all ())"
    by (intro started.keeps_each_action started.keeps_accept) (simp_all add: action_stages_def)
  have last: "wp (if halt then halt_fleet r p else if verify_first rc then verify_or_deploy r p else deploy r p) ?Q ?E v"
    if b: "begun p (\<lambda>_. True) v" for v rc
  proof (cases halt)
    case True
    then show ?thesis using wp_halt_fleet [OF b] by (simp add: outcome_def)
  next
    case False
    have "wp (if verify_first rc then verify_or_deploy r p else deploy r p)
        (\<lambda>_ v. calm p (\<lambda>_. True) v \<and> (\<not> cr_core_only r \<longrightarrow> ready_post r p (\<lambda>_. True) v)) ?E v"
      using started.wp_verify_or_deploy [OF b] started.wp_deploy [OF b] by simp
    then show ?thesis unfolding if_not_P [OF False] by (rule wp_conseq) (use False in \<open>auto simp: outcome_def ready_post_def\<close>)
  qed
  have run: "wp (sq (enter_stage r ''preflight'') (sq (bnd (gets fw_rec) (live_scope r p)) (sq (each r p (lp_targets p) ''inspect'' plain accept_all ())
      (if halt then halt_fleet r p else if verify_first rc then verify_or_deploy r p else deploy r p)))) ?Q ?E v"
    if "begun p (\<lambda>_. True) v" for v rc
  proof (rule started.wp_in_stage [OF that live])
    fix u :: cworld assume u: "staged p ''preflight'' (\<lambda>_. True) u"
    show "wp (sq (each r p (lp_targets p) ''inspect'' plain accept_all ())
      (if halt then halt_fleet r p else if verify_first rc then verify_or_deploy r p else deploy r p)) ?Q ?E u"
      unfolding wp_sq by (rule wp_conseq [OF keeps_wp [OF insp, OF u]], rule last, erule staged_begun, erule started.staged_calm)
  qed
  have b: "begun p (\<lambda>_. True) (w\<lparr>fw_rec := begin_deployment r p (fw_rec w), fw_changed := True\<rparr>)" if "check_claimed r p halt (fw_rec w) = Inr ()"
    using begun_deployment [OF that] assms by (simp add: begun_def calm_def)
  have start: "execute_claimed r p halt w = (case check_claimed r p halt (fw_rec w) of Inl e \<Rightarrow> (Inl e, w)
      | Inr _ \<Rightarrow> sq (enter_stage r ''preflight'') (sq (bnd (gets fw_rec) (live_scope r p)) (sq (each r p (lp_targets p) ''inspect'' plain accept_all ())
        (if halt then halt_fleet r p else if verify_first (fw_rec w) then verify_or_deploy r p else deploy r p)))
        (w\<lparr>fw_rec := begin_deployment r p (fw_rec w), fw_changed := True\<rparr>))"
    by (cases "check_claimed r p halt (fw_rec w)") (simp_all only: execute_claimed_def set_frec_def set_changed_def run_front sum.case sys.simps fworld.simps)
  show ?thesis
  proof (cases "check_claimed r p halt (fw_rec w)")
    case (Inl e)
    then show ?thesis using assms unfolding wp_def start by simp
  next
    case (Inr u)
    then have "check_claimed r p halt (fw_rec w) = Inr ()" by simp
    from run [OF b [OF this], unfolded wp_def] show ?thesis unfolding wp_def start Inr sum.case .
  qed
qed


text \<open>The deferred function ends with the release on every exit; it lets a success through unchanged.\<close>

lemma wp_fsettle:
  "wp (fsettle mark saving releasing c owner res)
     (\<lambda>_ w'. res = Inr () \<and> fw_rec w' = fw_rec w \<and> (\<exists>a. hist w' = (FCloud (QRelease c owner), a) # hist w))
     (\<lambda>_ w'. \<exists>a h0. hist w' = (FCloud (QRelease c owner), a) # h0) (w :: cworld)"
proof -
  let ?tail = "\<lambda>res'. bnd (attempt (fcall (FCloud (QRelease c owner)) (as_unit \<circ> cloud_reply))) (\<lambda>s.
     lift (join_errors res' (case s of Inl e2 \<Rightarrow> Inl (if releasing = [] then e2 else At releasing e2) | Inr _ \<Rightarrow> Inr ()))) :: unit coper"
  let ?rel = "\<lambda>w w'. \<exists>a. hist w' = (FCloud (QRelease c owner), a) # hist w"
  have tail: "wp (?tail res') (\<lambda>_ w'. res' = Inr () \<and> fw_rec w' = fw_rec v \<and> ?rel v w') (\<lambda>_. ?rel v) v" for res' v
    by (cases res') (auto simp: wp_bnd wp_attempt wp_fcall wp_lift Let_def join_errors_def split: sum.splits)
  show ?thesis
  proof (cases res)
    case (Inr u)
    show ?thesis
      unfolding fsettle_def wp_bnd [of "gets _"] wp_gets Inr sum.case wp_bnd [of "ret _"] wp_ret
      by (rule wp_conseq [OF tail]) auto
  next
    case (Inl e)
    let ?mark = "\<lambda>changed. (if changed then sq (set_frec (\<lambda>r. (mark r)\<lparr>rc_error := Some e\<rparr>)) (bnd (attempt (fsave owner))
       (\<lambda>s. ret (join_errors (Inl e) (case s of Inl e2 \<Rightarrow> Inl (At saving e2) | Inr _ \<Rightarrow> Inr ())))) else ret (Inl e)) :: unit res coper"
    have failed: "\<exists>e'. join_errors (Inl e) x = Inl e'" for x by (cases x) (auto simp: join_errors_def)
    have m: "wp (?mark changed) (\<lambda>res' _. \<exists>e'. res' = Inl e') (\<lambda>_ _. False) v" for changed v
    proof (cases changed)
      case True
      have "wp (attempt (fsave owner)) (\<lambda>_ _. True) (\<lambda>_ _. False) u" for u :: cworld
        by (simp add: wp_attempt) (simp add: wp_def split: prod.splits sum.splits)
      then show ?thesis unfolding if_P [OF True] set_frec_def wp_sq wp_modify wp_bnd wp_ret
        by (rule wp_conseq) (rule failed, assumption)
    qed (simp add: wp_ret)
    show ?thesis
      unfolding fsettle_def wp_bnd [of "gets _"] wp_gets Inl sum.case wp_bnd [of "?mark _"]
    proof (rule wp_conseq [OF m])
      fix res' :: "unit res" and v :: cworld assume "\<exists>e'. res' = Inl e'"
      then show "wp (?tail res') (\<lambda>_ w'. Inl e = Inr () \<and> fw_rec w' = fw_rec w \<and> ?rel w w') (\<lambda>_ w'. \<exists>a h0. hist w' = (FCloud (QRelease c owner), a) # h0) v"
        by (intro wp_conseq [OF tail]) auto
    qed simp
  qed
qed

section \<open>The theorems\<close>

lemma keeps_calm_quiet: "acts q = None \<Longrightarrow> keeps (calm p (\<lambda>_. True)) (fcall q f)"
  by (rule wp_keeps) (auto simp: wp_fcall Let_def calm_def quiet_deploy split: sum.splits)

lemma calm_run: "calm p (\<lambda>_. True) w \<Longrightarrow> calm p (\<lambda>_. True) (w\<lparr>fw_rec := rc, fw_changed := b\<rparr>)"
  by (simp add: calm_def)

text \<open>What holds after any run, and what after a successful one.\<close>

definition succeeded :: "crunner \<Rightarrow> lplan \<Rightarrow> bool \<Rightarrow> cworld \<Rightarrow> bool" where
  "succeeded r p halt v \<longleftrightarrow> (\<exists>u a. outcome r p halt u \<and> fw_rec v = fw_rec u \<and>
     hist v = (FCloud (QRelease (lplan_compute p) (cr_owner r)), a) # hist u)"

lemma wp_chain_execute:
  assumes "calm p (\<lambda>_. True) w"
  shows "wp (chain_execute r p halt) (\<lambda>_ v. calm p (\<lambda>_. True) v \<and> succeeded r p halt v) (\<lambda>_. calm p (\<lambda>_. True)) w"
proof -
  let ?C = "calm p (\<lambda>_. True)"
  let ?Q = "\<lambda>_ v. ?C v \<and> succeeded r p halt v"
  let ?settle = "fsettle interrupted_deployment ''save interruption'' [] (lplan_compute p) (cr_owner r)"
  have settle: "wp (?settle res) ?Q (\<lambda>_. ?C) v" if "?C v" "res = Inr () \<longrightarrow> outcome r p halt v" for res v
    by (rule wp_conseq [OF wp_conj [OF keeps_wp [OF started.keeps_calm_settle, OF that(1)] wp_fsettle]]) (use that(2) in \<open>auto simp: succeeded_def\<close>)
  have claimed: "wp (bnd (attempt (execute_claimed r p halt)) ?settle) ?Q (\<lambda>_. ?C) v" if "?C v" for v
    unfolding wp_bnd wp_attempt by (rule wp_conseq [OF wp_execute_claimed [OF that]]; rule settle) simp_all
  have acquire: "wp (bnd (fcall (FCloud (QAcquire (lplan_compute p) (cr_owner r))) (as_record \<circ> cloud_reply)) (\<lambda>rc.
      sq (begin_run rc) (bnd (attempt (execute_claimed r p halt)) ?settle))) ?Q (\<lambda>_. ?C) v" if "?C v" for v
    unfolding wp_bnd [of "fcall _ _"]
    by (rule wp_conseq [OF keeps_wp [OF keeps_calm_quiet, OF _ that]]) (auto simp: begin_run_def wp_sq wp_modify intro: claimed calm_run)
  have body: "wp (bnd (fcall (FRead (lplan_compute p)) stored_reply) (\<lambda>(prior, _). sq (lift (check_prior r p prior))
      (bnd (fcall (FCloud (QAcquire (lplan_compute p) (cr_owner r))) (as_record \<circ> cloud_reply)) (\<lambda>rc.
      sq (begin_run rc) (bnd (attempt (execute_claimed r p halt)) ?settle))))) ?Q (\<lambda>_. ?C) v" if "?C v" for v
    unfolding wp_bnd [of "fcall (FRead _) _"]
    by (rule wp_conseq [OF keeps_wp [OF keeps_calm_quiet, OF _ that]])
      (auto simp: wp_sq wp_lift split: prod.splits sum.splits intro: acquire)
  show ?thesis
    unfolding chain_execute_def Let_def wp_sq [of "on_cloud _"] wp_sq [of "lift _"] wp_sq [of "reject_if _ _"] wp_reject_if wp_lift
    using assms by (auto split: sum.splits intro!: wp_conseq [OF keeps_wp [OF started.on_calm.keeps_on_account]] body)
qed

lemma run_is_calm:
  assumes "chain_execute r p halt w = (res, w')" and "hist w = []"
  shows "guarded (deploy_guard p) (hist w')" "res = Inr () \<Longrightarrow> succeeded r p halt w'"
proof -
  have "calm p (\<lambda>_. True) w" using assms(2) by (simp add: calm_def)
  from wp_chain_execute [OF this, of r halt] assms(1) show "guarded (deploy_guard p) (hist w')" "res = Inr () \<Longrightarrow> succeeded r p halt w'"
    by (auto simp: wp_def calm_def split: sum.splits)
qed

lemma guarded_deploy: "guarded (deploy_guard p) h \<Longrightarrow> guarded (intent_guard saved_record acts (announced p)) h"
  "guarded (deploy_guard p) h \<Longrightarrow> guarded (halts_in_order p) h"
  by (induction h) (auto simp: deploy_guard_def)

text \<open>C5: A deployment writes ahead. In every run, whatever the hosts, AWS, the journal and the scheduler
  answer, each request to a host that is more than a status query is preceded by an acknowledged save,
  the latest one before it, of a record in which this plan's deployment is in progress at a stage in
  which that action belongs: a checkpoint on the journal always tells what may be running.\<close>

theorem deploy_writes_ahead:
  assumes "chain_execute r p halt w = (res, w')" and "hist w = []"
    and "hist w' = newer @ (FHost q, a) # older" and "\<not> chain_observes q"
  shows "\<exists>mid rc owner old d. older = mid @ (FCloud (QSave rc owner), WCloud (RUnit (Inr ()))) # old \<and>
    (\<forall>(q', r') \<in> set mid. saved_record q' r' = None) \<and> rc_deployment rc = Some d \<and> dp_plan d = lp_id p \<and>
    dp_phase d = ''deploying'' \<and> dp_stage d \<in> set (action_stages (nq_action q))"
proof -
  have k: "acts (FHost q) = Some q" using assms(4) by simp
  obtain mid sq sr old rc where s: "older = mid @ (sq, sr) # old" "saved_record sq sr = Some rc" "announced p rc q"
    "\<forall>(q', r') \<in> set mid. saved_record q' r' = None"
    using deploying.effect_announced [OF guarded_deploy(1) [OF run_is_calm(1) [OF assms(1,2)]] assms(3) k] by blast
  obtain owner where "sq = FCloud (QSave rc owner)" "sr = WCloud (RUnit (Inr ()))"
    using s(2) by (cases "(sq, sr)" rule: saved_record.cases) auto
  then show ?thesis using s by (auto simp: announced_def at_stage_def split: option.splits)
qed

theorem deploy_writes_ahead_witness:
  "\<exists>w' newer q a older mid rc owner old d. chain_execute devnet_runner devnet_lplan True (devnet_world devnet_record) = (Inr (), w') \<and>
    hist w' = newer @ (FHost q, a) # older \<and> nq_action q = ''stop'' \<and>
    older = mid @ (FCloud (QSave rc owner), WCloud (RUnit (Inr ()))) # old \<and> rc_deployment rc = Some d \<and> dp_stage d = ''stopping''"
proof -
  obtain w' where r: "chain_execute devnet_runner devnet_lplan True (devnet_world devnet_record) = (Inr (), w')" using devnet_halts by blast
  obtain u a where u: "halted_post devnet_runner devnet_lplan u" "hist w' = (FCloud (QRelease devnet_plan (cr_owner devnet_runner)), a) # hist u"
    using run_is_calm(2) [OF r devnet_world_hist refl] by (auto simp: succeeded_def outcome_def)
  obtain t where "t \<in> set (lp_targets devnet_lplan)" using devnet_miner by auto
  then obtain q o1 where q: "(FHost q, WSeen (Inr o1)) \<in> set (hist w')" "nq_action q = ''stop''"
    using u by (fastforce simp: halted_post_def host_stopped_def answered_def)
  then obtain newer older where s: "hist w' = newer @ (FHost q, WSeen (Inr o1)) # older" by (meson split_list)
  have "\<not> chain_observes q" using q(2) by (simp add: chain_observes_def)
  from deploy_writes_ahead [OF r devnet_world_hist s this] r s q(2) show ?thesis
    by (simp add: action_stages_def) blast
qed

text \<open>C10: A stop freezes block production first. In every run each stop of a host other than the miner
  comes after an answered stop of the miner; and when an order to stop succeeds, every target of the plan
  has answered its stop and the last checkpoint records this deployment as stopped.\<close>

theorem stop_freezes_miner:
  assumes "chain_execute r p halt w = (res, w')" and "hist w = []"
  shows "(\<forall>newer q a older. hist w' = newer @ (FHost q, a) # older \<and> nq_action q = ''stop'' \<and> nt_name (nq_target q) \<noteq> miner_name p \<longrightarrow>
      (\<exists>m o1. (FHost m, WSeen (Inr o1)) \<in> set older \<and> nq_action m = ''stop'' \<and> nt_name (nq_target m) = miner_name p)) \<and>
    (halt \<and> res = Inr () \<longrightarrow>
      (\<forall>t \<in> set (lp_targets p). \<exists>q o1. (FHost q, WSeen (Inr o1)) \<in> set (hist w') \<and> nq_action q = ''stop'' \<and> nt_name (nq_target q) = nt_name t) \<and>
      (\<exists>rc d. journaled saved_record (hist w') = Some rc \<and> rc_deployment rc = Some d \<and> dp_plan d = lp_id p \<and>
        dp_phase d = ''stopped'' \<and> dp_stage d = ''stopped''))"
proof (intro conjI impI allI)
  fix newer q a older
  assume h: "hist w' = newer @ (FHost q, a) # older \<and> nq_action q = ''stop'' \<and> nt_name (nq_target q) \<noteq> miner_name p"
  have "halts_in_order p older (FHost q)"
    using guarded_split [OF guarded_deploy(2) [OF run_is_calm(1) [OF assms]]] h by blast
  then show "\<exists>m o1. (FHost m, WSeen (Inr o1)) \<in> set older \<and> nq_action m = ''stop'' \<and> nt_name (nq_target m) = miner_name p"
    using h by (auto simp: halts_in_order_def chain_observes_def stopped_miner_def answered_def)
next
  assume h: "halt \<and> res = Inr ()"
  then obtain u a where u: "halted_post r p u" "hist w' = (FCloud (QRelease (lplan_compute p) (cr_owner r)), a) # hist u"
    using run_is_calm(2) [OF assms] by (auto simp: succeeded_def outcome_def)
  show "\<forall>t \<in> set (lp_targets p). \<exists>q o1. (FHost q, WSeen (Inr o1)) \<in> set (hist w') \<and> nq_action q = ''stop'' \<and> nt_name (nq_target q) = nt_name t"
    using u by (fastforce simp: halted_post_def host_stopped_def answered_def)
  show "\<exists>rc d. journaled saved_record (hist w') = Some rc \<and> rc_deployment rc = Some d \<and> dp_plan d = lp_id p \<and>
      dp_phase d = ''stopped'' \<and> dp_stage d = ''stopped''"
    using u by (auto simp: halted_post_def dest: checkpointed_journal)
qed

theorem stop_freezes_miner_witness:
  "\<exists>w' q o1 rc d. chain_execute devnet_runner devnet_lplan True (devnet_world devnet_record) = (Inr (), w') \<and>
    (FHost q, WSeen (Inr o1)) \<in> set (hist w') \<and> nq_action q = ''stop'' \<and> nt_name (nq_target q) = miner_name devnet_lplan \<and>
    journaled saved_record (hist w') = Some rc \<and> rc_deployment rc = Some d \<and> dp_phase d = ''stopped''"
proof -
  obtain w' where r: "chain_execute devnet_runner devnet_lplan True (devnet_world devnet_record) = (Inr (), w')" using devnet_halts by blast
  obtain m where m: "m \<in> set (lp_targets devnet_lplan)" "nt_name m = miner_name devnet_lplan" using devnet_miner by (auto simp: miner_name_def)
  have s: "\<forall>t \<in> set (lp_targets devnet_lplan). \<exists>q o1. (FHost q, WSeen (Inr o1)) \<in> set (hist w') \<and> nq_action q = ''stop'' \<and> nt_name (nq_target q) = nt_name t"
    "\<exists>rc d. journaled saved_record (hist w') = Some rc \<and> rc_deployment rc = Some d \<and> dp_plan d = lp_id devnet_lplan \<and>
      dp_phase d = ''stopped'' \<and> dp_stage d = ''stopped''"
    using stop_freezes_miner [OF r devnet_world_hist] by blast+
  obtain q o1 where "(FHost q, WSeen (Inr o1)) \<in> set (hist w')" "nq_action q = ''stop''" "nt_name (nq_target q) = nt_name m"
    using bspec [OF s(1) m(1)] by blast
  with s(2) r m(2) show ?thesis by metis
qed

text \<open>C9: What a finished deployment has shown. When a run that is not limited to Core reports success, its
  last exchanges are the acknowledged checkpoint of the record it returns and the release of the
  claim, and just before them two samples of the whole fleet, taken around the waiting window on this
  record's deployment, were judged healthy; the checkpoint records this plan as network-ready at the
  time of that judgement, with no error. Success is never a flag read back from the journal.\<close>

theorem deploy_ready:
  assumes "chain_execute r p False w = (Inr (), w')" and "hist w = []" and "\<not> cr_core_only r"
  shows "\<exists>rel h rc0 hc h0 d. hist w' = (FCloud (QRelease (lplan_compute p) (cr_owner r)), rel) #
      (FCloud (QSave (fw_rec w') (cr_owner r)), WCloud (RUnit (Inr ()))) # h \<and>
    two_samples r p rc0 h0 hc h \<and> cl_healthy hc \<and> at_stage p [''health''] rc0 \<and>
    rc_deployment (fw_rec w') = Some d \<and> dp_plan d = lp_id p \<and> dp_phase d = ''network-ready'' \<and> dp_stage d = ''ready'' \<and>
    dp_observed d = cl_observed hc \<and> rc_error (fw_rec w') = None"
proof -
  have "\<exists>h a. ends_ready r p (fw_rec w') h \<and> hist w' = (FCloud (QRelease (lplan_compute p) (cr_owner r)), a) # h"
    using run_is_calm(2) [OF assms(1,2)] assms(3) by (auto simp: succeeded_def outcome_def)
  then show ?thesis unfolding ends_ready_def checkpointed_def by metis
qed

theorem deploy_ready_witness:
  "\<exists>w' d. chain_execute devnet_runner devnet_lplan False (devnet_world devnet_record) = (Inr (), w') \<and>
    rc_deployment (fw_rec w') = Some d \<and> dp_phase d = ''network-ready''"
proof -
  obtain w' where r: "chain_execute devnet_runner devnet_lplan False (devnet_world devnet_record) = (Inr (), w')" using devnet_verifies by blast
  have "\<not> cr_core_only devnet_runner" by (simp add: devnet_runner_def)
  from deploy_ready [OF r devnet_world_hist this] r show ?thesis by blast
qed

section \<open>The claim is given back\<close>

definition claimed_by :: "crunner \<Rightarrow> lplan \<Rightarrow> chain_hist \<Rightarrow> bool" where
  "claimed_by r p h \<longleftrightarrow> (\<exists>rc. (FCloud (QAcquire (lplan_compute p) (cr_owner r)), WCloud (RRecord (Inr rc))) \<in> set h)"

definition released_last :: "crunner \<Rightarrow> lplan \<Rightarrow> chain_hist \<Rightarrow> bool" where
  "released_last r p h \<longleftrightarrow> (\<exists>a h0. h = (FCloud (QRelease (lplan_compute p) (cr_owner r)), a) # h0)"

interpretation unclaimed: peeking_invariant "\<lambda>w :: cworld. \<not> claimed_by r p (hist w)" chain_observes for r p
  by unfold_locales (auto simp: claimed_by_def reads_def inspects_def)

text \<open>C11: An execution never leaves its claim behind. In every run, if the journal granted the claim on
  the network, the last request of the run is the release of that claim by the same owner, on every
  exit: success, a failed check, a failed host or a lost checkpoint.\<close>

theorem claim_given_back:
  assumes "chain_execute r p halt w = (res, w')" and "hist w = []"
  shows "(\<exists>rc. (FCloud (QAcquire (lplan_compute p) (cr_owner r)), WCloud (RRecord (Inr rc))) \<in> set (hist w')) \<longrightarrow>
    (\<exists>a h. hist w' = (FCloud (QRelease (lplan_compute p) (cr_owner r)), a) # h)"
proof -
  let ?N = "\<lambda>w :: cworld. \<not> claimed_by r p (hist w)" and ?I = "\<lambda>w :: cworld. claimed_by r p (hist w) \<longrightarrow> released_last r p (hist w)"
  have "wp (chain_execute r p halt) (\<lambda>_. ?I) (\<lambda>_. ?I) w"
  proof -
    let ?settle = "fsettle interrupted_deployment ''save interruption'' [] (lplan_compute p) (cr_owner r)"
    have settle: "wp (bnd (attempt (execute_claimed r p halt)) ?settle) (\<lambda>_. ?I) (\<lambda>_. ?I) v" for v
    proof -
      have "wp (?settle res) (\<lambda>_. ?I) (\<lambda>_. ?I) u" for res u
        by (rule wp_conseq [OF wp_fsettle]) (auto simp: released_last_def)
      then show ?thesis unfolding wp_bnd wp_attempt by (simp add: wp_def split: prod.splits sum.splits)
    qed
    have acquire: "wp (bnd (fcall (FCloud (QAcquire (lplan_compute p) (cr_owner r))) (as_record \<circ> cloud_reply)) (\<lambda>rc.
        sq (begin_run rc) (bnd (attempt (execute_claimed r p halt)) ?settle))) (\<lambda>_. ?I) (\<lambda>_. ?I) v" if "?N v" for v
    proof -
      have none: "\<not> claimed_by r p ((FCloud (QAcquire (lplan_compute p) (cr_owner r)), a) # hist v)" if "(as_record \<circ> cloud_reply) a = Inl e" for a e
        using \<open>?N v\<close> that by (auto simp: claimed_by_def )
      show ?thesis unfolding wp_bnd [of "fcall _ _"] wp_fcall Let_def
        using settle none by (auto simp: begin_run_def wp_sq wp_modify split: sum.splits)
    qed
    have body: "wp (bnd (fcall (FRead (lplan_compute p)) stored_reply) (\<lambda>(prior, _). sq (lift (check_prior r p prior))
        (bnd (fcall (FCloud (QAcquire (lplan_compute p) (cr_owner r))) (as_record \<circ> cloud_reply)) (\<lambda>rc.
        sq (begin_run rc) (bnd (attempt (execute_claimed r p halt)) ?settle))))) (\<lambda>_. ?I) (\<lambda>_. ?I) v" if "?N v" for v
      unfolding wp_bnd [of "fcall (FRead _) _"]
      by (rule wp_conseq [OF keeps_wp [OF unclaimed.keeps_peek, OF _ that]])
        (auto simp: wp_sq wp_lift split: prod.splits sum.splits intro: acquire)
    have "?N w" using assms(2) by (simp add: claimed_by_def)
    then show ?thesis
      unfolding chain_execute_def Let_def wp_sq [of "on_cloud _"] wp_sq [of "lift _"] wp_sq [of "reject_if _ _"] wp_reject_if wp_lift
      by (auto split: sum.splits intro!: wp_conseq [OF keeps_wp [OF unclaimed.keeps_on_account]] body)
  qed
  then show ?thesis using assms(1) by (auto simp: wp_def claimed_by_def released_last_def split: sum.splits)
qed

theorem claim_given_back_witness:
  "\<exists>e w' a h. chain_execute devnet_runner devnet_lplan True (devnet_world devnet_bare) = (Inl e, w') \<and>
    hist w' = (FCloud (QRelease devnet_plan ''runner-1''), a) # h"
proof -
  have o: "cr_owner devnet_runner = ''runner-1''" by (simp add: devnet_runner_def)
  obtain e w' where r: "chain_execute devnet_runner devnet_lplan True (devnet_world devnet_bare) = (Inl e, w')"
    "(FCloud (QAcquire devnet_plan (cr_owner devnet_runner)), WCloud (RRecord (Inr devnet_bare))) \<in> set (hist w')"
    using devnet_refuses by simp
  then have "\<exists>rc. (FCloud (QAcquire (lplan_compute devnet_lplan) (cr_owner devnet_runner)), WCloud (RRecord (Inr rc))) \<in> set (hist w')"
    by auto
  then have "\<exists>a h. hist w' = (FCloud (QRelease (lplan_compute devnet_lplan) (cr_owner devnet_runner)), a) # h"
    by (rule mp [OF claim_given_back [OF r(1) devnet_world_hist]])
  then show ?thesis using r(1) o by auto
qed

end
