(* ===== verification/Chain_Upgrade.thy ===== *)
theory Chain_Upgrade
  imports Chain_Deploy
begin

text \<open>
  \<open>internal/lifecycle/upgrade_runner.go\<close>: the execution of a reviewed upgrade. All images are staged
  first; then one node at a time is withdrawn, replaced and verified, with the pending node saved
  before each replacement and mining paused around the replacement of a validator's Core.
\<close>

section \<open>Scope and order\<close>

definition helper_moves :: "uplan \<Rightarrow> ntarget \<Rightarrow> bool" where
  "helper_moves u t \<longleftrightarrow> mget (images_at (up_from u) (nt_name t)) ''helper'' \<noteq> mget (images_at (up_to u) (nt_name t)) ''helper''"

definition stage_targets :: "uplan \<Rightarrow> ntarget list" where
  "stage_targets u = validators (up_deployment u) @
     filter (\<lambda>t. nt_role t \<noteq> ''validator'' \<and> helper_moves u t) (lp_targets (up_deployment u))"

definition component_service :: "string \<Rightarrow> string" where
  "component_service c = (if c = ''drive'' then ''drive_abci'' else if c = ''tenderdash'' then ''drive_tenderdash''
     else if c = ''dapi'' then ''rs_dapi'' else if c = ''gateway'' then ''gateway'' else [])"

definition platform_quorum_minimum :: nat where
  "platform_quorum_minimum = 9"

text \<open>Validators first, one at a time; for a Core upgrade then fullnodes and other nodes, the mining node last.\<close>

definition upgrade_order :: "lplan \<Rightarrow> string \<Rightarrow> ntarget list" where
  "upgrade_order p scope = (if scope \<noteq> ''core'' then validators p
     else validators p @ concat (map (\<lambda>role. filter (\<lambda>t. nt_role t = role \<and> nt_name t \<noteq> miner_name p) (lp_targets p))
       [''fullnode'', ''wallet'', ''miner'']) @ (case miner_of p of None \<Rightarrow> [] | Some m \<Rightarrow> [m]))"

section \<open>Evidence of preservation\<close>

definition preserved_core :: "core_state option \<Rightarrow> preservation \<Rightarrow> bool" where
  "preserved_core c b \<longleftrightarrow> (case c of None \<Rightarrow> False
     | Some k \<Rightarrow> co_container k = pv_core b \<and> co_started k = pv_started b \<and> co_config k = pv_config b \<and> co_genesis k = pv_genesis b)"

definition missing_observation :: "string \<Rightarrow> string \<Rightarrow> gerr list \<Rightarrow> gerr" where
  "missing_observation msg x problems = (if problems \<noteq> [] then At (msg @ '' at '' @ x) (Joined problems) else Err (msg @ '' at '' @ x))"

text \<open>The nodes this rollout has reached.\<close>

definition reached :: "upgrade \<Rightarrow> string \<Rightarrow> bool" where
  "reached u x \<longleftrightarrow> completed_at u x \<or> x = ug_current u"

definition changes_at :: "upgrade \<Rightarrow> string \<Rightarrow> string list" where
  "changes_at u x = (case fmlookup (ug_changes u) x of None \<Rightarrow> [] | Some cs \<Rightarrow> cs)"

definition runtime_image :: "oprec \<Rightarrow> string \<Rightarrow> string \<Rightarrow> string" where
  "runtime_image rc x c = (case rc_runtime rc of None \<Rightarrow> [] | Some rt \<Rightarrow> mget (images_at (rt_images rt) x) c)"

definition expected_restarts :: "upgrade \<Rightarrow> string \<Rightarrow> string \<Rightarrow> int" where
  "expected_restarts u x c = (if c = ''tenderdash'' \<and> reached u x \<and> ''drive_abci'' \<in> set (changes_at u x) then 0
     else restarts_at (baseline_at u x) c)"

definition check_service :: "oprec \<Rightarrow> upgrade \<Rightarrow> string \<Rightarrow> platform_state \<Rightarrow> string \<Rightarrow> unit res" where
  "check_service rc u x pt c = (let old = baseline_at u x; moved = (mget (pt_containers pt) c \<noteq> mget (pv_containers old) c) in
     if ug_scope u = ''core'' then
       (if moved \<or> (\<not> reached u x \<and> platform_restarts pt c \<noteq> restarts_at old c)
          then Inl (Err (''Platform service changed during Core upgrade: '' @ x @ ''/'' @ c)) else Inr ())
     else if reached u x \<and> component_service c \<in> set (changes_at u x) then Inr ()
     else if runtime_image rc x c = mget (images_at (ug_from u) x) c \<and> (moved \<or> platform_restarts pt c \<noteq> expected_restarts u x c)
       then Inl (Err (''unselected/not-yet-upgraded service changed: '' @ x @ ''/'' @ c))
     else Inr ())"

definition quorum_members :: "lplan \<Rightarrow> deployment \<Rightarrow> platform_state \<Rightarrow> bool" where
  "quorum_members p d pt \<longleftrightarrow> (let ids = map to_lower (pt_validators pt) in
     distinct ids \<and> set ids \<subseteq> (\<lambda>t. dn_protx (dep_at d (nt_name t))) ` set (validators p))"

definition check_platform :: "lplan \<Rightarrow> oprec \<Rightarrow> string \<Rightarrow> ntarget \<Rightarrow> csample \<Rightarrow> preservation \<Rightarrow> preservation res" where
  "check_platform p rc pending t s b = (case cs_platform s of
     None \<Rightarrow> if nt_name t = pending then Inr b else Inl (missing_observation ''Platform observation missing'' (nt_name t) (cs_problems s))
   | Some pt \<Rightarrow>
     if pt_protocol pt \<noteq> lp_protocol p \<or> length (pt_validators pt) < platform_quorum_minimum \<or> 12 < length (pt_validators pt)
       then Inl (Err (''unsupported live protocol or quorum size at '' @ nt_name t))
     else if \<not> quorum_members p (deployment_of rc) pt then Inl (Err (''unknown/duplicate live quorum member at '' @ nt_name t))
     else after (case rc_upgrade rc of None \<Rightarrow> Inr ()
         | Some u \<Rightarrow> each_ok (check_service rc u (nt_name t) pt) [''drive'', ''tenderdash'', ''dapi'', ''gateway'']) (\<lambda>_.
       Inr (b\<lparr>pv_containers := pt_containers pt, pv_restarts := pt_restarts pt\<rparr>)))"

definition check_core :: "oprec \<Rightarrow> ntarget \<Rightarrow> core_state \<Rightarrow> unit res" where
  "check_core rc t c = (case rc_upgrade rc of None \<Rightarrow> Inr ()
   | Some u \<Rightarrow> let old = baseline_at u (nt_name t) in
     if ug_scope u = ''core'' \<and> reached u (nt_name t) then
       (if co_config c \<noteq> pv_config old \<or> co_genesis c \<noteq> pv_genesis old
          then Inl (Err (''Core configuration or genesis changed at '' @ nt_name t)) else Inr ())
     else if \<not> preserved_core (Some c) old then Inl (Err (''preserved Core changed at '' @ nt_name t)) else Inr ())"

definition target_evidence :: "lplan \<Rightarrow> oprec \<Rightarrow> string \<Rightarrow> (string, csample) fmap \<Rightarrow> ntarget \<Rightarrow> preservation res" where
  "target_evidence p rc pending observed t = (let s = sample_at observed (nt_name t) in
     (case cs_core s of
       None \<Rightarrow> (case rc_upgrade rc of
           Some u \<Rightarrow> if ug_scope u = ''core'' \<and> nt_name t = pending then Inr (baseline_at u (nt_name t))
             else Inl (missing_observation ''missing/mismatched Core'' (nt_name t) (cs_problems s))
         | None \<Rightarrow> Inl (missing_observation ''missing/mismatched Core'' (nt_name t) (cs_problems s)))
     | Some c \<Rightarrow>
       if co_genesis c \<noteq> dp_genesis (deployment_of rc) then Inl (missing_observation ''missing/mismatched Core'' (nt_name t) (cs_problems s))
       else if \<not> rfc3339 (co_started c) then Inl (Err (''missing Core process start evidence at '' @ nt_name t))
       else after (check_core rc t c) (\<lambda>_.
         let b = pv_zero\<lparr>pv_core := co_container c, pv_started := co_started c, pv_config := co_config c, pv_genesis := co_genesis c\<rparr> in
         if nt_role t = ''validator'' then check_platform p rc pending t s b else Inr b)))"

definition upgrade_evidence :: "lplan \<Rightarrow> oprec \<Rightarrow> (string, csample) fmap \<Rightarrow> string \<Rightarrow> (string, preservation) fmap res" where
  "upgrade_evidence p rc observed pending = scan_ok (\<lambda>m t. after (target_evidence p rc pending observed t) (\<lambda>b.
     Inr (fmupd (nt_name t) b m))) fmempty (lp_targets p)"

section \<open>Progress\<close>

definition set_up :: "(upgrade \<Rightarrow> upgrade) \<Rightarrow> unit coper" where
  "set_up f = set_frec (\<lambda>rc. rc\<lparr>rc_upgrade := map_option f (rc_upgrade rc)\<rparr>)"

definition upgrade_zero :: upgrade where
  "upgrade_zero = \<lparr>ug_plan = [], ug_previous = [], ug_phase = [], ug_current = [], ug_from = fmempty, ug_to = fmempty,
     ug_baseline = fmempty, ug_completed = fmempty, ug_observed = 0, ug_scope = [], ug_sidecars = [], ug_changes = fmempty\<rparr>"

definition progress_of :: "oprec \<Rightarrow> upgrade" where
  "progress_of rc = (case rc_upgrade rc of None \<Rightarrow> upgrade_zero | Some u \<Rightarrow> u)"

definition upgrade_sidecars :: "oprec \<Rightarrow> sidecar list" where
  "upgrade_sidecars rc = (case rc_upgrade rc of
     Some u \<Rightarrow> if ug_sidecars u \<noteq> [] then ug_sidecars u else effective_sidecars rc
   | None \<Rightarrow> effective_sidecars rc)"

definition image_change_of :: "uplan \<Rightarrow> oprec \<Rightarrow> ntarget \<Rightarrow> image_change" where
  "image_change_of u rc t = \<lparr>ic_id = up_id u, ic_previous = up_previous u, ic_from = images_at (up_from u) (nt_name t),
     ic_to = images_at (up_to u) (nt_name t), ic_preserve = baseline_at (progress_of rc) (nt_name t),
     ic_scope = (if up_scope u = ''core'' then ''core'' else [])\<rparr>"

definition upgrade_request :: "crunner \<Rightarrow> uplan \<Rightarrow> oprec \<Rightarrow> ntarget \<Rightarrow> string \<Rightarrow> nrequest" where
  "upgrade_request r u rc t action =
     (set_sidecars (sidecars_for (cr_refs r) (nt_arch t) (upgrade_sidecars rc)) (runtime_request (cr_refs r) (up_deployment u) rc t action))
       \<lparr>nq_upgrade := Some (image_change_of u rc t)\<rparr>"

section \<open>Staging\<close>

text \<open>The stagings of a rollout are independent and change no record; the scheduler picks their order, and
  a cancelled context may refuse a target its slot. The code joins the failures as sorted texts.\<close>

definition stage_host :: "crunner \<Rightarrow> uplan \<Rightarrow> ntarget \<Rightarrow> (string, rendered) fmap \<times> gerr list \<Rightarrow> ((string, rendered) fmap \<times> gerr list) coper" where
  "stage_host r u t st = (case st of (observed, failures) \<Rightarrow>
     bnd ctx_done (\<lambda>d. bnd (ask FNext) (\<lambda>slot.
     if d \<and> next_reply slot = 0 then ret (observed, failures @ [Err (nt_name t @ '': staging cancelled'')])
     else bnd (gets fw_rec) (\<lambda>rc.
       bnd (attempt (fcall (FHost (upgrade_request r u rc t ''upgrade-stage'')) seen_reply)) (\<lambda>a. case a of
         Inl e \<Rightarrow> ret (observed, failures @ [At (nt_name t) e])
       | Inr o1 \<Rightarrow> ret (case no_render o1 of None \<Rightarrow> observed | Some rd \<Rightarrow> fmupd (nt_name t) rd observed, failures))))))"

function stage_all :: "crunner \<Rightarrow> uplan \<Rightarrow> ntarget list \<Rightarrow> (string, rendered) fmap \<times> gerr list \<Rightarrow> ((string, rendered) fmap \<times> gerr list) coper" where
  "stage_all r u ts st = (if ts = [] then ret st
     else bnd (ask FNext) (\<lambda>a. let i = next_reply a mod length ts in
       bnd (stage_host r u (ts ! i) st) (\<lambda>st'. stage_all r u (without i ts) st')))"
  by pat_completeness auto
termination
  by (relation "measure (\<lambda>(r, u, ts, st). length ts)") auto

declare stage_all.simps [simp del]

definition stage_upgrade :: "crunner \<Rightarrow> uplan \<Rightarrow> ntarget list \<Rightarrow> (string, rendered) fmap coper" where
  "stage_upgrade r u ts = bnd (stage_all r u ts (fmempty, [])) (\<lambda>(observed, failures).
     sq (reject_if (failures \<noteq> []) (At ''image staging failed'' (Joined failures))) (ret observed))"

text \<open>The changes a validator staged are journaled once, before the rollout reaches it.\<close>

definition journal_changes :: "lplan \<Rightarrow> (string, rendered) fmap \<Rightarrow> upgrade \<Rightarrow> upgrade" where
  "journal_changes p observed u = u\<lparr>ug_changes := fold (\<lambda>t m. case fmlookup observed (nt_name t) of None \<Rightarrow> m
     | Some rd \<Rightarrow> if fmlookup m (nt_name t) = None \<and> \<not> reached u (nt_name t) then fmupd (nt_name t) (rd_changes rd) m else m)
     (validators p) (ug_changes u)\<rparr>"

text \<open>The targets whose render leaves changes of Core's configuration behind.\<close>

definition deferring :: "(string, rendered) fmap \<Rightarrow> ntarget list \<Rightarrow> string list" where
  "deferring observed ts = map nt_name (filter (\<lambda>t. case fmlookup observed (nt_name t) of None \<Rightarrow> False
     | Some rd \<Rightarrow> rd_deferred rd \<noteq> []) ts)"

text \<open>One pass of staging; \<open>again\<close> says what to do with newly pinned sidecar images.\<close>

definition stage_pass :: "crunner \<Rightarrow> uplan \<Rightarrow> (sidecar list \<Rightarrow> unit coper) \<Rightarrow> unit coper" where
  "stage_pass r u again = (let p = up_deployment u; ts = stage_targets u in
     bnd (stage_upgrade r u ts) (\<lambda>observed.
     bnd (lift (merge_renders (fmap_of_list (map (\<lambda>t. (nt_name t, fmlookup observed (nt_name t))) ts)))) (\<lambda>(version, requested).
     sq (reject_if (deferring observed ts \<noteq> []) (Err (''dashmate '' @ version @ '' changes Core's configuration on '' @
       join_with '', '' (deferring observed ts) @ ''; a Platform rollout cannot apply that'')))
     (bnd (gets (\<lambda>w. upgrade_sidecars (fw_rec w))) (\<lambda>current.
     bnd (pin_sidecars (cr_refs r) (cr_registry r) p current requested) (\<lambda>pins.
     if pins \<noteq> current then again pins
     else sq (set_up (journal_changes p observed)) (fsave (cr_owner r))))))))"

definition stage_platform :: "crunner \<Rightarrow> uplan \<Rightarrow> unit coper" where
  "stage_platform r u = stage_pass r u (\<lambda>pins.
     sq (set_up (\<lambda>g. g\<lparr>ug_sidecars := pins\<rparr>)) (sq (fsave (cr_owner r))
     (stage_pass r u (\<lambda>_. fail (Err ''sidecar images changed while staging'')))))"

section \<open>Verification\<close>

definition current_sample :: "crunner \<Rightarrow> lplan \<Rightarrow> string \<Rightarrow> (string, preservation) fmap coper" where
  "current_sample r p pending = bnd (gets fw_rec) (\<lambda>rc. bnd (sample r p rc 0) (\<lambda>s. lift (upgrade_evidence p rc s pending)))"

fun verify_loop :: "crunner \<Rightarrow> lplan \<Rightarrow> nat \<Rightarrow> chain_health coper" where
  "verify_loop r p 0 = fail OutOfFuel"
| "verify_loop r p (Suc n) = bnd (current_doctor r p) (\<lambda>h.
     if cl_healthy h then bnd (current_sample r p []) (\<lambda>_. ret h)
     else bnd ctx_done (\<lambda>d. sq (reject_if d Cancelled) (sq chain_wait (verify_loop r p n))))"

definition verify_upgrade :: "crunner \<Rightarrow> lplan \<Rightarrow> chain_health coper" where
  "verify_upgrade r p = verify_loop r p (cr_polls r)"

section \<open>Mining\<close>

text \<open>The part of the 24-block DKG cycle with no session running; \<open>%\<close> of Go keeps the sign of the height.\<close>

definition quiet_dkg :: "i64 \<Rightarrow> bool" where
  "quiet_dkg h \<longleftrightarrow> 13 \<le> sint h smod 24 \<and> sint h smod 24 \<le> 23"

definition cycle_wait :: "lplan \<Rightarrow> gotime" where
  "cycle_wait p = max (10 * minute) (26 * lp_mining p * second)"

definition pause_for :: "gotime \<Rightarrow> unit coper" where
  "pause_for d = fcall (FWait d) done_reply"

definition quiet_now :: "nobservation res \<Rightarrow> bool" where
  "quiet_now a = (case a of Inl _ \<Rightarrow> False | Inr o1 \<Rightarrow> (case no_core o1 of None \<Rightarrow> False | Some c \<Rightarrow> quiet_dkg (co_height c)))"

definition resume_mining :: "crunner \<Rightarrow> lplan \<Rightarrow> unit coper" where
  "resume_mining r p = bnd (must (miner_of p)) (\<lambda>m. bnd (gets fw_rec) (\<lambda>rc.
     bnd (wrapf (''resume mining on '' @ nt_name m) (fcall (FHost (set_payout (dp_payout (deployment_of rc))
       (runtime_request (cr_refs r) p rc m ''mine-start''))) seen_reply)) (\<lambda>_. ret ())))"

text \<open>A pause in the quiet part of the cycle, checked at the stopped height; \<open>True\<close> if mining stays paused.\<close>

definition try_pause :: "crunner \<Rightarrow> lplan \<Rightarrow> bool coper" where
  "try_pause r p = bnd (attempt (at_miner r p ''core-status'' plain)) (\<lambda>a.
     if \<not> quiet_now a then ret False
     else bnd (at_miner r p ''mine-pause'' plain) (\<lambda>_.
       bnd (attempt (at_miner r p ''core-status'' plain)) (\<lambda>b.
       if quiet_now b then ret True else sq (resume_mining r p) (ret False))))"

fun pause_loop :: "crunner \<Rightarrow> lplan \<Rightarrow> gotime \<Rightarrow> nat \<Rightarrow> unit coper" where
  "pause_loop r p deadline 0 = fail OutOfFuel"
| "pause_loop r p deadline (Suc n) = bnd (try_pause r p) (\<lambda>paused.
     if paused then ret ()
     else bnd now (\<lambda>t0. sq (reject_if (deadline < t0) (Err ''no quiet DKG window observed for the Core replacement''))
       (sq (pause_for (2 * second)) (pause_loop r p deadline n))))"

definition pause_mining_quietly :: "crunner \<Rightarrow> lplan \<Rightarrow> unit coper" where
  "pause_mining_quietly r p = bnd now (\<lambda>t0. pause_loop r p (t0 + cycle_wait p) (cr_polls r))"

definition back_again :: "nobservation res \<Rightarrow> bool" where
  "back_again a = (case a of Inl _ \<Rightarrow> False | Inr o1 \<Rightarrow> (case no_core o1 of None \<Rightarrow> False
     | Some c \<Rightarrow> co_synced c \<and> co_masternode c = ''READY'' \<and> 8 \<le> co_peers c))"

fun settle_loop :: "crunner \<Rightarrow> lplan \<Rightarrow> ntarget \<Rightarrow> gotime \<Rightarrow> nat \<Rightarrow> unit coper" where
  "settle_loop r p t deadline 0 = fail OutOfFuel"
| "settle_loop r p t deadline (Suc n) = bnd (attempt (host_call r p t ''core-status'' plain)) (\<lambda>a.
     if back_again a then ret ()
     else bnd now (\<lambda>t0. sq (reject_if (deadline < t0) (Err (nt_name t @ '' not READY and connected after its Core replacement'')))
       (sq (pause_for (3 * second)) (settle_loop r p t deadline n))))"

definition settle_node :: "crunner \<Rightarrow> lplan \<Rightarrow> ntarget \<Rightarrow> unit coper" where
  "settle_node r p t = sq (pause_for (30 * second)) (bnd now (\<lambda>t0. settle_loop r p t (t0 + 5 * minute) (cr_polls r)))"

section \<open>The rollout\<close>

definition apply_call :: "crunner \<Rightarrow> uplan \<Rightarrow> ntarget \<Rightarrow> nobservation coper" where
  "apply_call r u t = bnd (gets fw_rec) (\<lambda>rc. fcall (FHost (upgrade_request r u rc t ''upgrade-apply'')) seen_reply)"

text \<open>A validator's Core is replaced with mining paused; mining is resumed on every exit.\<close>

definition replace_node :: "crunner \<Rightarrow> uplan \<Rightarrow> ntarget \<Rightarrow> nobservation coper" where
  "replace_node r u t = (let p = up_deployment u in
     if up_scope u = ''core'' \<and> nt_role t = ''validator'' then
       sq (pause_mining_quietly r p)
       (bnd (attempt (bnd (apply_call r u t) (\<lambda>o1. sq (settle_node r p t) (ret o1)))) (\<lambda>res.
       bnd (attempt (resume_mining r p)) (\<lambda>resumed. lift (case resumed of Inr _ \<Rightarrow> res
         | Inl e2 \<Rightarrow> Inl (Joined (case res of Inl e1 \<Rightarrow> [e1, e2] | Inr _ \<Rightarrow> [e2]))))))
     else apply_call r u t)"

definition check_applied :: "uplan \<Rightarrow> upgrade \<Rightarrow> ntarget \<Rightarrow> nobservation \<Rightarrow> unit res" where
  "check_applied u g t o1 = (let old = baseline_at g (nt_name t) in
     if up_scope u = ''core'' then
       (case no_core o1 of None \<Rightarrow> Inl (Err ''Core upgrade response failed configuration/genesis preservation'')
        | Some c \<Rightarrow> if co_config c \<noteq> pv_config old \<or> co_genesis c \<noteq> pv_genesis old
            then Inl (Err ''Core upgrade response failed configuration/genesis preservation'') else Inr ())
     else if \<not> preserved_core (no_core o1) old then Inl (Err ''upgrade response failed Core preservation'')
     else (case no_render o1 of None \<Rightarrow> Inl (Err (nt_name t @ '' applied changes other than those staged''))
        | Some rd \<Rightarrow> if rd_changes rd \<noteq> changes_at g (nt_name t) then Inl (Err (nt_name t @ '' applied changes other than those staged''))
            else Inr ()))"

text \<open>The intent of a replacement: the pending node and the images it is to run.\<close>

definition intend_node :: "uplan \<Rightarrow> ntarget \<Rightarrow> oprec \<Rightarrow> oprec" where
  "intend_node u t rc = rc\<lparr>rc_upgrade := map_option (\<lambda>g. g\<lparr>ug_phase := ''applying'', ug_current := nt_name t\<rparr>) (rc_upgrade rc),
     rc_runtime := map_option (\<lambda>rt. rt\<lparr>rt_images := fmupd (nt_name t) (images_at (up_to u) (nt_name t)) (rt_images rt)\<rparr>) (rc_runtime rc)\<rparr>"

definition roll_node :: "crunner \<Rightarrow> uplan \<Rightarrow> ntarget \<Rightarrow> chain_health coper" where
  "roll_node r u t = (let p = up_deployment u in
     sq (bnd (gets fw_rec) (live_scope r p))
     (sq (set_frec (intend_node u t))
     (sq (fsave (cr_owner r))
     (bnd (replace_node r u t) (\<lambda>o1.
     sq (bnd (gets (\<lambda>w. progress_of (fw_rec w))) (\<lambda>g. lift (check_applied u g t o1)))
     (sq (set_up (\<lambda>g. g\<lparr>ug_phase := ''verifying''\<rparr>))
     (sq (fsave (cr_owner r))
     (bnd (verify_upgrade r p) (\<lambda>h.
     sq (set_up (\<lambda>g. g\<lparr>ug_completed := fmupd (nt_name t) True (ug_completed g), ug_current := []\<rparr>))
     (sq (fsave (cr_owner r)) (ret h)))))))))))"

fun roll_nodes :: "crunner \<Rightarrow> uplan \<Rightarrow> ntarget list \<Rightarrow> chain_health option \<Rightarrow> chain_health option coper" where
  "roll_nodes r u [] h = ret h"
| "roll_nodes r u (t # ts) h = bnd (gets (\<lambda>w. completed_at (progress_of (fw_rec w)) (nt_name t))) (\<lambda>finished.
     if finished then roll_nodes r u ts h else bnd (roll_node r u t) (\<lambda>h'. roll_nodes r u ts (Some h')))"

text \<open>The pending node of an interrupted rollout comes first.\<close>

definition pending_first :: "string \<Rightarrow> ntarget list \<Rightarrow> ntarget list" where
  "pending_first current ts = (if current = [] then ts
     else filter (\<lambda>t. nt_name t = current) ts @ filter (\<lambda>t. nt_name t \<noteq> current) ts)"

definition finish_upgrade :: "uplan \<Rightarrow> chain_health \<Rightarrow> oprec \<Rightarrow> oprec" where
  "finish_upgrade u h rc = (let g = progress_of rc in
     rc\<lparr>rc_runtime := map_option (\<lambda>rt. rt\<lparr>rt_images := fold (\<lambda>t m. fmupd (nt_name t) (images_at (up_to u) (nt_name t)) m)
         (lp_targets (up_deployment u)) (rt_images rt),
       rt_sidecars := (if ug_sidecars g \<noteq> [] then ug_sidecars g else rt_sidecars rt)\<rparr>) (rc_runtime rc),
       rc_upgrade := map_option (\<lambda>g. g\<lparr>ug_phase := ''complete'', ug_observed := cl_observed h\<rparr>) (rc_upgrade rc)\<rparr>)"

definition roll_out_upgrade :: "crunner \<Rightarrow> uplan \<Rightarrow> unit coper" where
  "roll_out_upgrade r u = (let p = up_deployment u in
     sq (if up_scope u = ''core'' then bnd (stage_upgrade r u (upgrade_order p (up_scope u))) (\<lambda>_. ret ()) else stage_platform r u)
     (bnd (gets (\<lambda>w. ug_current (progress_of (fw_rec w)))) (\<lambda>current.
     bnd (if current = [] then bnd (verify_upgrade r p) (\<lambda>h. ret (Some h)) else ret None) (\<lambda>h0.
     bnd (roll_nodes r u (pending_first current (upgrade_order p (up_scope u))) h0) (\<lambda>h1.
     bnd (case h1 of Some h \<Rightarrow> if cl_observed h = 0 then verify_upgrade r p else ret h | None \<Rightarrow> verify_upgrade r p) (\<lambda>h.
     sq (set_frec (finish_upgrade u h)) (accept_health r h)))))))"

section \<open>Execution of an upgrade\<close>

definition check_base :: "crunner \<Rightarrow> lplan \<Rightarrow> oprec \<Rightarrow> unit res" where
  "check_base r p rc = after (validate_record (cr_hash r) (cr_refs r) (lplan_compute p) rc) (\<lambda>_.
     if (case rc_deployment rc of None \<Rightarrow> True | Some d \<Rightarrow> dp_plan d \<noteq> lp_id p \<or> dp_phase d \<noteq> ''network-ready'')
       then Inl (Err ''upgrade requires the original ready deployment'') else Inr ())"

definition resumes :: "uplan \<Rightarrow> oprec \<Rightarrow> bool" where
  "resumes u rc \<longleftrightarrow> (case rc_upgrade rc of None \<Rightarrow> False | Some g \<Rightarrow> ug_plan g = up_id u)"

definition check_resumed :: "uplan \<Rightarrow> upgrade \<Rightarrow> unit res" where
  "check_resumed u g = (if ug_previous g \<noteq> up_previous u \<or> ug_from g \<noteq> up_from u \<or> ug_to g \<noteq> up_to u
     then Inl (Err ''upgrade differs from saved intent'') else Inr ())"

definition check_source :: "crunner \<Rightarrow> uplan \<Rightarrow> oprec \<Rightarrow> unit res" where
  "check_source r u rc =
     (if unfinished rc then Inl (Err ''a different unfinished upgrade owns this network'')
      else after (effective_images (cr_refs r) (up_deployment u) rc) (\<lambda>from.
        if (case rc_runtime rc of None \<Rightarrow> [] | Some rt \<Rightarrow> rt_upgrade rt) \<noteq> up_previous u \<or> from \<noteq> up_from u
          then Inl (Err ''upgrade source changed after planning'') else Inr ()))"

definition begin_upgrade :: "crunner \<Rightarrow> uplan \<Rightarrow> (string, preservation) fmap \<Rightarrow> oprec \<Rightarrow> oprec" where
  "begin_upgrade r u baseline rc = rc\<lparr>
     rc_runtime := Some \<lparr>rt_deployment = lp_id (up_deployment u), rt_upgrade = up_id u, rt_images = up_from u, rt_sidecars = effective_sidecars rc\<rparr>,
     rc_upgrade := Some (upgrade_zero\<lparr>ug_plan := up_id u, ug_previous := up_previous u, ug_phase := ''staging'', ug_from := up_from u,
       ug_to := up_to u, ug_baseline := baseline, ug_scope := (if up_scope u = ''core'' then ''core'' else []),
       ug_completed := fmap_of_list (map (\<lambda>t. (nt_name t, False)) (upgrade_order (up_deployment u) (up_scope u)))\<rparr>),
     rc_runner := cr_owner r, rc_cli := cr_version r, rc_error := None\<rparr>"

text \<open>A new rollout starts from a healthy fleet; its baseline is taken without the history of a completed one.\<close>

definition start_upgrade :: "crunner \<Rightarrow> uplan \<Rightarrow> oprec \<Rightarrow> unit coper" where
  "start_upgrade r u rc = (let p = up_deployment u in
     sq (lift (check_source r u rc))
     (bnd (chain_doctor r p rc) (\<lambda>h.
     sq (reject_if (\<not> cl_healthy h) (At ''upgrade requires every target healthy before any image change'' (Joined (cl_problems h))))
     (bnd (sample r p rc 0) (\<lambda>s.
     bnd (lift (upgrade_evidence p (rc\<lparr>rc_upgrade := None\<rparr>) s [])) (\<lambda>baseline.
     sq (set_frec (begin_upgrade r u baseline)) (sq set_changed (fsave (cr_owner r)))))))))"

definition upgrade_claimed :: "crunner \<Rightarrow> uplan \<Rightarrow> unit coper" where
  "upgrade_claimed r u = (let p = up_deployment u in
     bnd (gets fw_rec) (\<lambda>rc.
     sq (lift (check_base r p rc))
     (sq (live_scope r p rc)
     (sq (if resumes u rc then lift (check_resumed u (progress_of rc)) else start_upgrade r u rc)
     (bnd (gets (\<lambda>w. progress_of (fw_rec w))) (\<lambda>g.
     bnd (current_sample r p (ug_current g)) (\<lambda>_.
     if ug_phase g = ''complete'' then bnd (verify_upgrade r p) (\<lambda>_. ret ())
     else sq set_changed (roll_out_upgrade r u))))))))"

definition interrupted_upgrade :: "oprec \<Rightarrow> oprec" where
  "interrupted_upgrade rc = rc\<lparr>rc_upgrade := map_option (\<lambda>g. g\<lparr>ug_phase := ''interrupted''\<rparr>) (rc_upgrade rc)\<rparr>"

definition execute_upgrade :: "crunner \<Rightarrow> uplan \<Rightarrow> unit coper" where
  "execute_upgrade r u = (let p = up_deployment u; compute = lplan_compute p in
     sq (lift (validate_uplan (cr_hash r) (cr_refs r) (cr_recipe r) (cr_worker r) (cr_upgrader r) u))
     (sq (reject_if (\<not> cr_remote r \<or> cr_owner r = []) (Err ''authenticated backend and runner identity required''))
     (sq (reject_if (\<not> cr_deadline r) (Err ''upgrade requires a deadline''))
     (sq (on_cloud (verify_account (aws_account (nw_aws (pl_network compute)))))
     (bnd (fcall (FRead compute) stored_reply) (\<lambda>(prior, _).
     sq (lift (validate_record (cr_hash r) (cr_refs r) compute prior))
     (bnd (fcall (FCloud (QAcquire compute (cr_owner r))) (as_record \<circ> cloud_reply)) (\<lambda>rc.
     sq (begin_run rc)
     (bnd (attempt (upgrade_claimed r u)) (fsettle interrupted_upgrade ''save upgrade interruption'' [] compute (cr_owner r)))))))))))"

end
