(* ===== verification/Upgrade_Guard.thy ===== *)
theory Upgrade_Guard
  imports Chain_Upgrade Deploy_Safety
begin

text \<open>
  What an upgrade keeps: the invariants of a rollout over its record and its history, and the operations
  that respect them. A node is replaced only under a saved intent and behind a gate: it is the node
  an interrupted rollout left pending, or the whole fleet was healthy since the last replacement.
\<close>

lemma upgrade_request_parts [simp]:
  "nq_action (upgrade_request r u rc t action) = action" "nt_name (nq_target (upgrade_request r u rc t action)) = nt_name t"
  by (simp_all add: upgrade_request_def set_sidecars_def runtime_request_def chain_request_def plain_request_def split: option.splits)

section \<open>Invariants of a rollout\<close>

fun is_save :: "nrequest freq \<Rightarrow> bool" where
  "is_save (FCloud (QSave rc owner)) = True"
| "is_save q = False"

fun host_action :: "nrequest freq \<Rightarrow> string option" where
  "host_action (FHost q) = Some (nq_action q)"
| "host_action q = None"

definition calls :: "(string \<Rightarrow> bool) \<Rightarrow> nrequest freq \<Rightarrow> bool" where
  "calls loud q \<longleftrightarrow> (case host_action q of None \<Rightarrow> False | Some a \<Rightarrow> loud a)"

text \<open>A change of the progress that leaves the pending node, the finished nodes and the phase alone.\<close>

definition steady_up :: "(upgrade \<Rightarrow> upgrade) \<Rightarrow> bool" where
  "steady_up f \<longleftrightarrow> (\<forall>g. ug_plan (f g) = ug_plan g \<and> ug_current (f g) = ug_current g \<and> ug_completed (f g) = ug_completed g \<and>
     ug_phase (f g) = ug_phase g)"

text \<open>
  An invariant of the record in memory and the history that every request keeps, except host calls with a
  \<open>loud\<close> action, which the operations that make them deal with.
\<close>

locale rollout_invariant =
  fixes I :: "oprec \<Rightarrow> chain_hist \<Rightarrow> bool" and loud :: "string \<Rightarrow> bool"
  assumes quiet: "I rc h \<Longrightarrow> \<not> calls loud q \<Longrightarrow> \<not> is_save q \<Longrightarrow> I rc ((q, a) # h)"
    and saved: "I rc h \<Longrightarrow> I rc ((FCloud (QSave rc owner), a) # h)"
    and others: "I rc h \<Longrightarrow> rc_upgrade rc' = rc_upgrade rc \<Longrightarrow> rc_runtime rc' = rc_runtime rc \<Longrightarrow> I rc' h"
    and mild: "I rc h \<Longrightarrow> steady_up f \<Longrightarrow> I (rc\<lparr>rc_upgrade := map_option f (rc_upgrade rc)\<rparr>) h"
    and status: "\<not> loud ''core-status''" "\<not> loud ''platform-status''"
begin

abbreviation holding :: "cworld \<Rightarrow> bool" where
  "holding w \<equiv> I (fw_rec w) (hist w)"

lemma quiet_peek: "peeks chain_observes q \<Longrightarrow> \<not> calls loud q \<and> \<not> is_save q"
  using status by (cases q; cases "case q of FCloud x \<Rightarrow> x | _ \<Rightarrow> QIdentity") (auto simp: calls_def chain_observes_def reads_def inspects_def)

end

sublocale rollout_invariant \<subseteq> looks: peeking_invariant holding chain_observes
  by unfold_locales (auto dest: quiet_peek intro: quiet)

context rollout_invariant
begin

lemma keeps_quiet: "\<not> calls loud q \<Longrightarrow> \<not> is_save q \<Longrightarrow> keeps holding (fcall q f)"
  by (rule wp_keeps) (auto simp: wp_fcall Let_def quiet split: sum.splits)

lemma holds_stamp: "I rc h \<Longrightarrow> I (stamp t rc) h"
  by (rule others) (simp_all add: stamp_def)

lemma keeps_save: "keeps holding (fsave owner)"
  unfolding fsave_def set_frec_def
  by (rule wp_keeps) (auto simp: wp_bnd wp_now wp_sq wp_modify wp_gets wp_fcall Let_def holds_stamp saved split: sum.splits)

lemma keeps_set_up: "steady_up f \<Longrightarrow> keeps holding (set_up f)"
  unfolding set_up_def set_frec_def by (rule keeps_modify) (simp add: mild)

lemma keeps_elsewhere: "(\<And>rc. rc_upgrade (f rc) = rc_upgrade rc \<and> rc_runtime (f rc) = rc_runtime rc) \<Longrightarrow> keeps holding (set_frec f)"
  unfolding set_frec_def by (rule keeps_modify) (simp add: others)

lemma keeps_host_action: "decorates f \<Longrightarrow> \<not> loud action \<Longrightarrow> keeps holding (host_call r p t action f)"
  unfolding host_call_def by (intro keeps_intros keeps_quiet) (auto simp: calls_def decorated)

lemma keeps_miner_action: "decorates f \<Longrightarrow> \<not> loud action \<Longrightarrow> keeps holding (at_miner r p action f)"
  unfolding at_miner_def must_def by (intro keeps_intros keeps_host_action)

lemma keeps_pause_for: "keeps holding (pause_for d)"
  unfolding pause_for_def by (rule keeps_quiet) (simp_all add: calls_def)

lemma keeps_wait: "keeps holding chain_wait"
  unfolding chain_wait_def by (rule keeps_quiet) (simp_all add: calls_def)

lemma keeps_doctor: "keeps holding (current_doctor r p)" "keeps holding (chain_doctor r p rc)" "keeps holding (live_scope r p rc)"
  unfolding current_doctor_def by (intro keeps_intros keeps_chain_doctor looks.peeking_invariant_axioms)+

lemma keeps_sample: "keeps holding (sample r p rc ref)"
proof -
  have "keeps holding (sample_target r p rc ref t)" for t
    unfolding sample_target_def sample_core_def sample_platform_def
    by (intro keeps_intros looks.keeps_peek looks.keeps_ask_peek) (simp_all add: chain_observes_def)
  then have "keeps holding (sample_targets r p rc ref ts m)" for ts m
    by (induction ts arbitrary: m) (auto intro: keeps_bnd keeps_ret)
  then show ?thesis by (simp add: sample_def)
qed

lemma keeps_current_sample: "keeps holding (current_sample r p x)"
  unfolding current_sample_def by (intro keeps_intros keeps_sample)

lemma keeps_resume_mining: "\<not> loud ''mine-start'' \<Longrightarrow> keeps holding (resume_mining r p)"
  unfolding resume_mining_def must_def by (intro keeps_intros keeps_wrapf keeps_quiet) (auto simp: calls_def decorated)

lemma keeps_settle_node: "keeps holding (settle_node r p t)"
proof -
  have "keeps holding (settle_loop r p t d n)" for d n
    by (induction n) (auto intro!: keeps_intros keeps_host_action keeps_pause_for simp: status)
  then show ?thesis unfolding settle_node_def by (intro keeps_intros keeps_pause_for)
qed

lemma keeps_pause_mining:
  assumes "\<not> loud ''mine-start''" and "\<not> loud ''mine-pause''"
  shows "keeps holding (pause_mining_quietly r p)"
proof -
  have "keeps holding (try_pause r p)"
    unfolding try_pause_def by (intro keeps_intros keeps_miner_action keeps_resume_mining assms) (simp_all add: status)
  then have "keeps holding (pause_loop r p d n)" for d n
    by (induction n) (auto intro!: keeps_intros keeps_pause_for)
  then show ?thesis unfolding pause_mining_quietly_def by (intro keeps_intros)
qed

lemma keeps_stage_upgrade:
  assumes "\<not> loud ''upgrade-stage''"
  shows "keeps holding (stage_upgrade r u ts)"
proof -
  have q: "keeps holding (fcall (FHost (upgrade_request r u rc t ''upgrade-stage'')) f)" for rc t and f :: "nobservation freply \<Rightarrow> nobservation res"
    by (rule keeps_quiet) (use assms in \<open>simp_all add: calls_def\<close>)
  have "keeps holding (stage_host r u t st)" for t st
    unfolding stage_host_def by (cases st) (auto intro!: keeps_intros q looks.keeps_ask_peek split: option.splits)
  then have "keeps holding (stage_all r u ts st)" for ts st
  proof (induction ts arbitrary: st rule: measure_induct_rule [of length])
    case (less ts)
    then show ?case
      by (subst stage_all.simps) (cases st, auto simp: Let_def intro!: keeps_intros looks.keeps_ask_peek)
  qed
  then show ?thesis unfolding stage_upgrade_def by (intro keeps_bnd) (auto intro!: keeps_intros split: prod.splits)
qed

lemma keeps_pins: "keeps holding (pin_sidecars R registry q current requested)"
proof -
  have "keeps holding (pin_services R registry arches current todo out)" for arches todo out
    by (induction R registry arches current todo out rule: pin_services.induct)
      (auto intro!: keeps_intros looks.keeps_peek split: option.splits)
  then show ?thesis unfolding pin_sidecars_def by (intro keeps_intros)
qed

lemma keeps_stage_pass:
  assumes "\<not> loud ''upgrade-stage''" and "\<And>pins. keeps holding (again pins)"
  shows "keeps holding (stage_pass r u again)"
proof -
  have "steady_up (journal_changes p observed)" for p observed by (simp add: steady_up_def journal_changes_def)
  then show ?thesis
    unfolding stage_pass_def Let_def
    by (intro keeps_bnd keeps_stage_upgrade assms(1) keeps_lift) (auto intro!: keeps_intros keeps_pins keeps_set_up keeps_save assms(2) split: prod.splits)
qed

lemma keeps_staging:
  assumes "\<not> loud ''upgrade-stage''"
  shows "keeps holding (stage_platform r u)"
  unfolding stage_platform_def
  by (intro keeps_stage_pass assms keeps_sq keeps_set_up keeps_save keeps_fail) (simp add: steady_up_def)

lemma keeps_accept_health: "keeps holding (accept_health r h)"
  unfolding accept_health_def enter_stage_def set_dep_def by (intro keeps_intros keeps_save keeps_elsewhere) simp_all

lemma keeps_settlement:
  "keeps holding (fsettle interrupted_upgrade x y c owner res)" if "\<And>rc h. I rc h \<Longrightarrow> I (interrupted_upgrade rc) h"
proof -
  have "keeps holding (set_frec (\<lambda>r. (interrupted_upgrade r)\<lparr>rc_error := Some e\<rparr>))" for e
    unfolding set_frec_def by (rule keeps_modify) (auto intro: others that)
  moreover have "keeps holding (fcall (FCloud (QRelease c owner)) f)" for f :: "nobservation freply \<Rightarrow> unit res"
    by (rule keeps_quiet) (simp_all add: calls_def)
  ultimately show ?thesis unfolding fsettle_def by (intro keeps_intros keeps_save)
qed

end

section \<open>Mining\<close>

text \<open>Whether mining was paused and not ordered to start since.\<close>

fun mining_paused :: "chain_hist \<Rightarrow> bool" where
  "mining_paused [] = False"
| "mining_paused ((q, a) # h) = (if host_action q = Some ''mine-start'' then False
     else if host_action q = Some ''mine-pause'' \<and> (\<exists>o1. a = WSeen (Inr o1)) then True else mining_paused h)"

lemma host_action_save [simp]: "host_action (FCloud q) = None"
  by simp

interpretation mining: rollout_invariant "\<lambda>rc h. \<not> mining_paused h" "\<lambda>a. a = ''mine-pause''"
  by unfold_locales (auto simp: calls_def split: option.splits)

lemma resumed_after:
  assumes "\<not> mining_paused (newer @ (q, WSeen (Inr o1)) # older)" and "host_action q = Some ''mine-pause''"
  shows "\<exists>q' a'. (q', a') \<in> set newer \<and> host_action q' = Some ''mine-start''"
  using assms
proof (induction newer)
  case (Cons x newer)
  then show ?case by (cases x) (fastforce split: if_splits)
qed simp

lemma wp_resume_mining: "wp (resume_mining r p) (\<lambda>_ w'. \<not> mining_paused (hist w')) (\<lambda>_ w'. miner_of p = None \<or> \<not> mining_paused (hist w')) w"
proof (cases "miner_of p")
  case (Some m)
  have a: "nq_action (set_payout x (runtime_request R p rc m ''mine-start'')) = ''mine-start''" for x R rc
    using decorated(1) [OF decorates_simps(5)] .
  show ?thesis
    by (auto simp: resume_mining_def must_def Some wp_bnd wp_ret wp_gets wrapf_def wp_attempt wp_fcall wp_fail a Let_def split: sum.splits)
qed (simp add: resume_mining_def must_def wp_bnd wp_fail)

lemma keeps_unpaused_frec: "keeps (\<lambda>w. \<not> mining_paused (hist w)) (set_frec f)"
  unfolding set_frec_def by (rule keeps_modify) simp

lemma wp_try_pause:
  assumes "\<not> mining_paused (hist w)" and m: "miner_of p \<noteq> None"
  shows "wp (try_pause r p) (\<lambda>paused w'. paused \<or> \<not> mining_paused (hist w')) (\<lambda>_ w'. \<not> mining_paused (hist w')) w"
proof -
  let ?N = "\<lambda>w :: cworld. \<not> mining_paused (hist w)"
  have look: "keeps ?N (attempt (at_miner r p ''core-status'' plain))" by (intro keeps_attempt mining.keeps_miner_action) simp_all
  have again: "wp (sq (resume_mining r p) (ret False)) (\<lambda>paused w'. paused \<or> ?N w') (\<lambda>_. ?N) v" for v
    unfolding wp_sq by (rule wp_conseq [OF wp_resume_mining]) (use m in \<open>simp_all add: wp_ret\<close>)
  have second: "wp (bnd (attempt (at_miner r p ''core-status'' plain)) (\<lambda>b. if quiet_now b then ret True else sq (resume_mining r p) (ret False)))
      (\<lambda>paused w'. paused \<or> ?N w') (\<lambda>_. ?N) v" for v
  proof -
    have "wp (attempt (at_miner r p ''core-status'' plain)) (\<lambda>_ _. True) (\<lambda>_ _. False) v"
      by (simp add: wp_attempt) (simp add: wp_def split: prod.splits sum.splits)
    then show ?thesis unfolding wp_bnd by (rule wp_conseq) (use again in \<open>auto simp: wp_ret\<close>)
  qed
  have lost: "wp (at_miner r p ''mine-pause'' plain) (\<lambda>_ _. True) (\<lambda>_. ?N) v" if "?N v" for v
    using that m by (auto simp: at_miner_def must_def host_call_def wrapf_def wp_bnd wp_ret wp_gets wp_attempt wp_fcall wp_fail Let_def
      split: option.splits sum.splits)
  have pause: "wp (bnd (at_miner r p ''mine-pause'' plain) (\<lambda>_. bnd (attempt (at_miner r p ''core-status'' plain)) (\<lambda>b.
      if quiet_now b then ret True else sq (resume_mining r p) (ret False)))) (\<lambda>paused w'. paused \<or> ?N w') (\<lambda>_. ?N) v" if "?N v" for v
    unfolding wp_bnd [of "at_miner _ _ ''mine-pause'' _"] by (rule wp_conseq [OF lost [OF that] second]) simp
  show ?thesis
    unfolding try_pause_def wp_bnd [of "attempt (at_miner r p ''core-status'' plain)" "\<lambda>a. if \<not> quiet_now a then ret False else _ a"]
    by (rule wp_conseq [OF keeps_wp [OF look, OF assms(1)]]) (use pause in \<open>auto simp: wp_ret\<close>)
qed

lemma wp_pause_loop:
  assumes "\<not> mining_paused (hist w)"
  shows "wp (pause_loop r p d n) (\<lambda>_ w'. miner_of p \<noteq> None \<or> \<not> mining_paused (hist w')) (\<lambda>_ w'. \<not> mining_paused (hist w')) w"
proof (cases "miner_of p")
  case None
  then have "at_miner r p a f = fail (Err ''validated plan missing wallet'')" for a f
    by (simp add: at_miner_def must_def bnd_def fail_def)
  then have "keeps (\<lambda>w. \<not> mining_paused (hist w)) (try_pause r p)"
    unfolding try_pause_def by (auto intro!: keeps_intros mining.keeps_resume_mining simp: quiet_now_def)
  then have loop: "keeps (\<lambda>w. \<not> mining_paused (hist w)) (pause_loop r p d n)"
    by (induction n) (auto intro!: keeps_intros mining.keeps_pause_for)
  show ?thesis by (rule wp_conseq [OF keeps_wp [OF loop, OF assms]]) simp_all
next
  case (Some m)
  show ?thesis using assms
  proof (induction n arbitrary: w)
    case 0
    then show ?case by (simp add: wp_fail)
  next
    case (Suc n)
    let ?N = "\<lambda>w :: cworld. \<not> mining_paused (hist w)"
    have pause: "keeps ?N (pause_for (2 * second))" by (rule mining.keeps_pause_for)
    have rest: "wp (sq (pause_for (2 * second)) (pause_loop r p d n)) (\<lambda>_ w'. miner_of p \<noteq> None \<or> ?N w') (\<lambda>_. ?N) v" if "?N v" for v
      unfolding wp_sq by (rule wp_conseq [OF keeps_wp [OF pause, OF that]], erule Suc.IH)
    show ?case
      unfolding pause_loop.simps wp_bnd [of "try_pause r p"]
      by (rule wp_conseq [OF wp_try_pause [OF Suc.prems]]) (use Some rest in \<open>auto simp: wp_ret wp_bnd wp_now wp_sq [of "reject_if _ _"] wp_reject_if\<close>)
  qed
qed

lemma keeps_replace_node: "keeps (\<lambda>w. \<not> mining_paused (hist w)) (replace_node r u t)"
proof (rule wp_keeps)
  let ?N = "\<lambda>w :: cworld. \<not> mining_paused (hist w)" and ?p = "up_deployment u"
  fix w :: cworld assume N: "?N w"
  have app: "keeps ?N (apply_call r u t)"
    unfolding apply_call_def by (intro keeps_intros mining.keeps_quiet) (simp_all add: calls_def)
  show "wp (replace_node r u t) (\<lambda>_. ?N) (\<lambda>_. ?N) w"
  proof (cases "up_scope u = ''core'' \<and> nt_role t = ''validator''")
    case False
    show ?thesis unfolding replace_node_def Let_def if_not_P [OF False] by (rule keeps_wp [OF app, OF N])
  next
    case True
    have core: "keeps ?N (attempt (bnd (apply_call r u t) (\<lambda>o1. sq (settle_node r ?p t) (ret o1))))"
      by (intro keeps_intros app mining.keeps_settle_node)
    have resume: "wp (attempt (resume_mining r ?p)) (\<lambda>_. ?N) (\<lambda>_ _. False) v" if "miner_of ?p \<noteq> None \<or> ?N v" for v
    proof (cases "miner_of ?p")
      case None
      then have "?N v" using that by simp
      then have "?N (snd (attempt (resume_mining r ?p) v))"
        using keeps_attempt [OF mining.keeps_resume_mining] unfolding keeps_def by simp
      then show ?thesis unfolding wp_def attempt_def by (simp split: prod.splits)
    next
      case (Some m)
      show ?thesis unfolding wp_attempt by (rule wp_conseq [OF wp_resume_mining]) (use Some in auto)
    qed
    let ?tail = "\<lambda>res. bnd (attempt (resume_mining r ?p)) (\<lambda>resumed. lift (case resumed of Inr _ \<Rightarrow> res
         | Inl e2 \<Rightarrow> Inl (Joined (case res of Inl e1 \<Rightarrow> [e1, e2] | Inr _ \<Rightarrow> [e2])))) :: nobservation coper"
    have tail: "wp (?tail res) (\<lambda>_. ?N) (\<lambda>_. ?N) v" if "miner_of ?p \<noteq> None \<or> ?N v" for res v
      unfolding wp_bnd [of "attempt _"] by (rule wp_conseq [OF resume [OF that]]) (auto simp: wp_lift split: sum.splits)
    have body: "wp (attempt (bnd (apply_call r u t) (\<lambda>o1. sq (settle_node r ?p t) (ret o1)))) (\<lambda>_ v. miner_of ?p \<noteq> None \<or> ?N v) (\<lambda>_. ?N) v"
      if "miner_of ?p \<noteq> None \<or> ?N v" for v
    proof (cases "?N v")
      case True
      show ?thesis by (rule wp_conseq [OF keeps_wp [OF core, OF True]]) simp_all
    next
      case False
      then show ?thesis using that by (simp add: wp_attempt) (simp add: wp_def split: prod.splits sum.splits)
    qed
    show ?thesis
      unfolding replace_node_def Let_def if_P [OF True] wp_sq [of "pause_mining_quietly r ?p"] wp_bnd [of "attempt (bnd (apply_call r u t) _)"]
      unfolding pause_mining_quietly_def wp_bnd [of now] wp_now
      by (rule wp_conseq [OF wp_pause_loop [OF N]], rule wp_conseq [OF body], assumption, rule tail, assumption)
  qed
qed

lemma keeps_verify_loop:
  assumes "rollout_invariant I loud"
  shows "keeps (\<lambda>w. I (fw_rec w) (hist w)) (verify_loop r p n)"
  by (induction n) (auto intro!: keeps_intros rollout_invariant.keeps_doctor [OF assms] rollout_invariant.keeps_current_sample [OF assms]
    rollout_invariant.keeps_wait [OF assms])

lemma keeps_unpaused_upgrade: "keeps (\<lambda>w. \<not> mining_paused (hist w)) (execute_upgrade r u)"
proof -
  let ?p = "up_deployment u"
  note kept = mining.keeps_doctor mining.keeps_sample mining.keeps_current_sample mining.keeps_save keeps_unpaused_frec
    mining.keeps_accept_health keeps_replace_node keeps_verify_loop [OF mining.rollout_invariant_axioms]
  have up: "keeps (\<lambda>w. \<not> mining_paused (hist w)) (set_up f)" for f unfolding set_up_def by (rule keeps_unpaused_frec)
  have changed: "keeps (\<lambda>w. \<not> mining_paused (hist w)) set_changed" unfolding set_changed_def by (rule keeps_modify) simp
  have node: "keeps (\<lambda>w. \<not> mining_paused (hist w)) (roll_node r u t)" for t
    unfolding roll_node_def Let_def verify_upgrade_def by (intro keeps_intros kept up)
  have nodes: "keeps (\<lambda>w. \<not> mining_paused (hist w)) (roll_nodes r u ts h)" for ts h
    by (induction ts arbitrary: h) (auto intro!: keeps_intros node)
  have staged: "keeps (\<lambda>w. \<not> mining_paused (hist w)) (stage_platform r u)" "keeps (\<lambda>w. \<not> mining_paused (hist w)) (stage_upgrade r u ts)" for ts
    by (intro mining.keeps_staging mining.keeps_stage_upgrade, simp)+
  have out: "keeps (\<lambda>w. \<not> mining_paused (hist w)) (roll_out_upgrade r u)"
    unfolding roll_out_upgrade_def Let_def verify_upgrade_def by (intro keeps_intros kept nodes staged)
  have start: "keeps (\<lambda>w. \<not> mining_paused (hist w)) (start_upgrade r u rc)" for rc
    unfolding start_upgrade_def Let_def by (intro keeps_intros kept changed)
  have claimed: "keeps (\<lambda>w. \<not> mining_paused (hist w)) (upgrade_claimed r u)"
    unfolding upgrade_claimed_def Let_def verify_upgrade_def by (intro keeps_intros kept out start changed)
  have settled: "keeps (\<lambda>w. \<not> mining_paused (hist w)) (fsettle interrupted_upgrade x y c owner res)" for x y c owner res
    by (rule mining.keeps_settlement)
  have beg: "keeps (\<lambda>w. \<not> mining_paused (hist w)) (begin_run rc)" for rc unfolding begin_run_def by (rule keeps_modify) simp
  have quiet: "keeps (\<lambda>w. \<not> mining_paused (hist w)) (fcall (FRead c) f)" "keeps (\<lambda>w. \<not> mining_paused (hist w)) (fcall (FCloud (QAcquire c o1)) g)"
    for c o1 and f :: "nobservation freply \<Rightarrow> (oprec \<times> string) res" and g :: "nobservation freply \<Rightarrow> oprec res"
    by (rule mining.keeps_quiet; simp add: calls_def)+
  show ?thesis
    unfolding execute_upgrade_def Let_def
    by (intro keeps_intros mining.looks.keeps_on_account quiet beg claimed settled) (auto intro!: keeps_intros quiet beg claimed settled split: prod.splits)
qed

end
