(* ===== verification/Upgrade_Sample.thy ===== *)
theory Upgrade_Sample
  imports Chain_Upgrade Deploy_Sample
begin

text \<open>
  A run of an upgrade of the sample devnet for the witnesses: a Core rollout that was interrupted with
  a validator pending is resumed, its images are staged, mining is paused, and the connection to the
  validator is lost while its Core is replaced.
\<close>

section \<open>The interrupted rollout\<close>

definition devnet_uplan :: uplan where
  "devnet_uplan = \<lparr>up_api = api_version, up_kind = ''DevnetUpgradePlan'', up_id = sample_hex, up_deployment = devnet_lplan,
     up_candidate = devnet_network, up_release = devnet_newer, up_scope = ''core'', up_previous = [], up_recipe = ''upgrade'',
     up_created = 1, up_from = devnet_from, up_to = devnet_to, up_recovery = core_recovery\<rparr>"

definition devnet_pending :: string where
  "devnet_pending = tg_name (pl_targets devnet_plan ! 0)"

definition devnet_baseline :: preservation where
  "devnet_baseline = \<lparr>pv_core = sample_hex, pv_started = ''2024-01-02T03:04:05Z'', pv_config = sample_hex, pv_genesis = sample_hex,
     pv_containers = fmap_of_list (map (\<lambda>c. (c, sample_hex)) services), pv_restarts = fmempty\<rparr>"

definition devnet_progress :: upgrade where
  "devnet_progress = \<lparr>ug_plan = sample_hex, ug_previous = [], ug_phase = ''interrupted'', ug_current = devnet_pending,
     ug_from = devnet_from, ug_to = devnet_to,
     ug_baseline = fmap_of_list (map (\<lambda>t. (tg_name t, devnet_baseline)) (pl_targets devnet_plan)),
     ug_completed = fmap_of_list (map (\<lambda>t. (tg_name t, False)) (pl_targets devnet_plan)), ug_observed = 0, ug_scope = ''core'',
     ug_sidecars = [], ug_changes = fmempty\<rparr>"

definition devnet_upgrading :: oprec where
  "devnet_upgrading = devnet_record\<lparr>rc_runtime := Some \<lparr>rt_deployment = sample_hex, rt_upgrade = sample_hex, rt_images = devnet_from,
     rt_sidecars = []\<rparr>, rc_upgrade := Some devnet_progress\<rparr>"

lemma devnet_uplan_fields [simp]: "up_deployment devnet_uplan = devnet_lplan" "up_scope devnet_uplan = ''core''" "up_id devnet_uplan = sample_hex"
  "up_from devnet_uplan = devnet_from" "up_to devnet_uplan = devnet_to" "up_previous devnet_uplan = []"
  by (simp_all add: devnet_uplan_def)

lemma devnet_progress_fields [simp]: "ug_plan devnet_progress = sample_hex" "ug_previous devnet_progress = []"
  "ug_phase devnet_progress = ''interrupted''" "ug_current devnet_progress = devnet_pending" "ug_from devnet_progress = devnet_from"
  "ug_to devnet_progress = devnet_to" "ug_scope devnet_progress = ''core''" "ug_sidecars devnet_progress = []" "ug_changes devnet_progress = fmempty"
  by (simp_all add: devnet_progress_def)

lemma devnet_target_names: "distinct (map tg_name (pl_targets devnet_plan))"
  by (rule valid_plan_names(1) [OF devnet_plan_valid])

lemma devnet_baseline_at: "t \<in> set (pl_targets devnet_plan) \<Longrightarrow> baseline_at devnet_progress (tg_name t) = devnet_baseline"
  using lookup_of_map [OF devnet_target_names, of t "\<lambda>_. devnet_baseline"] by (simp add: baseline_at_def devnet_progress_def)

lemma devnet_completed_at: "t \<in> set (pl_targets devnet_plan) \<Longrightarrow> fmlookup (ug_completed devnet_progress) (tg_name t) = Some False"
  using lookup_of_map [OF devnet_target_names, of t "\<lambda>_. False"] by (simp add: devnet_progress_def)

lemma devnet_first: "pl_targets devnet_plan ! 0 \<in> set (pl_targets devnet_plan)" "tg_role (pl_targets devnet_plan ! 0) = ''validator''"
proof -
  have "0 < length (pl_targets devnet_plan)" using devnet_length(1) by simp
  then show "pl_targets devnet_plan ! 0 \<in> set (pl_targets devnet_plan)" by (rule nth_mem)
  show "tg_role (pl_targets devnet_plan ! 0) = ''validator''" by code_simp
qed

lemma devnet_quorum: "list_all (\<lambda>t. tg_role t = ''validator'') (take 12 (pl_targets devnet_plan))"
  "list_all (\<lambda>t. to_lower (devnet_protx (tg_name t)) = devnet_protx (tg_name t)) (pl_targets devnet_plan)"
  "distinct (map (\<lambda>t. devnet_protx (tg_name t)) (take 12 (pl_targets devnet_plan)))"
  by code_simp+

lemma devnet_services: "c \<in> set services \<Longrightarrow> mget (fmap_of_list (map (\<lambda>c. (c, sample_hex)) services)) c = sample_hex"
  by (auto simp: mget_def services_def)

lemma devnet_upgrading_target:
  assumes "t \<in> set (pl_targets devnet_plan)"
  shows "check_upgrade_target \<lparr>rt_deployment = sample_hex, rt_upgrade = sample_hex, rt_images = devnet_from, rt_sidecars = []\<rparr> devnet_progress (k, b) t =
    Inr (Suc k, b \<or> tg_name t = devnet_pending)"
proof -
  have h: "matches hex64 sample_hex" "rfc3339 ''2024-01-02T03:04:05Z''" by code_simp+
  have i: "images_at devnet_from (tg_name t) = devnet_pins (tg_role t)"
    "images_at devnet_to (tg_name t) = fmupd ''core'' (''repo:1@sha256:'' @ replicate 64 (CHR ''b'')) (devnet_pins (tg_role t))"
    using lookup_of_map [OF devnet_target_names assms, of "\<lambda>t. devnet_pins (tg_role t)"]
      lookup_of_map [OF devnet_target_names assms, of "\<lambda>t. fmupd ''core'' (''repo:1@sha256:'' @ replicate 64 (CHR ''b'')) (devnet_pins (tg_role t))"]
    by (simp_all add: images_at_def devnet_from_def devnet_to_def)
  have s: "c \<in> set services" if "c \<in> {''drive'', ''tenderdash'', ''dapi'', ''gateway''}" for c using that by (auto simp: services_def)
  have "check_scope \<lparr>rt_deployment = sample_hex, rt_upgrade = sample_hex, rt_images = devnet_from, rt_sidecars = []\<rparr> devnet_progress (tg_name t) = Inr ()"
    by (auto simp: check_scope_def Let_def i devnet_completed_at [OF assms] fmpred_iff mget_def)
  moreover have "check_validator devnet_progress t = Inr ()"
    using h(1) s by (simp add: check_validator_def Let_def devnet_baseline_at [OF assms] devnet_baseline_def devnet_services restarts_at_def)
  moreover have "check_runtime \<lparr>rt_deployment = sample_hex, rt_upgrade = sample_hex, rt_images = devnet_from, rt_sidecars = []\<rparr> devnet_progress (tg_name t) = Inr ()"
    by (auto simp: check_runtime_def Let_def fmpred_iff mget_def)
  ultimately show ?thesis
    using h by (simp add: check_upgrade_target_def Let_def devnet_baseline_at [OF assms] devnet_baseline_def in_rollout_def)
qed

lemma devnet_upgrading_valid: "validate_record sample_hash sample_refs devnet_plan devnet_upgrading = Inr ()"
proof -
  let ?rt = "\<lparr>rt_deployment = sample_hex, rt_upgrade = sample_hex, rt_images = devnet_from, rt_sidecars = []\<rparr>"
  have c: "devnet_computed devnet_upgrading" by (simp add: devnet_computed_def devnet_upgrading_def devnet_record_def devnet_bare_def new_record_def)
  have d: "rc_deployment devnet_upgrading = Some devnet_deployment" by (simp add: devnet_upgrading_def devnet_record_def)
  have scan: "scan_ok (check_upgrade_target ?rt devnet_progress) (k, b) ts = Inr (k + length ts, b \<or> devnet_pending \<in> tg_name ` set ts)"
    if "set ts \<subseteq> set (pl_targets devnet_plan)" for k b ts
    using that by (induction ts arbitrary: k b) (auto simp: devnet_upgrading_target)
  have all: "scan_ok (check_upgrade_target ?rt devnet_progress) (0, False) (pl_targets devnet_plan) = Inr (14, True)"
    using scan [of "pl_targets devnet_plan" 0 False] devnet_first(1) by (simp add: devnet_pending_def)
  have p: "devnet_pending \<noteq> []" by code_simp
  have k: "fcard (fmdom (ug_baseline devnet_progress)) = 14" "fcard (fmdom (ug_completed devnet_progress)) = 14"
    using card_of_map [OF devnet_target_names, of "\<lambda>_. devnet_baseline"] card_of_map [OF devnet_target_names, of "\<lambda>_. False"]
    by (simp_all add: devnet_progress_def)
  have h: "matches hex64 sample_hex" by code_simp
  have s: "sorted_list_of_fmap (fmempty :: (string, string list) fmap) = []" by (simp add: sorted_list_of_fmap_def sorted_list_of_fset.rep_eq)
  have "validate_upgrade sample_refs devnet_plan devnet_upgrading = Inr ()"
    using h k all p devnet_from_valid devnet_to_valid
    by (simp add: validate_upgrade_def devnet_upgrading_def devnet_record_def devnet_deployment_fields check_rollout_def validate_sidecars_def s)
  then show ?thesis using devnet_computed_valid [OF c] devnet_deployment_valid [OF d] by (simp add: validate_record_def)
qed

lemma devnet_upgrading_state: "devnet_state devnet_upgrading"
  using devnet_upgrading_valid by (simp add: devnet_state_def devnet_upgrading_def devnet_record_def devnet_bare_def)

lemma devnet_uplan_valid: "validate_uplan sample_hash sample_refs ''recipe'' ''worker'' ''upgrade'' devnet_uplan = Inr ()"
  using devnet_upgrade by (simp add: validate_uplan_def) (simp add: devnet_uplan_def sample_hash_def sample_hex_def recovery_for_def hex_decodes_def)

section \<open>Evidence\<close>

text \<open>What the hosts answer during the upgrade: Core stays at a height in the quiet part of the DKG cycle, and
  the connection is lost when an image is to be replaced.\<close>

definition upgrade_env :: "(nrequest freq, nobservation freply) env" where
  "upgrade_env = (devnet_env devnet_upgrading)\<lparr>answer := (\<lambda>h q. case q of
       FHost k \<Rightarrow> if nq_action k = ''upgrade-apply'' then WSeen (Inl (Err ''connection lost'')) else WSeen (Inr (devnet_answer 15 k))
     | _ \<Rightarrow> answer (devnet_env devnet_upgrading) h q)\<rparr>"

definition upgrade_world :: cworld where
  "upgrade_world = \<lparr>env = upgrade_env, hist = [], fw_rec = devnet_upgrading, fw_changed = False\<rparr>"

lemma upgrade_answers [simp]:
  "answer upgrade_env h (FHost k) = (if nq_action k = ''upgrade-apply'' then WSeen (Inl (Err ''connection lost'')) else WSeen (Inr (devnet_answer 15 k)))"
  "answer upgrade_env h FNext = WNext 0" "answer upgrade_env h (FCloud QIdentity) = WCloud (RText (Inr (Some ''123456789012'')))"
  "answer upgrade_env h (FCloud (QInstances [])) = WCloud (RPage (Inr (Some devnet_page)))"
  "answer upgrade_env h (FCloud (QAcquire p owner)) = WCloud (RRecord (Inr devnet_upgrading))"
  "answer upgrade_env h (FCloud (QRelease p owner)) = WCloud (RUnit (Inr ()))"
  "answer upgrade_env h (FCloud (QSave rc owner)) = WCloud (RUnit (Inr ()))"
  "answer upgrade_env h (FRead p) = WStored (Inr (devnet_upgrading, []))" "answer upgrade_env h (FWait d) = WDone (Inr ())"
  "cancelled upgrade_env h \<longleftrightarrow> False" "clock upgrade_env h = 100 + int (length h)"
  by (simp_all add: upgrade_env_def devnet_env_def)

lemma actions [simp]: "nq_action (runtime_request R p rc t action) = action" "nq_action (chain_request_at r p rc n t) = ''platform-status''"
  "nq_target (set_sidecars m k) = nq_target k" "nq_action (set_sidecars m k) = nq_action k" "nt_name (nq_target (runtime_request R p rc t action)) = nt_name t"
  "nt_name (nq_target (chain_request_at r p rc n t)) = nt_name t"
  by (simp_all add: runtime_request_def chain_request_def plain_request_def set_sidecars_def chain_request_at_def split: option.splits)

lemma run_upgrade_sample_target:
  assumes "env w = upgrade_env"
  shows "\<exists>new. sample_target r p rc ref t w = (Inr (good_sample t 15 15), w\<lparr>hist := new @ hist w\<rparr>)"
proof (cases "nt_role t = ''validator''")
  case True
  let ?q = "runtime_request (cr_refs r) p rc t ''core-status''" and ?p = "chain_request_at r p rc ref t"
  show ?thesis
    using assms True
    by (intro exI [of _ "[(FHost ?p, WSeen (Inr (devnet_answer 15 ?p))), (FHost ?q, WSeen (Inr (devnet_answer 15 ?q))), (FNext, WNext 0)]"])
      (simp add: sample_target_def sample_core_def sample_platform_def run_steps run_fcall run_ask run_ctx_done good_sample_def devnet_answer_def Let_def no_sample_def)
next
  case False
  let ?q = "runtime_request (cr_refs r) p rc t ''core-status''"
  show ?thesis
    using assms False
    by (intro exI [of _ "[(FHost ?q, WSeen (Inr (devnet_answer 15 ?q))), (FNext, WNext 0)]"])
      (simp add: sample_target_def sample_core_def run_steps run_fcall run_ask run_ctx_done good_sample_def devnet_answer_def Let_def no_sample_def)
qed

lemma run_upgrade_sample:
  assumes "env w = upgrade_env"
  shows "\<exists>new. sample_targets r p rc ref ts m w = (Inr (fold (\<lambda>t. fmupd (nt_name t) (good_sample t 15 15)) ts m), w\<lparr>hist := new @ hist w\<rparr>)"
  using assms
proof (induction ts arbitrary: m w)
  case Nil
  show ?case by (intro exI [of _ "[]"]) (simp add: run_steps)
next
  case (Cons t ts)
  obtain new where one: "sample_target r p rc ref t w = (Inr (good_sample t 15 15), w\<lparr>hist := new @ hist w\<rparr>)"
    using run_upgrade_sample_target [OF Cons.prems] by blast
  have "env (w\<lparr>hist := new @ hist w\<rparr>) = upgrade_env" using Cons.prems by simp
  from Cons.IH [OF this, of "fmupd (nt_name t) (good_sample t 15 15) m"] obtain new2 where
    "sample_targets r p rc ref ts (fmupd (nt_name t) (good_sample t 15 15) m) (w\<lparr>hist := new @ hist w\<rparr>) =
      (Inr (fold (\<lambda>t. fmupd (nt_name t) (good_sample t 15 15)) ts (fmupd (nt_name t) (good_sample t 15 15) m)), w\<lparr>hist := new2 @ new @ hist w\<rparr>)"
    by auto
  with one show ?case by (intro exI [of _ "new2 @ new"]) (simp add: run_steps)
qed

lemma devnet_ntarget_in:
  assumes "t \<in> set devnet_ntargets"
  shows "\<exists>g \<in> set (pl_targets devnet_plan). nt_name t = tg_name g \<and> nt_role t = tg_role g"
proof -
  obtain h where h: "h \<in> set devnet_hosts" "t = devnet_ntarget h" using assms by (auto simp: devnet_ntargets_def)
  then have "fst h \<in> set (pl_targets devnet_plan)" using devnet_names(2) by (metis image_eqI list.set_map)
  then show ?thesis using h(2) by (intro bexI [of _ "fst h"]) simp_all
qed

lemma devnet_target_in: "g \<in> set (pl_targets devnet_plan) \<Longrightarrow> \<exists>t \<in> set devnet_ntargets. nt_name t = tg_name g \<and> nt_role t = tg_role g"
  using devnet_target_cases by (fastforce simp: devnet_ntargets_def)

lemma devnet_quorum_known: "quorum_members devnet_lplan devnet_deployment (devnet_platform x n)"
proof -
  let ?q = "take 12 (pl_targets devnet_plan)"
  have l: "map to_lower (map (\<lambda>t. devnet_protx (tg_name t)) ?q) = map (\<lambda>t. devnet_protx (tg_name t)) ?q"
    using devnet_quorum(2) by (auto simp: list_all_iff dest: in_set_takeD)
  have "devnet_protx (tg_name g) \<in> (\<lambda>t. dn_protx (dep_at devnet_deployment (nt_name t))) ` set (validators devnet_lplan)" if g: "g \<in> set ?q" for g
  proof -
    obtain t where t: "t \<in> set devnet_ntargets" "nt_name t = tg_name g" "nt_role t = tg_role g"
      using devnet_target_in [of g] g by (meson in_set_takeD)
    have "nt_role t = ''validator''" using devnet_quorum(1) g t(3) by (simp add: list_all_iff)
    then show ?thesis using devnet_good t by (auto simp: good_deployment_def validators_def intro!: image_eqI [of _ _ t])
  qed
  then have "set (map (\<lambda>t. devnet_protx (tg_name t)) ?q) \<subseteq> (\<lambda>t. dn_protx (dep_at devnet_deployment (nt_name t))) ` set (validators devnet_lplan)"
    by auto
  moreover have "pt_validators (devnet_platform x n) = map (\<lambda>t. devnet_protx (tg_name t)) ?q" by (simp add: devnet_platform_def)
  ultimately show ?thesis using devnet_quorum(3) unfolding quorum_members_def Let_def by (simp only: l)
qed

lemma devnet_upgrading_parts: "deployment_of devnet_upgrading = devnet_deployment" "rc_upgrade devnet_upgrading = Some devnet_progress"
  by (simp_all add: deployment_of_def devnet_upgrading_def devnet_record_def)

lemma devnet_target_evidence:
  assumes "sample_at observed (nt_name t) = good_sample t 15 15" and t: "t \<in> set devnet_ntargets"
  shows "\<exists>b. target_evidence devnet_lplan devnet_upgrading x observed t = Inr b"
proof -
  obtain g where g: "g \<in> set (pl_targets devnet_plan)" "nt_name t = tg_name g" using devnet_ntarget_in [OF t] by blast
  have b: "baseline_at devnet_progress (nt_name t) = devnet_baseline" using devnet_baseline_at [OF g(1)] g(2) by simp
  have r: "rfc3339 ''2024-01-02T03:04:05Z''" by code_simp
  have c: "check_core devnet_upgrading t (devnet_core (nt_name t) n) = Inr ()" for n
    by (simp add: check_core_def devnet_upgrading_parts Let_def b) (simp add: devnet_core_def devnet_baseline_def preserved_core_def)
  have s: "check_service devnet_upgrading devnet_progress (nt_name t) (devnet_platform (nt_name t) n) k = Inr ()" for n k
    by (simp add: check_service_def Let_def b) (simp add: devnet_platform_def devnet_baseline_def platform_restarts_def restarts_at_def)
  have p: "\<exists>b. check_platform devnet_lplan devnet_upgrading x t (good_sample t 15 15) b0 = Inr b" if "nt_role t = ''validator''" for b0
    using that devnet_quorum_known devnet_length(1)
    by (simp add: check_platform_def good_sample_def devnet_upgrading_parts s each_ok_iff platform_quorum_minimum_def)
      (simp add: devnet_platform_def devnet_lplan_def)
  have k: "cs_core (good_sample t 15 15) = Some (devnet_core (nt_name t) 15)" by (simp add: good_sample_def)
  have f: "co_genesis (devnet_core y n) = sample_hex" "co_started (devnet_core y n) = ''2024-01-02T03:04:05Z''" for y n by (simp_all add: devnet_core_def)
  show ?thesis using p
    by (cases "nt_role t = ''validator''")
      (simp_all add: target_evidence_def assms(1) k f devnet_upgrading_parts devnet_deployment_fields r c Let_def)
qed

lemma devnet_evidence:
  "\<exists>m. upgrade_evidence devnet_lplan devnet_upgrading (fold (\<lambda>t. fmupd (nt_name t) (good_sample t 15 15)) devnet_ntargets fmempty) x = Inr m"
proof -
  let ?o = "fold (\<lambda>t. fmupd (nt_name t) (good_sample t 15 15)) devnet_ntargets fmempty"
  have "sample_at ?o (nt_name t) = good_sample t 15 15" if "t \<in> set devnet_ntargets" for t
    using lookup_fold [OF devnet_ntarget_names that, of "\<lambda>t. good_sample t 15 15"] by (simp add: sample_at_def)
  then have "\<exists>m'. scan_ok (\<lambda>m t. after (target_evidence devnet_lplan devnet_upgrading x ?o t) (\<lambda>b. Inr (fmupd (nt_name t) b m))) m ts = Inr m'"
    if "set ts \<subseteq> set devnet_ntargets" for m ts
    using that
  proof (induction ts arbitrary: m)
    case (Cons t ts)
    obtain b where "target_evidence devnet_lplan devnet_upgrading x ?o t = Inr b" using devnet_target_evidence Cons.prems(1,2) by fastforce
    then show ?case using Cons by simp
  qed simp
  then show ?thesis by (simp add: upgrade_evidence_def)
qed

section \<open>The run\<close>

text \<open>An operation that succeeds and only adds to the history.\<close>

definition only_looks :: "'a coper \<Rightarrow> cworld \<Rightarrow> bool" where
  "only_looks m w \<longleftrightarrow> (\<exists>x new. m w = (Inr x, w\<lparr>hist := new @ hist w\<rparr>))"

lemma looks_current_sample:
  assumes "env w = upgrade_env" and "fw_rec w = devnet_upgrading"
  shows "only_looks (current_sample devnet_runner devnet_lplan x) w"
proof -
  let ?o = "fold (\<lambda>t. fmupd (nt_name t) (good_sample t 15 15)) devnet_ntargets fmempty"
  obtain new where "sample_targets devnet_runner devnet_lplan devnet_upgrading 0 devnet_ntargets fmempty w = (Inr ?o, w\<lparr>hist := new @ hist w\<rparr>)"
    using run_upgrade_sample [OF assms(1)] by blast
  moreover obtain m where "upgrade_evidence devnet_lplan devnet_upgrading ?o x = Inr m" using devnet_evidence by blast
  ultimately show ?thesis unfolding only_looks_def
    by (intro exI [of _ m] exI [of _ new]) (simp add: current_sample_def sample_def run_steps assms(2))
qed

lemma looks_stage_host:
  assumes "env w = upgrade_env"
  shows "\<exists>obs' new. stage_host r u t (obs, errs) w = (Inr (obs', errs), w\<lparr>hist := new @ hist w\<rparr>)"
proof -
  let ?q = "upgrade_request r u (fw_rec w) t ''upgrade-stage''"
  have q: "nq_action ?q = ''upgrade-stage''" by (simp add: upgrade_request_def set_sidecars_def runtime_request_def chain_request_def plain_request_def split: option.splits)
  have o: "no_render (devnet_answer 15 ?q) \<noteq> None" by (simp add: devnet_answer_def Let_def)
  show ?thesis using assms o
    by (intro exI exI [of _ "[(FHost ?q, WSeen (Inr (devnet_answer 15 ?q))), (FNext, WNext 0)]"])
      (auto simp: stage_host_def run_steps run_ctx_done run_ask run_fcall q)
qed

lemma looks_stage_upgrade:
  assumes "env w = upgrade_env"
  shows "only_looks (stage_upgrade r u ts) w"
proof -
  have "\<exists>obs' new. stage_all r u ts (obs, []) w = (Inr (obs', []), w\<lparr>hist := new @ hist w\<rparr>)" for obs
    using assms
  proof (induction ts arbitrary: obs w rule: measure_induct_rule [of length])
    case (less ts)
    show ?case
    proof (cases "ts = []")
      case True
      then show ?thesis by (subst stage_all.simps) (auto simp: run_steps intro!: exI [of _ "[]"])
    next
      case False
      let ?w = "w\<lparr>hist := (FNext, WNext 0) # hist w\<rparr>"
      have "env ?w = upgrade_env" using less.prems by simp
      then obtain obs1 new1 where one: "stage_host r u (ts ! 0) (obs, []) ?w = (Inr (obs1, []), ?w\<lparr>hist := new1 @ hist ?w\<rparr>)"
        using looks_stage_host by blast
      have "length (without 0 ts) < length ts" "env (?w\<lparr>hist := new1 @ hist ?w\<rparr>) = upgrade_env" using False less.prems by simp_all
      from less.IH [OF this] obtain obs2 new2 where two: "stage_all r u (without 0 ts) (obs1, []) (?w\<lparr>hist := new1 @ hist ?w\<rparr>) =
          (Inr (obs2, []), (?w\<lparr>hist := new1 @ hist ?w\<rparr>)\<lparr>hist := new2 @ hist (?w\<lparr>hist := new1 @ hist ?w\<rparr>)\<rparr>)"
        by blast
      have "stage_all r u ts (obs, []) w = stage_all r u (without 0 ts) (obs1, []) (?w\<lparr>hist := new1 @ hist ?w\<rparr>)"
        using one False less.prems by (subst stage_all.simps) (simp add: run_steps run_ask Let_def del: tl_without)
      then show ?thesis using two by (intro exI [of _ obs2] exI [of _ "new2 @ new1 @ [(FNext, WNext 0)]"]) simp
    qed
  qed
  then obtain obs' new where "stage_all r u ts (fmempty, []) w = (Inr (obs', []), w\<lparr>hist := new @ hist w\<rparr>)" by blast
  then show ?thesis unfolding only_looks_def by (intro exI [of _ obs'] exI [of _ new]) (simp add: stage_upgrade_def run_steps)
qed

lemma run_upgrade_save:
  assumes "env w = upgrade_env"
  shows "fsave owner w = (Inr (), w\<lparr>fw_rec := stamp (100 + int (length (hist w))) (fw_rec w),
    hist := (FCloud (QSave (stamp (100 + int (length (hist w))) (fw_rec w)) owner), WCloud (RUnit (Inr ()))) # hist w\<rparr>)"
  using assms by (simp add: fsave_def set_frec_def run_steps run_fcall now_def)

text \<open>The replacement of the pending validator: mining is paused, the connection is lost, mining is resumed.\<close>

lemma devnet_quiet: "quiet_now (Inr (devnet_answer 15 q))"
proof -
  have "quiet_dkg 15" by code_simp
  then show ?thesis by (simp add: quiet_now_def devnet_answer_def Let_def devnet_core_def)
qed

lemma run_host_call:
  assumes "env w = upgrade_env" and "action \<noteq> ''upgrade-apply''"
  shows "host_call r p t action plain w = (let q = runtime_request (cr_refs r) p (fw_rec w) t action in
    (Inr (devnet_answer 15 q), w\<lparr>hist := (FHost q, WSeen (Inr (devnet_answer 15 q))) # hist w\<rparr>))"
  using assms by (simp add: host_call_def plain_def run_steps wrapf_def run_fcall Let_def)

text \<open>An acknowledged pause of the miner and, later, a replacement without an answer.\<close>

definition lost_after_pause :: "(nrequest freq, nobservation freply) hist \<Rightarrow> bool" where
  "lost_after_pause h \<longleftrightarrow> (\<exists>newer q mid p o1 older. h = newer @ (FHost q, WSeen (Inl (Err ''connection lost''))) # mid @
     (FHost p, WSeen (Inr o1)) # older \<and> nq_action q = ''upgrade-apply'' \<and> nq_action p = ''mine-pause'')"

lemma lost_after_pause_append: "lost_after_pause h \<Longrightarrow> lost_after_pause (new @ h)"
  unfolding lost_after_pause_def by (metis append.assoc)

lemma run_replace:
  assumes e: "env w = upgrade_env" and v: "nt_role t = ''validator''"
  shows "\<exists>x new. replace_node devnet_runner devnet_uplan t w = (Inl x, w\<lparr>hist := new @ hist w\<rparr>) \<and> lost_after_pause (new @ hist w)"
proof -
  obtain m where m: "miner_of devnet_lplan = Some m" using devnet_miner by blast
  let ?rq = "runtime_request (cr_refs devnet_runner) devnet_lplan (fw_rec w) m"
  let ?status = "(FHost (?rq ''core-status''), WSeen (Inr (devnet_answer 15 (?rq ''core-status''))))"
    and ?pause = "(FHost (?rq ''mine-pause''), WSeen (Inr (devnet_answer 15 (?rq ''mine-pause''))))"
  let ?a = "upgrade_request devnet_runner devnet_uplan (fw_rec w) t ''upgrade-apply''"
  let ?r = "set_payout (dp_payout (deployment_of (fw_rec w))) (?rq ''mine-start'')"
  have acts: "nq_action ?a = ''upgrade-apply''" "nq_action ?r = ''mine-start''"
    by (simp_all add: upgrade_request_def set_payout_def)
  let ?w1 = "w\<lparr>hist := [?status, ?pause, ?status] @ hist w\<rparr>"
  have "try_pause devnet_runner devnet_lplan w = (Inr True, ?w1)"
    using e by (simp add: try_pause_def at_miner_def must_def m run_steps bnd_ret run_host_call devnet_quiet Let_def)
  then have "0 < n \<Longrightarrow> pause_loop devnet_runner devnet_lplan d n w = (Inr (), ?w1)" for d n
    by (cases n) (simp_all add: run_steps)
  then have pause: "pause_mining_quietly devnet_runner devnet_lplan w = (Inr (), ?w1)"
    by (simp add: pause_mining_quietly_def run_steps now_def devnet_runner_def)
  let ?h2 = "(FHost ?a, WSeen (Inl (Err ''connection lost''))) # hist ?w1"
  have apply_it: "apply_call devnet_runner devnet_uplan t ?w1 = (Inl (Err ''connection lost''), ?w1\<lparr>hist := ?h2\<rparr>)"
    using e by (simp add: apply_call_def run_steps run_fcall acts)
  let ?h3 = "(FHost ?r, WSeen (Inr (devnet_answer 15 ?r))) # ?h2"
  have resume: "resume_mining devnet_runner devnet_lplan (?w1\<lparr>hist := ?h2\<rparr>) = (Inr (), ?w1\<lparr>hist := ?h3\<rparr>)"
    using e by (simp add: resume_mining_def must_def m run_steps wrapf_def run_fcall acts bnd_ret)
  have "replace_node devnet_runner devnet_uplan t w = (Inl (Err ''connection lost''), w\<lparr>hist := ?h3\<rparr>)"
    using v pause apply_it resume by (simp add: replace_node_def run_steps)
  moreover have "lost_after_pause ?h3"
    unfolding lost_after_pause_def
    by (rule exI [of _ "[(FHost ?r, WSeen (Inr (devnet_answer 15 ?r)))]"], rule exI [of _ ?a], rule exI [of _ "[?status]"], rule exI [of _ "?rq ''mine-pause''"])
      (auto simp: acts)
  ultimately show ?thesis
    by (intro exI [of _ "Err ''connection lost''"] exI [of _ "[(FHost ?r, WSeen (Inr (devnet_answer 15 ?r))), (FHost ?a, WSeen (Inl (Err ''connection lost''))), ?status, ?pause, ?status]"]) simp
qed

text \<open>The rollout of an interrupted upgrade starts with the pending node.\<close>

lemma devnet_order:
  obtains t ts where "pending_first devnet_pending (upgrade_order devnet_lplan ''core'') = t # ts" "nt_name t = devnet_pending" "nt_role t = ''validator''"
    "t \<in> set devnet_ntargets"
proof -
  obtain t where t: "t \<in> set devnet_ntargets" "nt_name t = devnet_pending" "nt_role t = ''validator''"
    using devnet_target_in [OF devnet_first(1)] devnet_first(2) by (auto simp: devnet_pending_def)
  have "t \<in> set (upgrade_order devnet_lplan ''core'')" using t by (simp add: upgrade_order_def validators_def)
  then have "filter (\<lambda>t. nt_name t = devnet_pending) (upgrade_order devnet_lplan ''core'') \<noteq> []" using t by (auto simp: filter_empty_conv)
  then obtain t' ts' where f: "filter (\<lambda>t. nt_name t = devnet_pending) (upgrade_order devnet_lplan ''core'') = t' # ts'" by (meson neq_Nil_conv)
  have p: "devnet_pending \<noteq> []" by code_simp
  obtain m where m: "miner_of devnet_lplan = Some m" "m \<in> set devnet_ntargets" using devnet_miner by blast
  have "t' \<in> set (filter (\<lambda>t. nt_name t = devnet_pending) (upgrade_order devnet_lplan ''core''))" unfolding f by simp
  then have "t' \<in> set (upgrade_order devnet_lplan ''core'')" "nt_name t' = devnet_pending" by simp_all
  moreover have "set (upgrade_order devnet_lplan ''core'') \<subseteq> set devnet_ntargets" using m by (auto simp: upgrade_order_def validators_def)
  ultimately have "t' \<in> set devnet_ntargets" "nt_name t' = nt_name t" using t by auto
  then have "t' = t" using devnet_ntarget_names t(1) by (metis distinct_map inj_onD)
  then show thesis using that [of t] t f p by (simp add: pending_first_def)
qed

lemma run_roll:
  assumes e: "env w = upgrade_env" and rc: "fw_rec w = devnet_upgrading"
  shows "\<exists>x rc' new. roll_out_upgrade devnet_runner devnet_uplan w = (Inl x, w\<lparr>fw_rec := rc', hist := new @ hist w\<rparr>) \<and> lost_after_pause (new @ hist w)"
proof -
  obtain t ts where o: "pending_first devnet_pending (upgrade_order devnet_lplan ''core'') = t # ts" "nt_name t = devnet_pending" "nt_role t = ''validator''"
    "t \<in> set devnet_ntargets" by (rule devnet_order)
  obtain y new1 where staged: "stage_upgrade devnet_runner devnet_uplan (upgrade_order devnet_lplan ''core'') w = (Inr y, w\<lparr>hist := new1 @ hist w\<rparr>)"
    using looks_stage_upgrade [OF e, of devnet_runner devnet_uplan "upgrade_order devnet_lplan ''core''"] by (auto simp: only_looks_def)
  have c: "completed_at devnet_progress devnet_pending \<longleftrightarrow> False" "devnet_pending \<noteq> []"
    using devnet_completed_at [OF devnet_first(1)] by (simp add: completed_at_def devnet_pending_def) code_simp
  let ?w1 = "w\<lparr>hist := devnet_listed # new1 @ hist w\<rparr>"
  have live: "live_scope devnet_runner devnet_lplan devnet_upgrading (w\<lparr>hist := new1 @ hist w\<rparr>) = (Inr (), ?w1)"
    by (subst devnet_live_scope_at [OF devnet_upgrading_state]) (use e in simp_all)
  let ?rc = "stamp (100 + int (length (hist ?w1))) (intend_node devnet_uplan t devnet_upgrading)"
  let ?save = "(FCloud (QSave ?rc (cr_owner devnet_runner)), WCloud (RUnit (Inr ()))) :: nrequest freq \<times> nobservation freply"
  let ?w2 = "?w1\<lparr>fw_rec := ?rc, hist := ?save # hist ?w1\<rparr>"
  have save: "fsave (cr_owner devnet_runner) (?w1\<lparr>fw_rec := intend_node devnet_uplan t devnet_upgrading\<rparr>) = (Inr (), ?w2)"
    by (subst run_upgrade_save) (use e in simp_all)
  have "env ?w2 = upgrade_env" using e by simp
  from run_replace [OF this o(3)] obtain x new2 where rep: "replace_node devnet_runner devnet_uplan t ?w2 = (Inl x, ?w2\<lparr>hist := new2 @ hist ?w2\<rparr>)"
    "lost_after_pause (new2 @ hist ?w2)" by blast
  have node: "roll_node devnet_runner devnet_uplan t (w\<lparr>hist := new1 @ hist w\<rparr>) = (Inl x, ?w2\<lparr>hist := new2 @ hist ?w2\<rparr>)"
    using live save rep(1) rc by (simp add: roll_node_def set_frec_def run_steps)
  have g: "progress_of devnet_upgrading = devnet_progress" by (simp add: progress_of_def devnet_upgrading_parts)
  have "roll_out_upgrade devnet_runner devnet_uplan w = (Inl x, w\<lparr>fw_rec := ?rc, hist := (new2 @ ?save # devnet_listed # new1) @ hist w\<rparr>)"
    using staged node by (simp add: roll_out_upgrade_def run_steps rc g o(1,2) c)
  then show ?thesis using rep(2) by (intro exI [of _ x] exI [of _ ?rc] exI [of _ "new2 @ ?save # devnet_listed # new1"]) simp
qed

lemma run_upgrade_claimed:
  assumes e: "env w = upgrade_env" and rc: "fw_rec w = devnet_upgrading"
  shows "\<exists>x rc' new. upgrade_claimed devnet_runner devnet_uplan w = (Inl x, w\<lparr>fw_rec := rc', fw_changed := True, hist := new @ hist w\<rparr>) \<and>
    lost_after_pause (new @ hist w)"
proof -
  let ?w1 = "w\<lparr>hist := devnet_listed # hist w\<rparr>"
  have live: "live_scope devnet_runner devnet_lplan devnet_upgrading w = (Inr (), ?w1)"
    by (subst devnet_live_scope_at [OF devnet_upgrading_state]) (use e in simp_all)
  have b: "check_base devnet_runner devnet_lplan devnet_upgrading = Inr ()"
    using devnet_upgrading_valid by (simp add: check_base_def devnet_runner_def devnet_upgrading_def devnet_record_def devnet_deployment_fields)
  have g: "progress_of devnet_upgrading = devnet_progress" "resumes devnet_uplan devnet_upgrading"
    by (simp_all add: progress_of_def resumes_def devnet_upgrading_parts)
  have k: "check_resumed devnet_uplan devnet_progress = Inr ()" by (simp add: check_resumed_def)
  obtain y new1 where s: "current_sample devnet_runner devnet_lplan devnet_pending ?w1 = (Inr y, ?w1\<lparr>hist := new1 @ hist ?w1\<rparr>)"
    using looks_current_sample [of ?w1 devnet_pending] e rc by (auto simp: only_looks_def)
  let ?w2 = "?w1\<lparr>hist := new1 @ hist ?w1, fw_changed := True\<rparr>"
  have "env ?w2 = upgrade_env" "fw_rec ?w2 = devnet_upgrading" using e rc by simp_all
  from run_roll [OF this] obtain x rc' new2 where out: "roll_out_upgrade devnet_runner devnet_uplan ?w2 = (Inl x, ?w2\<lparr>fw_rec := rc', hist := new2 @ hist ?w2\<rparr>)"
    "lost_after_pause (new2 @ hist ?w2)" by blast
  have "upgrade_claimed devnet_runner devnet_uplan w = (Inl x, w\<lparr>fw_rec := rc', fw_changed := True, hist := (new2 @ new1 @ [devnet_listed]) @ hist w\<rparr>)"
    using live b g k s out(1) by (simp add: upgrade_claimed_def set_changed_def run_steps rc)
  then show ?thesis using out(2) by (intro exI [of _ x] exI [of _ rc'] exI [of _ "new2 @ new1 @ [devnet_listed]"]) simp
qed

text \<open>The sample rollout loses the connection to its validator and ends with an error.\<close>

lemma devnet_upgrade_fails:
  "\<exists>x w'. execute_upgrade devnet_runner devnet_uplan upgrade_world = (Inl x, w') \<and> lost_after_pause (hist w')"
proof -
  let ?w = upgrade_world
  let ?id = "(FCloud QIdentity, WCloud (RText (Inr (Some ''123456789012''))))"
  let ?w2 = "?w\<lparr>hist := [(FCloud (QAcquire devnet_plan (cr_owner devnet_runner)), WCloud (RRecord (Inr devnet_upgrading))),
     (FRead devnet_plan, WStored (Inr (devnet_upgrading, []))), ?id], fw_rec := devnet_upgrading, fw_changed := False\<rparr>"
  have w: "env ?w = upgrade_env" "hist ?w = []" by (simp_all add: upgrade_world_def)
  have acc: "on_cloud (verify_account ''123456789012'') ?w = (Inr (), ?w\<lparr>hist := ?id # hist ?w\<rparr>)"
    by (rule devnet_account_at) (simp add: w)
  have "env ?w2 = upgrade_env" "fw_rec ?w2 = devnet_upgrading" by (simp_all add: w)
  from run_upgrade_claimed [OF this] obtain x rc' new where c: "upgrade_claimed devnet_runner devnet_uplan ?w2 =
      (Inl x, ?w2\<lparr>fw_rec := rc', fw_changed := True, hist := new @ hist ?w2\<rparr>)" "lost_after_pause (new @ hist ?w2)" by blast
  let ?v = "?w2\<lparr>fw_rec := rc', fw_changed := True, hist := new @ hist ?w2\<rparr>"
  have p: "cr_hash devnet_runner = sample_hash" "cr_refs devnet_runner = sample_refs" "cr_recipe devnet_runner = ''recipe''"
    "cr_worker devnet_runner = ''worker''" "cr_upgrader devnet_runner = ''upgrade''" "cr_remote devnet_runner" "cr_owner devnet_runner \<noteq> []" "cr_deadline devnet_runner"
    by (simp_all add: devnet_runner_def)
  have k: "lplan_compute devnet_lplan = devnet_plan" by simp
  let ?rc = "(interrupted_upgrade rc')\<lparr>rc_error := Some x\<rparr>"
  let ?rc2 = "stamp (100 + int (length (hist ?v))) ?rc"
  let ?new2 = "[(FCloud (QRelease devnet_plan (cr_owner devnet_runner)), WCloud (RUnit (Inr ()))),
    (FCloud (QSave ?rc2 (cr_owner devnet_runner)), WCloud (RUnit (Inr ())))]"
  have "env (?v\<lparr>fw_rec := ?rc\<rparr>) = upgrade_env" by (simp add: w)
  then have s: "fsettle interrupted_upgrade ''save upgrade interruption'' [] devnet_plan (cr_owner devnet_runner) (Inl x) ?v =
      (Inl x, ?v\<lparr>fw_rec := ?rc2, hist := ?new2 @ hist ?v\<rparr>)"
    using run_upgrade_save [of "?v\<lparr>fw_rec := ?rc\<rparr>" "cr_owner devnet_runner"]
    by (simp add: fsettle_def set_frec_def run_steps run_fcall w join_errors_def)
  have "execute_upgrade devnet_runner devnet_uplan ?w = (Inl x, ?v\<lparr>fw_rec := ?rc2, hist := ?new2 @ hist ?v\<rparr>)"
    using c(1) s acc by (simp add: execute_upgrade_def Let_def k p devnet_uplan_valid devnet_upgrading_valid run_steps run_fcall w begin_run_def)
  moreover have "lost_after_pause (hist (?v\<lparr>fw_rec := ?rc2, hist := ?new2 @ hist ?v\<rparr>))" using lost_after_pause_append [OF c(2), of ?new2] by simp
  ultimately show ?thesis by blast
qed

text \<open>The pending node is a node of the rollout that is not finished.\<close>

lemma devnet_pending_open:
  "devnet_pending \<in> nt_name ` set (upgrade_order devnet_lplan ''core'')" "\<not> completed_at devnet_progress devnet_pending"
proof -
  obtain t where t: "t \<in> set devnet_ntargets" "nt_name t = devnet_pending" "nt_role t = ''validator''"
    using devnet_target_in [OF devnet_first(1)] devnet_first(2) by (auto simp: devnet_pending_def)
  then have "t \<in> set (upgrade_order devnet_lplan ''core'')" by (simp add: upgrade_order_def validators_def)
  then show "devnet_pending \<in> nt_name ` set (upgrade_order devnet_lplan ''core'')" using t(2) by (metis image_eqI)
  show "\<not> completed_at devnet_progress devnet_pending"
    using devnet_completed_at [OF devnet_first(1)] by (simp add: completed_at_def devnet_pending_def)
qed

end
