(* ===== verification/Upgrade_Safety.thy ===== *)
theory Upgrade_Safety
  imports Upgrade_Guard Upgrade_Sample
begin

text \<open>
  Safety of an upgrade, for every behaviour of the hosts, of AWS and of the journal: a node is replaced
  only under a saved intent, one at a time behind a gate, and mining never stays paused.
\<close>

section \<open>The guard\<close>

fun applies :: "nrequest freq \<Rightarrow> nrequest option" where
  "applies (FHost q) = (if nq_action q = ''upgrade-apply'' then Some q else None)"
| "applies q = None"

definition in_order :: "uplan \<Rightarrow> string \<Rightarrow> bool" where
  "in_order u x \<longleftrightarrow> x \<in> nt_name ` set (upgrade_order (up_deployment u) (up_scope u))"

text \<open>A record this upgrade can resume: the pending node, if there is one, is a node of the rollout that
  is not finished.\<close>

definition resumable :: "uplan \<Rightarrow> oprec \<Rightarrow> bool" where
  "resumable u rc \<longleftrightarrow> (case rc_upgrade rc of None \<Rightarrow> True
     | Some g \<Rightarrow> ug_plan g = up_id u \<longrightarrow> ug_current g = [] \<or> in_order u (ug_current g) \<and> \<not> completed_at g (ug_current g))"

text \<open>The saved intent to replace node \<open>x\<close>.\<close>

definition intends :: "uplan \<Rightarrow> string \<Rightarrow> oprec \<Rightarrow> bool" where
  "intends u x rc \<longleftrightarrow> (\<exists>g rt. rc_upgrade rc = Some g \<and> ug_plan g = up_id u \<and> ug_phase g = ''applying'' \<and> ug_current g = x \<and>
     rc_runtime rc = Some rt \<and> fmlookup (rt_images rt) x = Some (images_at (up_to u) x))"

definition pending_claim :: "crunner \<Rightarrow> uplan \<Rightarrow> string \<Rightarrow> chain_hist \<Rightarrow> bool" where
  "pending_claim r u x h \<longleftrightarrow> (\<exists>rc g. (FCloud (QAcquire (lplan_compute (up_deployment u)) (cr_owner r)), WCloud (RRecord (Inr rc))) \<in> set h \<and>
     rc_upgrade rc = Some g \<and> ug_plan g = up_id u \<and> ug_current g = x)"

definition checked_since :: "crunner \<Rightarrow> uplan \<Rightarrow> chain_hist \<Rightarrow> bool" where
  "checked_since r u h \<longleftrightarrow> (\<exists>newer h1 h0 rc hc. h = newer @ h1 \<and> (\<forall>(q, a) \<in> set newer. applies q = None) \<and>
     two_samples r (up_deployment u) rc h0 hc h1 \<and> cl_healthy hc)"

definition upgrade_guard :: "crunner \<Rightarrow> uplan \<Rightarrow> chain_hist \<Rightarrow> nrequest freq \<Rightarrow> bool" where
  "upgrade_guard r u h q \<longleftrightarrow>
     (\<forall>k. applies q = Some k \<longrightarrow> (\<exists>rc. journaled saved_record h = Some rc \<and> intends u (nt_name (nq_target k)) rc) \<and>
        (pending_claim r u (nt_name (nq_target k)) h \<or> checked_since r u h)) \<and>
     (\<forall>rc owner. q = FCloud (QSave rc owner) \<longrightarrow> resumable u rc)"

lemma calls_apply: "calls (\<lambda>a. a = ''upgrade-apply'') q \<longleftrightarrow> applies q \<noteq> None"
  by (cases q) (auto simp: calls_def)

lemma quiet_upgrade: "applies q = None \<Longrightarrow> \<not> is_save q \<Longrightarrow> upgrade_guard r u h q"
  by (auto simp: upgrade_guard_def)

lemma quiet_saved_record: "\<not> is_save q \<Longrightarrow> saved_record q a = None"
  by (cases "(q, a)" rule: saved_record.cases) auto

lemma checked_Cons: "checked_since r u h \<Longrightarrow> applies q = None \<Longrightarrow> checked_since r u ((q, a) # h)"
  unfolding checked_since_def
proof (elim exE conjE)
  fix newer h1 h0 rc hc
  assume "applies q = None" "h = newer @ h1" "\<forall>(q, a) \<in> set newer. applies q = None"
    "two_samples r (up_deployment u) rc h0 hc h1" "cl_healthy hc"
  then show "\<exists>newer h1 h0 rc hc. (q, a) # h = newer @ h1 \<and> (\<forall>(q, a) \<in> set newer. applies q = None) \<and>
      two_samples r (up_deployment u) rc h0 hc h1 \<and> cl_healthy hc"
    by - (rule exI [of _ "(q, a) # newer"], rule exI [of _ h1], auto)
qed

lemma pending_Cons: "pending_claim r u x h \<Longrightarrow> pending_claim r u x (y # h)"
  by (auto simp: pending_claim_def)

text \<open>Evidence that only a replacement takes back.\<close>

locale gate =
  fixes A :: "chain_hist \<Rightarrow> bool"
  assumes open_until: "A h \<Longrightarrow> applies q = None \<Longrightarrow> A ((q, a) # h)"

definition rolls_on :: "crunner \<Rightarrow> uplan \<Rightarrow> (upgrade \<Rightarrow> bool) \<Rightarrow> (chain_hist \<Rightarrow> bool) \<Rightarrow> oprec \<Rightarrow> chain_hist \<Rightarrow> bool" where
  "rolls_on r u P A rc h \<longleftrightarrow> guarded (upgrade_guard r u) h \<and> resumable u rc \<and> A h \<and>
     (\<exists>g rt. rc_upgrade rc = Some g \<and> ug_plan g = up_id u \<and> rc_runtime rc = Some rt \<and> P g)"

definition orderly :: "crunner \<Rightarrow> uplan \<Rightarrow> oprec \<Rightarrow> chain_hist \<Rightarrow> bool" where
  "orderly r u rc h \<longleftrightarrow> guarded (upgrade_guard r u) h \<and> resumable u rc"

definition intent_saved :: "crunner \<Rightarrow> uplan \<Rightarrow> string \<Rightarrow> oprec \<Rightarrow> chain_hist \<Rightarrow> bool" where
  "intent_saved r u x rc h \<longleftrightarrow> orderly r u rc h \<and> intends u x rc \<and> (\<exists>rc'. journaled saved_record h = Some rc' \<and> intends u x rc') \<and>
     (pending_claim r u x h \<or> checked_since r u h)"

text \<open>What \<open>steady_up\<close> changes leave alone.\<close>

definition kept_by_steady :: "(upgrade \<Rightarrow> bool) \<Rightarrow> bool" where
  "kept_by_steady P \<longleftrightarrow> (\<forall>f g. steady_up f \<longrightarrow> P g \<longrightarrow> P (f g))"

lemma resumable_others: "resumable u rc \<Longrightarrow> rc_upgrade rc' = rc_upgrade rc \<Longrightarrow> resumable u rc'"
  by (simp add: resumable_def)

lemma resumable_mild: "resumable u rc \<Longrightarrow> steady_up f \<Longrightarrow> resumable u (rc\<lparr>rc_upgrade := map_option f (rc_upgrade rc)\<rparr>)"
  by (auto simp: resumable_def steady_up_def completed_at_def split: option.splits)

lemma guarded_quiet: "guarded (upgrade_guard r u) h \<Longrightarrow> applies q = None \<Longrightarrow> \<not> is_save q \<Longrightarrow> guarded (upgrade_guard r u) ((q, a) # h)"
  by (simp add: quiet_upgrade)

lemma guarded_save: "guarded (upgrade_guard r u) h \<Longrightarrow> resumable u rc \<Longrightarrow> guarded (upgrade_guard r u) ((FCloud (QSave rc owner), a) # h)"
  by (simp add: upgrade_guard_def)

interpretation orderly: rollout_invariant "orderly r u" "\<lambda>a. a = ''upgrade-apply''" for r u
proof
  show "orderly r u rc ((q, a) # h)" if "orderly r u rc h" "\<not> calls (\<lambda>a. a = ''upgrade-apply'') q" "\<not> is_save q" for rc h q a
    using that guarded_quiet unfolding orderly_def calls_apply by blast
  show "orderly r u rc ((FCloud (QSave rc owner), a) # h)" if "orderly r u rc h" for rc h owner a
    using that guarded_save unfolding orderly_def by blast
  show "orderly r u rc' h" if "orderly r u rc h" "rc_upgrade rc' = rc_upgrade rc" "rc_runtime rc' = rc_runtime rc" for rc rc' h
    using that resumable_others unfolding orderly_def by blast
  show "orderly r u (rc\<lparr>rc_upgrade := map_option f (rc_upgrade rc)\<rparr>) h" if "orderly r u rc h" "steady_up f" for rc h f
    using that resumable_mild unfolding orderly_def by blast
qed simp_all

lemma intends_others: "intends u x rc \<Longrightarrow> rc_upgrade rc' = rc_upgrade rc \<Longrightarrow> rc_runtime rc' = rc_runtime rc \<Longrightarrow> intends u x rc'"
  by (simp add: intends_def)

lemma intends_mild: "intends u x rc \<Longrightarrow> steady_up f \<Longrightarrow> intends u x (rc\<lparr>rc_upgrade := map_option f (rc_upgrade rc)\<rparr>)"
  by (auto simp: intends_def steady_up_def)

interpretation intent: rollout_invariant "intent_saved r u x" "\<lambda>a. a = ''upgrade-apply''" for r u x
proof
  show "intent_saved r u x rc ((q, a) # h)" if "intent_saved r u x rc h" "\<not> calls (\<lambda>a. a = ''upgrade-apply'') q" "\<not> is_save q" for rc h q a
    using that orderly.quiet pending_Cons checked_Cons quiet_saved_record unfolding intent_saved_def calls_apply by fastforce
  show "intent_saved r u x rc ((FCloud (QSave rc owner), a) # h)" if s: "intent_saved r u x rc h" for rc h owner a
  proof -
    have "saved_record (FCloud (QSave rc owner)) a = None \<or> saved_record (FCloud (QSave rc owner)) a = Some rc"
      by (cases "(FCloud (QSave rc owner) :: nrequest freq, a)" rule: saved_record.cases) auto
    then show ?thesis
      using s orderly.saved pending_Cons checked_Cons unfolding intent_saved_def by fastforce
  qed
  show "intent_saved r u x rc' h" if "intent_saved r u x rc h" "rc_upgrade rc' = rc_upgrade rc" "rc_runtime rc' = rc_runtime rc" for rc rc' h
    using that orderly.others intends_others unfolding intent_saved_def by blast
  show "intent_saved r u x (rc\<lparr>rc_upgrade := map_option f (rc_upgrade rc)\<rparr>) h" if "intent_saved r u x rc h" "steady_up f" for rc h f
    using that orderly.mild intends_mild unfolding intent_saved_def by blast
qed simp_all

text \<open>The rollout with its gate, and with what is known of its progress.\<close>

locale gated_rollout = gate A for A :: "chain_hist \<Rightarrow> bool" +
  fixes P :: "upgrade \<Rightarrow> bool"
  assumes steadily: "steady_up f \<Longrightarrow> P g \<Longrightarrow> P (f g)"

sublocale gated_rollout \<subseteq> rolls: rollout_invariant "rolls_on r u P A" "\<lambda>a. a = ''upgrade-apply''" for r u
proof
  show "rolls_on r u P A rc ((q, a) # h)" if "rolls_on r u P A rc h" "\<not> calls (\<lambda>a. a = ''upgrade-apply'') q" "\<not> is_save q" for rc h q a
    using that guarded_quiet open_until unfolding rolls_on_def calls_apply by blast
  show "rolls_on r u P A rc ((FCloud (QSave rc owner), a) # h)" if "rolls_on r u P A rc h" for rc h owner a
    using that guarded_save open_until [of h "FCloud (QSave rc owner)" a] unfolding rolls_on_def by auto
  show "rolls_on r u P A rc' h" if "rolls_on r u P A rc h" "rc_upgrade rc' = rc_upgrade rc" "rc_runtime rc' = rc_runtime rc" for rc rc' h
    using that resumable_others unfolding rolls_on_def by metis
  show "rolls_on r u P A (rc\<lparr>rc_upgrade := map_option f (rc_upgrade rc)\<rparr>) h" if s: "rolls_on r u P A rc h" "steady_up f" for rc h f
  proof -
    obtain g rt where g: "rc_upgrade rc = Some g" "ug_plan g = up_id u" "rc_runtime rc = Some rt" "P g" using s(1) by (auto simp: rolls_on_def)
    have "ug_plan (f g) = up_id u" "P (f g)" using g s(2) steadily by (auto simp: steady_up_def)
    then show ?thesis using s resumable_mild [OF _ s(2), of u rc] g unfolding rolls_on_def by auto
  qed
qed simp_all

text \<open>The gates of the code: none, the pending node of the claimed record, a healthy fleet since the last
  replacement; and what is known of the progress: the pending node, nothing.\<close>

definition ungated :: "chain_hist \<Rightarrow> bool" where "ungated h \<longleftrightarrow> True"

definition gate_of :: "crunner \<Rightarrow> uplan \<Rightarrow> string \<Rightarrow> chain_hist \<Rightarrow> bool" where
  "gate_of r u x h \<longleftrightarrow> pending_claim r u x h \<or> checked_since r u h"

definition at_node :: "string \<Rightarrow> (string, bool) fmap \<Rightarrow> upgrade \<Rightarrow> bool" where
  "at_node x m g \<longleftrightarrow> ug_current g = x \<and> ug_completed g = m"

definition claimed_gate :: "crunner \<Rightarrow> uplan \<Rightarrow> string \<Rightarrow> chain_hist \<Rightarrow> bool" where
  "claimed_gate r u x h \<longleftrightarrow> x = [] \<or> pending_claim r u x h"

lemma at_node_steady: "steady_up f \<Longrightarrow> at_node x m g \<Longrightarrow> at_node x m (f g)"
  by (simp add: steady_up_def at_node_def)

interpretation ungated: gated_rollout ungated "at_node x m" for x m
  by unfold_locales (auto simp: ungated_def intro: at_node_steady)

interpretation gated: gated_rollout "gate_of r u y" "at_node x m" for r u y x m
  by unfold_locales (auto simp: gate_of_def intro: at_node_steady pending_Cons checked_Cons)

interpretation claimed: gated_rollout "claimed_gate r u y" "at_node x m" for r u y x m
  by unfold_locales (auto simp: claimed_gate_def intro: at_node_steady pending_Cons)

interpretation checked: gated_rollout "checked_since r u" "at_node x m" for r u x m
  by unfold_locales (auto intro: at_node_steady checked_Cons)

section \<open>Verification opens the gate\<close>

lemma reads_apply_nothing: "chain_reads h \<Longrightarrow> (q, a) \<in> set h \<Longrightarrow> applies q = None"
  by (cases q) (auto simp: list_all_iff chain_observes_def)

context rollout_invariant
begin

lemma wp_verify_loop:
  assumes "holding w"
  shows "wp (verify_loop r (up_deployment u) n) (\<lambda>_ v. holding v \<and> checked_since r u (hist v)) (\<lambda>_. holding) w"
  using assms
proof (induction n arbitrary: w)
  case 0
  then show ?case by (simp add: wp_fail)
next
  case (Suc n)
  let ?p = "up_deployment u"
  have doctor: "wp (current_doctor r ?p) (\<lambda>hc v. holding v \<and> (\<exists>rc0 h0. two_samples r ?p rc0 h0 hc (hist v))) (\<lambda>_. holding) w"
  proof -
    have two: "wp (current_doctor r ?p) (\<lambda>hc v. two_samples r ?p (fw_rec w) (hist w) hc (hist v)) (\<lambda>_ _. True) w"
      unfolding current_doctor_def wp_bnd wp_gets by (rule wp_conseq [OF wp_chain_doctor]) auto
    show ?thesis by (rule wp_conseq [OF wp_conj [OF keeps_wp [OF keeps_doctor(1), OF Suc.prems] two]]) blast+
  qed
  have sampled: "wp (bnd (current_sample r ?p []) (\<lambda>_. ret hc)) (\<lambda>_ v. holding v \<and> checked_since r u (hist v)) (\<lambda>_. holding) v"
    if v: "holding v" "two_samples r ?p rc0 h0 hc (hist v)" "cl_healthy hc" for v hc rc0 h0
  proof -
    have reads: "wp (current_sample r ?p []) (\<lambda>_ v'. \<exists>new. hist v' = new @ hist v \<and> chain_reads new) (\<lambda>_ _. True) v"
      unfolding current_sample_def wp_bnd wp_gets
      by (rule wp_conseq [OF wp_sample]) (auto simp: wp_lift sampled_since_def split: sum.splits)
    have chk: "checked_since r u (new @ hist v)" if "chain_reads new" for new
      unfolding checked_since_def using v(2,3) reads_apply_nothing [OF that] by blast
    show ?thesis
      unfolding wp_bnd wp_ret
      by (rule wp_conseq [OF wp_conj [OF keeps_wp [OF keeps_current_sample, OF v(1)] reads]]) (use chk in auto)
  qed
  have again: "wp (bnd ctx_done (\<lambda>d. sq (reject_if d Cancelled) (sq chain_wait (verify_loop r ?p n))))
      (\<lambda>_ v. holding v \<and> checked_since r u (hist v)) (\<lambda>_. holding) v" if "holding v" for v
    unfolding wp_bnd wp_ctx_done wp_sq wp_reject_if
    using that by (auto intro!: wp_conseq [OF keeps_wp [OF keeps_wait, OF that]] Suc.IH)
  show ?case
    unfolding verify_loop.simps wp_bnd [of "current_doctor r ?p"]
    by (rule wp_conseq [OF doctor]) (use sampled again in \<open>auto split: if_splits\<close>)
qed

end

lemma rolling_orderly: "rolls_on r u P A rc h \<Longrightarrow> orderly r u rc h"
  by (simp add: rolls_on_def orderly_def)

lemma rolling_weaken: "rolls_on r u P A rc h \<Longrightarrow> B h \<Longrightarrow> rolls_on r u P B rc h"
  by (simp add: rolls_on_def)

definition at_work :: "crunner \<Rightarrow> uplan \<Rightarrow> string \<Rightarrow> (string, bool) fmap \<Rightarrow> (chain_hist \<Rightarrow> bool) \<Rightarrow> cworld \<Rightarrow> bool" where
  "at_work r u x m A w \<longleftrightarrow> rolls_on r u (at_node x m) A (fw_rec w) (hist w)"

definition at_rest :: "crunner \<Rightarrow> uplan \<Rightarrow> cworld \<Rightarrow> bool" where
  "at_rest r u w \<longleftrightarrow> orderly r u (fw_rec w) (hist w)"

lemma work_rest: "at_work r u x m A w \<Longrightarrow> at_rest r u w"
  by (simp add: at_work_def at_rest_def rolling_orderly)

lemma work_ungated: "at_work r u x m A w \<Longrightarrow> at_work r u x m ungated w"
  by (simp add: at_work_def rolls_on_def ungated_def)

lemma keeps_work_phase: "keeps (at_work r u x m A) (set_up (\<lambda>g. g\<lparr>ug_phase := s\<rparr>))"
  unfolding set_up_def set_frec_def
  by (rule keeps_modify) (auto simp: at_work_def rolls_on_def at_node_def resumable_def completed_at_def)

section \<open>One node\<close>

definition intent_at :: "crunner \<Rightarrow> uplan \<Rightarrow> ntarget \<Rightarrow> (string, bool) fmap \<Rightarrow> cworld \<Rightarrow> bool" where
  "intent_at r u t m w \<longleftrightarrow> intent_saved r u (nt_name t) (fw_rec w) (hist w) \<and> at_work r u (nt_name t) m ungated w"

lemma keeps_intent_at:
  assumes "keeps (\<lambda>w. intent_saved r u (nt_name t) (fw_rec w) (hist w)) op" and "keeps (\<lambda>w. rolls_on r u (at_node (nt_name t) m) ungated (fw_rec w) (hist w)) op"
  shows "keeps (intent_at r u t m) op"
  using assms by (auto simp: keeps_def intent_at_def at_work_def)

lemma wp_apply_call:
  assumes "intent_at r u t m w"
  shows "wp (apply_call r u t) (\<lambda>_. at_work r u (nt_name t) m ungated) (\<lambda>_. at_work r u (nt_name t) m ungated) w"
proof -
  have g: "upgrade_guard r u (hist w) (FHost (upgrade_request r u (fw_rec w) t ''upgrade-apply''))"
    using assms by (auto simp: intent_at_def intent_saved_def upgrade_guard_def)
  have "at_work r u (nt_name t) m ungated (w\<lparr>hist := (FHost (upgrade_request r u (fw_rec w) t ''upgrade-apply''), a) # hist w\<rparr>)" for a
    using assms g by (simp add: intent_at_def at_work_def rolls_on_def ungated_def)
  then show ?thesis by (auto simp: apply_call_def wp_bnd wp_gets wp_fcall Let_def split: sum.splits)
qed

lemma wp_replace_node:
  assumes "intent_at r u t m w"
  shows "wp (replace_node r u t) (\<lambda>_. at_work r u (nt_name t) m ungated) (\<lambda>_. at_work r u (nt_name t) m ungated) w"
proof (cases "up_scope u = ''core'' \<and> nt_role t = ''validator''")
  case False
  show ?thesis unfolding replace_node_def Let_def if_not_P [OF False] by (rule wp_apply_call [OF assms])
next
  case True
  let ?W = "at_work r u (nt_name t) m ungated" and ?p = "up_deployment u"
  have pause: "keeps (intent_at r u t m) (pause_mining_quietly r ?p)"
    by (rule keeps_intent_at [OF intent.keeps_pause_mining ungated.rolls.keeps_pause_mining]) simp_all
  have settle: "keeps ?W (settle_node r ?p t)" and resume: "keeps ?W (resume_mining r ?p)"
    unfolding at_work_def by (rule ungated.rolls.keeps_settle_node, rule ungated.rolls.keeps_resume_mining) simp
  have body: "wp (attempt (bnd (apply_call r u t) (\<lambda>o1. sq (settle_node r ?p t) (ret o1)))) (\<lambda>_. ?W) (\<lambda>_. ?W) v" if "intent_at r u t m v" for v
  proof -
    have k: "keeps ?W (sq (settle_node r ?p t) (ret o1))" for o1 :: nobservation by (intro keeps_intros settle)
    have "wp (sq (settle_node r ?p t) (ret o1)) (\<lambda>_. ?W) (\<lambda>_. ?W) v" if "?W v" for v and o1 :: nobservation
      by (rule keeps_wp [OF k, OF that])
    then show ?thesis
      unfolding wp_attempt wp_bnd [of "apply_call r u t"] by (rule wp_conseq [OF wp_apply_call [OF that]])
  qed
  have tail: "wp (bnd (attempt (resume_mining r ?p)) (\<lambda>resumed. lift (f resumed))) (\<lambda>_. ?W) (\<lambda>_. ?W) v" if "?W v"
    for v and f :: "unit res \<Rightarrow> nobservation res"
  proof -
    have k: "keeps ?W (bnd (attempt (resume_mining r ?p)) (\<lambda>resumed. lift (f resumed)))" by (intro keeps_intros resume)
    show ?thesis by (rule keeps_wp [OF k, OF that])
  qed
  have weak: "intent_at r u t m v \<Longrightarrow> ?W v" for v by (simp add: intent_at_def)
  show ?thesis
    unfolding replace_node_def Let_def if_P [OF True] wp_sq [of "pause_mining_quietly r ?p"] wp_bnd [of "attempt (bnd (apply_call r u t) _)"]
    by (rule wp_conseq [OF keeps_wp [OF pause, OF assms]], rule wp_conseq [OF body], assumption, erule tail, assumption, erule weak)
qed

text \<open>The intent is in memory, then saved.\<close>

lemma wp_save_intent:
  assumes w: "at_work r u c m (gate_of r u (nt_name t)) w" and "in_order u (nt_name t)" and "fmlookup m (nt_name t) \<noteq> Some True"
  shows "wp (sq (set_frec (intend_node u t)) (fsave (cr_owner r))) (\<lambda>_. intent_at r u t m) (\<lambda>_. at_rest r u) w"
proof -
  obtain g rt where g: "rc_upgrade (fw_rec w) = Some g" "ug_plan g = up_id u" "rc_runtime (fw_rec w) = Some rt" "ug_completed g = m"
    and o1: "guarded (upgrade_guard r u) (hist w)" "gate_of r u (nt_name t) (hist w)"
    using w by (auto simp: at_work_def rolls_on_def at_node_def)
  let ?rc = "intend_node u t (fw_rec w)"
  have rc: "resumable u (stamp t0 ?rc)" "intends u (nt_name t) (stamp t0 ?rc)" for t0
    using g assms(2,3) by (auto simp: intend_node_def stamp_def resumable_def intends_def completed_at_def)
  let ?w = "\<lambda>t0 a. w\<lparr>fw_rec := stamp t0 ?rc, hist := (FCloud (QSave (stamp t0 ?rc) (cr_owner r)), a) # hist w\<rparr>"
  have ord: "at_rest r u (?w t0 a)" for t0 a
    using guarded_save [OF o1(1) rc(1)] rc(1) by (simp add: at_rest_def orderly_def)
  have done_it: "intent_at r u t m (?w t0 (WCloud (RUnit (Inr ()))))" for t0
    using ord rc(2) o1 g pending_Cons checked_Cons
    by (auto simp: intent_at_def intent_saved_def at_rest_def at_work_def rolls_on_def orderly_def gate_of_def ungated_def at_node_def intend_node_def stamp_def)
  show ?thesis
    using ord done_it by (auto simp: fsave_def set_frec_def wp_bnd wp_now wp_sq wp_modify wp_gets wp_fcall Let_def split: sum.splits dest!: as_unit_Inr)
qed

lemma wp_finish_node:
  assumes "at_work r u x m (checked_since r u) w"
  shows "wp (sq (set_up (\<lambda>g. g\<lparr>ug_completed := fmupd y True (ug_completed g), ug_current := []\<rparr>)) (sq (fsave (cr_owner r)) (ret h)))
    (\<lambda>_. at_work r u [] (fmupd y True m) (checked_since r u)) (\<lambda>_. at_rest r u) w"
proof -
  let ?w = "w\<lparr>fw_rec := (fw_rec w)\<lparr>rc_upgrade := map_option (\<lambda>g. g\<lparr>ug_completed := fmupd y True (ug_completed g), ug_current := []\<rparr>) (rc_upgrade (fw_rec w))\<rparr>\<rparr>"
  have w: "at_work r u [] (fmupd y True m) (checked_since r u) ?w"
    using assms by (auto simp: at_work_def rolls_on_def at_node_def resumable_def)
  have save: "keeps (at_work r u [] (fmupd y True m) (checked_since r u)) (sq (fsave (cr_owner r)) (ret h))"
    unfolding at_work_def by (intro keeps_intros checked.rolls.keeps_save)
  show ?thesis
    unfolding set_up_def set_frec_def wp_sq [of "modify _"] wp_modify by (rule wp_conseq [OF keeps_wp [OF save, OF w]]) (auto intro: work_rest)
qed

lemma wp_roll_node:
  assumes w: "at_work r u c m (gate_of r u (nt_name t)) w" and t: "in_order u (nt_name t)" "fmlookup m (nt_name t) \<noteq> Some True"
  shows "wp (roll_node r u t) (\<lambda>_. at_work r u [] (fmupd (nt_name t) True m) (checked_since r u)) (\<lambda>_. at_rest r u) w"
proof -
  let ?x = "nt_name t" and ?p = "up_deployment u"
  let ?Q = "\<lambda>_. at_work r u [] (fmupd ?x True m) (checked_since r u)" and ?E = "\<lambda>_. at_rest r u"
  have live: "keeps (at_work r u c m (gate_of r u ?x)) (bnd (gets fw_rec) (live_scope r ?p))"
    unfolding at_work_def by (intro keeps_intros gated.rolls.keeps_doctor(3))
  have save: "keeps (at_work r u ?x m ungated) (fsave (cr_owner r))"
    unfolding at_work_def by (rule ungated.rolls.keeps_save)
  have verify: "wp (bnd (verify_upgrade r ?p) (\<lambda>h. sq (set_up (\<lambda>g. g\<lparr>ug_completed := fmupd ?x True (ug_completed g), ug_current := []\<rparr>))
      (sq (fsave (cr_owner r)) (ret h)))) ?Q ?E v" if "at_work r u ?x m ungated v" for v
  proof -
    have "wp (verify_upgrade r ?p) (\<lambda>_. at_work r u ?x m (checked_since r u)) ?E v"
      unfolding verify_upgrade_def
      by (rule wp_conseq [OF ungated.rolls.wp_verify_loop [OF that [unfolded at_work_def]]])
        (auto simp: at_work_def at_rest_def intro: rolling_weaken rolling_orderly)
    then show ?thesis unfolding wp_bnd [of "verify_upgrade _ _"] by (rule wp_conseq) (erule wp_finish_node, assumption)
  qed
  have phase: "wp (sq (set_up (\<lambda>g. g\<lparr>ug_phase := ''verifying''\<rparr>)) (sq (fsave (cr_owner r)) (bnd (verify_upgrade r ?p) (\<lambda>h.
      sq (set_up (\<lambda>g. g\<lparr>ug_completed := fmupd ?x True (ug_completed g), ug_current := []\<rparr>)) (sq (fsave (cr_owner r)) (ret h)))))) ?Q ?E v"
    if "at_work r u ?x m ungated v" for v
    unfolding wp_sq [of "set_up (\<lambda>g. g\<lparr>ug_phase := s\<rparr>)" for s] wp_sq [of "fsave _" "bnd _ _"]
    by (rule wp_conseq [OF keeps_wp [OF keeps_work_phase, OF that]], rule wp_conseq [OF keeps_wp [OF save]], assumption, erule verify, erule work_rest, erule work_rest)
  have checkd: "wp (sq (bnd (gets (\<lambda>w. progress_of (fw_rec w))) (\<lambda>g. lift (check_applied u g t o1)))
      (sq (set_up (\<lambda>g. g\<lparr>ug_phase := ''verifying''\<rparr>)) (sq (fsave (cr_owner r)) (bnd (verify_upgrade r ?p) (\<lambda>h.
      sq (set_up (\<lambda>g. g\<lparr>ug_completed := fmupd ?x True (ug_completed g), ug_current := []\<rparr>)) (sq (fsave (cr_owner r)) (ret h))))))) ?Q ?E v"
    if "at_work r u ?x m ungated v" for v o1
    unfolding wp_sq [of "bnd (gets _) _"] wp_bnd [of "gets _"] wp_gets wp_lift
    using phase [OF that] work_rest [OF that] by (auto split: sum.splits)
  show ?thesis
    unfolding roll_node_def Let_def wp_sq [of "bnd (gets fw_rec) (live_scope r ?p)"]
  proof (rule wp_conseq [OF keeps_wp [OF live, OF w]])
    fix v :: cworld assume v: "at_work r u c m (gate_of r u ?x) v"
    show "wp (sq (set_frec (intend_node u t)) (sq (fsave (cr_owner r)) (bnd (replace_node r u t) (\<lambda>o1.
        sq (bnd (gets (\<lambda>w. progress_of (fw_rec w))) (\<lambda>g. lift (check_applied u g t o1)))
        (sq (set_up (\<lambda>g. g\<lparr>ug_phase := ''verifying''\<rparr>)) (sq (fsave (cr_owner r)) (bnd (verify_upgrade r ?p) (\<lambda>h.
        sq (set_up (\<lambda>g. g\<lparr>ug_completed := fmupd ?x True (ug_completed g), ug_current := []\<rparr>)) (sq (fsave (cr_owner r)) (ret h)))))))))) ?Q ?E v"
      using wp_save_intent [OF v t] unfolding wp_sq [of "set_frec _"] wp_sq [of "fsave _" "bnd (replace_node r u t) _"] wp_bnd [of "replace_node r u t"]
      by (auto elim!: wp_conseq intro!: wp_conseq [OF wp_replace_node] checkd work_rest)
  qed (rule work_rest)
qed

section \<open>The rollout\<close>

definition checked_rest :: "crunner \<Rightarrow> uplan \<Rightarrow> cworld \<Rightarrow> bool" where
  "checked_rest r u w \<longleftrightarrow> (\<exists>m. at_work r u [] m (checked_since r u) w)"

lemma work_completed: "at_work r u x m A w \<Longrightarrow> ug_completed (progress_of (fw_rec w)) = m \<and> ug_current (progress_of (fw_rec w)) = x"
  by (auto simp: at_work_def rolls_on_def at_node_def progress_of_def)

lemma work_gate: "at_work r u x m (checked_since r u) w \<Longrightarrow> at_work r u x m (gate_of r u y) w"
  by (simp add: at_work_def rolls_on_def gate_of_def)

lemma checked_rest_rest: "checked_rest r u w \<Longrightarrow> at_rest r u w"
  by (auto simp: checked_rest_def intro: work_rest)

lemma wp_roll_nodes:
  assumes "checked_rest r u w" and "\<forall>t \<in> set ts. in_order u (nt_name t)"
  shows "wp (roll_nodes r u ts h) (\<lambda>_. checked_rest r u) (\<lambda>_. at_rest r u) w"
  using assms
proof (induction ts arbitrary: w h)
  case Nil
  then show ?case by (simp add: wp_ret)
next
  case (Cons t ts)
  obtain m where m: "at_work r u [] m (checked_since r u) w" using Cons.prems(1) by (auto simp: checked_rest_def)
  have rest: "wp (roll_nodes r u ts h') (\<lambda>_. checked_rest r u) (\<lambda>_. at_rest r u) v" if "checked_rest r u v" for h' v
    using Cons.IH that Cons.prems(2) by simp
  have node: "wp (bnd (roll_node r u t) (\<lambda>h'. roll_nodes r u ts (Some h'))) (\<lambda>_. checked_rest r u) (\<lambda>_. at_rest r u) w"
    if "fmlookup m (nt_name t) \<noteq> Some True"
  proof -
    have o1: "in_order u (nt_name t)" using Cons.prems(2) by simp
    have "wp (roll_node r u t) (\<lambda>_. checked_rest r u) (\<lambda>_. at_rest r u) w"
      by (rule wp_conseq [OF wp_roll_node [OF work_gate [OF m] o1 that]]) (auto simp: checked_rest_def)
    then show ?thesis unfolding wp_bnd [of "roll_node r u t"] by (rule wp_conseq) (erule rest, assumption)
  qed
  show ?case
    using rest [OF Cons.prems(1)] node work_completed [OF m] by (simp add: wp_bnd [of "gets _"] wp_gets completed_at_def)
qed

text \<open>The pending node comes first and passes the gate of the claim.\<close>

lemma wp_roll_pending:
  assumes w: "at_work r u c m (claimed_gate r u c) w" and c: "c \<noteq> []" and res: "in_order u c" "fmlookup m c \<noteq> Some True"
  shows "wp (roll_nodes r u (pending_first c (upgrade_order (up_deployment u) (up_scope u))) h) (\<lambda>_. checked_rest r u) (\<lambda>_. at_rest r u) w"
proof -
  let ?ts = "upgrade_order (up_deployment u) (up_scope u)"
  obtain t ts where f: "filter (\<lambda>t. nt_name t = c) ?ts = t # ts"
    using res(1) by (cases "filter (\<lambda>t. nt_name t = c) ?ts") (auto simp: in_order_def filter_empty_conv)
  then have t: "nt_name t = c" "t \<in> set ?ts" by (auto dest!: filter_eq_ConsD)
  let ?rest = "ts @ filter (\<lambda>t. nt_name t \<noteq> c) ?ts"
  have sub: "\<forall>t \<in> set ?rest. in_order u (nt_name t)"
  proof -
    have "set (t # ts) \<subseteq> set ?ts" unfolding f [symmetric] by auto
    then show ?thesis by (auto simp: in_order_def)
  qed
  have "at_work r u c m (gate_of r u (nt_name t)) w"
    using w c t(1) by (auto simp: at_work_def rolls_on_def claimed_gate_def gate_of_def)
  then have node: "wp (roll_node r u t) (\<lambda>_. checked_rest r u) (\<lambda>_. at_rest r u) w"
    by (rule wp_conseq [OF wp_roll_node]) (use res t(1) in \<open>auto simp: checked_rest_def\<close>)
  have p: "pending_first c ?ts = t # ?rest" using c f by (simp add: pending_first_def)
  have "wp (bnd (roll_node r u t) (\<lambda>h'. roll_nodes r u ?rest (Some h'))) (\<lambda>_. checked_rest r u) (\<lambda>_. at_rest r u) w"
    unfolding wp_bnd [of "roll_node r u t"] by (rule wp_conseq [OF node]) (erule wp_roll_nodes [OF _ sub], assumption)
  then show ?thesis
    unfolding p using work_completed [OF w] res t(1) by (simp add: wp_bnd [of "gets _"] wp_gets completed_at_def)
qed

lemma keeps_rest_verify: "keeps (at_rest r u) (verify_upgrade r p)"
  unfolding verify_upgrade_def at_rest_def by (rule keeps_verify_loop [OF orderly.rollout_invariant_axioms])

lemma wp_upgrade_rollout:
  assumes w: "at_work r u c m (claimed_gate r u c) w" and res: "c \<noteq> [] \<longrightarrow> in_order u c \<and> fmlookup m c \<noteq> Some True"
  shows "wp (roll_out_upgrade r u) (\<lambda>_. at_rest r u) (\<lambda>_. at_rest r u) w"
proof -
  let ?p = "up_deployment u" and ?ts = "upgrade_order (up_deployment u) (up_scope u)"
  let ?W = "at_work r u c m (claimed_gate r u c)" and ?R = "at_rest r u"
  have staged: "keeps ?W (if up_scope u = ''core'' then bnd (stage_upgrade r u ?ts) (\<lambda>_. ret ()) else stage_platform r u)"
    unfolding at_work_def by (intro keeps_intros claimed.rolls.keeps_stage_upgrade claimed.rolls.keeps_staging) simp_all
  have ending: "keeps ?R (bnd (case h1 of Some h \<Rightarrow> if cl_observed h = 0 then verify_upgrade r ?p else ret h | None \<Rightarrow> verify_upgrade r ?p)
      (\<lambda>h. sq (set_frec (finish_upgrade u h)) (accept_health r h)))" for h1
  proof -
    have "keeps ?R (set_frec (finish_upgrade u h))" for h
      unfolding set_frec_def at_rest_def
      by (rule keeps_modify) (auto simp: orderly_def finish_upgrade_def resumable_def completed_at_def Let_def split: option.splits)
    moreover have "keeps ?R (accept_health r h)" for h unfolding at_rest_def by (rule orderly.keeps_accept_health)
    ultimately show ?thesis by (intro keeps_intros keeps_rest_verify)
  qed
  let ?tail = "\<lambda>h0. bnd (roll_nodes r u (pending_first c ?ts) h0) (\<lambda>h1.
     bnd (case h1 of Some h \<Rightarrow> if cl_observed h = 0 then verify_upgrade r ?p else ret h | None \<Rightarrow> verify_upgrade r ?p) (\<lambda>h.
     sq (set_frec (finish_upgrade u h)) (accept_health r h)))"
  have rolled: "wp (?tail h0) (\<lambda>_. ?R) (\<lambda>_. ?R) v" if "wp (roll_nodes r u (pending_first c ?ts) h0) (\<lambda>_. checked_rest r u) (\<lambda>_. ?R) v" for v h0
    unfolding wp_bnd [of "roll_nodes _ _ _ _"] by (rule wp_conseq [OF that], rule keeps_wp [OF ending], erule checked_rest_rest, assumption)
  have gate: "wp (bnd (if c = [] then bnd (verify_upgrade r ?p) (\<lambda>h. ret (Some h)) else ret None) ?tail) (\<lambda>_. ?R) (\<lambda>_. ?R) v" if v: "?W v" for v
  proof (cases "c = []")
    case True
    have all: "\<forall>t \<in> set (pending_first c ?ts). in_order u (nt_name t)" by (auto simp: pending_first_def in_order_def)
    have "wp (verify_upgrade r ?p) (\<lambda>_. checked_rest r u) (\<lambda>_. ?R) v"
      unfolding verify_upgrade_def
      by (rule wp_conseq [OF claimed.rolls.wp_verify_loop [OF v [unfolded at_work_def]]])
        (use True in \<open>auto simp: checked_rest_def at_work_def at_rest_def intro: rolling_weaken rolling_orderly\<close>)
    then have "wp (bnd (verify_upgrade r ?p) (\<lambda>h. ret (Some h))) (\<lambda>_. checked_rest r u) (\<lambda>_. ?R) v"
      unfolding wp_bnd wp_ret by (rule wp_conseq)
    then show ?thesis unfolding if_P [OF True] wp_bnd [of "bnd (verify_upgrade r ?p) _"]
      by (rule wp_conseq) (rule rolled, erule wp_roll_nodes [OF _ all], assumption)
  next
    case False
    show ?thesis unfolding if_not_P [OF False] wp_bnd [of "ret _"] wp_ret
      by (rule rolled, rule wp_roll_pending [OF v False]) (use res False in simp_all)
  qed
  show ?thesis
    unfolding roll_out_upgrade_def Let_def wp_sq [of "if up_scope u = ''core'' then _ else _"] wp_bnd [of "gets _"] wp_gets
    by (rule wp_conseq [OF keeps_wp [OF staged, OF w]]) (use gate work_completed in \<open>fastforce intro: work_rest\<close>)+
qed

section \<open>The execution\<close>

definition claimed_record :: "crunner \<Rightarrow> uplan \<Rightarrow> oprec \<Rightarrow> chain_hist \<Rightarrow> bool" where
  "claimed_record r u rc h \<longleftrightarrow> (FCloud (QAcquire (lplan_compute (up_deployment u)) (cr_owner r)), WCloud (RRecord (Inr rc))) \<in> set h"

lemma valid_upgrade_runtime: "validate_record H R p rc = Inr () \<Longrightarrow> rc_upgrade rc = Some g \<Longrightarrow> \<exists>rt. rc_runtime rc = Some rt"
  by (auto simp: validate_record_def validate_upgrade_def after_Inr_iff split: if_splits option.splits)

lemma wp_start_upgrade:
  assumes w: "at_rest r u w"
  shows "wp (start_upgrade r u rc) (\<lambda>_ v. \<exists>m. at_work r u [] m ungated v) (\<lambda>_. at_rest r u) w"
proof -
  let ?p = "up_deployment u" and ?R = "at_rest r u"
  have doctor: "keeps ?R (chain_doctor r ?p rc)" and sampled: "keeps ?R (sample r ?p rc 0)"
    unfolding at_rest_def by (rule orderly.keeps_doctor orderly.keeps_sample)+
  have set_it: "wp (sq (set_frec (begin_upgrade r u b)) (sq set_changed (fsave (cr_owner r)))) (\<lambda>_ v. \<exists>m. at_work r u [] m ungated v) (\<lambda>_. ?R) v"
    if v: "?R v" for v b
  proof -
    let ?m = "fmap_of_list (map (\<lambda>t. (nt_name t, False)) (upgrade_order ?p (up_scope u)))"
    have b: "at_work r u [] ?m ungated (v\<lparr>fw_rec := begin_upgrade r u b (fw_rec v), fw_changed := True\<rparr>)"
      using v by (simp add: at_rest_def orderly_def at_work_def rolls_on_def begin_upgrade_def resumable_def ungated_def at_node_def upgrade_zero_def)
    have save: "keeps (at_work r u [] ?m ungated) (fsave (cr_owner r))" unfolding at_work_def by (rule ungated.rolls.keeps_save)
    show ?thesis
      unfolding set_frec_def set_changed_def wp_sq wp_modify
      by (rule wp_conseq [OF keeps_wp [OF save]]) (use b in \<open>auto intro: work_rest\<close>)
  qed
  have last: "wp (bnd (lift e) (\<lambda>b. sq (set_frec (begin_upgrade r u b)) (sq set_changed (fsave (cr_owner r))))) (\<lambda>_ v. \<exists>m. at_work r u [] m ungated v) (\<lambda>_. ?R) v"
    if "?R v" for v and e :: "(string, preservation) fmap res"
    using set_it [OF that] that by (cases e) (simp_all add: wp_bnd wp_lift)
  have middle: "wp (sq (reject_if b e) (bnd (sample r ?p rc 0) (\<lambda>s. bnd (lift (f s)) (\<lambda>b. sq (set_frec (begin_upgrade r u b)) (sq set_changed (fsave (cr_owner r)))))))
      (\<lambda>_ v. \<exists>m. at_work r u [] m ungated v) (\<lambda>_. ?R) v" if "?R v" for v b e and f :: "(string, csample) fmap \<Rightarrow> (string, preservation) fmap res"
    unfolding wp_sq [of "reject_if _ _"] wp_reject_if wp_bnd [of "sample _ _ _ _"]
    using that by (auto intro!: wp_conseq [OF keeps_wp [OF sampled, OF that]] last)
  show ?thesis
    unfolding start_upgrade_def Let_def wp_sq [of "lift _"] wp_lift wp_bnd [of "chain_doctor r ?p rc"]
    using w by (auto split: sum.splits intro!: wp_conseq [OF keeps_wp [OF doctor, OF w]] middle)
qed

lemma wp_upgrade_claimed:
  assumes w: "at_rest r u w" and c: "claimed_record r u (fw_rec w) (hist w)"
  shows "wp (upgrade_claimed r u) (\<lambda>_. at_rest r u) (\<lambda>_. at_rest r u) w"
proof -
  let ?p = "up_deployment u" and ?R = "at_rest r u"
  let ?ready = "\<lambda>v. \<exists>c m. at_work r u c m (claimed_gate r u c) v \<and> (c \<noteq> [] \<longrightarrow> in_order u c \<and> fmlookup m c \<noteq> Some True)"
  have ready_rest: "?ready v \<Longrightarrow> ?R v" for v by (blast intro: work_rest)
  let ?go = "bnd (gets (\<lambda>w. progress_of (fw_rec w))) (\<lambda>g. bnd (current_sample r ?p (ug_current g)) (\<lambda>_.
     if ug_phase g = ''complete'' then bnd (verify_upgrade r ?p) (\<lambda>_. ret ()) else sq set_changed (roll_out_upgrade r u)))"
  have go: "wp ?go (\<lambda>_. ?R) (\<lambda>_. ?R) v" if ready: "?ready v" for v
  proof -
    obtain c m where a: "at_work r u c m (claimed_gate r u c) v" "c \<noteq> [] \<longrightarrow> in_order u c \<and> fmlookup m c \<noteq> Some True" using ready by blast
    have sampled: "keeps (at_work r u c m (claimed_gate r u c)) (current_sample r ?p x)" for x
      unfolding at_work_def by (rule claimed.rolls.keeps_current_sample)
    have out: "wp (sq set_changed (roll_out_upgrade r u)) (\<lambda>_. ?R) (\<lambda>_. ?R) v'" if "at_work r u c m (claimed_gate r u c) v'" for v'
    proof -
      have "at_work r u c m (claimed_gate r u c) (v'\<lparr>fw_changed := True\<rparr>)" using that by (simp add: at_work_def)
      then show ?thesis unfolding set_changed_def wp_sq wp_modify by (rule wp_upgrade_rollout) (rule a(2))
    qed
    have ver: "keeps ?R (bnd (verify_upgrade r ?p) (\<lambda>_. ret ()))" by (intro keeps_intros keeps_rest_verify)
    have turn: "wp (if b then bnd (verify_upgrade r ?p) (\<lambda>_. ret ()) else sq set_changed (roll_out_upgrade r u)) (\<lambda>_. ?R) (\<lambda>_. ?R) v'"
      if "at_work r u c m (claimed_gate r u c) v'" for v' b
      using out [OF that] keeps_wp [OF ver, OF work_rest [OF that]] by (cases b) (simp_all only: if_True if_False)
    show ?thesis
      unfolding wp_bnd [of "gets _"] wp_gets wp_bnd [of "current_sample _ _ _"]
      by (rule wp_conseq [OF keeps_wp [OF sampled, OF a(1)]], erule turn, erule work_rest)
  qed
  let ?W = "\<lambda>v. ?R v \<and> claimed_record r u (fw_rec w) (hist v) \<and> fw_rec v = fw_rec w"
  have live: "wp (live_scope r ?p (fw_rec w)) (\<lambda>_. ?W) (\<lambda>_. ?R) w"
  proof -
    have k: "keeps ?R (live_scope r ?p (fw_rec w))" unfolding at_rest_def by (rule orderly.keeps_doctor(3))
    have s: "keeps (\<lambda>v. claimed_record r u (fw_rec w) (hist v) \<and> fw_rec v = fw_rec w) (live_scope r ?p (fw_rec w))"
      by (intro keeps_chain_doctor(2)) (unfold_locales, auto simp: claimed_record_def)
    show ?thesis by (rule wp_conseq [OF wp_conj [OF keeps_wp [OF k, OF w] keeps_wp [OF s]]]) (use c in auto)
  qed
  have resume: "wp (if resumes u (fw_rec w) then lift (check_resumed u (progress_of (fw_rec w))) else start_upgrade r u (fw_rec w)) (\<lambda>_. ?ready) (\<lambda>_. ?R) v"
    if v: "?W v" and b: "check_base r ?p (fw_rec w) = Inr ()" for v
  proof (cases "resumes u (fw_rec w)")
    case True
    then obtain g where g: "rc_upgrade (fw_rec w) = Some g" "ug_plan g = up_id u" by (auto simp: resumes_def split: option.splits)
    moreover have "validate_record (cr_hash r) (cr_refs r) (lplan_compute ?p) (fw_rec w) = Inr ()"
      using b unfolding check_base_def after_Inr_iff by auto
    moreover from valid_upgrade_runtime [OF this g(1)] obtain rt where "rc_runtime (fw_rec w) = Some rt" by blast
    ultimately have "at_work r u (ug_current g) (ug_completed g) (claimed_gate r u (ug_current g)) v"
      using v by (auto simp: at_rest_def orderly_def at_work_def rolls_on_def at_node_def claimed_gate_def claimed_record_def pending_claim_def)
    moreover have "ug_current g \<noteq> [] \<longrightarrow> in_order u (ug_current g) \<and> fmlookup (ug_completed g) (ug_current g) \<noteq> Some True"
      using v g by (auto simp: at_rest_def orderly_def resumable_def completed_at_def)
    ultimately have "?ready v" by blast
    then show ?thesis using v unfolding if_P [OF True] wp_lift by (auto split: sum.splits)
  next
    case False
    have "wp (start_upgrade r u (fw_rec w)) (\<lambda>_ v. \<exists>m. at_work r u [] m ungated v) (\<lambda>_. ?R) v" using v by (intro wp_start_upgrade) simp
    then show ?thesis unfolding if_not_P [OF False]
    proof (rule wp_conseq)
      fix v' :: cworld assume "\<exists>m. at_work r u [] m ungated v'"
      then obtain m where "at_work r u [] m ungated v'" by blast
      then have "at_work r u [] m (claimed_gate r u []) v'" by (simp add: at_work_def rolls_on_def claimed_gate_def)
      then show "?ready v'" by blast
    qed
  qed
  have body: "wp (sq (if resumes u (fw_rec w) then lift (check_resumed u (progress_of (fw_rec w))) else start_upgrade r u (fw_rec w)) ?go) (\<lambda>_. ?R) (\<lambda>_. ?R) v"
    if "?W v" "check_base r ?p (fw_rec w) = Inr ()" for v
    unfolding wp_sq [of "if resumes _ _ then _ else _"] by (rule wp_conseq [OF resume [OF that]], erule go, assumption)
  have based: "wp (sq (live_scope r ?p (fw_rec w)) (sq (if resumes u (fw_rec w) then lift (check_resumed u (progress_of (fw_rec w))) else start_upgrade r u (fw_rec w)) ?go)) (\<lambda>_. ?R) (\<lambda>_. ?R) w"
    if b: "check_base r ?p (fw_rec w) = Inr ()"
    unfolding wp_sq [of "live_scope _ _ _"]
  proof (rule wp_conseq [OF live])
    fix v :: cworld assume "?W v"
    from body [OF this b] show "wp (sq (if resumes u (fw_rec w) then lift (check_resumed u (progress_of (fw_rec w))) else start_upgrade r u (fw_rec w)) ?go) (\<lambda>_. ?R) (\<lambda>_. ?R) v" .
  qed
  show ?thesis
    unfolding upgrade_claimed_def Let_def wp_bnd [of "gets fw_rec"] wp_gets wp_sq [of "lift _"] wp_lift
  proof (cases "check_base r ?p (fw_rec w)")
    case Inl
    then show "case check_base r ?p (fw_rec w) of Inl e \<Rightarrow> ?R w | Inr _ \<Rightarrow> wp (sq (live_scope r ?p (fw_rec w)) (sq (if resumes u (fw_rec w) then lift (check_resumed u (progress_of (fw_rec w))) else start_upgrade r u (fw_rec w)) ?go)) (\<lambda>_. ?R) (\<lambda>_. ?R) w"
      using w by simp
  next
    case (Inr x)
    then have "check_base r ?p (fw_rec w) = Inr ()" by (cases x) simp
    from based [OF this] show "case check_base r ?p (fw_rec w) of Inl e \<Rightarrow> ?R w | Inr _ \<Rightarrow> wp (sq (live_scope r ?p (fw_rec w)) (sq (if resumes u (fw_rec w) then lift (check_resumed u (progress_of (fw_rec w))) else start_upgrade r u (fw_rec w)) ?go)) (\<lambda>_. ?R) (\<lambda>_. ?R) w"
      unfolding Inr sum.case .
  qed
qed

definition unclaimed_yet :: "crunner \<Rightarrow> uplan \<Rightarrow> (nrequest freq, nobservation freply) env \<Rightarrow> cworld \<Rightarrow> bool" where
  "unclaimed_yet r u e w \<longleftrightarrow> guarded (upgrade_guard r u) (hist w) \<and> env w = e"

lemma peek_applies_nothing: "peeks chain_observes q \<Longrightarrow> applies q = None \<and> \<not> is_save q"
  using orderly.quiet_peek by (auto simp: calls_apply)

interpretation unclaimed_yet: peeking_invariant "unclaimed_yet r u e" chain_observes for r u e
  by unfold_locales (auto simp: unclaimed_yet_def intro: quiet_upgrade dest: peek_applies_nothing)

lemma wp_execute_upgrade:
  assumes w: "unclaimed_yet r u e w"
    and claims: "\<And>h rc. answer e h (FCloud (QAcquire (lplan_compute (up_deployment u)) (cr_owner r))) = WCloud (RRecord (Inr rc)) \<Longrightarrow> resumable u rc"
  shows "wp (execute_upgrade r u) (\<lambda>_ v. guarded (upgrade_guard r u) (hist v)) (\<lambda>_ v. guarded (upgrade_guard r u) (hist v)) w"
proof -
  let ?p = "up_deployment u" and ?G = "\<lambda>v :: cworld. guarded (upgrade_guard r u) (hist v)" and ?U = "unclaimed_yet r u e"
  let ?acq = "FCloud (QAcquire (lplan_compute ?p) (cr_owner r)) :: nrequest freq"
  let ?settle = "fsettle interrupted_upgrade ''save upgrade interruption'' [] (lplan_compute ?p) (cr_owner r)"
  have rest: "at_rest r u v \<Longrightarrow> ?G v" for v by (simp add: at_rest_def orderly_def)
  have settle: "keeps (at_rest r u) (?settle res)" for res
    unfolding at_rest_def
    by (rule orderly.keeps_settlement) (auto simp: orderly_def interrupted_upgrade_def resumable_def completed_at_def split: option.splits)
  have run: "wp (sq (begin_run rc) (bnd (attempt (upgrade_claimed r u)) ?settle)) (\<lambda>_. ?G) (\<lambda>_. ?G) (v\<lparr>hist := (?acq, WCloud (RRecord (Inr rc))) # hist v\<rparr>)"
    if v: "?U v" and rc: "resumable u rc" for v rc
  proof -
    let ?v = "(v\<lparr>hist := (?acq, WCloud (RRecord (Inr rc))) # hist v\<rparr>)\<lparr>fw_rec := rc, fw_changed := False\<rparr>"
    have "at_rest r u ?v" using v rc by (simp add: unclaimed_yet_def at_rest_def orderly_def quiet_upgrade)
    moreover have "claimed_record r u (fw_rec ?v) (hist ?v)" by (simp add: claimed_record_def)
    ultimately have "wp (upgrade_claimed r u) (\<lambda>_. at_rest r u) (\<lambda>_. at_rest r u) ?v" by (rule wp_upgrade_claimed)
    then have "wp (attempt (upgrade_claimed r u)) (\<lambda>_. at_rest r u) (\<lambda>_. at_rest r u) ?v" unfolding wp_attempt .
    then show ?thesis unfolding begin_run_def wp_sq wp_modify wp_bnd
      by (rule wp_conseq) (rule wp_conseq [OF keeps_wp [OF settle]], assumption, erule rest, erule rest, erule rest)
  qed
  have acquire: "wp (bnd (fcall ?acq (as_record \<circ> cloud_reply)) (\<lambda>rc. sq (begin_run rc) (bnd (attempt (upgrade_claimed r u)) ?settle))) (\<lambda>_. ?G) (\<lambda>_. ?G) v"
    if v: "?U v" for v
  proof -
    have "answer (env v) (hist v) ?acq = WCloud (RRecord (Inr rc)) \<and> resumable u rc" if "as_record (cloud_reply (answer (env v) (hist v) ?acq)) = Inr rc" for rc
    proof -
      have "answer (env v) (hist v) ?acq = WCloud (RRecord (Inr rc))"
        using that by (cases "answer (env v) (hist v) ?acq"; cases "cloud_reply (answer (env v) (hist v) ?acq)") (auto simp: odd_reply_def)
      then show ?thesis using v claims by (auto simp: unclaimed_yet_def)
    qed
    moreover have "?G (v\<lparr>hist := (?acq, a) # hist v\<rparr>)" for a using v by (simp add: unclaimed_yet_def quiet_upgrade)
    ultimately show ?thesis
      unfolding wp_bnd [of "fcall _ _"] wp_fcall Let_def using run [OF v] by (auto split: sum.splits)
  qed
  have weak: "?U v \<Longrightarrow> ?G v" for v by (simp add: unclaimed_yet_def)
  have body: "wp (bnd (fcall (FRead (lplan_compute ?p)) stored_reply) (\<lambda>(prior, _). sq (lift (f prior))
      (bnd (fcall ?acq (as_record \<circ> cloud_reply)) (\<lambda>rc. sq (begin_run rc) (bnd (attempt (upgrade_claimed r u)) ?settle))))) (\<lambda>_. ?G) (\<lambda>_. ?G) v"
    if v: "?U v" for v and f :: "oprec \<Rightarrow> unit res"
    unfolding wp_bnd [of "fcall (FRead _) _"]
    by (rule wp_conseq [OF keeps_wp [OF unclaimed_yet.keeps_peek, OF _ v]])
      (auto simp: wp_sq wp_lift split: prod.splits sum.splits intro: acquire weak)
  show ?thesis
    unfolding execute_upgrade_def Let_def wp_sq [of "on_cloud _"] wp_sq [of "lift _"] wp_sq [of "reject_if _ _"] wp_reject_if wp_lift
    using w weak [OF w] by (auto split: sum.splits intro!: wp_conseq [OF keeps_wp [OF unclaimed_yet.keeps_on_account]] body intro: weak)
qed

section \<open>The theorems\<close>

interpretation upgrading: write_ahead saved_record applies "\<lambda>rc q. intends u (nt_name (nq_target q)) rc" for u
proof
  fix q k and a :: "nobservation freply" assume "applies q = Some k"
  then show "saved_record q a = None" by (cases q) auto
qed

text \<open>C6: An upgrade replaces one node at a time. In every run whose claimed journal can be resumed, whatever
  the hosts, AWS and the journal answer: the latest acknowledged save before each replacement names
  this upgrade, its node as the pending one and the images it is to run; the node is the pending
  node of the claimed journal, or the whole fleet was judged healthy by two samples since the last
  replacement; and every record that is saved can be resumed again.\<close>

theorem upgrade_one_at_a_time:
  assumes "execute_upgrade r u w = (res, w')" and "hist w = []"
    and "\<forall>h rc. answer (env w) h (FCloud (QAcquire (lplan_compute (up_deployment u)) (cr_owner r))) = WCloud (RRecord (Inr rc)) \<longrightarrow> resumable u rc"
    and "hist w' = newer @ (FHost q, a) # older" and "nq_action q = ''upgrade-apply''"
  shows "(\<exists>mid sent reply old rc. older = mid @ (sent, reply) # old \<and> saved_record sent reply = Some rc \<and> intends u (nt_name (nq_target q)) rc \<and>
      (\<forall>(q', r') \<in> set mid. saved_record q' r' = None)) \<and>
    (pending_claim r u (nt_name (nq_target q)) older \<or> checked_since r u older) \<and>
    (\<forall>rc owner b. (FCloud (QSave rc owner), b) \<in> set (hist w') \<longrightarrow> resumable u rc)"
proof -
  have "unclaimed_yet r u (env w) w" using assms(2) by (simp add: unclaimed_yet_def)
  from wp_execute_upgrade [OF this] assms(1,3) have g: "guarded (upgrade_guard r u) (hist w')"
    by (auto simp: wp_def split: sum.splits)
  have k: "applies (FHost q) = Some q" using assms(5) by simp
  have i: "guarded (intent_guard saved_record applies (\<lambda>rc q. intends u (nt_name (nq_target q)) rc)) h" if "guarded (upgrade_guard r u) h" for h
    using that by (induction h) (auto simp: upgrade_guard_def intent_guard_def split: option.splits)
  have "resumable u rc" if s: "(FCloud (QSave rc owner), b) \<in> set (hist w')" for rc owner b
  proof -
    obtain n1 n2 where "hist w' = n1 @ (FCloud (QSave rc owner), b) # n2" using s by (meson split_list)
    from guarded_split [OF g this] show ?thesis by (simp add: upgrade_guard_def)
  qed
  then show ?thesis
    using upgrading.effect_announced [OF i [OF g] assms(4) k] guarded_split [OF g assms(4)] k by (simp add: upgrade_guard_def)
qed

theorem upgrade_one_at_a_time_witness:
  "\<exists>x w' older q rc sent reply. execute_upgrade devnet_runner devnet_uplan upgrade_world = (Inl x, w') \<and>
     (FHost q, WSeen (Inl (Err ''connection lost''))) \<in> set (hist w') \<and> (sent, reply) \<in> set older \<and> set older \<subseteq> set (hist w') \<and>
     saved_record sent reply = Some rc \<and> intends devnet_uplan (nt_name (nq_target q)) rc"
proof -
  obtain x w' where e: "execute_upgrade devnet_runner devnet_uplan upgrade_world = (Inl x, w')" and l: "lost_after_pause (hist w')"
    using devnet_upgrade_fails by blast
  obtain newer q older where h: "hist w' = newer @ (FHost q, WSeen (Inl (Err ''connection lost''))) # older" "nq_action q = ''upgrade-apply''"
    using l by (auto simp: lost_after_pause_def)
  have "resumable devnet_uplan devnet_upgrading"
    using devnet_pending_open by (simp add: resumable_def devnet_upgrading_parts in_order_def)
  then have c: "\<forall>h rc. answer (env upgrade_world) h (FCloud (QAcquire (lplan_compute (up_deployment devnet_uplan)) (cr_owner devnet_runner))) = WCloud (RRecord (Inr rc)) \<longrightarrow>
      resumable devnet_uplan rc" by (simp add: upgrade_world_def)
  have "hist upgrade_world = []" by (simp add: upgrade_world_def)
  from upgrade_one_at_a_time [OF e this c h]
  obtain mid sent reply old rc where s: "older = mid @ (sent, reply) # old" "saved_record sent reply = Some rc" "intends devnet_uplan (nt_name (nq_target q)) rc" by blast
  have "(FHost q, WSeen (Inl (Err ''connection lost''))) \<in> set (hist w')" "set older \<subseteq> set (hist w')" "(sent, reply) \<in> set older"
    using h(1) s(1) by auto
  with e s(2,3) show ?thesis by blast
qed

text \<open>C7: Mining never stays paused. In every run of an upgrade, whatever happens after a pause of the miner
  was acknowledged (a failed replacement, a node that does not settle, a lost checkpoint), the run
  orders mining to start again before it ends.\<close>

theorem mining_resumed:
  assumes "execute_upgrade r u w = (res, w')" and "hist w = []"
    and "hist w' = newer @ (FHost q, WSeen (Inr o1)) # older" and "nq_action q = ''mine-pause''"
  shows "\<exists>m b. (FHost m, b) \<in> set newer \<and> nq_action m = ''mine-start''"
proof -
  have "\<not> mining_paused (hist w')"
    using keeps_unpaused_upgrade [of r u] assms(1,2) unfolding keeps_def by (metis mining_paused.simps(1) snd_conv)
  then obtain q' b where "(q', b) \<in> set newer" "host_action q' = Some ''mine-start''"
    using resumed_after [of newer "FHost q" o1 older] assms(3,4) by auto
  then show ?thesis by (cases q') auto
qed

theorem mining_resumed_witness:
  "\<exists>x w' p o1 m b. execute_upgrade devnet_runner devnet_uplan upgrade_world = (Inl x, w') \<and>
     (FHost p, WSeen (Inr o1)) \<in> set (hist w') \<and> nq_action p = ''mine-pause'' \<and> (FHost m, b) \<in> set (hist w') \<and> nq_action m = ''mine-start''"
proof -
  obtain x w' where e: "execute_upgrade devnet_runner devnet_uplan upgrade_world = (Inl x, w')" and l: "lost_after_pause (hist w')"
    using devnet_upgrade_fails by blast
  obtain newer p o1 older where h: "hist w' = newer @ (FHost p, WSeen (Inr o1)) # older" "nq_action p = ''mine-pause''"
  proof -
    obtain n1 q mid p o1 older where "hist w' = n1 @ (FHost q, WSeen (Inl (Err ''connection lost''))) # mid @ (FHost p, WSeen (Inr o1)) # older" "nq_action p = ''mine-pause''"
      using l by (auto simp: lost_after_pause_def)
    then show thesis by (intro that [of "n1 @ (FHost q, WSeen (Inl (Err ''connection lost''))) # mid"]) simp_all
  qed
  have "hist upgrade_world = []" by (simp add: upgrade_world_def)
  from mining_resumed [OF e this h] obtain m b where "(FHost m, b) \<in> set newer" "nq_action m = ''mine-start''" by blast
  moreover have "(FHost p, WSeen (Inr o1)) \<in> set (hist w')" "set newer \<subseteq> set (hist w')" using h(1) by auto
  ultimately show ?thesis using e h(2) by blast
qed

end
