(* ===== verification/Bootstrap_Run.thy ===== *)
theory Bootstrap_Run
  imports Bootstrap_Plan Fleet_Ops
begin

text \<open>
  \<open>internal/bootstrap/node.go\<close> and \<open>runner.go\<close>: the command line of the host recipe, the check of a host's
  response, and the execution of a bootstrap plan under the compute claim, with its pool of
  concurrent hosts. The bytes a host returns are the document they decode to, if they decode.
\<close>

section \<open>The command\<close>

text \<open>A quoted word of the shell: a single quote inside is closed, quoted by double quotes, and reopened.\<close>

definition quote_char :: "char \<Rightarrow> string" where
  "quote_char c = (if c = CHR 0x27 then [CHR 0x27, CHR 0x22, CHR 0x27, CHR 0x22, CHR 0x27] else [c])"

definition shell_quote :: "string \<Rightarrow> string" where
  "shell_quote s = [CHR 0x27] @ concat (map quote_char s) @ [CHR 0x27]"

record endpoint =
  ep_address :: string
  ep_port :: int
  ep_alias :: string

record bcall =
  bc_endpoint :: endpoint
  bc_command :: string
  bc_script :: string

record bobservation =
  bo_plan :: string
  bo_instance :: string
  bo_arch :: string
  bo_ready :: bool
  bo_docker :: string
  bo_compose :: string
  bo_error :: string

text \<open>The parts of \<open>Execute\<close>'s arguments: the digest and the text of the embedded recipe, the identity of the
  runner, whether there is a transport and a deadline; the rounds of paginated reads.\<close>

record brunner =
  br_hash :: hasher
  br_refs :: image_refs
  br_recipe :: string
  br_script :: string
  br_owner :: string
  br_version :: string
  br_remote :: bool
  br_deadline :: bool
  br_pages :: nat

definition bootstrap_args :: "bplan \<Rightarrow> btarget \<Rightarrow> string \<Rightarrow> string \<Rightarrow> string list" where
  "bootstrap_args p t i mode = [mode, pl_id (bp_compute p) @ '':'' @ i, bp_id p, i, bg_arch t] @ map cp_pinned (bg_images t)"

definition bootstrap_shell :: "bplan \<Rightarrow> string" where
  "bootstrap_shell p = (if ac_user (bp_access p) \<noteq> ''root'' then ''sudo -n -- '' else []) @
     ''/usr/bin/env -i PATH=/usr/sbin:/usr/bin:/sbin:/bin HOME=/root /bin/bash -s --''"

text \<open>Whether the target is the plan's target of that name; the texts are compared as JSON.\<close>

definition in_bplan :: "bplan \<Rightarrow> btarget \<Rightarrow> bool" where
  "in_bplan p t = foldl (\<lambda>m e. if bg_name e = bg_name t then btarget_json t = btarget_json e else m) False (bp_targets p)"

definition bootstrap_command :: "brunner \<Rightarrow> bplan \<Rightarrow> btarget \<Rightarrow> string \<Rightarrow> string \<Rightarrow> (string \<times> string) res" where
  "bootstrap_command r p t i mode = after (validate_bplan (br_hash r) (br_refs r) (br_recipe r) p) (\<lambda>_.
     if mode \<noteq> ''probe'' \<and> mode \<noteq> ''apply'' then Inl (Err ''invalid bootstrap mode'')
     else if \<not> matches instance_pattern i then Inl (Err ''invalid instance identity'')
     else if \<not> in_bplan p t then Inl (Err ''target does not match bootstrap plan'')
     else Inr (bootstrap_shell p @ concat (map (\<lambda>a. '' '' @ shell_quote a) (bootstrap_args p t i mode)), br_script r))"

section \<open>The response\<close>

type_synonym bseen = "bobservation option \<times> gerr option"

type_synonym 'a boper = "(bcall, bseen, 'a) foper"

text \<open>What \<open>remote.Run\<close> returned: the decoded output, if it decodes, and the error of the run.\<close>

fun run_reply :: "bseen freply \<Rightarrow> bseen" where
  "run_reply (WSeen (Inr x)) = x"
| "run_reply (WSeen (Inl e)) = (None, Some e)"
| "run_reply _ = (None, Some (Err ''unexpected reply''))"

definition recipe_stages :: "string list" where
  "recipe_stages = [''prerequisites'', ''os-check'', ''instance-identity'', ''cloud-init'', ''host-lock'', ''host-ownership'',
     ''existing-containers'', ''runtime-install'', ''runtime-start'', ''image-pull'', ''runtime-verify'', ''checkpoint'', ''response'']"

definition check_response :: "bplan \<Rightarrow> btarget \<Rightarrow> string \<Rightarrow> bseen \<Rightarrow> bobservation res" where
  "check_response p t i a = (case a of
     (decoded, Some e) \<Rightarrow> (case decoded of
         Some b \<Rightarrow> if bo_error b \<in> set recipe_stages then Inl (At (''bootstrap stage '' @ bo_error b) e) else Inl e
       | None \<Rightarrow> Inl e)
   | (None, None) \<Rightarrow> Inl (Err ''invalid or mismatched bootstrap response; raw output withheld'')
   | (Some b, None) \<Rightarrow>
       if bo_error b \<noteq> [] \<or> bo_plan b \<noteq> bp_id p \<or> bo_instance b \<noteq> i \<or> bo_arch b \<noteq> bg_arch t
         then Inl (Err ''invalid or mismatched bootstrap response; raw output withheld'')
       else if bo_ready b \<and> (\<not> matches runtime_version (bo_docker b) \<or> \<not> matches runtime_version (bo_compose b))
         then Inl (Err ''ready response lacks valid runtime versions'')
       else Inr b)"

definition observe_host :: "brunner \<Rightarrow> bplan \<Rightarrow> endpoint \<Rightarrow> btarget \<Rightarrow> string \<Rightarrow> string \<Rightarrow> bobservation boper" where
  "observe_host r p ep t i mode = bnd (lift (bootstrap_command r p t i mode)) (\<lambda>(command, script).
     fcall (FHost \<lparr>bc_endpoint = ep, bc_command = command, bc_script = script\<rparr>) (\<lambda>a. check_response p t i (run_reply a)))"

section \<open>The pool of hosts\<close>

definition boot_nodes_of :: "oprec \<Rightarrow> (string, boot_node) fmap" where
  "boot_nodes_of rc = (case rc_boot rc of None \<Rightarrow> fmempty | Some b \<Rightarrow> bt_nodes b)"

definition boot_node_at :: "oprec \<Rightarrow> string \<Rightarrow> boot_node" where
  "boot_node_at rc x = (case fmlookup (boot_nodes_of rc) x of None \<Rightarrow> \<lparr>bn_phase = [], bn_observed = 0, bn_docker = [], bn_compose = []\<rparr> | Some n \<Rightarrow> n)"

definition put_boot_node :: "string \<Rightarrow> boot_node \<Rightarrow> oprec \<Rightarrow> oprec" where
  "put_boot_node x n rc = rc\<lparr>rc_boot := map_option (\<lambda>b. b\<lparr>bt_nodes := fmupd x n (bt_nodes b)\<rparr>) (rc_boot rc)\<rparr>"

definition node_in :: "string \<Rightarrow> boot_node" where
  "node_in phase = \<lparr>bn_phase = phase, bn_observed = 0, bn_docker = [], bn_compose = []\<rparr>"

definition node_seen :: "string \<Rightarrow> gotime \<Rightarrow> boot_node" where
  "node_seen phase t0 = (node_in phase)\<lparr>bn_observed := t0\<rparr>"

definition node_ready :: "bobservation \<Rightarrow> gotime \<Rightarrow> boot_node" where
  "node_ready b t0 = \<lparr>bn_phase = ''ready'', bn_observed = t0, bn_docker = bo_docker b, bn_compose = bo_compose b\<rparr>"

text \<open>Where the goroutine of a host stands: about to probe, to apply the recipe, to read back, to verify at the
  end, or with its reply waiting on the channel.\<close>

datatype bjob = Probing | Applying | Reading | Verifying | Replied boot_node "gerr option"

definition job_mode :: "bjob \<Rightarrow> string" where
  "job_mode j = (if j = Applying then ''apply'' else ''probe'')"

fun advance :: "btarget \<Rightarrow> bjob \<Rightarrow> bobservation res \<Rightarrow> gotime \<Rightarrow> bjob" where
  "advance t Probing res t0 = (case res of
     Inl e \<Rightarrow> Replied (node_seen ''unknown'' t0) (Some (At (''preflight '' @ bg_name t) e))
   | Inr b \<Rightarrow> Replied (if bo_ready b then node_ready b t0 else node_seen ''pending'' t0) None)"
| "advance t Applying res t0 = (case res of
     Inl e \<Rightarrow> Replied (node_seen ''unknown'' t0) (Some (At (''prepare '' @ bg_name t @ '' (resume rechecks host state)'') e))
   | Inr b \<Rightarrow> Reading)"
| "advance t Reading res t0 = (case res of
     Inl e \<Rightarrow> Replied (node_seen ''unknown'' t0) (Some (At (''verify '' @ bg_name t) e))
   | Inr b \<Rightarrow> if bo_ready b then Replied (node_ready b t0) None
       else Replied (node_seen ''unknown'' t0) (Some (At (''verify '' @ bg_name t) (Err ''runtime/images not ready after preparation''))))"
| "advance t Verifying res t0 = (case res of
     Inl e \<Rightarrow> Replied (node_seen ''unknown'' t0) (Some (At (''final verification '' @ bg_name t) e))
   | Inr b \<Rightarrow> if bo_ready b then Replied (node_ready b t0) None
       else Replied (node_seen ''unknown'' t0) (Some (At (''final verification '' @ bg_name t) (Err ''runtime/images no longer ready''))))"
| "advance t (Replied n e) res t0 = Replied n e"

definition host_at :: "(string, endpoint \<times> string) fmap \<Rightarrow> string \<Rightarrow> endpoint \<times> string" where
  "host_at hosts x = (case fmlookup hosts x of None \<Rightarrow> (\<lparr>ep_address = [], ep_port = 0, ep_alias = []\<rparr>, []) | Some h \<Rightarrow> h)"

definition job_call :: "brunner \<Rightarrow> bplan \<Rightarrow> (string, endpoint \<times> string) fmap \<Rightarrow> btarget \<times> bjob \<Rightarrow> bobservation boper" where
  "job_call r p hosts x = (let h = host_at hosts (bg_name (fst x)) in
     observe_host r p (fst h) (fst x) (snd h) (job_mode (snd x)))"

definition record_boot :: "brunner \<Rightarrow> btarget \<Rightarrow> boot_node \<Rightarrow> unit boper" where
  "record_boot r t n = sq (set_frec (put_boot_node (bg_name t) n)) (fsave (br_owner r))"

definition parallel_hosts :: nat where
  "parallel_hosts = 16"

fun job_weight :: "bjob \<Rightarrow> nat" where
  "job_weight Applying = 3" | "job_weight (Replied n e) = 1" | "job_weight j = 2"

lemma job_weight_le: "job_weight j \<le> 3"
  by (cases j) auto

text \<open>The reply a goroutine hands over.\<close>

fun replied :: "bjob \<Rightarrow> (boot_node \<times> gerr option) option" where
  "replied (Replied n e) = Some (n, e)" | "replied j = None"

lemma replied_Some [simp]: "replied j = Some (n, e) \<longleftrightarrow> j = Replied n e"
  by (cases j) auto

lemma advance_weight: "replied j = None \<Longrightarrow> job_weight (advance t j res t0) < job_weight j"
  by (cases j) (auto split: sum.splits)

abbreviation pool_weight :: "(btarget \<times> bjob) list \<Rightarrow> nat" where
  "pool_weight active \<equiv> sum_list (map (job_weight \<circ> snd) active)"

lemma pool_weight_without: "i < length active \<Longrightarrow> pool_weight (without i active) + job_weight (snd (active ! i)) = pool_weight active"
proof -
  assume i: "i < length active"
  then have "pool_weight active = pool_weight (take i active @ active ! i # drop (Suc i) active)" by (metis id_take_nth_drop)
  then show ?thesis by (simp add: without_def)
qed

lemma pool_weight_update:
  assumes "i < length active"
  shows "pool_weight (active[i := (t, j)]) + job_weight (snd (active ! i)) = pool_weight active + job_weight j"
proof -
  have "pool_weight active = pool_weight (take i active @ active ! i # drop (Suc i) active)" using assms by (metis id_take_nth_drop)
  then show ?thesis using assms by (simp add: upd_conv_take_nth_drop)
qed

lemma pool_weight_advance:
  assumes "i < length active" and "replied (snd (active ! i)) = None"
  shows "pool_weight (active[i := (t, advance t' (snd (active ! i)) res t0)]) < pool_weight active"
  using pool_weight_update [OF assms(1), of t "advance t' (snd (active ! i)) res t0"] advance_weight [OF assms(2), of t' res t0] by simp

lemma pool_turn:
  assumes "active \<noteq> []"
  shows "replied (snd (active ! (k mod length active))) = None \<Longrightarrow>
      pool_weight (active[k mod length active := (t, advance t' (snd (active ! (k mod length active))) res t0)]) < pool_weight active"
    and "replied (snd (active ! (k mod length active))) = Some x \<Longrightarrow> pool_weight (without (k mod length active) active) < pool_weight active"
    and "replied (snd (active ! (k mod length active))) = Some x \<Longrightarrow> todo \<noteq> [] \<Longrightarrow>
      4 * length (tl todo) + pool_weight (without (k mod length active) active @ [(hd todo, j)]) < 4 * length todo + pool_weight active"
proof -
  have i: "k mod length active < length active" using assms by simp
  show "replied (snd (active ! (k mod length active))) = None \<Longrightarrow>
      pool_weight (active[k mod length active := (t, advance t' (snd (active ! (k mod length active))) res t0)]) < pool_weight active"
    by (rule pool_weight_advance [OF i])
  show w: "pool_weight (without (k mod length active) active) < pool_weight active"
    if "replied (snd (active ! (k mod length active))) = Some x"
    using pool_weight_without [OF i] that by (cases x) simp
  show "4 * length (tl todo) + pool_weight (without (k mod length active) active @ [(hd todo, j)]) < 4 * length todo + pool_weight active"
    if "replied (snd (active ! (k mod length active))) = Some x" "todo \<noteq> []"
    using w [OF that(1)] that(2) job_weight_le [of j] by (cases todo) auto
qed

text \<open>
  The loop of \<open>fleet\<close>: the scheduler picks the goroutine that goes on; one with a reply hands it over and
  the result is recorded; only then may the next target start, unless the context is done. After a
  failed record nothing more is recorded or started.
\<close>

function fleet_loop :: "brunner \<Rightarrow> bplan \<Rightarrow> (string, endpoint \<times> string) fmap \<Rightarrow> bjob \<Rightarrow> btarget list \<Rightarrow> (btarget \<times> bjob) list \<Rightarrow>
    gerr option \<Rightarrow> gerr list \<Rightarrow> (gerr option \<times> gerr list \<times> btarget list) boper" where
  "fleet_loop r p hosts j0 todo active stop errs =
     (if active = [] then ret (stop, errs, todo)
      else bnd (ask FNext) (\<lambda>a. let i = next_reply a mod length active in
        (case replied (snd (active ! i)) of
           Some (n, e) \<Rightarrow>
             if stop \<noteq> None then fleet_loop r p hosts j0 todo (without i active) stop (errs @ (case e of None \<Rightarrow> [] | Some x \<Rightarrow> [x]))
             else bnd (attempt (record_boot r (fst (active ! i)) n)) (\<lambda>saved. bnd ctx_done (\<lambda>d.
               if todo \<noteq> [] \<and> \<not> d \<and> saved = Inr () then fleet_loop r p hosts j0 (tl todo) (without i active @ [(hd todo, j0)]) None
                 (errs @ (case e of None \<Rightarrow> [] | Some x \<Rightarrow> [x]))
               else fleet_loop r p hosts j0 todo (without i active) (case saved of Inl x \<Rightarrow> Some x | Inr _ \<Rightarrow> None)
                 (errs @ (case e of None \<Rightarrow> [] | Some x \<Rightarrow> [x]))))
         | None \<Rightarrow> bnd (attempt (job_call r p hosts (active ! i))) (\<lambda>res.
             bnd now (\<lambda>t0. fleet_loop r p hosts j0 todo
               (active[i := (fst (active ! i), advance (fst (active ! i)) (snd (active ! i)) res t0)]) stop errs)))))"
  by pat_completeness auto
termination
  apply (relation "measure (\<lambda>(r, p, hosts, j0, todo, active, stop, errs). 4 * length todo + pool_weight active)")
  apply (simp_all only: in_measure prod.case wf_measure nat_add_left_cancel_less)
  apply (erule pool_turn(1), assumption)
  apply (erule pool_turn(2), assumption)
  apply (rule pool_turn(3), assumption, assumption, erule conjunct1)
  apply (erule pool_turn(2), assumption)
  done

declare fleet_loop.simps [simp del]

definition boot_fleet :: "brunner \<Rightarrow> bplan \<Rightarrow> (string, endpoint \<times> string) fmap \<Rightarrow> bjob \<Rightarrow> btarget list \<Rightarrow> unit boper" where
  "boot_fleet r p hosts j0 ts = bnd (fleet_loop r p hosts j0 (drop parallel_hosts ts) (map (\<lambda>t. (t, j0)) (take parallel_hosts ts)) None []) (\<lambda>(stop, errs, todo).
     lift (case stop of Some e \<Rightarrow> Inl (Joined (e # errs)) | None \<Rightarrow> joined_failures (errs @ (if todo \<noteq> [] then [Cancelled] else []))))"

section \<open>Execution\<close>

definition boot_host :: "bplan \<Rightarrow> live_map \<Rightarrow> (string, endpoint \<times> string) fmap \<Rightarrow> btarget \<Rightarrow> (string, endpoint \<times> string) fmap res" where
  "boot_host p live m t = (let ip = (case fmlookup live (bg_name t) of None \<Rightarrow> []
       | Some i \<Rightarrow> if ac_address (bp_access p) = ''public'' then in_public_ip i else in_private_ip i);
       ident = (case fmlookup live (bg_name t) of None \<Rightarrow> [] | Some i \<Rightarrow> in_id i) in
     if \<not> usable_v4 ip then Inl (Err (''target '' @ bg_name t @ '' lacks a usable '' @ ac_address (bp_access p) @ '' IPv4 address''))
     else Inr (fmupd (bg_name t) (\<lparr>ep_address = ip, ep_port = ac_port (bp_access p), ep_alias = host_alias p ident\<rparr>, ident) m))"

definition boot_hosts :: "bplan \<Rightarrow> live_map \<Rightarrow> (string, endpoint \<times> string) fmap res" where
  "boot_hosts p live = scan_ok (boot_host p live) fmempty (bp_targets p)"

definition check_boot_claim :: "brunner \<Rightarrow> bplan \<Rightarrow> oprec \<Rightarrow> unit res" where
  "check_boot_claim r p rc = after (validate_record (br_hash r) (br_refs r) (bp_compute p) rc) (\<lambda>_.
     if rc_phase rc \<noteq> ''compute-ready'' then Inl (Err ''compute state changed before bootstrap claim'')
     else if (case rc_boot rc of None \<Rightarrow> False | Some b \<Rightarrow> bt_plan b \<noteq> bp_id p)
       then Inl (Err ''network already has a different bootstrap plan; no automatic recipe or release replacement'')
     else Inr ())"

text \<open>Every target starts over, so a failure leaves no old observation behind.\<close>

definition begin_boot :: "brunner \<Rightarrow> bplan \<Rightarrow> oprec \<Rightarrow> oprec" where
  "begin_boot r p rc = rc\<lparr>rc_boot := Some \<lparr>bt_plan = bp_id p, bt_phase = ''preparing'',
       bt_nodes = fold (\<lambda>t. fmupd (bg_name t) (node_in ''pending'')) (bp_targets p) (boot_nodes_of rc)\<rparr>,
     rc_runner := br_owner r, rc_cli := br_version r, rc_error := None\<rparr>"

definition mark_hosts :: "string \<Rightarrow> btarget list \<Rightarrow> oprec \<Rightarrow> oprec" where
  "mark_hosts phase ts rc = fold (\<lambda>t. put_boot_node (bg_name t) (node_in phase)) ts rc"

definition unready :: "bplan \<Rightarrow> oprec \<Rightarrow> btarget list" where
  "unready p rc = filter (\<lambda>t. bn_phase (boot_node_at rc (bg_name t)) \<noteq> ''ready'') (bp_targets p)"

definition set_boot_phase :: "string \<Rightarrow> oprec \<Rightarrow> oprec" where
  "set_boot_phase s rc = rc\<lparr>rc_boot := map_option (\<lambda>b. b\<lparr>bt_phase := s\<rparr>) (rc_boot rc)\<rparr>"

definition live_targets :: "brunner \<Rightarrow> bplan \<Rightarrow> live_map boper" where
  "live_targets r p = bnd (gets fw_rec) (\<lambda>rc. on_cloud (running_targets (br_hash r) (br_refs r) (br_pages r) (bp_compute p) rc))"

definition boot_prepare :: "brunner \<Rightarrow> bplan \<Rightarrow> (string, endpoint \<times> string) fmap \<Rightarrow> unit boper" where
  "boot_prepare r p hosts = bnd (gets (\<lambda>w. unready p (fw_rec w))) (\<lambda>pending.
     sq (set_frec (mark_hosts ''preparing'' pending))
     (sq (if pending \<noteq> [] then fsave (br_owner r) else ret ())
     (boot_fleet r p hosts Applying pending)))"

definition boot_finish :: "brunner \<Rightarrow> bplan \<Rightarrow> (string, endpoint \<times> string) fmap \<Rightarrow> unit boper" where
  "boot_finish r p hosts = bnd (live_targets r p) (\<lambda>_.
     sq (boot_fleet r p hosts Verifying (bp_targets p))
     (sq (set_frec (set_boot_phase ''hosts-ready'')) (fsave (br_owner r))))"

definition boot_claimed :: "brunner \<Rightarrow> bplan \<Rightarrow> unit boper" where
  "boot_claimed r p = bnd (gets fw_rec) (\<lambda>rc.
     sq (lift (check_boot_claim r p rc))
     (sq (set_frec (begin_boot r p)) (sq set_changed (sq (fsave (br_owner r))
     (bnd (live_targets r p) (\<lambda>live.
     bnd (lift (boot_hosts p live)) (\<lambda>hosts.
     sq (set_frec (mark_hosts ''checking'' (bp_targets p))) (sq (fsave (br_owner r))
     (sq (boot_fleet r p hosts Probing (bp_targets p))
     (sq (boot_prepare r p hosts) (boot_finish r p hosts)))))))))))"

definition boot_interrupted :: "oprec \<Rightarrow> oprec" where
  "boot_interrupted = set_boot_phase ''interrupted''"

definition boot_execute :: "brunner \<Rightarrow> bplan \<Rightarrow> unit boper" where
  "boot_execute r p = (let compute = bp_compute p in
     sq (lift (validate_bplan (br_hash r) (br_refs r) (br_recipe r) p))
     (sq (reject_if (br_owner r = [] \<or> \<not> br_remote r) (Err ''runner identity and authenticated transport required''))
     (sq (reject_if (\<not> br_deadline r) (Err ''bootstrap requires a deadline''))
     (sq (on_cloud (verify_account (aws_account (nw_aws (pl_network compute)))))
     (bnd (fcall (FRead compute) stored_reply) (\<lambda>(prior, _).
     sq (lift (validate_record (br_hash r) (br_refs r) compute prior))
     (sq (reject_if (rc_phase prior \<noteq> ''compute-ready'') (Err ''finish EC2 provisioning before node bootstrap''))
     (bnd (wrapf ''claim bootstrap'' (fcall (FCloud (QAcquire compute (br_owner r))) (as_record \<circ> cloud_reply))) (\<lambda>rc.
     sq (modify (\<lambda>w. w\<lparr>fw_rec := rc, fw_changed := False\<rparr>))
     (bnd (attempt (boot_claimed r p)) (fsettle boot_interrupted ''save bootstrap interruption'' ''release runner claim'' compute (br_owner r))))))))))))"

end
