(* ===== verification/Shell_Words.thy ===== *)
theory Shell_Words
  imports Bootstrap_Run Chain_Sample
begin

text \<open>
  How a POSIX shell splits a command line that uses no expansion, and the command of the host recipe:
  whatever the plan's texts contain, the shell hands them to the recipe as they are.
\<close>

section \<open>Words\<close>

datatype shell_mode = Blank | Plain | Single | Double

definition shell_blank :: "char \<Rightarrow> bool" where
  "shell_blank c \<longleftrightarrow> c = CHR '' '' \<or> c = CHR 0x09"

text \<open>Characters the shell interprets outside quotes, and those it interprets inside double quotes. A line
  that has one of them is not split here.\<close>

definition shell_special :: "char \<Rightarrow> bool" where
  "shell_special c \<longleftrightarrow> c \<in> set ''|&;<>()$*?[#~!{}'' \<or> c \<in> {CHR 0x0A, CHR 0x5C, CHR 0x60}"

definition shell_expands :: "char \<Rightarrow> bool" where
  "shell_expands c \<longleftrightarrow> c \<in> {CHR ''$'', CHR ''!'', CHR 0x5C, CHR 0x60}"

fun shell_scan :: "shell_mode \<Rightarrow> string \<Rightarrow> string \<Rightarrow> string list option" where
  "shell_scan Blank w [] = Some []"
| "shell_scan Plain w [] = Some [w]"
| "shell_scan Single w [] = None"
| "shell_scan Double w [] = None"
| "shell_scan Blank w (c # s) = (if shell_blank c then shell_scan Blank [] s
     else if c = CHR 0x27 then shell_scan Single [] s else if c = CHR 0x22 then shell_scan Double [] s
     else if shell_special c then None else shell_scan Plain [c] s)"
| "shell_scan Plain w (c # s) = (if shell_blank c then map_option ((#) w) (shell_scan Blank [] s)
     else if c = CHR 0x27 then shell_scan Single w s else if c = CHR 0x22 then shell_scan Double w s
     else if shell_special c then None else shell_scan Plain (w @ [c]) s)"
| "shell_scan Single w (c # s) = (if c = CHR 0x27 then shell_scan Plain w s else shell_scan Single (w @ [c]) s)"
| "shell_scan Double w (c # s) = (if c = CHR 0x22 then shell_scan Plain w s
     else if shell_expands c then None else shell_scan Double (w @ [c]) s)"

definition shell_words :: "string \<Rightarrow> string list option" where
  "shell_words s = shell_scan Blank [] s"

lemma scan_quoted: "shell_scan Single w (concat (map quote_char s) @ CHR 0x27 # rest) = shell_scan Plain (w @ s) rest"
  by (induction s arbitrary: w) (auto simp: quote_char_def shell_blank_def shell_special_def shell_expands_def)

lemma scan_arguments: "shell_scan Plain w (concat (map (\<lambda>a. '' '' @ shell_quote a) as)) = Some (w # as)"
  by (induction as arbitrary: w) (simp_all add: shell_quote_def shell_blank_def scan_quoted)

definition bootstrap_program :: "bplan \<Rightarrow> string list" where
  "bootstrap_program p = (if ac_user (bp_access p) \<noteq> ''root'' then [''sudo'', ''-n'', ''--''] else []) @
     [''/usr/bin/env'', ''-i'', ''PATH=/usr/sbin:/usr/bin:/sbin:/bin'', ''HOME=/root'', ''/bin/bash'', ''-s'', ''--'']"

lemma scan_program: "shell_scan Blank [] (bootstrap_shell p @ concat (map (\<lambda>a. '' '' @ shell_quote a) as)) = Some (bootstrap_program p @ as)"
  by (simp add: bootstrap_shell_def bootstrap_program_def shell_blank_def shell_special_def scan_arguments [simplified])

definition bootstrap_line :: "bplan \<Rightarrow> btarget \<Rightarrow> string \<Rightarrow> string \<Rightarrow> string" where
  "bootstrap_line p t i mode = bootstrap_shell p @ concat (map (\<lambda>a. '' '' @ shell_quote a) (bootstrap_args p t i mode))"

lemma bootstrap_line_words: "shell_words (bootstrap_line p t i mode) = Some (bootstrap_program p @ bootstrap_args p t i mode)"
  by (simp only: shell_words_def bootstrap_line_def scan_program)

text \<open>A command line tells its mode and its instance.\<close>

lemma bootstrap_line_inject: "bootstrap_line p t i mode = bootstrap_line p t' i' mode' \<Longrightarrow> i = i' \<and> mode = mode'"
  using bootstrap_line_words [of p t i mode] bootstrap_line_words [of p t' i' mode'] by (simp add: bootstrap_args_def)

lemma bootstrap_command_Inr:
  "bootstrap_command r p t i mode = Inr (c, s) \<longleftrightarrow> validate_bplan (br_hash r) (br_refs r) (br_recipe r) p = Inr () \<and>
     (mode = ''probe'' \<or> mode = ''apply'') \<and> matches instance_pattern i \<and> in_bplan p t \<and> c = bootstrap_line p t i mode \<and> s = br_script r"
  by (auto simp: bootstrap_command_def res_simps bootstrap_line_def)

text \<open>A target of a plan with distinct names is the plan's target of its name.\<close>

lemma in_bplan_target:
  assumes "distinct (map bg_name (bp_targets p))" and "t \<in> set (bp_targets p)"
  shows "in_bplan p t"
proof -
  have "foldl (\<lambda>m e. if bg_name e = bg_name t then btarget_json t = btarget_json e else m) b ts = (if t \<in> set ts then True else b)"
    if "\<forall>e \<in> set ts. bg_name e = bg_name t \<longrightarrow> e = t" for b ts
    using that by (induction ts arbitrary: b) auto
  moreover have "\<forall>e \<in> set (bp_targets p). bg_name e = bg_name t \<longrightarrow> e = t"
    using assms by (metis (mono_tags, lifting) inj_onD distinct_map)
  ultimately show ?thesis using assms(2) by (simp add: in_bplan_def)
qed

definition devnet_booter :: brunner where
  "devnet_booter = \<lparr>br_hash = sample_hash, br_refs = sample_refs, br_recipe = ''recipe'', br_script = ''set -eu'', br_owner = ''runner-1'',
     br_version = ''v1'', br_remote = True, br_deadline = True, br_pages = 5\<rparr>"

lemma devnet_booter_parts [simp]: "br_hash devnet_booter = sample_hash" "br_refs devnet_booter = sample_refs" "br_recipe devnet_booter = ''recipe''"
  "br_script devnet_booter = ''set -eu''" "br_owner devnet_booter = ''runner-1''" "br_version devnet_booter = ''v1''"
  "br_remote devnet_booter" "br_deadline devnet_booter" "br_pages devnet_booter = 5"
  by (simp_all add: devnet_booter_def)

definition devnet_btarget :: "target \<times> inst \<Rightarrow> btarget" where
  "devnet_btarget x = bootstrap_target sample_refs devnet_lock (fst x)"

lemma devnet_btargets: "bp_targets devnet_bplan = map devnet_btarget devnet_hosts" "bg_name (devnet_btarget x) = tg_name (fst x)"
  "bg_arch (devnet_btarget x) = tg_arch (fst x)" "distinct (map (bg_name \<circ> devnet_btarget) devnet_hosts)"
proof -
  have l: "length (pl_targets devnet_plan) = 14" by code_simp
  have f: "map fst devnet_hosts = pl_targets devnet_plan" using l by (simp add: devnet_hosts_def)
  have "map devnet_btarget devnet_hosts = map (bootstrap_target sample_refs devnet_lock) (map fst devnet_hosts)" by (simp add: devnet_btarget_def)
  then show "bp_targets devnet_bplan = map devnet_btarget devnet_hosts" using f devnet_bplan_parts by simp
  show "bg_name (devnet_btarget x) = tg_name (fst x)" "bg_arch (devnet_btarget x) = tg_arch (fst x)" for x
    by (simp_all add: devnet_btarget_def bootstrap_target_def)
  then have "bg_name \<circ> devnet_btarget = tg_name \<circ> fst" by auto
  moreover have "distinct (map tg_name (map fst devnet_hosts))" unfolding f by (rule valid_plan_names(1) [OF devnet_plan_valid])
  ultimately show "distinct (map (bg_name \<circ> devnet_btarget) devnet_hosts)" by simp
qed

lemma devnet_instances: "x \<in> set devnet_hosts \<Longrightarrow> matches instance_pattern (in_id (snd x))"
proof -
  have "list_all (\<lambda>x. matches instance_pattern (in_id (snd x))) devnet_hosts" by code_simp
  then show "x \<in> set devnet_hosts \<Longrightarrow> matches instance_pattern (in_id (snd x))" by (simp add: list_all_iff)
qed

lemma devnet_command:
  assumes "x \<in> set devnet_hosts" and "mode = ''probe'' \<or> mode = ''apply''"
  shows "bootstrap_command devnet_booter devnet_bplan (devnet_btarget x) (in_id (snd x)) mode =
    Inr (bootstrap_line devnet_bplan (devnet_btarget x) (in_id (snd x)) mode, ''set -eu'')"
proof -
  have "in_bplan devnet_bplan (devnet_btarget x)"
    using devnet_btargets(1,4) assms(1) by (intro in_bplan_target) simp_all
  then show ?thesis using assms devnet_instances devnet_bplan_valid by (simp add: bootstrap_command_Inr)
qed

text \<open>The command line the bootstrap sends to a host splits, by the quoting rules of the shell, into the fixed
  program and exactly the typed arguments: the mode, the ownership of the instance, the plan, the
  instance, its architecture and the pinned images. No text of a plan can add a word, end the command
  or be expanded.\<close>

theorem command_splits:
  assumes "bootstrap_command r p t i mode = Inr (command, script)"
  shows "shell_words command = Some (bootstrap_program p @ [mode, pl_id (bp_compute p) @ '':'' @ i, bp_id p, i, bg_arch t] @ map cp_pinned (bg_images t))"
proof -
  have "command = bootstrap_line p t i mode" using assms by (simp add: bootstrap_command_Inr)
  then show ?thesis using bootstrap_line_words by (simp add: bootstrap_args_def)
qed

theorem command_splits_witness:
  "\<exists>x command. x \<in> set devnet_hosts \<and> bootstrap_command devnet_booter devnet_bplan (devnet_btarget x) (in_id (snd x)) ''apply'' = Inr (command, ''set -eu'') \<and>
    shell_words command = Some (bootstrap_program devnet_bplan @ [''apply'', pl_id (bp_compute devnet_bplan) @ '':'' @ in_id (snd x),
      bp_id devnet_bplan, in_id (snd x), tg_arch (fst x)] @ map cp_pinned (bg_images (devnet_btarget x)))"
proof -
  have "devnet_hosts \<noteq> []" using devnet_hosts_roles(4) by auto
  then obtain x where x: "x \<in> set devnet_hosts" using hd_in_set by blast
  from devnet_command [OF x] have c: "bootstrap_command devnet_booter devnet_bplan (devnet_btarget x) (in_id (snd x)) ''apply'' =
      Inr (bootstrap_line devnet_bplan (devnet_btarget x) (in_id (snd x)) ''apply'', ''set -eu'')" by simp
  from command_splits [OF this] c x show ?thesis
    unfolding devnet_btargets(3) by (intro exI [of _ x] exI conjI)
qed

end
