(* ===== verification/Bootstrap_Guard.thy ===== *)
theory Bootstrap_Guard
  imports Shell_Words
begin

text \<open>
  What an execution of a bootstrap plan keeps: the recipe is applied to a host only while the latest
  acknowledged save names its node as preparing, and a host that is judged ready has answered so.
\<close>

section \<open>The rule for the pool\<close>

definition failure_of :: "gerr option \<Rightarrow> gerr list" where
  "failure_of e = (case e of None \<Rightarrow> [] | Some x \<Rightarrow> [x])"

definition stop_of :: "unit res \<Rightarrow> gerr option" where
  "stop_of saved = (case saved of Inl x \<Rightarrow> Some x | Inr _ \<Rightarrow> None)"

type_synonym bworld = "(bcall, bseen) fworld"

lemma wp_fleet_loop_at:
  fixes I :: "btarget list \<Rightarrow> (btarget \<times> bjob) list \<Rightarrow> gerr option \<Rightarrow> gerr list \<Rightarrow> bworld \<Rightarrow> bool"
  assumes "I todo active stop errs w"
    and choice: "\<And>todo active stop errs w a. I todo active stop errs w \<Longrightarrow> I todo active stop errs (w\<lparr>hist := (FNext, a) # hist w\<rparr>)"
    and turn: "\<And>todo active stop errs w i. i < length active \<Longrightarrow> replied (snd (active ! i)) = None \<Longrightarrow> I todo active stop errs w \<Longrightarrow>
      wp (attempt (job_call r p hosts (active ! i)))
        (\<lambda>res w'. I todo (active[i := (fst (active ! i), advance (fst (active ! i)) (snd (active ! i)) res (clock (env w') (hist w')))]) stop errs w') E w"
    and drained: "\<And>todo active x errs w i n e. i < length active \<Longrightarrow> snd (active ! i) = Replied n e \<Longrightarrow> I todo active (Some x) errs w \<Longrightarrow>
      I todo (without i active) (Some x) (errs @ failure_of e) w"
    and recorded: "\<And>todo active errs w i n e. i < length active \<Longrightarrow> snd (active ! i) = Replied n e \<Longrightarrow> I todo active None errs w \<Longrightarrow>
      wp (attempt (record_boot r (fst (active ! i)) n))
        (\<lambda>saved w'. I todo (without i active) (stop_of saved) (errs @ failure_of e) w' \<and>
          (saved = Inr () \<longrightarrow> todo \<noteq> [] \<longrightarrow> I (tl todo) (without i active @ [(hd todo, j0)]) None (errs @ failure_of e) w')) E w"
  shows "wp (fleet_loop r p hosts j0 todo active stop errs) (\<lambda>(stop, errs, todo) w'. I todo [] stop errs w') E w"
  using assms(1)
proof (induction "4 * length todo + pool_weight active" arbitrary: todo active stop errs w rule: less_induct)
  case less
  let ?P = "\<lambda>(stop, errs, todo) w'. I todo [] stop errs w'"
  show ?case
  proof (cases "active = []")
    case True
    then show ?thesis using less.prems by (subst fleet_loop.simps) (simp add: wp_ret)
  next
    case False
    define a where "a = answer (env w) (hist w) FNext"
    define i where "i = next_reply a mod length active"
    let ?w = "w\<lparr>hist := (FNext, a) # hist w\<rparr>"
    have i: "i < length active" using False by (simp add: i_def)
    have I: "I todo active stop errs ?w" by (rule choice [OF less.prems])
    have "wp (case replied (snd (active ! i)) of
           Some (n, e) \<Rightarrow>
             if stop \<noteq> None then fleet_loop r p hosts j0 todo (without i active) stop (errs @ failure_of e)
             else bnd (attempt (record_boot r (fst (active ! i)) n)) (\<lambda>saved. bnd ctx_done (\<lambda>d.
               if todo \<noteq> [] \<and> \<not> d \<and> saved = Inr () then fleet_loop r p hosts j0 (tl todo) (without i active @ [(hd todo, j0)]) None (errs @ failure_of e)
               else fleet_loop r p hosts j0 todo (without i active) (stop_of saved) (errs @ failure_of e)))
         | None \<Rightarrow> bnd (attempt (job_call r p hosts (active ! i))) (\<lambda>res.
             bnd now (\<lambda>t0. fleet_loop r p hosts j0 todo
               (active[i := (fst (active ! i), advance (fst (active ! i)) (snd (active ! i)) res t0)]) stop errs))) ?P E ?w"
    proof (cases "replied (snd (active ! i))")
      case None
      have "wp (fleet_loop r p hosts j0 todo (active[i := (fst (active ! i), advance (fst (active ! i)) (snd (active ! i)) res t0)]) stop errs) ?P E v"
        if "I todo (active[i := (fst (active ! i), advance (fst (active ! i)) (snd (active ! i)) res t0)]) stop errs v" for res t0 v
        by (rule less.hyps [OF _ that]) (use pool_turn(1) [OF False, of "next_reply a"] None in \<open>simp add: i_def\<close>)
      then show ?thesis
        using None by (simp add: wp_bnd [of "attempt _"]) (rule wp_conseq [OF turn [OF i None I]], simp_all add: wp_bnd wp_now)
    next
      case (Some x)
      obtain n e where x: "snd (active ! i) = Replied n e" "x = (n, e)" using Some by (cases x) simp
      have small: "pool_weight (without i active) < pool_weight active" using pool_turn(2) [OF False, of "next_reply a"] Some by (simp add: i_def)
      have rest: "wp (fleet_loop r p hosts j0 todo (without i active) s errs') ?P E v" if "I todo (without i active) s errs' v" for s errs' v
        by (rule less.hyps [OF _ that]) (use small in simp)
      have more: "wp (fleet_loop r p hosts j0 (tl todo) (without i active @ [(hd todo, j0)]) None errs') ?P E v"
        if "todo \<noteq> []" "I (tl todo) (without i active @ [(hd todo, j0)]) None errs' v" for errs' v
        by (rule less.hyps [OF _ that(2)]) (use pool_turn(3) [OF False, of "next_reply a"] Some that(1) in \<open>simp add: i_def\<close>)
      show ?thesis
      proof (cases stop)
        case None
        have after: "wp (bnd ctx_done (\<lambda>d. if todo \<noteq> [] \<and> \<not> d \<and> saved = Inr ()
            then fleet_loop r p hosts j0 (tl todo) (without i active @ [(hd todo, j0)]) None (errs @ failure_of e)
            else fleet_loop r p hosts j0 todo (without i active) (stop_of saved) (errs @ failure_of e))) ?P E v"
          if s: "I todo (without i active) (stop_of saved) (errs @ failure_of e) v \<and>
            (saved = Inr () \<longrightarrow> todo \<noteq> [] \<longrightarrow> I (tl todo) (without i active @ [(hd todo, j0)]) None (errs @ failure_of e) v)" for saved v
        proof (cases "todo \<noteq> [] \<and> \<not> cancelled (env v) (hist v) \<and> saved = Inr ()")
          case True
          then have "todo \<noteq> []" "I (tl todo) (without i active @ [(hd todo, j0)]) None (errs @ failure_of e) v" using s by simp_all
          from more [OF this] show ?thesis unfolding wp_bnd wp_ctx_done if_P [OF True] .
        next
          case False
          show ?thesis unfolding wp_bnd wp_ctx_done if_not_P [OF False] by (rule rest) (use s in simp)
        qed
        have "I todo active None errs ?w" using I None by simp
        from wp_conseq [OF recorded [OF i x(1) this] after] show ?thesis
          using Some x None by (simp add: wp_bnd [of "attempt _"])
      next
        case (Some y)
        then show ?thesis using x \<open>replied (snd (active ! i)) = Some x\<close> rest [OF drained [OF i x(1)]] I by simp
      qed
    qed
    then show ?thesis
      unfolding i_def a_def failure_of_def stop_of_def
      by (subst fleet_loop.simps) (simp only: False if_False wp_bnd [of "ask FNext"] wp_ask Let_def)
  qed
qed

text \<open>Where the time of an observation does not matter.\<close>

lemma wp_fleet_loop:
  fixes I :: "btarget list \<Rightarrow> (btarget \<times> bjob) list \<Rightarrow> gerr option \<Rightarrow> gerr list \<Rightarrow> bworld \<Rightarrow> bool"
  assumes "I todo active stop errs w"
    and choice: "\<And>todo active stop errs w a. I todo active stop errs w \<Longrightarrow> I todo active stop errs (w\<lparr>hist := (FNext, a) # hist w\<rparr>)"
    and turn: "\<And>todo active stop errs w i. i < length active \<Longrightarrow> replied (snd (active ! i)) = None \<Longrightarrow> I todo active stop errs w \<Longrightarrow>
      wp (attempt (job_call r p hosts (active ! i)))
        (\<lambda>res w'. \<forall>t0. I todo (active[i := (fst (active ! i), advance (fst (active ! i)) (snd (active ! i)) res t0)]) stop errs w') E w"
    and drained: "\<And>todo active x errs w i n e. i < length active \<Longrightarrow> snd (active ! i) = Replied n e \<Longrightarrow> I todo active (Some x) errs w \<Longrightarrow>
      I todo (without i active) (Some x) (errs @ failure_of e) w"
    and recorded: "\<And>todo active errs w i n e. i < length active \<Longrightarrow> snd (active ! i) = Replied n e \<Longrightarrow> I todo active None errs w \<Longrightarrow>
      wp (attempt (record_boot r (fst (active ! i)) n))
        (\<lambda>saved w'. I todo (without i active) (stop_of saved) (errs @ failure_of e) w' \<and>
          (saved = Inr () \<longrightarrow> todo \<noteq> [] \<longrightarrow> I (tl todo) (without i active @ [(hd todo, j0)]) None (errs @ failure_of e) w')) E w"
  shows "wp (fleet_loop r p hosts j0 todo active stop errs) (\<lambda>(stop, errs, todo) w'. I todo [] stop errs w') E w"
proof (rule wp_fleet_loop_at [where I = I])
  fix todo active stop errs w i assume a: "i < length active" "replied (snd (active ! i)) = None" "I todo active stop errs w"
  show "wp (attempt (job_call r p hosts (active ! i))) (\<lambda>res w'. I todo
      (active[i := (fst (active ! i), advance (fst (active ! i)) (snd (active ! i)) res (clock (env w') (hist w')))]) stop errs w') E w"
    by (rule wp_conseq [OF turn [OF a]]) simp_all
qed (rule assms(1), erule choice, erule (2) drained, erule (2) recorded)

section \<open>The guard\<close>

fun boot_saved :: "bcall freq \<Rightarrow> bseen freply \<Rightarrow> oprec option" where
  "boot_saved (FCloud (QSave rc owner)) (WCloud (RUnit (Inr u))) = Some rc"
| "boot_saved q a = None"

text \<open>The instance a command applies the recipe to, read off the words of the command.\<close>

definition applied_words :: "string list \<Rightarrow> string option" where
  "applied_words ws = (case ws of mode # own # plan # i # rest \<Rightarrow> if mode = ''apply'' then Some i else None | _ \<Rightarrow> None)"

fun applied_instance :: "bplan \<Rightarrow> bcall freq \<Rightarrow> string option" where
  "applied_instance p (FHost c) = (case shell_words (bc_command c) of None \<Rightarrow> None
     | Some ws \<Rightarrow> applied_words (drop (length (bootstrap_program p)) ws))"
| "applied_instance p q = None"

definition prepared_for :: "bplan \<Rightarrow> oprec \<Rightarrow> string \<Rightarrow> bool" where
  "prepared_for p rc i \<longleftrightarrow> (\<exists>b. rc_boot rc = Some b \<and> bt_plan b = bp_id p) \<and> (\<exists>t \<in> set (bp_targets p).
     nd_instance (node_at rc (bg_name t)) = i \<and> bn_phase (boot_node_at rc (bg_name t)) = ''preparing'')"

interpretation booting: write_ahead boot_saved "applied_instance p" "prepared_for p" for p
proof
  fix q k and a :: "bseen freply" assume "applied_instance p q = Some k"
  then show "boot_saved q a = None" by (cases q) auto
qed

lemma applied_line: "applied_instance p (FHost \<lparr>bc_endpoint = ep, bc_command = bootstrap_line p t i mode, bc_script = s\<rparr>) =
    (if mode = ''apply'' then Some i else None)"
  by (simp add: bootstrap_line_words applied_words_def bootstrap_args_def)

abbreviation boot_guard :: "bplan \<Rightarrow> (bcall freq, bseen freply) hist \<Rightarrow> bcall freq \<Rightarrow> bool" where
  "boot_guard p \<equiv> intent_guard boot_saved (applied_instance p) (prepared_for p)"

definition booted :: "bplan \<Rightarrow> bworld \<Rightarrow> bool" where
  "booted p w \<longleftrightarrow> guarded (boot_guard p) (hist w)"

lemma booted_quiet: "booted p w \<Longrightarrow> applied_instance p q = None \<Longrightarrow> booted p (w\<lparr>hist := (q, a) # hist w\<rparr>)"
  by (simp add: booted_def intent_guard_def)

lemma booted_rec [simp]: "booted p (fw_rec_update f w) = booted p w" "booted p (fw_changed_update g w) = booted p w"
  by (simp_all add: booted_def)

text \<open>The response to a probe that is accepted as ready.\<close>

definition ready_answer :: "brunner \<Rightarrow> bplan \<Rightarrow> btarget \<Rightarrow> string \<Rightarrow> (bcall freq, bseen freply) hist \<Rightarrow> bool" where
  "ready_answer r p t i h \<longleftrightarrow> (\<exists>c a b. (FHost c, a) \<in> set h \<and> bootstrap_command r p t i ''probe'' = Inr (bc_command c, bc_script c) \<and>
     check_response p t i (run_reply a) = Inr b \<and> bo_ready b)"

lemma ready_answer_mono: "ready_answer r p t i h \<Longrightarrow> ready_answer r p t i (new @ h)"
  by (auto simp: ready_answer_def)

text \<open>One call of a goroutine.\<close>

lemma wp_job_call:
  fixes w :: bworld
  assumes "\<And>c a. bootstrap_command r p (fst x) (snd (host_at hosts (bg_name (fst x)))) (job_mode (snd x)) = Inr (bc_command c, bc_script c) \<Longrightarrow>
      applied_instance p (FHost c) = (if snd x = Applying then Some (snd (host_at hosts (bg_name (fst x)))) else None) \<Longrightarrow>
      Q (check_response p (fst x) (snd (host_at hosts (bg_name (fst x)))) (run_reply a)) (w\<lparr>hist := (FHost c, a) # hist w\<rparr>)"
    and "\<And>e. Q (Inl e) w"
  shows "wp (attempt (job_call r p hosts x)) Q E w"
proof -
  let ?i = "snd (host_at hosts (bg_name (fst x)))" and ?ep = "fst (host_at hosts (bg_name (fst x)))"
  show ?thesis
  proof (cases "bootstrap_command r p (fst x) ?i (job_mode (snd x))")
    case (Inl e)
    then show ?thesis by (simp add: job_call_def observe_host_def Let_def wp_attempt wp_bnd wp_lift assms(2))
  next
    case (Inr cs)
    obtain command script where cs: "cs = (command, script)" by fastforce
    let ?c = "\<lparr>bc_endpoint = ?ep, bc_command = command, bc_script = script\<rparr>"
    have line: "command = bootstrap_line p (fst x) ?i (job_mode (snd x))" using Inr cs by (simp add: bootstrap_command_Inr)
    have "applied_instance p (FHost ?c) = (if snd x = Applying then Some ?i else None)"
      unfolding line applied_line by (simp add: job_mode_def)
    then have "Q (check_response p (fst x) ?i (run_reply a)) (w\<lparr>hist := (FHost ?c, a) # hist w\<rparr>)" for a
      using assms(1) [of ?c] Inr cs by simp
    then show ?thesis
      using Inr cs by (auto simp: job_call_def observe_host_def Let_def wp_attempt wp_bnd wp_lift wp_fcall split: sum.splits) metis+
  qed
qed

lemma acknowledged: "as_unit (cloud_reply a) = Inr u \<Longrightarrow> a = WCloud (RUnit (Inr ()))" for a :: "bseen freply"
  by (cases a; cases "cloud_reply a") (auto simp: odd_reply_def)

lemma wp_boot_save:
  fixes w :: bworld
  assumes "\<And>t a. Q () (w\<lparr>fw_rec := stamp t (fw_rec w), hist := (FCloud (QSave (stamp t (fw_rec w)) owner), WCloud (RUnit (Inr ()))) # hist w\<rparr>)"
    and "\<And>t a e. boot_saved (FCloud (QSave (stamp t (fw_rec w)) owner)) a = None \<Longrightarrow>
      E e (w\<lparr>fw_rec := stamp t (fw_rec w), hist := (FCloud (QSave (stamp t (fw_rec w)) owner), a) # hist w\<rparr>)"
  shows "wp (fsave owner) Q E w"
proof -
  have n: "boot_saved (FCloud (QSave rc owner)) a = None" if "as_unit (cloud_reply a) = Inl e" for rc a e
    using that by (cases "(FCloud (QSave rc owner) :: bcall freq, a)" rule: boot_saved.cases) auto
  show ?thesis
    using assms n acknowledged unfolding fsave_def set_frec_def wp_bnd wp_now wp_sq wp_modify wp_gets wp_fcall Let_def
    by (auto split: sum.splits)
qed

section \<open>The record along a run\<close>

definition ours :: "bplan \<Rightarrow> oprec \<Rightarrow> bool" where
  "ours p rc \<longleftrightarrow> (\<exists>b. rc_boot rc = Some b \<and> bt_plan b = bp_id p)"

text \<open>The hosts the run talks to are the instances of the record.\<close>

definition linked :: "bplan \<Rightarrow> (string, endpoint \<times> string) fmap \<Rightarrow> oprec \<Rightarrow> bool" where
  "linked p hosts rc \<longleftrightarrow> (\<forall>t \<in> set (bp_targets p). nd_instance (node_at rc (bg_name t)) = snd (host_at hosts (bg_name t)))"

definition in_hand :: "bplan \<Rightarrow> (string, endpoint \<times> string) fmap \<Rightarrow> bworld \<Rightarrow> bool" where
  "in_hand p hosts w \<longleftrightarrow> ours p (fw_rec w) \<and> linked p hosts (fw_rec w) \<and> booted p w"

lemma node_at_same: "rc_nodes rc' = rc_nodes rc \<Longrightarrow> node_at rc' x = node_at rc x"
  by (simp add: node_at_def)

lemma put_boot_fields [simp]: "rc_nodes (put_boot_node x n rc) = rc_nodes rc" "ours p (put_boot_node x n rc) = ours p rc"
  by (auto simp: put_boot_node_def ours_def)

lemma stamp_boot [simp]: "rc_nodes (stamp t rc) = rc_nodes rc" "ours p (stamp t rc) = ours p rc" "boot_node_at (stamp t rc) x = boot_node_at rc x"
  "rc_boot (stamp t rc) = rc_boot rc"
  by (simp_all add: stamp_def ours_def boot_node_at_def boot_nodes_of_def)

lemma put_boot_at: "ours p rc \<Longrightarrow> boot_node_at (put_boot_node x n rc) y = (if x = y then n else boot_node_at rc y)"
  by (auto simp: ours_def put_boot_node_def boot_node_at_def boot_nodes_of_def)

lemma linked_same: "rc_nodes rc' = rc_nodes rc \<Longrightarrow> linked p hosts rc' = linked p hosts rc"
  using node_at_same [of rc' rc] by (simp add: linked_def)

lemma mark_hosts_keeps: "rc_nodes (mark_hosts phase ts rc) = rc_nodes rc" "ours p (mark_hosts phase ts rc) = ours p rc"
  by (induction ts arbitrary: rc) (simp_all add: mark_hosts_def)

lemma mark_hosts_at:
  "ours p rc \<Longrightarrow> boot_node_at (mark_hosts phase ts rc) y = (if y \<in> bg_name ` set ts then node_in phase else boot_node_at rc y)"
proof (induction ts arbitrary: rc)
  case (Cons t ts)
  have "mark_hosts phase (t # ts) rc = mark_hosts phase ts (put_boot_node (bg_name t) (node_in phase) rc)" by (simp add: mark_hosts_def)
  then show ?case using Cons by (auto simp: put_boot_at)
qed (simp add: mark_hosts_def)

lemma in_hand_ask: "in_hand p hosts w \<Longrightarrow> applied_instance p q = None \<Longrightarrow> in_hand p hosts (w\<lparr>hist := (q, a) # hist w\<rparr>)"
  by (simp add: in_hand_def booted_quiet)

interpretation in_hand: peeking_invariant "in_hand p hosts" "\<lambda>_. False" for p hosts
proof
  fix q :: "bcall freq" and w :: bworld and a assume "peeks (\<lambda>_. False) q" "in_hand p hosts w"
  then show "in_hand p hosts (w\<lparr>hist := (q, a) # hist w\<rparr>)" by (cases q) (auto intro: in_hand_ask)
qed

lemma keeps_hand_save: "keeps (in_hand p hosts) (fsave owner)"
proof (rule wp_keeps)
  fix w :: bworld assume "in_hand p hosts w"
  then have "in_hand p hosts (w\<lparr>fw_rec := stamp t (fw_rec w), hist := (FCloud (QSave (stamp t (fw_rec w)) owner), a) # hist w\<rparr>)" for t a
    using linked_same [of "stamp t (fw_rec w)" "fw_rec w"] by (simp add: in_hand_def booted_def intent_guard_def)
  then show "wp (fsave owner) (\<lambda>_. in_hand p hosts) (\<lambda>_. in_hand p hosts) w" by (intro wp_boot_save)
qed

lemma keeps_hand_set: "(\<And>rc. rc_nodes (f rc) = rc_nodes rc) \<Longrightarrow> (\<And>rc. ours p rc \<Longrightarrow> ours p (f rc)) \<Longrightarrow> keeps (in_hand p hosts) (set_frec f)"
  unfolding set_frec_def
proof (rule keeps_modify)
  fix w :: bworld assume a: "\<And>rc. rc_nodes (f rc) = rc_nodes rc" "\<And>rc. ours p rc \<Longrightarrow> ours p (f rc)" "in_hand p hosts w"
  show "in_hand p hosts (w\<lparr>fw_rec := f (fw_rec w)\<rparr>)"
    using a(2,3) linked_same [of "f (fw_rec w)" "fw_rec w" p hosts, OF a(1)] by (simp add: in_hand_def)
qed

lemma keeps_hand_record: "keeps (in_hand p hosts) (record_boot r t n)"
  unfolding record_boot_def by (intro keeps_intros keeps_hand_set keeps_hand_save) simp_all

lemma keeps_hand_live: "keeps (in_hand p hosts) (live_targets r p)"
  unfolding live_targets_def by (intro keeps_intros in_hand.keeps_on_running)

lemma set_without: "set (without i xs) \<subseteq> set xs"
  by (auto simp: without_def dest: in_set_takeD in_set_dropD)

lemma advance_not_applying: "advance t j res t0 \<noteq> Applying"
  by (cases j) (auto split: sum.splits)

text \<open>A pool that only probes.\<close>

lemma keeps_hand_probing:
  assumes j: "j0 \<noteq> Applying"
  shows "keeps (in_hand p hosts) (boot_fleet r p hosts j0 ts)"
proof (rule wp_keeps)
  fix w :: bworld assume w: "in_hand p hosts w"
  let ?I = "\<lambda>(todo :: btarget list) (active :: (btarget \<times> bjob) list) (stop :: gerr option) (errs :: gerr list) w. in_hand p hosts w \<and> (\<forall>x \<in> set active. snd x \<noteq> Applying)"
  let ?active = "map (\<lambda>t. (t, j0)) (take parallel_hosts ts)"
  have "wp (fleet_loop r p hosts j0 (drop parallel_hosts ts) ?active None []) (\<lambda>(stop, errs, todo) w'. ?I todo [] stop errs w') (\<lambda>_. in_hand p hosts) w"
  proof (rule wp_fleet_loop [where I = ?I])
    show "?I (drop parallel_hosts ts) ?active None [] w" using w j by auto
  next
    fix todo active stop errs w a assume "?I todo active stop errs w"
    then show "?I todo active stop errs (w\<lparr>hist := (FNext, a) # hist w\<rparr>)" by (auto intro: in_hand_ask)
  next
    fix todo :: "btarget list" and active stop errs w i assume i: "i < length active" and I: "?I todo active stop errs w"
    have n: "snd (active ! i) \<noteq> Applying" using I i by simp
    have s: "\<forall>x \<in> set (active[i := (t, advance t' (snd (active ! i)) res t0)]). snd x \<noteq> Applying" for t t' res t0
      using I set_update_subset_insert [of active i] advance_not_applying by fastforce
    have h: "in_hand p hosts w" using I by simp
    have k: "\<forall>t0. ?I todo (active[i := (fst (active ! i), advance (fst (active ! i)) (snd (active ! i)) res t0)]) stop errs v"
      if "in_hand p hosts v" for res v using s that by simp
    have a: "in_hand p hosts (w\<lparr>hist := (FHost c, a) # hist w\<rparr>)"
      if "applied_instance p (FHost c) = (if snd (active ! i) = Applying then Some z else None)" for c a z
      using in_hand_ask [OF h] that n by simp
    show "wp (attempt (job_call r p hosts (active ! i))) (\<lambda>res w'. \<forall>t0. ?I todo
        (active[i := (fst (active ! i), advance (fst (active ! i)) (snd (active ! i)) res t0)]) stop errs w') (\<lambda>_. in_hand p hosts) w"
      by (rule wp_job_call) (rule k, erule a, rule k, rule h)
  next
    fix todo :: "btarget list" and active x errs w i assume "?I todo active (Some x) errs w"
    then show "?I todo (without i active) (Some x) (errs @ failure_of e) w" for e using set_without [of i active] by auto
  next
    fix todo :: "btarget list" and active errs w i n e assume I: "?I todo active None errs w"
    have s: "\<forall>x \<in> set (without i active). snd x \<noteq> Applying" using I set_without [of i active] by auto
    show "wp (attempt (record_boot r (fst (active ! i)) n))
        (\<lambda>saved w'. ?I todo (without i active) (stop_of saved) (errs @ failure_of e) w' \<and>
          (saved = Inr () \<longrightarrow> todo \<noteq> [] \<longrightarrow> ?I (tl todo) (without i active @ [(hd todo, j0)]) None (errs @ failure_of e) w')) (\<lambda>_. in_hand p hosts) w"
      by (rule wp_conseq [OF keeps_wp [OF keeps_attempt [OF keeps_hand_record]]]) (use I s j in auto)
  qed
  then show "wp (boot_fleet r p hosts j0 ts) (\<lambda>_. in_hand p hosts) (\<lambda>_. in_hand p hosts) w"
    unfolding boot_fleet_def wp_bnd by (rule wp_conseq) (auto simp: wp_lift split: option.splits sum.splits)
qed

end
