(* ===== verification/Bootstrap_Sample.thy ===== *)
theory Bootstrap_Sample
  imports Bootstrap_Guard Chain_World
begin

text \<open>
  A bootstrap of the sample devnet, for the witnesses: the network has been provisioned and no host is
  ready; a host answers a probe as ready once the recipe has been applied to it.
\<close>

definition boot_applied :: "string \<Rightarrow> (bcall freq, bseen freply) hist \<Rightarrow> bool" where
  "boot_applied addr h \<longleftrightarrow> list_ex (\<lambda>e. case fst e of FHost c \<Rightarrow> ep_address (bc_endpoint c) = addr \<and> applied_instance devnet_bplan (FHost c) \<noteq> None
     | _ \<Rightarrow> False) h"

definition boot_seen :: "target \<times> inst \<Rightarrow> bool \<Rightarrow> bobservation" where
  "boot_seen x ready = \<lparr>bo_plan = bp_id devnet_bplan, bo_instance = in_id (snd x), bo_arch = tg_arch (fst x), bo_ready = ready,
     bo_docker = (if ready then ''27.0.0'' else []), bo_compose = (if ready then ''2.0.0'' else []), bo_error = []\<rparr>"

definition boot_reply :: "(bcall freq, bseen freply) hist \<Rightarrow> bcall \<Rightarrow> bseen" where
  "boot_reply h c = (case map_of (map (\<lambda>x. (in_public_ip (snd x), x)) devnet_hosts) (ep_address (bc_endpoint c)) of
     None \<Rightarrow> (None, Some (Err ''no route to host''))
   | Some x \<Rightarrow> (Some (boot_seen x (boot_applied (ep_address (bc_endpoint c)) h)), None))"

definition boot_record :: oprec where
  "boot_record = devnet_bare\<lparr>rc_boot := None\<rparr>"

definition boot_env :: "(bcall freq, bseen freply) env" where
  "boot_env = \<lparr>answer = (\<lambda>h q. case q of
       FCloud QIdentity \<Rightarrow> WCloud (RText (Inr (Some ''123456789012'')))
     | FCloud (QInstances tok) \<Rightarrow> WCloud (RPage (Inr (Some devnet_page)))
     | FCloud (QAcquire p owner) \<Rightarrow> WCloud (RRecord (Inr boot_record))
     | FRead p \<Rightarrow> WStored (Inr (boot_record, []))
     | FHost c \<Rightarrow> WSeen (Inr (boot_reply h c))
     | FNext \<Rightarrow> WNext (length h)
     | FWait d \<Rightarrow> WDone (Inr ())
     | _ \<Rightarrow> WCloud (RUnit (Inr ()))), clock = (\<lambda>h. 100 + int (length h)), cancelled = (\<lambda>_. False)\<rparr>"

definition boot_world :: bworld where
  "boot_world = \<lparr>env = boot_env, hist = [], fw_rec = boot_record, fw_changed = False\<rparr>"

section \<open>The record stays valid\<close>

definition node_fine :: "boot_node \<Rightarrow> bool" where
  "node_fine n \<longleftrightarrow> bn_phase n \<in> {''pending'', ''checking'', ''preparing''} \<or>
     bn_phase n = ''ready'' \<and> bn_observed n \<noteq> 0 \<and> bn_docker n = ''27.0.0'' \<and> bn_compose n = ''2.0.0''"

abbreviation devnet_names_of :: "string set" where
  "devnet_names_of \<equiv> tg_name ` fst ` set devnet_hosts"

definition boot_fine :: "boot \<Rightarrow> bool" where
  "boot_fine b \<longleftrightarrow> bt_plan b = sample_hex \<and> bt_phase b = ''preparing'' \<and> fmdom' (bt_nodes b) = devnet_names_of \<and> fmpred (\<lambda>_. node_fine) (bt_nodes b)"

definition boot_sound :: "oprec \<Rightarrow> bool" where
  "boot_sound rc \<longleftrightarrow> devnet_computed (rc\<lparr>rc_boot := rc_boot devnet_bare\<rparr>) \<and> rc_deployment rc = None \<and> rc_upgrade rc = None \<and> rc_runtime rc = None \<and>
     (\<exists>b. rc_boot rc = Some b \<and> boot_fine b)"

lemma compute_without_boot: "validate_compute H R p (rc\<lparr>rc_boot := b\<rparr>) = validate_compute H R p rc"
proof -
  have "check_target p (rc\<lparr>rc_boot := b\<rparr>) = check_target p rc" by (simp add: check_target_def check_retired_def fun_eq_iff split: option.splits)
  then show ?thesis by (simp add: validate_compute_def)
qed

lemma devnet_names_set: "devnet_names_of = tg_name ` set (pl_targets devnet_plan)"
  using devnet_names(2) by (metis list.set_map)

lemma boot_record_valid: "validate_record sample_hash sample_refs devnet_plan boot_record = Inr ()" "rc_phase boot_record = ''compute-ready''"
proof -
  have c: "devnet_computed devnet_bare" by (simp add: devnet_computed_def devnet_bare_def new_record_def)
  have "validate_compute sample_hash sample_refs devnet_plan boot_record = Inr ()"
    using devnet_computed_valid(1) [OF c] by (simp add: boot_record_def compute_without_boot)
  moreover have n: "rc_boot boot_record = None" "rc_join boot_record = None" "rc_deployment boot_record = None" "rc_upgrade boot_record = None"
    "rc_runtime boot_record = None"
    by (simp_all add: boot_record_def devnet_bare_def new_record_def)
  ultimately show "validate_record sample_hash sample_refs devnet_plan boot_record = Inr ()"
    by (simp add: validate_record_def validate_bootstrap_def validate_join_def validate_deployment_def validate_upgrade_def n)
  show "rc_phase boot_record = ''compute-ready''" by (simp add: boot_record_def devnet_bare_def)
qed

lemma node_fine_check: "node_fine n \<Longrightarrow> fmlookup (bt_nodes b) (tg_name t) = Some n \<Longrightarrow> bt_phase b = ''preparing'' \<Longrightarrow> check_boot_target b t = Inr ()"
proof -
  have v: "matches runtime_version ''27.0.0''" "matches runtime_version ''2.0.0''" by code_simp+
  show "node_fine n \<Longrightarrow> fmlookup (bt_nodes b) (tg_name t) = Some n \<Longrightarrow> bt_phase b = ''preparing'' \<Longrightarrow> check_boot_target b t = Inr ()"
    using v by (auto simp: check_boot_target_def node_fine_def)
qed

lemma boot_sound_state:
  assumes "boot_sound rc"
  shows "devnet_state rc"
proof -
  note s = assms [unfolded boot_sound_def]
  let ?rc = "rc\<lparr>rc_boot := rc_boot devnet_bare\<rparr>"
  have c: "devnet_computed ?rc" using s by simp
  obtain b where b: "rc_boot rc = Some b" "bt_plan b = sample_hex" "bt_phase b = ''preparing''" "fmdom' (bt_nodes b) = devnet_names_of"
    "fmpred (\<lambda>_. node_fine) (bt_nodes b)" using s by (auto simp: boot_fine_def)
  have v: "validate_compute sample_hash sample_refs devnet_plan rc = Inr ()"
    using devnet_computed_valid(1) [OF c] by (simp add: compute_without_boot)
  have k: "fcard (fmdom (bt_nodes b)) = length (pl_targets devnet_plan)"
  proof -
    have "fcard (fmdom (bt_nodes b)) = card (fmdom' (bt_nodes b))" by (simp add: fcard.rep_eq fmdom'_alt_def)
    also have "\<dots> = card (set (map tg_name (pl_targets devnet_plan)))" using b(4) devnet_names_set by simp
    also have "\<dots> = length (pl_targets devnet_plan)" using distinct_card [OF valid_plan_names(1) [OF devnet_plan_valid]] by simp
    finally show ?thesis .
  qed
  have h: "matches hex64 sample_hex" by code_simp
  have t: "check_boot_target b t = Inr ()" if "t \<in> set (pl_targets devnet_plan)" for t
  proof -
    have "tg_name t \<in> fmdom' (bt_nodes b)" using that b(4) devnet_names_set by simp
    then obtain n where n: "fmlookup (bt_nodes b) (tg_name t) = Some n" by (auto simp: fmlookup_dom'_iff)
    then have "node_fine n" using b(5) by (auto simp: fmpred_iff)
    then show ?thesis using n b(3) by (rule node_fine_check)
  qed
  have w: "validate_bootstrap devnet_plan rc = Inr ()"
    using t h k by (simp add: validate_bootstrap_def b each_ok_iff)
  have j: "rc_join rc = None" using c by (simp add: devnet_computed_def)
  have "validate_record sample_hash sample_refs devnet_plan rc = Inr ()"
    using v w s j by (simp add: validate_record_def validate_join_def validate_deployment_def validate_upgrade_def)
  then show ?thesis using c by (simp add: devnet_state_def devnet_computed_def)
qed

lemma boot_sound_stamp: "boot_sound rc \<Longrightarrow> t \<noteq> 0 \<Longrightarrow> boot_sound (stamp t rc)"
  by (simp add: boot_sound_def devnet_computed_def stamp_def)

lemma all_fine_put: "fmpred (\<lambda>_. node_fine) m \<Longrightarrow> node_fine n \<Longrightarrow> fmpred (\<lambda>_. node_fine) (fmupd x n m)"
  by (auto simp: fmpred_iff split: if_splits)

lemma boot_fine_put: "boot_fine b \<Longrightarrow> x \<in> devnet_names_of \<Longrightarrow> node_fine n \<Longrightarrow> boot_fine (b\<lparr>bt_nodes := fmupd x n (bt_nodes b)\<rparr>)"
  by (simp add: boot_fine_def all_fine_put insert_absorb)

lemma boot_sound_put: "boot_sound rc \<Longrightarrow> x \<in> devnet_names_of \<Longrightarrow> node_fine n \<Longrightarrow> boot_sound (put_boot_node x n rc)"
proof -
  assume a: "boot_sound rc" "x \<in> devnet_names_of" "node_fine n"
  then obtain b where b: "rc_boot rc = Some b" "boot_fine b" by (auto simp: boot_sound_def)
  have "boot_fine (b\<lparr>bt_nodes := fmupd x n (bt_nodes b)\<rparr>)" by (rule boot_fine_put [OF b(2) a(2,3)])
  then show "boot_sound (put_boot_node x n rc)" using a(1) b(1) by (simp add: boot_sound_def devnet_computed_def put_boot_node_def)
qed

lemma boot_sound_mark: "boot_sound rc \<Longrightarrow> bg_name ` set ts \<subseteq> devnet_names_of \<Longrightarrow> node_fine (node_in phase) \<Longrightarrow> boot_sound (mark_hosts phase ts rc)"
proof (induction ts arbitrary: rc)
  case (Cons t ts)
  then show ?case using Cons.IH [OF boot_sound_put [of rc "bg_name t" "node_in phase"]] by (simp add: mark_hosts_def)
qed (simp add: mark_hosts_def)

lemma boot_sound_begin: "boot_sound (begin_boot devnet_booter devnet_bplan boot_record)"
proof -
  let ?m = "fold (\<lambda>t. fmupd (bg_name t) (node_in ''pending'')) (bp_targets devnet_bplan) (boot_nodes_of boot_record)"
  have "fmdom' (fold (\<lambda>t. fmupd (bg_name t) (node_in ''pending'')) ts m) = fmdom' m \<union> bg_name ` set ts" for ts :: "btarget list" and m
    by (induction ts arbitrary: m) auto
  then have d: "fmdom' ?m = devnet_names_of"
    by (simp add: boot_nodes_of_def boot_record_def devnet_btargets image_image)
  have "fmpred (\<lambda>_. node_fine) (fold (\<lambda>t. fmupd (bg_name t) (node_in ''pending'')) ts m)" if "fmpred (\<lambda>_. node_fine) m" for ts :: "btarget list" and m
    using that by (induction ts arbitrary: m) (simp_all add: all_fine_put node_fine_def node_in_def)
  then have f: "fmpred (\<lambda>_. node_fine) ?m" by (simp add: boot_nodes_of_def boot_record_def)
  have i: "bp_id devnet_bplan = sample_hex" using devnet_bplan_valid by (simp add: validate_bplan_Inr build_bootstrap_Inr sample_hash_def sample_hex_def)
  have "devnet_computed devnet_bare" by (simp add: devnet_computed_def devnet_bare_def new_record_def)
  then show ?thesis
    using d f i by (simp add: boot_sound_def begin_boot_def boot_fine_def boot_record_def devnet_computed_def devnet_bare_def new_record_def)
qed

section \<open>The hosts answer\<close>

definition boot_entry :: "target \<times> inst \<Rightarrow> endpoint \<times> string" where
  "boot_entry x = (\<lparr>ep_address = in_public_ip (snd x), ep_port = 22, ep_alias = host_alias devnet_bplan (in_id (snd x))\<rparr>, in_id (snd x))"

definition boot_map :: "(string, endpoint \<times> string) fmap" where
  "boot_map = fold (\<lambda>x. fmupd (tg_name (fst x)) (boot_entry x)) devnet_hosts fmempty"

lemma devnet_public: "x \<in> set devnet_hosts \<Longrightarrow> usable_v4 (in_public_ip (snd x))" "distinct (map (in_public_ip \<circ> snd) devnet_hosts)"
proof -
  have "list_all (\<lambda>x. usable_v4 (in_public_ip (snd x))) devnet_hosts" by code_simp
  then show "x \<in> set devnet_hosts \<Longrightarrow> usable_v4 (in_public_ip (snd x))" by (simp add: list_all_iff)
  show "distinct (map (in_public_ip \<circ> snd) devnet_hosts)" by code_simp
qed

lemma devnet_boot_hosts: "boot_hosts devnet_bplan devnet_found = Inr boot_map"
proof -
  have "boot_host devnet_bplan devnet_found m (devnet_btarget x) = Inr (fmupd (tg_name (fst x)) (boot_entry x) m)" if "x \<in> set devnet_hosts" for m x
    using devnet_at [OF that] devnet_public(1) [OF that] by (simp add: boot_host_def Let_def devnet_btargets(2) boot_entry_def devnet_access_def)
  then have "scan_ok (boot_host devnet_bplan devnet_found) m (map devnet_btarget xs) = Inr (fold (\<lambda>x. fmupd (tg_name (fst x)) (boot_entry x)) xs m)"
    if "set xs \<subseteq> set devnet_hosts" for m xs using that by (induction xs arbitrary: m) simp_all
  then show ?thesis by (simp add: boot_hosts_def boot_map_def devnet_btargets(1))
qed

lemma boot_map_at: "x \<in> set devnet_hosts \<Longrightarrow> host_at boot_map (tg_name (fst x)) = boot_entry x"
  using lookup_fold [of "tg_name \<circ> fst" devnet_hosts x boot_entry fmempty] devnet_names(1) by (simp add: boot_map_def host_at_def)

definition boot_call_to :: "target \<times> inst \<Rightarrow> bjob \<Rightarrow> bcall" where
  "boot_call_to x j = \<lparr>bc_endpoint = fst (boot_entry x), bc_command = bootstrap_line devnet_bplan (devnet_btarget x) (in_id (snd x)) (job_mode j),
     bc_script = ''set -eu''\<rparr>"

abbreviation applied_to :: "target \<times> inst \<Rightarrow> (bcall freq, bseen freply) hist \<Rightarrow> bool" where
  "applied_to x h \<equiv> boot_applied (in_public_ip (snd x)) h"

lemma boot_applied_simps: "boot_applied a [] = False" "boot_applied a ((FCloud q, r) # h) = boot_applied a h" "boot_applied a ((FNext, r) # h) = boot_applied a h"
  "boot_applied a ((FRead pl, r) # h) = boot_applied a h"
  by (simp_all add: boot_applied_def)

lemma boot_applied_call: "boot_applied a ((FHost (boot_call_to x j), r) # h) = (in_public_ip (snd x) = a \<and> j = Applying \<or> boot_applied a h)"
  by (simp add: boot_applied_def boot_call_to_def applied_line boot_entry_def job_mode_def del: applied_instance.simps)

definition boot_answer :: "target \<times> inst \<Rightarrow> (bcall freq, bseen freply) hist \<Rightarrow> bseen" where
  "boot_answer x h = (Some (boot_seen x (applied_to x h)), None)"

lemma boot_job_call:
  assumes x: "x \<in> set devnet_hosts" and e: "env w = boot_env"
  shows "job_call devnet_booter devnet_bplan boot_map (devnet_btarget x, j) w = (Inr (boot_seen x (applied_to x (hist w))),
    w\<lparr>hist := (FHost (boot_call_to x j), WSeen (Inr (boot_answer x (hist w)))) # hist w\<rparr>)"
proof -
  have l: "map_of (map (\<lambda>x. (in_public_ip (snd x), x)) devnet_hosts) (in_public_ip (snd x)) = Some x"
    using devnet_public(2) x by (intro map_of_is_SomeI) (auto simp: comp_def)
  have a: "answer boot_env h (FHost (boot_call_to x j)) = WSeen (Inr (boot_answer x h))" for h
    by (simp add: boot_env_def boot_reply_def boot_call_to_def boot_entry_def l boot_answer_def)
  have v: "matches runtime_version ''27.0.0''" "matches runtime_version ''2.0.0''" by code_simp+
  have k: "check_response devnet_bplan (devnet_btarget x) (in_id (snd x)) (run_reply (WSeen (Inr (boot_answer x h)))) = Inr (boot_seen x (applied_to x h))" for h
    using v by (simp add: check_response_def boot_answer_def boot_seen_def devnet_btargets(3))
  have m: "bootstrap_command devnet_booter devnet_bplan (devnet_btarget x) (in_id (snd x)) (job_mode j) =
      Inr (bootstrap_line devnet_bplan (devnet_btarget x) (in_id (snd x)) (job_mode j), ''set -eu'')"
    by (rule devnet_command [OF x]) (simp add: job_mode_def)
  have h: "host_at boot_map (bg_name (devnet_btarget x)) = (fst (boot_entry x), in_id (snd x))"
    using boot_map_at [OF x] by (simp add: devnet_btargets(2)) (simp add: boot_entry_def)
  show ?thesis
    using a k m by (simp add: job_call_def h Let_def observe_host_def run_steps run_fcall e boot_call_to_def [symmetric] del: run_reply.simps)
qed

lemma boot_save_run:
  assumes "env w = boot_env"
  shows "fsave owner w = (Inr (), w\<lparr>fw_rec := stamp (100 + int (length (hist w))) (fw_rec w),
    hist := (FCloud (QSave (stamp (100 + int (length (hist w))) (fw_rec w)) owner), WCloud (RUnit (Inr ()))) # hist w\<rparr>)"
proof -
  have n: "now w = (Inr (100 + int (length (hist w))), w)" by (simp add: now_def run_steps assms boot_env_def)
  have a: "answer boot_env h (FCloud (QSave rc owner)) = WCloud (RUnit (Inr ()))" for h rc by (simp add: boot_env_def)
  show ?thesis by (simp add: fsave_def run_steps n set_frec_def run_fcall assms a)
qed

section \<open>The pools\<close>

definition boot_at :: "bworld \<Rightarrow> bool" where
  "boot_at w \<longleftrightarrow> env w = boot_env \<and> boot_sound (fw_rec w)"

fun stage_fits :: "bjob \<Rightarrow> bworld \<Rightarrow> bool" where
  "stage_fits Probing w = (\<forall>x \<in> set devnet_hosts. \<not> applied_to x (hist w) \<and> bn_phase (boot_node_at (fw_rec w) (tg_name (fst x))) \<noteq> ''ready'')"
| "stage_fits Verifying w = (\<forall>x \<in> set devnet_hosts. applied_to x (hist w))"
| "stage_fits j w = True"

definition job_fits :: "bjob \<Rightarrow> (bcall freq, bseen freply) hist \<Rightarrow> btarget \<times> bjob \<Rightarrow> bool" where
  "job_fits j0 h y \<longleftrightarrow> (\<exists>x \<in> set devnet_hosts. fst y = devnet_btarget x \<and> (case snd y of
       Replied n e \<Rightarrow> e = None \<and> node_fine n \<and> (j0 = Probing \<longrightarrow> bn_phase n = ''pending'') \<and> (j0 = Applying \<longrightarrow> applied_to x h)
     | Reading \<Rightarrow> j0 = Applying \<and> applied_to x h | j \<Rightarrow> j = j0))"

definition pool_covers :: "bjob \<Rightarrow> (btarget \<times> bjob) list \<Rightarrow> (bcall freq, bseen freply) hist \<Rightarrow> bool" where
  "pool_covers j0 active h \<longleftrightarrow> (j0 = Applying \<longrightarrow> (\<forall>x \<in> set devnet_hosts. devnet_btarget x \<in> fst ` set active \<or> applied_to x h))"

definition pool_fits :: "bjob \<Rightarrow> btarget list \<Rightarrow> (btarget \<times> bjob) list \<Rightarrow> gerr option \<Rightarrow> gerr list \<Rightarrow> bworld \<Rightarrow> bool" where
  "pool_fits j0 todo active stop errs w \<longleftrightarrow> todo = [] \<and> stop = None \<and> errs = [] \<and> boot_at w \<and> stage_fits j0 w \<and>
     (\<forall>y \<in> set active. job_fits j0 (hist w) y) \<and> pool_covers j0 active (hist w)"

lemma job_fits_mono: "job_fits j0 h y \<Longrightarrow> (\<And>a. boot_applied a h \<Longrightarrow> boot_applied a h') \<Longrightarrow> job_fits j0 h' y"
  unfolding job_fits_def by (elim bexE, rule bexI) (auto split: bjob.splits)

lemma pool_covers_mono: "pool_covers j0 active h \<Longrightarrow> (\<And>a. boot_applied a h \<Longrightarrow> boot_applied a h') \<Longrightarrow> pool_covers j0 active h'"
  unfolding pool_covers_def by blast

lemma job_fits_advance:
  assumes "job_fits j0 h (devnet_btarget x, j)" and x: "x \<in> set devnet_hosts" and "replied j = None" and "t0 \<noteq> 0"
    and "j0 = Probing \<Longrightarrow> \<not> applied_to x h" and "j0 = Verifying \<Longrightarrow> applied_to x h"
  shows "job_fits j0 ((FHost (boot_call_to x j), a) # h) (devnet_btarget x, advance (devnet_btarget x) j (Inr (boot_seen x (applied_to x h))) t0)"
proof -
  have inj: "y = x" if "y \<in> set devnet_hosts" "devnet_btarget y = devnet_btarget x" for y
  proof -
    have "tg_name (fst y) = tg_name (fst x)" using that(2) devnet_btargets(2) by metis
    then show ?thesis using devnet_names(1) that(1) x by (auto simp: distinct_map inj_on_def)
  qed
  have j: "case j of Reading \<Rightarrow> j0 = Applying \<and> applied_to x h | _ \<Rightarrow> j = j0"
    using assms(1,3) inj by (cases j) (auto simp: job_fits_def)
  have n: "node_fine (node_seen ''pending'' t0)" "node_fine (node_ready (boot_seen x True) t0)" "bn_phase (node_seen ''pending'' t0) = ''pending''"
    using assms(4) by (simp_all add: node_fine_def node_seen_def node_in_def node_ready_def boot_seen_def)
  have r: "bo_ready (boot_seen x b) = b" for b by (simp add: boot_seen_def)
  have c: "boot_applied a' ((FHost (boot_call_to x j), a) # h) = (in_public_ip (snd x) = a' \<and> j = Applying \<or> boot_applied a' h)" for a' by (rule boot_applied_call)
  have "case advance (devnet_btarget x) j (Inr (boot_seen x (applied_to x h))) t0 of
       Replied n e \<Rightarrow> e = None \<and> node_fine n \<and> (j0 = Probing \<longrightarrow> bn_phase n = ''pending'') \<and>
         (j0 = Applying \<longrightarrow> applied_to x ((FHost (boot_call_to x j), a) # h))
     | Reading \<Rightarrow> j0 = Applying \<and> applied_to x ((FHost (boot_call_to x j), a) # h) | j \<Rightarrow> j = j0"
  proof (cases j)
    case Probing
    then show ?thesis using j n r assms(5) by simp
  next
    case Applying
    then show ?thesis using j c by simp
  next
    case Reading
    then show ?thesis using j n r c by simp
  next
    case Verifying
    then show ?thesis using j n r assms(6) by simp
  qed (use assms(3) in simp)
  then show ?thesis unfolding job_fits_def fst_conv snd_conv using x by (intro bexI [of _ x] conjI refl)
qed

lemma set_without_insert: "i < length xs \<Longrightarrow> set xs = insert (xs ! i) (set (without i xs))"
proof -
  assume "i < length xs"
  then have "xs = take i xs @ xs ! i # drop (Suc i) xs" by (simp add: id_take_nth_drop)
  then have "set xs = set (take i xs) \<union> insert (xs ! i) (set (drop (Suc i) xs))" by (metis list.simps(15) set_append)
  then show ?thesis by (auto simp: without_def)
qed

lemma fst_set_update:
  assumes "i < length xs" and "fst (xs ! i) = t"
  shows "fst ` set (xs[i := (t, b)]) = fst ` set xs"
proof -
  have "map fst (xs[i := (t, b)]) = map fst xs" using assms by (metis fst_conv list_update_id map_update nth_map)
  then show ?thesis by (metis list.set_map)
qed

lemma pool_fits_turn:
  assumes i: "i < length active" and r: "replied (snd (active ! i)) = None" and I: "pool_fits j0 todo active stop errs w"
  shows "wp (attempt (job_call devnet_booter devnet_bplan boot_map (active ! i)))
    (\<lambda>res w'. pool_fits j0 todo (active[i := (fst (active ! i), advance (fst (active ! i)) (snd (active ! i)) res (clock (env w') (hist w')))]) stop errs w')
    (\<lambda>_ _. False) w"
proof -
  have f: "job_fits j0 (hist w) (active ! i)" using I i by (simp add: pool_fits_def)
  obtain x j where x: "active ! i = (devnet_btarget x, j)" "x \<in> set devnet_hosts" using f by (metis job_fits_def prod.collapse)
  have e: "env w = boot_env" using I by (simp add: pool_fits_def boot_at_def)
  let ?w = "w\<lparr>hist := (FHost (boot_call_to x j), WSeen (Inr (boot_answer x (hist w)))) # hist w\<rparr>"
  let ?j = "advance (devnet_btarget x) j (Inr (boot_seen x (applied_to x (hist w)))) (clock (env ?w) (hist ?w))"
  have t0: "clock (env ?w) (hist ?w) \<noteq> 0" by (simp add: e boot_env_def)
  have up: "boot_applied a (hist w) \<Longrightarrow> boot_applied a (hist ?w)" for a by (simp add: boot_applied_call)
  have st: "j0 = Probing \<Longrightarrow> \<not> applied_to x (hist w)" "j0 = Verifying \<Longrightarrow> applied_to x (hist w)" using I x(2) by (auto simp: pool_fits_def)
  have new: "job_fits j0 (hist ?w) (devnet_btarget x, ?j)"
    using job_fits_advance [OF _ x(2) _ t0 st] f r x(1) by simp
  have probing: "j0 = Probing \<Longrightarrow> j \<noteq> Applying" using f x by (auto simp: job_fits_def)
  have stage: "stage_fits j0 ?w"
  proof (cases j0)
    case Probing
    then show ?thesis using I probing by (simp add: pool_fits_def boot_applied_call)
  next
    case Verifying
    then show ?thesis using I by (simp add: pool_fits_def boot_applied_call)
  qed simp_all
  have "fst ` set (active[i := (devnet_btarget x, ?j)]) = fst ` set active" by (rule fst_set_update [OF i]) (simp add: x(1))
  then have cov: "pool_covers j0 (active[i := (devnet_btarget x, ?j)]) (hist ?w)"
    using I up unfolding pool_fits_def pool_covers_def by metis
  have jobs: "\<forall>y \<in> set (active[i := (devnet_btarget x, ?j)]). job_fits j0 (hist ?w) y"
  proof
    fix y assume "y \<in> set (active[i := (devnet_btarget x, ?j)])"
    then consider "y = (devnet_btarget x, ?j)" | "y \<in> set active" using set_update_subset_insert [of active i "(devnet_btarget x, ?j)"] by blast
    then show "job_fits j0 (hist ?w) y"
    proof cases
      case 1
      then show ?thesis using new by simp
    next
      case 2
      then have "job_fits j0 (hist w) y" using I by (simp add: pool_fits_def)
      then show ?thesis using up by (rule job_fits_mono)
    qed
  qed
  have "pool_fits j0 todo (active[i := (devnet_btarget x, ?j)]) stop errs ?w"
    using I stage cov jobs unfolding pool_fits_def boot_at_def by (intro conjI) simp_all
  then show ?thesis unfolding x(1) wp_attempt by (simp add: wp_def boot_job_call [OF x(2) e])
qed

lemma boot_sound_ours: "boot_sound rc \<Longrightarrow> ours devnet_bplan rc"
proof -
  have i: "bp_id devnet_bplan = sample_hex" using devnet_bplan_valid by (simp add: validate_bplan_Inr build_bootstrap_Inr sample_hash_def sample_hex_def)
  show "boot_sound rc \<Longrightarrow> ours devnet_bplan rc" by (auto simp: boot_sound_def boot_fine_def ours_def i)
qed

lemma wp_boot_save_run:
  assumes "boot_at w" and "Q () (w\<lparr>fw_rec := stamp (100 + int (length (hist w))) (fw_rec w),
    hist := (FCloud (QSave (stamp (100 + int (length (hist w))) (fw_rec w)) owner), WCloud (RUnit (Inr ()))) # hist w\<rparr>)"
  shows "wp (fsave owner) Q E w"
  using assms by (simp add: wp_def boot_save_run boot_at_def)

lemma pool_fits_record:
  assumes i: "i < length active" and n: "snd (active ! i) = Replied n e" and I: "pool_fits j0 todo active None errs w"
  shows "wp (attempt (record_boot devnet_booter (fst (active ! i)) n))
    (\<lambda>saved v. pool_fits j0 todo (without i active) (stop_of saved) (errs @ failure_of e) v \<and>
      (saved = Inr () \<longrightarrow> todo \<noteq> [] \<longrightarrow> pool_fits j0 (tl todo) (without i active @ [(hd todo, j0)]) None (errs @ failure_of e) v)) (\<lambda>_ _. False) w"
proof -
  have f: "job_fits j0 (hist w) (active ! i)" using I i by (simp add: pool_fits_def)
  obtain x where x: "x \<in> set devnet_hosts" "fst (active ! i) = devnet_btarget x" "e = None" "node_fine n"
    "j0 = Probing \<Longrightarrow> bn_phase n = ''pending''" "j0 = Applying \<Longrightarrow> applied_to x (hist w)"
    using f n by (auto simp: job_fits_def)
  have b: "env w = boot_env" "boot_sound (fw_rec w)" using I by (simp_all add: pool_fits_def boot_at_def)
  let ?name = "bg_name (fst (active ! i))"
  let ?u = "w\<lparr>fw_rec := put_boot_node ?name n (fw_rec w)\<rparr>"
  let ?rc = "stamp (100 + int (length (hist ?u))) (fw_rec ?u)"
  let ?v = "?u\<lparr>fw_rec := ?rc, hist := (FCloud (QSave ?rc (br_owner devnet_booter)), WCloud (RUnit (Inr ()))) # hist ?u\<rparr>"
  have name: "?name \<in> devnet_names_of" using x(1,2) by (auto simp: devnet_btargets(2))
  have s: "boot_sound (fw_rec ?u)" using boot_sound_put [OF b(2) name x(4)] by simp
  have at: "boot_at ?u" "boot_at ?v" using b s boot_sound_stamp [of "put_boot_node ?name n (fw_rec w)"] by (simp_all add: boot_at_def)
  have nodes: "boot_node_at (fw_rec ?v) y = (if ?name = y then n else boot_node_at (fw_rec w) y)" for y
    using put_boot_at [OF boot_sound_ours [OF b(2)]] by simp
  have h: "boot_applied a (hist ?v) = boot_applied a (hist w)" for a by (simp add: boot_applied_simps)
  have stage: "stage_fits j0 ?v"
  proof (cases j0)
    case Probing
    then have "\<forall>x \<in> set devnet_hosts. \<not> applied_to x (hist w) \<and> bn_phase (boot_node_at (fw_rec w) (tg_name (fst x))) \<noteq> ''ready''"
      using I by (simp add: pool_fits_def)
    then show ?thesis using x(5) [OF Probing] unfolding Probing stage_fits.simps h nodes by simp
  next
    case Verifying
    then have "\<forall>x \<in> set devnet_hosts. applied_to x (hist w)" using I by (simp add: pool_fits_def)
    then show ?thesis unfolding Verifying stage_fits.simps h .
  qed simp_all
  have jobs: "\<forall>y \<in> set (without i active). job_fits j0 (hist ?v) y"
    using I set_without [of i active] h job_fits_mono [of j0 "hist w" _ "hist ?v"] unfolding pool_fits_def by blast
  have cov: "pool_covers j0 (without i active) (hist ?v)"
    unfolding pool_covers_def h
  proof (intro impI ballI)
    fix y assume j: "j0 = Applying" and y: "y \<in> set devnet_hosts"
    have inj: "y = x" if "devnet_btarget y = devnet_btarget x"
    proof -
      have "tg_name (fst y) = tg_name (fst x)" using that devnet_btargets(2) by metis
      then show ?thesis using devnet_names(1) y x(1) by (auto simp: distinct_map inj_on_def)
    qed
    have "devnet_btarget y \<in> fst ` set active \<or> applied_to y (hist w)" using I j y by (simp add: pool_fits_def pool_covers_def)
    then consider "applied_to y (hist w)" | "devnet_btarget y = devnet_btarget x" | "devnet_btarget y \<in> fst ` set (without i active)"
      using set_without_insert [OF i] x(2) by auto
    then show "devnet_btarget y \<in> fst ` set (without i active) \<or> applied_to y (hist w)"
      using inj x(6) [OF j] by cases auto
  qed
  have todo: "todo = []" "errs = []" using I by (simp_all add: pool_fits_def)
  have "pool_fits j0 todo (without i active) None (errs @ failure_of e) ?v"
    unfolding pool_fits_def using at(2) stage jobs cov x(3) todo by (simp add: failure_of_def)
  then have "wp (fsave (br_owner devnet_booter)) (\<lambda>saved v. pool_fits j0 todo (without i active) None (errs @ failure_of e) v) (\<lambda>_ _. False) ?u"
    by (rule wp_boot_save_run [OF at(1)])
  then show ?thesis
    unfolding record_boot_def set_frec_def wp_attempt wp_sq wp_modify
    by (rule wp_conseq) (simp_all add: todo stop_of_def)
qed

lemma boot_pool:
  assumes w: "boot_at w" "stage_fits j0 w" and j: "replied j0 = None" "j0 \<noteq> Reading"
  shows "wp (boot_fleet devnet_booter devnet_bplan boot_map j0 (bp_targets devnet_bplan))
    (\<lambda>_ v. boot_at v \<and> stage_fits j0 v \<and> (j0 = Applying \<longrightarrow> stage_fits Verifying v)) (\<lambda>_ _. False) w"
proof -
  let ?ts = "bp_targets devnet_bplan"
  have t: "drop parallel_hosts ?ts = []" "take parallel_hosts ?ts = ?ts" using devnet_length by (simp_all add: devnet_btargets(1) parallel_hosts_def)
  have f: "fst ` set (map (\<lambda>t. (t, j0)) ?ts) = set ?ts" by force
  have "pool_fits j0 [] (map (\<lambda>t. (t, j0)) ?ts) None [] w"
    unfolding pool_fits_def pool_covers_def f using w j by (auto simp: job_fits_def devnet_btargets(1) split: bjob.splits)
  then have "wp (fleet_loop devnet_booter devnet_bplan boot_map j0 (drop parallel_hosts ?ts) (map (\<lambda>t. (t, j0)) (take parallel_hosts ?ts)) None [])
      (\<lambda>(stop, errs, todo) v. pool_fits j0 todo [] stop errs v) (\<lambda>_ _. False) w"
    unfolding t
  proof (rule wp_fleet_loop_at [where I = "pool_fits j0"])
    fix todo active stop errs u a assume I: "pool_fits j0 todo active stop errs u"
    let ?v = "u\<lparr>hist := (FNext, a) # hist u\<rparr>"
    have h: "boot_applied x (hist ?v) = boot_applied x (hist u)" for x by (simp add: boot_applied_simps)
    have "stage_fits j0 ?v" using I by (cases j0) (simp_all add: pool_fits_def boot_applied_simps)
    moreover have "\<forall>y \<in> set active. job_fits j0 (hist ?v) y" using I job_fits_mono [of j0 "hist u" _ "hist ?v"] h unfolding pool_fits_def by blast
    moreover have "pool_covers j0 active (hist ?v)" using I unfolding pool_fits_def pool_covers_def h by blast
    ultimately show "pool_fits j0 todo active stop errs ?v" using I unfolding pool_fits_def boot_at_def by simp
  next
    fix todo active stop errs u i assume "i < length active" "replied (snd (active ! i)) = None" "pool_fits j0 todo active stop errs u"
    then show "wp (attempt (job_call devnet_booter devnet_bplan boot_map (active ! i)))
      (\<lambda>res w'. pool_fits j0 todo (active[i := (fst (active ! i), advance (fst (active ! i)) (snd (active ! i)) res (clock (env w') (hist w')))]) stop errs w')
      (\<lambda>_ _. False) u" by (rule pool_fits_turn)
  next
    fix todo active x errs u i n e assume "pool_fits j0 todo active (Some x) errs u"
    then show "pool_fits j0 todo (without i active) (Some x) (errs @ failure_of e) u" by (simp add: pool_fits_def)
  next
    fix todo active errs u i n e assume "i < length active" "snd (active ! i) = Replied n e" "pool_fits j0 todo active None errs u"
    then show "wp (attempt (record_boot devnet_booter (fst (active ! i)) n))
      (\<lambda>saved w'. pool_fits j0 todo (without i active) (stop_of saved) (errs @ failure_of e) w' \<and>
        (saved = Inr () \<longrightarrow> todo \<noteq> [] \<longrightarrow> pool_fits j0 (tl todo) (without i active @ [(hd todo, j0)]) None (errs @ failure_of e) w')) (\<lambda>_ _. False) u"
      by (rule pool_fits_record)
  qed
  then show ?thesis
    unfolding boot_fleet_def wp_bnd
    by (rule wp_conseq) (auto simp: wp_lift joined_failures_def pool_fits_def pool_covers_def)
qed

section \<open>The run\<close>

lemma wp_boot_live:
  assumes "boot_at w" and "stage_fits j w" and "Q devnet_found (w\<lparr>hist := devnet_listing # hist w\<rparr>)"
    and "devnet_listing = (FCloud (QInstances []), WCloud (RPage (Inr (Some devnet_page))))"
  shows "wp (live_targets devnet_booter devnet_bplan) Q E w"
proof -
  have s: "devnet_state (fw_rec w)" using assms(1) by (simp add: boot_at_def boot_sound_state)
  have "answer (env w) h (FCloud (QInstances [])) = WCloud (RPage (Inr (Some devnet_page)))" for h
    using assms(1) by (simp add: boot_at_def boot_env_def)
  from devnet_cloud_targets [OF s this] show ?thesis
    using assms(3,4) by (simp add: live_targets_def wp_def run_steps)
qed

lemma stage_fits_same: "stage_fits j w \<Longrightarrow> (\<And>a. boot_applied a (hist v) = boot_applied a (hist w)) \<Longrightarrow>
    (\<And>x. j = Probing \<Longrightarrow> x \<in> devnet_names_of \<Longrightarrow> bn_phase (boot_node_at (fw_rec v) x) \<noteq> ''ready'' \<or> boot_node_at (fw_rec v) x = boot_node_at (fw_rec w) x) \<Longrightarrow> stage_fits j v"
  by (cases j) fastforce+

lemma boot_at_saved:
  assumes "env w = boot_env" and "boot_sound (fw_rec w)"
  shows "boot_at (w\<lparr>fw_rec := stamp (100 + int (length (hist w))) (fw_rec w), hist := h\<rparr>)"
  using assms boot_sound_stamp [of "fw_rec w"] by (simp add: boot_at_def)

text \<open>A step that changes the record by \<open>f\<close> and saves it.\<close>

lemma wp_boot_step:
  assumes w: "boot_at w" "stage_fits j w" and f: "boot_sound (f (fw_rec w))"
    and p: "\<And>x. j = Probing \<Longrightarrow> x \<in> devnet_names_of \<Longrightarrow> bn_phase (boot_node_at (f (fw_rec w)) x) \<noteq> ''ready''"
    and Q: "\<And>v. boot_at v \<Longrightarrow> stage_fits j v \<Longrightarrow> wp m Q E v"
  shows "wp (sq (set_frec f) (sq (fsave owner) m)) Q E w"
proof -
  let ?u = "w\<lparr>fw_rec := f (fw_rec w)\<rparr>"
  let ?rc = "stamp (100 + int (length (hist ?u))) (fw_rec ?u)"
  let ?v = "?u\<lparr>fw_rec := ?rc, hist := (FCloud (QSave ?rc owner), WCloud (RUnit (Inr ()))) # hist ?u\<rparr>"
  have u: "boot_at ?u" using w(1) f by (simp add: boot_at_def)
  have v: "boot_at ?v" using u by (intro boot_at_saved) (simp_all add: boot_at_def)
  have "stage_fits j ?v"
  proof (rule stage_fits_same [OF w(2)])
    show "boot_applied a (hist ?v) = boot_applied a (hist w)" for a by (simp add: boot_applied_simps)
    show "j = Probing \<Longrightarrow> x \<in> devnet_names_of \<Longrightarrow> bn_phase (boot_node_at (fw_rec ?v) x) \<noteq> ''ready'' \<or> boot_node_at (fw_rec ?v) x = boot_node_at (fw_rec w) x" for x
      using p [of x] by simp
  qed
  from Q [OF v this] show ?thesis
    unfolding set_frec_def wp_sq [of "modify _"] wp_modify wp_sq [of "fsave _"] by (rule wp_boot_save_run [OF u])
qed

lemma node_fine_marks: "node_fine (node_in ''checking'')" "node_fine (node_in ''preparing'')"
  by (simp_all add: node_fine_def node_in_def)

lemma devnet_boot_names: "bg_name ` set (bp_targets devnet_bplan) = devnet_names_of"
  by (simp add: devnet_btargets image_image)

lemma devnet_some: "devnet_hosts \<noteq> []"
  by (metis devnet_hosts_roles(4) list.size(3) zero_neq_numeral)

lemma applied_somewhere:
  assumes "stage_fits Verifying w"
  obtains c a i where "(FHost c, a) \<in> set (hist w)" "applied_instance devnet_bplan (FHost c) = Some i"
proof -
  have "devnet_hosts \<noteq> []" by (rule devnet_some)
  then have "applied_to (hd devnet_hosts) (hist w)" using assms by simp
  then obtain e where e: "e \<in> set (hist w)" "case fst e of FHost c \<Rightarrow> ep_address (bc_endpoint c) = in_public_ip (snd (hd devnet_hosts)) \<and>
      applied_instance devnet_bplan (FHost c) \<noteq> None | _ \<Rightarrow> False"
    unfolding boot_applied_def list_ex_iff by blast
  obtain c where "fst e = FHost c" "applied_instance devnet_bplan (FHost c) \<noteq> None" using e(2) by (cases "fst e") (simp_all del: applied_instance.simps)
  then show thesis using that e(1) by (metis not_None_eq prod.collapse)
qed

lemma wp_devnet_finish:
  assumes "boot_at w" and "stage_fits Verifying w"
  shows "wp (boot_finish devnet_booter devnet_bplan boot_map) (\<lambda>_ v. stage_fits Verifying v \<and> env v = boot_env) (\<lambda>_ _. False) w"
proof -
  let ?P = "\<lambda>(_ :: unit) v. stage_fits Verifying v \<and> env v = boot_env"
  have last: "wp (sq (set_frec (set_boot_phase ''hosts-ready'')) (fsave (br_owner devnet_booter))) ?P (\<lambda>_ _. False) v"
    if v: "boot_at v" "stage_fits Verifying v" for v
    using v unfolding set_frec_def wp_sq wp_modify by (simp add: wp_def boot_save_run boot_at_def boot_applied_simps)
  have pool: "wp (sq (boot_fleet devnet_booter devnet_bplan boot_map Verifying (bp_targets devnet_bplan))
      (sq (set_frec (set_boot_phase ''hosts-ready'')) (fsave (br_owner devnet_booter)))) ?P (\<lambda>_ _. False) v"
    if v: "boot_at v" "stage_fits Verifying v" for v
    unfolding wp_sq [of "boot_fleet _ _ _ _ _"] by (rule wp_conseq [OF boot_pool [OF v]]) (use last in auto)
  show ?thesis
    unfolding boot_finish_def wp_bnd [of "live_targets _ _"]
    by (rule wp_boot_live [OF assms _ refl], rule pool) (use assms in \<open>simp_all add: boot_at_def boot_applied_simps\<close>)
qed

lemma wp_devnet_prepare:
  assumes "boot_at w" and "stage_fits Probing w"
  shows "wp (sq (boot_prepare devnet_booter devnet_bplan boot_map) (boot_finish devnet_booter devnet_bplan boot_map))
    (\<lambda>_ v. stage_fits Verifying v \<and> env v = boot_env) (\<lambda>_ _. False) w"
proof -
  let ?ts = "bp_targets devnet_bplan"
  have a: "unready devnet_bplan (fw_rec w) = ?ts"
    using assms(2) by (auto simp: unready_def devnet_btargets filter_id_conv)
  have ne: "?ts \<noteq> []" using devnet_some by (simp add: devnet_btargets(1))
  have s: "boot_sound (mark_hosts ''preparing'' ?ts (fw_rec w))"
    using assms(1) by (intro boot_sound_mark) (simp_all add: boot_at_def devnet_boot_names node_fine_marks)
  have pool: "wp (boot_fleet devnet_booter devnet_bplan boot_map Applying ?ts) (\<lambda>_ v. boot_at v \<and> stage_fits Verifying v) (\<lambda>_ _. False) v" if "boot_at v" for v
    by (rule wp_conseq [OF boot_pool [OF that]]) auto
  have "wp (boot_prepare devnet_booter devnet_bplan boot_map) (\<lambda>_ v. boot_at v \<and> stage_fits Verifying v) (\<lambda>_ _. False) w"
    unfolding boot_prepare_def wp_bnd wp_gets a if_P [OF ne]
    by (rule wp_boot_step [where j = Applying and f = "mark_hosts ''preparing'' ?ts", OF assms(1) _ s]) (simp, simp, rule pool)
  then show ?thesis unfolding wp_sq by (rule wp_conseq) (use wp_devnet_finish in auto)
qed

lemma wp_devnet_claimed:
  assumes "env w = boot_env" and "fw_rec w = boot_record" and "hist w = h" and "\<And>a. \<not> boot_applied a h"
  shows "wp (boot_claimed devnet_booter devnet_bplan) (\<lambda>_ v. stage_fits Verifying v \<and> env v = boot_env) (\<lambda>_ _. False) w"
proof -
  let ?ts = "bp_targets devnet_bplan" and ?P = "\<lambda>(_ :: unit) v. stage_fits Verifying v \<and> env v = boot_env"
  let ?rest = "sq (boot_fleet devnet_booter devnet_bplan boot_map Probing ?ts)
    (sq (boot_prepare devnet_booter devnet_bplan boot_map) (boot_finish devnet_booter devnet_bplan boot_map))"
  have probe: "wp ?rest ?P (\<lambda>_ _. False) v" if v: "boot_at v" "stage_fits Probing v" for v
    unfolding wp_sq [of "boot_fleet _ _ _ _ _"] by (rule wp_conseq [OF boot_pool [OF v]]) (use wp_devnet_prepare in auto)
  have mark: "wp (sq (set_frec (mark_hosts ''checking'' ?ts)) (sq (fsave (br_owner devnet_booter)) ?rest)) ?P (\<lambda>_ _. False) v"
    if v: "boot_at v" "stage_fits Probing v" for v
  proof (rule wp_boot_step [where j = Probing and f = "mark_hosts ''checking'' ?ts", OF v])
    have b: "boot_sound (fw_rec v)" using v(1) by (simp add: boot_at_def)
    show "boot_sound (mark_hosts ''checking'' ?ts (fw_rec v))"
      by (rule boot_sound_mark [OF b]) (simp_all add: devnet_boot_names node_fine_marks)
    show "bn_phase (boot_node_at (mark_hosts ''checking'' ?ts (fw_rec v)) x) \<noteq> ''ready''" if "x \<in> devnet_names_of" for x
      using that by (simp add: mark_hosts_at [OF boot_sound_ours [OF b]] devnet_boot_names) (simp add: node_in_def)
  qed (rule probe)
  have live: "wp (bnd (live_targets devnet_booter devnet_bplan) (\<lambda>live. bnd (lift (boot_hosts devnet_bplan live)) (\<lambda>hosts.
      sq (set_frec (mark_hosts ''checking'' ?ts)) (sq (fsave (br_owner devnet_booter))
      (sq (boot_fleet devnet_booter devnet_bplan hosts Probing ?ts) (sq (boot_prepare devnet_booter devnet_bplan hosts) (boot_finish devnet_booter devnet_bplan hosts)))))))
      ?P (\<lambda>_ _. False) v" if v: "boot_at v" "stage_fits Probing v" for v
  proof -
    let ?v = "v\<lparr>hist := (FCloud (QInstances []), WCloud (RPage (Inr (Some devnet_page)))) # hist v\<rparr>"
    have "boot_at ?v" "stage_fits Probing ?v" using v by (simp_all add: boot_at_def boot_applied_simps)
    from mark [OF this] show ?thesis
      unfolding wp_bnd [of "live_targets _ _"]
      by (intro wp_boot_live [OF v _ refl]) (simp add: wp_bnd [of "lift _"] wp_lift devnet_boot_hosts)
  qed
  have check: "check_boot_claim devnet_booter devnet_bplan boot_record = Inr ()"
    using boot_record_valid by (simp add: check_boot_claim_def) (simp add: boot_record_def)
  let ?w = "w\<lparr>fw_rec := begin_boot devnet_booter devnet_bplan boot_record, fw_changed := True\<rparr>"
  let ?rc = "stamp (100 + int (length (hist ?w))) (fw_rec ?w)"
  let ?v = "?w\<lparr>fw_rec := ?rc, hist := (FCloud (QSave ?rc (br_owner devnet_booter)), WCloud (RUnit (Inr ()))) # hist ?w\<rparr>"
  have w: "boot_at ?w" using assms(1) boot_sound_begin by (simp add: boot_at_def)
  have v: "boot_at ?v" using w by (intro boot_at_saved) (simp_all add: boot_at_def)
  have pending: "bn_phase (boot_node_at (begin_boot devnet_booter devnet_bplan boot_record) x) \<noteq> ''ready''" for x
  proof -
    have put: "fmpred (\<lambda>_ n. bn_phase n \<noteq> ''ready'') (fmupd x (node_in ''pending'') m)" if "fmpred (\<lambda>_ n. bn_phase n \<noteq> ''ready'') m" for x m
      using that by (auto simp: fmpred_iff node_in_def split: if_splits)
    have "fmpred (\<lambda>_ n. bn_phase n \<noteq> ''ready'') (fold (\<lambda>t. fmupd (bg_name t) (node_in ''pending'')) ts m)" if "fmpred (\<lambda>_ n. bn_phase n \<noteq> ''ready'') m" for ts :: "btarget list" and m
      using that by (induction ts arbitrary: m) (simp_all add: put)
    then have "fmpred (\<lambda>_ n. bn_phase n \<noteq> ''ready'') (fold (\<lambda>t. fmupd (bg_name t) (node_in ''pending'')) ?ts fmempty)" by simp
    then show ?thesis
      by (auto simp: boot_node_at_def boot_nodes_of_def begin_boot_def boot_record_def fmpred_iff split: option.splits)
  qed
  have "stage_fits Probing ?v" using pending assms(3,4) by (simp add: boot_applied_simps)
  from live [OF v this] show ?thesis
    unfolding boot_claimed_def wp_bnd [of "gets fw_rec"] wp_gets assms(2) wp_sq [of "lift _"] wp_lift check sum.case
      set_frec_def [of "begin_boot _ _"] set_changed_def wp_sq [of "modify _"] wp_modify wp_sq [of "fsave _"]
    by (intro wp_boot_save_run) (use w in \<open>simp_all add: assms(2)\<close>)
qed

text \<open>The sample run succeeds, and applies the recipe on its way.\<close>

lemma devnet_boots: "\<exists>w' c a i. boot_execute devnet_booter devnet_bplan boot_world = (Inr (), w') \<and> (FHost c, a) \<in> set (hist w') \<and>
    applied_instance devnet_bplan (FHost c) = Some i"
proof -
  let ?Q = "\<lambda>(_ :: unit) w. \<exists>c a i. (FHost c, a) \<in> set (hist w) \<and> applied_instance devnet_bplan (FHost c) = Some i"
  have settle: "wp (fsettle boot_interrupted saving releasing c owner (Inr ())) ?Q (\<lambda>_ _. False) v"
    if v: "stage_fits Verifying v" "env v = boot_env" for v saving releasing c owner
  proof -
    obtain c' a' i where e: "(FHost c', a') \<in> set (hist v)" "applied_instance devnet_bplan (FHost c') = Some i" using applied_somewhere [OF v(1)] .
    have a: "answer boot_env h (FCloud (QRelease c owner)) = WCloud (RUnit (Inr ()))" for h by (simp add: boot_env_def)
    have "fsettle boot_interrupted saving releasing c owner (Inr ()) v =
        (Inr (), v\<lparr>hist := (FCloud (QRelease c owner), WCloud (RUnit (Inr ()))) # hist v\<rparr>)"
      by (simp add: fsettle_def run_steps run_fcall v(2) a join_errors_def)
    then show ?thesis using e by (auto simp: wp_def simp del: applied_instance.simps)
  qed
  let ?h = "[(FCloud (QAcquire devnet_plan ''runner-1''), WCloud (RRecord (Inr boot_record))), (FRead devnet_plan, WStored (Inr (boot_record, []))),
    (FCloud QIdentity, WCloud (RText (Inr (Some ''123456789012''))))] :: (bcall freq, bseen freply) hist"
  let ?w = "boot_world\<lparr>hist := ?h, fw_rec := boot_record, fw_changed := False\<rparr>"
  have "wp (boot_claimed devnet_booter devnet_bplan) (\<lambda>_ v. stage_fits Verifying v \<and> env v = boot_env) (\<lambda>_ _. False) ?w"
    by (rule wp_devnet_claimed [of _ ?h]) (simp_all only: sys.simps fworld.simps boot_world_def boot_applied_simps not_False_eq_True)
  then have body: "wp (bnd (attempt (boot_claimed devnet_booter devnet_bplan)) (fsettle boot_interrupted saving releasing devnet_plan ''runner-1'')) ?Q (\<lambda>_ _. False) ?w"
    for saving releasing
    unfolding wp_bnd wp_attempt by (rule wp_conseq) (use settle in auto)
  have account: "on_cloud (verify_account ''123456789012'') boot_world =
      (Inr (), boot_world\<lparr>hist := [(FCloud QIdentity, WCloud (RText (Inr (Some ''123456789012''))))]\<rparr>)"
    using devnet_account_at [of boot_world] by (simp add: boot_world_def boot_env_def)
  have answers: "answer boot_env h (FRead devnet_plan) = WStored (Inr (boot_record, []))"
    "answer boot_env h (FCloud (QAcquire devnet_plan o1)) = WCloud (RRecord (Inr boot_record))" for h o1 by (simp_all add: boot_env_def)
  have e: "env boot_world = boot_env" "hist boot_world = []" by (simp_all add: boot_world_def)
  have run: "boot_execute devnet_booter devnet_bplan boot_world =
      bnd (attempt (boot_claimed devnet_booter devnet_bplan)) (fsettle boot_interrupted ''save bootstrap interruption'' ''release runner claim'' devnet_plan ''runner-1'') ?w"
    by (simp add: boot_execute_def run_steps devnet_bplan_valid account run_fcall boot_record_valid wrapf_def answers e)
  from body [of "''save bootstrap interruption''" "''release runner claim''"] have "case boot_execute devnet_booter devnet_bplan boot_world of
      (Inl e, w') \<Rightarrow> False | (Inr u, w') \<Rightarrow> ?Q u w'"
    unfolding wp_def run .
  then show ?thesis by (cases "boot_execute devnet_booter devnet_bplan boot_world"; cases "fst (boot_execute devnet_booter devnet_bplan boot_world)")
      (auto simp del: applied_instance.simps)
qed

end
