(* ===== verification/Bootstrap_Safety.thy ===== *)
theory Bootstrap_Safety
  imports Bootstrap_Sample
begin

text \<open>
  Safety and outcome of a bootstrap, for every behaviour of the hosts, of AWS, of the journal and of the
  scheduler: the recipe is announced before it is applied, and success means that every host answered
  as ready after the last change.
\<close>

section \<open>The pool that prepares hosts\<close>

definition waiting :: "btarget list \<Rightarrow> (btarget \<times> bjob) list \<Rightarrow> btarget set" where
  "waiting todo active = set todo \<union> {t. \<exists>j. (t, j) \<in> set active \<and> replied j = None}"

definition marked :: "bplan \<Rightarrow> (string, endpoint \<times> string) fmap \<Rightarrow> btarget set \<Rightarrow> oprec \<Rightarrow> bool" where
  "marked p hosts ts rc \<longleftrightarrow> ours p rc \<and> linked p hosts rc \<and> (\<forall>t \<in> ts. bn_phase (boot_node_at rc (bg_name t)) = ''preparing'')"

definition told :: "bplan \<Rightarrow> (string, endpoint \<times> string) fmap \<Rightarrow> btarget set \<Rightarrow> bworld \<Rightarrow> bool" where
  "told p hosts ts w \<longleftrightarrow> booted p w \<and> marked p hosts ts (fw_rec w) \<and>
     (ts = {} \<or> (\<exists>rc. journaled boot_saved (hist w) = Some rc \<and> marked p hosts ts rc))"

lemma marked_mono: "marked p hosts ts rc \<Longrightarrow> ts' \<subseteq> ts \<Longrightarrow> marked p hosts ts' rc"
  by (auto simp: marked_def)

lemma told_mono: "told p hosts ts w \<Longrightarrow> ts' \<subseteq> ts \<Longrightarrow> told p hosts ts' w"
  unfolding told_def using marked_mono by blast

lemma told_hand: "told p hosts ts w \<Longrightarrow> in_hand p hosts w"
  by (simp add: told_def marked_def in_hand_def)

lemma told_ask:
  assumes "told p hosts ts w" and "boot_saved q a = None" and "boot_guard p (hist w) q"
  shows "told p hosts ts (w\<lparr>hist := (q, a) # hist w\<rparr>)"
  using assms by (simp add: told_def booted_def)

text \<open>The announced host may be touched.\<close>

lemma told_guard:
  assumes "told p hosts ts w" and "t \<in> ts" and "ts \<subseteq> set (bp_targets p)" and "applied_instance p q = Some (snd (host_at hosts (bg_name t)))"
  shows "boot_guard p (hist w) q"
proof -
  obtain rc where rc: "journaled boot_saved (hist w) = Some rc" "marked p hosts ts rc" using assms(1,2) by (auto simp: told_def)
  have "prepared_for p rc (snd (host_at hosts (bg_name t)))"
    using rc(2) assms(2,3) by (fastforce simp: prepared_for_def marked_def ours_def linked_def)
  then show ?thesis using rc(1) assms(4) by (simp add: intent_guard_def)
qed

lemma stamp_marked [simp]: "marked p hosts ts (stamp t rc) = marked p hosts ts rc"
  using linked_same [of "stamp t rc" rc] by (simp add: marked_def)

lemma put_marked:
  assumes "marked p hosts ts rc" and "\<forall>t \<in> ts. bg_name t \<noteq> x"
  shows "marked p hosts ts (put_boot_node x n rc)"
proof -
  have o: "ours p rc" "linked p hosts rc" using assms(1) by (simp_all add: marked_def)
  have "linked p hosts (put_boot_node x n rc)" using o(2) linked_same [of "put_boot_node x n rc" rc] by simp
  then show ?thesis using assms o(1) by (auto simp: marked_def put_boot_at)
qed

lemma wp_save_marked:
  assumes "booted p w" and "marked p hosts ts (fw_rec w)"
    and "ts = {} \<or> (\<exists>rc. journaled boot_saved (hist w) = Some rc \<and> marked p hosts ts rc) \<or> must"
  shows "wp (fsave owner) (\<lambda>_. told p hosts ts) (\<lambda>_ v. if must then in_hand p hosts v else told p hosts ts v) w"
proof (rule wp_boot_save)
  have b: "booted p (w\<lparr>fw_rec := rc, hist := (FCloud (QSave rc' owner), a) # hist w\<rparr>)" for rc rc' a
    using assms(1) by (simp add: booted_def intent_guard_def)
  show "told p hosts ts (w\<lparr>fw_rec := stamp t (fw_rec w), hist := (FCloud (QSave (stamp t (fw_rec w)) owner), WCloud (RUnit (Inr ()))) # hist w\<rparr>)" for t
    using b assms(2) by (simp add: told_def)
  show "if must then in_hand p hosts (w\<lparr>fw_rec := stamp t (fw_rec w), hist := (FCloud (QSave (stamp t (fw_rec w)) owner), a) # hist w\<rparr>)
      else told p hosts ts (w\<lparr>fw_rec := stamp t (fw_rec w), hist := (FCloud (QSave (stamp t (fw_rec w)) owner), a) # hist w\<rparr>)"
    if "boot_saved (FCloud (QSave (stamp t (fw_rec w)) owner)) a = None" for t a
    using b assms(2,3) that linked_same [of "stamp t (fw_rec w)" "fw_rec w" p hosts] by (auto simp: told_def in_hand_def marked_def)
qed

lemma waiting_update: "waiting todo (active[i := (fst (active ! i), j)]) \<subseteq> waiting todo active \<union> (if replied j = None then {fst (active ! i)} else {})"
  unfolding waiting_def using set_update_subset_insert [of active i "(fst (active ! i), j)"] by auto

lemma waiting_among: "waiting todo active \<subseteq> set todo \<union> fst ` set active"
  by (force simp: waiting_def)

lemma waiting_without: "waiting todo (without i active) \<subseteq> waiting todo active"
  unfolding waiting_def using set_without [of i active] by auto

lemma waiting_start: "todo \<noteq> [] \<Longrightarrow> waiting (tl todo) (active @ [(hd todo, j)]) \<subseteq> waiting todo active"
  by (cases todo) (auto simp: waiting_def)

lemma distinct_without:
  assumes "distinct (map f xs)" and "i < length xs"
  shows "distinct (map f (without i xs))" "f (xs ! i) \<notin> f ` set (without i xs)"
proof -
  have "xs = take i xs @ xs ! i # drop (Suc i) xs" using assms(2) by (simp add: id_take_nth_drop)
  then have "distinct (map f (take i xs @ xs ! i # drop (Suc i) xs))" using assms(1) by simp
  then show "distinct (map f (without i xs))" "f (xs ! i) \<notin> f ` set (without i xs)"
    unfolding without_def by auto
qed

definition pool_ok :: "bplan \<Rightarrow> btarget list \<Rightarrow> (btarget \<times> bjob) list \<Rightarrow> bool" where
  "pool_ok p todo active \<longleftrightarrow> distinct (map bg_name todo) \<and> distinct (map (bg_name \<circ> fst) active) \<and>
     bg_name ` set todo \<inter> (bg_name \<circ> fst) ` set active = {} \<and> set todo \<union> fst ` set active \<subseteq> set (bp_targets p)"

lemma pool_ok_update: "pool_ok p todo active \<Longrightarrow> i < length active \<Longrightarrow> pool_ok p todo (active[i := (fst (active ! i), j)])"
proof -
  assume a: "pool_ok p todo active" "i < length active"
  have "map fst (active[i := (fst (active ! i), j)]) = map fst active" using a(2) by (metis fst_conv list_update_id map_update nth_map)
  then have m: "map (f \<circ> fst) (active[i := (fst (active ! i), j)]) = map (f \<circ> fst) active" "fst ` set (active[i := (fst (active ! i), j)]) = fst ` set active" for f :: "btarget \<Rightarrow> string"
    by (metis map_map, metis list.set_map)
  have "(bg_name \<circ> fst) ` set (active[i := (fst (active ! i), j)]) = (bg_name \<circ> fst) ` set active" using m(1) by (metis list.set_map)
  then show ?thesis using a m by (simp add: pool_ok_def)
qed

lemma pool_ok_without:
  assumes "pool_ok p todo active" and "i < length active"
  shows "pool_ok p todo (without i active)" "\<forall>t \<in> waiting todo (without i active). bg_name t \<noteq> bg_name (fst (active ! i))"
proof -
  have d: "distinct (map (bg_name \<circ> fst) active)" using assms(1) by (simp add: pool_ok_def)
  note w = distinct_without [OF d assms(2)]
  have "fst ` set (without i active) \<subseteq> fst ` set active" "(bg_name \<circ> fst) ` set (without i active) \<subseteq> (bg_name \<circ> fst) ` set active"
    by (intro image_mono set_without)+
  note sub = this
  have apart: "bg_name ` set todo \<inter> (bg_name \<circ> fst) ` set active = {}" using assms(1) unfolding pool_ok_def by (elim conjE)
  show "pool_ok p todo (without i active)"
    unfolding pool_ok_def
  proof (intro conjI)
    show "distinct (map bg_name todo)" using assms(1) by (simp add: pool_ok_def)
    show "distinct (map (bg_name \<circ> fst) (without i active))" by (rule w(1))
    show "bg_name ` set todo \<inter> (bg_name \<circ> fst) ` set (without i active) = {}"
      using sub(2) apart by blast
    show "set todo \<union> fst ` set (without i active) \<subseteq> set (bp_targets p)"
      using sub(1) assms(1) unfolding pool_ok_def by (meson Un_subset_iff order_trans)
  qed
  show "\<forall>t \<in> waiting todo (without i active). bg_name t \<noteq> bg_name (fst (active ! i))"
  proof
    fix t assume "t \<in> waiting todo (without i active)"
    then consider "t \<in> set todo" | j where "(t, j) \<in> set (without i active)" by (auto simp: waiting_def)
    then show "bg_name t \<noteq> bg_name (fst (active ! i))"
    proof cases
      case 1
      have "active ! i \<in> set active" by (rule nth_mem [OF assms(2)])
      then have "bg_name (fst (active ! i)) \<in> (bg_name \<circ> fst) ` set active" by force
      then show ?thesis using 1 apart by (metis IntI empty_iff imageI)
    next
      case 2
      then have "bg_name t \<in> (bg_name \<circ> fst) ` set (without i active)" by force
      then show ?thesis using w(2) by (metis comp_apply)
    qed
  qed
qed

lemma pool_ok_start:
  assumes "pool_ok p todo active" and "todo \<noteq> []"
  shows "pool_ok p (tl todo) (active @ [(hd todo, j)])"
  using assms by (cases todo) (auto simp: pool_ok_def)

lemma keeps_hand_applying:
  assumes "set ts \<subseteq> set (bp_targets p)" and "distinct (map bg_name ts)" and "told p hosts (set ts) w"
  shows "wp (boot_fleet r p hosts Applying ts) (\<lambda>_. in_hand p hosts) (\<lambda>_. in_hand p hosts) w"
proof -
  let ?I = "\<lambda>(todo :: btarget list) (active :: (btarget \<times> bjob) list) (stop :: gerr option) (errs :: gerr list) w.
      pool_ok p todo active \<and> told p hosts (waiting todo active) w"
  let ?active = "map (\<lambda>t. (t, Applying)) (take parallel_hosts ts)"
  have "wp (fleet_loop r p hosts Applying (drop parallel_hosts ts) ?active None []) (\<lambda>(stop, errs, todo) w'. ?I todo [] stop errs w') (\<lambda>_. in_hand p hosts) w"
  proof (rule wp_fleet_loop [where I = ?I])
    have n: "map (bg_name \<circ> fst) ?active = map bg_name (take parallel_hosts ts)" by simp
    have "distinct (map bg_name (take parallel_hosts ts @ drop parallel_hosts ts))" using assms(2) by simp
    then have "distinct (map bg_name (take parallel_hosts ts))" "distinct (map bg_name (drop parallel_hosts ts))"
      "bg_name ` set (take parallel_hosts ts) \<inter> bg_name ` set (drop parallel_hosts ts) = {}" unfolding map_append distinct_append by simp_all
    moreover have "(bg_name \<circ> fst) ` set ?active = bg_name ` set (take parallel_hosts ts)" by force
    moreover have "set (drop parallel_hosts ts) \<union> fst ` set ?active \<subseteq> set ts" by (auto dest: in_set_takeD in_set_dropD)
    ultimately have "pool_ok p (drop parallel_hosts ts) ?active" unfolding pool_ok_def n using assms(1) by blast
    moreover have "waiting (drop parallel_hosts ts) ?active \<subseteq> set ts" by (auto simp: waiting_def dest: in_set_takeD in_set_dropD)
    ultimately show "?I (drop parallel_hosts ts) ?active None [] w" using told_mono [OF assms(3)] by blast
  next
    fix todo active stop errs w a assume "?I todo active stop errs w"
    then show "?I todo active stop errs (w\<lparr>hist := (FNext, a) # hist w\<rparr>)" by (auto intro: told_ask simp: intent_guard_def)
  next
    fix todo :: "btarget list" and active stop errs w i
    assume i: "i < length active" and n: "replied (snd (active ! i)) = None" and I: "?I todo active stop errs w"
    let ?t = "fst (active ! i)"
    have "(?t, snd (active ! i)) \<in> set active" using nth_mem [OF i] by simp
    then have t: "?t \<in> waiting todo active" using n unfolding waiting_def by blast
    have sub: "waiting todo active \<subseteq> set (bp_targets p)" using I waiting_among [of todo active] unfolding pool_ok_def by (meson order_trans)
    have k: "\<forall>t0. ?I todo (active[i := (?t, advance ?t (snd (active ! i)) res t0)]) stop errs v"
      if "told p hosts (waiting todo active) v" for res v
    proof
      fix t0
      have "waiting todo (active[i := (?t, advance ?t (snd (active ! i)) res t0)]) \<subseteq> waiting todo active"
        using waiting_update [of todo active i "advance ?t (snd (active ! i)) res t0"] t by (auto split: if_splits)
      then show "?I todo (active[i := (?t, advance ?t (snd (active ! i)) res t0)]) stop errs v"
        using I told_mono [OF that] pool_ok_update [OF _ i] by blast
    qed
    have a: "told p hosts (waiting todo active) (w\<lparr>hist := (FHost c, a) # hist w\<rparr>)"
      if c: "applied_instance p (FHost c) = (if snd (active ! i) = Applying then Some (snd (host_at hosts (bg_name ?t))) else None)" for c a
    proof (rule told_ask)
      show w: "told p hosts (waiting todo active) w" using I by simp
      show "boot_saved (FHost c) a = None" by simp
      show "boot_guard p (hist w) (FHost c)"
      proof (cases "snd (active ! i) = Applying")
        case True
        then show ?thesis using told_guard [OF w t sub] c by simp
      next
        case False
        then show ?thesis using c by (simp add: intent_guard_def del: applied_instance.simps)
      qed
    qed
    show "wp (attempt (job_call r p hosts (active ! i))) (\<lambda>res w'. \<forall>t0. ?I todo
        (active[i := (?t, advance ?t (snd (active ! i)) res t0)]) stop errs w') (\<lambda>_. in_hand p hosts) w"
      by (rule wp_job_call) (rule k, erule a, rule k, use I in simp)
  next
    fix todo :: "btarget list" and active x errs w i n e assume i: "i < length active" and I: "?I todo active (Some x) errs w"
    then show "?I todo (without i active) (Some x) (errs @ failure_of e) w"
      using pool_ok_without(1) [OF _ i] told_mono waiting_without by blast
  next
    fix todo :: "btarget list" and active errs w i n e assume i: "i < length active" and I: "?I todo active None errs w"
    let ?W = "waiting todo (without i active)" and ?x = "bg_name (fst (active ! i))"
    note o = pool_ok_without [OF conjunct1 [OF I] i]
    have w: "told p hosts ?W w" using I told_mono waiting_without by blast
    let ?w = "w\<lparr>fw_rec := put_boot_node ?x n (fw_rec w)\<rparr>"
    have m: "marked p hosts ?W (fw_rec ?w)" using w put_marked o(2) by (simp add: told_def)
    have b: "booted p ?w" using w by (simp add: told_def)
    have old: "?W = {} \<or> (\<exists>rc. journaled boot_saved (hist ?w) = Some rc \<and> marked p hosts ?W rc) \<or> False"
      using w by (simp add: told_def)
    have s: "wp (fsave (br_owner r)) (\<lambda>_. told p hosts ?W) (\<lambda>_. told p hosts ?W) ?w"
      by (rule wp_conseq [OF wp_save_marked [OF b m old]]) simp_all
    have "?I (tl todo) (without i active @ [(hd todo, Applying)]) None es v" if "told p hosts ?W v" "todo \<noteq> []" for v es
      using pool_ok_start [OF o(1) that(2)] told_mono [OF that(1) waiting_start [OF that(2)]] by blast
    then show "wp (attempt (record_boot r (fst (active ! i)) n))
        (\<lambda>saved w'. ?I todo (without i active) (stop_of saved) (errs @ failure_of e) w' \<and>
          (saved = Inr () \<longrightarrow> todo \<noteq> [] \<longrightarrow> ?I (tl todo) (without i active @ [(hd todo, Applying)]) None (errs @ failure_of e) w')) (\<lambda>_. in_hand p hosts) w"
      unfolding record_boot_def set_frec_def wp_attempt wp_sq wp_modify by (intro wp_conseq [OF s]) (use o(1) in auto)
  qed
  then show ?thesis
    unfolding boot_fleet_def wp_bnd by (rule wp_conseq) (auto simp: wp_lift dest: told_hand split: option.splits sum.splits)
qed

section \<open>The pool that verifies hosts\<close>

definition untouched :: "bplan \<Rightarrow> (bcall freq, bseen freply) hist \<Rightarrow> bool" where
  "untouched p h \<longleftrightarrow> (\<forall>(q, a) \<in> set h. applied_instance p q = None)"

definition sound_host :: "brunner \<Rightarrow> bplan \<Rightarrow> (string, endpoint \<times> string) fmap \<Rightarrow> (bcall freq, bseen freply) hist \<Rightarrow> oprec \<Rightarrow> btarget \<Rightarrow> bool" where
  "sound_host r p hosts late rc t \<longleftrightarrow> bn_phase (boot_node_at rc (bg_name t)) = ''ready'' \<and>
     ready_answer r p t (snd (host_at hosts (bg_name t))) late"

text \<open>What a goroutine of the last pool may hold.\<close>

fun sound_job :: "brunner \<Rightarrow> bplan \<Rightarrow> (string, endpoint \<times> string) fmap \<Rightarrow> (bcall freq, bseen freply) hist \<Rightarrow> btarget \<times> bjob \<Rightarrow> bool" where
  "sound_job r p hosts late (t, Verifying) = True"
| "sound_job r p hosts late (t, Replied n None) = (bn_phase n = ''ready'' \<and> ready_answer r p t (snd (host_at hosts (bg_name t))) late)"
| "sound_job r p hosts late (t, Replied n (Some x)) = True"
| "sound_job r p hosts late (t, j) = False"

definition verified_pool :: "brunner \<Rightarrow> bplan \<Rightarrow> (string, endpoint \<times> string) fmap \<Rightarrow> (bcall freq, bseen freply) hist \<Rightarrow> btarget set \<Rightarrow>
    btarget list \<Rightarrow> (btarget \<times> bjob) list \<Rightarrow> gerr option \<Rightarrow> gerr list \<Rightarrow> bworld \<Rightarrow> bool" where
  "verified_pool r p hosts h0 ts todo active stop errs w \<longleftrightarrow> in_hand p hosts w \<and> (\<exists>late. hist w = late @ h0 \<and> untouched p late \<and>
     (\<forall>x \<in> set active. sound_job r p hosts late x) \<and>
     (stop = None \<and> errs = [] \<longrightarrow> (\<forall>t \<in> ts. t \<in> set todo \<or> t \<in> fst ` set active \<or> sound_host r p hosts late (fw_rec w) t)))"

lemma sound_job_mono: "sound_job r p hosts late x \<Longrightarrow> sound_job r p hosts (new @ late) x"
  by (cases "(r, p, hosts, late, x)" rule: sound_job.cases) (auto intro: ready_answer_mono)

lemma sound_host_mono: "sound_host r p hosts late rc t \<Longrightarrow> sound_host r p hosts (new @ late) rc t"
  by (auto simp: sound_host_def intro: ready_answer_mono)

lemma verified_ask:
  assumes "verified_pool r p hosts h0 ts todo active stop errs w" and "applied_instance p q = None"
  shows "verified_pool r p hosts h0 ts todo active stop errs (w\<lparr>hist := (q, a) # hist w\<rparr>)"
proof -
  obtain late where l: "hist w = late @ h0" "untouched p late" "\<forall>x \<in> set active. sound_job r p hosts late x"
    "stop = None \<and> errs = [] \<longrightarrow> (\<forall>t \<in> ts. t \<in> set todo \<or> t \<in> fst ` set active \<or> sound_host r p hosts late (fw_rec w) t)"
    and h: "in_hand p hosts w"
    using assms(1) by (auto simp: verified_pool_def)
  have "untouched p ((q, a) # late)" using l(2) assms(2) by (simp add: untouched_def)
  then show ?thesis
    unfolding verified_pool_def using in_hand_ask [OF h assms(2)] l sound_job_mono [of r p hosts late _ "[(q, a)]"] sound_host_mono [of r p hosts late _ _ "[(q, a)]"]
    by (intro conjI exI [of _ "(q, a) # late"]) auto
qed

lemma verified_advance:
  assumes v: "verified_pool r p hosts h0 ts todo active stop errs w" and i: "i < length active"
    and s: "\<And>late. hist w = late @ h0 \<Longrightarrow> sound_job r p hosts late (fst (active ! i), j)"
  shows "verified_pool r p hosts h0 ts todo (active[i := (fst (active ! i), j)]) stop errs w"
proof -
  obtain late where l: "hist w = late @ h0" "untouched p late" "\<forall>x \<in> set active. sound_job r p hosts late x"
    "stop = None \<and> errs = [] \<longrightarrow> (\<forall>t \<in> ts. t \<in> set todo \<or> t \<in> fst ` set active \<or> sound_host r p hosts late (fw_rec w) t)"
    using v by (auto simp: verified_pool_def)
  have "map fst (active[i := (fst (active ! i), j)]) = map fst active" using i by (metis fst_conv list_update_id map_update nth_map)
  then have "fst ` set (active[i := (fst (active ! i), j)]) = fst ` set active" by (metis list.set_map)
  moreover have "\<forall>x \<in> set (active[i := (fst (active ! i), j)]). sound_job r p hosts late x"
    using l(3) s [OF l(1)] set_update_subset_insert [of active i "(fst (active ! i), j)"] by auto
  ultimately show ?thesis
    unfolding verified_pool_def using l v unfolding verified_pool_def by (intro conjI exI [of _ late]) simp_all
qed

lemma verified_recorded:
  assumes v: "verified_pool r p hosts h0 ts todo active None errs w" and i: "i < length active" and n: "snd (active ! i) = Replied n e"
    and u: "applied_instance p (FCloud (QSave rc owner)) = None" and h: "in_hand p hosts (w\<lparr>fw_rec := rc, hist := (FCloud (QSave rc owner), a) # hist w\<rparr>)"
    and rc: "\<And>x. boot_node_at rc x = (if bg_name (fst (active ! i)) = x then n else boot_node_at (fw_rec w) x)"
  shows "verified_pool r p hosts h0 ts todo (without i active) stop (errs @ failure_of e) (w\<lparr>fw_rec := rc, hist := (FCloud (QSave rc owner), a) # hist w\<rparr>)"
proof -
  obtain late where l: "hist w = late @ h0" "untouched p late" "\<forall>x \<in> set active. sound_job r p hosts late x"
    "errs = [] \<longrightarrow> (\<forall>t \<in> ts. t \<in> set todo \<or> t \<in> fst ` set active \<or> sound_host r p hosts late (fw_rec w) t)"
    using v by (auto simp: verified_pool_def)
  let ?late = "[(FCloud (QSave rc owner), a)] @ late" and ?t = "fst (active ! i)"
  have x: "active ! i \<in> set active" "active ! i = (?t, Replied n e)" using nth_mem [OF i] n by (simp_all add: prod_eq_iff)
  have "sound_job r p hosts late (?t, Replied n e)" using l(3) x by metis
  then have ready: "bn_phase n = ''ready'' \<and> ready_answer r p ?t (snd (host_at hosts (bg_name ?t))) late" if "e = None" using that by simp
  have cover: "t \<in> set todo \<or> t \<in> fst ` set (without i active) \<or> sound_host r p hosts ?late rc t" if e: "errs @ failure_of e = []" and t: "t \<in> ts" for t
  proof -
    have e0: "e = None" "errs = []" using e by (simp_all add: failure_of_def split: option.splits)
    have keep: "sound_host r p hosts ?late rc t" if "sound_host r p hosts late (fw_rec w) t"
    proof -
      have "bn_phase (boot_node_at rc (bg_name t)) = ''ready''" using that rc ready [OF e0(1)] by (simp add: sound_host_def)
      moreover have "ready_answer r p t (snd (host_at hosts (bg_name t))) ?late" using that ready_answer_mono unfolding sound_host_def by blast
      ultimately show ?thesis by (simp add: sound_host_def)
    qed
    have mine: "sound_host r p hosts ?late rc ?t"
      using ready [OF e0(1)] rc ready_answer_mono [of r p ?t _ late "[(FCloud (QSave rc owner), a)]"] unfolding sound_host_def by simp
    have other: "t \<in> fst ` set (without i active)" if "t \<in> fst ` set active" "t \<noteq> ?t"
    proof -
      obtain y where y: "y \<in> set active" "t = fst y" using \<open>t \<in> fst ` set active\<close> by auto
      have "active = take i active @ active ! i # drop (Suc i) active" using i by (simp add: id_take_nth_drop)
      then have "y = active ! i \<or> y \<in> set (without i active)" using y(1) unfolding without_def by (metis UnE set_ConsD set_append UnI1 UnI2)
      then show ?thesis using y(2) that(2) by auto
    qed
    show ?thesis using l(4) e0(2) t keep mine other by blast
  qed
  have "untouched p ?late" using l(2) u by (simp add: untouched_def)
  moreover have "\<forall>x \<in> set (without i active). sound_job r p hosts ?late x"
    using l(3) set_without [of i active] sound_job_mono by blast
  ultimately show ?thesis
    unfolding verified_pool_def using h l(1) cover by (intro conjI exI [of _ ?late]) auto
qed

lemma verified_start:
  assumes "verified_pool r p hosts h0 ts todo active None errs w" and "todo \<noteq> []"
  shows "verified_pool r p hosts h0 ts (tl todo) (active @ [(hd todo, Verifying)]) None errs w"
  using assms by (cases todo) (auto simp: verified_pool_def)

lemma wp_verifying:
  assumes w: "in_hand p hosts w"
  shows "wp (boot_fleet r p hosts Verifying ts) (\<lambda>_ v. in_hand p hosts v \<and> (\<exists>late. hist v = late @ hist w \<and> untouched p late \<and>
      (\<forall>t \<in> set ts. sound_host r p hosts late (fw_rec v) t))) (\<lambda>_. in_hand p hosts) w"
proof -
  let ?I = "verified_pool r p hosts (hist w) (set ts)"
  let ?active = "map (\<lambda>t. (t, Verifying)) (take parallel_hosts ts)"
  have "wp (fleet_loop r p hosts Verifying (drop parallel_hosts ts) ?active None []) (\<lambda>(stop, errs, todo) w'. ?I todo [] stop errs w') (\<lambda>_. in_hand p hosts) w"
  proof (rule wp_fleet_loop [where I = ?I])
    have "set ts = set (drop parallel_hosts ts) \<union> set (take parallel_hosts ts)" by (metis append_take_drop_id set_append sup_commute)
    moreover have "fst ` set ?active = set (take parallel_hosts ts)" by force
    ultimately have "t \<in> set (drop parallel_hosts ts) \<or> t \<in> fst ` set ?active" if "t \<in> set ts" for t using that by blast
    then show "?I (drop parallel_hosts ts) ?active None [] w"
      unfolding verified_pool_def using w by (intro conjI exI [of _ "[]"]) (auto simp: untouched_def)
  next
    fix todo active stop errs w a assume "?I todo active stop errs w"
    then show "?I todo active stop errs (w\<lparr>hist := (FNext, a) # hist w\<rparr>)" by (rule verified_ask) simp
  next
    fix todo :: "btarget list" and active stop errs w' i
    assume i: "i < length active" and n: "replied (snd (active ! i)) = None" and I: "?I todo active stop errs w'"
    let ?t = "fst (active ! i)"
    have "\<exists>late. sound_job r p hosts late (active ! i)" using I nth_mem [OF i] by (auto simp: verified_pool_def)
    then have j: "snd (active ! i) = Verifying" using n by (cases "active ! i"; cases "snd (active ! i)") auto
    have bad: "sound_job r p hosts late (?t, advance ?t (snd (active ! i)) (Inl e) t0)" for late e t0 by (simp add: j)
    have good: "sound_job r p hosts late (?t, advance ?t (snd (active ! i)) (check_response p ?t (snd (host_at hosts (bg_name ?t))) (run_reply a)) t0)"
      if "(FHost c, a) \<in> set late" "bootstrap_command r p ?t (snd (host_at hosts (bg_name ?t))) (job_mode (snd (active ! i))) = Inr (bc_command c, bc_script c)" for late c a t0
      using that by (auto simp: j job_mode_def node_ready_def ready_answer_def split: sum.splits)
    show "wp (attempt (job_call r p hosts (active ! i))) (\<lambda>res v. \<forall>t0. ?I todo
        (active[i := (?t, advance ?t (snd (active ! i)) res t0)]) stop errs v) (\<lambda>_. in_hand p hosts) w'"
    proof (rule wp_job_call)
      fix c a
      assume c: "bootstrap_command r p ?t (snd (host_at hosts (bg_name ?t))) (job_mode (snd (active ! i))) = Inr (bc_command c, bc_script c)"
        "applied_instance p (FHost c) = (if snd (active ! i) = Applying then Some (snd (host_at hosts (bg_name ?t))) else None)"
      have q: "applied_instance p (FHost c) = None" using c(2) j by simp
      have "(FHost c, a) \<in> set late" if "(FHost c, a) # hist w' = late @ hist w" for late
      proof -
        obtain old where "hist w' = old @ hist w" using I by (auto simp: verified_pool_def)
        then have "late = (FHost c, a) # old" using that by (metis append_Cons append_same_eq)
        then show ?thesis by simp
      qed
      then show "\<forall>t0. ?I todo (active[i := (?t, advance ?t (snd (active ! i)) (check_response p ?t (snd (host_at hosts (bg_name ?t))) (run_reply a)) t0)]) stop errs
          (w'\<lparr>hist := (FHost c, a) # hist w'\<rparr>)"
        using verified_advance [OF verified_ask [OF I q] i] good [OF _ c(1)] by simp
    next
      show "\<forall>t0. ?I todo (active[i := (?t, advance ?t (snd (active ! i)) (Inl e) t0)]) stop errs w'" for e
        using verified_advance [OF I i] bad by blast
    qed
  next
    fix todo :: "btarget list" and active x errs w i n e assume "?I todo active (Some x) errs w"
    then show "?I todo (without i active) (Some x) (errs @ failure_of e) w"
      unfolding verified_pool_def using set_without [of i active] by blast
  next
    fix todo :: "btarget list" and active errs w' i n e
    assume i: "i < length active" and n: "snd (active ! i) = Replied n e" and I: "?I todo active None errs w'"
    let ?rc = "put_boot_node (bg_name (fst (active ! i))) n (fw_rec w')"
    have h: "in_hand p hosts w'" using I by (simp add: verified_pool_def)
    have o: "ours p (fw_rec w')" using h by (simp add: in_hand_def)
    have h': "in_hand p hosts (w'\<lparr>fw_rec := stamp t ?rc, hist := (FCloud (QSave (stamp t ?rc) owner), a) # hist w'\<rparr>)" for t owner a
      using in_hand_ask [OF h, of "FCloud (QSave (stamp t ?rc) owner)" a] linked_same [of "stamp t ?rc" "fw_rec w'"] by (simp add: in_hand_def booted_def)
    have k: "?I todo (without i active) stop (errs @ failure_of e) (w'\<lparr>fw_rec := stamp t ?rc, hist := (FCloud (QSave (stamp t ?rc) owner), a) # hist w'\<rparr>)" for t owner a stop
      by (rule verified_recorded [OF I i n _ h']) (simp_all add: put_boot_at [OF o])
    then show "wp (attempt (record_boot r (fst (active ! i)) n))
        (\<lambda>saved v. ?I todo (without i active) (stop_of saved) (errs @ failure_of e) v \<and>
          (saved = Inr () \<longrightarrow> todo \<noteq> [] \<longrightarrow> ?I (tl todo) (without i active @ [(hd todo, Verifying)]) None (errs @ failure_of e) v)) (\<lambda>_. in_hand p hosts) w'"
      unfolding record_boot_def set_frec_def wp_attempt wp_sq wp_modify
      by (intro wp_boot_save) (auto intro: verified_start)
  qed
  then show ?thesis
    unfolding boot_fleet_def wp_bnd
    by (rule wp_conseq) (auto simp: wp_lift joined_failures_def verified_pool_def split: option.splits sum.splits if_splits)
qed

section \<open>Live hosts\<close>

lemma wp_running_targets:
  "wp (running_targets H R n p rc) (\<lambda>live _. \<forall>t \<in> set (pl_targets p). running_target rc live t) (\<lambda>_ _. True) w"
proof -
  have each: "wp (foreach ts (\<lambda>t. reject_if (\<not> running_target rc live t) (e t))) (\<lambda>_ _. \<forall>t \<in> set ts. running_target rc live t) (\<lambda>_ _. True) v" for ts live e v
    by (induction ts arbitrary: v) (auto simp: wp_ret wp_bnd wp_reject_if elim: wp_conseq)
  have tail: "wp (sq (foreach (pl_targets p) (\<lambda>t. reject_if (\<not> running_target rc live t) (At (tg_name t) (Err ''target is missing, changed, or not running'')))) (ret live))
      (\<lambda>live _. \<forall>t \<in> set (pl_targets p). running_target rc live t) (\<lambda>_ _. True) v" for live v
    unfolding wp_sq by (rule wp_conseq [OF each]) (simp_all add: wp_ret)
  have disc: "wp (discover H n p) (\<lambda>_ _. True) (\<lambda>_ _. True) v" for v by (simp add: wp_def split: prod.splits sum.splits)
  have "wp (bnd (discover H n p) (\<lambda>live. sq (foreach (pl_targets p) (\<lambda>t. reject_if (\<not> running_target rc live t) (At (tg_name t) (Err ''target is missing, changed, or not running'')))) (ret live)))
      (\<lambda>live _. \<forall>t \<in> set (pl_targets p). running_target rc live t) (\<lambda>_ _. True) v" for v
    unfolding wp_bnd by (rule wp_conseq [OF disc]) (simp_all add: tail)
  then show ?thesis
    unfolding running_targets_def wp_sq [of "lift _"] wp_lift wp_sq [of "reject_if _ _"] wp_reject_if by (simp split: sum.splits)
qed

lemma wp_on_cloud_value:
  assumes "\<And>v. wp m (\<lambda>x _. P x) (\<lambda>_ _. True) v"
  shows "wp (on_cloud m) (\<lambda>x _. P x) (\<lambda>_ _. True) w"
  using assms [of "to_pworld w"] by (auto simp: wp_def on_cloud_def split: prod.splits sum.splits)

interpretation idle: peeking_invariant "\<lambda>w. booted p w \<and> fw_rec w = rc" "\<lambda>_. False" for p rc
proof
  fix q :: "bcall freq" and w :: bworld and a assume "peeks (\<lambda>_. False) q" "booted p w \<and> fw_rec w = rc"
  then show "booted p (w\<lparr>hist := (q, a) # hist w\<rparr>) \<and> fw_rec (w\<lparr>hist := (q, a) # hist w\<rparr>) = rc" by (cases q) (auto intro: booted_quiet)
qed

lemma wp_live_targets:
  assumes "booted p w"
  shows "wp (live_targets r p) (\<lambda>live v. booted p v \<and> fw_rec v = fw_rec w \<and> (\<forall>t \<in> set (pl_targets (bp_compute p)). running_target (fw_rec w) live t)) (\<lambda>_. booted p) w"
proof -
  have k: "keeps (\<lambda>v. booted p v \<and> fw_rec v = fw_rec w) (on_cloud (running_targets (br_hash r) (br_refs r) (br_pages r) (bp_compute p) (fw_rec w)))"
    by (rule idle.keeps_on_running)
  have v: "wp (on_cloud (running_targets (br_hash r) (br_refs r) (br_pages r) (bp_compute p) (fw_rec w)))
      (\<lambda>live _. \<forall>t \<in> set (pl_targets (bp_compute p)). running_target (fw_rec w) live t) (\<lambda>_ _. True) w"
    by (rule wp_on_cloud_value) (rule wp_running_targets)
  show ?thesis
    unfolding live_targets_def wp_bnd wp_gets by (rule wp_conseq [OF wp_conj [OF keeps_wp [OF k] v]]) (use assms in auto)
qed

definition live_ident :: "live_map \<Rightarrow> string \<Rightarrow> string" where
  "live_ident live x = (case fmlookup live x of None \<Rightarrow> [] | Some i \<Rightarrow> in_id i)"

lemma boot_hosts_ident:
  assumes "boot_hosts p live = Inr hosts" and "t \<in> set (bp_targets p)"
  shows "snd (host_at hosts (bg_name t)) = live_ident live (bg_name t)"
proof -
  have "(\<forall>x. x \<in> bg_name ` set ts \<longrightarrow> snd (host_at hosts x) = live_ident live x) \<and> (\<forall>x. x \<notin> bg_name ` set ts \<longrightarrow> host_at hosts x = host_at m x)"
    if "scan_ok (boot_host p live) m ts = Inr hosts" for ts m
    using that
  proof (induction ts arbitrary: m)
    case (Cons t ts)
    obtain m' where m: "boot_host p live m t = Inr m'" "scan_ok (boot_host p live) m' ts = Inr hosts" using Cons.prems by (auto simp: res_simps)
    have h: "snd (host_at m' (bg_name t)) = live_ident live (bg_name t)" "\<And>x. x \<noteq> bg_name t \<Longrightarrow> host_at m' x = host_at m x"
      using m(1) by (auto simp: boot_host_def Let_def host_at_def live_ident_def split: if_splits)
    show ?case using Cons.IH [OF m(2)] h by (metis (no_types, lifting) imageE image_insert insertCI insertE list.simps(15))
  qed simp
  then show ?thesis using assms by (auto simp: boot_hosts_def)
qed

lemma bplan_targets:
  assumes "validate_bplan H R recipe p = Inr ()"
  shows "distinct (map bg_name (bp_targets p))" "t \<in> set (bp_targets p) \<Longrightarrow> \<exists>g \<in> set (pl_targets (bp_compute p)). bg_name t = tg_name g"
proof -
  have b: "validate_plan H R (bp_compute p) = Inr ()" "bp_targets p = map (bootstrap_target R (bp_release p)) (pl_targets (bp_compute p))"
    using assms by (simp_all add: validate_bplan_Inr build_bootstrap_Inr)
  have n: "bg_name \<circ> bootstrap_target R l = tg_name" for l by (auto simp: bootstrap_target_def)
  show "distinct (map bg_name (bp_targets p))" using valid_plan_names(1) [OF b(1)] by (simp add: b(2) n)
  show "t \<in> set (bp_targets p) \<Longrightarrow> \<exists>g \<in> set (pl_targets (bp_compute p)). bg_name t = tg_name g" by (auto simp: b(2) bootstrap_target_def)
qed

lemma live_linked:
  assumes "validate_bplan H R recipe p = Inr ()" and "boot_hosts p live = Inr hosts"
    and "\<forall>t \<in> set (pl_targets (bp_compute p)). running_target rc live t"
  shows "linked p hosts rc"
  unfolding linked_def
proof
  fix t assume t: "t \<in> set (bp_targets p)"
  obtain g where g: "g \<in> set (pl_targets (bp_compute p))" "bg_name t = tg_name g" using bplan_targets(2) [OF assms(1) t] by blast
  show "nd_instance (node_at rc (bg_name t)) = snd (host_at hosts (bg_name t))"
    unfolding boot_hosts_ident [OF assms(2) t] using assms(3) g by (auto simp: live_ident_def running_target_def split: option.splits)
qed

section \<open>The execution\<close>

lemma wp_boot_prepare:
  assumes "in_hand p hosts w" and d: "distinct (map bg_name (bp_targets p))"
  shows "wp (boot_prepare r p hosts) (\<lambda>_. in_hand p hosts) (\<lambda>_. in_hand p hosts) w"
proof -
  let ?ts = "unready p (fw_rec w)" and ?w = "w\<lparr>fw_rec := mark_hosts ''preparing'' (unready p (fw_rec w)) (fw_rec w)\<rparr>"
  have ts: "set ?ts \<subseteq> set (bp_targets p)" "distinct (map bg_name ?ts)" using d by (auto simp: unready_def distinct_map_filter)
  have o: "ours p (fw_rec w)" "linked p hosts (fw_rec w)" "booted p w" using assms(1) by (simp_all add: in_hand_def)
  have m: "marked p hosts (set ?ts) (fw_rec ?w)"
    using o mark_hosts_at [OF o(1)] linked_same [of "fw_rec ?w" "fw_rec w"] by (simp add: marked_def mark_hosts_keeps node_in_def)
  have b: "booted p ?w" using o(3) by simp
  have "wp (if ?ts \<noteq> [] then fsave (br_owner r) else ret ()) (\<lambda>_. told p hosts (set ?ts)) (\<lambda>_. in_hand p hosts) ?w"
  proof (cases "?ts = []")
    case True
    have "told p hosts (set ?ts) ?w" using True m b by (simp add: told_def)
    then show ?thesis using True by (simp add: wp_ret)
  next
    case False
    have "wp (fsave (br_owner r)) (\<lambda>_. told p hosts (set ?ts)) (\<lambda>_ v. if True then in_hand p hosts v else told p hosts (set ?ts) v) ?w"
      by (rule wp_save_marked [OF b m]) simp
    then show ?thesis using False by simp
  qed
  then show ?thesis
    unfolding boot_prepare_def set_frec_def wp_bnd [of "gets _"] wp_gets wp_sq [of "modify _"] wp_modify wp_sq [of "if _ then _ else _"]
    by (rule wp_conseq) (rule keeps_hand_applying [OF ts], assumption)
qed

definition certified :: "brunner \<Rightarrow> bplan \<Rightarrow> oprec \<Rightarrow> (bcall freq, bseen freply) hist \<Rightarrow> bool" where
  "certified r p rc late \<longleftrightarrow> (\<exists>b. rc_boot rc = Some b \<and> bt_plan b = bp_id p \<and> bt_phase b = ''hosts-ready'') \<and> untouched p late \<and>
     (\<forall>t \<in> set (bp_targets p). bn_phase (boot_node_at rc (bg_name t)) = ''ready'' \<and>
        ready_answer r p t (nd_instance (node_at rc (bg_name t))) late)"

definition boot_finished :: "brunner \<Rightarrow> bplan \<Rightarrow> bworld \<Rightarrow> bool" where
  "boot_finished r p w \<longleftrightarrow> booted p w \<and> (\<exists>rc late early. hist w = (FCloud (QSave rc (br_owner r)), WCloud (RUnit (Inr ()))) # late @ early \<and> certified r p rc late)"

lemma set_boot_phase_fields: "rc_nodes (set_boot_phase s rc) = rc_nodes rc" "boot_node_at (set_boot_phase s rc) x = boot_node_at rc x"
  "ours p (set_boot_phase s rc) = ours p rc"
  by (auto simp: set_boot_phase_def boot_node_at_def boot_nodes_of_def ours_def split: option.splits)

lemma wp_boot_finish:
  assumes "in_hand p hosts w"
  shows "wp (boot_finish r p hosts) (\<lambda>_. boot_finished r p) (\<lambda>_. booted p) w"
proof -
  have b: "in_hand p hosts v \<Longrightarrow> booted p v" for v by (simp add: in_hand_def)
  have last: "wp (sq (set_frec (set_boot_phase ''hosts-ready'')) (fsave (br_owner r))) (\<lambda>_. boot_finished r p) (\<lambda>_. booted p) v"
    if v: "in_hand p hosts v" "hist v = late @ h0" "untouched p late" "\<forall>t \<in> set (bp_targets p). sound_host r p hosts late (fw_rec v) t" for v late h0
  proof -
    let ?rc = "set_boot_phase ''hosts-ready'' (fw_rec v)"
    let ?v = "v\<lparr>fw_rec := ?rc\<rparr>"
    have o: "ours p (fw_rec v)" "linked p hosts (fw_rec v)" "booted p v" using v(1) by (simp_all add: in_hand_def)
    obtain bt where bt: "rc_boot (fw_rec v) = Some bt" "bt_plan bt = bp_id p" using o(1) by (auto simp: ours_def)
    have n: "node_at (stamp t ?rc) x = node_at (fw_rec v) x" for t x by (rule node_at_same) (simp add: set_boot_phase_fields)
    have c: "certified r p (stamp t ?rc) late" for t
      unfolding certified_def n using bt v(3,4) o(2) by (simp add: set_boot_phase_fields sound_host_def linked_def) (simp add: set_boot_phase_def)
    have g: "booted p (v\<lparr>fw_rec := rc, hist := (FCloud (QSave rc' owner), a) # hist v\<rparr>)" for rc rc' owner a
      using o(3) by (simp add: booted_def intent_guard_def)
    have "boot_finished r p (?v\<lparr>fw_rec := stamp t (fw_rec ?v), hist := (FCloud (QSave (stamp t (fw_rec ?v)) (br_owner r)), WCloud (RUnit (Inr ()))) # hist ?v\<rparr>)" for t
      unfolding boot_finished_def using g c [of t] v(2) by (intro conjI exI [of _ "stamp t ?rc"] exI [of _ late] exI [of _ h0]) simp_all
    moreover have "booted p (?v\<lparr>fw_rec := stamp t (fw_rec ?v), hist := (FCloud (QSave (stamp t (fw_rec ?v)) (br_owner r)), a) # hist ?v\<rparr>)" for t a
      using g by simp
    ultimately show ?thesis unfolding set_frec_def wp_sq wp_modify by (intro wp_boot_save)
  qed
  have rest: "wp (sq (boot_fleet r p hosts Verifying (bp_targets p)) (sq (set_frec (set_boot_phase ''hosts-ready'')) (fsave (br_owner r))))
      (\<lambda>_. boot_finished r p) (\<lambda>_. booted p) v" if "in_hand p hosts v" for v
    unfolding wp_sq [of "boot_fleet _ _ _ _ _"] by (rule wp_conseq [OF wp_verifying [OF that]]) (use last b in blast)+
  show ?thesis
    unfolding boot_finish_def wp_bnd [of "live_targets _ _"] by (rule wp_conseq [OF keeps_wp [OF keeps_hand_live, OF assms]]) (use rest b in blast)+
qed

lemma keeps_booted_save: "keeps (booted p) (fsave owner)"
  by (rule wp_keeps, rule wp_boot_save) (simp_all add: booted_def intent_guard_def)

lemma keeps_booted_set: "keeps (booted p) (set_frec f)"
  unfolding set_frec_def by (rule keeps_modify) simp

lemma wp_boot_claimed:
  assumes w: "booted p w" and v: "validate_bplan (br_hash r) (br_refs r) (br_recipe r) p = Inr ()"
  shows "wp (boot_claimed r p) (\<lambda>_. boot_finished r p) (\<lambda>_. booted p) w"
proof -
  note d = bplan_targets(1) [OF v]
  have hb: "in_hand p hosts u \<Longrightarrow> booted p u" for hosts u by (simp add: in_hand_def)
  have prep: "wp (sq (boot_prepare r p hosts) (boot_finish r p hosts)) (\<lambda>_. boot_finished r p) (\<lambda>_. booted p) u" if "in_hand p hosts u" for hosts u
    unfolding wp_sq by (rule wp_conseq [OF wp_boot_prepare [OF that d]]) (use wp_boot_finish hb in blast)+
  have probe: "wp (sq (boot_fleet r p hosts Probing (bp_targets p)) (sq (boot_prepare r p hosts) (boot_finish r p hosts))) (\<lambda>_. boot_finished r p) (\<lambda>_. booted p) u"
    if "in_hand p hosts u" for hosts u
    unfolding wp_sq [of "boot_fleet _ _ _ _ _"]
    by (rule wp_conseq [OF keeps_wp [OF keeps_hand_probing, OF _ that]]) (use prep hb in \<open>simp_all\<close>)
  have mark: "wp (sq (set_frec (mark_hosts ''checking'' (bp_targets p))) (sq (fsave (br_owner r))
      (sq (boot_fleet r p hosts Probing (bp_targets p)) (sq (boot_prepare r p hosts) (boot_finish r p hosts))))) (\<lambda>_. boot_finished r p) (\<lambda>_. booted p) u"
    if "in_hand p hosts u" for hosts u
  proof -
    have k: "keeps (in_hand p hosts) (sq (set_frec (mark_hosts ''checking'' (bp_targets p))) (fsave (br_owner r)))"
      by (intro keeps_intros keeps_hand_set keeps_hand_save) (simp_all add: mark_hosts_keeps)
    have "wp (sq (set_frec (mark_hosts ''checking'' (bp_targets p))) (fsave (br_owner r))) (\<lambda>_. in_hand p hosts) (\<lambda>_. in_hand p hosts) u"
      by (rule keeps_wp [OF k, OF that])
    then have "wp (sq (set_frec (mark_hosts ''checking'' (bp_targets p))) (fsave (br_owner r)))
        (\<lambda>_. wp (sq (boot_fleet r p hosts Probing (bp_targets p)) (sq (boot_prepare r p hosts) (boot_finish r p hosts))) (\<lambda>_. boot_finished r p) (\<lambda>_. booted p)) (\<lambda>_. booted p) u"
      by (rule wp_conseq) (use probe hb in blast)+
    then show ?thesis unfolding wp_sq .
  qed
  have found: "wp (bnd (lift (boot_hosts p live)) (\<lambda>hosts. sq (set_frec (mark_hosts ''checking'' (bp_targets p))) (sq (fsave (br_owner r))
      (sq (boot_fleet r p hosts Probing (bp_targets p)) (sq (boot_prepare r p hosts) (boot_finish r p hosts)))))) (\<lambda>_. boot_finished r p) (\<lambda>_. booted p) u"
    if u: "booted p u" "ours p (fw_rec u)" "\<forall>t \<in> set (pl_targets (bp_compute p)). running_target (fw_rec u) live t" for live u
  proof (cases "boot_hosts p live")
    case (Inr hosts)
    have "in_hand p hosts u" using u live_linked [OF v Inr u(3)] by (simp add: in_hand_def)
    from mark [OF this] show ?thesis by (simp add: wp_bnd [of "lift _"] wp_lift Inr)
  qed (use u in \<open>simp add: wp_bnd [of "lift _"] wp_lift\<close>)
  have live: "wp (bnd (live_targets r p) (\<lambda>live. bnd (lift (boot_hosts p live)) (\<lambda>hosts. sq (set_frec (mark_hosts ''checking'' (bp_targets p))) (sq (fsave (br_owner r))
      (sq (boot_fleet r p hosts Probing (bp_targets p)) (sq (boot_prepare r p hosts) (boot_finish r p hosts))))))) (\<lambda>_. boot_finished r p) (\<lambda>_. booted p) u"
    if u: "booted p u" "ours p (fw_rec u)" for u
    unfolding wp_bnd [of "live_targets r p"] by (rule wp_conseq [OF wp_live_targets [OF u(1)]]) (use found u(2) in auto)
  have started: "wp (sq (set_frec (begin_boot r p)) (sq set_changed (sq (fsave (br_owner r)) m))) (\<lambda>_. boot_finished r p) (\<lambda>_. booted p) u"
    if u: "booted p u" and m: "\<And>u. booted p u \<Longrightarrow> ours p (fw_rec u) \<Longrightarrow> wp m (\<lambda>_. boot_finished r p) (\<lambda>_. booted p) u" for u m
  proof -
    let ?u = "u\<lparr>fw_rec := begin_boot r p (fw_rec u), fw_changed := True\<rparr>"
    have o: "ours p (begin_boot r p rc)" for rc by (simp add: ours_def begin_boot_def)
    have "booted p (?u\<lparr>fw_rec := rc, hist := (FCloud (QSave rc' owner), a) # hist ?u\<rparr>)" for rc rc' owner a
      using u by (simp add: booted_def intent_guard_def)
    then have "wp (fsave (br_owner r)) (\<lambda>_ v. booted p v \<and> ours p (fw_rec v)) (\<lambda>_. booted p) ?u"
      using o by (intro wp_boot_save) simp_all
    then have "wp (fsave (br_owner r)) (\<lambda>_. wp m (\<lambda>_. boot_finished r p) (\<lambda>_. booted p)) (\<lambda>_. booted p) ?u"
      by (rule wp_conseq) (use m in blast)+
    then show ?thesis unfolding set_frec_def set_changed_def wp_sq wp_modify by simp
  qed
  show ?thesis
    unfolding boot_claimed_def wp_bnd [of "gets fw_rec"] wp_gets wp_sq [of "lift _"] wp_lift
    using w by (auto split: sum.splits intro!: started live)
qed

lemma wp_boot_quiet: "applied_instance p q = None \<Longrightarrow> booted p w \<Longrightarrow> wp (fcall q f) (\<lambda>_. booted p) (\<lambda>_. booted p) w"
  by (auto simp: wp_fcall Let_def split: sum.splits intro: booted_quiet)

lemma wp_boot_wrapped: "applied_instance p q = None \<Longrightarrow> booted p w \<Longrightarrow> wp (wrapf c (fcall q f)) (\<lambda>_. booted p) (\<lambda>_. booted p) w"
  by (auto simp: wrapf_def wp_bnd wp_attempt wp_fcall wp_fail wp_ret Let_def split: sum.splits intro: booted_quiet)

text \<open>The deferred function keeps the guard and releases the claim; a success ends with the release.\<close>

lemma wp_boot_settle:
  assumes "booted p w"
  shows "wp (fsettle mark saving releasing c owner res)
     (\<lambda>_ v. booted p v \<and> res = Inr () \<and> (\<exists>a. hist v = (FCloud (QRelease c owner), a) # hist w)) (\<lambda>_. booted p) w"
proof -
  let ?tail = "\<lambda>res'. bnd (attempt (fcall (FCloud (QRelease c owner)) (as_unit \<circ> cloud_reply))) (\<lambda>s.
     lift (join_errors res' (case s of Inl e2 \<Rightarrow> Inl (if releasing = [] then e2 else At releasing e2) | Inr _ \<Rightarrow> Inr ()))) :: unit boper"
  have tail: "wp (?tail res') (\<lambda>_ v'. booted p v' \<and> res' = Inr () \<and> (\<exists>a. hist v' = (FCloud (QRelease c owner), a) # hist v)) (\<lambda>_. booted p) v"
    if "booted p v" for res' v
    using that by (cases res') (auto simp: wp_bnd wp_attempt wp_fcall wp_lift Let_def join_errors_def split: sum.splits intro: booted_quiet)
  show ?thesis
  proof (cases res)
    case (Inr u)
    show ?thesis
      unfolding fsettle_def wp_bnd [of "gets _"] wp_gets Inr sum.case wp_bnd [of "ret _"] wp_ret
      by (rule wp_conseq [OF tail [OF assms]]) auto
  next
    case (Inl e)
    let ?mark = "\<lambda>changed. (if changed then sq (set_frec (\<lambda>r. (mark r)\<lparr>rc_error := Some e\<rparr>)) (bnd (attempt (fsave owner))
       (\<lambda>s. ret (join_errors (Inl e) (case s of Inl e2 \<Rightarrow> Inl (At saving e2) | Inr _ \<Rightarrow> Inr ())))) else ret (Inl e)) :: unit res boper"
    have failed: "\<exists>e'. join_errors (Inl e) x = Inl e'" for x by (cases x) (auto simp: join_errors_def)
    have m: "wp (?mark changed) (\<lambda>res' v. booted p v \<and> (\<exists>e'. res' = Inl e')) (\<lambda>_ _. False) w" for changed
    proof (cases changed)
      case True
      have "wp (attempt (fsave owner)) (\<lambda>_. booted p) (\<lambda>_ _. False) (w\<lparr>fw_rec := rc\<rparr>)" for rc
        unfolding wp_attempt by (rule keeps_wp [OF keeps_booted_save]) (simp add: assms)
      then show ?thesis unfolding if_P [OF True] set_frec_def wp_sq wp_modify wp_bnd wp_ret
        by (rule wp_conseq) (use failed in auto)
    qed (use assms in \<open>simp add: wp_ret\<close>)
    show ?thesis
      unfolding fsettle_def wp_bnd [of "gets _"] wp_gets Inl sum.case wp_bnd [of "?mark _"]
    proof (rule wp_conseq [OF m])
      fix res' :: "unit res" and v :: bworld assume "booted p v \<and> (\<exists>e'. res' = Inl e')"
      then show "wp (?tail res') (\<lambda>_ v. booted p v \<and> Inl e = Inr () \<and> (\<exists>a. hist v = (FCloud (QRelease c owner), a) # hist w)) (\<lambda>_. booted p) v"
        by (intro wp_conseq [OF tail]) auto
    qed simp
  qed
qed

definition boot_succeeded :: "brunner \<Rightarrow> bplan \<Rightarrow> bworld \<Rightarrow> bool" where
  "boot_succeeded r p w \<longleftrightarrow> (\<exists>a v. boot_finished r p v \<and> hist w = (FCloud (QRelease (bp_compute p) (br_owner r)), a) # hist v)"

lemma wp_boot_execute:
  assumes "booted p w"
  shows "wp (boot_execute r p) (\<lambda>_ v. booted p v \<and> boot_succeeded r p v) (\<lambda>_. booted p) w"
proof (cases "validate_bplan (br_hash r) (br_refs r) (br_recipe r) p")
  case (Inl e)
  then show ?thesis using assms unfolding boot_execute_def Let_def wp_sq [of "lift _"] wp_lift by simp
next
  case (Inr u)
  then have v: "validate_bplan (br_hash r) (br_refs r) (br_recipe r) p = Inr ()" by simp
  let ?Q = "\<lambda>_ v. booted p v \<and> boot_succeeded r p v"
  let ?settle = "fsettle boot_interrupted ''save bootstrap interruption'' ''release runner claim'' (bp_compute p) (br_owner r)"
  have settle: "wp (?settle res) ?Q (\<lambda>_. booted p) x" if "booted p x" "res = Inr () \<longrightarrow> boot_finished r p x" for res x
    by (rule wp_conseq [OF wp_boot_settle [OF that(1)]]) (use that(2) in \<open>auto simp: boot_succeeded_def\<close>)
  have f: "boot_finished r p x \<Longrightarrow> booted p x" for x by (simp add: boot_finished_def)
  have claimed: "wp (bnd (attempt (boot_claimed r p)) ?settle) ?Q (\<lambda>_. booted p) x" if "booted p x" for x
    unfolding wp_bnd wp_attempt by (rule wp_conseq [OF wp_boot_claimed [OF that v]]; rule settle) (simp_all add: f)
  have acquire: "wp (bnd (wrapf ''claim bootstrap'' (fcall (FCloud (QAcquire (bp_compute p) (br_owner r))) (as_record \<circ> cloud_reply))) (\<lambda>rc.
      sq (modify (\<lambda>w. w\<lparr>fw_rec := rc, fw_changed := False\<rparr>)) (bnd (attempt (boot_claimed r p)) ?settle))) ?Q (\<lambda>_. booted p) x" if "booted p x" for x
    unfolding wp_bnd [of "wrapf _ _"]
    by (rule wp_conseq [OF wp_boot_wrapped [OF _ that]]) (auto simp: wp_sq [of "modify _"] wp_modify intro: claimed)
  have body: "wp (bnd (fcall (FRead (bp_compute p)) stored_reply) (\<lambda>(prior, _). sq (lift (validate_record (br_hash r) (br_refs r) (bp_compute p) prior))
      (sq (reject_if (rc_phase prior \<noteq> ''compute-ready'') (Err ''finish EC2 provisioning before node bootstrap''))
      (bnd (wrapf ''claim bootstrap'' (fcall (FCloud (QAcquire (bp_compute p) (br_owner r))) (as_record \<circ> cloud_reply))) (\<lambda>rc.
      sq (modify (\<lambda>w. w\<lparr>fw_rec := rc, fw_changed := False\<rparr>)) (bnd (attempt (boot_claimed r p)) ?settle)))))) ?Q (\<lambda>_. booted p) x" if "booted p x" for x
    unfolding wp_bnd [of "fcall (FRead _) _"]
    by (rule wp_conseq [OF wp_boot_quiet [OF _ that]])
      (auto simp: wp_sq [of "lift _"] wp_sq [of "reject_if _ _"] wp_lift wp_reject_if split: prod.splits sum.splits intro: acquire)
  have account: "wp (on_cloud (verify_account x)) (\<lambda>_. booted p) (\<lambda>_. booted p) w" for x
    by (rule wp_conseq [OF keeps_wp [OF idle.keeps_on_account [of p "fw_rec w"]]]) (use assms in simp_all)
  show ?thesis
    unfolding boot_execute_def Let_def wp_sq [of "on_cloud _"] wp_sq [of "lift _"] wp_sq [of "reject_if _ _"] wp_reject_if wp_lift
    using assms by (auto simp: v intro!: wp_conseq [OF account] body)
qed

section \<open>The theorems\<close>

lemma boot_run:
  assumes "boot_execute r p w = (res, w')" and "hist w = []"
  shows "booted p w'" "res = Inr () \<Longrightarrow> boot_succeeded r p w'"
proof -
  have "booted p w" using assms(2) by (simp add: booted_def)
  from wp_boot_execute [OF this, of r] assms(1) show "booted p w'" "res = Inr () \<Longrightarrow> boot_succeeded r p w'"
    by (auto simp: wp_def split: sum.splits)
qed

text \<open>C34: A bootstrap writes ahead. In every run, whatever the hosts, AWS, the journal and the scheduler of the
  pool answer, each command sent to a host that asks to apply the recipe to an instance is preceded by
  an acknowledged save, the latest one before it, of a record of this bootstrap plan in which the
  node of that instance is being prepared: after a crash the journal names every host that may be
  half prepared.\<close>

theorem bootstrap_announced:
  assumes "boot_execute r p w = (res, w')" and "hist w = []"
    and "hist w' = newer @ (FHost c, a) # older" and "shell_words (bc_command c) = Some ws"
    and "drop (length (bootstrap_program p)) ws = ''apply'' # own # plan # i # rest"
  shows "\<exists>mid rc owner old b t. older = mid @ (FCloud (QSave rc owner), WCloud (RUnit (Inr ()))) # old \<and>
    (\<forall>(q', a') \<in> set mid. boot_saved q' a' = None) \<and> rc_boot rc = Some b \<and> bt_plan b = bp_id p \<and>
    t \<in> set (bp_targets p) \<and> nd_instance (node_at rc (bg_name t)) = i \<and> bn_phase (boot_node_at rc (bg_name t)) = ''preparing''"
proof -
  have k: "applied_instance p (FHost c) = Some i" using assms(4,5) by (simp add: applied_words_def)
  obtain mid sq sr old rc where s: "older = mid @ (sq, sr) # old" "boot_saved sq sr = Some rc" "prepared_for p rc i"
    "\<forall>(q', a') \<in> set mid. boot_saved q' a' = None"
    using booting.effect_announced [OF boot_run(1) [OF assms(1,2), unfolded booted_def] assms(3) k] by blast
  obtain owner where "sq = FCloud (QSave rc owner)" "sr = WCloud (RUnit (Inr ()))"
    using s(2) by (cases "(sq, sr)" rule: boot_saved.cases) auto
  then show ?thesis using s by (auto simp: prepared_for_def)
qed

theorem bootstrap_announced_witness:
  "\<exists>w' newer c a older mid rc owner old b i. boot_execute devnet_booter devnet_bplan boot_world = (Inr (), w') \<and>
    hist w' = newer @ (FHost c, a) # older \<and> applied_instance devnet_bplan (FHost c) = Some i \<and>
    older = mid @ (FCloud (QSave rc owner), WCloud (RUnit (Inr ()))) # old \<and> rc_boot rc = Some b \<and> bt_plan b = bp_id devnet_bplan"
proof -
  obtain w' c a i where r: "boot_execute devnet_booter devnet_bplan boot_world = (Inr (), w')" "(FHost c, a) \<in> set (hist w')"
    "applied_instance devnet_bplan (FHost c) = Some i" using devnet_boots by blast
  obtain newer older where h: "hist w' = newer @ (FHost c, a) # older" using r(2) by (meson split_list)
  obtain ws own plan rest where ws: "shell_words (bc_command c) = Some ws" "drop (length (bootstrap_program devnet_bplan)) ws = ''apply'' # own # plan # i # rest"
    using r(3) by (auto simp: applied_words_def split: option.splits list.splits if_splits)
  have e: "hist boot_world = []" by (simp add: boot_world_def)
  from bootstrap_announced [OF r(1) e h ws] r(1,3) h show ?thesis by blast
qed

text \<open>C38: What a finished bootstrap has shown. When a run reports success, its last exchanges are the
  acknowledged save of a record that holds this plan as hosts-ready and the release of the claim, and
  between the last command that applied the recipe to any host and that save every target of the plan
  has answered a probe, on the instance the record holds for it, as ready with valid runtime versions;
  the record saves every node as ready.\<close>

theorem bootstrap_certifies:
  assumes "boot_execute r p w = (Inr (), w')" and "hist w = []"
  shows "\<exists>a rc b late early. hist w' = (FCloud (QRelease (bp_compute p) (br_owner r)), a) #
      (FCloud (QSave rc (br_owner r)), WCloud (RUnit (Inr ()))) # late @ early \<and>
    rc_boot rc = Some b \<and> bt_plan b = bp_id p \<and> bt_phase b = ''hosts-ready'' \<and>
    (\<forall>(q, x) \<in> set late. applied_instance p q = None) \<and>
    (\<forall>t \<in> set (bp_targets p). bn_phase (boot_node_at rc (bg_name t)) = ''ready'' \<and>
      (\<exists>c x o1. (FHost c, x) \<in> set late \<and> bootstrap_command r p t (nd_instance (node_at rc (bg_name t))) ''probe'' = Inr (bc_command c, bc_script c) \<and>
        check_response p t (nd_instance (node_at rc (bg_name t))) (run_reply x) = Inr o1 \<and> bo_ready o1))"
proof -
  obtain a v where v: "boot_finished r p v" "hist w' = (FCloud (QRelease (bp_compute p) (br_owner r)), a) # hist v"
    using boot_run(2) [OF assms refl] by (auto simp: boot_succeeded_def)
  obtain rc late early where h: "hist v = (FCloud (QSave rc (br_owner r)), WCloud (RUnit (Inr ()))) # late @ early" "certified r p rc late"
    using v(1) by (auto simp: boot_finished_def)
  obtain b where b: "rc_boot rc = Some b" "bt_plan b = bp_id p" "bt_phase b = ''hosts-ready''" using h(2) by (auto simp: certified_def)
  have "\<forall>(q, x) \<in> set late. applied_instance p q = None" using h(2) by (simp add: certified_def untouched_def)
  with v(2) b h show ?thesis
    by (intro exI [of _ a] exI [of _ rc] exI [of _ b] exI [of _ late] exI [of _ early] conjI) (auto simp: certified_def ready_answer_def)
qed

theorem bootstrap_certifies_witness:
  "\<exists>w' a rc b late early. boot_execute devnet_booter devnet_bplan boot_world = (Inr (), w') \<and>
    hist w' = (FCloud (QRelease devnet_plan ''runner-1''), a) # (FCloud (QSave rc ''runner-1''), WCloud (RUnit (Inr ()))) # late @ early \<and>
    rc_boot rc = Some b \<and> bt_phase b = ''hosts-ready'' \<and>
    (\<exists>t c x o1. t \<in> set (bp_targets devnet_bplan) \<and> (FHost c, x) \<in> set late \<and>
      check_response devnet_bplan t (nd_instance (node_at rc (bg_name t))) (run_reply x) = Inr o1 \<and> bo_ready o1)"
proof -
  obtain w' where r: "boot_execute devnet_booter devnet_bplan boot_world = (Inr (), w')" using devnet_boots by blast
  have e: "hist boot_world = []" by (simp add: boot_world_def)
  obtain t where t: "t \<in> set (bp_targets devnet_bplan)" using hd_in_set [OF devnet_some] unfolding devnet_btargets(1) by (metis image_eqI list.set_map)
  note c = bootstrap_certifies [OF r e, unfolded devnet_parts devnet_booter_parts]
  from c show ?thesis
  proof (elim exE conjE)
    fix a rc b late early
    assume h: "hist w' = (FCloud (QRelease devnet_plan ''runner-1''), a) # (FCloud (QSave rc ''runner-1''), WCloud (RUnit (Inr ()))) # late @ early"
      "rc_boot rc = Some b" "bt_phase b = ''hosts-ready''"
      and g: "\<forall>t \<in> set (bp_targets devnet_bplan). bn_phase (boot_node_at rc (bg_name t)) = ''ready'' \<and>
      (\<exists>c x o1. (FHost c, x) \<in> set late \<and> bootstrap_command devnet_booter devnet_bplan t (nd_instance (node_at rc (bg_name t))) ''probe'' = Inr (bc_command c, bc_script c) \<and>
        check_response devnet_bplan t (nd_instance (node_at rc (bg_name t))) (run_reply x) = Inr o1 \<and> bo_ready o1)"
    obtain c x o1 where "(FHost c, x) \<in> set late" "check_response devnet_bplan t (nd_instance (node_at rc (bg_name t))) (run_reply x) = Inr o1" "bo_ready o1"
      using bspec [OF g t] by (elim exE conjE)
    with r h t show ?thesis by (intro exI conjI)
  qed
qed

end
