(* ===== verification/Spec2Isabelle.thy ===== *)
theory Spec2Isabelle
  imports Plan_Properties Operation_Record Provision_Sample Core_Join Managed_Rollout Managed_Resolve Deploy_Safety Upgrade_Safety
    Bootstrap_Safety
begin

text \<open>
  A model of \<open>dash-network-go\<close>, the Go program that plans, provisions, installs, deploys, upgrades and
  checks Dash networks on EC2. It is pure decision logic around four things it does not control: AWS,
  a DynamoDB journal, container registries and SSH hosts. The development translates that logic and
  proves what it guarantees however those four behave.

  \<^bold>\<open>The program and its parts.\<close> An operator's definition (\<open>internal/spec\<close>) is compiled to an immutable
  EC2 plan (\<open>internal/provision/plan.go\<close>) whose identity is a digest of its own text. A release lock
  (\<open>internal/release\<close>) pins the images by digest. Executing the plan claims the network's item in the
  journal (\<open>internal/journal\<close>), launches and adopts instances and Elastic IPs
  (\<open>internal/provision/runner.go\<close>, \<open>ec2.go\<close>, \<open>ipam.go\<close>) and may later retire the addresses
  (\<open>ipam_release.go\<close>). A host bootstrap plan (\<open>internal/bootstrap\<close>) adds access and images; a deployment
  plan (\<open>internal/lifecycle/plan.go\<close>) adds the chain. The deployment (\<open>lifecycle/runner.go\<close>) drives the
  hosts through the node protocol (\<open>internal/node\<close>) stage by stage, checkpointing in the same record,
  and ends with a two-sample health check (\<open>lifecycle/health.go\<close>). A second engine
  (\<open>internal/managed\<close>) reconciles fleets it did not create and shares the journal's table.

  \<^bold>\<open>Theories, in the order of the code.\<close>
  \<^item> \<open>Prelude\<close>: errors, results, checks, loops with carried variables, Go's string helpers and maps.
    \<open>Regexp\<close>: the anchored regular expressions of the repository. \<open>Netaddr\<close>: what is used of Go's
    \<open>net\<close> and \<open>netip\<close>. \<open>Ops\<close>: operations over a world, their weakest preconditions, \<open>keeps\<close>,
    guarded histories, and the locale \<open>write_ahead\<close>.
  \<^item> \<open>Spec\<close> (\<open>internal/spec\<close>), \<open>Provision_Plan\<close> and \<open>Plan_Properties\<close> (\<open>provision/plan.go\<close>),
    \<open>Release_Lock\<close> (\<open>internal/release\<close>), \<open>Sample\<close> (a concrete definition and plan for the witnesses).
  \<^item> \<open>Operation_Record\<close>: the journal record, its progress structures and every validator of them
    (\<open>provision/runner.go\<close>, \<open>bootstrap.go\<close>, \<open>deployment.go\<close>, \<open>join.go\<close>, \<open>sidecar.go\<close>, \<open>upgrade.go\<close>).
  \<^item> \<open>Ec2\<close> (\<open>ec2.go\<close>, \<open>preflight.go\<close>), \<open>Ipam\<close> and \<open>Ipam_Safety\<close> (\<open>ipam.go\<close>), \<open>Provision\<close> and
    \<open>Provision_Launch\<close> (\<open>Execute\<close>), \<open>Ipam_Release\<close> (\<open>ipam_release.go\<close>), \<open>Provision_Sample\<close> (whole runs that
    launch an instance, allocate and associate its address, and retire the address afterwards).
  \<^item> \<open>Dynamo_Table\<close> (a table with conditional writes) and \<open>Journal\<close> (\<open>internal/journal\<close>).
  \<^item> \<open>Bootstrap_Plan\<close>, \<open>Core_Join\<close> (\<open>node/join.go\<close>), \<open>Node_Protocol\<close> (\<open>node/node.go\<close>,
    \<open>node/upgrade.go\<close>), \<open>Fleet_Ops\<close> (what the executors over hosts share; concurrent batches).
  \<^item> \<open>Bootstrap_Run\<close> (\<open>bootstrap/node.go\<close> and \<open>runner.go\<close>: the command of the recipe, the check of a response,
    \<open>fleet\<close> and \<open>Execute\<close>), \<open>Shell_Words\<close> (how a shell splits that command), \<open>Bootstrap_Guard\<close>,
    \<open>Bootstrap_Sample\<close> (a whole run) and \<open>Bootstrap_Safety\<close> (no host is prepared unannounced, success is fresh
    evidence from every host).
  \<^item> \<open>Chain_Plan\<close>, \<open>Chain_Runtime\<close> (\<open>runtime.go\<close>, \<open>upgrade_plan.go\<close>), \<open>Chain_Health\<close>
    (\<open>health.go\<close>); \<open>Chain_Deploy\<close> (\<open>lifecycle/runner.go\<close>: \<open>Execute\<close>, the stages of \<open>deploy\<close>, the
    stop of a fleet), \<open>Deploy_Guard\<close> and \<open>Deploy_Safety\<close> (its write-ahead stages, the order of a stop,
    what success means, the release of the claim); \<open>Chain_Upgrade\<close> (\<open>lifecycle/upgrade_runner.go\<close>:
    evidence of preservation, staging, the pause of mining, the replacement of one node at a time),
    \<open>Upgrade_Guard\<close> and \<open>Upgrade_Safety\<close> (one replacement at a time, each under a saved intent and
    behind a gate, and mining is always resumed); the samples \<open>Chain_Sample\<close>, \<open>Chain_World\<close>,
    \<open>Deploy_Sample\<close> and \<open>Upgrade_Sample\<close> (whole runs of a devnet).
  \<^item> \<open>Managed_Fleet\<close> (\<open>managed/types.go\<close>), \<open>Managed_Store\<close>, \<open>Managed_Health\<close>, \<open>Managed_Gate\<close>,
    \<open>Managed_Runner\<close> and \<open>Managed_Rollout\<close> (\<open>managed/runner.go\<close>, \<open>cloud.go\<close>), \<open>Managed_Resolve\<close>.

  \<^bold>\<open>How state and effects correspond.\<close> Structs are records and enums are strings or datatypes as in
  the code. A Go map is an \<open>fmap\<close> (a nil map reads as the empty one; the one place that tells them
  apart is an option), a string a list of characters, a host's \<open>int64\<close> a 64-bit word read with \<open>sint\<close>, a
  time an integer number of nanoseconds. Errors are values of \<open>gerr\<close>, and every early return is a
  branch. The functions that read or change something outside are \<open>oper\<close>ations over a world: the
  local variables of the running function, the history of exchanges (newest first), and an
  environment that answers a request from the whole history. A theorem over every environment thus
  covers every behaviour of AWS, of the journal and other runners, of the registry, of the hosts and
  of the clock. A deferred function runs on every exit (\<open>attempt\<close>). The journal methods are also run
  against an explicit table (\<open>exec\<close>), with any interleaving of the requests of any number of runners.
  A batch of concurrent host calls asks the environment which outstanding result is taken next, so
  every interleaving of workers and checkpoints is one of its answers. \<open>each\<close> allows more than the
  code does: it has no bound on the calls in flight and does not cancel the others after a failed
  save, so a theorem over its runs covers those of the code; the pool of a bootstrap (\<open>fleet_loop\<close>) has
  its bound of 16. The samples of a health check are independent reads, made in plan order.

  \<^bold>\<open>Where the model differs.\<close> The revisions \<open>rc_revision\<close> and \<open>mr_revision\<close> are unbounded integers; the code's
  \<open>int64\<close> would wrap after 2^63 saves. The last error of a record is kept as a structured error, not as the
  truncated text that Go stores; nothing decides on it. \<open>resolve\<close> returns the error alone where \<open>Resolve\<close>
  returns the lock together with the error of its validation, which no caller uses. A reply that the
  SDK's method cannot give is an error of transport.

  \<^bold>\<open>Bounds and fuel.\<close> Paginated reads take a number of rounds; \<open>discovery_ends\<close> shows that one more
  than the number of page tokens is enough, because a repeated token is refused. Loops that poll until
  a host is ready take a number of rounds too, and running out is the error \<open>OutOfFuel\<close>, which the
  deferred function treats as any other interruption; the code bounds them by the context's deadline.
  The safety theorems hold for every number of rounds.

  \<^bold>\<open>What the lemmas show.\<close> Plans and locks: what validation guarantees, builder and validator agree,
  identities bind content. Record: fresh records are valid, an upgrade stays inside its review.
  Journal: claim, fencing by revision, readability after any interleaving, cleanup preserves history.
  Executors: every change outside is announced by the latest acknowledged save before it
  (\<open>write_ahead\<close>), nothing is launched twice, only enrolled hosts change, gates precede withdrawals.
  Health: a healthy verdict is two consistent, advancing samples of the whole fleet.

  \<^bold>\<open>Parameters.\<close> The image reference library is the record \<open>image_refs\<close>; SHA-256 of the JSON text of a
  plan is a \<open>hasher\<close>, and where a theorem needs it, the absence of a collision is a named hypothesis;
  the digests of the embedded recipe and workers are strings; registry, SSH, AWS and DynamoDB are
  answers of the environment, JSON texts are decoded documents with their size.

  \<^bold>\<open>Not modelled.\<close> The join of a fullnode to the public testnet (\<open>internal/join\<close>; its contract is in \<open>Core_Join\<close>); the host
  keys that \<open>bootstrap/trust.go\<close> reads from the EC2 console; \<open>internal/plan\<close>, \<open>inventory\<close> and \<open>status\<close>, reports
  that nothing executes; \<open>internal/transport\<close> and \<open>internal/seedtls\<close> (SSH, X.509 and process execution of libraries);
  \<open>internal/files\<close> (file-system calls); \<open>internal/cli\<close> and \<open>cmd\<close> (flags, printing, wiring); the Python
  workers that run on the hosts, which appear as the hosts' answers; progress reports, which nothing
  reads back; test fixtures.
\<close>

end
